(* ===== verification/Prelude.thy ===== *)
theory Prelude
  imports Main
begin

text \<open>
  What the components share: the JavaScript operators the source uses on optional
  values and strings, decimal printing of integers, JSON values, and association
  lists in the insertion order of a JavaScript \<open>Map\<close>.
  A value that may be \<open>undefined\<close> or \<open>null\<close> is an \<open>option\<close>; the model does not
  tell the two apart where the source does not. JavaScript numbers are modelled as
  \<open>int\<close>: every number the modelled code computes with is integral (milliseconds,
  counters, ports).
\<close>

named_theorems mi_defs \<open>definitions of the model that component proofs unfold\<close>

section \<open>JavaScript operators\<close>

text \<open>\<open>a ?? b\<close>: the right operand only for \<open>undefined\<close> and \<open>null\<close>.\<close>

definition nullish :: "'a option \<Rightarrow> 'a \<Rightarrow> 'a" where
  "nullish a b = (case a of None \<Rightarrow> b | Some x \<Rightarrow> x)"

lemma nullish_simps [simp]:
  "nullish None b = b"
  "nullish (Some x) b = x"
  by (simp_all add: nullish_def)

text \<open>\<open>Array.from(new Set(xs))\<close> keeps the first of equal elements.\<close>

definition js_unique :: "'a list \<Rightarrow> 'a list" where
  "js_unique xs = rev (remdups (rev xs))"

text \<open>\<open>a || b\<close> on a string that may be \<open>undefined\<close>: the right operand also for the empty string.\<close>

definition or_str :: "string option \<Rightarrow> string \<Rightarrow> string" where
  "or_str a b = (case a of None \<Rightarrow> b | Some x \<Rightarrow> if x = [] then b else x)"

lemma or_str_simps [simp]:
  "or_str None b = b"
  "or_str (Some []) b = b"
  "x \<noteq> [] \<Longrightarrow> or_str (Some x) b = x"
  by (simp_all add: or_str_def)

lemma or_str_empty [simp]: "or_str (Some x) [] = x"
  by (simp add: or_str_def)

text \<open>\<open>n || d\<close> on a number that may be \<open>undefined\<close>: the right operand also for 0.\<close>

definition or_num :: "int option \<Rightarrow> int \<Rightarrow> int" where
  "or_num a b = (case a of None \<Rightarrow> b | Some x \<Rightarrow> if x = 0 then b else x)"

lemma or_num_simps [simp]:
  "or_num None b = b"
  "or_num (Some 0) b = b"
  "x \<noteq> 0 \<Longrightarrow> or_num (Some x) b = x"
  by (simp_all add: or_num_def)

text \<open>Truthiness of an optional string (\<open>if (x)\<close>).\<close>

definition truthy :: "string option \<Rightarrow> bool" where
  "truthy a = (case a of None \<Rightarrow> False | Some x \<Rightarrow> x \<noteq> [])"

lemma truthy_simps [simp]:
  "\<not> truthy None"
  "truthy (Some x) \<longleftrightarrow> x \<noteq> []"
  by (simp_all add: truthy_def)

lemma truthyE: "truthy a \<Longrightarrow> (\<And>x. a = Some x \<Longrightarrow> x \<noteq> [] \<Longrightarrow> P) \<Longrightarrow> P"
  by (cases a) auto

section \<open>Strings\<close>

definition digit_char :: "nat \<Rightarrow> char" where
  "digit_char n = ''0123456789'' ! n"

fun string_of_nat :: "nat \<Rightarrow> string" where
  "string_of_nat n =
     (if n < 10 then [digit_char n] else string_of_nat (n div 10) @ [digit_char (n mod 10)])"

declare string_of_nat.simps [simp del]

definition string_of_int :: "int \<Rightarrow> string" where
  "string_of_int i = (if i < 0 then ''-'' @ string_of_nat (nat (- i)) else string_of_nat (nat i))"

text \<open>\<open>Array.join\<close>.\<close>

fun join_str :: "string \<Rightarrow> string list \<Rightarrow> string" where
  "join_str sep [] = []"
| "join_str sep [x] = x"
| "join_str sep (x # y # xs) = x @ sep @ join_str sep (y # xs)"

text \<open>\<open>String.startsWith\<close> and \<open>String.includes\<close>.\<close>

fun starts_with :: "string \<Rightarrow> string \<Rightarrow> bool" where
  "starts_with s [] = True"
| "starts_with [] (_ # _) = False"
| "starts_with (c # s) (d # p) = (c = d \<and> starts_with s p)"

fun includes_str :: "string \<Rightarrow> string \<Rightarrow> bool" where
  "includes_str [] p = starts_with [] p"
| "includes_str (c # s) p = (starts_with (c # s) p \<or> includes_str s p)"

lemma starts_with_append [simp]: "starts_with (p @ s) p"
  by (induction p) auto

lemma includes_str_append [simp]: "includes_str (a @ p @ b) p"
proof (induction a)
  case Nil
  show ?case by (cases "p @ b") (use starts_with_append [of p b] in auto)
next
  case (Cons x a)
  then show ?case by simp
qed

text \<open>\<open>Array.indexOf\<close> and \<open>findIndex\<close> as an optional position.\<close>

fun find_index :: "('a \<Rightarrow> bool) \<Rightarrow> 'a list \<Rightarrow> nat option" where
  "find_index P [] = None"
| "find_index P (x # xs) = (if P x then Some 0 else map_option Suc (find_index P xs))"

lemma find_index_SomeD:
  "find_index P xs = Some i \<Longrightarrow> i < length xs \<and> P (xs ! i) \<and> (\<forall>j < i. \<not> P (xs ! j))"
proof (induction xs arbitrary: i)
  case (Cons x xs)
  show ?case
  proof (cases "P x")
    case True
    with Cons.prems show ?thesis by simp
  next
    case False
    with Cons.prems obtain k where k: "find_index P xs = Some k" "i = Suc k" by auto
    from Cons.IH [OF k(1)] have "k < length xs" "P (xs ! k)" "\<forall>j < k. \<not> P (xs ! j)" by auto
    with False k(2) show ?thesis by (auto simp: less_Suc_eq_0_disj)
  qed
qed simp

lemma find_index_None_iff: "find_index P xs = None \<longleftrightarrow> (\<forall>x \<in> set xs. \<not> P x)"
  by (induction xs) auto

text \<open>\<open>Array.find\<close> on a list that has been appended to.\<close>

lemma find_append_case:
  "find P (xs @ ys) = (case find P xs of None \<Rightarrow> find P ys | Some x \<Rightarrow> Some x)"
  by (induction xs) auto

section \<open>JSON values\<close>

datatype json =
    JNull
  | JBool bool
  | JNum int
  | JStr string
  | JArr "json list"
  | JObj "(string \<times> json) list"

text \<open>\<open>String(x)\<close>, and the conversion a template literal makes.\<close>

fun js_string :: "json \<Rightarrow> string" where
  "js_string JNull = ''null''"
| "js_string (JBool b) = (if b then ''true'' else ''false'')"
| "js_string (JNum n) = string_of_int n"
| "js_string (JStr s) = s"
| "js_string (JArr xs) = join_str '','' (map (\<lambda>x. if x = JNull then [] else js_string x) xs)"
| "js_string (JObj m) = ''[object Object]''"

text \<open>\<open>a ?? b\<close> on a field of a JSON object, which may be absent or \<open>null\<close>.\<close>

definition json_or :: "json option \<Rightarrow> json \<Rightarrow> json" where
  "json_or a b = (case a of None \<Rightarrow> b | Some JNull \<Rightarrow> b | Some j \<Rightarrow> j)"

section \<open>Maps in insertion order\<close>

text \<open>
  \<open>Map.set\<close> of a key that is there keeps the key's place, of a new key appends it.
\<close>

fun om_set :: "'k \<Rightarrow> 'v \<Rightarrow> ('k \<times> 'v) list \<Rightarrow> ('k \<times> 'v) list" where
  "om_set k v [] = [(k, v)]"
| "om_set k v ((a, b) # m) = (if a = k then (k, v) # m else (a, b) # om_set k v m)"

definition om_delete :: "'k \<Rightarrow> ('k \<times> 'v) list \<Rightarrow> ('k \<times> 'v) list" where
  "om_delete k m = filter (\<lambda>(a, _). a \<noteq> k) m"

abbreviation om_get :: "('k \<times> 'v) list \<Rightarrow> 'k \<Rightarrow> 'v option" where
  "om_get m k \<equiv> map_of m k"

definition om_wf :: "('k \<times> 'v) list \<Rightarrow> bool" where
  "om_wf m \<longleftrightarrow> distinct (map fst m)"

lemma om_get_set [simp]: "map_of (om_set k v m) = (map_of m)(k \<mapsto> v)"
  by (induction k v m rule: om_set.induct) auto

lemma om_get_delete [simp]: "map_of (om_delete k m) = (map_of m)(k := None)"
  by (induction m) (auto simp: om_delete_def)

lemma om_keys_set: "fst ` set (om_set k v m) = insert k (fst ` set m)"
  by (induction k v m rule: om_set.induct) auto

lemma om_wf_Nil [simp]: "om_wf []"
  by (simp add: om_wf_def)

lemma om_wf_set [simp]: "om_wf m \<Longrightarrow> om_wf (om_set k v m)"
proof (induction k v m rule: om_set.induct)
  case (2 k v a b m)
  then show ?case using om_keys_set [of k v m] by (auto simp: om_wf_def)
qed (simp add: om_wf_def)

lemma om_wf_delete [simp]: "om_wf m \<Longrightarrow> om_wf (om_delete k m)"
proof (induction m)
  case (Cons p m)
  then show ?case by (cases p) (auto simp: om_wf_def om_delete_def)
qed (simp add: om_delete_def)

lemma om_length_set_new: "k \<notin> fst ` set m \<Longrightarrow> om_set k v m = m @ [(k, v)]"
  by (induction k v m rule: om_set.induct) auto

lemma om_length_delete:
  "om_wf m \<Longrightarrow> length (om_delete k m) = (if k \<in> fst ` set m then length m - 1 else length m)"
proof (induction m)
  case (Cons p m)
  obtain a b where p: "p = (a, b)" by (cases p)
  show ?case
  proof (cases "a = k")
    case True
    with Cons.prems p have "k \<notin> fst ` set m" by (simp add: om_wf_def)
    with True p Cons show ?thesis by (simp add: om_delete_def om_wf_def)
  next
    case False
    with p Cons show ?thesis
      by (cases m) (auto simp: om_delete_def om_wf_def)
  qed
qed (simp add: om_delete_def)

text \<open>\<open>{ ...a, ...b }\<close>.\<close>

definition obj_merge :: "('k \<times> 'v) list \<Rightarrow> ('k \<times> 'v) list \<Rightarrow> ('k \<times> 'v) list" where
  "obj_merge a b = foldl (\<lambda>m (k, v). om_set k v m) a b"

lemma obj_merge_keys: "fst ` set (obj_merge a b) = fst ` set a \<union> fst ` set b"
proof (induction b arbitrary: a)
  case (Cons p b)
  obtain k v where p: "p = (k, v)" by fastforce
  from Cons.IH [of "om_set k v a"] show ?case
    by (simp add: obj_merge_def p om_keys_set)
qed (simp add: obj_merge_def)

lemma obj_merge_get: "map_of (obj_merge a b) k = (case map_of (rev b) k of Some v \<Rightarrow> Some v | None \<Rightarrow> map_of a k)"
proof (induction b arbitrary: a)
  case (Cons p b)
  obtain k' v where p: "p = (k', v)" by fastforce
  from Cons.IH [of "om_set k' v a"] show ?case
    by (simp add: obj_merge_def p map_add_def split: option.split)
qed (simp add: obj_merge_def)

text \<open>\<open>new Map(xs.map(x => [key(x), x]))\<close>: the last element of a key counts, at the place of the first.\<close>

definition om_collect :: "('a \<Rightarrow> 'k) \<Rightarrow> 'a list \<Rightarrow> ('k \<times> 'a) list" where
  "om_collect key xs = foldl (\<lambda>m x. om_set (key x) x m) [] xs"

lemma om_set_pairs: "(k, v) \<in> set (om_set k' v' m) \<Longrightarrow> (k, v) = (k', v') \<or> (k, v) \<in> set m"
  by (induction k' v' m rule: om_set.induct) (auto split: if_splits)

lemma om_collect_wf [simp]: "om_wf (om_collect key xs)"
proof -
  have "om_wf acc \<Longrightarrow> om_wf (foldl (\<lambda>m x. om_set (key x) x m) acc xs)" for acc
    by (induction xs arbitrary: acc) auto
  then show ?thesis by (simp add: om_collect_def)
qed

lemma om_collect_lookup: "om_get (om_collect key xs) k = find (\<lambda>x. key x = k) (rev xs)"
proof -
  have "om_get (foldl (\<lambda>m x. om_set (key x) x m) acc xs) k =
      (case find (\<lambda>x. key x = k) (rev xs) of Some x \<Rightarrow> Some x | None \<Rightarrow> om_get acc k)" for acc
    by (induction xs arbitrary: acc) (auto simp: find_append_case split: option.split)
  from this [of "[]"] show ?thesis by (simp add: om_collect_def split: option.split)
qed

lemma om_collect_pairs: "(k, x) \<in> set (om_collect key xs) \<Longrightarrow> x \<in> set xs \<and> k = key x"
proof -
  have "(k, x) \<in> set (foldl (\<lambda>m x. om_set (key x) x m) acc xs) \<Longrightarrow>
      (x \<in> set xs \<and> k = key x) \<or> (k, x) \<in> set acc" for acc
  proof (induction xs arbitrary: acc)
    case (Cons y xs)
    from Cons.IH [of "om_set (key y) y acc"] Cons.prems om_set_pairs [of k x "key y" y acc] show ?case by auto
  qed simp
  from this [of "[]"] show "(k, x) \<in> set (om_collect key xs) \<Longrightarrow> x \<in> set xs \<and> k = key x"
    by (simp add: om_collect_def)
qed

lemma om_collect_keys: "fst ` set (om_collect key xs) = key ` set xs"
proof -
  have "fst ` set (foldl (\<lambda>m x. om_set (key x) x m) acc xs) = key ` set xs \<union> fst ` set acc" for acc
    by (induction xs arbitrary: acc) (auto simp: om_keys_set)
  from this [of "[]"] show ?thesis by (simp add: om_collect_def)
qed

lemma find_SomeD: "find P xs = Some x \<Longrightarrow> x \<in> set xs \<and> P x"
  by (induction xs) (auto split: if_splits)

lemma find_key_distinct: "distinct (map key xs) \<Longrightarrow> x \<in> set xs \<Longrightarrow> find (\<lambda>y. key y = key x) xs = Some x"
  by (induction xs) (auto simp: rev_image_eqI)

lemma om_collect_distinct:
  "distinct (map key xs) \<Longrightarrow> x \<in> set xs \<Longrightarrow> om_get (om_collect key xs) (key x) = Some x"
  using find_key_distinct [of key "rev xs" x] by (simp add: om_collect_lookup distinct_map)

lemma om_collect_SomeD: "om_get (om_collect key xs) k = Some x \<Longrightarrow> x \<in> set xs \<and> key x = k"
  by (auto simp: om_collect_lookup dest: find_SomeD)

lemma om_collect_None: "om_get (om_collect key xs) k = None \<longleftrightarrow> k \<notin> key ` set xs"
  by (auto simp: om_collect_lookup find_None_iff)

end
