(* ===== verification/Statechart.thy ===== *)
theory Statechart
  imports Prelude
begin

text \<open>
  The events the deployment state machines of \<open>server/src/services/haproxy\<close> exchange with
  their actions, and the shape of an xstate machine: a table of state nodes, each with the
  handlers of its \<open>on\<close> block, its entry actions, its \<open>after\<close> timer, its eventless
  transition and its \<open>final\<close> mark. xstate itself is a library: what is used of it here is
  the documented meaning of such a table (\<open>sc_step\<close>): an event a node does not handle leaves
  the snapshot alone, a transition runs its assignments and then the target's entry actions,
  and a machine that has entered a final node has stopped.
\<close>

section \<open>Events\<close>

text \<open>
  An event is an object with a \<open>type\<close> and the fields its type carries; a field that is
  absent is \<open>None\<close>.
\<close>

datatype evtype =
    START_DEPLOYMENT | START_REMOVAL
  | DEPLOYMENT_SUCCESS | DEPLOYMENT_ERROR
  | CONTAINERS_RUNNING | STARTUP_TIMEOUT
  | LB_CONFIGURED | LB_CONFIG_ERROR
  | SERVERS_HEALTHY | HEALTH_CHECK_TIMEOUT
  | FRONTEND_CONFIGURED | FRONTEND_CONFIG_SKIPPED | FRONTEND_CONFIG_ERROR
  | TRAFFIC_ENABLED | TRAFFIC_ENABLE_FAILED
  | TRAFFIC_VALIDATED | VALIDATION_FAILED | TRAFFIC_STABLE | CRITICAL_ISSUES
  | DRAIN_INITIATED | DRAIN_COMPLETE | DRAIN_TIMEOUT | DRAIN_ISSUES
  | LB_REMOVAL_SUCCESS | LB_REMOVAL_FAILED
  | BLUE_APP_STOPPED | BLUE_APP_STOP_ERROR | STOP_SUCCESS | STOP_FAILED
  | BLUE_APP_REMOVED | BLUE_APP_REMOVAL_ERROR | REMOVAL_SUCCESS | REMOVAL_FAILED
  | FRONTEND_REMOVED | FRONTEND_REMOVAL_SKIPPED | FRONTEND_REMOVAL_ERROR
  | ROLLBACK_BLUE_TRAFFIC_RESTORED | ROLLBACK_GREEN_TRAFFIC_DISABLED
  | ROLLBACK_GREEN_CONFIG_REMOVED | ROLLBACK_GREEN_APP_STOPPED | ROLLBACK_GREEN_APP_REMOVED
  | ROLLBACK_FRONTEND_REMOVED | ROLLBACK_FRONTEND_REMOVAL_SKIPPED
  | ROLLBACK_CONFIG_REMOVED | ROLLBACK_APP_STOPPED | ROLLBACK_APP_REMOVED
  | ROLLBACK_COMPLETE | ROLLBACK_ERROR | GREEN_LB_REMOVAL_ERROR
  | DEPLOYMENT_COMPLETE | CLEANUP_SUCCESS | CLEANUP_FAILED
  | RESET | MANUAL_INTERVENTION_COMPLETE

record hevent =
  evtype :: evtype
  ev_error :: "string option"
  ev_containerId :: "string option"
  ev_containerName :: "string option"
  ev_containerIpAddress :: "string option"
  ev_containerPort :: "int option"
  ev_frontendName :: "string option"
  ev_containers :: "string list option"

definition plain_event :: "evtype \<Rightarrow> hevent" where
  "plain_event t = \<lparr>evtype = t, ev_error = None, ev_containerId = None, ev_containerName = None,
     ev_containerIpAddress = None, ev_containerPort = None, ev_frontendName = None,
     ev_containers = None\<rparr>"

definition error_event :: "evtype \<Rightarrow> string \<Rightarrow> hevent" where
  "error_event t msg = (plain_event t)\<lparr>ev_error := Some msg\<rparr>"

lemma evtype_plain [simp]: "evtype (plain_event t) = t"
  by (simp add: plain_event_def)

lemma ev_error_plain [simp]: "ev_error (plain_event t) = None"
  by (simp add: plain_event_def)

lemma evtype_error [simp]: "evtype (error_event t m) = t"
  by (simp add: error_event_def)

lemma ev_error_error [simp]: "ev_error (error_event t m) = Some m"
  by (simp add: error_event_def)

text \<open>
  The message a \<open>.catch\<close> handler sends on: the error's own message, or the fallback when it is
  empty (\<open>(error instanceof Error ? error.message : String(error)) || 'Unknown error'\<close>).
\<close>

definition caught :: "string \<Rightarrow> string" where
  "caught msg = or_str (Some msg) ''Unknown error''"

lemma caught_nonempty: "caught msg \<noteq> []"
  by (simp add: caught_def or_str_def)

section \<open>State nodes and their interpretation\<close>

record ('s, 'c, 'a) state_node =
  on :: "hevent \<Rightarrow> 'c \<Rightarrow> ('s \<times> 'c) option"
  entry :: "int \<Rightarrow> 'c \<Rightarrow> 'c \<times> 'a list"
  after :: "(('c \<Rightarrow> int) \<times> ('c \<Rightarrow> 's \<times> 'c)) option"
  always :: "'s option"
  is_final :: bool

definition node :: "('s, 'c, 'a) state_node" where
  "node = \<lparr>on = (\<lambda>_ _. None), entry = (\<lambda>_ c. (c, [])), after = None, always = None,
     is_final = False\<rparr>"

lemma node_simps [simp]:
  "on node = (\<lambda>_ _. None)" "entry node = (\<lambda>_ c. (c, []))" "after node = None"
  "always node = None" "\<not> is_final node"
  by (simp_all add: node_def)

text \<open>A signal is an event sent to the machine, or the running node's \<open>after\<close> timer.\<close>

datatype signal = Ev hevent | After

text \<open>
  Entering a node: its entry actions in order, then its eventless transition if it has one
  (no node of the source reached this way has a further one).
\<close>

definition enter ::
  "('s \<Rightarrow> ('s, 'c, 'a) state_node) \<Rightarrow> int \<Rightarrow> 's \<Rightarrow> 'c \<Rightarrow> ('s \<times> 'c) \<times> 'a list" where
  "enter st now s c =
     (let (c1, as1) = entry (st s) now c
      in case always (st s) of
           None \<Rightarrow> ((s, c1), as1)
         | Some t \<Rightarrow> (let (c2, as2) = entry (st t) now c1 in ((t, c2), as1 @ as2)))"

definition taken :: "('s, 'c, 'a) state_node \<Rightarrow> signal \<Rightarrow> 'c \<Rightarrow> ('s \<times> 'c) option" where
  "taken n sig c =
     (if is_final n then None
      else case sig of
             Ev e \<Rightarrow> on n e c
           | After \<Rightarrow> map_option (\<lambda>(_, f). f c) (after n))"

definition sc_step ::
  "('s \<Rightarrow> ('s, 'c, 'a) state_node) \<Rightarrow> int \<Rightarrow> signal \<Rightarrow> 's \<times> 'c \<Rightarrow> (('s \<times> 'c) \<times> 'a list) option" where
  "sc_step st now sig cfg =
     (case taken (st (fst cfg)) sig (snd cfg) of
        None \<Rightarrow> None
      | Some (t, c1) \<Rightarrow> Some (enter st now t c1))"

text \<open>Sending a list of timed signals; the commands issued are collected.\<close>

definition sc_send ::
  "('s \<Rightarrow> ('s, 'c, 'a) state_node) \<Rightarrow> int \<times> signal \<Rightarrow> 's \<times> 'c \<Rightarrow> ('s \<times> 'c) \<times> 'a list" where
  "sc_send st i cfg =
     (case sc_step st (fst i) (snd i) cfg of None \<Rightarrow> (cfg, []) | Some r \<Rightarrow> r)"

fun sc_run ::
  "('s \<Rightarrow> ('s, 'c, 'a) state_node) \<Rightarrow> 's \<times> 'c \<Rightarrow> (int \<times> signal) list \<Rightarrow> ('s \<times> 'c) \<times> 'a list" where
  "sc_run st cfg [] = (cfg, [])"
| "sc_run st cfg (i # ins) =
     (let (cfg1, as1) = sc_send st i cfg; (cfg2, as2) = sc_run st cfg1 ins in (cfg2, as1 @ as2))"

lemma sc_run_append:
  "sc_run st cfg (xs @ ys) =
     (let (cfg1, as1) = sc_run st cfg xs; (cfg2, as2) = sc_run st cfg1 ys in (cfg2, as1 @ as2))"
  by (induction xs arbitrary: cfg) (auto simp: Let_def split: prod.splits)

text \<open>
  An invariant over configurations and the commands issued so far: what one step keeps, every
  run keeps.
\<close>

lemma sc_run_invariant:
  assumes start: "I cfg []"
    and step: "\<And>now sig cfg as cfg' as'.
      I cfg as \<Longrightarrow> sc_step st now sig cfg = Some (cfg', as') \<Longrightarrow> I cfg' (as @ as')"
  shows "I (fst (sc_run st cfg ins)) (snd (sc_run st cfg ins))"
proof -
  have "I cfg as \<Longrightarrow> I (fst (sc_run st cfg ins)) (as @ snd (sc_run st cfg ins))" for cfg as
  proof (induction ins arbitrary: cfg as)
    case (Cons i ins)
    obtain cfg1 as1 where s: "sc_send st i cfg = (cfg1, as1)" by (cases "sc_send st i cfg")
    have "I cfg1 (as @ as1)"
    proof (cases "sc_step st (fst i) (snd i) cfg")
      case None
      with s Cons.prems show ?thesis by (simp add: sc_send_def)
    next
      case (Some r)
      with s have "sc_step st (fst i) (snd i) cfg = Some (cfg1, as1)" by (simp add: sc_send_def)
      with Cons.prems show ?thesis by (rule step)
    qed
    from Cons.IH [OF this] s show ?case by (simp add: case_prod_beta)
  qed simp
  from this [OF start] show ?thesis by simp
qed

lemma sc_run_invariant_state:
  assumes "I cfg"
    and "\<And>now sig cfg cfg' as'. I cfg \<Longrightarrow> sc_step st now sig cfg = Some (cfg', as') \<Longrightarrow> I cfg'"
  shows "I (fst (sc_run st cfg ins))"
  using sc_run_invariant [where I = "\<lambda>c _. I c" and st = st and cfg = cfg and ins = ins] assms
  by blast

text \<open>Nothing moves a machine out of a final node, and nothing is executed there.\<close>

lemma sc_step_final: "is_final (st (fst cfg)) \<Longrightarrow> sc_step st now sig cfg = None"
  by (simp add: sc_step_def taken_def)

lemma sc_run_final: "is_final (st (fst cfg)) \<Longrightarrow> sc_run st cfg ins = (cfg, [])"
  by (induction ins) (simp_all add: sc_send_def sc_step_final)

section \<open>What a deployment machine promises\<close>

text \<open>
  The interface a runner of the machine relies on (\<open>runStateMachineToCompletion\<close> awaits a final
  node): a well-formedness of configurations that every step keeps, a rank that every step
  lowers, and, in every well-formed configuration that is not final, at least one signal the
  outside world is bound to deliver (\<open>owed\<close>), every one of which is handled.
\<close>

fun answered_by ::
  "('s \<Rightarrow> ('s, 'c, 'a) state_node) \<Rightarrow> ('s \<Rightarrow> signal \<Rightarrow> bool) \<Rightarrow> 's \<times> 'c \<Rightarrow>
   (int \<times> signal) list \<Rightarrow> bool" where
  "answered_by st owed cfg [] = True"
| "answered_by st owed cfg (i # ins) =
     ((is_final (st (fst cfg)) \<or> owed (fst cfg) (snd i)) \<and>
      answered_by st owed (fst (sc_send st i cfg)) ins)"

lemma answered_by_final: "is_final (st (fst cfg)) \<Longrightarrow> answered_by st owed cfg ins"
  by (induction ins) (simp_all add: sc_send_def sc_step_final)

locale deployment_machine =
  fixes st :: "'s \<Rightarrow> ('s, 'c, 'a) state_node"
    and wf :: "'s \<times> 'c \<Rightarrow> bool"
    and rank :: "'s \<Rightarrow> nat"
    and owed :: "'s \<Rightarrow> signal \<Rightarrow> bool"
  assumes step_wf: "wf cfg \<Longrightarrow> sc_step st now sig cfg = Some (cfg', as) \<Longrightarrow> wf cfg'"
    and step_rank: "wf cfg \<Longrightarrow> sc_step st now sig cfg = Some (cfg', as) \<Longrightarrow>
      rank (fst cfg') < rank (fst cfg)"
    and rank_final: "wf cfg \<Longrightarrow> rank (fst cfg) = 0 \<Longrightarrow> is_final (st (fst cfg))"
    and owed_handled: "wf cfg \<Longrightarrow> \<not> is_final (st (fst cfg)) \<Longrightarrow> owed (fst cfg) sig \<Longrightarrow>
      sc_step st now sig cfg \<noteq> None"
begin

lemma run_wf: "wf cfg \<Longrightarrow> wf (fst (sc_run st cfg ins))"
  by (rule sc_run_invariant_state) (auto intro: step_wf)

lemma send_wf: "wf cfg \<Longrightarrow> wf (fst (sc_send st i cfg))"
  by (auto simp: sc_send_def split: option.splits intro: step_wf)

lemma send_rank: "wf cfg \<Longrightarrow> rank (fst (fst (sc_send st i cfg))) \<le> rank (fst cfg)"
  by (auto simp: sc_send_def split: option.splits dest: step_rank)

lemma run_rank: "wf cfg \<Longrightarrow> rank (fst (fst (sc_run st cfg ins))) \<le> rank (fst cfg)"
proof (induction ins arbitrary: cfg)
  case (Cons i ins)
  from Cons.IH [OF send_wf [OF Cons.prems, of i]] send_rank [OF Cons.prems, of i]
  show ?case by (simp add: case_prod_beta)
qed simp

text \<open>A world that answers the running node with something it owes drives it to a final node.\<close>

lemma answered_send:
  assumes "wf cfg" and "\<not> is_final (st (fst cfg))" and "owed (fst cfg) (snd i)"
  shows "rank (fst (fst (sc_send st i cfg))) < rank (fst cfg)"
proof -
  from owed_handled [OF assms, of "fst i"] obtain cfg' as
    where s: "sc_step st (fst i) (snd i) cfg = Some (cfg', as)" by auto
  from step_rank [OF assms(1) s] s show ?thesis by (simp add: sc_send_def)
qed

lemma answered_reaches_final:
  "wf cfg \<Longrightarrow> answered_by st owed cfg ins \<Longrightarrow> rank (fst cfg) \<le> length ins \<Longrightarrow>
   is_final (st (fst (fst (sc_run st cfg ins))))"
proof (induction ins arbitrary: cfg)
  case Nil
  then show ?case by (simp add: rank_final)
next
  case (Cons i ins)
  show ?case
  proof (cases "is_final (st (fst cfg))")
    case True
    then show ?thesis by (simp only: sc_run_final fst_conv)
  next
    case False
    with Cons.prems(2) have "owed (fst cfg) (snd i)" by simp
    from answered_send [OF Cons.prems(1) False this] Cons.prems(3)
    have "rank (fst (fst (sc_send st i cfg))) \<le> length ins" by simp
    with Cons.IH [OF send_wf [OF Cons.prems(1), of i]] Cons.prems(2) show ?thesis
      by (simp add: case_prod_beta)
  qed
qed

end

end
