(* ===== verification/DeployContext.thy ===== *)
theory DeployContext
  imports Statechart
begin

text \<open>
  What the four deployment machines share: the context fields of their interfaces, the
  action classes of \<open>haproxy/actions\<close> with the events each may send back
  (\<open>actions/types.ts\<close>), and the health-check timeout of \<open>haproxy/health-check-timeout.ts\<close>.
\<close>

section \<open>Contexts\<close>

text \<open>The fields every machine's context has.\<close>

record deploy_ids =
  deploymentId :: string
  configurationId :: string
  applicationName :: string
  environmentId :: string
  environmentName :: string
  haproxyContainerId :: string
  haproxyNetworkName :: string
  error :: "string option"
  retryCount :: int
  triggerType :: string
  triggeredBy :: "string option"
  startTime :: int
  config :: "(string \<times> json) list option"

record deployment_volume =
  hostPath :: string
  containerPath :: string
  volume_mode :: "string option"
  preResolved :: "bool option"

record container_port =
  cp_containerPort :: int
  cp_hostPort :: int
  cp_protocol :: string

text \<open>The fields of the contexts that deploy a container (all but the removal machine's).\<close>

record source_ctx = deploy_ids +
  dockerImage :: string
  userEventId :: "string option"
  containerName :: "string option"
  containerIpAddress :: "string option"
  containerPort :: "int option"
  validationErrors :: int
  hostname :: "string option"
  enableSsl :: "bool option"
  tlsCertificateId :: "string option"
  certificateStatus :: "string option"
  networkType :: "string option"
  healthCheckEndpoint :: "string option"
  healthCheckInterval :: "int option"
  healthCheckRetries :: "int option"
  healthCheckTimeoutMs :: "int option"
  containerPorts :: "container_port list option"
  containerVolumes :: "deployment_volume list option"
  containerEnvironment :: "(string \<times> string) list option"
  containerLabels :: "(string \<times> string) list option"
  containerNetworks :: "string list option"

text \<open>The context of a blue-green update (\<open>BlueGreenUpdateContext\<close>).\<close>

record bg_ctx = source_ctx +
  blueHealthy :: bool
  greenHealthy :: bool
  greenBackendConfigured :: bool
  trafficOpenedToGreen :: bool
  trafficValidated :: bool
  blueDraining :: bool
  blueDrained :: bool
  drainStartTime :: "int option"
  monitoringStartTime :: "int option"
  activeConnections :: int
  oldContainerId :: "string option"
  newContainerId :: "string option"

text \<open>A blue-green deployment (\<open>BlueGreenDeploymentContext\<close>) also tracks the frontend.\<close>

record bgd_ctx = bg_ctx +
  bg_frontendConfigured :: bool
  bg_frontendName :: "string option"

text \<open>The nodes of the two blue-green machines: the same names bar two.\<close>

datatype bg_state =
    idle | deployingGreenApp | waitingGreenReady | initializingGreenLB | healthCheckWait
  | configuringFrontend | openingTraffic | drainingBlue | waitingForDrain
  | decommissioningBlueLB | stoppingBlueApp | removingBlueApp
  | rollbackDisableGreenTraffic | rollbackRemoveGreenHaproxyConfig
  | rollbackStoppingGreenApp | rollbackRemovingGreenApp
  | rollbackComplete | completed | failed

text \<open>The nodes behind the cutover, and those of a failed deployment.\<close>

fun bg_cut_over :: "bg_state \<Rightarrow> bool" where
  "bg_cut_over drainingBlue = True"
| "bg_cut_over waitingForDrain = True"
| "bg_cut_over decommissioningBlueLB = True"
| "bg_cut_over stoppingBlueApp = True"
| "bg_cut_over removingBlueApp = True"
| "bg_cut_over completed = True"
| "bg_cut_over _ = False"

fun bg_rolling_back :: "bg_state \<Rightarrow> bool" where
  "bg_rolling_back rollbackDisableGreenTraffic = True"
| "bg_rolling_back rollbackRemoveGreenHaproxyConfig = True"
| "bg_rolling_back rollbackStoppingGreenApp = True"
| "bg_rolling_back rollbackRemovingGreenApp = True"
| "bg_rolling_back rollbackComplete = True"
| "bg_rolling_back failed = True"
| "bg_rolling_back _ = False"

text \<open>The errors a completed deployment may report: trouble with the superseded blue only.\<close>

definition bg_non_critical :: "string set" where
  "bg_non_critical =
     {''Blue connection drain did not complete cleanly (Non-Critical) - green is live'',
      ''Unable to remove blue backend (Non-Critical)'',
      ''Blue app stop failed (Non-Critical)'',
      ''Blue app removal failed (Non-Critical)''}"

lemma bg_non_critical_mem [simp]:
  "''Blue connection drain did not complete cleanly (Non-Critical) - green is live''
     \<in> bg_non_critical"
  "''Unable to remove blue backend (Non-Critical)'' \<in> bg_non_critical"
  "''Blue app stop failed (Non-Critical)'' \<in> bg_non_critical"
  "''Blue app removal failed (Non-Critical)'' \<in> bg_non_critical"
  by (simp_all add: bg_non_critical_def)

lemma bg_phases_disjoint: "bg_cut_over s \<Longrightarrow> \<not> bg_rolling_back s"
  by (cases s) simp_all

section \<open>Actions\<close>

text \<open>The action classes, and one call of an action's \<open>execute\<close> by a machine.\<close>

datatype op =
    DeployApplicationContainers | MonitorContainerStartup | AddContainerToLB
  | PerformHealthChecks | ConfigureFrontend | EnableTraffic | DisableTraffic
  | InitiateDrain | MonitorDrain | RemoveContainerFromLB | StopApplication
  | RemoveApplication | RemoveFrontend
  | LogDeploymentSuccess | AlertOperationsTeam | CleanupTempResources
  | CleanupFailedDeployment

text \<open>
  A call carries the context the action runs on, the \<open>containerId\<close> it finds there (the
  machines override it with the old or the new container), how each event it sends back is
  forwarded to the machine, and what a rejected promise is turned into, if it is caught.
\<close>

record 'c call =
  call_op :: op
  call_ctx :: 'c
  call_containerId :: "string option"
  forward :: "hevent \<Rightarrow> hevent"
  rejected :: "string \<Rightarrow> hevent option"

definition plain_call :: "op \<Rightarrow> 'c \<Rightarrow> string option \<Rightarrow> 'c call" where
  "plain_call k c cid = \<lparr>call_op = k, call_ctx = c, call_containerId = cid,
     forward = (\<lambda>e. e), rejected = (\<lambda>_. None)\<rparr>"

lemma plain_call_simps [simp]:
  "call_op (plain_call k c cid) = k"
  "call_ctx (plain_call k c cid) = c"
  "call_containerId (plain_call k c cid) = cid"
  "forward (plain_call k c cid) = (\<lambda>e. e)"
  "rejected (plain_call k c cid) = (\<lambda>_. None)"
  by (simp_all add: plain_call_def)

text \<open>
  The emit type of each action: the events its \<open>execute\<close> can send back. An event type whose
  \<open>error\<close> is not optional carries one.
\<close>

definition op_emits :: "op \<Rightarrow> hevent \<Rightarrow> bool" where
  "op_emits k e =
     (case k of
        DeployApplicationContainers \<Rightarrow>
          evtype e = DEPLOYMENT_SUCCESS \<and> ev_containerId e \<noteq> None \<or>
          evtype e = DEPLOYMENT_ERROR \<and> ev_error e \<noteq> None
      | MonitorContainerStartup \<Rightarrow>
          evtype e = CONTAINERS_RUNNING \<and> ev_containerIpAddress e \<noteq> None \<or>
          evtype e = STARTUP_TIMEOUT
      | AddContainerToLB \<Rightarrow>
          evtype e = LB_CONFIGURED \<or> evtype e = LB_CONFIG_ERROR \<and> ev_error e \<noteq> None
      | PerformHealthChecks \<Rightarrow> evtype e = SERVERS_HEALTHY \<or> evtype e = HEALTH_CHECK_TIMEOUT
      | ConfigureFrontend \<Rightarrow>
          evtype e = FRONTEND_CONFIGURED \<or> evtype e = FRONTEND_CONFIG_SKIPPED \<or>
          evtype e = FRONTEND_CONFIG_ERROR \<and> ev_error e \<noteq> None
      | EnableTraffic \<Rightarrow>
          evtype e = TRAFFIC_ENABLED \<or> evtype e = TRAFFIC_ENABLE_FAILED \<and> ev_error e \<noteq> None
      | DisableTraffic \<Rightarrow>
          evtype e = ROLLBACK_GREEN_TRAFFIC_DISABLED \<or>
          evtype e = ROLLBACK_ERROR \<and> ev_error e \<noteq> None
      | InitiateDrain \<Rightarrow>
          evtype e = DRAIN_INITIATED \<or> evtype e = DRAIN_ISSUES \<and> ev_error e \<noteq> None
      | MonitorDrain \<Rightarrow>
          evtype e = DRAIN_COMPLETE \<or> evtype e = DRAIN_TIMEOUT \<or>
          evtype e = DRAIN_ISSUES \<and> ev_error e \<noteq> None
      | RemoveContainerFromLB \<Rightarrow>
          evtype e = LB_REMOVAL_SUCCESS \<or> evtype e = LB_REMOVAL_FAILED \<and> ev_error e \<noteq> None
      | RemoveFrontend \<Rightarrow>
          evtype e = FRONTEND_REMOVED \<or> evtype e = FRONTEND_REMOVAL_SKIPPED \<or>
          evtype e = FRONTEND_REMOVAL_ERROR \<and> ev_error e \<noteq> None
      | StopApplication \<Rightarrow>
          evtype e = STOP_SUCCESS \<or> evtype e = STOP_FAILED \<and> ev_error e \<noteq> None
      | RemoveApplication \<Rightarrow>
          evtype e = REMOVAL_SUCCESS \<or> evtype e = REMOVAL_FAILED \<and> ev_error e \<noteq> None
      | _ \<Rightarrow> False)"

text \<open>What the machine hears of a call: a forwarded event, or what a caught rejection became.\<close>

definition answers :: "'c call \<Rightarrow> hevent \<Rightarrow> bool" where
  "answers k e \<longleftrightarrow>
     (\<exists>r. op_emits (call_op k) r \<and> e = forward k r) \<or> (\<exists>m. rejected k m = Some e)"

lemma answersE:
  assumes "answers k e"
  obtains (emitted) r where "op_emits (call_op k) r" "e = forward k r"
    | (caught) m where "rejected k m = Some e"
  using assms by (auto simp: answers_def)

lemma answers_forwardI: "op_emits (call_op k) r \<Longrightarrow> e = forward k r \<Longrightarrow> answers k e"
  by (auto simp: answers_def)

text \<open>
  What the world owes a node that has been entered: an answer to one of the calls its entry
  makes, or its timer.
\<close>

definition owed_by :: "('s \<Rightarrow> ('s, 'c, 'c call) state_node) \<Rightarrow> 's \<Rightarrow> signal \<Rightarrow> bool" where
  "owed_by st s sig =
     (case sig of
        Ev e \<Rightarrow> (\<exists>now c. \<exists>k \<in> set (snd (entry (st s) now c)). answers k e)
      | After \<Rightarrow> after (st s) \<noteq> None)"

lemma sc_step_None_iff: "sc_step st now sig cfg = None \<longleftrightarrow> taken (st (fst cfg)) sig (snd cfg) = None"
  by (cases "taken (st (fst cfg)) sig (snd cfg)") (simp_all add: sc_step_def case_prod_beta)

lemma owed_by_handled:
  assumes handled: "\<And>now c k e c'. k \<in> set (snd (entry (st s) now c)) \<Longrightarrow> answers k e \<Longrightarrow>
      on (st s) e c' \<noteq> None"
    and "\<not> is_final (st s)" and "owed_by st s sig"
  shows "sc_step st now sig (s, c) \<noteq> None"
proof (cases sig)
  case (Ev e)
  with assms(3) obtain now' ca k where "k \<in> set (snd (entry (st s) now' ca))" "answers k e"
    by (auto simp: owed_by_def)
  then have "on (st s) e c \<noteq> None" by (rule handled)
  with Ev assms(2) show ?thesis by (simp add: sc_step_None_iff taken_def)
next
  case After
  with assms(2,3) show ?thesis by (simp add: owed_by_def sc_step_None_iff taken_def)
qed

text \<open>The ops that take a container out of service or destroy it.\<close>

definition destructive :: "op \<Rightarrow> bool" where
  "destructive k \<longleftrightarrow> k = RemoveContainerFromLB \<or> k = StopApplication \<or> k = RemoveApplication"

text \<open>The ops that undo a deployment, and the calls of them in a trace.\<close>

fun teardown_op :: "op \<Rightarrow> bool" where
  "teardown_op RemoveFrontend = True"
| "teardown_op RemoveContainerFromLB = True"
| "teardown_op StopApplication = True"
| "teardown_op RemoveApplication = True"
| "teardown_op _ = False"

definition teardown_calls :: "'c call list \<Rightarrow> (op \<times> string option) list" where
  "teardown_calls ks =
     map (\<lambda>k. (call_op k, call_containerId k)) (filter (\<lambda>k. teardown_op (call_op k)) ks)"

lemma teardown_calls_append [simp]:
  "teardown_calls (xs @ ys) = teardown_calls xs @ teardown_calls ys"
  by (simp add: teardown_calls_def)

text \<open>
  What the HAProxy client and the awaited calls do during the best-effort cleanup of a failed
  blue-green deployment: whether connecting succeeds, what \<open>listServers\<close> returns (\<open>None\<close> if
  it throws, \<open>Some None\<close> for no list), and whether the awaited \<open>stopApplication.execute\<close>
  resolves.
\<close>

record cleanup_world =
  cw_initialize :: bool
  cw_listServers :: "string list option option"
  cw_stop :: bool

section \<open>The health-check timeout\<close>

definition DEFAULT_HEALTH_CHECK_TIMEOUT_MS :: int where
  "DEFAULT_HEALTH_CHECK_TIMEOUT_MS = 90000"

definition MAX_HEALTH_CHECK_TIMEOUT_MS :: int where
  "MAX_HEALTH_CHECK_TIMEOUT_MS = 600000"

definition resolveHealthCheckTimeoutMs :: "int option \<Rightarrow> int" where
  "resolveHealthCheckTimeoutMs startPeriodMs =
     (let requested =
        (case startPeriodMs of
           Some p \<Rightarrow> if p > 0 then p else DEFAULT_HEALTH_CHECK_TIMEOUT_MS
         | None \<Rightarrow> DEFAULT_HEALTH_CHECK_TIMEOUT_MS)
      in min (max requested DEFAULT_HEALTH_CHECK_TIMEOUT_MS) MAX_HEALTH_CHECK_TIMEOUT_MS)"

text \<open>\<open>Math.round(ms / 1000)\<close>: half rounds up.\<close>

definition round_seconds :: "int \<Rightarrow> int" where
  "round_seconds ms = (ms + 500) div 1000"

definition healthCheckTimeout :: "'a source_ctx_scheme \<Rightarrow> int" where
  "healthCheckTimeout c = nullish (healthCheckTimeoutMs c) DEFAULT_HEALTH_CHECK_TIMEOUT_MS"

definition healthCheckTimeoutMessage :: "'a source_ctx_scheme \<Rightarrow> string" where
  "healthCheckTimeoutMessage c =
     ''Health check timeout after '' @ string_of_int (round_seconds (healthCheckTimeout c)) @
     '' seconds''"

lemma resolveHealthCheckTimeoutMs_bounds:
  "DEFAULT_HEALTH_CHECK_TIMEOUT_MS \<le> resolveHealthCheckTimeoutMs p"
  "resolveHealthCheckTimeoutMs p \<le> MAX_HEALTH_CHECK_TIMEOUT_MS"
  by (auto simp: resolveHealthCheckTimeoutMs_def Let_def DEFAULT_HEALTH_CHECK_TIMEOUT_MS_def
      MAX_HEALTH_CHECK_TIMEOUT_MS_def split: option.splits)

lemma resolveHealthCheckTimeoutMs_id:
  "DEFAULT_HEALTH_CHECK_TIMEOUT_MS \<le> p \<Longrightarrow> p \<le> MAX_HEALTH_CHECK_TIMEOUT_MS \<Longrightarrow>
   resolveHealthCheckTimeoutMs (Some p) = p"
  by (auto simp: resolveHealthCheckTimeoutMs_def Let_def DEFAULT_HEALTH_CHECK_TIMEOUT_MS_def
      MAX_HEALTH_CHECK_TIMEOUT_MS_def)

end
