(* ===== verification/InitialDeploy.thy ===== *)
theory InitialDeploy
  imports DeployContext
begin

text \<open>
  The first deployment of a service, \<open>haproxy/initial-deployment-state-machine.ts\<close>: context,
  events, actions, and one definition per state node. The lemmas characterise the rollback:
  which teardown calls a run has made is a function of the node and the flags it ended in.
\<close>

section \<open>Context and events\<close>

record ini_ctx = source_ctx +
  containerId :: "string option"
  applicationReady :: bool
  haproxyConfigured :: bool
  healthChecksPassed :: bool
  frontendConfigured :: bool
  trafficEnabled :: bool
  frontendName :: "string option"

type_synonym ini_call = "ini_ctx call"

datatype ini_state =
    idle | deployingInitialApp | waitingAppReady | initializingFirstLB | initialHealthCheck
  | configuringFrontend | enablingTraffic | completed
  | rollbackRemoveFrontend | rollbackRemoveHaproxyConfig | rollbackStoppingApp
  | rollbackRemovingApp | rollbackComplete | failed

type_synonym ini_node = "(ini_state, ini_ctx, ini_call) state_node"

definition ini_event :: "hevent \<Rightarrow> bool" where
  "ini_event e =
     (let t = evtype e in
      t = DEPLOYMENT_SUCCESS \<and> ev_containerId e \<noteq> None \<or>
      t \<in> {DEPLOYMENT_ERROR, LB_CONFIG_ERROR, FRONTEND_CONFIG_ERROR, TRAFFIC_ENABLE_FAILED,
           CRITICAL_ISSUES, ROLLBACK_ERROR} \<and> ev_error e \<noteq> None \<or>
      t \<in> {START_DEPLOYMENT, CONTAINERS_RUNNING, STARTUP_TIMEOUT, LB_CONFIGURED,
           SERVERS_HEALTHY, HEALTH_CHECK_TIMEOUT, FRONTEND_CONFIGURED, FRONTEND_CONFIG_SKIPPED,
           TRAFFIC_ENABLED, TRAFFIC_STABLE, RESET, MANUAL_INTERVENTION_COMPLETE,
           ROLLBACK_FRONTEND_REMOVED, ROLLBACK_FRONTEND_REMOVAL_SKIPPED,
           ROLLBACK_CONFIG_REMOVED, ROLLBACK_APP_STOPPED, ROLLBACK_APP_REMOVED})"

section \<open>The named actions\<close>

definition ini_deployApplicationContainers :: "ini_ctx \<Rightarrow> ini_call" where
  "ini_deployApplicationContainers c =
     (plain_call DeployApplicationContainers c (containerId c))
       \<lparr>rejected := (\<lambda>m. Some (error_event DEPLOYMENT_ERROR (caught m)))\<rparr>"

definition ini_monitorContainerStartup :: "ini_ctx \<Rightarrow> ini_call" where
  "ini_monitorContainerStartup c =
     (plain_call MonitorContainerStartup c (containerId c))
       \<lparr>rejected := (\<lambda>m. Some (error_event STARTUP_TIMEOUT (caught m)))\<rparr>"

definition ini_initializeHAProxy :: "ini_ctx \<Rightarrow> ini_call" where
  "ini_initializeHAProxy c =
     (plain_call AddContainerToLB c (containerId c))
       \<lparr>rejected := (\<lambda>m. Some (error_event LB_CONFIG_ERROR (caught m)))\<rparr>"

definition ini_performHealthChecks :: "ini_ctx \<Rightarrow> ini_call" where
  "ini_performHealthChecks c =
     (plain_call PerformHealthChecks c (containerId c))
       \<lparr>rejected := (\<lambda>m. Some (error_event HEALTH_CHECK_TIMEOUT (caught m)))\<rparr>"

definition ini_configureFrontend :: "ini_ctx \<Rightarrow> ini_call" where
  "ini_configureFrontend c =
     (plain_call ConfigureFrontend c (containerId c))
       \<lparr>rejected := (\<lambda>m. Some (error_event FRONTEND_CONFIG_ERROR (caught m)))\<rparr>"

definition ini_enableTraffic :: "ini_ctx \<Rightarrow> ini_call" where
  "ini_enableTraffic c =
     (plain_call EnableTraffic c (containerId c))
       \<lparr>rejected := (\<lambda>m. Some (error_event TRAFFIC_ENABLE_FAILED (caught m)))\<rparr>"

definition ini_logDeploymentSuccess :: "ini_ctx \<Rightarrow> ini_call" where
  "ini_logDeploymentSuccess c = plain_call LogDeploymentSuccess c (containerId c)"

definition ini_alertOperationsTeam :: "ini_ctx \<Rightarrow> ini_call" where
  "ini_alertOperationsTeam c = plain_call AlertOperationsTeam c (containerId c)"

definition ini_cleanupTempResources :: "ini_ctx \<Rightarrow> ini_call" where
  "ini_cleanupTempResources c = plain_call CleanupTempResources c (containerId c)"

definition ini_rollbackRemoveFrontend :: "ini_ctx \<Rightarrow> ini_call" where
  "ini_rollbackRemoveFrontend c =
     (plain_call RemoveFrontend c (containerId c))
       \<lparr>forward := (\<lambda>e.
           if evtype e = FRONTEND_REMOVED then plain_event ROLLBACK_FRONTEND_REMOVED
           else if evtype e = FRONTEND_REMOVAL_SKIPPED
           then plain_event ROLLBACK_FRONTEND_REMOVAL_SKIPPED
           else if evtype e = FRONTEND_REMOVAL_ERROR
           then (plain_event ROLLBACK_ERROR)\<lparr>ev_error := ev_error e\<rparr>
           else e),
        rejected := (\<lambda>m. Some (error_event ROLLBACK_ERROR (caught m)))\<rparr>"

definition ini_rollbackRemoveHAProxyConfig :: "ini_ctx \<Rightarrow> ini_call" where
  "ini_rollbackRemoveHAProxyConfig c =
     (plain_call RemoveContainerFromLB c (containerId c))
       \<lparr>forward := (\<lambda>e.
           if evtype e = LB_REMOVAL_SUCCESS then plain_event ROLLBACK_CONFIG_REMOVED
           else if evtype e = LB_REMOVAL_FAILED
           then (plain_event ROLLBACK_ERROR)\<lparr>ev_error := ev_error e\<rparr>
           else e),
        rejected := (\<lambda>m. Some (error_event ROLLBACK_ERROR (caught m)))\<rparr>"

definition ini_rollbackStopApplication :: "ini_ctx \<Rightarrow> ini_call" where
  "ini_rollbackStopApplication c =
     (plain_call StopApplication c (containerId c))
       \<lparr>forward := (\<lambda>e.
           if evtype e = STOP_SUCCESS then plain_event ROLLBACK_APP_STOPPED
           else if evtype e = STOP_FAILED
           then (plain_event ROLLBACK_ERROR)\<lparr>ev_error := ev_error e\<rparr>
           else e),
        rejected := (\<lambda>m. Some (error_event ROLLBACK_ERROR (caught m)))\<rparr>"

definition ini_rollbackRemoveApplication :: "ini_ctx \<Rightarrow> ini_call" where
  "ini_rollbackRemoveApplication c =
     (plain_call RemoveApplication c (containerId c))
       \<lparr>forward := (\<lambda>e.
           if evtype e = REMOVAL_SUCCESS then plain_event ROLLBACK_APP_REMOVED
           else if evtype e = REMOVAL_FAILED
           then (plain_event ROLLBACK_ERROR)\<lparr>ev_error := ev_error e\<rparr>
           else e),
        rejected := (\<lambda>m. Some (error_event ROLLBACK_ERROR (caught m)))\<rparr>"

definition ini_preserveErrorContext :: "hevent \<Rightarrow> ini_ctx \<Rightarrow> ini_ctx" where
  "ini_preserveErrorContext e c = c\<lparr>error := ev_error e\<rparr>"

definition ini_resetState :: "ini_ctx \<Rightarrow> ini_ctx" where
  "ini_resetState c = c\<lparr>
     containerId := None, containerIpAddress := None, containerPort := None,
     applicationReady := False, haproxyConfigured := False, healthChecksPassed := False,
     frontendConfigured := False, trafficEnabled := False, validationErrors := 0,
     error := None, retryCount := 0, frontendName := None\<rparr>"

definition ini_containersRunning :: "ini_ctx \<Rightarrow> bool" where
  "ini_containersRunning c = applicationReady c"

definition ini_serversHealthy :: "ini_ctx \<Rightarrow> bool" where
  "ini_serversHealthy c = healthChecksPassed c"

section \<open>The initial context\<close>

text \<open>Unlike the blue-green machines, this one takes its flags from the input too.\<close>

definition ini_flag :: "(ini_ctx \<Rightarrow> bool) \<Rightarrow> ini_ctx option \<Rightarrow> bool" where
  "ini_flag f input = (case input of None \<Rightarrow> False | Some i \<Rightarrow> f i)"

definition ini_context :: "int \<Rightarrow> ini_ctx option \<Rightarrow> ini_ctx" where
  "ini_context now input =
     \<lparr>deploymentId = or_str (map_option deploymentId input) [],
      configurationId = or_str (map_option configurationId input) [],
      applicationName = or_str (map_option applicationName input) [],
      environmentId = or_str (map_option environmentId input) [],
      environmentName = or_str (map_option environmentName input) [],
      haproxyContainerId = or_str (map_option haproxyContainerId input) [],
      haproxyNetworkName = or_str (map_option haproxyNetworkName input) [],
      error = Option.bind input error,
      retryCount = or_num (map_option retryCount input) 0,
      triggerType = or_str (map_option triggerType input) ''manual'',
      triggeredBy = Option.bind input triggeredBy,
      startTime = or_num (map_option startTime input) now,
      config = Option.bind input config,
      dockerImage = or_str (map_option dockerImage input) [],
      userEventId = Option.bind input userEventId,
      containerName = Option.bind input containerName,
      containerIpAddress = Option.bind input containerIpAddress,
      containerPort = Option.bind input containerPort,
      validationErrors = or_num (map_option validationErrors input) 0,
      hostname = Option.bind input hostname,
      enableSsl = Option.bind input enableSsl,
      tlsCertificateId = Option.bind input tlsCertificateId,
      certificateStatus = Option.bind input certificateStatus,
      networkType = Option.bind input networkType,
      healthCheckEndpoint = Option.bind input healthCheckEndpoint,
      healthCheckInterval = Option.bind input healthCheckInterval,
      healthCheckRetries = Option.bind input healthCheckRetries,
      healthCheckTimeoutMs = Option.bind input healthCheckTimeoutMs,
      containerPorts = Option.bind input containerPorts,
      containerVolumes = Option.bind input containerVolumes,
      containerEnvironment = Option.bind input containerEnvironment,
      containerLabels = Option.bind input containerLabels,
      containerNetworks = Option.bind input containerNetworks,
      containerId = Option.bind input containerId,
      applicationReady = ini_flag applicationReady input,
      haproxyConfigured = ini_flag haproxyConfigured input,
      healthChecksPassed = ini_flag healthChecksPassed input,
      frontendConfigured = ini_flag frontendConfigured input,
      trafficEnabled = ini_flag trafficEnabled input,
      frontendName = Option.bind input frontendName\<rparr>"

section \<open>The states\<close>

definition ini_idle_node :: ini_node where
  "ini_idle_node = node\<lparr>
     on := (\<lambda>e c.
       if evtype e = START_DEPLOYMENT
       then Some (deployingInitialApp, ini_resetState c)
       else None)\<rparr>"

definition ini_deployingInitialApp_node :: ini_node where
  "ini_deployingInitialApp_node = node\<lparr>
     entry := (\<lambda>now c. (c, [ini_deployApplicationContainers c])),
     on := (\<lambda>e c.
       if evtype e = DEPLOYMENT_SUCCESS
       then Some (waitingAppReady, 
              c\<lparr>containerId := ev_containerId e, containerName := ev_containerName e\<rparr>)
       else if evtype e = DEPLOYMENT_ERROR
       then Some (failed, ini_preserveErrorContext e c)
       else None)\<rparr>"

definition ini_waitingAppReady_node :: ini_node where
  "ini_waitingAppReady_node = node\<lparr>
     entry := (\<lambda>now c. (c, [ini_monitorContainerStartup c])),
     on := (\<lambda>e c.
       if evtype e = CONTAINERS_RUNNING
       then Some (initializingFirstLB, 
              c\<lparr>applicationReady := True, containerIpAddress := ev_containerIpAddress e,
                containerPort := ev_containerPort e, containerName := ev_containerName e\<rparr>)
       else if evtype e = STARTUP_TIMEOUT
       then Some (rollbackStoppingApp, c\<lparr>error := Some ''Container startup timeout''\<rparr>)
       else None),
     after := Some (\<lambda>_. 120000, \<lambda>c.
       (rollbackStoppingApp, c\<lparr>error := Some ''Application startup timeout''\<rparr>))\<rparr>"

definition ini_initializingFirstLB_node :: ini_node where
  "ini_initializingFirstLB_node = node\<lparr>
     entry := (\<lambda>now c. (c, [ini_initializeHAProxy c])),
     on := (\<lambda>e c.
       if evtype e = LB_CONFIGURED
       then Some (initialHealthCheck, c\<lparr>haproxyConfigured := True\<rparr>)
       else if evtype e = LB_CONFIG_ERROR
       then Some (rollbackRemoveHaproxyConfig, ini_preserveErrorContext e c)
       else None)\<rparr>"

definition ini_initialHealthCheck_node :: ini_node where
  "ini_initialHealthCheck_node = node\<lparr>
     entry := (\<lambda>now c. (c, [ini_performHealthChecks c])),
     on := (\<lambda>e c.
       if evtype e = SERVERS_HEALTHY
       then Some (configuringFrontend, c\<lparr>healthChecksPassed := True\<rparr>)
       else if evtype e = HEALTH_CHECK_TIMEOUT
       then Some (rollbackRemoveHaproxyConfig, c\<lparr>error := Some ''Health check timeout''\<rparr>)
       else None),
     after := Some (healthCheckTimeout, \<lambda>c.
       (rollbackRemoveHaproxyConfig, c\<lparr>error := Some (healthCheckTimeoutMessage c)\<rparr>))\<rparr>"

definition ini_configuringFrontend_node :: ini_node where
  "ini_configuringFrontend_node = node\<lparr>
     entry := (\<lambda>now c. (c, [ini_configureFrontend c])),
     on := (\<lambda>e c.
       if evtype e = FRONTEND_CONFIGURED
       then Some (enablingTraffic, 
              c\<lparr>frontendConfigured := True, frontendName := ev_frontendName e\<rparr>)
       else if evtype e = FRONTEND_CONFIG_SKIPPED
       then Some (enablingTraffic, c\<lparr>frontendConfigured := False\<rparr>)
       else if evtype e = FRONTEND_CONFIG_ERROR
       then Some (rollbackRemoveFrontend, ini_preserveErrorContext e c)
       else None)\<rparr>"

definition ini_enablingTraffic_node :: ini_node where
  "ini_enablingTraffic_node = node\<lparr>
     entry := (\<lambda>now c. (c, [ini_enableTraffic c])),
     on := (\<lambda>e c.
       if evtype e = TRAFFIC_ENABLED
       then Some (completed, c\<lparr>trafficEnabled := True\<rparr>)
       else if evtype e = TRAFFIC_ENABLE_FAILED
       then Some (rollbackRemoveFrontend, ini_preserveErrorContext e c)
       else None)\<rparr>"

definition ini_completed_node :: ini_node where
  "ini_completed_node = node\<lparr>
     is_final := True,
     entry := (\<lambda>now c. (c, [ini_logDeploymentSuccess c, ini_cleanupTempResources c])),
     on := (\<lambda>e c.
       if evtype e = RESET
       then Some (idle, ini_resetState c)
       else None)\<rparr>"

definition ini_rollbackRemoveFrontend_node :: ini_node where
  "ini_rollbackRemoveFrontend_node = node\<lparr>
     entry := (\<lambda>now c. (c, [ini_rollbackRemoveFrontend c])),
     on := (\<lambda>e c.
       if evtype e = ROLLBACK_FRONTEND_REMOVED
       then Some (rollbackRemoveHaproxyConfig, c)
       else if evtype e = ROLLBACK_FRONTEND_REMOVAL_SKIPPED
       then Some (rollbackRemoveHaproxyConfig, c)
       else if evtype e = ROLLBACK_ERROR
       then Some (rollbackRemoveHaproxyConfig, 
              c\<lparr>error := Some ''Frontend removal had errors - continuing rollback''\<rparr>)
       else None)\<rparr>"

definition ini_rollbackRemoveHaproxyConfig_node :: ini_node where
  "ini_rollbackRemoveHaproxyConfig_node = node\<lparr>
     entry := (\<lambda>now c. (c, [ini_rollbackRemoveHAProxyConfig c])),
     on := (\<lambda>e c.
       if evtype e = ROLLBACK_CONFIG_REMOVED
       then Some (rollbackStoppingApp, c)
       else if evtype e = ROLLBACK_ERROR
       then Some (failed, c\<lparr>error := Some ''Cannot rollback HAProxy config''\<rparr>)
       else None)\<rparr>"

definition ini_rollbackStoppingApp_node :: ini_node where
  "ini_rollbackStoppingApp_node = node\<lparr>
     entry := (\<lambda>now c. (c, [ini_rollbackStopApplication c])),
     on := (\<lambda>e c.
       if evtype e = ROLLBACK_APP_STOPPED
       then Some (rollbackRemovingApp, c)
       else if evtype e = ROLLBACK_ERROR
       then Some (rollbackRemovingApp, 
              c\<lparr>error := Some ''App stop failed - continuing cleanup''\<rparr>)
       else None)\<rparr>"

definition ini_rollbackRemovingApp_node :: ini_node where
  "ini_rollbackRemovingApp_node = node\<lparr>
     entry := (\<lambda>now c. (c, [ini_rollbackRemoveApplication c])),
     on := (\<lambda>e c.
       if evtype e = ROLLBACK_APP_REMOVED
       then Some (rollbackComplete, c)
       else if evtype e = ROLLBACK_ERROR
       then Some (rollbackComplete, 
              c\<lparr>error := Some ''App removal had errors - rollback completed with warnings''\<rparr>)
       else None)\<rparr>"

definition ini_rollbackComplete_node :: ini_node where
  "ini_rollbackComplete_node = node\<lparr>
     is_final := True,
     entry := (\<lambda>now c. (c, [ini_alertOperationsTeam c, ini_cleanupTempResources c]))\<rparr>"

definition ini_failed_node :: ini_node where
  "ini_failed_node = node\<lparr>
     is_final := True,
     entry := (\<lambda>now c. (c, [ini_alertOperationsTeam c]))\<rparr>"

definition ini_states :: "ini_state \<Rightarrow> ini_node" where
  "ini_states s =
     (case s of
        idle \<Rightarrow> ini_idle_node
      | deployingInitialApp \<Rightarrow> ini_deployingInitialApp_node
      | waitingAppReady \<Rightarrow> ini_waitingAppReady_node
      | initializingFirstLB \<Rightarrow> ini_initializingFirstLB_node
      | initialHealthCheck \<Rightarrow> ini_initialHealthCheck_node
      | configuringFrontend \<Rightarrow> ini_configuringFrontend_node
      | enablingTraffic \<Rightarrow> ini_enablingTraffic_node
      | completed \<Rightarrow> ini_completed_node
      | rollbackRemoveFrontend \<Rightarrow> ini_rollbackRemoveFrontend_node
      | rollbackRemoveHaproxyConfig \<Rightarrow> ini_rollbackRemoveHaproxyConfig_node
      | rollbackStoppingApp \<Rightarrow> ini_rollbackStoppingApp_node
      | rollbackRemovingApp \<Rightarrow> ini_rollbackRemovingApp_node
      | rollbackComplete \<Rightarrow> ini_rollbackComplete_node
      | failed \<Rightarrow> ini_failed_node)"

definition ini_run ::
  "int \<Rightarrow> ini_ctx option \<Rightarrow> (int \<times> signal) list \<Rightarrow> (ini_state \<times> ini_ctx) \<times> ini_call list" where
  "ini_run now input ins = sc_run ini_states (idle, ini_context now input) ins"

section \<open>Lemmas\<close>

lemmas ini_nodes =
  ini_idle_node_def
  ini_deployingInitialApp_node_def
  ini_waitingAppReady_node_def
  ini_initializingFirstLB_node_def
  ini_initialHealthCheck_node_def
  ini_configuringFrontend_node_def
  ini_enablingTraffic_node_def
  ini_completed_node_def
  ini_rollbackRemoveFrontend_node_def
  ini_rollbackRemoveHaproxyConfig_node_def
  ini_rollbackStoppingApp_node_def
  ini_rollbackRemovingApp_node_def
  ini_rollbackComplete_node_def
  ini_failed_node_def

lemmas ini_calls =
  ini_deployApplicationContainers_def
  ini_monitorContainerStartup_def
  ini_initializeHAProxy_def
  ini_performHealthChecks_def
  ini_configureFrontend_def
  ini_enableTraffic_def
  ini_logDeploymentSuccess_def
  ini_alertOperationsTeam_def
  ini_cleanupTempResources_def
  ini_rollbackRemoveFrontend_def
  ini_rollbackRemoveHAProxyConfig_def
  ini_rollbackStopApplication_def
  ini_rollbackRemoveApplication_def

lemmas ini_assigns = ini_preserveErrorContext_def ini_resetState_def

lemmas ini_step_unfold =
  sc_step_def taken_def enter_def ini_states_def ini_nodes ini_assigns

text \<open>What holds of the context in each node.\<close>

fun ini_inv :: "ini_state \<Rightarrow> ini_ctx \<Rightarrow> bool" where
  "ini_inv idle c = True"
| "ini_inv deployingInitialApp c =
     (\<not> applicationReady c \<and> \<not> haproxyConfigured c \<and> \<not> healthChecksPassed c \<and>
      \<not> frontendConfigured c \<and> \<not> trafficEnabled c \<and> error c = None)"
| "ini_inv waitingAppReady c =
     (\<not> applicationReady c \<and> \<not> haproxyConfigured c \<and> \<not> healthChecksPassed c \<and>
      \<not> frontendConfigured c \<and> \<not> trafficEnabled c \<and> error c = None)"
| "ini_inv initializingFirstLB c =
     (applicationReady c \<and> \<not> haproxyConfigured c \<and> \<not> healthChecksPassed c \<and>
      \<not> frontendConfigured c \<and> \<not> trafficEnabled c \<and> error c = None)"
| "ini_inv initialHealthCheck c =
     (applicationReady c \<and> haproxyConfigured c \<and> \<not> healthChecksPassed c \<and>
      \<not> frontendConfigured c \<and> \<not> trafficEnabled c \<and> error c = None)"
| "ini_inv configuringFrontend c =
     (applicationReady c \<and> haproxyConfigured c \<and> healthChecksPassed c \<and>
      \<not> frontendConfigured c \<and> \<not> trafficEnabled c \<and> error c = None)"
| "ini_inv enablingTraffic c =
     (applicationReady c \<and> haproxyConfigured c \<and> healthChecksPassed c \<and> \<not> trafficEnabled c \<and>
      error c = None)"
| "ini_inv completed c =
     (applicationReady c \<and> haproxyConfigured c \<and> healthChecksPassed c \<and> trafficEnabled c \<and>
      error c = None)"
| "ini_inv rollbackRemoveFrontend c =
     (applicationReady c \<and> haproxyConfigured c \<and> healthChecksPassed c \<and> \<not> trafficEnabled c)"
| "ini_inv rollbackRemoveHaproxyConfig c =
     (applicationReady c \<and> (healthChecksPassed c \<longrightarrow> haproxyConfigured c) \<and> \<not> trafficEnabled c)"
| "ini_inv _ c =
     ((healthChecksPassed c \<longrightarrow> haproxyConfigured c) \<and> (haproxyConfigured c \<longrightarrow> applicationReady c) \<and>
      \<not> trafficEnabled c)"

text \<open>The teardown a rollback has carried out by the time it is in a node.\<close>

definition ini_torn_lb :: "ini_ctx \<Rightarrow> op list" where
  "ini_torn_lb c =
     (if healthChecksPassed c then [RemoveFrontend] else []) @
     (if applicationReady c then [RemoveContainerFromLB] else [])"

fun ini_torn :: "ini_state \<Rightarrow> ini_ctx \<Rightarrow> op list" where
  "ini_torn rollbackRemoveFrontend c = [RemoveFrontend]"
| "ini_torn rollbackRemoveHaproxyConfig c = ini_torn_lb c"
| "ini_torn rollbackStoppingApp c = ini_torn_lb c @ [StopApplication]"
| "ini_torn rollbackRemovingApp c = ini_torn_lb c @ [StopApplication, RemoveApplication]"
| "ini_torn rollbackComplete c = ini_torn_lb c @ [StopApplication, RemoveApplication]"
| "ini_torn failed c = ini_torn_lb c"
| "ini_torn _ c = []"

definition ini_trace :: "ini_state \<times> ini_ctx \<Rightarrow> ini_call list \<Rightarrow> bool" where
  "ini_trace cfg ks \<longleftrightarrow> ini_inv (fst cfg) (snd cfg) \<and>
     teardown_calls ks = map (\<lambda>k. (k, containerId (snd cfg))) (ini_torn (fst cfg) (snd cfg))"

lemma ini_step_inv:
  assumes "ini_inv s c" and "sc_step ini_states now sig (s, c) = Some ((t, d), ks)"
  shows "ini_inv t d"
  using assms
  by (cases s; cases sig; clarsimp simp: ini_step_unfold split: if_splits)

lemma ini_step_torn:
  assumes "ini_inv s c" and "sc_step ini_states now sig (s, c) = Some ((t, d), ks)"
  shows "map (\<lambda>k. (k, containerId d)) (ini_torn t d) =
    map (\<lambda>k. (k, containerId c)) (ini_torn s c) @ teardown_calls ks"
  using assms
  by (induct s; cases sig)
     (auto simp: ini_step_unfold ini_calls teardown_calls_def ini_torn_lb_def split: if_splits)

lemma ini_step_trace:
  assumes "ini_trace (s, c) ks" and "sc_step ini_states now sig (s, c) = Some ((t, d), ks')"
  shows "ini_trace (t, d) (ks @ ks')"
  using ini_step_inv [OF _ assms(2)] ini_step_torn [OF _ assms(2)] assms(1)
  by (simp add: ini_trace_def)

lemma ini_run_trace: "ini_trace (fst (ini_run now input ins)) (snd (ini_run now input ins))"
  unfolding ini_run_def
  by (rule sc_run_invariant)
     (simp add: ini_trace_def teardown_calls_def, metis ini_step_trace surj_pair)

definition ini_rank :: "ini_state \<Rightarrow> nat" where
  "ini_rank s =
     (case s of
        idle \<Rightarrow> 11 | deployingInitialApp \<Rightarrow> 10 | waitingAppReady \<Rightarrow> 9
      | initializingFirstLB \<Rightarrow> 8 | initialHealthCheck \<Rightarrow> 7 | configuringFrontend \<Rightarrow> 6
      | enablingTraffic \<Rightarrow> 5 | rollbackRemoveFrontend \<Rightarrow> 4 | rollbackRemoveHaproxyConfig \<Rightarrow> 3
      | rollbackStoppingApp \<Rightarrow> 2 | rollbackRemovingApp \<Rightarrow> 1
      | completed \<Rightarrow> 0 | rollbackComplete \<Rightarrow> 0 | failed \<Rightarrow> 0)"

definition ini_owed :: "ini_state \<Rightarrow> signal \<Rightarrow> bool" where
  "ini_owed s sig =
     (if s = idle then sig = Ev (plain_event START_DEPLOYMENT) else owed_by ini_states s sig)"

lemma ini_step_rank:
  assumes "sc_step ini_states now sig (s, c) = Some ((t, d), ks)"
  shows "ini_rank t < ini_rank s"
  using assms
  by (induct s; cases sig) (auto simp: ini_step_unfold ini_rank_def split: if_splits)

lemma ini_answer_handled:
  "k \<in> set (snd (entry (ini_states s) now c)) \<Longrightarrow> answers k e \<Longrightarrow> \<not> is_final (ini_states s) \<Longrightarrow>
   on (ini_states s) e c' \<noteq> None"
  by (induct s) (auto simp: ini_states_def ini_nodes ini_calls answers_def op_emits_def)

lemma ini_owed_handled:
  assumes "\<not> is_final (ini_states s)" and "ini_owed s sig"
  shows "sc_step ini_states now sig (s, c) \<noteq> None"
proof (cases "s = idle")
  case True
  with assms(2) show ?thesis by (simp add: ini_owed_def ini_step_unfold)
next
  case False
  with assms(2) have "owed_by ini_states s sig" by (simp add: ini_owed_def)
  with ini_answer_handled assms(1) show ?thesis by (metis owed_by_handled)
qed

interpretation ini: deployment_machine ini_states "\<lambda>cfg. ini_inv (fst cfg) (snd cfg)" ini_rank ini_owed
proof unfold_locales
  fix cfg cfg' :: "ini_state \<times> ini_ctx" and now sig ks
  assume inv: "ini_inv (fst cfg) (snd cfg)" and st: "sc_step ini_states now sig cfg = Some (cfg', ks)"
  from st show "ini_rank (fst cfg') < ini_rank (fst cfg)"
    by (metis ini_step_rank surj_pair fst_conv)
  show "ini_inv (fst cfg') (snd cfg')"
    by (rule ini_step_inv [OF inv, of now sig _ _ ks]) (simp add: st)
next
  fix cfg :: "ini_state \<times> ini_ctx"
  assume "ini_rank (fst cfg) = 0"
  then show "is_final (ini_states (fst cfg))"
    by (cases "fst cfg") (simp_all add: ini_rank_def ini_states_def ini_nodes)
next
  fix cfg :: "ini_state \<times> ini_ctx" and now sig
  assume "\<not> is_final (ini_states (fst cfg))" and "ini_owed (fst cfg) sig"
  then show "sc_step ini_states now sig cfg \<noteq> None"
    by (metis ini_owed_handled surj_pair fst_conv)
qed

section \<open>Properties\<close>

definition ini_events_failing_traffic :: "(int \<times> signal) list" where
  "ini_events_failing_traffic =
     [(1, Ev (plain_event START_DEPLOYMENT)),
      (2, Ev ((plain_event DEPLOYMENT_SUCCESS)\<lparr>ev_containerId := Some ''c1''\<rparr>)),
      (3, Ev ((plain_event CONTAINERS_RUNNING)\<lparr>ev_containerIpAddress := Some ''10.0.0.2''\<rparr>)),
      (4, Ev (plain_event LB_CONFIGURED)),
      (5, Ev (plain_event SERVERS_HEALTHY)),
      (6, Ev (plain_event FRONTEND_CONFIGURED)),
      (7, Ev (error_event TRAFFIC_ENABLE_FAILED ''no server'')),
      (8, Ev (plain_event ROLLBACK_FRONTEND_REMOVED)),
      (9, Ev (plain_event ROLLBACK_CONFIG_REMOVED)),
      (10, Ev (plain_event ROLLBACK_APP_STOPPED)),
      (11, Ev (plain_event ROLLBACK_APP_REMOVED))]"

definition ini_events_ok :: "(int \<times> signal) list" where
  "ini_events_ok = take 6 ini_events_failing_traffic @ [(7, Ev (plain_event TRAFFIC_ENABLED))]"

text \<open>What an initial deployment has torn down is a function of where it ended: in every run
  the frontend, load-balancer, stop and remove calls are, in order, those the final node and the
  context's flags determine (the frontend only if the health checks had passed, the
  load-balancer entry whenever the application had come up, the container always), each on the
  container the run deployed, and none on a run that is still going forward or has completed.\<close>

theorem ini_rollback_exact:
  "teardown_calls (snd (ini_run now input ins)) =
     map (\<lambda>k. (k, containerId (snd (fst (ini_run now input ins)))))
       (ini_torn (fst (fst (ini_run now input ins))) (snd (fst (ini_run now input ins))))"
  using ini_run_trace [of now input ins] by (simp add: ini_trace_def)

text \<open>An initial deployment is reported completed only with the application up, registered
  with HAProxy, healthy and open to traffic, and without an error, even when the machine was
  started on an input whose flags and error came from an earlier run.\<close>

theorem ini_completed_is_healthy:
  assumes "fst (ini_run now input ins) = (completed, c)"
  shows "applicationReady c \<and> haproxyConfigured c \<and> healthChecksPassed c \<and> trafficEnabled c \<and>
    error c = None"
  using ini_run_trace [of now input ins] assms by (simp add: ini_trace_def)

lemma ini_sample_end: "fst (fst (ini_run 0 None ini_events_ok)) = completed"
  by code_simp

theorem ini_completed_is_healthy_witness:
  "trafficEnabled (snd (fst (ini_run 0 None ini_events_ok)))"
proof -
  have "fst (ini_run 0 None ini_events_ok) = (completed, snd (fst (ini_run 0 None ini_events_ok)))"
    using ini_sample_end by (metis prod.collapse)
  from ini_completed_is_healthy [OF this] show ?thesis by blast
qed

text \<open>After START_DEPLOYMENT, answering each node with an event its action may send or with
  its timer drives the initial deployment to a final node within eleven signals; every such
  answer is handled where it arrives.\<close>

theorem ini_reaches_final:
  assumes "answered_by ini_states ini_owed (idle, ini_context now input) ins"
    and "11 \<le> length ins"
  shows "is_final (ini_states (fst (fst (ini_run now input ins))))"
  unfolding ini_run_def
  using ini.answered_reaches_final [OF _ assms(1)] assms(2) by (simp add: ini_rank_def)

definition ini_events_no_image :: "(int \<times> signal) list" where
  "ini_events_no_image =
     (1, Ev (plain_event START_DEPLOYMENT)) #
     (2, Ev (error_event DEPLOYMENT_ERROR ''no such image'')) # replicate 9 (3, After)"

lemma ini_deploying_owed: "ini_owed deployingInitialApp (Ev (error_event DEPLOYMENT_ERROR m))"
proof -
  let ?c = "ini_context 0 None"
  have "answers (ini_deployApplicationContainers ?c) (error_event DEPLOYMENT_ERROR m)"
    by (rule answers_forwardI [where r = "error_event DEPLOYMENT_ERROR m"])
       (simp_all add: ini_deployApplicationContainers_def op_emits_def)
  then show ?thesis
    by (auto simp: ini_owed_def owed_by_def ini_states_def ini_deployingInitialApp_node_def)
qed

lemma ini_events_no_image_answered:
  "answered_by ini_states ini_owed (idle, ini_context 0 None) ini_events_no_image"
proof -
  have s1: "fst (fst (sc_send ini_states (1, Ev (plain_event START_DEPLOYMENT)) (idle, ini_context 0 None))) =
      deployingInitialApp"
    by (simp add: sc_send_def ini_step_unfold)
  have s2: "fst (fst (sc_send ini_states (2, Ev (error_event DEPLOYMENT_ERROR ''no such image''))
      (fst (sc_send ini_states (1, Ev (plain_event START_DEPLOYMENT)) (idle, ini_context 0 None))))) = failed"
    by (simp add: sc_send_def ini_step_unfold)
  have f: "is_final (ini_states failed)" by (simp add: ini_states_def ini_nodes)
  show ?thesis
    using s1 s2 f ini_deploying_owed
    by (simp add: ini_events_no_image_def answered_by_final ini_owed_def [of idle])
qed

theorem ini_reaches_final_witness:
  "is_final (ini_states (fst (fst (ini_run 0 None ini_events_no_image))))"
  by (rule ini_reaches_final [OF ini_events_no_image_answered]) (simp add: ini_events_no_image_def)

end
