(* ===== verification/RemovalDeploy.thy ===== *)
theory RemovalDeploy
  imports DeployContext
begin

text \<open>
  Taking a service down, \<open>haproxy/removal-deployment-state-machine.ts\<close>: the machine that
  removes a service from the load balancer, deletes its frontend, stops and removes its
  containers. Every step's failure is recorded and passed over.
\<close>

section \<open>Context and events\<close>

record rem_ctx = deploy_ids +
  rem_containerId :: "string option"
  containersToRemove :: "string list"
  lbRemovalComplete :: bool
  frontendRemoved :: bool
  applicationStopped :: bool
  applicationRemoved :: bool

type_synonym rem_call = "rem_ctx call"

datatype rem_state =
    idle | removingFromLB | removingFrontend | stoppingApplication | removingApplication
  | cleanup | completed | failed

type_synonym rem_node = "(rem_state, rem_ctx, rem_call) state_node"

definition rem_event :: "hevent \<Rightarrow> bool" where
  "rem_event e =
     (let t = evtype e in
      t \<in> {LB_REMOVAL_FAILED, FRONTEND_REMOVAL_ERROR, STOP_FAILED, REMOVAL_FAILED,
           CLEANUP_FAILED} \<and> ev_error e \<noteq> None \<or>
      t \<in> {START_REMOVAL, LB_REMOVAL_SUCCESS, FRONTEND_REMOVED, FRONTEND_REMOVAL_SKIPPED,
           STOP_SUCCESS, REMOVAL_SUCCESS, CLEANUP_SUCCESS, RESET, MANUAL_INTERVENTION_COMPLETE})"

section \<open>The named actions\<close>

definition rem_removeContainerFromLB :: "rem_ctx \<Rightarrow> rem_call" where
  "rem_removeContainerFromLB c =
     (plain_call RemoveContainerFromLB c (rem_containerId c))
       \<lparr>rejected := (\<lambda>m. Some (error_event LB_REMOVAL_FAILED (caught m)))\<rparr>"

definition rem_removeFrontend :: "rem_ctx \<Rightarrow> rem_call" where
  "rem_removeFrontend c =
     (plain_call RemoveFrontend c (rem_containerId c))
       \<lparr>rejected := (\<lambda>m. Some (error_event FRONTEND_REMOVAL_ERROR (caught m)))\<rparr>"

definition rem_stopApplication :: "rem_ctx \<Rightarrow> rem_call" where
  "rem_stopApplication c =
     (plain_call StopApplication c (rem_containerId c))
       \<lparr>rejected := (\<lambda>m. Some (error_event STOP_FAILED (caught m)))\<rparr>"

definition rem_removeApplication :: "rem_ctx \<Rightarrow> rem_call" where
  "rem_removeApplication c =
     (plain_call RemoveApplication c (rem_containerId c))
       \<lparr>rejected := (\<lambda>m. Some (error_event REMOVAL_FAILED (caught m)))\<rparr>"

definition rem_logDeploymentSuccess :: "rem_ctx \<Rightarrow> rem_call" where
  "rem_logDeploymentSuccess c = plain_call LogDeploymentSuccess c (rem_containerId c)"

definition rem_alertOperationsTeam :: "rem_ctx \<Rightarrow> rem_call" where
  "rem_alertOperationsTeam c = plain_call AlertOperationsTeam c (rem_containerId c)"

definition rem_cleanupTempResources :: "rem_ctx \<Rightarrow> rem_call" where
  "rem_cleanupTempResources c = plain_call CleanupTempResources c (rem_containerId c)"

definition rem_preserveErrorContext :: "hevent \<Rightarrow> rem_ctx \<Rightarrow> rem_ctx" where
  "rem_preserveErrorContext e c = c\<lparr>error := ev_error e\<rparr>"

definition rem_updateStoppedContainers :: "hevent \<Rightarrow> rem_ctx \<Rightarrow> rem_ctx" where
  "rem_updateStoppedContainers e c =
     (case ev_containers e of
        Some xs \<Rightarrow>
          if evtype e = STOP_SUCCESS
          then c\<lparr>containersToRemove := containersToRemove c @ xs\<rparr> else c
      | None \<Rightarrow> c)"

definition rem_resetState :: "rem_ctx \<Rightarrow> rem_ctx" where
  "rem_resetState c = c\<lparr>
     rem_containerId := None, lbRemovalComplete := False, frontendRemoved := False,
     applicationStopped := False, applicationRemoved := False, error := None, retryCount := 0\<rparr>"

definition rem_lbRemovalCompleted :: "rem_ctx \<Rightarrow> bool" where
  "rem_lbRemovalCompleted c = lbRemovalComplete c"

definition rem_applicationStopped :: "rem_ctx \<Rightarrow> bool" where
  "rem_applicationStopped c = applicationStopped c"

definition rem_applicationRemoved :: "rem_ctx \<Rightarrow> bool" where
  "rem_applicationRemoved c = applicationRemoved c"

text \<open>The message of a failure that is passed over.\<close>

definition rem_warning :: "string \<Rightarrow> string \<Rightarrow> hevent \<Rightarrow> string" where
  "rem_warning prefix otherwise e =
     (case ev_error e of Some m \<Rightarrow> prefix @ m | None \<Rightarrow> otherwise)"

section \<open>The initial context\<close>

definition rem_flag :: "(rem_ctx \<Rightarrow> bool) \<Rightarrow> rem_ctx option \<Rightarrow> bool" where
  "rem_flag f input = (case input of None \<Rightarrow> False | Some i \<Rightarrow> f i)"

definition rem_context :: "int \<Rightarrow> rem_ctx option \<Rightarrow> rem_ctx" where
  "rem_context now input =
     \<lparr>deploymentId = or_str (map_option deploymentId input) [],
      configurationId = or_str (map_option configurationId input) [],
      applicationName = or_str (map_option applicationName input) [],
      environmentId = or_str (map_option environmentId input) [],
      environmentName = or_str (map_option environmentName input) [],
      haproxyContainerId = or_str (map_option haproxyContainerId input) [],
      haproxyNetworkName = or_str (map_option haproxyNetworkName input) [],
      error = Option.bind input error,
      retryCount = or_num (map_option retryCount input) 0,
      triggerType = or_str (map_option triggerType input) ''manual'',
      triggeredBy = Option.bind input triggeredBy,
      startTime = or_num (map_option startTime input) now,
      config = Option.bind input config,
      rem_containerId = Option.bind input rem_containerId,
      containersToRemove = (case input of None \<Rightarrow> [] | Some i \<Rightarrow> containersToRemove i),
      lbRemovalComplete = rem_flag lbRemovalComplete input,
      frontendRemoved = rem_flag frontendRemoved input,
      applicationStopped = rem_flag applicationStopped input,
      applicationRemoved = rem_flag applicationRemoved input\<rparr>"

section \<open>The states\<close>

definition rem_idle_node :: rem_node where
  "rem_idle_node = node\<lparr>
     on := (\<lambda>e c.
       if evtype e = START_REMOVAL
       then Some (removingFromLB, rem_resetState c)
       else None)\<rparr>"

definition rem_removingFromLB_node :: rem_node where
  "rem_removingFromLB_node = node\<lparr>
     entry := (\<lambda>now c. (c, [rem_removeContainerFromLB c])),
     on := (\<lambda>e c.
       if evtype e = LB_REMOVAL_SUCCESS
       then Some (removingFrontend, c\<lparr>lbRemovalComplete := True\<rparr>)
       else if evtype e = LB_REMOVAL_FAILED
       then Some (removingFrontend, 
              c\<lparr>lbRemovalComplete := False,
                error := Some (rem_warning ''LB removal warning: '' ''LB removal failed (non-critical)'' e)\<rparr>)
       else None),
     after := Some (\<lambda>_. 60000, \<lambda>c.
       (removingFrontend, c\<lparr>lbRemovalComplete := False, error := Some ''LB removal timeout (non-critical)''\<rparr>))\<rparr>"

definition rem_removingFrontend_node :: rem_node where
  "rem_removingFrontend_node = node\<lparr>
     entry := (\<lambda>now c. (c, [rem_removeFrontend c])),
     on := (\<lambda>e c.
       if evtype e = FRONTEND_REMOVED
       then Some (stoppingApplication, c\<lparr>frontendRemoved := True\<rparr>)
       else if evtype e = FRONTEND_REMOVAL_SKIPPED
       then Some (stoppingApplication, c\<lparr>frontendRemoved := False\<rparr>)
       else if evtype e = FRONTEND_REMOVAL_ERROR
       then Some (stoppingApplication, 
              c\<lparr>frontendRemoved := False,
                error := Some (rem_warning ''Frontend removal warning: '' ''Frontend removal failed (non-critical)'' e)\<rparr>)
       else None),
     after := Some (\<lambda>_. 60000, \<lambda>c.
       (stoppingApplication, c\<lparr>frontendRemoved := False, error := Some ''Frontend removal timeout (non-critical)''\<rparr>))\<rparr>"

definition rem_stoppingApplication_node :: rem_node where
  "rem_stoppingApplication_node = node\<lparr>
     entry := (\<lambda>now c. (c, [rem_stopApplication c])),
     on := (\<lambda>e c.
       if evtype e = STOP_SUCCESS
       then Some (removingApplication, 
              rem_updateStoppedContainers e (c\<lparr>applicationStopped := True\<rparr>))
       else if evtype e = STOP_FAILED
       then Some (removingApplication, 
              c\<lparr>applicationStopped := False,
                error := Some (rem_warning ''Application stop warning: '' ''Application stop failed (non-critical)'' e)\<rparr>)
       else None),
     after := Some (\<lambda>_. 90000, \<lambda>c.
       (removingApplication, c\<lparr>applicationStopped := False, error := Some ''Application stop timeout (non-critical)''\<rparr>))\<rparr>"

definition rem_removingApplication_node :: rem_node where
  "rem_removingApplication_node = node\<lparr>
     entry := (\<lambda>now c. (c, [rem_removeApplication c])),
     on := (\<lambda>e c.
       if evtype e = REMOVAL_SUCCESS
       then Some (cleanup, c\<lparr>applicationRemoved := True\<rparr>)
       else if evtype e = REMOVAL_FAILED
       then Some (cleanup, 
              c\<lparr>applicationRemoved := False,
                error := Some (rem_warning ''Application removal warning: '' ''Application removal failed (non-critical)'' e)\<rparr>)
       else None),
     after := Some (\<lambda>_. 120000, \<lambda>c.
       (cleanup, c\<lparr>applicationRemoved := False, error := Some ''Application removal timeout (non-critical)''\<rparr>))\<rparr>"

definition rem_cleanup_node :: rem_node where
  "rem_cleanup_node = node\<lparr>
     entry := (\<lambda>now c. (c, [rem_cleanupTempResources c])),
     always := Some completed\<rparr>"

definition rem_completed_node :: rem_node where
  "rem_completed_node = node\<lparr>
     is_final := True,
     entry := (\<lambda>now c. (c, [rem_logDeploymentSuccess c])),
     on := (\<lambda>e c.
       if evtype e = RESET
       then Some (idle, rem_resetState c)
       else None)\<rparr>"

definition rem_failed_node :: rem_node where
  "rem_failed_node = node\<lparr>
     entry := (\<lambda>now c. (c, [rem_alertOperationsTeam c])),
     on := (\<lambda>e c.
       if evtype e = MANUAL_INTERVENTION_COMPLETE
       then Some (idle, rem_resetState c)
       else None)\<rparr>"

definition rem_states :: "rem_state \<Rightarrow> rem_node" where
  "rem_states s =
     (case s of
        idle \<Rightarrow> rem_idle_node
      | removingFromLB \<Rightarrow> rem_removingFromLB_node
      | removingFrontend \<Rightarrow> rem_removingFrontend_node
      | stoppingApplication \<Rightarrow> rem_stoppingApplication_node
      | removingApplication \<Rightarrow> rem_removingApplication_node
      | cleanup \<Rightarrow> rem_cleanup_node
      | completed \<Rightarrow> rem_completed_node
      | failed \<Rightarrow> rem_failed_node)"

definition rem_run ::
  "int \<Rightarrow> rem_ctx option \<Rightarrow> (int \<times> signal) list \<Rightarrow> (rem_state \<times> rem_ctx) \<times> rem_call list" where
  "rem_run now input ins = sc_run rem_states (idle, rem_context now input) ins"

section \<open>Lemmas\<close>

lemmas rem_nodes =
  rem_idle_node_def
  rem_removingFromLB_node_def
  rem_removingFrontend_node_def
  rem_stoppingApplication_node_def
  rem_removingApplication_node_def
  rem_cleanup_node_def
  rem_completed_node_def
  rem_failed_node_def

lemmas rem_calls =
  rem_removeContainerFromLB_def
  rem_removeFrontend_def
  rem_stopApplication_def
  rem_removeApplication_def
  rem_logDeploymentSuccess_def
  rem_alertOperationsTeam_def
  rem_cleanupTempResources_def

lemmas rem_assigns = rem_preserveErrorContext_def rem_updateStoppedContainers_def rem_resetState_def

lemmas rem_step_unfold =
  sc_step_def taken_def enter_def rem_states_def rem_nodes rem_assigns

text \<open>
  What holds in each node once the removal has started: the error slot is empty only if every
  step so far was reported successful, and no container id is left in the context.
\<close>

fun rem_inv :: "rem_state \<Rightarrow> rem_ctx \<Rightarrow> bool" where
  "rem_inv idle c = True"
| "rem_inv removingFromLB c = (rem_containerId c = None)"
| "rem_inv removingFrontend c =
     (rem_containerId c = None \<and> (error c = None \<longrightarrow> lbRemovalComplete c))"
| "rem_inv stoppingApplication c =
     (rem_containerId c = None \<and> (error c = None \<longrightarrow> lbRemovalComplete c))"
| "rem_inv removingApplication c =
     (rem_containerId c = None \<and>
      (error c = None \<longrightarrow> lbRemovalComplete c \<and> applicationStopped c))"
| "rem_inv completed c =
     (rem_containerId c = None \<and>
      (error c = None \<longrightarrow> lbRemovalComplete c \<and> applicationStopped c \<and> applicationRemoved c))"
| "rem_inv cleanup c = False"
| "rem_inv failed c = False"

text \<open>The teardown calls made by the time a node has been entered.\<close>

fun rem_done :: "rem_state \<Rightarrow> op list" where
  "rem_done removingFromLB = [RemoveContainerFromLB]"
| "rem_done removingFrontend = [RemoveContainerFromLB, RemoveFrontend]"
| "rem_done stoppingApplication = [RemoveContainerFromLB, RemoveFrontend, StopApplication]"
| "rem_done removingApplication =
     [RemoveContainerFromLB, RemoveFrontend, StopApplication, RemoveApplication]"
| "rem_done completed =
     [RemoveContainerFromLB, RemoveFrontend, StopApplication, RemoveApplication]"
| "rem_done _ = []"

definition rem_trace :: "rem_state \<times> rem_ctx \<Rightarrow> rem_call list \<Rightarrow> bool" where
  "rem_trace cfg ks \<longleftrightarrow> rem_inv (fst cfg) (snd cfg) \<and>
     teardown_calls ks = map (\<lambda>k. (k, None)) (rem_done (fst cfg))"

lemma rem_step_inv:
  assumes "rem_inv s c" and "sc_step rem_states now sig (s, c) = Some ((t, d), ks)"
  shows "rem_inv t d"
  using assms
  by (induct s; cases sig)
     (auto simp: rem_step_unfold split: if_splits option.splits)

lemma rem_step_done:
  assumes "rem_inv s c" and "sc_step rem_states now sig (s, c) = Some ((t, d), ks)"
  shows "map (\<lambda>k. (k, None)) (rem_done t) = map (\<lambda>k. (k, None)) (rem_done s) @ teardown_calls ks"
  using assms
  by (induct s; cases sig)
     (auto simp: rem_step_unfold rem_calls teardown_calls_def split: if_splits option.splits)

lemma rem_step_trace:
  assumes "rem_trace (s, c) ks" and "sc_step rem_states now sig (s, c) = Some ((t, d), ks')"
  shows "rem_trace (t, d) (ks @ ks')"
  using rem_step_inv [OF _ assms(2)] rem_step_done [OF _ assms(2)] assms(1)
  by (simp add: rem_trace_def)

lemma rem_run_trace: "rem_trace (fst (rem_run now input ins)) (snd (rem_run now input ins))"
  unfolding rem_run_def
  by (rule sc_run_invariant)
     (simp add: rem_trace_def teardown_calls_def, metis rem_step_trace surj_pair)

definition rem_rank :: "rem_state \<Rightarrow> nat" where
  "rem_rank s =
     (case s of
        idle \<Rightarrow> 5 | removingFromLB \<Rightarrow> 4 | removingFrontend \<Rightarrow> 3 | stoppingApplication \<Rightarrow> 2
      | removingApplication \<Rightarrow> 1 | cleanup \<Rightarrow> 1 | completed \<Rightarrow> 0 | failed \<Rightarrow> 6)"

definition rem_owed :: "rem_state \<Rightarrow> signal \<Rightarrow> bool" where
  "rem_owed s sig =
     (if s = idle then sig = Ev (plain_event START_REMOVAL) else owed_by rem_states s sig)"

lemma rem_step_rank:
  assumes "sc_step rem_states now sig (s, c) = Some ((t, d), ks)"
  shows "rem_rank t < rem_rank s"
  using assms
  by (induct s; cases sig) (auto simp: rem_step_unfold rem_rank_def split: if_splits)

lemma rem_answer_handled:
  "k \<in> set (snd (entry (rem_states s) now c)) \<Longrightarrow> answers k e \<Longrightarrow> rem_inv s c' \<Longrightarrow>
   \<not> is_final (rem_states s) \<Longrightarrow> on (rem_states s) e c' \<noteq> None"
  by (induct s) (auto simp: rem_states_def rem_nodes rem_calls answers_def op_emits_def)

lemma rem_owed_handled:
  assumes "rem_inv s c" and "\<not> is_final (rem_states s)" and "rem_owed s sig"
  shows "sc_step rem_states now sig (s, c) \<noteq> None"
proof (cases "s = idle")
  case True
  with assms(3) show ?thesis by (simp add: rem_owed_def rem_step_unfold)
next
  case False
  with assms(3) have owed: "owed_by rem_states s sig" by (simp add: rem_owed_def)
  show ?thesis
  proof (cases sig)
    case (Ev e)
    with owed obtain now' ca k where "k \<in> set (snd (entry (rem_states s) now' ca))" "answers k e"
      by (auto simp: owed_by_def)
    from rem_answer_handled [OF this assms(1,2)] Ev assms(2) show ?thesis
      by (simp add: sc_step_None_iff taken_def)
  next
    case After
    with owed assms(2) show ?thesis by (simp add: owed_by_def sc_step_None_iff taken_def)
  qed
qed

interpretation rem: deployment_machine rem_states "\<lambda>cfg. rem_inv (fst cfg) (snd cfg)" rem_rank rem_owed
proof unfold_locales
  fix cfg cfg' :: "rem_state \<times> rem_ctx" and now sig ks
  assume inv: "rem_inv (fst cfg) (snd cfg)" and st: "sc_step rem_states now sig cfg = Some (cfg', ks)"
  from st show "rem_rank (fst cfg') < rem_rank (fst cfg)"
    by (metis rem_step_rank surj_pair fst_conv)
  show "rem_inv (fst cfg') (snd cfg')"
    by (rule rem_step_inv [OF inv, of now sig _ _ ks]) (simp add: st)
next
  fix cfg :: "rem_state \<times> rem_ctx"
  assume "rem_rank (fst cfg) = 0"
  then show "is_final (rem_states (fst cfg))"
    by (cases "fst cfg") (simp_all add: rem_rank_def rem_states_def rem_nodes)
next
  fix cfg :: "rem_state \<times> rem_ctx" and now sig
  assume "rem_inv (fst cfg) (snd cfg)" and "\<not> is_final (rem_states (fst cfg))"
    and "rem_owed (fst cfg) sig"
  then show "sc_step rem_states now sig cfg \<noteq> None"
    by (metis rem_owed_handled surj_pair fst_conv snd_conv)
qed

section \<open>Properties\<close>

text \<open>Whatever the steps of a removal report, it attempts all of them in order: the
  load-balancer removal, the frontend, the stop and the removal calls a run has made are exactly
  those the node it ended in determines, all four once it is completed. Every one of them runs
  without a container id, also when the input named a container, because starting the removal
  resets it.\<close>

theorem rem_teardown_exact:
  "teardown_calls (snd (rem_run now input ins)) =
     map (\<lambda>k. (k, None)) (rem_done (fst (fst (rem_run now input ins))))"
  using rem_run_trace [of now input ins] by (simp add: rem_trace_def)

text \<open>A removal always completes: it is never in the failed node, and once started and
  answered (or timed out) at each of its four working nodes, five signals in all, it is in
  completed.\<close>

theorem rem_always_completes:
  assumes "answered_by rem_states rem_owed (idle, rem_context now input) ins"
    and "5 \<le> length ins"
  shows "fst (fst (rem_run now input ins)) = completed"
proof -
  have "is_final (rem_states (fst (fst (rem_run now input ins))))"
    unfolding rem_run_def
    using rem.answered_reaches_final [OF _ assms(1)] assms(2) by (simp add: rem_rank_def)
  then show ?thesis
    by (cases "fst (fst (rem_run now input ins))") (simp_all add: rem_states_def rem_nodes)
qed

text \<open>A removal in which nothing answers: four timers.\<close>

definition rem_events_silent :: "(int \<times> signal) list" where
  "rem_events_silent =
     [(1, Ev (plain_event START_REMOVAL)), (60001, After), (120001, After), (210001, After),
      (330001, After)]"

lemma rem_events_silent_answered:
  "answered_by rem_states rem_owed (idle, rem_context 0 None) rem_events_silent"
  by (simp add: rem_events_silent_def rem_owed_def owed_by_def sc_send_def rem_step_unfold)

theorem rem_always_completes_witness:
  "fst (fst (rem_run 0 None rem_events_silent)) = completed"
  by (rule rem_always_completes [OF rem_events_silent_answered]) (simp add: rem_events_silent_def)

text \<open>A removal that has completed without an error has had the load-balancer removal, the
  stop and the container removal all reported successful: no failure is passed over silently.\<close>

theorem rem_clean_completion:
  assumes "fst (rem_run now input ins) = (completed, c)" and "error c = None"
  shows "lbRemovalComplete c \<and> applicationStopped c \<and> applicationRemoved c"
  using rem_run_trace [of now input ins] assms by (simp add: rem_trace_def)

definition rem_events_ok :: "(int \<times> signal) list" where
  "rem_events_ok =
     [(1, Ev (plain_event START_REMOVAL)), (2, Ev (plain_event LB_REMOVAL_SUCCESS)),
      (3, Ev (plain_event FRONTEND_REMOVAL_SKIPPED)),
      (4, Ev ((plain_event STOP_SUCCESS)\<lparr>ev_containers := Some [''c1'']\<rparr>)),
      (5, Ev (plain_event REMOVAL_SUCCESS))]"

lemma rem_sample_ok:
  "fst (fst (rem_run 0 None rem_events_ok)) = completed"
  "error (snd (fst (rem_run 0 None rem_events_ok))) = None"
  by code_simp+

theorem rem_clean_completion_witness:
  "applicationRemoved (snd (fst (rem_run 0 None rem_events_ok)))"
proof -
  have "fst (rem_run 0 None rem_events_ok) = (completed, snd (fst (rem_run 0 None rem_events_ok)))"
    using rem_sample_ok(1) by (metis prod.collapse)
  from rem_clean_completion [OF this rem_sample_ok(2)] show ?thesis by blast
qed

end
