(* ===== verification/BlueGreenDeploy.thy ===== *)
theory BlueGreenDeploy
  imports DeployContext
begin

text \<open>
  The blue-green deployment machine of \<open>haproxy/blue-green-deployment-state-machine.ts\<close>: the
  named actions of its \<open>setup\<close>, its initial context, one node per state in the source's
  order, and what every run of it keeps. Blue is the old container, green the new one; the
  machine cuts traffic over on TRAFFIC_ENABLED. Log calls are left out.
\<close>

type_synonym bgd_call = "bgd_ctx call"
type_synonym bgd_node = "(bg_state, bgd_ctx, bgd_call) state_node"

section \<open>The event union\<close>

definition bgd_event :: "hevent \<Rightarrow> bool" where
  "bgd_event e =
     (let t = evtype e in
      t = START_DEPLOYMENT \<or>
      t = DEPLOYMENT_SUCCESS \<and> ev_containerId e \<noteq> None \<or>
      t = CONTAINERS_RUNNING \<and> ev_containerIpAddress e \<noteq> None \<or>
      t \<in> {DEPLOYMENT_ERROR, LB_CONFIG_ERROR, FRONTEND_CONFIG_ERROR, TRAFFIC_ENABLE_FAILED,
           VALIDATION_FAILED, DRAIN_ISSUES, LB_REMOVAL_FAILED, BLUE_APP_STOP_ERROR, STOP_FAILED,
           BLUE_APP_REMOVAL_ERROR, REMOVAL_FAILED, ROLLBACK_ERROR, GREEN_LB_REMOVAL_ERROR} \<and>
        ev_error e \<noteq> None \<or>
      t \<in> {STARTUP_TIMEOUT, LB_CONFIGURED, SERVERS_HEALTHY, HEALTH_CHECK_TIMEOUT,
           FRONTEND_CONFIGURED, FRONTEND_CONFIG_SKIPPED, TRAFFIC_ENABLED, TRAFFIC_VALIDATED,
           DRAIN_INITIATED, DRAIN_COMPLETE, DRAIN_TIMEOUT, LB_REMOVAL_SUCCESS, BLUE_APP_STOPPED,
           STOP_SUCCESS, BLUE_APP_REMOVED, REMOVAL_SUCCESS, ROLLBACK_BLUE_TRAFFIC_RESTORED,
           ROLLBACK_GREEN_TRAFFIC_DISABLED, ROLLBACK_GREEN_CONFIG_REMOVED,
           ROLLBACK_GREEN_APP_STOPPED, ROLLBACK_GREEN_APP_REMOVED, ROLLBACK_COMPLETE,
           DEPLOYMENT_COMPLETE, RESET, MANUAL_INTERVENTION_COMPLETE})"

section \<open>The named actions\<close>

definition bgd_deployGreenApplicationContainers :: "bgd_ctx \<Rightarrow> bgd_call" where
  "bgd_deployGreenApplicationContainers c = plain_call DeployApplicationContainers c None"

definition bgd_monitorGreenContainerStartup :: "bgd_ctx \<Rightarrow> bgd_call" where
  "bgd_monitorGreenContainerStartup c = plain_call MonitorContainerStartup c None"

definition bgd_initializeGreenLB :: "bgd_ctx \<Rightarrow> bgd_call" where
  "bgd_initializeGreenLB c = plain_call AddContainerToLB c (newContainerId c)"

definition bgd_performGreenHealthChecks :: "bgd_ctx \<Rightarrow> bgd_call" where
  "bgd_performGreenHealthChecks c = plain_call PerformHealthChecks c (newContainerId c)"

definition bgd_configureGreenFrontend :: "bgd_ctx \<Rightarrow> bgd_call" where
  "bgd_configureGreenFrontend c =
     (plain_call ConfigureFrontend c None)
       \<lparr>rejected := (\<lambda>m. Some (error_event FRONTEND_CONFIG_ERROR (caught m)))\<rparr>"

definition bgd_openTrafficToGreen :: "bgd_ctx \<Rightarrow> bgd_call" where
  "bgd_openTrafficToGreen c = plain_call EnableTraffic c (newContainerId c)"

definition bgd_initiateBlueDrain :: "bgd_ctx \<Rightarrow> bgd_call" where
  "bgd_initiateBlueDrain c = plain_call InitiateDrain c (newContainerId c)"

definition bgd_setDrainStartTime :: "int \<Rightarrow> bgd_ctx \<Rightarrow> bgd_ctx" where
  "bgd_setDrainStartTime now c = c\<lparr>drainStartTime := Some now\<rparr>"

definition bgd_monitorBlueDrain :: "bgd_ctx \<Rightarrow> bgd_call" where
  "bgd_monitorBlueDrain c = plain_call MonitorDrain c None"

definition bgd_markDrainFailureNonCritical :: "bgd_ctx \<Rightarrow> bgd_ctx" where
  "bgd_markDrainFailureNonCritical c = c\<lparr>error :=
     Some ''Blue connection drain did not complete cleanly (Non-Critical) - green is live''\<rparr>"

definition bgd_removeBlueFromLB :: "bgd_ctx \<Rightarrow> bgd_call" where
  "bgd_removeBlueFromLB c =
     (plain_call RemoveContainerFromLB c (oldContainerId c))
       \<lparr>rejected := (\<lambda>m. Some (error_event LB_REMOVAL_FAILED (caught m)))\<rparr>"

definition bgd_stopBlueApplication :: "bgd_ctx \<Rightarrow> bgd_call" where
  "bgd_stopBlueApplication c =
     (plain_call StopApplication c (oldContainerId c))
       \<lparr>rejected := (\<lambda>m. Some (error_event BLUE_APP_STOP_ERROR (caught m)))\<rparr>"

definition bgd_removeBlueApplication :: "bgd_ctx \<Rightarrow> bgd_call" where
  "bgd_removeBlueApplication c =
     (plain_call RemoveApplication c (oldContainerId c))
       \<lparr>rejected := (\<lambda>m. Some (error_event BLUE_APP_REMOVAL_ERROR (caught m)))\<rparr>"

definition bgd_disableGreenTraffic :: "bgd_ctx \<Rightarrow> bgd_call" where
  "bgd_disableGreenTraffic c = plain_call DisableTraffic c (newContainerId c)"

definition bgd_removeGreenHAProxyConfig :: "bgd_ctx \<Rightarrow> bgd_call" where
  "bgd_removeGreenHAProxyConfig c =
     (plain_call RemoveContainerFromLB c (newContainerId c))
       \<lparr>forward := (\<lambda>e.
           if evtype e = LB_REMOVAL_SUCCESS then plain_event ROLLBACK_GREEN_CONFIG_REMOVED
           else if evtype e = LB_REMOVAL_FAILED
           then (plain_event ROLLBACK_ERROR)\<lparr>ev_error := ev_error e\<rparr>
           else e),
        rejected := (\<lambda>m. Some (error_event ROLLBACK_ERROR (caught m)))\<rparr>"

definition bgd_stopGreenApplication :: "bgd_ctx \<Rightarrow> bgd_call" where
  "bgd_stopGreenApplication c =
     (plain_call StopApplication c (newContainerId c))
       \<lparr>forward := (\<lambda>e.
           if evtype e = STOP_SUCCESS then plain_event ROLLBACK_GREEN_APP_STOPPED
           else if evtype e = STOP_FAILED
           then (plain_event ROLLBACK_ERROR)\<lparr>ev_error := ev_error e\<rparr>
           else e),
        rejected := (\<lambda>m. Some (error_event ROLLBACK_ERROR (caught m)))\<rparr>"

definition bgd_removeGreenApplication :: "bgd_ctx \<Rightarrow> bgd_call" where
  "bgd_removeGreenApplication c =
     (plain_call RemoveApplication c (newContainerId c))
       \<lparr>forward := (\<lambda>e.
           if evtype e = REMOVAL_SUCCESS then plain_event ROLLBACK_GREEN_APP_REMOVED
           else if evtype e = REMOVAL_FAILED
           then (plain_event ROLLBACK_ERROR)\<lparr>ev_error := ev_error e\<rparr>
           else e),
        rejected := (\<lambda>m. Some (error_event ROLLBACK_ERROR (caught m)))\<rparr>"

definition bgd_startExtendedMonitoring :: "int \<Rightarrow> bgd_ctx \<Rightarrow> bgd_ctx" where
  "bgd_startExtendedMonitoring now c = c\<lparr>monitoringStartTime := Some now\<rparr>"

definition bgd_logDeploymentSuccess :: "bgd_ctx \<Rightarrow> bgd_call" where
  "bgd_logDeploymentSuccess c = plain_call LogDeploymentSuccess c None"

definition bgd_alertOperationsTeam :: "bgd_ctx \<Rightarrow> bgd_call" where
  "bgd_alertOperationsTeam c = plain_call AlertOperationsTeam c None"

definition bgd_cleanupTempResources :: "bgd_ctx \<Rightarrow> bgd_call" where
  "bgd_cleanupTempResources c = plain_call CleanupTempResources c None"

text \<open>
  The best-effort cleanup of a failed deployment, as the calls it gets to make in a given
  \<open>cleanup_world\<close>: no failing step stops the ones after its \<open>try\<close> block, but a rejected stop
  skips the removal that follows it.
\<close>

definition bgd_cleanupFailedDeployment :: "cleanup_world \<Rightarrow> bgd_ctx \<Rightarrow> bgd_call list" where
  "bgd_cleanupFailedDeployment w c =
     (if truthy (newContainerId c) then
        [plain_call RemoveContainerFromLB c (newContainerId c)] @
        (if haproxyContainerId c \<noteq> [] \<and> applicationName c \<noteq> [] \<and> cw_initialize w then
           (case cw_listServers w of
              Some remaining \<Rightarrow>
                (if remaining = None \<or> remaining = Some []
                 then [plain_call RemoveFrontend c None] else [])
            | None \<Rightarrow> [])
         else []) @
        [plain_call StopApplication c (newContainerId c)] @
        (if cw_stop w then [plain_call RemoveApplication c (newContainerId c)] else [])
      else [])"

definition bgd_startCleanup :: "bgd_ctx \<Rightarrow> bgd_call" where
  "bgd_startCleanup c = plain_call CleanupFailedDeployment c (newContainerId c)"

definition bgd_preserveErrorContext :: "hevent \<Rightarrow> bgd_ctx \<Rightarrow> bgd_ctx" where
  "bgd_preserveErrorContext e c = c\<lparr>error := ev_error e\<rparr>"

definition bgd_incrementRetryCount :: "bgd_ctx \<Rightarrow> bgd_ctx" where
  "bgd_incrementRetryCount c = c\<lparr>retryCount := retryCount c + 1\<rparr>"

definition bgd_resetState :: "bgd_ctx \<Rightarrow> bgd_ctx" where
  "bgd_resetState c = c\<lparr>
     blueHealthy := False, greenHealthy := False, greenBackendConfigured := False,
     bg_frontendConfigured := False, trafficOpenedToGreen := False, trafficValidated := False,
     blueDraining := False, blueDrained := False, validationErrors := 0,
     drainStartTime := None, monitoringStartTime := None, error := None, retryCount := 0,
     activeConnections := 0, newContainerId := None, containerIpAddress := None,
     containerPort := None, bg_frontendName := None\<rparr>"

section \<open>Guards\<close>

definition bgd_greenContainersRunning :: "bgd_ctx \<Rightarrow> bool" where
  "bgd_greenContainersRunning c = greenHealthy c"

definition bgd_greenServersHealthy :: "bgd_ctx \<Rightarrow> bool" where
  "bgd_greenServersHealthy c = (greenHealthy c \<and> greenBackendConfigured c)"

definition bgd_trafficValidationPassed :: "bgd_ctx \<Rightarrow> bool" where
  "bgd_trafficValidationPassed c = (trafficValidated c \<and> validationErrors c = 0)"

definition bgd_blueConnectionsDrained :: "bgd_ctx \<Rightarrow> bool" where
  "bgd_blueConnectionsDrained c = (activeConnections c = 0)"

definition bgd_drainTimeoutExceeded :: "int \<Rightarrow> bgd_ctx \<Rightarrow> bool" where
  "bgd_drainTimeoutExceeded now c =
     (case drainStartTime c of
        None \<Rightarrow> False | Some t \<Rightarrow> if t = 0 then False else now - t \<ge> 120000)"

definition bgd_monitoringPeriodComplete :: "int \<Rightarrow> bgd_ctx \<Rightarrow> bool" where
  "bgd_monitoringPeriodComplete now c =
     (case monitoringStartTime c of
        None \<Rightarrow> False | Some t \<Rightarrow> if t = 0 then False else now - t \<ge> 300000)"

definition bgd_canRetry :: "bgd_ctx \<Rightarrow> bool" where
  "bgd_canRetry c = (retryCount c < 3)"

section \<open>The initial context\<close>

text \<open>
  Identifiers come from the input or default to the empty string; the deployment flags always
  start false, whatever the input holds.
\<close>

definition bgd_context :: "int \<Rightarrow> bgd_ctx option \<Rightarrow> bgd_ctx" where
  "bgd_context now input =
     \<lparr>deploymentId = or_str (map_option deploymentId input) [],
      configurationId = or_str (map_option configurationId input) [],
      applicationName = or_str (map_option applicationName input) [],
      environmentId = or_str (map_option environmentId input) [],
      environmentName = or_str (map_option environmentName input) [],
      haproxyContainerId = or_str (map_option haproxyContainerId input) [],
      haproxyNetworkName = or_str (map_option haproxyNetworkName input) [],
      error = None,
      retryCount = 0,
      triggerType = or_str (map_option triggerType input) ''manual'',
      triggeredBy = Option.bind input triggeredBy,
      startTime = or_num (map_option startTime input) now,
      config = Option.bind input config,
      dockerImage = or_str (map_option dockerImage input) [],
      userEventId = Option.bind input userEventId,
      containerName = Option.bind input containerName,
      containerIpAddress = Option.bind input containerIpAddress,
      containerPort = Option.bind input containerPort,
      validationErrors = 0,
      hostname = Option.bind input hostname,
      enableSsl = Option.bind input enableSsl,
      tlsCertificateId = Option.bind input tlsCertificateId,
      certificateStatus = Option.bind input certificateStatus,
      networkType = Option.bind input networkType,
      healthCheckEndpoint = Option.bind input healthCheckEndpoint,
      healthCheckInterval = Option.bind input healthCheckInterval,
      healthCheckRetries = Option.bind input healthCheckRetries,
      healthCheckTimeoutMs = Option.bind input healthCheckTimeoutMs,
      containerPorts = Option.bind input containerPorts,
      containerVolumes = Option.bind input containerVolumes,
      containerEnvironment = Option.bind input containerEnvironment,
      containerLabels = Option.bind input containerLabels,
      containerNetworks = Option.bind input containerNetworks,
      blueHealthy = False,
      greenHealthy = False,
      greenBackendConfigured = False,
      trafficOpenedToGreen = False,
      trafficValidated = False,
      blueDraining = False,
      blueDrained = False,
      drainStartTime = None,
      monitoringStartTime = None,
      activeConnections = 0,
      oldContainerId = Option.bind input oldContainerId,
      newContainerId = Option.bind input newContainerId,
      bg_frontendConfigured = False,
      bg_frontendName = None\<rparr>"

section \<open>The states\<close>

definition bgd_idle :: bgd_node where
  "bgd_idle = node\<lparr>on := (\<lambda>e c.
     if evtype e = START_DEPLOYMENT then Some (deployingGreenApp, c) else None)\<rparr>"

definition bgd_deployingGreenApp :: bgd_node where
  "bgd_deployingGreenApp = node\<lparr>
     entry := (\<lambda>now c. (c, [bgd_deployGreenApplicationContainers c])),
     on := (\<lambda>e c.
       if evtype e = DEPLOYMENT_SUCCESS
       then Some (waitingGreenReady,
              c\<lparr>newContainerId := ev_containerId e, containerName := ev_containerName e\<rparr>)
       else if evtype e = DEPLOYMENT_ERROR
       then Some (failed, bgd_preserveErrorContext e c)
       else None)\<rparr>"

definition bgd_waitingGreenReady :: bgd_node where
  "bgd_waitingGreenReady = node\<lparr>
     entry := (\<lambda>now c. (c, [bgd_monitorGreenContainerStartup c])),
     on := (\<lambda>e c.
       if evtype e = CONTAINERS_RUNNING
       then Some (initializingGreenLB,
              c\<lparr>greenHealthy := True, containerIpAddress := ev_containerIpAddress e,
                containerPort := ev_containerPort e, containerName := ev_containerName e\<rparr>)
       else if evtype e = STARTUP_TIMEOUT
       then Some (rollbackRemovingGreenApp, c\<lparr>error := Some ''Green container startup timeout''\<rparr>)
       else None),
     after := Some (\<lambda>_. 120000, \<lambda>c.
       (rollbackRemovingGreenApp, c\<lparr>error := Some ''Green application startup timeout''\<rparr>))\<rparr>"

definition bgd_initializingGreenLB :: bgd_node where
  "bgd_initializingGreenLB = node\<lparr>
     entry := (\<lambda>now c. (c, [bgd_initializeGreenLB c])),
     on := (\<lambda>e c.
       if evtype e = LB_CONFIGURED
       then Some (healthCheckWait, c\<lparr>greenBackendConfigured := True\<rparr>)
       else if evtype e = LB_CONFIG_ERROR
       then Some (rollbackStoppingGreenApp, bgd_preserveErrorContext e c)
       else None)\<rparr>"

definition bgd_healthCheckWait :: bgd_node where
  "bgd_healthCheckWait = node\<lparr>
     entry := (\<lambda>now c. (c, [bgd_performGreenHealthChecks c])),
     on := (\<lambda>e c.
       if evtype e = SERVERS_HEALTHY
       then Some (configuringFrontend, c\<lparr>greenHealthy := True\<rparr>)
       else if evtype e = HEALTH_CHECK_TIMEOUT
       then Some (rollbackRemoveGreenHaproxyConfig, c\<lparr>error := Some ''Green health check timeout''\<rparr>)
       else None),
     after := Some (healthCheckTimeout, \<lambda>c.
       (rollbackRemoveGreenHaproxyConfig, c\<lparr>error := Some (healthCheckTimeoutMessage c)\<rparr>))\<rparr>"

definition bgd_configuringFrontend :: bgd_node where
  "bgd_configuringFrontend = node\<lparr>
     entry := (\<lambda>now c. (c, [bgd_configureGreenFrontend c])),
     on := (\<lambda>e c.
       if evtype e = FRONTEND_CONFIGURED
       then Some (openingTraffic,
              c\<lparr>bg_frontendConfigured := True, bg_frontendName := ev_frontendName e\<rparr>)
       else if evtype e = FRONTEND_CONFIG_SKIPPED
       then Some (openingTraffic, c\<lparr>bg_frontendConfigured := False\<rparr>)
       else if evtype e = FRONTEND_CONFIG_ERROR
       then Some (rollbackRemoveGreenHaproxyConfig, bgd_preserveErrorContext e c)
       else None)\<rparr>"

definition bgd_openingTraffic :: bgd_node where
  "bgd_openingTraffic = node\<lparr>
     entry := (\<lambda>now c. (c, [bgd_openTrafficToGreen c])),
     on := (\<lambda>e c.
       if evtype e = TRAFFIC_ENABLED
       then Some (drainingBlue, c\<lparr>trafficOpenedToGreen := True, trafficValidated := True\<rparr>)
       else if evtype e = TRAFFIC_ENABLE_FAILED
       then Some (rollbackDisableGreenTraffic, bgd_preserveErrorContext e c)
       else None)\<rparr>"

definition bgd_drainingBlue :: bgd_node where
  "bgd_drainingBlue = node\<lparr>
     entry := (\<lambda>now c. (bgd_setDrainStartTime now c, [bgd_initiateBlueDrain c])),
     on := (\<lambda>e c.
       if evtype e = DRAIN_INITIATED
       then Some (waitingForDrain, c\<lparr>blueDraining := True\<rparr>)
       else if evtype e = DRAIN_ISSUES
       then Some (decommissioningBlueLB, bgd_markDrainFailureNonCritical c)
       else None)\<rparr>"

definition bgd_waitingForDrain :: bgd_node where
  "bgd_waitingForDrain = node\<lparr>
     entry := (\<lambda>now c. (c, [bgd_monitorBlueDrain c])),
     on := (\<lambda>e c.
       if evtype e = DRAIN_COMPLETE
       then Some (decommissioningBlueLB, c\<lparr>blueDrained := True, activeConnections := 0\<rparr>)
       else if evtype e = DRAIN_TIMEOUT
       then Some (decommissioningBlueLB, bgd_markDrainFailureNonCritical c)
       else if evtype e = DRAIN_ISSUES
       then Some (decommissioningBlueLB, bgd_markDrainFailureNonCritical c)
       else None),
     after := Some (\<lambda>_. 120000, \<lambda>c.
       (decommissioningBlueLB, bgd_markDrainFailureNonCritical c))\<rparr>"

definition bgd_decommissioningBlueLB :: bgd_node where
  "bgd_decommissioningBlueLB = node\<lparr>
     entry := (\<lambda>now c. (c, [bgd_removeBlueFromLB c])),
     on := (\<lambda>e c.
       if evtype e = LB_REMOVAL_SUCCESS then Some (stoppingBlueApp, c)
       else if evtype e = LB_REMOVAL_FAILED
       then Some (stoppingBlueApp,
              c\<lparr>error := Some ''Unable to remove blue backend (Non-Critical)''\<rparr>)
       else None)\<rparr>"

definition bgd_stoppingBlueApp :: bgd_node where
  "bgd_stoppingBlueApp = node\<lparr>
     entry := (\<lambda>now c. (c, [bgd_stopBlueApplication c])),
     on := (\<lambda>e c.
       if evtype e = STOP_SUCCESS then Some (removingBlueApp, c)
       else if evtype e = BLUE_APP_STOP_ERROR
       then Some (removingBlueApp, c\<lparr>error := Some ''Blue app stop failed (Non-Critical)''\<rparr>)
       else if evtype e = STOP_FAILED
       then Some (removingBlueApp, c\<lparr>error := Some ''Blue app stop failed (Non-Critical)''\<rparr>)
       else None)\<rparr>"

definition bgd_removingBlueApp :: bgd_node where
  "bgd_removingBlueApp = node\<lparr>
     entry := (\<lambda>now c. (c, [bgd_removeBlueApplication c])),
     on := (\<lambda>e c.
       if evtype e = REMOVAL_SUCCESS then Some (completed, c)
       else if evtype e = BLUE_APP_REMOVAL_ERROR
       then Some (completed, c\<lparr>error := Some ''Blue app removal failed (Non-Critical)''\<rparr>)
       else if evtype e = REMOVAL_FAILED
       then Some (completed, c\<lparr>error := Some ''Blue app removal failed (Non-Critical)''\<rparr>)
       else None)\<rparr>"

definition bgd_rollbackDisableGreenTraffic :: bgd_node where
  "bgd_rollbackDisableGreenTraffic = node\<lparr>
     entry := (\<lambda>now c. (c, [bgd_disableGreenTraffic c])),
     on := (\<lambda>e c.
       if evtype e = ROLLBACK_GREEN_TRAFFIC_DISABLED
       then Some (rollbackRemoveGreenHaproxyConfig, c)
       else if evtype e = ROLLBACK_ERROR
       then Some (rollbackRemoveGreenHaproxyConfig, bgd_preserveErrorContext e c)
       else None)\<rparr>"

definition bgd_rollbackRemoveGreenHaproxyConfig :: bgd_node where
  "bgd_rollbackRemoveGreenHaproxyConfig = node\<lparr>
     entry := (\<lambda>now c. (c, [bgd_removeGreenHAProxyConfig c])),
     on := (\<lambda>e c.
       if evtype e = ROLLBACK_GREEN_CONFIG_REMOVED then Some (rollbackStoppingGreenApp, c)
       else if evtype e = ROLLBACK_ERROR
       then Some (failed, c\<lparr>error := Some ''Cannot rollback green config''\<rparr>)
       else None)\<rparr>"

definition bgd_rollbackStoppingGreenApp :: bgd_node where
  "bgd_rollbackStoppingGreenApp = node\<lparr>
     entry := (\<lambda>now c. (c, [bgd_stopGreenApplication c])),
     on := (\<lambda>e c.
       if evtype e = ROLLBACK_GREEN_APP_STOPPED then Some (rollbackRemovingGreenApp, c)
       else if evtype e = ROLLBACK_ERROR
       then Some (rollbackRemovingGreenApp,
              c\<lparr>error := Some ''Green app stop failed - continuing cleanup''\<rparr>)
       else None)\<rparr>"

definition bgd_rollbackRemovingGreenApp :: bgd_node where
  "bgd_rollbackRemovingGreenApp = node\<lparr>
     entry := (\<lambda>now c. (c, [bgd_removeGreenApplication c])),
     on := (\<lambda>e c.
       if evtype e = ROLLBACK_GREEN_APP_REMOVED then Some (rollbackComplete, c)
       else if evtype e = ROLLBACK_ERROR
       then Some (rollbackComplete,
              c\<lparr>error := Some ''Green app removal had errors - rollback completed with warnings''\<rparr>)
       else None)\<rparr>"

definition bgd_rollbackComplete :: bgd_node where
  "bgd_rollbackComplete = node\<lparr>is_final := True,
     entry := (\<lambda>now c. (c, [bgd_alertOperationsTeam c, bgd_cleanupTempResources c]))\<rparr>"

definition bgd_completed :: bgd_node where
  "bgd_completed = node\<lparr>is_final := True,
     entry := (\<lambda>now c. (c, [bgd_logDeploymentSuccess c, bgd_cleanupTempResources c])),
     on := (\<lambda>e c. if evtype e = RESET then Some (idle, bgd_resetState c) else None)\<rparr>"

definition bgd_failed :: bgd_node where
  "bgd_failed = node\<lparr>is_final := True,
     entry := (\<lambda>now c. (c, [bgd_alertOperationsTeam c, bgd_startCleanup c]))\<rparr>"

definition bgd_states :: "bg_state \<Rightarrow> bgd_node" where
  "bgd_states s =
     (case s of
        idle \<Rightarrow> bgd_idle
      | deployingGreenApp \<Rightarrow> bgd_deployingGreenApp
      | waitingGreenReady \<Rightarrow> bgd_waitingGreenReady
      | initializingGreenLB \<Rightarrow> bgd_initializingGreenLB
      | healthCheckWait \<Rightarrow> bgd_healthCheckWait
      | configuringFrontend \<Rightarrow> bgd_configuringFrontend
      | openingTraffic \<Rightarrow> bgd_openingTraffic
      | drainingBlue \<Rightarrow> bgd_drainingBlue
      | waitingForDrain \<Rightarrow> bgd_waitingForDrain
      | decommissioningBlueLB \<Rightarrow> bgd_decommissioningBlueLB
      | stoppingBlueApp \<Rightarrow> bgd_stoppingBlueApp
      | removingBlueApp \<Rightarrow> bgd_removingBlueApp
      | rollbackDisableGreenTraffic \<Rightarrow> bgd_rollbackDisableGreenTraffic
      | rollbackRemoveGreenHaproxyConfig \<Rightarrow> bgd_rollbackRemoveGreenHaproxyConfig
      | rollbackStoppingGreenApp \<Rightarrow> bgd_rollbackStoppingGreenApp
      | rollbackRemovingGreenApp \<Rightarrow> bgd_rollbackRemovingGreenApp
      | rollbackComplete \<Rightarrow> bgd_rollbackComplete
      | completed \<Rightarrow> bgd_completed
      | failed \<Rightarrow> bgd_failed)"

definition bgd_run ::
  "int \<Rightarrow> bgd_ctx option \<Rightarrow> (int \<times> signal) list \<Rightarrow> (bg_state \<times> bgd_ctx) \<times> bgd_call list" where
  "bgd_run now input ins = sc_run bgd_states (idle, bgd_context now input) ins"

section \<open>Lemmas\<close>

lemmas bgd_nodes =
  bgd_idle_def bgd_deployingGreenApp_def bgd_waitingGreenReady_def bgd_initializingGreenLB_def
  bgd_healthCheckWait_def bgd_configuringFrontend_def bgd_openingTraffic_def bgd_drainingBlue_def
  bgd_waitingForDrain_def bgd_decommissioningBlueLB_def bgd_stoppingBlueApp_def
  bgd_removingBlueApp_def bgd_rollbackDisableGreenTraffic_def
  bgd_rollbackRemoveGreenHaproxyConfig_def bgd_rollbackStoppingGreenApp_def
  bgd_rollbackRemovingGreenApp_def bgd_rollbackComplete_def bgd_completed_def bgd_failed_def

lemmas bgd_calls =
  bgd_deployGreenApplicationContainers_def bgd_monitorGreenContainerStartup_def
  bgd_initializeGreenLB_def bgd_performGreenHealthChecks_def bgd_configureGreenFrontend_def
  bgd_openTrafficToGreen_def bgd_initiateBlueDrain_def bgd_monitorBlueDrain_def
  bgd_removeBlueFromLB_def bgd_stopBlueApplication_def bgd_removeBlueApplication_def
  bgd_disableGreenTraffic_def bgd_removeGreenHAProxyConfig_def bgd_stopGreenApplication_def
  bgd_removeGreenApplication_def bgd_logDeploymentSuccess_def bgd_alertOperationsTeam_def
  bgd_cleanupTempResources_def bgd_startCleanup_def

lemmas bgd_assigns =
  bgd_setDrainStartTime_def bgd_markDrainFailureNonCritical_def bgd_preserveErrorContext_def

lemma bgd_always [simp]: "always (bgd_states s) = None"
  by (cases s) (simp_all add: bgd_states_def bgd_nodes)

lemma bgd_final [simp]:
  "is_final (bgd_states s) \<longleftrightarrow> s = completed \<or> s = rollbackComplete \<or> s = failed"
  by (cases s) (simp_all add: bgd_states_def bgd_nodes)

text \<open>A step is a handled signal followed by the entry of the target.\<close>

lemma bgd_stepE:
  assumes "sc_step bgd_states now sig (s, c) = Some ((t, d), ks)"
  obtains c1 where "taken (bgd_states s) sig c = Some (t, c1)"
    and "entry (bgd_states t) now c1 = (d, ks)"
  using assms
  by (auto simp: sc_step_def enter_def Let_def split: option.splits prod.splits)

section \<open>The invariant of every run\<close>

definition bgd_inv :: "string option \<Rightarrow> bg_state \<times> bgd_ctx \<Rightarrow> bool" where
  "bgd_inv blue cfg =
     (let s = fst cfg; c = snd cfg in
      oldContainerId c = blue \<and>
      trafficOpenedToGreen c = bg_cut_over s \<and>
      (bg_cut_over s \<longrightarrow> trafficValidated c \<and> greenHealthy c \<and> greenBackendConfigured c) \<and>
      (s \<in> {initializingGreenLB, healthCheckWait, configuringFrontend, openingTraffic} \<longrightarrow>
         greenHealthy c) \<and>
      (s \<in> {healthCheckWait, configuringFrontend, openingTraffic} \<longrightarrow> greenBackendConfigured c) \<and>
      (\<not> bg_cut_over s \<and> \<not> bg_rolling_back s \<longrightarrow> error c = None) \<and>
      (bg_cut_over s \<longrightarrow> set_option (error c) \<subseteq> bg_non_critical))"

lemmas bgd_step_unfold =
  sc_step_def taken_def enter_def bgd_states_def bgd_nodes bgd_assigns

lemma bgd_step_inv:
  assumes "bgd_inv blue (s, c)" and "sc_step bgd_states now sig (s, c) = Some ((t, d), ks)"
  shows "bgd_inv blue (t, d)"
  using assms
  by (cases s; cases sig; clarsimp simp: bgd_step_unfold bgd_inv_def Let_def split: if_splits)

lemma bgd_inv_start: "bgd_inv (Option.bind input oldContainerId) (idle, bgd_context now input)"
  by (simp add: bgd_inv_def bgd_context_def Let_def)

text \<open>Neither the cutover nor a rollback is ever undone.\<close>

lemma bgd_step_phase:
  assumes "sc_step bgd_states now sig (s, c) = Some ((t, d), ks)"
  shows "(bg_cut_over s \<longrightarrow> bg_cut_over t) \<and> (bg_rolling_back s \<longrightarrow> bg_rolling_back t)"
  using assms
  by (cases s; cases sig)
     (auto simp: bgd_step_unfold split: if_splits)

text \<open>The calls of an entry: which container they are made on.\<close>

lemma bgd_entry_calls:
  assumes "entry (bgd_states t) now c = (d, ks)" and "k \<in> set ks" and "destructive (call_op k)"
  shows "trafficOpenedToGreen (call_ctx k) = trafficOpenedToGreen d"
    and "oldContainerId (call_ctx k) = oldContainerId d"
    and "bg_cut_over t \<or> bg_rolling_back t"
    and "call_containerId k =
           (if bg_cut_over t then oldContainerId (call_ctx k) else newContainerId (call_ctx k))"
  using assms
  by (cases t; auto simp: bgd_states_def bgd_nodes bgd_calls bgd_assigns destructive_def
      )+

text \<open>
  Configurations with the calls made so far: a destructive call was made on green before the
  cutover or on blue behind it, and every one so far is on the side the run has ended up on.
\<close>

definition bgd_trace :: "string option \<Rightarrow> bg_state \<times> bgd_ctx \<Rightarrow> bgd_call list \<Rightarrow> bool" where
  "bgd_trace blue cfg ks \<longleftrightarrow> bgd_inv blue cfg \<and>
     (\<forall>k \<in> set ks. destructive (call_op k) \<longrightarrow>
        (bg_cut_over (fst cfg) \<or> bg_rolling_back (fst cfg)) \<and>
        trafficOpenedToGreen (call_ctx k) = bg_cut_over (fst cfg) \<and>
        call_containerId k =
          (if bg_cut_over (fst cfg) then blue else newContainerId (call_ctx k)))"

lemma bgd_step_trace:
  assumes tr: "bgd_trace blue (s, c) ks"
    and st: "sc_step bgd_states now sig (s, c) = Some ((t, d), ks')"
  shows "bgd_trace blue (t, d) (ks @ ks')"
proof -
  from tr have inv: "bgd_inv blue (s, c)" by (simp add: bgd_trace_def)
  have inv': "bgd_inv blue (t, d)" by (rule bgd_step_inv [OF inv st])
  note ph = bgd_step_phase [OF st]
  have old: "\<forall>k \<in> set ks. destructive (call_op k) \<longrightarrow>
      (bg_cut_over t \<or> bg_rolling_back t) \<and> trafficOpenedToGreen (call_ctx k) = bg_cut_over t \<and>
      call_containerId k = (if bg_cut_over t then blue else newContainerId (call_ctx k))"
    using tr ph bg_phases_disjoint [of s] bg_phases_disjoint [of t]
    by (auto simp: bgd_trace_def)
  from st obtain c1 where en: "entry (bgd_states t) now c1 = (d, ks')" by (rule bgd_stepE)
  have new: "\<forall>k \<in> set ks'. destructive (call_op k) \<longrightarrow>
      (bg_cut_over t \<or> bg_rolling_back t) \<and> trafficOpenedToGreen (call_ctx k) = bg_cut_over t \<and>
      call_containerId k = (if bg_cut_over t then blue else newContainerId (call_ctx k))"
    using bgd_entry_calls [OF en] inv' by (auto simp: bgd_inv_def Let_def)
  from old new inv' show ?thesis by (auto simp: bgd_trace_def)
qed

lemma bgd_run_trace:
  "bgd_trace (Option.bind input oldContainerId) (fst (bgd_run now input ins)) (snd (bgd_run now input ins))"
  unfolding bgd_run_def
  by (rule sc_run_invariant)
     (simp add: bgd_trace_def bgd_inv_start, metis bgd_step_trace surj_pair)

lemma bgd_run_inv:
  "bgd_run now input ins = ((s, c), ks) \<Longrightarrow> bgd_inv (Option.bind input oldContainerId) (s, c)"
  using bgd_run_trace [of input now ins] by (simp add: bgd_trace_def)

section \<open>Progress\<close>

definition bgd_rank :: "bg_state \<Rightarrow> nat" where
  "bgd_rank s =
     (case s of
        idle \<Rightarrow> 12 | deployingGreenApp \<Rightarrow> 11 | waitingGreenReady \<Rightarrow> 10
      | initializingGreenLB \<Rightarrow> 9 | healthCheckWait \<Rightarrow> 8 | configuringFrontend \<Rightarrow> 7
      | openingTraffic \<Rightarrow> 6 | drainingBlue \<Rightarrow> 5 | waitingForDrain \<Rightarrow> 4
      | decommissioningBlueLB \<Rightarrow> 3 | stoppingBlueApp \<Rightarrow> 2 | removingBlueApp \<Rightarrow> 1
      | rollbackDisableGreenTraffic \<Rightarrow> 4 | rollbackRemoveGreenHaproxyConfig \<Rightarrow> 3
      | rollbackStoppingGreenApp \<Rightarrow> 2 | rollbackRemovingGreenApp \<Rightarrow> 1
      | rollbackComplete \<Rightarrow> 0 | completed \<Rightarrow> 0 | failed \<Rightarrow> 0)"

text \<open>
  What is owed to a node: the runner's START_DEPLOYMENT to the idle one, otherwise an answer to
  a call its entry makes, or its timer.
\<close>

definition bgd_owed :: "bg_state \<Rightarrow> signal \<Rightarrow> bool" where
  "bgd_owed s sig =
     (if s = idle then sig = Ev (plain_event START_DEPLOYMENT) else owed_by bgd_states s sig)"

lemma bgd_step_rank:
  assumes "sc_step bgd_states now sig (s, c) = Some ((t, d), ks)"
  shows "bgd_rank t < bgd_rank s"
  using assms
  by (cases s; cases sig) (auto simp: bgd_step_unfold bgd_rank_def split: if_splits)

lemma bgd_owed_handled:
  assumes "\<not> is_final (bgd_states s)" and "bgd_owed s sig"
  shows "sc_step bgd_states now sig (s, c) \<noteq> None"
  using assms
  by (cases s; cases sig)
     (auto simp: bgd_owed_def owed_by_def bgd_step_unfold bgd_calls answers_def op_emits_def
       split: if_splits)

interpretation bgd: deployment_machine bgd_states "\<lambda>_. True" bgd_rank bgd_owed
proof unfold_locales
  fix cfg cfg' :: "bg_state \<times> bgd_ctx" and now sig ks
  assume "sc_step bgd_states now sig cfg = Some (cfg', ks)"
  then show "bgd_rank (fst cfg') < bgd_rank (fst cfg)"
    by (metis bgd_step_rank surj_pair fst_conv)
next
  fix cfg :: "bg_state \<times> bgd_ctx"
  assume "bgd_rank (fst cfg) = 0"
  then show "is_final (bgd_states (fst cfg))"
    by (cases "fst cfg") (simp_all add: bgd_rank_def)
next
  fix cfg :: "bg_state \<times> bgd_ctx" and now sig
  assume "\<not> is_final (bgd_states (fst cfg))" and "bgd_owed (fst cfg) sig"
  then show "sc_step bgd_states now sig cfg \<noteq> None"
    by (metis bgd_owed_handled surj_pair fst_conv)
qed simp_all

section \<open>Properties\<close>

lemma bgd_step_green:
  assumes "sc_step bgd_states now sig (s, c) = Some ((t, d), ks)" and "bg_cut_over s"
  shows "newContainerId d = newContainerId c \<and> applicationName d = applicationName c"
  using assms
  by (cases s; cases sig) (auto simp: bgd_step_unfold split: if_splits)

lemma bgd_run_split:
  "bgd_run now input (xs @ ys) =
     (let (cfg, ks) = bgd_run now input xs; (cfg', ks') = sc_run bgd_states cfg ys
      in (cfg', ks @ ks'))"
  by (simp add: bgd_run_def sc_run_append)

text \<open>A concrete run up to the cutover, and one on to the end, for the witnesses.\<close>

definition bgd_events_to_cutover :: "(int \<times> signal) list" where
  "bgd_events_to_cutover =
     [(1, Ev (plain_event START_DEPLOYMENT)),
      (2, Ev ((plain_event DEPLOYMENT_SUCCESS)\<lparr>ev_containerId := Some ''green''\<rparr>)),
      (3, Ev ((plain_event CONTAINERS_RUNNING)\<lparr>ev_containerIpAddress := Some ''10.0.0.2''\<rparr>)),
      (4, Ev (plain_event LB_CONFIGURED)),
      (5, Ev (plain_event SERVERS_HEALTHY)),
      (6, Ev (plain_event FRONTEND_CONFIGURED)),
      (7, Ev (plain_event TRAFFIC_ENABLED))]"

definition bgd_events_teardown :: "(int \<times> signal) list" where
  "bgd_events_teardown =
     [(8, Ev (plain_event DRAIN_INITIATED)), (9, After),
      (10, Ev (error_event LB_REMOVAL_FAILED ''gone'')),
      (11, Ev (plain_event STOP_SUCCESS)),
      (12, Ev (plain_event REMOVAL_SUCCESS))]"

definition bgd_sample_input :: bgd_ctx where
  "bgd_sample_input =
     (bgd_context 0 None)\<lparr>applicationName := ''stk-shop-web'', oldContainerId := Some ''blue''\<rparr>"

text \<open>C2: Once TRAFFIC_ENABLED has been received, the blue-green deployment never rolls green
  back: however the run goes on, the machine stays on the nodes behind the cutover, keeps
  traffic open to the same green container, and ends nowhere but in completed.\<close>

theorem bgd_no_rollback_after_cutover:
  assumes xs: "fst (bgd_run now input xs) = (s, c)" and open_c: "trafficOpenedToGreen c"
    and ys: "fst (bgd_run now input (xs @ ys)) = (t, d)"
  shows "bg_cut_over t \<and> \<not> bg_rolling_back t \<and> trafficOpenedToGreen d \<and>
    newContainerId d = newContainerId c \<and> (is_final (bgd_states t) \<longrightarrow> t = completed)"
proof -
  let ?I = "\<lambda>cfg. bg_cut_over (fst cfg) \<and> newContainerId (snd cfg) = newContainerId c"
  have inv: "bgd_inv (Option.bind input oldContainerId) (s, c)"
    using bgd_run_inv [of now input xs s c "snd (bgd_run now input xs)"] xs
    by (metis prod.collapse)
  with open_c have start: "?I (s, c)" by (simp add: bgd_inv_def Let_def)
  have "?I (fst (sc_run bgd_states (s, c) ys))"
    by (rule sc_run_invariant_state, rule start)
       (metis bgd_step_phase bgd_step_green fst_conv snd_conv surj_pair)
  moreover have td: "fst (sc_run bgd_states (s, c) ys) = (t, d)"
    using xs ys by (simp add: bgd_run_split case_prod_beta)
  ultimately have *: "bg_cut_over t" "newContainerId d = newContainerId c" by simp_all
  have "bgd_inv (Option.bind input oldContainerId) (t, d)"
    using bgd_run_inv [of now input "xs @ ys" t d "snd (bgd_run now input (xs @ ys))"] ys
    by (metis prod.collapse)
  with * have "trafficOpenedToGreen d" by (simp add: bgd_inv_def Let_def)
  with * bg_phases_disjoint show ?thesis by auto
qed

lemma bgd_sample_cutover:
  "fst (fst (bgd_run 0 (Some bgd_sample_input) bgd_events_to_cutover)) = drainingBlue"
  "trafficOpenedToGreen (snd (fst (bgd_run 0 (Some bgd_sample_input) bgd_events_to_cutover)))"
  by code_simp+

lemma bgd_sample_end:
  "fst (fst (bgd_run 0 (Some bgd_sample_input) (bgd_events_to_cutover @ bgd_events_teardown))) =
   completed"
  by code_simp

theorem bgd_no_rollback_after_cutover_witness:
  "bg_cut_over
     (fst (fst (bgd_run 0 (Some bgd_sample_input) (bgd_events_to_cutover @ bgd_events_teardown))))"
  using bgd_no_rollback_after_cutover
    [OF surjective_pairing bgd_sample_cutover(2) surjective_pairing, of bgd_events_teardown]
  by blast


lemma bgd_sample_calls:
  "map (\<lambda>k. (call_op k, call_containerId k))
     (filter (\<lambda>k. destructive (call_op k))
       (snd (bgd_run 0 (Some bgd_sample_input) (bgd_events_to_cutover @ bgd_events_teardown)))) =
   [(RemoveContainerFromLB, Some ''blue''), (StopApplication, Some ''blue''),
    (RemoveApplication, Some ''blue'')]"
  by code_simp


text \<open>A deployment is reported completed only if green was healthy, registered with HAProxy
  and opened to traffic, and the error it may still report is one of the four about the
  superseded blue.\<close>

theorem bgd_completed_is_healthy:
  assumes "fst (bgd_run now input ins) = (completed, c)"
  shows "greenHealthy c \<and> greenBackendConfigured c \<and> trafficOpenedToGreen c \<and>
    trafficValidated c \<and> set_option (error c) \<subseteq> bg_non_critical"
proof -
  have "bgd_inv (Option.bind input oldContainerId) (completed, c)"
    using bgd_run_inv [of now input ins completed c "snd (bgd_run now input ins)"] assms
    by (metis prod.collapse)
  then show ?thesis by (simp add: bgd_inv_def Let_def)
qed

theorem bgd_completed_is_healthy_witness:
  "greenHealthy (snd (fst (bgd_run 0 (Some bgd_sample_input)
     (bgd_events_to_cutover @ bgd_events_teardown))))"
proof -
  let ?r = "fst (bgd_run 0 (Some bgd_sample_input) (bgd_events_to_cutover @ bgd_events_teardown))"
  have "?r = (completed, snd ?r)" using bgd_sample_end by (metis prod.collapse)
  from bgd_completed_is_healthy [OF this] show ?thesis by blast
qed

text \<open>C40: If the runner sends START_DEPLOYMENT and every node entered afterwards gets an answer
  its action may send, or its timer, then after twelve signals the machine is in a final node,
  so the runner's promise resolves; no answer is ever left unhandled.\<close>

theorem bgd_reaches_final:
  assumes "answered_by bgd_states bgd_owed (idle, bgd_context now input) ins"
    and "12 \<le> length ins"
  shows "is_final (bgd_states (fst (fst (bgd_run now input ins))))"
  unfolding bgd_run_def
  using bgd.answered_reaches_final [OF _ assms(1)] assms(2) by (simp add: bgd_rank_def)

lemma bgd_owedI:
  assumes "s \<noteq> idle" and "k \<in> set (snd (entry (bgd_states s) now c))"
    and "op_emits (call_op k) r" and "e = forward k r"
  shows "bgd_owed s (Ev e)"
  using assms by (auto simp: bgd_owed_def owed_by_def answers_def)

definition bgd_events_failing :: "(int \<times> signal) list" where
  "bgd_events_failing =
     (1, Ev (plain_event START_DEPLOYMENT)) #
     (2, Ev (error_event DEPLOYMENT_ERROR ''no such image'')) # replicate 10 (3, After)"

lemma bgd_deploying_owed: "bgd_owed deployingGreenApp (Ev (error_event DEPLOYMENT_ERROR m))"
  by (rule bgd_owedI [where now = 0 and c = "bgd_context 0 None" and
        k = "bgd_deployGreenApplicationContainers (bgd_context 0 None)" and
        r = "error_event DEPLOYMENT_ERROR m"])
     (simp_all add: bgd_states_def bgd_nodes bgd_calls op_emits_def)

lemma bgd_events_failing_answered:
  "answered_by bgd_states bgd_owed (idle, bgd_context 0 None) bgd_events_failing"
proof -
  have s1: "sc_send bgd_states (1, Ev (plain_event START_DEPLOYMENT)) (idle, bgd_context 0 None) =
      ((deployingGreenApp, bgd_context 0 None),
       [bgd_deployGreenApplicationContainers (bgd_context 0 None)])"
    by (simp add: sc_send_def bgd_step_unfold)
  have s2: "fst (fst (sc_send bgd_states (2, Ev (error_event DEPLOYMENT_ERROR ''no such image''))
      (deployingGreenApp, bgd_context 0 None))) = failed"
    by (simp add: sc_send_def bgd_step_unfold)
  have o1: "bgd_owed idle (Ev (plain_event START_DEPLOYMENT))"
    by (simp add: bgd_owed_def)
  show ?thesis
    using bgd_deploying_owed s2 o1
    by (simp add: bgd_events_failing_def s1 answered_by_final)
qed

theorem bgd_reaches_final_witness:
  "is_final (bgd_states (fst (fst (bgd_run 0 None bgd_events_failing))))"
  by (rule bgd_reaches_final [OF bgd_events_failing_answered]) (simp add: bgd_events_failing_def)

end
