(* ===== verification/BlueGreenUpdate.thy ===== *)
theory BlueGreenUpdate
  imports BlueGreenDeploy
begin

text \<open>
  The blue-green update machine of \<open>haproxy/blue-green-update-state-machine.ts\<close>: a redeploy of
  a service whose routing stays as it is. The source repeats the deployment machine without
  the frontend configuration and without disabling green's traffic in a rollback; so does this
  theory, and it ends with the refinement that relates the two. The two node names the machine
  does not have are mapped to an empty node, which nothing enters.
\<close>

type_synonym bgu_call = "bg_ctx call"
type_synonym bgu_node = "(bg_state, bg_ctx, bgu_call) state_node"

section \<open>The event union\<close>

definition bgu_event :: "hevent \<Rightarrow> bool" where
  "bgu_event e =
     (let t = evtype e in
      t = START_DEPLOYMENT \<or>
      t = DEPLOYMENT_SUCCESS \<and> ev_containerId e \<noteq> None \<or>
      t = CONTAINERS_RUNNING \<and> ev_containerIpAddress e \<noteq> None \<or>
      t \<in> {DEPLOYMENT_ERROR, LB_CONFIG_ERROR, TRAFFIC_ENABLE_FAILED,
           VALIDATION_FAILED, DRAIN_ISSUES, LB_REMOVAL_FAILED, BLUE_APP_STOP_ERROR, STOP_FAILED,
           BLUE_APP_REMOVAL_ERROR, REMOVAL_FAILED, ROLLBACK_ERROR, GREEN_LB_REMOVAL_ERROR} \<and>
        ev_error e \<noteq> None \<or>
      t \<in> {STARTUP_TIMEOUT, LB_CONFIGURED, SERVERS_HEALTHY, HEALTH_CHECK_TIMEOUT,
           TRAFFIC_ENABLED, TRAFFIC_VALIDATED,
           DRAIN_INITIATED, DRAIN_COMPLETE, DRAIN_TIMEOUT, LB_REMOVAL_SUCCESS, BLUE_APP_STOPPED,
           STOP_SUCCESS, BLUE_APP_REMOVED, REMOVAL_SUCCESS, ROLLBACK_BLUE_TRAFFIC_RESTORED,
           ROLLBACK_GREEN_CONFIG_REMOVED,
           ROLLBACK_GREEN_APP_STOPPED, ROLLBACK_GREEN_APP_REMOVED, ROLLBACK_COMPLETE,
           DEPLOYMENT_COMPLETE, RESET, MANUAL_INTERVENTION_COMPLETE})"

section \<open>The named actions\<close>

definition bgu_deployGreenApplicationContainers :: "bg_ctx \<Rightarrow> bgu_call" where
  "bgu_deployGreenApplicationContainers c = plain_call DeployApplicationContainers c None"

definition bgu_monitorGreenContainerStartup :: "bg_ctx \<Rightarrow> bgu_call" where
  "bgu_monitorGreenContainerStartup c = plain_call MonitorContainerStartup c None"

definition bgu_initializeGreenLB :: "bg_ctx \<Rightarrow> bgu_call" where
  "bgu_initializeGreenLB c = plain_call AddContainerToLB c (newContainerId c)"

definition bgu_performGreenHealthChecks :: "bg_ctx \<Rightarrow> bgu_call" where
  "bgu_performGreenHealthChecks c = plain_call PerformHealthChecks c (newContainerId c)"

definition bgu_openTrafficToGreen :: "bg_ctx \<Rightarrow> bgu_call" where
  "bgu_openTrafficToGreen c = plain_call EnableTraffic c (newContainerId c)"

definition bgu_initiateBlueDrain :: "bg_ctx \<Rightarrow> bgu_call" where
  "bgu_initiateBlueDrain c = plain_call InitiateDrain c (newContainerId c)"

definition bgu_setDrainStartTime :: "int \<Rightarrow> bg_ctx \<Rightarrow> bg_ctx" where
  "bgu_setDrainStartTime now c = c\<lparr>drainStartTime := Some now\<rparr>"

definition bgu_monitorBlueDrain :: "bg_ctx \<Rightarrow> bgu_call" where
  "bgu_monitorBlueDrain c = plain_call MonitorDrain c None"

definition bgu_markDrainFailureNonCritical :: "bg_ctx \<Rightarrow> bg_ctx" where
  "bgu_markDrainFailureNonCritical c = c\<lparr>error :=
     Some ''Blue connection drain did not complete cleanly (Non-Critical) - green is live''\<rparr>"

definition bgu_removeBlueFromLB :: "bg_ctx \<Rightarrow> bgu_call" where
  "bgu_removeBlueFromLB c =
     (plain_call RemoveContainerFromLB c (oldContainerId c))
       \<lparr>rejected := (\<lambda>m. Some (error_event LB_REMOVAL_FAILED (caught m)))\<rparr>"

definition bgu_stopBlueApplication :: "bg_ctx \<Rightarrow> bgu_call" where
  "bgu_stopBlueApplication c =
     (plain_call StopApplication c (oldContainerId c))
       \<lparr>rejected := (\<lambda>m. Some (error_event BLUE_APP_STOP_ERROR (caught m)))\<rparr>"

definition bgu_removeBlueApplication :: "bg_ctx \<Rightarrow> bgu_call" where
  "bgu_removeBlueApplication c =
     (plain_call RemoveApplication c (oldContainerId c))
       \<lparr>rejected := (\<lambda>m. Some (error_event BLUE_APP_REMOVAL_ERROR (caught m)))\<rparr>"

definition bgu_removeGreenHAProxyConfig :: "bg_ctx \<Rightarrow> bgu_call" where
  "bgu_removeGreenHAProxyConfig c =
     (plain_call RemoveContainerFromLB c (newContainerId c))
       \<lparr>forward := (\<lambda>e.
           if evtype e = LB_REMOVAL_SUCCESS then plain_event ROLLBACK_GREEN_CONFIG_REMOVED
           else if evtype e = LB_REMOVAL_FAILED
           then (plain_event ROLLBACK_ERROR)\<lparr>ev_error := ev_error e\<rparr>
           else e),
        rejected := (\<lambda>m. Some (error_event ROLLBACK_ERROR (caught m)))\<rparr>"

definition bgu_stopGreenApplication :: "bg_ctx \<Rightarrow> bgu_call" where
  "bgu_stopGreenApplication c =
     (plain_call StopApplication c (newContainerId c))
       \<lparr>forward := (\<lambda>e.
           if evtype e = STOP_SUCCESS then plain_event ROLLBACK_GREEN_APP_STOPPED
           else if evtype e = STOP_FAILED
           then (plain_event ROLLBACK_ERROR)\<lparr>ev_error := ev_error e\<rparr>
           else e),
        rejected := (\<lambda>m. Some (error_event ROLLBACK_ERROR (caught m)))\<rparr>"

definition bgu_removeGreenApplication :: "bg_ctx \<Rightarrow> bgu_call" where
  "bgu_removeGreenApplication c =
     (plain_call RemoveApplication c (newContainerId c))
       \<lparr>forward := (\<lambda>e.
           if evtype e = REMOVAL_SUCCESS then plain_event ROLLBACK_GREEN_APP_REMOVED
           else if evtype e = REMOVAL_FAILED
           then (plain_event ROLLBACK_ERROR)\<lparr>ev_error := ev_error e\<rparr>
           else e),
        rejected := (\<lambda>m. Some (error_event ROLLBACK_ERROR (caught m)))\<rparr>"

definition bgu_startExtendedMonitoring :: "int \<Rightarrow> bg_ctx \<Rightarrow> bg_ctx" where
  "bgu_startExtendedMonitoring now c = c\<lparr>monitoringStartTime := Some now\<rparr>"

definition bgu_logDeploymentSuccess :: "bg_ctx \<Rightarrow> bgu_call" where
  "bgu_logDeploymentSuccess c = plain_call LogDeploymentSuccess c None"

definition bgu_alertOperationsTeam :: "bg_ctx \<Rightarrow> bgu_call" where
  "bgu_alertOperationsTeam c = plain_call AlertOperationsTeam c None"

definition bgu_cleanupTempResources :: "bg_ctx \<Rightarrow> bgu_call" where
  "bgu_cleanupTempResources c = plain_call CleanupTempResources c None"

text \<open>
  The best-effort cleanup of a failed deployment, as the calls it gets to make in a given
  \<open>cleanup_world\<close>: no failing step stops the ones after its \<open>try\<close> block, but a rejected stop
  skips the removal that follows it.
\<close>

definition bgu_cleanupFailedDeployment :: "cleanup_world \<Rightarrow> bg_ctx \<Rightarrow> bgu_call list" where
  "bgu_cleanupFailedDeployment w c =
     (if truthy (newContainerId c) then
        [plain_call RemoveContainerFromLB c (newContainerId c)] @
        [plain_call StopApplication c (newContainerId c)] @
        (if cw_stop w then [plain_call RemoveApplication c (newContainerId c)] else [])
      else [])"

definition bgu_startCleanup :: "bg_ctx \<Rightarrow> bgu_call" where
  "bgu_startCleanup c = plain_call CleanupFailedDeployment c (newContainerId c)"

definition bgu_preserveErrorContext :: "hevent \<Rightarrow> bg_ctx \<Rightarrow> bg_ctx" where
  "bgu_preserveErrorContext e c = c\<lparr>error := ev_error e\<rparr>"

definition bgu_incrementRetryCount :: "bg_ctx \<Rightarrow> bg_ctx" where
  "bgu_incrementRetryCount c = c\<lparr>retryCount := retryCount c + 1\<rparr>"

definition bgu_resetState :: "bg_ctx \<Rightarrow> bg_ctx" where
  "bgu_resetState c = c\<lparr>
     blueHealthy := False, greenHealthy := False, greenBackendConfigured := False,
     trafficOpenedToGreen := False, trafficValidated := False,
     blueDraining := False, blueDrained := False, validationErrors := 0,
     drainStartTime := None, monitoringStartTime := None, error := None, retryCount := 0,
     activeConnections := 0, newContainerId := None, containerIpAddress := None,
     containerPort := None\<rparr>"

section \<open>Guards\<close>

definition bgu_greenContainersRunning :: "bg_ctx \<Rightarrow> bool" where
  "bgu_greenContainersRunning c = greenHealthy c"

definition bgu_greenServersHealthy :: "bg_ctx \<Rightarrow> bool" where
  "bgu_greenServersHealthy c = (greenHealthy c \<and> greenBackendConfigured c)"

definition bgu_trafficValidationPassed :: "bg_ctx \<Rightarrow> bool" where
  "bgu_trafficValidationPassed c = (trafficValidated c \<and> validationErrors c = 0)"

definition bgu_blueConnectionsDrained :: "bg_ctx \<Rightarrow> bool" where
  "bgu_blueConnectionsDrained c = (activeConnections c = 0)"

definition bgu_drainTimeoutExceeded :: "int \<Rightarrow> bg_ctx \<Rightarrow> bool" where
  "bgu_drainTimeoutExceeded now c =
     (case drainStartTime c of
        None \<Rightarrow> False | Some t \<Rightarrow> if t = 0 then False else now - t \<ge> 120000)"

definition bgu_monitoringPeriodComplete :: "int \<Rightarrow> bg_ctx \<Rightarrow> bool" where
  "bgu_monitoringPeriodComplete now c =
     (case monitoringStartTime c of
        None \<Rightarrow> False | Some t \<Rightarrow> if t = 0 then False else now - t \<ge> 300000)"

definition bgu_canRetry :: "bg_ctx \<Rightarrow> bool" where
  "bgu_canRetry c = (retryCount c < 3)"

section \<open>The initial context\<close>

text \<open>
  Identifiers come from the input or default to the empty string; the deployment flags always
  start false, whatever the input holds.
\<close>

definition bgu_context :: "int \<Rightarrow> bg_ctx option \<Rightarrow> bg_ctx" where
  "bgu_context now input =
     \<lparr>deploymentId = or_str (map_option deploymentId input) [],
      configurationId = or_str (map_option configurationId input) [],
      applicationName = or_str (map_option applicationName input) [],
      environmentId = or_str (map_option environmentId input) [],
      environmentName = or_str (map_option environmentName input) [],
      haproxyContainerId = or_str (map_option haproxyContainerId input) [],
      haproxyNetworkName = or_str (map_option haproxyNetworkName input) [],
      error = None,
      retryCount = 0,
      triggerType = or_str (map_option triggerType input) ''manual'',
      triggeredBy = Option.bind input triggeredBy,
      startTime = or_num (map_option startTime input) now,
      config = Option.bind input config,
      dockerImage = or_str (map_option dockerImage input) [],
      userEventId = Option.bind input userEventId,
      containerName = Option.bind input containerName,
      containerIpAddress = Option.bind input containerIpAddress,
      containerPort = Option.bind input containerPort,
      validationErrors = 0,
      hostname = Option.bind input hostname,
      enableSsl = Option.bind input enableSsl,
      tlsCertificateId = Option.bind input tlsCertificateId,
      certificateStatus = Option.bind input certificateStatus,
      networkType = Option.bind input networkType,
      healthCheckEndpoint = Option.bind input healthCheckEndpoint,
      healthCheckInterval = Option.bind input healthCheckInterval,
      healthCheckRetries = Option.bind input healthCheckRetries,
      healthCheckTimeoutMs = Option.bind input healthCheckTimeoutMs,
      containerPorts = Option.bind input containerPorts,
      containerVolumes = Option.bind input containerVolumes,
      containerEnvironment = Option.bind input containerEnvironment,
      containerLabels = Option.bind input containerLabels,
      containerNetworks = Option.bind input containerNetworks,
      blueHealthy = False,
      greenHealthy = False,
      greenBackendConfigured = False,
      trafficOpenedToGreen = False,
      trafficValidated = False,
      blueDraining = False,
      blueDrained = False,
      drainStartTime = None,
      monitoringStartTime = None,
      activeConnections = 0,
      oldContainerId = Option.bind input oldContainerId,
      newContainerId = Option.bind input newContainerId\<rparr>"

section \<open>The states\<close>

definition bgu_idle :: bgu_node where
  "bgu_idle = node\<lparr>on := (\<lambda>e c.
     if evtype e = START_DEPLOYMENT then Some (deployingGreenApp, c) else None)\<rparr>"

definition bgu_deployingGreenApp :: bgu_node where
  "bgu_deployingGreenApp = node\<lparr>
     entry := (\<lambda>now c. (c, [bgu_deployGreenApplicationContainers c])),
     on := (\<lambda>e c.
       if evtype e = DEPLOYMENT_SUCCESS
       then Some (waitingGreenReady,
              c\<lparr>newContainerId := ev_containerId e, containerName := ev_containerName e\<rparr>)
       else if evtype e = DEPLOYMENT_ERROR
       then Some (failed, bgu_preserveErrorContext e c)
       else None)\<rparr>"

definition bgu_waitingGreenReady :: bgu_node where
  "bgu_waitingGreenReady = node\<lparr>
     entry := (\<lambda>now c. (c, [bgu_monitorGreenContainerStartup c])),
     on := (\<lambda>e c.
       if evtype e = CONTAINERS_RUNNING
       then Some (initializingGreenLB,
              c\<lparr>greenHealthy := True, containerIpAddress := ev_containerIpAddress e,
                containerPort := ev_containerPort e, containerName := ev_containerName e\<rparr>)
       else if evtype e = STARTUP_TIMEOUT
       then Some (rollbackRemovingGreenApp, c\<lparr>error := Some ''Green container startup timeout''\<rparr>)
       else None),
     after := Some (\<lambda>_. 120000, \<lambda>c.
       (rollbackRemovingGreenApp, c\<lparr>error := Some ''Green application startup timeout''\<rparr>))\<rparr>"

definition bgu_initializingGreenLB :: bgu_node where
  "bgu_initializingGreenLB = node\<lparr>
     entry := (\<lambda>now c. (c, [bgu_initializeGreenLB c])),
     on := (\<lambda>e c.
       if evtype e = LB_CONFIGURED
       then Some (healthCheckWait, c\<lparr>greenBackendConfigured := True\<rparr>)
       else if evtype e = LB_CONFIG_ERROR
       then Some (rollbackStoppingGreenApp, bgu_preserveErrorContext e c)
       else None)\<rparr>"

definition bgu_healthCheckWait :: bgu_node where
  "bgu_healthCheckWait = node\<lparr>
     entry := (\<lambda>now c. (c, [bgu_performGreenHealthChecks c])),
     on := (\<lambda>e c.
       if evtype e = SERVERS_HEALTHY
       then Some (openingTraffic, c\<lparr>greenHealthy := True\<rparr>)
       else if evtype e = HEALTH_CHECK_TIMEOUT
       then Some (rollbackRemoveGreenHaproxyConfig, c\<lparr>error := Some ''Green health check timeout''\<rparr>)
       else None),
     after := Some (healthCheckTimeout, \<lambda>c.
       (rollbackRemoveGreenHaproxyConfig, c\<lparr>error := Some (healthCheckTimeoutMessage c)\<rparr>))\<rparr>"

definition bgu_openingTraffic :: bgu_node where
  "bgu_openingTraffic = node\<lparr>
     entry := (\<lambda>now c. (c, [bgu_openTrafficToGreen c])),
     on := (\<lambda>e c.
       if evtype e = TRAFFIC_ENABLED
       then Some (drainingBlue, c\<lparr>trafficOpenedToGreen := True, trafficValidated := True\<rparr>)
       else if evtype e = TRAFFIC_ENABLE_FAILED
       then Some (rollbackRemoveGreenHaproxyConfig, bgu_preserveErrorContext e c)
       else None)\<rparr>"

definition bgu_drainingBlue :: bgu_node where
  "bgu_drainingBlue = node\<lparr>
     entry := (\<lambda>now c. (bgu_setDrainStartTime now c, [bgu_initiateBlueDrain c])),
     on := (\<lambda>e c.
       if evtype e = DRAIN_INITIATED
       then Some (waitingForDrain, c\<lparr>blueDraining := True\<rparr>)
       else if evtype e = DRAIN_ISSUES
       then Some (decommissioningBlueLB, bgu_markDrainFailureNonCritical c)
       else None)\<rparr>"

definition bgu_waitingForDrain :: bgu_node where
  "bgu_waitingForDrain = node\<lparr>
     entry := (\<lambda>now c. (c, [bgu_monitorBlueDrain c])),
     on := (\<lambda>e c.
       if evtype e = DRAIN_COMPLETE
       then Some (decommissioningBlueLB, c\<lparr>blueDrained := True, activeConnections := 0\<rparr>)
       else if evtype e = DRAIN_TIMEOUT
       then Some (decommissioningBlueLB, bgu_markDrainFailureNonCritical c)
       else if evtype e = DRAIN_ISSUES
       then Some (decommissioningBlueLB, bgu_markDrainFailureNonCritical c)
       else None),
     after := Some (\<lambda>_. 120000, \<lambda>c.
       (decommissioningBlueLB, bgu_markDrainFailureNonCritical c))\<rparr>"

definition bgu_decommissioningBlueLB :: bgu_node where
  "bgu_decommissioningBlueLB = node\<lparr>
     entry := (\<lambda>now c. (c, [bgu_removeBlueFromLB c])),
     on := (\<lambda>e c.
       if evtype e = LB_REMOVAL_SUCCESS then Some (stoppingBlueApp, c)
       else if evtype e = LB_REMOVAL_FAILED
       then Some (stoppingBlueApp,
              c\<lparr>error := Some ''Unable to remove blue backend (Non-Critical)''\<rparr>)
       else None)\<rparr>"

definition bgu_stoppingBlueApp :: bgu_node where
  "bgu_stoppingBlueApp = node\<lparr>
     entry := (\<lambda>now c. (c, [bgu_stopBlueApplication c])),
     on := (\<lambda>e c.
       if evtype e = STOP_SUCCESS then Some (removingBlueApp, c)
       else if evtype e = BLUE_APP_STOP_ERROR
       then Some (removingBlueApp, c\<lparr>error := Some ''Blue app stop failed (Non-Critical)''\<rparr>)
       else if evtype e = STOP_FAILED
       then Some (removingBlueApp, c\<lparr>error := Some ''Blue app stop failed (Non-Critical)''\<rparr>)
       else None)\<rparr>"

definition bgu_removingBlueApp :: bgu_node where
  "bgu_removingBlueApp = node\<lparr>
     entry := (\<lambda>now c. (c, [bgu_removeBlueApplication c])),
     on := (\<lambda>e c.
       if evtype e = REMOVAL_SUCCESS then Some (completed, c)
       else if evtype e = BLUE_APP_REMOVAL_ERROR
       then Some (completed, c\<lparr>error := Some ''Blue app removal failed (Non-Critical)''\<rparr>)
       else if evtype e = REMOVAL_FAILED
       then Some (completed, c\<lparr>error := Some ''Blue app removal failed (Non-Critical)''\<rparr>)
       else None)\<rparr>"

definition bgu_rollbackRemoveGreenHaproxyConfig :: bgu_node where
  "bgu_rollbackRemoveGreenHaproxyConfig = node\<lparr>
     entry := (\<lambda>now c. (c, [bgu_removeGreenHAProxyConfig c])),
     on := (\<lambda>e c.
       if evtype e = ROLLBACK_GREEN_CONFIG_REMOVED then Some (rollbackStoppingGreenApp, c)
       else if evtype e = ROLLBACK_ERROR
       then Some (failed, c\<lparr>error := Some ''Cannot rollback green config''\<rparr>)
       else None)\<rparr>"

definition bgu_rollbackStoppingGreenApp :: bgu_node where
  "bgu_rollbackStoppingGreenApp = node\<lparr>
     entry := (\<lambda>now c. (c, [bgu_stopGreenApplication c])),
     on := (\<lambda>e c.
       if evtype e = ROLLBACK_GREEN_APP_STOPPED then Some (rollbackRemovingGreenApp, c)
       else if evtype e = ROLLBACK_ERROR
       then Some (rollbackRemovingGreenApp,
              c\<lparr>error := Some ''Green app stop failed - continuing cleanup''\<rparr>)
       else None)\<rparr>"

definition bgu_rollbackRemovingGreenApp :: bgu_node where
  "bgu_rollbackRemovingGreenApp = node\<lparr>
     entry := (\<lambda>now c. (c, [bgu_removeGreenApplication c])),
     on := (\<lambda>e c.
       if evtype e = ROLLBACK_GREEN_APP_REMOVED then Some (rollbackComplete, c)
       else if evtype e = ROLLBACK_ERROR
       then Some (rollbackComplete,
              c\<lparr>error := Some ''Green app removal had errors - rollback completed with warnings''\<rparr>)
       else None)\<rparr>"

definition bgu_rollbackComplete :: bgu_node where
  "bgu_rollbackComplete = node\<lparr>is_final := True,
     entry := (\<lambda>now c. (c, [bgu_alertOperationsTeam c, bgu_cleanupTempResources c]))\<rparr>"

definition bgu_completed :: bgu_node where
  "bgu_completed = node\<lparr>is_final := True,
     entry := (\<lambda>now c. (c, [bgu_logDeploymentSuccess c, bgu_cleanupTempResources c])),
     on := (\<lambda>e c. if evtype e = RESET then Some (idle, bgu_resetState c) else None)\<rparr>"

definition bgu_failed :: bgu_node where
  "bgu_failed = node\<lparr>is_final := True,
     entry := (\<lambda>now c. (c, [bgu_alertOperationsTeam c, bgu_startCleanup c]))\<rparr>"

definition bgu_states :: "bg_state \<Rightarrow> bgu_node" where
  "bgu_states s =
     (case s of
        idle \<Rightarrow> bgu_idle
      | deployingGreenApp \<Rightarrow> bgu_deployingGreenApp
      | waitingGreenReady \<Rightarrow> bgu_waitingGreenReady
      | initializingGreenLB \<Rightarrow> bgu_initializingGreenLB
      | healthCheckWait \<Rightarrow> bgu_healthCheckWait
      | configuringFrontend \<Rightarrow> node
      | openingTraffic \<Rightarrow> bgu_openingTraffic
      | drainingBlue \<Rightarrow> bgu_drainingBlue
      | waitingForDrain \<Rightarrow> bgu_waitingForDrain
      | decommissioningBlueLB \<Rightarrow> bgu_decommissioningBlueLB
      | stoppingBlueApp \<Rightarrow> bgu_stoppingBlueApp
      | removingBlueApp \<Rightarrow> bgu_removingBlueApp
      | rollbackDisableGreenTraffic \<Rightarrow> node
      | rollbackRemoveGreenHaproxyConfig \<Rightarrow> bgu_rollbackRemoveGreenHaproxyConfig
      | rollbackStoppingGreenApp \<Rightarrow> bgu_rollbackStoppingGreenApp
      | rollbackRemovingGreenApp \<Rightarrow> bgu_rollbackRemovingGreenApp
      | rollbackComplete \<Rightarrow> bgu_rollbackComplete
      | completed \<Rightarrow> bgu_completed
      | failed \<Rightarrow> bgu_failed)"

definition bgu_run ::
  "int \<Rightarrow> bg_ctx option \<Rightarrow> (int \<times> signal) list \<Rightarrow> (bg_state \<times> bg_ctx) \<times> bgu_call list" where
  "bgu_run now input ins = sc_run bgu_states (idle, bgu_context now input) ins"

section \<open>Lemmas\<close>

lemmas bgu_nodes =
  bgu_idle_def bgu_deployingGreenApp_def bgu_waitingGreenReady_def bgu_initializingGreenLB_def
  bgu_healthCheckWait_def bgu_openingTraffic_def bgu_drainingBlue_def
  bgu_waitingForDrain_def bgu_decommissioningBlueLB_def bgu_stoppingBlueApp_def
  bgu_removingBlueApp_def 
  bgu_rollbackRemoveGreenHaproxyConfig_def bgu_rollbackStoppingGreenApp_def
  bgu_rollbackRemovingGreenApp_def bgu_rollbackComplete_def bgu_completed_def bgu_failed_def

lemmas bgu_calls =
  bgu_deployGreenApplicationContainers_def bgu_monitorGreenContainerStartup_def
  bgu_initializeGreenLB_def bgu_performGreenHealthChecks_def 
  bgu_openTrafficToGreen_def bgu_initiateBlueDrain_def bgu_monitorBlueDrain_def
  bgu_removeBlueFromLB_def bgu_stopBlueApplication_def bgu_removeBlueApplication_def
  bgu_removeGreenHAProxyConfig_def bgu_stopGreenApplication_def
  bgu_removeGreenApplication_def bgu_logDeploymentSuccess_def bgu_alertOperationsTeam_def
  bgu_cleanupTempResources_def bgu_startCleanup_def

lemmas bgu_assigns =
  bgu_setDrainStartTime_def bgu_markDrainFailureNonCritical_def bgu_preserveErrorContext_def

lemma bgu_always [simp]: "always (bgu_states s) = None"
  by (cases s) (simp_all add: bgu_states_def bgu_nodes)

lemma bgu_final [simp]:
  "is_final (bgu_states s) \<longleftrightarrow> s = completed \<or> s = rollbackComplete \<or> s = failed"
  by (cases s) (simp_all add: bgu_states_def bgu_nodes)

text \<open>A step is a handled signal followed by the entry of the target.\<close>

lemma bgu_stepE:
  assumes "sc_step bgu_states now sig (s, c) = Some ((t, d), ks)"
  obtains c1 where "taken (bgu_states s) sig c = Some (t, c1)"
    and "entry (bgu_states t) now c1 = (d, ks)"
  using assms
  by (auto simp: sc_step_def enter_def Let_def split: option.splits prod.splits)

section \<open>The invariant of every run\<close>

definition bgu_inv :: "string option \<Rightarrow> bg_state \<times> bg_ctx \<Rightarrow> bool" where
  "bgu_inv blue cfg =
     (let s = fst cfg; c = snd cfg in
      oldContainerId c = blue \<and>
      trafficOpenedToGreen c = bg_cut_over s \<and>
      (bg_cut_over s \<longrightarrow> trafficValidated c \<and> greenHealthy c \<and> greenBackendConfigured c) \<and>
      (s \<in> {initializingGreenLB, healthCheckWait, openingTraffic} \<longrightarrow>
         greenHealthy c) \<and>
      (s \<in> {healthCheckWait, openingTraffic} \<longrightarrow> greenBackendConfigured c) \<and>
      (\<not> bg_cut_over s \<and> \<not> bg_rolling_back s \<longrightarrow> error c = None) \<and>
      (bg_cut_over s \<longrightarrow> set_option (error c) \<subseteq> bg_non_critical))"

lemmas bgu_step_unfold =
  sc_step_def taken_def enter_def bgu_states_def bgu_nodes bgu_assigns

lemma bgu_step_inv:
  assumes "bgu_inv blue (s, c)" and "sc_step bgu_states now sig (s, c) = Some ((t, d), ks)"
  shows "bgu_inv blue (t, d)"
  using assms
  by (cases s; cases sig; clarsimp simp: bgu_step_unfold bgu_inv_def Let_def split: if_splits)

lemma bgu_inv_start: "bgu_inv (Option.bind input oldContainerId) (idle, bgu_context now input)"
  by (simp add: bgu_inv_def bgu_context_def Let_def)

text \<open>Neither the cutover nor a rollback is ever undone.\<close>

lemma bgu_step_phase:
  assumes "sc_step bgu_states now sig (s, c) = Some ((t, d), ks)"
  shows "(bg_cut_over s \<longrightarrow> bg_cut_over t) \<and> (bg_rolling_back s \<longrightarrow> bg_rolling_back t)"
  using assms
  by (cases s; cases sig)
     (auto simp: bgu_step_unfold split: if_splits)

text \<open>The calls of an entry: which container they are made on.\<close>

lemma bgu_entry_calls:
  assumes "entry (bgu_states t) now c = (d, ks)" and "k \<in> set ks" and "destructive (call_op k)"
  shows "trafficOpenedToGreen (call_ctx k) = trafficOpenedToGreen d"
    and "oldContainerId (call_ctx k) = oldContainerId d"
    and "bg_cut_over t \<or> bg_rolling_back t"
    and "call_containerId k =
           (if bg_cut_over t then oldContainerId (call_ctx k) else newContainerId (call_ctx k))"
  using assms
  by (cases t; auto simp: bgu_states_def bgu_nodes bgu_calls bgu_assigns destructive_def
      )+

text \<open>
  Configurations with the calls made so far: a destructive call was made on green before the
  cutover or on blue behind it, and every one so far is on the side the run has ended up on.
\<close>

definition bgu_trace :: "string option \<Rightarrow> bg_state \<times> bg_ctx \<Rightarrow> bgu_call list \<Rightarrow> bool" where
  "bgu_trace blue cfg ks \<longleftrightarrow> bgu_inv blue cfg \<and>
     (\<forall>k \<in> set ks. destructive (call_op k) \<longrightarrow>
        (bg_cut_over (fst cfg) \<or> bg_rolling_back (fst cfg)) \<and>
        trafficOpenedToGreen (call_ctx k) = bg_cut_over (fst cfg) \<and>
        call_containerId k =
          (if bg_cut_over (fst cfg) then blue else newContainerId (call_ctx k)))"

lemma bgu_step_trace:
  assumes tr: "bgu_trace blue (s, c) ks"
    and st: "sc_step bgu_states now sig (s, c) = Some ((t, d), ks')"
  shows "bgu_trace blue (t, d) (ks @ ks')"
proof -
  from tr have inv: "bgu_inv blue (s, c)" by (simp add: bgu_trace_def)
  have inv': "bgu_inv blue (t, d)" by (rule bgu_step_inv [OF inv st])
  note ph = bgu_step_phase [OF st]
  have old: "\<forall>k \<in> set ks. destructive (call_op k) \<longrightarrow>
      (bg_cut_over t \<or> bg_rolling_back t) \<and> trafficOpenedToGreen (call_ctx k) = bg_cut_over t \<and>
      call_containerId k = (if bg_cut_over t then blue else newContainerId (call_ctx k))"
    using tr ph bg_phases_disjoint [of s] bg_phases_disjoint [of t]
    by (auto simp: bgu_trace_def)
  from st obtain c1 where en: "entry (bgu_states t) now c1 = (d, ks')" by (rule bgu_stepE)
  have new: "\<forall>k \<in> set ks'. destructive (call_op k) \<longrightarrow>
      (bg_cut_over t \<or> bg_rolling_back t) \<and> trafficOpenedToGreen (call_ctx k) = bg_cut_over t \<and>
      call_containerId k = (if bg_cut_over t then blue else newContainerId (call_ctx k))"
    using bgu_entry_calls [OF en] inv' by (auto simp: bgu_inv_def Let_def)
  from old new inv' show ?thesis by (auto simp: bgu_trace_def)
qed

lemma bgu_run_trace:
  "bgu_trace (Option.bind input oldContainerId) (fst (bgu_run now input ins)) (snd (bgu_run now input ins))"
  unfolding bgu_run_def
  by (rule sc_run_invariant)
     (simp add: bgu_trace_def bgu_inv_start, metis bgu_step_trace surj_pair)

lemma bgu_run_inv:
  "bgu_run now input ins = ((s, c), ks) \<Longrightarrow> bgu_inv (Option.bind input oldContainerId) (s, c)"
  using bgu_run_trace [of input now ins] by (simp add: bgu_trace_def)

section \<open>Progress\<close>

definition bgu_rank :: "bg_state \<Rightarrow> nat" where
  "bgu_rank s =
     (case s of
        idle \<Rightarrow> 12 | deployingGreenApp \<Rightarrow> 11 | waitingGreenReady \<Rightarrow> 10
      | initializingGreenLB \<Rightarrow> 9 | healthCheckWait \<Rightarrow> 8 | configuringFrontend \<Rightarrow> 7
      | openingTraffic \<Rightarrow> 6 | drainingBlue \<Rightarrow> 5 | waitingForDrain \<Rightarrow> 4
      | decommissioningBlueLB \<Rightarrow> 3 | stoppingBlueApp \<Rightarrow> 2 | removingBlueApp \<Rightarrow> 1
      | rollbackDisableGreenTraffic \<Rightarrow> 4 | rollbackRemoveGreenHaproxyConfig \<Rightarrow> 3
      | rollbackStoppingGreenApp \<Rightarrow> 2 | rollbackRemovingGreenApp \<Rightarrow> 1
      | rollbackComplete \<Rightarrow> 0 | completed \<Rightarrow> 0 | failed \<Rightarrow> 0)"

text \<open>
  What is owed to a node: the runner's START_DEPLOYMENT to the idle one, otherwise an answer to
  a call its entry makes, or its timer.
\<close>

definition bgu_owed :: "bg_state \<Rightarrow> signal \<Rightarrow> bool" where
  "bgu_owed s sig =
     (if s = idle then sig = Ev (plain_event START_DEPLOYMENT) else owed_by bgu_states s sig)"

lemma bgu_step_rank:
  assumes "sc_step bgu_states now sig (s, c) = Some ((t, d), ks)"
  shows "bgu_rank t < bgu_rank s"
  using assms
  by (cases s; cases sig) (auto simp: bgu_step_unfold bgu_rank_def split: if_splits)

lemma bgu_owed_handled:
  assumes "\<not> is_final (bgu_states s)" and "bgu_owed s sig"
  shows "sc_step bgu_states now sig (s, c) \<noteq> None"
  using assms
  by (cases s; cases sig)
     (auto simp: bgu_owed_def owed_by_def bgu_step_unfold bgu_calls answers_def op_emits_def
       split: if_splits)

interpretation bgu: deployment_machine bgu_states "\<lambda>_. True" bgu_rank bgu_owed
proof unfold_locales
  fix cfg cfg' :: "bg_state \<times> bg_ctx" and now sig ks
  assume "sc_step bgu_states now sig cfg = Some (cfg', ks)"
  then show "bgu_rank (fst cfg') < bgu_rank (fst cfg)"
    by (metis bgu_step_rank surj_pair fst_conv)
next
  fix cfg :: "bg_state \<times> bg_ctx"
  assume "bgu_rank (fst cfg) = 0"
  then show "is_final (bgu_states (fst cfg))"
    by (cases "fst cfg") (simp_all add: bgu_rank_def)
next
  fix cfg :: "bg_state \<times> bg_ctx" and now sig
  assume "\<not> is_final (bgu_states (fst cfg))" and "bgu_owed (fst cfg) sig"
  then show "sc_step bgu_states now sig cfg \<noteq> None"
    by (metis bgu_owed_handled surj_pair fst_conv)
qed simp_all

section \<open>Properties\<close>

lemma bgu_step_green:
  assumes "sc_step bgu_states now sig (s, c) = Some ((t, d), ks)" and "bg_cut_over s"
  shows "newContainerId d = newContainerId c \<and> applicationName d = applicationName c"
  using assms
  by (cases s; cases sig) (auto simp: bgu_step_unfold split: if_splits)

lemma bgu_run_split:
  "bgu_run now input (xs @ ys) =
     (let (cfg, ks) = bgu_run now input xs; (cfg', ks') = sc_run bgu_states cfg ys
      in (cfg', ks @ ks'))"
  by (simp add: bgu_run_def sc_run_append)

text \<open>A concrete run up to the cutover, and one on to the end, for the witnesses.\<close>

definition bgu_events_to_cutover :: "(int \<times> signal) list" where
  "bgu_events_to_cutover =
     [(1, Ev (plain_event START_DEPLOYMENT)),
      (2, Ev ((plain_event DEPLOYMENT_SUCCESS)\<lparr>ev_containerId := Some ''green''\<rparr>)),
      (3, Ev ((plain_event CONTAINERS_RUNNING)\<lparr>ev_containerIpAddress := Some ''10.0.0.2''\<rparr>)),
      (4, Ev (plain_event LB_CONFIGURED)),
      (5, Ev (plain_event SERVERS_HEALTHY)),
      (7, Ev (plain_event TRAFFIC_ENABLED))]"

definition bgu_events_teardown :: "(int \<times> signal) list" where
  "bgu_events_teardown =
     [(8, Ev (plain_event DRAIN_INITIATED)), (9, After),
      (10, Ev (error_event LB_REMOVAL_FAILED ''gone'')),
      (11, Ev (plain_event STOP_SUCCESS)),
      (12, Ev (plain_event REMOVAL_SUCCESS))]"

definition bgu_sample_input :: bg_ctx where
  "bgu_sample_input =
     (bgu_context 0 None)\<lparr>applicationName := ''stk-shop-web'', oldContainerId := Some ''blue''\<rparr>"

text \<open>Once TRAFFIC_ENABLED has been received, the blue-green deployment never rolls green
  back: however the run goes on, the machine stays on the nodes behind the cutover, keeps
  traffic open to the same green container, and ends nowhere but in completed.\<close>

theorem bgu_no_rollback_after_cutover:
  assumes xs: "fst (bgu_run now input xs) = (s, c)" and open_c: "trafficOpenedToGreen c"
    and ys: "fst (bgu_run now input (xs @ ys)) = (t, d)"
  shows "bg_cut_over t \<and> \<not> bg_rolling_back t \<and> trafficOpenedToGreen d \<and>
    newContainerId d = newContainerId c \<and> (is_final (bgu_states t) \<longrightarrow> t = completed)"
proof -
  let ?I = "\<lambda>cfg. bg_cut_over (fst cfg) \<and> newContainerId (snd cfg) = newContainerId c"
  have inv: "bgu_inv (Option.bind input oldContainerId) (s, c)"
    using bgu_run_inv [of now input xs s c "snd (bgu_run now input xs)"] xs
    by (metis prod.collapse)
  with open_c have start: "?I (s, c)" by (simp add: bgu_inv_def Let_def)
  have "?I (fst (sc_run bgu_states (s, c) ys))"
    by (rule sc_run_invariant_state, rule start)
       (metis bgu_step_phase bgu_step_green fst_conv snd_conv surj_pair)
  moreover have td: "fst (sc_run bgu_states (s, c) ys) = (t, d)"
    using xs ys by (simp add: bgu_run_split case_prod_beta)
  ultimately have *: "bg_cut_over t" "newContainerId d = newContainerId c" by simp_all
  have "bgu_inv (Option.bind input oldContainerId) (t, d)"
    using bgu_run_inv [of now input "xs @ ys" t d "snd (bgu_run now input (xs @ ys))"] ys
    by (metis prod.collapse)
  with * have "trafficOpenedToGreen d" by (simp add: bgu_inv_def Let_def)
  with * bg_phases_disjoint show ?thesis by auto
qed

lemma bgu_sample_cutover:
  "fst (fst (bgu_run 0 (Some bgu_sample_input) bgu_events_to_cutover)) = drainingBlue"
  "trafficOpenedToGreen (snd (fst (bgu_run 0 (Some bgu_sample_input) bgu_events_to_cutover)))"
  by code_simp+

lemma bgu_sample_end:
  "fst (fst (bgu_run 0 (Some bgu_sample_input) (bgu_events_to_cutover @ bgu_events_teardown))) =
   completed"
  by code_simp

theorem bgu_no_rollback_after_cutover_witness:
  "bg_cut_over
     (fst (fst (bgu_run 0 (Some bgu_sample_input) (bgu_events_to_cutover @ bgu_events_teardown))))"
  using bgu_no_rollback_after_cutover
    [OF surjective_pairing bgu_sample_cutover(2) surjective_pairing, of bgu_events_teardown]
  by blast

text \<open>The calls that take a container out of the load balancer, stop it or remove it hit one
  side only: in a run whose final configuration is behind the cutover every such call was made
  with traffic open and on the input's old container, in any other run every such call was made
  with traffic still closed to green and on the green container. No run tears down both.\<close>

theorem bgu_teardown_targets:
  assumes run: "bgu_run now input ins = ((s, c), ks)" and k: "k \<in> set ks"
    and destr: "destructive (call_op k)"
  shows "trafficOpenedToGreen (call_ctx k) = trafficOpenedToGreen c \<and>
    call_containerId k =
      (if trafficOpenedToGreen c then Option.bind input oldContainerId
       else newContainerId (call_ctx k))"
proof -
  have tr: "bgu_trace (Option.bind input oldContainerId) (s, c) ks"
    using bgu_run_trace [of input now ins] run by simp
  then have "trafficOpenedToGreen c = bg_cut_over s"
    by (simp add: bgu_trace_def bgu_inv_def Let_def)
  with tr k destr show ?thesis by (auto simp: bgu_trace_def)
qed

lemma bgu_sample_calls:
  "map (\<lambda>k. (call_op k, call_containerId k))
     (filter (\<lambda>k. destructive (call_op k))
       (snd (bgu_run 0 (Some bgu_sample_input) (bgu_events_to_cutover @ bgu_events_teardown)))) =
   [(RemoveContainerFromLB, Some ''blue''), (StopApplication, Some ''blue''),
    (RemoveApplication, Some ''blue'')]"
  by code_simp

theorem bgu_teardown_targets_witness:
  "\<exists>k \<in> set (snd (bgu_run 0 (Some bgu_sample_input) (bgu_events_to_cutover @ bgu_events_teardown))).
     destructive (call_op k) \<and> trafficOpenedToGreen (call_ctx k)"
proof -
  let ?r = "bgu_run 0 (Some bgu_sample_input) (bgu_events_to_cutover @ bgu_events_teardown)"
  obtain s c ks where r: "?r = ((s, c), ks)" by (metis surj_pair)
  have "filter (\<lambda>k. destructive (call_op k)) ks \<noteq> []"
    using bgu_sample_calls r by auto
  then obtain k where k: "k \<in> set ks" "destructive (call_op k)"
    by (auto simp: filter_empty_conv)
  have "s = completed" using bgu_sample_end r by simp
  moreover have "bgu_inv (Option.bind (Some bgu_sample_input) oldContainerId) (s, c)"
    by (rule bgu_run_inv [OF r])
  ultimately have "trafficOpenedToGreen c" by (simp add: bgu_inv_def Let_def)
  with bgu_teardown_targets [OF r k] k r show ?thesis by auto
qed

text \<open>A deployment is reported completed only if green was healthy, registered with HAProxy
  and opened to traffic, and the error it may still report is one of the four about the
  superseded blue.\<close>

theorem bgu_completed_is_healthy:
  assumes "fst (bgu_run now input ins) = (completed, c)"
  shows "greenHealthy c \<and> greenBackendConfigured c \<and> trafficOpenedToGreen c \<and>
    trafficValidated c \<and> set_option (error c) \<subseteq> bg_non_critical"
proof -
  have "bgu_inv (Option.bind input oldContainerId) (completed, c)"
    using bgu_run_inv [of now input ins completed c "snd (bgu_run now input ins)"] assms
    by (metis prod.collapse)
  then show ?thesis by (simp add: bgu_inv_def Let_def)
qed

theorem bgu_completed_is_healthy_witness:
  "greenHealthy (snd (fst (bgu_run 0 (Some bgu_sample_input)
     (bgu_events_to_cutover @ bgu_events_teardown))))"
proof -
  let ?r = "fst (bgu_run 0 (Some bgu_sample_input) (bgu_events_to_cutover @ bgu_events_teardown))"
  have "?r = (completed, snd ?r)" using bgu_sample_end by (metis prod.collapse)
  from bgu_completed_is_healthy [OF this] show ?thesis by blast
qed

text \<open>If the runner sends START_DEPLOYMENT and every node entered afterwards gets an answer
  its action may send, or its timer, then after twelve signals the machine is in a final node,
  so the runner's promise resolves; no answer is ever left unhandled.\<close>

theorem bgu_reaches_final:
  assumes "answered_by bgu_states bgu_owed (idle, bgu_context now input) ins"
    and "12 \<le> length ins"
  shows "is_final (bgu_states (fst (fst (bgu_run now input ins))))"
  unfolding bgu_run_def
  using bgu.answered_reaches_final [OF _ assms(1)] assms(2) by (simp add: bgu_rank_def)

lemma bgu_owedI:
  assumes "s \<noteq> idle" and "k \<in> set (snd (entry (bgu_states s) now c))"
    and "op_emits (call_op k) r" and "e = forward k r"
  shows "bgu_owed s (Ev e)"
  using assms by (auto simp: bgu_owed_def owed_by_def answers_def)

definition bgu_events_failing :: "(int \<times> signal) list" where
  "bgu_events_failing =
     (1, Ev (plain_event START_DEPLOYMENT)) #
     (2, Ev (error_event DEPLOYMENT_ERROR ''no such image'')) # replicate 10 (3, After)"

lemma bgu_deploying_owed: "bgu_owed deployingGreenApp (Ev (error_event DEPLOYMENT_ERROR m))"
  by (rule bgu_owedI [where now = 0 and c = "bgu_context 0 None" and
        k = "bgu_deployGreenApplicationContainers (bgu_context 0 None)" and
        r = "error_event DEPLOYMENT_ERROR m"])
     (simp_all add: bgu_states_def bgu_nodes bgu_calls op_emits_def)

lemma bgu_events_failing_answered:
  "answered_by bgu_states bgu_owed (idle, bgu_context 0 None) bgu_events_failing"
proof -
  have s1: "sc_send bgu_states (1, Ev (plain_event START_DEPLOYMENT)) (idle, bgu_context 0 None) =
      ((deployingGreenApp, bgu_context 0 None),
       [bgu_deployGreenApplicationContainers (bgu_context 0 None)])"
    by (simp add: sc_send_def bgu_step_unfold)
  have s2: "fst (fst (sc_send bgu_states (2, Ev (error_event DEPLOYMENT_ERROR ''no such image''))
      (deployingGreenApp, bgu_context 0 None))) = failed"
    by (simp add: sc_send_def bgu_step_unfold)
  have o1: "bgu_owed idle (Ev (plain_event START_DEPLOYMENT))"
    by (simp add: bgu_owed_def)
  show ?thesis
    using bgu_deploying_owed s2 o1
    by (simp add: bgu_events_failing_def s1 answered_by_final)
qed

theorem bgu_reaches_final_witness:
  "is_final (bgu_states (fst (fst (bgu_run 0 None bgu_events_failing))))"
  by (rule bgu_reaches_final [OF bgu_events_failing_answered]) (simp add: bgu_events_failing_def)

section \<open>The update machine refines the deployment machine\<close>

text \<open>An update context as a deployment context without a frontend.\<close>

definition bgu_lift :: "bg_ctx \<Rightarrow> bgd_ctx" where
  "bgu_lift c = bg_ctx.extend c (bgd_ctx.fields False None)"

lemma bgu_lift_updates [simp]:
  "bgu_lift (c\<lparr>newContainerId := x\<rparr>) = (bgu_lift c)\<lparr>newContainerId := x\<rparr>"
  "bgu_lift (c\<lparr>containerName := x\<rparr>) = (bgu_lift c)\<lparr>containerName := x\<rparr>"
  "bgu_lift (c\<lparr>greenHealthy := b\<rparr>) = (bgu_lift c)\<lparr>greenHealthy := b\<rparr>"
  "bgu_lift (c\<lparr>containerIpAddress := x\<rparr>) = (bgu_lift c)\<lparr>containerIpAddress := x\<rparr>"
  "bgu_lift (c\<lparr>containerPort := y\<rparr>) = (bgu_lift c)\<lparr>containerPort := y\<rparr>"
  "bgu_lift (c\<lparr>error := x\<rparr>) = (bgu_lift c)\<lparr>error := x\<rparr>"
  "bgu_lift (c\<lparr>greenBackendConfigured := b\<rparr>) = (bgu_lift c)\<lparr>greenBackendConfigured := b\<rparr>"
  "bgu_lift (c\<lparr>trafficOpenedToGreen := b\<rparr>) = (bgu_lift c)\<lparr>trafficOpenedToGreen := b\<rparr>"
  "bgu_lift (c\<lparr>trafficValidated := b\<rparr>) = (bgu_lift c)\<lparr>trafficValidated := b\<rparr>"
  "bgu_lift (c\<lparr>drainStartTime := y\<rparr>) = (bgu_lift c)\<lparr>drainStartTime := y\<rparr>"
  "bgu_lift (c\<lparr>blueDraining := b\<rparr>) = (bgu_lift c)\<lparr>blueDraining := b\<rparr>"
  "bgu_lift (c\<lparr>blueDrained := b\<rparr>) = (bgu_lift c)\<lparr>blueDrained := b\<rparr>"
  "bgu_lift (c\<lparr>activeConnections := n\<rparr>) = (bgu_lift c)\<lparr>activeConnections := n\<rparr>"
  by (simp_all add: bgu_lift_def bg_ctx.defs bgd_ctx.defs)

lemma bgu_lift_fields [simp]:
  "newContainerId (bgu_lift c) = newContainerId c"
  "oldContainerId (bgu_lift c) = oldContainerId c"
  "healthCheckTimeoutMs (bgu_lift c) = healthCheckTimeoutMs c"
  "(bgu_lift c)\<lparr>bg_frontendConfigured := False\<rparr> = bgu_lift c"
  by (simp_all add: bgu_lift_def bg_ctx.defs bgd_ctx.defs)

lemma bgu_lift_healthy [simp]:
  "(bgu_lift c)\<lparr>greenHealthy := b, bg_frontendConfigured := False\<rparr> = (bgu_lift c)\<lparr>greenHealthy := b\<rparr>"
  by (simp add: bgu_lift_def bg_ctx.defs bgd_ctx.defs)

lemma bgu_lift_context:
  "bgu_lift (bgu_context now input) = bgd_context now (map_option bgu_lift input)"
  by (cases input) (simp_all add: bgu_context_def bgd_context_def bgu_lift_def bg_ctx.defs bgd_ctx.defs)

text \<open>The signals the deployment machine needs for one signal of the update machine.\<close>

definition bgu_expand :: "bg_state \<Rightarrow> int \<times> signal \<Rightarrow> (int \<times> signal) list" where
  "bgu_expand s i =
     (case snd i of
        After \<Rightarrow> [i]
      | Ev e \<Rightarrow>
          if s = healthCheckWait \<and> evtype e = SERVERS_HEALTHY
          then [i, (fst i, Ev (plain_event FRONTEND_CONFIG_SKIPPED))]
          else if s = openingTraffic \<and> evtype e = TRAFFIC_ENABLE_FAILED
          then [i, (fst i, Ev (plain_event ROLLBACK_GREEN_TRAFFIC_DISABLED))]
          else [i])"

definition bg_teardown :: "'c call list \<Rightarrow> (op \<times> string option) list" where
  "bg_teardown ks =
     map (\<lambda>k. (call_op k, call_containerId k)) (filter (\<lambda>k. destructive (call_op k)) ks)"

lemma bg_teardown_append [simp]: "bg_teardown (xs @ ys) = bg_teardown xs @ bg_teardown ys"
  by (simp add: bg_teardown_def)

definition bgu_node_name :: "bg_state \<Rightarrow> bool" where
  "bgu_node_name s \<longleftrightarrow> s \<noteq> configuringFrontend \<and> s \<noteq> rollbackDisableGreenTraffic"

lemma bgu_send_sim:
  assumes "bgu_node_name s" and "sc_send bgu_states i (s, c) = ((t, d), ks)"
  shows "bgu_node_name t \<and> fst (sc_run bgd_states (s, bgu_lift c) (bgu_expand s i)) = (t, bgu_lift d) \<and>
    bg_teardown (snd (sc_run bgd_states (s, bgu_lift c) (bgu_expand s i))) = bg_teardown ks"
  using assms
  by (cases i; cases s; cases "snd i")
     (auto simp: bgu_expand_def sc_send_def bgu_step_unfold bgd_step_unfold bgu_calls bgd_calls bgu_node_name_def
       bg_teardown_def destructive_def healthCheckTimeoutMessage_def healthCheckTimeout_def split: if_splits)

text \<open>
  The expansion of a whole run: each signal is expanded at the node the update machine is in.
\<close>

fun bgu_expand_run :: "bg_state \<times> bg_ctx \<Rightarrow> (int \<times> signal) list \<Rightarrow> (int \<times> signal) list" where
  "bgu_expand_run cfg [] = []"
| "bgu_expand_run cfg (i # ins) =
     bgu_expand (fst cfg) i @ bgu_expand_run (fst (sc_send bgu_states i cfg)) ins"

lemma bgu_run_sim:
  "bgu_node_name (fst cfg) \<Longrightarrow>
   fst (sc_run bgd_states (fst cfg, bgu_lift (snd cfg)) (bgu_expand_run cfg ins)) =
     (fst (fst (sc_run bgu_states cfg ins)), bgu_lift (snd (fst (sc_run bgu_states cfg ins)))) \<and>
   bg_teardown (snd (sc_run bgd_states (fst cfg, bgu_lift (snd cfg)) (bgu_expand_run cfg ins))) =
     bg_teardown (snd (sc_run bgu_states cfg ins))"
proof (induction ins arbitrary: cfg)
  case (Cons i ins)
  obtain s c where cfg: "cfg = (s, c)" by (cases cfg)
  obtain t d ks where st: "sc_send bgu_states i (s, c) = ((t, d), ks)" by (metis surj_pair)
  from bgu_send_sim [OF _ st] Cons.prems cfg
  have sim: "bgu_node_name t"
      "fst (sc_run bgd_states (s, bgu_lift c) (bgu_expand s i)) = (t, bgu_lift d)"
      "bg_teardown (snd (sc_run bgd_states (s, bgu_lift c) (bgu_expand s i))) = bg_teardown ks"
    by simp_all
  from Cons.IH [of "(t, d)"] sim st cfg show ?case
    by (simp add: sc_run_append case_prod_beta)
qed (simp add: bg_teardown_def)


end
