(* ===== verification/DeploymentPhase.thy ===== *)
theory DeploymentPhase
  imports BlueGreenUpdate
begin

text \<open>
  What an operator sees of a blue-green deployment: the runner of a machine
  (\<open>stacks/state-machine-runner.ts\<close>) and the reporter it feeds
  (\<open>stacks/deployment-phase-emitter.ts\<close>), which maps machine states to phases and emits each
  change once with a flag that says whether traffic has been cut over. State values are the
  strings xstate reports; \<open>bg_state_name\<close> is the value of each node of the two machines.
\<close>

section \<open>Phases\<close>

datatype phase =
    deploying_green | waiting_green_ready | registering_green | health_check | switching_traffic
  | draining_blue | removing_blue | rolling_back | phase_completed | phase_failed

definition DEPLOYMENT_PHASE_LABELS :: "phase \<Rightarrow> string" where
  "DEPLOYMENT_PHASE_LABELS p =
     (case p of
        deploying_green \<Rightarrow> ''Deploying new containers''
      | waiting_green_ready \<Rightarrow> ''Waiting for new containers''
      | registering_green \<Rightarrow> ''Registering with load balancer''
      | health_check \<Rightarrow> ''Health checking''
      | switching_traffic \<Rightarrow> ''Switching traffic over''
      | draining_blue \<Rightarrow> ''Draining old containers''
      | removing_blue \<Rightarrow> ''Removing old containers''
      | rolling_back \<Rightarrow> ''Rolling back''
      | phase_completed \<Rightarrow> ''Done''
      | phase_failed \<Rightarrow> ''Failed'')"

definition STATE_TO_PHASE :: "(string \<times> phase) list" where
  "STATE_TO_PHASE =
     [(''deployingGreenApp'', deploying_green),
      (''waitingGreenReady'', waiting_green_ready),
      (''initializingGreenLB'', registering_green),
      (''configuringFrontend'', registering_green),
      (''healthCheckWait'', health_check),
      (''openingTraffic'', switching_traffic),
      (''drainingBlue'', draining_blue),
      (''waitingForDrain'', draining_blue),
      (''decommissioningBlueLB'', removing_blue),
      (''stoppingBlueApp'', removing_blue),
      (''removingBlueApp'', removing_blue),
      (''rollbackDisableGreenTraffic'', rolling_back),
      (''rollbackRemoveGreenHaproxyConfig'', rolling_back),
      (''rollbackStoppingGreenApp'', rolling_back),
      (''rollbackRemovingGreenApp'', rolling_back),
      (''rollbackComplete'', phase_failed),
      (''completed'', phase_completed),
      (''failed'', phase_failed)]"

text \<open>The set is a predicate: membership is by case.\<close>

fun CUT_OVER_PHASES :: "phase \<Rightarrow> bool" where
  "CUT_OVER_PHASES switching_traffic = True"
| "CUT_OVER_PHASES draining_blue = True"
| "CUT_OVER_PHASES removing_blue = True"
| "CUT_OVER_PHASES phase_completed = True"
| "CUT_OVER_PHASES _ = False"

text \<open>A state value that is not a string (a nested state) is \<open>None\<close>.\<close>

definition phaseForState :: "string option \<Rightarrow> phase option" where
  "phaseForState v = (case v of None \<Rightarrow> None | Some s \<Rightarrow> map_of STATE_TO_PHASE s)"

fun bg_state_name :: "bg_state \<Rightarrow> string" where
  "bg_state_name idle = ''idle''"
| "bg_state_name deployingGreenApp = ''deployingGreenApp''"
| "bg_state_name waitingGreenReady = ''waitingGreenReady''"
| "bg_state_name initializingGreenLB = ''initializingGreenLB''"
| "bg_state_name healthCheckWait = ''healthCheckWait''"
| "bg_state_name configuringFrontend = ''configuringFrontend''"
| "bg_state_name openingTraffic = ''openingTraffic''"
| "bg_state_name drainingBlue = ''drainingBlue''"
| "bg_state_name waitingForDrain = ''waitingForDrain''"
| "bg_state_name decommissioningBlueLB = ''decommissioningBlueLB''"
| "bg_state_name stoppingBlueApp = ''stoppingBlueApp''"
| "bg_state_name removingBlueApp = ''removingBlueApp''"
| "bg_state_name rollbackDisableGreenTraffic = ''rollbackDisableGreenTraffic''"
| "bg_state_name rollbackRemoveGreenHaproxyConfig = ''rollbackRemoveGreenHaproxyConfig''"
| "bg_state_name rollbackStoppingGreenApp = ''rollbackStoppingGreenApp''"
| "bg_state_name rollbackRemovingGreenApp = ''rollbackRemovingGreenApp''"
| "bg_state_name rollbackComplete = ''rollbackComplete''"
| "bg_state_name completed = ''completed''"
| "bg_state_name failed = ''failed''"

section \<open>The reporter\<close>

record phase_event =
  pe_stackId :: string
  pe_serviceName :: string
  pe_phase :: phase
  pe_label :: string
  pe_cutOver :: bool

definition emitDeploymentPhase :: "string \<Rightarrow> string \<Rightarrow> phase \<Rightarrow> phase_event" where
  "emitDeploymentPhase stackId serviceName p =
     \<lparr>pe_stackId = stackId, pe_serviceName = serviceName, pe_phase = p,
      pe_label = DEPLOYMENT_PHASE_LABELS p, pe_cutOver = CUT_OVER_PHASES p\<rparr>"

text \<open>The reporter's closure keeps the last phase; here it is passed along.\<close>

definition phase_report ::
  "string \<Rightarrow> string \<Rightarrow> phase option \<Rightarrow> string option \<Rightarrow> phase option \<times> phase_event list" where
  "phase_report stackId serviceName lastPhase v =
     (case phaseForState v of
        None \<Rightarrow> (lastPhase, [])
      | Some p \<Rightarrow>
          if Some p = lastPhase then (lastPhase, [])
          else (Some p, [emitDeploymentPhase stackId serviceName p]))"

fun phase_reports ::
  "string \<Rightarrow> string \<Rightarrow> phase option \<Rightarrow> string option list \<Rightarrow> phase_event list" where
  "phase_reports stackId serviceName lastPhase [] = []"
| "phase_reports stackId serviceName lastPhase (v # vs) =
     (let (l, es) = phase_report stackId serviceName lastPhase v
      in es @ phase_reports stackId serviceName l vs)"

section \<open>The runner\<close>

text \<open>
  The snapshots a subscriber of a machine sees, one for every signal until the machine is done
  (not the initial one), and the snapshot the runner's promise resolves with.
\<close>

fun sm_snapshots ::
  "('s \<Rightarrow> ('s, 'c, 'a) state_node) \<Rightarrow> 's \<times> 'c \<Rightarrow> (int \<times> signal) list \<Rightarrow> ('s \<times> 'c) list" where
  "sm_snapshots st cfg [] = []"
| "sm_snapshots st cfg (i # ins) =
     (if is_final (st (fst cfg)) then []
      else (let cfg' = fst (sc_send st i cfg) in cfg' # sm_snapshots st cfg' ins))"

definition runStateMachineToCompletion ::
  "('s \<Rightarrow> ('s, 'c, 'a) state_node) \<Rightarrow> 's \<times> 'c \<Rightarrow> (int \<times> signal) list \<Rightarrow> ('s \<times> 'c) option" where
  "runStateMachineToCompletion st cfg ins =
     find (\<lambda>s. is_final (st (fst s))) (sm_snapshots st cfg ins)"

definition bgd_phase_events ::
  "string \<Rightarrow> string \<Rightarrow> int \<Rightarrow> bgd_ctx option \<Rightarrow> (int \<times> signal) list \<Rightarrow> phase_event list" where
  "bgd_phase_events stackId serviceName now input ins =
     phase_reports stackId serviceName None
       (map (\<lambda>s. Some (bg_state_name (fst s)))
         (sm_snapshots bgd_states (idle, bgd_context now input) ins))"

section \<open>Lemmas\<close>

lemma phase_reports_append:
  "phase_reports si sn l (xs @ ys) =
     phase_reports si sn l xs @
     phase_reports si sn (fold (\<lambda>v l. fst (phase_report si sn l v)) xs l) ys"
  by (induction xs arbitrary: l) (auto simp: case_prod_beta Let_def)

lemma phase_reports_phases:
  "map pe_phase (phase_reports si sn l vs) =
     (case l of
        None \<Rightarrow> remdups_adj (List.map_filter phaseForState vs)
      | Some p \<Rightarrow> tl (remdups_adj (p # List.map_filter phaseForState vs)))"
proof (induction vs arbitrary: l)
  case (Cons v vs)
  have hd_rem: "remdups_adj (p # xs) = p # tl (remdups_adj (p # xs))" for p :: phase and xs
    by (cases xs) (auto simp: remdups_adj_Cons split: list.splits)
  show ?case
  proof (cases "phaseForState v")
    case None
    with Cons show ?thesis by (cases l) (simp_all add: phase_report_def)
  next
    case (Some p)
    show ?thesis
    proof (cases l)
      case None
      with Some Cons hd_rem show ?thesis
        by (simp add: phase_report_def emitDeploymentPhase_def)
    next
      case l: (Some q)
      show ?thesis
      proof (cases "p = q")
        case True
        with Some l Cons show ?thesis by (simp add: phase_report_def)
      next
        case False
        with Some l Cons hd_rem show ?thesis
          by (auto simp: phase_report_def emitDeploymentPhase_def)
      qed
    qed
  qed
qed (simp split: option.splits)

lemma phase_reports_event:
  "e \<in> set (phase_reports si sn l vs) \<Longrightarrow>
   e = emitDeploymentPhase si sn (pe_phase e) \<and> Some (pe_phase e) \<in> phaseForState ` set vs"
proof (induction vs arbitrary: l)
  case (Cons v vs)
  then show ?case
    by (cases "phaseForState v")
       (force simp: phase_report_def emitDeploymentPhase_def split: if_splits)+
qed simp

lemma phase_of_node:
  "phaseForState (Some (bg_state_name s)) = Some p \<Longrightarrow>
   CUT_OVER_PHASES p \<longleftrightarrow> bg_cut_over s \<or> s = openingTraffic"
  by (cases s) (auto simp: phaseForState_def STATE_TO_PHASE_def)

lemma phase_of_every_node:
  "phaseForState (Some (bg_state_name s)) = None \<longleftrightarrow> s = idle"
  by (cases s) (simp_all add: phaseForState_def STATE_TO_PHASE_def)

lemma sm_snapshots_last:
  "\<not> is_final (st (fst cfg)) \<Longrightarrow> is_final (st (fst (fst (sc_run st cfg ins)))) \<Longrightarrow>
   runStateMachineToCompletion st cfg ins = Some (fst (sc_run st cfg ins))"
proof (induction ins arbitrary: cfg)
  case (Cons i ins)
  let ?c = "fst (sc_send st i cfg)"
  have run: "fst (sc_run st cfg (i # ins)) = fst (sc_run st ?c ins)" by (simp add: case_prod_beta)
  show ?case
  proof (cases "is_final (st (fst ?c))")
    case True
    with Cons.prems run show ?thesis
      by (simp add: runStateMachineToCompletion_def Let_def sc_run_final)
  next
    case False
    with Cons.IH [of ?c] Cons.prems run show ?thesis
      by (simp add: runStateMachineToCompletion_def Let_def)
  qed
qed simp

section \<open>Properties\<close>

text \<open>The phases an operator is shown are the phases of the machine's states with repetitions
  merged: no phase is emitted twice in a row, none is lost, and every event carries the label
  and the cutover flag of its phase.\<close>

theorem phase_events_exact:
  "map pe_phase (phase_reports stackId serviceName None vs) =
     remdups_adj (List.map_filter phaseForState vs) \<and>
   list_all (\<lambda>e. pe_label e = DEPLOYMENT_PHASE_LABELS (pe_phase e) \<and>
      pe_cutOver e = CUT_OVER_PHASES (pe_phase e)) (phase_reports stackId serviceName None vs)"
proof
  show "map pe_phase (phase_reports stackId serviceName None vs) =
      remdups_adj (List.map_filter phaseForState vs)"
    by (simp add: phase_reports_phases)
  show "list_all (\<lambda>e. pe_label e = DEPLOYMENT_PHASE_LABELS (pe_phase e) \<and>
      pe_cutOver e = CUT_OVER_PHASES (pe_phase e)) (phase_reports stackId serviceName None vs)"
    unfolding list_all_iff
  proof
    fix e
    assume "e \<in> set (phase_reports stackId serviceName None vs)"
    from phase_reports_event [OF this] have "e = emitDeploymentPhase stackId serviceName (pe_phase e)"
      by simp
    then show "pe_label e = DEPLOYMENT_PHASE_LABELS (pe_phase e) \<and>
        pe_cutOver e = CUT_OVER_PHASES (pe_phase e)"
      by (metis emitDeploymentPhase_def phase_event.select_convs(3-5))
  qed
qed

text \<open>The runner of a blue-green deployment resolves: if START_DEPLOYMENT is sent and every
  node entered is answered (or timed out), its promise resolves after at most twelve signals,
  with completed, rollbackComplete or failed, and with the context the machine ended in.\<close>

theorem bgd_runner_resolves:
  assumes "answered_by bgd_states bgd_owed (idle, bgd_context now input) ins"
    and "12 \<le> length ins"
  shows "runStateMachineToCompletion bgd_states (idle, bgd_context now input) ins =
      Some (fst (bgd_run now input ins)) \<and>
    fst (fst (bgd_run now input ins)) \<in> {completed, rollbackComplete, failed}"
proof -
  have fin: "is_final (bgd_states (fst (fst (sc_run bgd_states (idle, bgd_context now input) ins))))"
    using bgd.answered_reaches_final [OF _ assms(1)] assms(2) by (simp add: bgd_rank_def)
  have "runStateMachineToCompletion bgd_states (idle, bgd_context now input) ins =
      Some (fst (sc_run bgd_states (idle, bgd_context now input) ins))"
    by (rule sm_snapshots_last; (rule fin)?) (simp add: bgd_states_def bgd_idle_def)
  moreover have "fst (fst (sc_run bgd_states (idle, bgd_context now input) ins)) \<in>
      {completed, rollbackComplete, failed}"
    using fin
    by (cases "fst (fst (sc_run bgd_states (idle, bgd_context now input) ins))")
       (simp_all add: bgd_states_def bgd_nodes)
  ultimately show ?thesis by (simp add: bgd_run_def)
qed

theorem bgd_runner_resolves_witness:
  "runStateMachineToCompletion bgd_states (idle, bgd_context 0 None) bgd_events_failing \<noteq> None"
  using bgd_runner_resolves [OF bgd_events_failing_answered] by (simp add: bgd_events_failing_def)

text \<open>The cutover flag an operator is shown is that of the machine at every node with a phase
  but openingTraffic: it is set exactly behind the cutover, and one node too early.\<close>

theorem phase_cutover_flag:
  "map_option CUT_OVER_PHASES (phaseForState (Some (bg_state_name s))) =
     (if s = idle then None else Some (bg_cut_over s \<or> s = openingTraffic))"
  using phase_of_node [of s] phase_of_every_node [of s]
  by (cases "phaseForState (Some (bg_state_name s))") auto

text \<open>So the flag is taken back: there is a run of the deployment machine whose operator is
  told that traffic has been cut over and afterwards that the deployment is being rolled back,
  without traffic ever having been open.\<close>

theorem phase_cutover_retracted:
  "\<exists>ins. map (\<lambda>e. (pe_phase e, pe_cutOver e))
       (drop 4 (bgd_phase_events ''s'' ''web'' 0 None ins)) =
     [(registering_green, False), (switching_traffic, True), (rolling_back, False),
      (phase_failed, False)] \<and>
   \<not> trafficOpenedToGreen (snd (fst (bgd_run 0 None ins)))"
proof -
  define ins where "ins =
    [(1 :: int, Ev (plain_event START_DEPLOYMENT)),
     (2, Ev ((plain_event DEPLOYMENT_SUCCESS)\<lparr>ev_containerId := Some ''green''\<rparr>)),
     (3, Ev ((plain_event CONTAINERS_RUNNING)\<lparr>ev_containerIpAddress := Some ''10.0.0.2''\<rparr>)),
     (4, Ev (plain_event LB_CONFIGURED)),
     (5, Ev (plain_event SERVERS_HEALTHY)),
     (6, Ev (plain_event FRONTEND_CONFIGURED)),
     (7, Ev (error_event TRAFFIC_ENABLE_FAILED ''no server'')),
     (8, Ev (plain_event ROLLBACK_GREEN_TRAFFIC_DISABLED)),
     (9, Ev (plain_event ROLLBACK_GREEN_CONFIG_REMOVED)),
     (10, Ev (plain_event ROLLBACK_GREEN_APP_STOPPED)),
     (11, Ev (plain_event ROLLBACK_GREEN_APP_REMOVED))]"
  have "map (\<lambda>e. (pe_phase e, pe_cutOver e)) (drop 4 (bgd_phase_events ''s'' ''web'' 0 None ins)) =
      [(registering_green, False), (switching_traffic, True), (rolling_back, False),
       (phase_failed, False)]"
    unfolding ins_def by code_simp
  moreover have "\<not> trafficOpenedToGreen (snd (fst (bgd_run 0 None ins)))"
    unfolding ins_def by code_simp
  ultimately show ?thesis by (intro exI [of _ ins] conjI)
qed

end
