(* ===== verification/CircuitBreaker.thy ===== *)
theory CircuitBreaker
  imports Prelude
begin

text \<open>
  The circuit breaker around external APIs, \<open>services/circuit-breaker.ts\<close>: the failure
  counter with its three states, the deduplication of validation calls, the mapping of errors
  and the redaction of log data. Times are epoch milliseconds; the time a synchronous method
  reads with \<open>Date.now()\<close> is its argument. A validation in flight is a promise, known by a
  number. Regular expressions are the library's, so an error matcher is a predicate and a token
  pattern a replacement function.
\<close>

section \<open>Options and state\<close>

datatype cb_circuit = cb_closed | cb_open | cb_half_open

record cb_circuit_state =
  cb_state :: cb_circuit
  consecutiveFailures :: int
  lastFailureTime :: "int option"
  lastSuccessTime :: "int option"
  nextRetryTime :: "int option"

record 'e cb_error_mapper =
  em_pattern :: "'e \<Rightarrow> bool"
  em_errorCode :: string
  em_connectivityStatus :: string
  em_isRetriable :: bool

record cb_parsed_error =
  pe_errorCode :: string
  pe_connectivityStatus :: string
  pe_isRetriable :: bool

record 'e cb_options =
  opt_failureThreshold :: "int option"
  opt_cooldownPeriodMs :: "int option"
  opt_dedupWindowMs :: "int option"
  opt_errorMappers :: "'e cb_error_mapper list option"
  opt_defaultErrorCode :: "string option"
  opt_tokenRedactPatterns :: "(string \<Rightarrow> string) list option"
  opt_sensitiveKeys :: "string list option"

record 'e breaker =
  failureThreshold :: int
  cooldownPeriodMs :: int
  dedupWindowMs :: int
  errorMappers :: "'e cb_error_mapper list"
  defaultErrorCode :: string
  tokenRedactPatterns :: "(string \<Rightarrow> string) list"
  sensitiveKeys :: "string list"
  circuitState :: cb_circuit_state
  pendingValidation :: "(nat \<times> int) option"

definition cb_initial :: cb_circuit_state where
  "cb_initial = \<lparr>cb_state = cb_closed, consecutiveFailures = 0, lastFailureTime = None,
     lastSuccessTime = None, nextRetryTime = None\<rparr>"

definition cb_new :: "'e cb_options \<Rightarrow> 'e breaker" where
  "cb_new o1 =
     \<lparr>failureThreshold = nullish (opt_failureThreshold o1) 5,
      cooldownPeriodMs = nullish (opt_cooldownPeriodMs o1) (5 * 60 * 1000),
      dedupWindowMs = nullish (opt_dedupWindowMs o1) 1000,
      errorMappers = nullish (opt_errorMappers o1) [],
      defaultErrorCode = nullish (opt_defaultErrorCode o1) ''API_ERROR'',
      tokenRedactPatterns = nullish (opt_tokenRedactPatterns o1) [],
      sensitiveKeys = nullish (opt_sensitiveKeys o1)
        [''token'', ''secret'', ''password'', ''key''],
      circuitState = cb_initial,
      pendingValidation = None\<rparr>"

section \<open>The circuit\<close>

definition cb_isOpen :: "int \<Rightarrow> 'e breaker \<Rightarrow> bool \<times> 'e breaker" where
  "cb_isOpen now b =
     (let cs = circuitState b in
      if cb_state cs = cb_open then
        (case nextRetryTime cs of
           Some t \<Rightarrow>
             if now \<ge> t then (False, b\<lparr>circuitState := cs\<lparr>cb_state := cb_half_open\<rparr>\<rparr>)
             else (True, b)
         | None \<Rightarrow> (True, b))
      else (False, b))"

definition cb_recordSuccess :: "int \<Rightarrow> 'e breaker \<Rightarrow> 'e breaker" where
  "cb_recordSuccess now b = b\<lparr>circuitState := cb_initial\<lparr>lastSuccessTime := Some now\<rparr>\<rparr>"

definition cb_recordFailure :: "int \<Rightarrow> 'e breaker \<Rightarrow> 'e breaker" where
  "cb_recordFailure now b =
     (let cs = (circuitState b)
            \<lparr>consecutiveFailures := consecutiveFailures (circuitState b) + 1,
             lastFailureTime := Some now\<rparr>
      in if consecutiveFailures cs \<ge> failureThreshold b
         then b\<lparr>circuitState := cs\<lparr>cb_state := cb_open,
                nextRetryTime := Some (now + cooldownPeriodMs b)\<rparr>\<rparr>
         else b\<lparr>circuitState := cs\<rparr>)"

definition cb_reset :: "'e breaker \<Rightarrow> 'e breaker" where
  "cb_reset b = b\<lparr>circuitState := cb_initial\<rparr>"

section \<open>Error parsing\<close>

fun cb_match :: "'e cb_error_mapper list \<Rightarrow> 'e \<Rightarrow> cb_parsed_error option" where
  "cb_match [] e = None"
| "cb_match (m # ms) e =
     (if em_pattern m e
      then Some \<lparr>pe_errorCode = em_errorCode m, pe_connectivityStatus = em_connectivityStatus m,
                 pe_isRetriable = em_isRetriable m\<rparr>
      else cb_match ms e)"

definition cb_parseError :: "'e breaker \<Rightarrow> 'e \<Rightarrow> cb_parsed_error" where
  "cb_parseError b e =
     nullish (cb_match (errorMappers b) e)
       \<lparr>pe_errorCode = defaultErrorCode b, pe_connectivityStatus = ''failed'',
        pe_isRetriable = True\<rparr>"

section \<open>Redaction\<close>

text \<open>\<open>String.toLowerCase\<close> on ASCII letters.\<close>

definition to_lower :: "string \<Rightarrow> string" where
  "to_lower s = map (\<lambda>c. let n = of_char c :: nat in
     if 65 \<le> n \<and> n \<le> 90 then char_of (n + 32) else c) s"

definition cb_sensitive :: "string list \<Rightarrow> string \<Rightarrow> bool" where
  "cb_sensitive sens k = list_ex (\<lambda>s. includes_str (to_lower k) s) sens"

definition cb_redact_string :: "(string \<Rightarrow> string) list \<Rightarrow> string \<Rightarrow> string" where
  "cb_redact_string ps s = fold (\<lambda>p r. p r) ps s"

text \<open>
  \<open>typeof v === "object"\<close> holds of objects, arrays and \<open>null\<close>; spreading an array into an
  object makes its indices keys.
\<close>

fun cb_is_object :: "json \<Rightarrow> bool" where
  "cb_is_object JNull = True"
| "cb_is_object (JArr _) = True"
| "cb_is_object (JObj _) = True"
| "cb_is_object _ = False"

fun cb_redact :: "'e breaker \<Rightarrow> json \<Rightarrow> json"
  and cb_redact_entries :: "'e breaker \<Rightarrow> (string \<times> json) list \<Rightarrow> (string \<times> json) list"
  and cb_redact_items :: "'e breaker \<Rightarrow> nat \<Rightarrow> json list \<Rightarrow> (string \<times> json) list" where
  "cb_redact b (JStr s) = JStr (cb_redact_string (tokenRedactPatterns b) s)"
| "cb_redact b (JObj m) = JObj (cb_redact_entries b m)"
| "cb_redact b (JArr xs) = JObj (cb_redact_items b 0 xs)"
| "cb_redact b JNull = JNull"
| "cb_redact b (JBool t) = JBool t"
| "cb_redact b (JNum n) = JNum n"
| "cb_redact_entries b [] = []"
| "cb_redact_entries b ((k, v) # m) =
     (k, if cb_sensitive (sensitiveKeys b) k then JStr ''[REDACTED]''
         else if cb_is_object v then cb_redact b v else v) # cb_redact_entries b m"
| "cb_redact_items b i [] = []"
| "cb_redact_items b i (v # xs) =
     (string_of_nat i,
        if cb_sensitive (sensitiveKeys b) (string_of_nat i) then JStr ''[REDACTED]''
        else if cb_is_object v then cb_redact b v else v) # cb_redact_items b (Suc i) xs"

section \<open>Validation with deduplication\<close>

text \<open>
  What \<open>validateWithDedup\<close> does for a caller: share the pending promise, answer that the
  circuit is open, or call the validation function, whose promise gets the number given.
\<close>

record cb_result =
  isValid :: bool
  message :: string
  errorCode :: string
  responseTimeMs :: int

datatype cb_outcome = Joined nat | Blocked cb_result | Started nat

definition cb_seconds_up :: "int \<Rightarrow> int" where
  "cb_seconds_up ms = - ((- ms) div 1000)"

definition cb_open_result :: "int \<Rightarrow> 'e breaker \<Rightarrow> cb_result" where
  "cb_open_result now b =
     \<lparr>isValid = False,
      message = ''Circuit breaker open after '' @
        string_of_int (consecutiveFailures (circuitState b)) @
        '' consecutive failures. Retry in '' @
        string_of_int (cb_seconds_up
          (case nextRetryTime (circuitState b) of Some t \<Rightarrow> t - now | None \<Rightarrow> 0)) @ '' seconds.'',
      errorCode = ''CIRCUIT_BREAKER_OPEN'',
      responseTimeMs = 0\<rparr>"

definition cb_validateWithDedup :: "int \<Rightarrow> nat \<Rightarrow> 'e breaker \<Rightarrow> cb_outcome \<times> 'e breaker" where
  "cb_validateWithDedup now pid b =
     (let go =
        (let (opened, b1) = cb_isOpen now b in
         if opened then (Blocked (cb_open_result now b1), b1)
         else (Started pid, b1\<lparr>pendingValidation := Some (pid, now)\<rparr>))
      in case pendingValidation b of
           Some (p, t) \<Rightarrow> if now - t < dedupWindowMs b then (Joined p, b) else go
         | None \<Rightarrow> go)"

text \<open>The \<open>finally\<close> handler of a settled validation promise, whichever promise it is of.\<close>

definition cb_settled :: "nat \<Rightarrow> 'e breaker \<Rightarrow> 'e breaker" where
  "cb_settled p b = b\<lparr>pendingValidation := None\<rparr>"

section \<open>Runs\<close>

text \<open>What happens to a breaker over time.\<close>

datatype cb_event =
    Validate int nat | Success int | Failure int | Settled nat | Query int | Reset

fun cb_step :: "cb_event \<Rightarrow> 'e breaker \<Rightarrow> cb_outcome list \<times> 'e breaker" where
  "cb_step (Validate now pid) b = (let (r, b') = cb_validateWithDedup now pid b in ([r], b'))"
| "cb_step (Success now) b = ([], cb_recordSuccess now b)"
| "cb_step (Failure now) b = ([], cb_recordFailure now b)"
| "cb_step (Settled p) b = ([], cb_settled p b)"
| "cb_step (Query now) b = ([], snd (cb_isOpen now b))"
| "cb_step Reset b = ([], cb_reset b)"

fun cb_run :: "cb_event list \<Rightarrow> 'e breaker \<Rightarrow> cb_outcome list \<times> 'e breaker" where
  "cb_run [] b = ([], b)"
| "cb_run (e # es) b =
     (let (r, b1) = cb_step e b; (rs, b2) = cb_run es b1 in (r @ rs, b2))"

section \<open>Lemmas\<close>

lemmas cb_ops =
  cb_isOpen_def cb_recordSuccess_def cb_recordFailure_def cb_reset_def cb_initial_def
  cb_validateWithDedup_def cb_settled_def Let_def

text \<open>
  The counter tells the state: below the threshold exactly when closed; a circuit that is open
  or half-open has a retry time.
\<close>

definition cb_inv :: "'e breaker \<Rightarrow> bool" where
  "cb_inv b \<longleftrightarrow>
     (cb_state (circuitState b) = cb_closed \<longleftrightarrow>
        consecutiveFailures (circuitState b) < failureThreshold b) \<and>
     (cb_state (circuitState b) \<noteq> cb_closed \<longrightarrow> nextRetryTime (circuitState b) \<noteq> None)"

lemma cb_step_inv: "0 < failureThreshold b \<Longrightarrow> cb_inv b \<Longrightarrow> cb_inv (snd (cb_step e b))"
  by (cases e)
     (auto simp: cb_inv_def cb_ops split: option.splits prod.splits if_splits)

lemma cb_step_config:
  "failureThreshold (snd (cb_step e b)) = failureThreshold b"
  "cooldownPeriodMs (snd (cb_step e b)) = cooldownPeriodMs b"
  "dedupWindowMs (snd (cb_step e b)) = dedupWindowMs b"
  by (cases e; auto simp: cb_ops split: option.splits prod.splits if_splits)+

lemma cb_run_inv: "0 < failureThreshold b \<Longrightarrow> cb_inv b \<Longrightarrow> cb_inv (snd (cb_run es b))"
proof (induction es arbitrary: b)
  case (Cons e es)
  then show ?case
    using cb_step_inv [of b e] by (simp add: case_prod_beta Let_def cb_step_config)
qed simp

lemma cb_run_config:
  "failureThreshold (snd (cb_run es b)) = failureThreshold b"
  "cooldownPeriodMs (snd (cb_run es b)) = cooldownPeriodMs b"
  by (induction es arbitrary: b) (simp_all add: case_prod_beta Let_def cb_step_config)

lemma cb_inv_new: "0 < failureThreshold (cb_new opt) \<Longrightarrow> cb_inv (cb_new opt)"
  by (simp add: cb_inv_def cb_new_def cb_initial_def)

text \<open>An open circuit that may not be retried before \<open>T\<close>.\<close>

definition cb_shut :: "int \<Rightarrow> 'e breaker \<Rightarrow> bool" where
  "cb_shut T b \<longleftrightarrow> cb_state (circuitState b) = cb_open \<and>
     (case nextRetryTime (circuitState b) of Some t \<Rightarrow> T \<le> t | None \<Rightarrow> False) \<and>
     consecutiveFailures (circuitState b) \<ge> failureThreshold b"

text \<open>Events that leave such a circuit alone: nothing is asked after \<open>T\<close>, nothing succeeds.\<close>

fun cb_before :: "int \<Rightarrow> int \<Rightarrow> cb_event \<Rightarrow> bool" where
  "cb_before cool T (Validate now _) = (now < T)"
| "cb_before cool T (Query now) = (now < T)"
| "cb_before cool T (Failure now) = (T \<le> now + cool)"
| "cb_before cool T (Settled _) = True"
| "cb_before cool T _ = False"

lemma cb_shut_step:
  assumes "cb_shut T b" and "cb_before (cooldownPeriodMs b) T e"
  shows "cb_shut T (snd (cb_step e b)) \<and> (\<forall>p. Started p \<notin> set (fst (cb_step e b)))"
  using assms
  by (cases e) (auto simp: cb_shut_def cb_ops split: option.splits prod.splits if_splits)

lemma cb_shut_run:
  "cb_shut T b \<Longrightarrow> list_all (cb_before (cooldownPeriodMs b) T) es \<Longrightarrow>
   Started p \<notin> set (fst (cb_run es b))"
proof (induction es arbitrary: b)
  case (Cons e es)
  from Cons.prems have e: "cb_shut T (snd (cb_step e b))" "Started p \<notin> set (fst (cb_step e b))"
    using cb_shut_step [of T b e] by auto
  with Cons show ?case by (simp add: case_prod_beta Let_def cb_step_config)
qed simp

lemma cb_failures_state:
  "circuitState b = cb_initial \<Longrightarrow> 0 < failureThreshold b \<Longrightarrow>
   cb_state (circuitState (fold cb_recordFailure ts b)) =
     (if int (length ts) \<ge> failureThreshold b then cb_open else cb_closed) \<and>
   consecutiveFailures (circuitState (fold cb_recordFailure ts b)) = int (length ts) \<and>
   failureThreshold (fold cb_recordFailure ts b) = failureThreshold b"
proof (induction ts rule: rev_induct)
  case (snoc t ts)
  then show ?case by (auto simp: cb_recordFailure_def Let_def)
qed (simp add: cb_initial_def)

text \<open>What redacted data looks like: under a sensitive key there is only the placeholder.\<close>

fun cb_clean :: "string list \<Rightarrow> json \<Rightarrow> bool" where
  "cb_clean sens (JObj m) =
     (\<forall>(k, v) \<in> set m. if cb_sensitive sens k then v = JStr ''[REDACTED]'' else cb_clean sens v)"
| "cb_clean sens (JArr xs) = False"
| "cb_clean sens _ = True"

lemma cb_clean_atom: "\<not> cb_is_object v \<Longrightarrow> cb_clean sens v"
  by (cases v) auto

lemma cb_redact_clean_all:
  fixes b :: "'e breaker"
  shows "cb_clean (sensitiveKeys b) (cb_redact b v)"
    and "cb_clean (sensitiveKeys b) (JObj (cb_redact_entries b m))"
    and "cb_clean (sensitiveKeys b) (JObj (cb_redact_items b i xs))"
  by (induction b v and b m and b i xs rule: cb_redact_cb_redact_entries_cb_redact_items.induct)
     (auto intro: cb_clean_atom)

lemma cb_redact_entries_keys: "map fst (cb_redact_entries b m) = map fst m"
  by (induction m) auto

section \<open>Properties\<close>

text \<open>Over any history of a breaker with a positive threshold, the circuit is closed exactly
  while fewer than threshold failures have come in a row, and a circuit that is not closed has
  a retry time; so a failure that arrives when it is half-open always opens it again for a whole
  cooldown, whatever the failure.\<close>

theorem cb_counter_decides:
  assumes "0 < failureThreshold (cb_new opt)"
  shows "let b = snd (cb_run es (cb_new opt)) in
    (cb_state (circuitState b) = cb_closed \<longleftrightarrow>
       consecutiveFailures (circuitState b) < failureThreshold b) \<and>
    (cb_state (circuitState b) = cb_half_open \<longrightarrow>
       cb_state (circuitState (cb_recordFailure now b)) = cb_open \<and>
       nextRetryTime (circuitState (cb_recordFailure now b)) = Some (now + cooldownPeriodMs b))"
  using cb_run_inv [OF assms cb_inv_new [OF assms], of es]
  by (auto simp: cb_inv_def cb_recordFailure_def Let_def)

definition cb_sample :: "unit breaker" where
  "cb_sample = cb_new \<lparr>opt_failureThreshold = Some 2, opt_cooldownPeriodMs = Some 1000,
     opt_dedupWindowMs = None, opt_errorMappers = None, opt_defaultErrorCode = None,
     opt_tokenRedactPatterns = None, opt_sensitiveKeys = None\<rparr>"

lemma cb_sample_threshold: "0 < failureThreshold cb_sample"
  by (simp add: cb_sample_def cb_new_def)

theorem cb_counter_decides_witness:
  "cb_state (circuitState (cb_recordFailure 2000
     (snd (cb_run [Failure 0, Failure 5, Query 1500] cb_sample)))) = cb_open"
proof -
  have "cb_state (circuitState (snd (cb_run [Failure 0, Failure 5, Query 1500] cb_sample))) =
      cb_half_open"
    by code_simp
  then show ?thesis
    using cb_counter_decides [OF cb_sample_threshold [unfolded cb_sample_def],
        of "[Failure 0, Failure 5, Query 1500]" 2000]
    by (simp add: Let_def cb_sample_def)
qed

text \<open>While a circuit is open, no validation is started: from a failure that left it open at
  time t, any sequence of validations and queries before t plus the cooldown, further failures
  and settling calls, without a success or a reset, calls the validation function not once.\<close>

theorem cb_open_starts_nothing:
  assumes "failureThreshold b \<le> consecutiveFailures (circuitState b) + 1"
    and "list_all (cb_before (cooldownPeriodMs b) (t + cooldownPeriodMs b)) es"
  shows "Started p \<notin> set (fst (cb_run es (cb_recordFailure t b)))"
proof (rule cb_shut_run)
  show "cb_shut (t + cooldownPeriodMs b) (cb_recordFailure t b)"
    using assms(1) by (simp add: cb_shut_def cb_recordFailure_def Let_def)
  show "list_all (cb_before (cooldownPeriodMs (cb_recordFailure t b)) (t + cooldownPeriodMs b)) es"
    using assms(2) by (simp add: cb_recordFailure_def Let_def)
qed

theorem cb_open_starts_nothing_witness:
  "Started 7 \<notin> set (fst (cb_run [Validate 600 7, Failure 700, Validate 1004 7]
     (cb_recordFailure 5 (cb_recordFailure 0 cb_sample))))"
  by (rule cb_open_starts_nothing) code_simp+

text \<open>From the closed, reset state, failures in a row open the circuit with the threshold-th
  one and not before.\<close>

theorem cb_opens_at_threshold:
  assumes "0 < failureThreshold b"
  shows "cb_state (circuitState (fold cb_recordFailure ts (cb_reset b))) =
    (if int (length ts) \<ge> failureThreshold b then cb_open else cb_closed)"
  using cb_failures_state [of "cb_reset b" ts] assms by (simp add: cb_reset_def)

theorem cb_opens_at_threshold_witness:
  "cb_state (circuitState (fold cb_recordFailure [1, 2] (cb_reset cb_sample))) = cb_open"
  using cb_opens_at_threshold [OF cb_sample_threshold, of "[1, 2]"]
  by (simp add: cb_sample_def cb_new_def)

text \<open>Redaction leaves nothing under a sensitive key: at every depth of the result, a key that
  contains one of the sensitive names (in any case) holds the placeholder and nothing else. The
  result never holds an array: an array in the data comes back as an object with its indices as
  keys.\<close>

theorem cb_redact_clean: "cb_clean (sensitiveKeys b) (cb_redact b v)"
  by (rule cb_redact_clean_all(1))

text \<open>
  The settling of an older validation clears the newer one that has replaced it: a third caller
  within the window of the second then starts a call of its own.
\<close>

lemma cb_dedup_lost:
  "fst (cb_run [Validate 0 1, Validate 1500 2, Settled 1, Validate 1600 3] cb_sample) =
     [Started 1, Started 2, Started 3]"
  by code_simp

end
