(* ===== verification/OperationLock.thy ===== *)
theory OperationLock
  imports Prelude
begin

text \<open>
  The in-process lock that keeps apply, update, stop and destroy of one stack apart,
  \<open>stacks/operation-lock.ts\<close>: a map from stack ids to the time of acquisition, an entry of
  which is stale after a time to live. The contract its callers rely on is the locale
  \<open>timed_lock\<close>; the lock of the source is its interpretation. Times are what \<open>Date.now()\<close>
  returned to the call.
\<close>

section \<open>The lock\<close>

definition STACK_OPERATION_LOCK_TTL_MS :: int where
  "STACK_OPERATION_LOCK_TTL_MS = 30 * 60 * 1000"

type_synonym op_lock = "(string \<times> int) list"

definition lock_isStale :: "int \<Rightarrow> int \<Rightarrow> int \<Rightarrow> bool" where
  "lock_isStale ttl now acquiredAt = (now - acquiredAt \<ge> ttl)"

definition lock_has :: "int \<Rightarrow> int \<Rightarrow> string \<Rightarrow> op_lock \<Rightarrow> bool \<times> op_lock" where
  "lock_has ttl now stackId m =
     (case om_get m stackId of
        None \<Rightarrow> (False, m)
      | Some t \<Rightarrow> if lock_isStale ttl now t then (False, om_delete stackId m) else (True, m))"

definition lock_tryAcquire :: "int \<Rightarrow> int \<Rightarrow> string \<Rightarrow> op_lock \<Rightarrow> bool \<times> op_lock" where
  "lock_tryAcquire ttl now stackId m =
     (case om_get m stackId of
        None \<Rightarrow> (True, om_set stackId now m)
      | Some t \<Rightarrow>
          if lock_isStale ttl now t then (True, om_set stackId now m) else (False, m))"

definition lock_release :: "string \<Rightarrow> op_lock \<Rightarrow> op_lock" where
  "lock_release stackId m = om_delete stackId m"

section \<open>Runs\<close>

datatype lock_op = LHas int string | LTryAcquire int string | LRelease string

fun lock_key :: "lock_op \<Rightarrow> string" where
  "lock_key (LHas _ k) = k"
| "lock_key (LTryAcquire _ k) = k"
| "lock_key (LRelease k) = k"

text \<open>A sequence of calls by any callers, with the answers of \<open>has\<close> and \<open>tryAcquire\<close>.\<close>

fun lock_run ::
  "(int \<Rightarrow> string \<Rightarrow> 's \<Rightarrow> bool \<times> 's) \<Rightarrow> (int \<Rightarrow> string \<Rightarrow> 's \<Rightarrow> bool \<times> 's) \<Rightarrow> (string \<Rightarrow> 's \<Rightarrow> 's) \<Rightarrow>
   lock_op list \<Rightarrow> 's \<Rightarrow> (lock_op \<times> bool) list \<times> 's" where
  "lock_run has_op acq rel [] s = ([], s)"
| "lock_run has_op acq rel (LHas now k # cs) s =
     (let (r, s1) = has_op now k s; (rs, s2) = lock_run has_op acq rel cs s1
      in ((LHas now k, r) # rs, s2))"
| "lock_run has_op acq rel (LTryAcquire now k # cs) s =
     (let (r, s1) = acq now k s; (rs, s2) = lock_run has_op acq rel cs s1
      in ((LTryAcquire now k, r) # rs, s2))"
| "lock_run has_op acq rel (LRelease k # cs) s = lock_run has_op acq rel cs (rel k s)"

definition op_lock_run :: "int \<Rightarrow> lock_op list \<Rightarrow> op_lock \<Rightarrow> (lock_op \<times> bool) list \<times> op_lock" where
  "op_lock_run ttl = lock_run (lock_has ttl) (lock_tryAcquire ttl) lock_release"

text \<open>The calls of a period in which the holder of \<open>k\<close> neither releases nor times out.\<close>

fun lock_during :: "int \<Rightarrow> int \<Rightarrow> string \<Rightarrow> lock_op \<Rightarrow> bool" where
  "lock_during t ttl k (LHas now k') = (k' = k \<longrightarrow> now < t + ttl)"
| "lock_during t ttl k (LTryAcquire now k') = (k' = k \<longrightarrow> now < t + ttl)"
| "lock_during t ttl k (LRelease k') = (k' \<noteq> k)"

text \<open>What such a period's answers about \<open>k\<close> are: held, and not to be had.\<close>

fun lock_refused :: "string \<Rightarrow> lock_op \<times> bool \<Rightarrow> bool" where
  "lock_refused k (LHas now k', r) = (k' = k \<longrightarrow> r)"
| "lock_refused k (LTryAcquire now k', r) = (k' = k \<longrightarrow> \<not> r)"
| "lock_refused k (LRelease k', r) = True"

section \<open>The contract\<close>

locale timed_lock =
  fixes ttl :: int
    and since :: "'s \<Rightarrow> string \<Rightarrow> int option"
    and has_op acquire :: "int \<Rightarrow> string \<Rightarrow> 's \<Rightarrow> bool \<times> 's"
    and release :: "string \<Rightarrow> 's \<Rightarrow> 's"
  assumes has_live: "since s k = Some t \<Longrightarrow> now < t + ttl \<Longrightarrow> has_op now k s = (True, s)"
    and has_other: "k' \<noteq> k \<Longrightarrow> since (snd (has_op now k' s)) k = since s k"
    and acquire_live: "since s k = Some t \<Longrightarrow> now < t + ttl \<Longrightarrow> acquire now k s = (False, s)"
    and acquire_free: "since s k = None \<or> (\<exists>t. since s k = Some t \<and> t + ttl \<le> now) \<Longrightarrow>
      fst (acquire now k s)"
    and acquire_sets: "fst (acquire now k s) \<Longrightarrow> since (snd (acquire now k s)) k = Some now"
    and acquire_other: "k' \<noteq> k \<Longrightarrow> since (snd (acquire now k' s)) k = since s k"
    and release_frees: "since (release k s) k = None"
    and release_other: "k' \<noteq> k \<Longrightarrow> since (release k' s) k = since s k"
begin

lemma held_refuses:
  "since s k = Some t \<Longrightarrow> list_all (lock_during t ttl k) cs \<Longrightarrow>
   list_all (lock_refused k) (fst (lock_run has_op acquire release cs s)) \<and>
   since (snd (lock_run has_op acquire release cs s)) k = Some t"
proof (induction cs arbitrary: s)
  case (Cons c cs)
  show ?case
  proof (cases c)
    case (LHas now k')
    show ?thesis
    proof (cases "k' = k")
      case True
      with Cons LHas has_live [of s k t now] show ?thesis by (simp add: case_prod_beta Let_def)
    next
      case False
      with Cons LHas has_other [OF False, of now s] show ?thesis by (simp add: case_prod_beta Let_def)
    qed
  next
    case (LTryAcquire now k')
    show ?thesis
    proof (cases "k' = k")
      case True
      with Cons LTryAcquire acquire_live [of s k t now] show ?thesis
        by (simp add: case_prod_beta Let_def)
    next
      case False
      with Cons LTryAcquire acquire_other [OF False, of now s] show ?thesis
        by (simp add: case_prod_beta Let_def)
    qed
  next
    case (LRelease k')
    with Cons release_other [of k' k s] show ?thesis by simp
  qed
qed simp

lemma acquired_excludes:
  "fst (acquire t k s) \<Longrightarrow> list_all (lock_during t ttl k) cs \<Longrightarrow>
   list_all (lock_refused k) (fst (lock_run has_op acquire release cs (snd (acquire t k s))))"
  using held_refuses [OF acquire_sets] by blast

end

interpretation op_lock: timed_lock ttl map_of "lock_has ttl" "lock_tryAcquire ttl" lock_release
  for ttl
  by unfold_locales
     (auto simp: lock_has_def lock_tryAcquire_def lock_release_def lock_isStale_def
       split: option.splits)

section \<open>Properties\<close>

text \<open>C38: A stack operation excludes the others: once tryAcquire has succeeded for a stack, then in
  any sequence of calls, by anyone and on any stacks, until the lock is released or its time to
  live is over, every tryAcquire of that stack fails and has reports it held.\<close>

theorem op_lock_excludes:
  assumes "fst (lock_tryAcquire ttl t k m)" and "list_all (lock_during t ttl k) cs"
  shows "list_all (lock_refused k) (fst (op_lock_run ttl cs (snd (lock_tryAcquire ttl t k m))))"
  unfolding op_lock_run_def by (rule op_lock.acquired_excludes [OF assms])

theorem op_lock_excludes_witness:
  "fst (op_lock_run 100 [LTryAcquire 99 ''s'', LHas 50 ''s''] (snd (lock_tryAcquire 100 0 ''s'' []))) =
     [(LTryAcquire 99 ''s'', False), (LHas 50 ''s'', True)] \<and>
   list_all (lock_refused ''s'') (fst (op_lock_run 100 [LTryAcquire 99 ''s'', LRelease ''r'']
     (snd (lock_tryAcquire 100 0 ''s'' []))))"
proof
  show "fst (op_lock_run 100 [LTryAcquire 99 ''s'', LHas 50 ''s''] (snd (lock_tryAcquire 100 0 ''s'' []))) =
      [(LTryAcquire 99 ''s'', False), (LHas 50 ''s'', True)]"
    by code_simp
  show "list_all (lock_refused ''s'') (fst (op_lock_run 100 [LTryAcquire 99 ''s'', LRelease ''r'']
      (snd (lock_tryAcquire 100 0 ''s'' []))))"
    by (rule op_lock_excludes) code_simp+
qed

text \<open>A leaked lock blocks nobody for longer than its time to live: in every state of the lock,
  a stack whose entry is that old, or that has none, can be acquired, and has denies it is
  held.\<close>

theorem op_lock_never_wedged:
  assumes "case map_of m k of None \<Rightarrow> True | Some t \<Rightarrow> t + ttl \<le> now"
  shows "fst (lock_tryAcquire ttl now k m) \<and> \<not> fst (lock_has ttl now k m) \<and>
    map_of (snd (lock_tryAcquire ttl now k m)) k = Some now"
  using assms
  by (auto simp: lock_tryAcquire_def lock_has_def lock_isStale_def split: option.splits)

theorem op_lock_never_wedged_witness: "fst (lock_tryAcquire 100 100 ''s'' [(''s'', 0)])"
proof -
  have "case map_of [(''s'', 0 :: int)] ''s'' of None \<Rightarrow> True | Some t \<Rightarrow> t + 100 \<le> 100" by simp
  from op_lock_never_wedged [OF this] show ?thesis by blast
qed

text \<open>
  A release names the stack, not the holder: an operation that outlives its lock and releases at
  last frees the lock of the operation that has stolen it, and a third one gets in beside it.
\<close>

lemma op_lock_late_release:
  "0 < ttl \<Longrightarrow>
   fst (op_lock_run ttl [LTryAcquire 0 k, LTryAcquire ttl k, LRelease k, LTryAcquire ttl k] []) =
     [(LTryAcquire 0 k, True), (LTryAcquire ttl k, True), (LTryAcquire ttl k, True)]"
  by (simp add: op_lock_run_def lock_tryAcquire_def lock_release_def lock_isStale_def
      om_delete_def)

end
