(* ===== verification/InMemoryQueue.thy ===== *)
theory InMemoryQueue
  imports Prelude "HOL-Library.Multiset"
begin

text \<open>
  The job queue of \<open>lib/in-memory-queue.ts\<close>. Jobs are objects shared by the lists, the timers
  and the callbacks that hold them, so they live in a store under their id (\<open>randomUUID\<close>: an id
  that is not in use yet) and everything else holds ids. \<open>setImmediate\<close> callbacks are a list run
  in order, timers a list any of which may fire, and a processor call in flight is an id in
  \<open>q_running\<close>, settled by the outside world with a result or an error. Random jitter is
  \<open>k / 2 ^ 53\<close> for the \<open>k\<close> behind \<open>Math.random()\<close>, with the product taken exactly.
\<close>

section \<open>Data\<close>

datatype backoff_type = bo_exponential | bo_fixed

record backoff =
  bo_type :: backoff_type
  bo_delay :: int

record job_options =
  jo_attempts :: "int option"
  jo_backoff :: "backoff option"
  jo_delay :: "int option"
  jo_priority :: "int option"
  jo_removeOnComplete :: "bool option"
  jo_removeOnFail :: "bool option"

record default_job_options =
  dj_attempts :: int
  dj_backoff :: backoff
  dj_removeOnComplete :: int
  dj_removeOnFail :: int

datatype job_status = js_pending | js_active | js_completed | js_failed | js_stalled

record job =
  job_name :: string
  job_data :: json
  job_opts :: job_options
  job_attempts :: int
  maxAttempts :: int
  job_state :: job_status
  job_progress :: int
  returnValue :: "json option"
  failedReason :: "string option"
  createdAt :: int
  processedAt :: "int option"
  completedAt :: "int option"
  failedAt :: "int option"

text \<open>A timer pushes its job at the end (a delayed job) or at the front (a retry).\<close>

datatype q_timer = DelayedPush string | RetryPush string

datatype q_callback = ProcessNext | ExecuteJob string

datatype q_emitted = EmitCompleted string | EmitFailed string | EmitProgress string int

record queue =
  q_concurrency :: int
  q_defaults :: default_job_options
  q_jobs :: "string \<Rightarrow> job option"
  q_pending :: "string list"
  q_active :: "string list"
  q_completed :: "string list"
  q_failed :: "string list"
  q_processors :: "string list"
  q_isClosed :: bool
  q_timers :: "q_timer list"
  q_immediates :: "q_callback list"
  q_running :: "string list"
  q_emits :: "q_emitted list"

type_synonym 'a q_result = "string + 'a"

text \<open>The constructor: \<open>options.concurrency || 1\<close> and the defaults overridden by the options.\<close>

definition q_new ::
  "int option \<Rightarrow> int option \<Rightarrow> backoff option \<Rightarrow> int option \<Rightarrow> int option \<Rightarrow> queue" where
  "q_new conc att bo keepC keepF =
     \<lparr>q_concurrency = or_num conc 1,
      q_defaults = \<lparr>dj_attempts = nullish att 3,
        dj_backoff = nullish bo \<lparr>bo_type = bo_exponential, bo_delay = 30000\<rparr>,
        dj_removeOnComplete = nullish keepC 10, dj_removeOnFail = nullish keepF 50\<rparr>,
      q_jobs = (\<lambda>_. None), q_pending = [], q_active = [], q_completed = [], q_failed = [],
      q_processors = [], q_isClosed = False, q_timers = [], q_immediates = [], q_running = [],
      q_emits = []\<rparr>"

section \<open>Operations\<close>

definition q_priority :: "queue \<Rightarrow> string \<Rightarrow> int" where
  "q_priority q i =
     (case q_jobs q i of None \<Rightarrow> 0 | Some j \<Rightarrow> or_num (jo_priority (job_opts j)) 0)"

definition q_update :: "string \<Rightarrow> (job \<Rightarrow> job) \<Rightarrow> queue \<Rightarrow> queue" where
  "q_update i f q = q\<lparr>q_jobs := (q_jobs q)(i := map_option f (q_jobs q i))\<rparr>"

definition q_later :: "q_callback \<Rightarrow> queue \<Rightarrow> queue" where
  "q_later cb q = q\<lparr>q_immediates := q_immediates q @ [cb]\<rparr>"

definition q_make_job :: "int \<Rightarrow> queue \<Rightarrow> string \<Rightarrow> json \<Rightarrow> job_options \<Rightarrow> job" where
  "q_make_job now q nm d opts =
     \<lparr>job_name = nm, job_data = d,
      job_opts = \<lparr>jo_attempts = Some (nullish (jo_attempts opts) (dj_attempts (q_defaults q))),
        jo_backoff = Some (nullish (jo_backoff opts) (dj_backoff (q_defaults q))),
        jo_delay = jo_delay opts, jo_priority = Some (nullish (jo_priority opts) 0),
        jo_removeOnComplete = jo_removeOnComplete opts,
        jo_removeOnFail = jo_removeOnFail opts\<rparr>,
      job_attempts = 0,
      maxAttempts = nullish (jo_attempts opts) (dj_attempts (q_defaults q)),
      job_state = js_pending, job_progress = 0, returnValue = None, failedReason = None,
      createdAt = now, processedAt = None, completedAt = None, failedAt = None\<rparr>"

definition q_add ::
  "int \<Rightarrow> string \<Rightarrow> string \<Rightarrow> json \<Rightarrow> job_options \<Rightarrow> queue \<Rightarrow> queue q_result" where
  "q_add now i nm d opts q =
     (if q_isClosed q then Inl ''Queue is closed''
      else
        (let q1 = q\<lparr>q_jobs := (q_jobs q)(i \<mapsto> q_make_job now q nm d opts)\<rparr>
         in if or_num (jo_delay opts) 0 > 0
            then Inr (q1\<lparr>q_timers := q_timers q1 @ [DelayedPush i]\<rparr>)
            else Inr (q_later ProcessNext
                   (q1\<lparr>q_pending := sort_key (\<lambda>k. - q_priority q1 k) (q_pending q1 @ [i])\<rparr>))))"

definition q_process :: "string \<Rightarrow> queue \<Rightarrow> queue" where
  "q_process nm q =
     q_later ProcessNext (q\<lparr>q_processors := List.insert nm (q_processors q)\<rparr>)"

text \<open>The loop of \<open>processNext\<close>: what is left pending, what is active, what was started.\<close>

fun q_fill :: "int \<Rightarrow> string list \<Rightarrow> string list \<Rightarrow> string list \<times> string list \<times> string list" where
  "q_fill conc [] act = ([], act, [])"
| "q_fill conc (i # pend) act =
     (if int (length act) < conc
      then (let (p, a, st) = q_fill conc pend (if i \<in> set act then act else act @ [i]) in (p, a, i # st))
      else (i # pend, act, []))"

definition q_processNext :: "queue \<Rightarrow> queue" where
  "q_processNext q =
     (if q_isClosed q then q
      else
        (let (p, a, st) = q_fill (q_concurrency q) (q_pending q) (q_active q)
         in q\<lparr>q_pending := p, q_active := a,
              q_immediates := q_immediates q @ map ExecuteJob st\<rparr>))"

text \<open>\<open>maintainHistory\<close>: the loop drops the oldest while there are more than the limit.\<close>

fun q_trim :: "int \<Rightarrow> string list \<Rightarrow> string list" where
  "q_trim limit [] = []"
| "q_trim limit (x # xs) = (if int (length (x # xs)) > limit then q_trim limit xs else x # xs)"

definition q_moveJobToCompleted :: "int \<Rightarrow> string \<Rightarrow> json \<Rightarrow> queue \<Rightarrow> queue" where
  "q_moveJobToCompleted now i r q =
     (let q1 = q_update i (\<lambda>j. j\<lparr>job_state := js_completed, completedAt := Some now,
                 returnValue := Some r, job_progress := 100\<rparr>) q
      in q_later ProcessNext
           (q1\<lparr>q_active := remove1 i (q_active q1),
               q_completed := q_trim (dj_removeOnComplete (q_defaults q1)) (q_completed q1 @ [i]),
               q_emits := q_emits q1 @ [EmitCompleted i]\<rparr>))"

definition q_moveJobToFailed :: "int \<Rightarrow> string \<Rightarrow> string \<Rightarrow> queue \<Rightarrow> queue" where
  "q_moveJobToFailed now i msg q =
     (let q1 = q_update i (\<lambda>j. j\<lparr>job_state := js_failed, failedAt := Some now,
                 failedReason := Some msg\<rparr>) q
      in q_later ProcessNext
           (q1\<lparr>q_active := remove1 i (q_active q1),
               q_failed := q_trim (dj_removeOnFail (q_defaults q1)) (q_failed q1 @ [i]),
               q_emits := q_emits q1 @ [EmitFailed i]\<rparr>))"

definition q_calculateBackoff :: "nat \<Rightarrow> int \<Rightarrow> backoff \<Rightarrow> int" where
  "q_calculateBackoff rnd attempt bo =
     (if bo_type bo = bo_fixed then bo_delay bo
      else
        (let e = bo_delay bo * 2 ^ nat (attempt - 1)
         in e + (int rnd * e) div (10 * 2 ^ 53)))"

definition q_backoff_of :: "queue \<Rightarrow> job \<Rightarrow> backoff" where
  "q_backoff_of q j = nullish (jo_backoff (job_opts j)) (dj_backoff (q_defaults q))"

definition q_retryJob :: "nat \<Rightarrow> string \<Rightarrow> string \<Rightarrow> queue \<Rightarrow> queue" where
  "q_retryJob rnd i msg q =
     (case q_jobs q i of
        None \<Rightarrow> q
      | Some j \<Rightarrow>
          (let q1 = q_update i (\<lambda>j. j\<lparr>job_state := js_pending, failedReason := Some msg\<rparr>) q;
               q2 = q1\<lparr>q_active := remove1 i (q_active q1)\<rparr>
           in if q_calculateBackoff rnd (job_attempts j) (q_backoff_of q j) > 0
              then q2\<lparr>q_timers := q_timers q2 @ [RetryPush i]\<rparr>
              else q_later ProcessNext (q2\<lparr>q_pending := i # q_pending q2\<rparr>)))"

text \<open>\<open>executeJob\<close> up to its \<open>await\<close>, and what follows it.\<close>

definition q_executeJob :: "int \<Rightarrow> string \<Rightarrow> queue \<Rightarrow> queue" where
  "q_executeJob now i q =
     (case q_jobs q i of
        None \<Rightarrow> q
      | Some j \<Rightarrow>
          if job_name j \<notin> set (q_processors q)
          then q_moveJobToFailed now i (''No processor found for job type: '' @ job_name j) q
          else
            (let q1 = q_update i (\<lambda>j. j\<lparr>job_state := js_active, job_attempts := job_attempts j + 1,
                        processedAt := Some now\<rparr>) q
             in q1\<lparr>q_running := i # q_running q1\<rparr>))"

definition q_settle :: "int \<Rightarrow> nat \<Rightarrow> string \<Rightarrow> string + json \<Rightarrow> queue \<Rightarrow> queue" where
  "q_settle now rnd i outcome q =
     (let q1 = q\<lparr>q_running := remove1 i (q_running q)\<rparr>
      in case q_jobs q i of
           None \<Rightarrow> q1
         | Some j \<Rightarrow>
             (case outcome of
                Inr r \<Rightarrow> q_moveJobToCompleted now i r q1
              | Inl msg \<Rightarrow>
                  if job_attempts j < maxAttempts j then q_retryJob rnd i msg q1
                  else q_moveJobToFailed now i msg q1))"

fun q_fire :: "q_timer \<Rightarrow> queue \<Rightarrow> queue" where
  "q_fire (DelayedPush i) q =
     q_processNext (q\<lparr>q_timers := remove1 (DelayedPush i) (q_timers q),
                      q_pending := q_pending q @ [i]\<rparr>)"
| "q_fire (RetryPush i) q =
     q_processNext (q\<lparr>q_timers := remove1 (RetryPush i) (q_timers q),
                      q_pending := i # q_pending q\<rparr>)"

fun q_runCallback :: "int \<Rightarrow> q_callback \<Rightarrow> queue \<Rightarrow> queue" where
  "q_runCallback now ProcessNext q = q_processNext q"
| "q_runCallback now (ExecuteJob i) q = q_executeJob now i q"

definition q_remove :: "string \<Rightarrow> queue \<Rightarrow> queue q_result" where
  "q_remove i q =
     (if i \<in> set (q_pending q) then Inr (q\<lparr>q_pending := remove1 i (q_pending q)\<rparr>)
      else if i \<in> set (q_active q) then Inl ''Cannot remove active job''
      else if i \<in> set (q_completed q) then Inr (q\<lparr>q_completed := remove1 i (q_completed q)\<rparr>)
      else if i \<in> set (q_failed q) then Inr (q\<lparr>q_failed := remove1 i (q_failed q)\<rparr>)
      else Inl ''Job not found'')"

text \<open>\<open>close\<close> before it waits for the active jobs, and after (or after 30 seconds of waiting).\<close>

definition q_close_begin :: "queue \<Rightarrow> queue" where
  "q_close_begin q = q\<lparr>q_isClosed := True, q_timers := []\<rparr>"

definition q_close_end :: "queue \<Rightarrow> queue" where
  "q_close_end q = q\<lparr>q_pending := [], q_active := [], q_completed := [], q_failed := [],
     q_processors := []\<rparr>"

definition q_updateJobProgress :: "string \<Rightarrow> int \<Rightarrow> queue \<Rightarrow> queue" where
  "q_updateJobProgress i p q =
     (q_update i (\<lambda>j. j\<lparr>job_progress := max 0 (min 100 p)\<rparr>) q)
       \<lparr>q_emits := q_emits q @ [EmitProgress i p]\<rparr>"

definition q_getJobs :: "string list \<Rightarrow> queue \<Rightarrow> string list" where
  "q_getJobs states q =
     (if states = [] \<or> ''pending'' \<in> set states then q_pending q else []) @
     (if states = [] \<or> ''active'' \<in> set states then q_active q else []) @
     (if states = [] \<or> ''completed'' \<in> set states then q_completed q else []) @
     (if states = [] \<or> ''failed'' \<in> set states then q_failed q else [])"

definition q_getJob :: "string \<Rightarrow> queue \<Rightarrow> job option" where
  "q_getJob i q = (if i \<in> set (q_getJobs [] q) then q_jobs q i else None)"

definition q_getStats :: "queue \<Rightarrow> nat \<times> nat \<times> nat \<times> nat \<times> nat" where
  "q_getStats q =
     (length (q_pending q), length (q_active q), length (q_completed q), length (q_failed q),
      length (q_pending q) + length (q_active q) + length (q_completed q) + length (q_failed q))"

section \<open>Steps\<close>

text \<open>What can happen next to a queue; a job's id is new, and \<open>Math.random()\<close> is below 1.\<close>

inductive q_step :: "queue \<Rightarrow> queue \<Rightarrow> bool" where
  Add: "q_jobs q i = None \<Longrightarrow> q_add now i nm d opts q = Inr q' \<Longrightarrow> q_step q q'"
| Register: "q_step q (q_process nm q)"
| Immediate: "q_immediates q = cb # cbs \<Longrightarrow>
    q_step q (q_runCallback now cb (q\<lparr>q_immediates := cbs\<rparr>))"
| Timer: "t \<in> set (q_timers q) \<Longrightarrow> q_step q (q_fire t q)"
| Settle: "i \<in> set (q_running q) \<Longrightarrow> rnd < 2 ^ 53 \<Longrightarrow> q_step q (q_settle now rnd i r q)"
| Remove: "q_remove i q = Inr q' \<Longrightarrow> q_step q q'"
| CloseBegin: "q_step q (q_close_begin q)"
| CloseEnd: "q_isClosed q \<Longrightarrow> q_step q (q_close_end q)"
| Progress: "q_step q (q_updateJobProgress i p q)"

inductive q_reach :: "queue \<Rightarrow> queue \<Rightarrow> bool" where
  Refl: "q_reach q q"
| Step: "q_reach q q1 \<Longrightarrow> q_step q1 q2 \<Longrightarrow> q_reach q q2"

inductive_cases q_stepE: "q_step q q'"

section \<open>Where the jobs are\<close>

fun timer_id :: "q_timer \<Rightarrow> string" where
  "timer_id (DelayedPush i) = i"
| "timer_id (RetryPush i) = i"

fun exec_ids :: "q_callback list \<Rightarrow> string list" where
  "exec_ids [] = []"
| "exec_ids (ProcessNext # cs) = exec_ids cs"
| "exec_ids (ExecuteJob i # cs) = i # exec_ids cs"

definition q_idle :: "queue \<Rightarrow> string multiset" where
  "q_idle q = mset (q_pending q) + mset (q_completed q) + mset (q_failed q) +
     image_mset timer_id (mset (q_timers q))"

definition q_busy :: "queue \<Rightarrow> string multiset" where
  "q_busy q = mset (q_running q) + mset (exec_ids (q_immediates q))"

lemma exec_ids_append [simp]: "exec_ids (xs @ ys) = exec_ids xs @ exec_ids ys"
  by (induction xs rule: exec_ids.induct) simp_all

lemma exec_ids_map [simp]: "exec_ids (map ExecuteJob xs) = xs"
  by (induction xs) simp_all

lemma q_trim_subset: "mset (q_trim limit xs) \<subseteq># mset xs"
  by (induction xs) (auto intro: subset_mset.order_trans)

lemma q_trim_length: "int (length (q_trim limit xs)) \<le> max 0 limit"
  by (induction xs) auto

lemma q_trim_id: "int (length xs) \<le> limit \<Longrightarrow> q_trim limit xs = xs"
  by (cases xs) auto

lemma q_fill_spec:
  "q_fill conc pend act = (p, a, st) \<Longrightarrow> distinct (pend @ act) \<Longrightarrow>
   a = act @ st \<and> pend = st @ p \<and> int (length a) \<le> max conc (int (length act)) \<and>
   (p = [] \<or> conc \<le> int (length a))"
proof (induction conc pend act arbitrary: p a st rule: q_fill.induct)
  case (2 conc i pend act)
  show ?case
  proof (cases "int (length act) < conc")
    case True
    from 2(3) have ni: "i \<notin> set act" by simp
    obtain p' a' st' where f: "q_fill conc pend (act @ [i]) = (p', a', st')" by (metis surj_pair)
    with 2(2) True ni have eq: "p = p'" "a = a'" "st = i # st'" by auto
    from 2(3) have "distinct (pend @ act @ [i])" by auto
    with 2(1) [OF True, of p' a' st'] f ni True eq show ?thesis by auto
  next
    case False
    with 2(2) show ?thesis by auto
  qed
qed simp

text \<open>
  A job is in one place at most and in the store; until the queue is closed the active jobs are
  those called or about to be, never more than the concurrency; the histories are bounded.
\<close>

definition q_places :: "queue \<Rightarrow> string multiset" where
  "q_places q = q_idle q + q_busy q"

definition q_inv :: "queue \<Rightarrow> bool" where
  "q_inv q \<longleftrightarrow>
     (\<forall>i. count (q_places q) i \<le> 1) \<and> set_mset (q_places q) \<subseteq> dom (q_jobs q) \<and>
     mset (q_active q) \<subseteq># q_busy q \<and> (\<not> q_isClosed q \<longrightarrow> mset (q_active q) = q_busy q) \<and>
     int (size (q_busy q)) \<le> max 0 (q_concurrency q) \<and>
     int (length (q_completed q)) \<le> max 0 (dj_removeOnComplete (q_defaults q)) \<and>
     int (length (q_failed q)) \<le> max 0 (dj_removeOnFail (q_defaults q))"

lemma q_count_le: "(\<forall>i. count M i \<le> 1) \<Longrightarrow> N \<subseteq># M \<Longrightarrow> (\<forall>i. count N i \<le> (1::nat))"
  by (meson le_trans mset_subset_eq_count)

lemma distinct_of_count: "\<forall>i. count (mset xs) i \<le> 1 \<Longrightarrow> distinct xs"
proof -
  assume le: "\<forall>i. count (mset xs) i \<le> 1"
  have "count (mset xs) i = (if i \<in> set xs then 1 else 0)" for i
  proof (cases "i \<in> set xs")
    case True
    then have "0 < count (mset xs) i" by simp
    with le True show ?thesis by (simp add: le_antisym Suc_leI)
  qed (simp add: not_in_iff [symmetric])
  then show ?thesis by (simp add: distinct_count_atmost_1)
qed

lemma q_distinct_parts:
  assumes "\<forall>i. count (q_places q) i \<le> 1"
  shows "distinct (q_pending q)" and "distinct (q_running q @ exec_ids (q_immediates q))"
    and "set (q_pending q) \<inter> set_mset (q_busy q) = {}"
proof -
  have "mset (q_pending q) \<subseteq># q_places q"
    by (simp add: q_places_def q_idle_def add.assoc)
  from q_count_le [OF assms this] show "distinct (q_pending q)" by (rule distinct_of_count)
  have "mset (q_running q @ exec_ids (q_immediates q)) \<subseteq># q_places q"
    by (simp add: q_places_def q_busy_def)
  from q_count_le [OF assms this] show "distinct (q_running q @ exec_ids (q_immediates q))" by (rule distinct_of_count)
  show "set (q_pending q) \<inter> set_mset (q_busy q) = {}"
  proof (rule ccontr)
    assume "set (q_pending q) \<inter> set_mset (q_busy q) \<noteq> {}"
    then obtain i where i: "i \<in> set (q_pending q)" "i \<in># q_busy q" by blast
    have "mset (q_pending q) \<subseteq># q_idle q" by (simp add: q_idle_def)
    with i(1) have "0 < count (q_idle q) i" by (meson count_greater_zero_iff in_multiset_in_set mset_subset_eqD)
    moreover have "0 < count (q_busy q) i" using i(2) by simp
    moreover have "count (q_idle q) i + count (q_busy q) i \<le> 1"
      using assms by (simp add: q_places_def)
    ultimately show False by linarith
  qed
qed

section \<open>Every step keeps the invariant\<close>

lemma q_update_fields [simp]:
  "q_pending (q_update i f q) = q_pending q" "q_active (q_update i f q) = q_active q"
  "q_completed (q_update i f q) = q_completed q" "q_failed (q_update i f q) = q_failed q"
  "q_timers (q_update i f q) = q_timers q" "q_immediates (q_update i f q) = q_immediates q"
  "q_running (q_update i f q) = q_running q" "q_isClosed (q_update i f q) = q_isClosed q"
  "q_concurrency (q_update i f q) = q_concurrency q" "q_defaults (q_update i f q) = q_defaults q"
  "q_processors (q_update i f q) = q_processors q" "q_emits (q_update i f q) = q_emits q"
  "dom (q_jobs (q_update i f q)) = dom (q_jobs q)"
  by (auto simp: q_update_def split: if_splits)

lemma q_later_fields [simp]:
  "q_pending (q_later cb q) = q_pending q" "q_active (q_later cb q) = q_active q"
  "q_completed (q_later cb q) = q_completed q" "q_failed (q_later cb q) = q_failed q"
  "q_timers (q_later cb q) = q_timers q" "q_immediates (q_later cb q) = q_immediates q @ [cb]"
  "q_running (q_later cb q) = q_running q" "q_isClosed (q_later cb q) = q_isClosed q"
  "q_concurrency (q_later cb q) = q_concurrency q" "q_defaults (q_later cb q) = q_defaults q"
  "q_processors (q_later cb q) = q_processors q" "q_jobs (q_later cb q) = q_jobs q"
  by (simp_all add: q_later_def)

lemma q_inv_same:
  assumes "q_inv q" and "q_places q' \<subseteq># q_places q" and "dom (q_jobs q) \<subseteq> dom (q_jobs q')"
    and "q_busy q' = q_busy q" and "mset (q_active q') = mset (q_active q)"
    and "q_isClosed q' = q_isClosed q" and "q_concurrency q' = q_concurrency q"
    and "q_defaults q' = q_defaults q"
    and "int (length (q_completed q')) \<le> max 0 (dj_removeOnComplete (q_defaults q))"
    and "int (length (q_failed q')) \<le> max 0 (dj_removeOnFail (q_defaults q))"
  shows "q_inv q'"
proof -
  from assms(2) have "set_mset (q_places q') \<subseteq> set_mset (q_places q)" by (rule set_mset_mono)
  moreover have "\<forall>i. count (q_places q') i \<le> 1"
    by (rule q_count_le [OF _ assms(2)]) (use assms(1) in \<open>simp add: q_inv_def\<close>)
  ultimately show ?thesis
    using assms(1,3-) unfolding q_inv_def by (metis order_trans)
qed

lemma q_inv_finish:
  assumes "q_inv q" and "q_places q' \<subseteq># q_places q" and "dom (q_jobs q') = dom (q_jobs q)"
    and "i \<in># q_busy q" and "q_busy q' = q_busy q - {#i#}"
    and "mset (q_active q') = mset (q_active q) - {#i#}"
    and "q_isClosed q' = q_isClosed q" and "q_concurrency q' = q_concurrency q"
    and "q_defaults q' = q_defaults q"
    and "int (length (q_completed q')) \<le> max 0 (dj_removeOnComplete (q_defaults q))"
    and "int (length (q_failed q')) \<le> max 0 (dj_removeOnFail (q_defaults q))"
  shows "q_inv q'"
proof -
  from assms(2) have "set_mset (q_places q') \<subseteq> set_mset (q_places q)" by (rule set_mset_mono)
  then have "set_mset (q_places q') \<subseteq> dom (q_jobs q')" using assms(1,3) unfolding q_inv_def by blast
  moreover have "\<forall>i. count (q_places q') i \<le> 1"
    by (rule q_count_le [OF _ assms(2)]) (use assms(1) in \<open>simp add: q_inv_def\<close>)
  moreover have "mset (q_active q) - {#i#} \<subseteq># q_busy q - {#i#}"
    using assms(1) by (simp add: q_inv_def subseteq_mset_def diff_le_mono)
  moreover have "int (size (q_busy q - {#i#})) \<le> max 0 (q_concurrency q)"
    using assms(1) size_mset_mono [OF diff_subset_eq_self, of "q_busy q" "{#i#}"]
    by (simp add: q_inv_def)
  ultimately show ?thesis
    using assms(1,3,5-) unfolding q_inv_def by simp
qed

lemma q_processNext_inv:
  assumes "q_inv q"
  shows "q_inv (q_processNext q)"
proof (cases "q_isClosed q")
  case True
  with assms show ?thesis by (simp add: q_processNext_def)
next
  case False
  obtain p a st where f: "q_fill (q_concurrency q) (q_pending q) (q_active q) = (p, a, st)"
    by (metis surj_pair)
  let ?q = "q\<lparr>q_pending := p, q_active := a, q_immediates := q_immediates q @ map ExecuteJob st\<rparr>"
  from assms have cnt: "\<forall>i. count (q_places q) i \<le> 1" by (simp add: q_inv_def)
  from assms False have ab: "mset (q_active q) = q_busy q" by (simp add: q_inv_def)
  then have "mset (q_active q) = mset (q_running q @ exec_ids (q_immediates q))"
    by (simp add: q_busy_def)
  with q_distinct_parts(2) [OF cnt] have "distinct (q_active q)" by (metis mset_eq_imp_distinct_iff)
  moreover have "set (q_pending q) \<inter> set (q_active q) = {}"
    using q_distinct_parts(3) [OF cnt] ab by (metis set_mset_mset)
  ultimately have "distinct (q_pending q @ q_active q)"
    using q_distinct_parts(1) [OF cnt] by simp
  from q_fill_spec [OF f this]
  have eq: "a = q_active q @ st" "q_pending q = st @ p"
      "int (length a) \<le> max (q_concurrency q) (int (length (q_active q)))" by auto
  have len: "int (length (q_active q)) \<le> max 0 (q_concurrency q)"
    using assms ab by (simp add: q_inv_def size_mset [symmetric] del: size_mset)
  have busy: "q_busy ?q = mset a" using ab eq(1) by (simp add: q_busy_def)
  have pl: "q_places ?q = q_places q" using eq(2) by (simp add: q_places_def q_idle_def q_busy_def)
  have sz: "int (size (q_busy ?q)) \<le> max 0 (q_concurrency q)" using busy eq(3) len by simp
  show ?thesis
    using assms f False pl busy sz unfolding q_inv_def by (simp add: q_processNext_def)
qed

lemma q_move_inv:
  assumes "q_inv q0" and "i \<in># q_busy q0"
    and q: "q_jobs q = q_jobs q0" "q_pending q = q_pending q0" "q_active q = q_active q0"
      "q_completed q = q_completed q0" "q_failed q = q_failed q0" "q_timers q = q_timers q0"
      "q_isClosed q = q_isClosed q0" "q_concurrency q = q_concurrency q0" "q_defaults q = q_defaults q0"
    and busy: "q_busy q = q_busy q0 - {#i#}"
  shows "q_inv (q_moveJobToCompleted now i r q)" and "q_inv (q_moveJobToFailed now i msg q)"
    and "q_inv (q_retryJob rnd i msg q)"
proof -
  have split: "q_busy q0 = add_mset i (q_busy q)" using assms(2) busy by simp
  have idle: "q_idle q = q_idle q0" using q by (simp add: q_idle_def)
  have c: "mset (q_trim l (q_completed q @ [i])) \<subseteq># add_mset i (mset (q_completed q))" for l
    using q_trim_subset [of l "q_completed q @ [i]"] by simp
  have f: "mset (q_trim l (q_failed q @ [i])) \<subseteq># add_mset i (mset (q_failed q))" for l
    using q_trim_subset [of l "q_failed q @ [i]"] by simp
  have cb: "int (length (q_completed q)) \<le> max 0 (dj_removeOnComplete (q_defaults q0))"
      "int (length (q_failed q)) \<le> max 0 (dj_removeOnFail (q_defaults q0))"
    using assms(1) q by (simp_all add: q_inv_def)
  note sm = q_busy_def q_moveJobToCompleted_def q_moveJobToFailed_def Let_def
  have b: "q_busy (q_moveJobToCompleted now i r q) = q_busy q"
      "q_busy (q_moveJobToFailed now i msg q) = q_busy q"
    by (simp_all add: sm)
  have pc: "q_places (q_moveJobToCompleted now i r q) \<subseteq># q_places q0"
    unfolding q_places_def b split idle [symmetric]
    using c [of "dj_removeOnComplete (q_defaults q)"]
    by (simp add: q_idle_def q_moveJobToCompleted_def Let_def subset_mset.add_mono)
  have pf: "q_places (q_moveJobToFailed now i msg q) \<subseteq># q_places q0"
    unfolding q_places_def b split idle [symmetric]
    using f [of "dj_removeOnFail (q_defaults q)"]
    by (simp add: q_idle_def q_moveJobToFailed_def Let_def subset_mset.add_mono)
  show "q_inv (q_moveJobToCompleted now i r q)"
    by (rule q_inv_finish [OF assms(1) pc _ assms(2)])
       (use cb q q_trim_length [of "dj_removeOnComplete (q_defaults q0)" "q_completed q0 @ [i]"] b busy
        in \<open>simp_all add: q_moveJobToCompleted_def Let_def\<close>)
  show "q_inv (q_moveJobToFailed now i msg q)"
    by (rule q_inv_finish [OF assms(1) pf _ assms(2)])
       (use cb q q_trim_length [of "dj_removeOnFail (q_defaults q0)" "q_failed q0 @ [i]"] b busy
        in \<open>simp_all add: q_moveJobToFailed_def Let_def\<close>)
  from assms(1,2) have "i \<in> dom (q_jobs q0)" by (auto simp: q_inv_def q_places_def)
  then obtain j where j: "q_jobs q i = Some j" using q by auto
  have br: "q_busy (q_retryJob rnd i msg q) = q_busy q"
    using j by (simp add: q_retryJob_def Let_def q_busy_def)
  have pr: "q_places (q_retryJob rnd i msg q) = q_places q0"
    unfolding q_places_def br split idle [symmetric]
    using j by (simp add: q_idle_def q_retryJob_def Let_def)
  show "q_inv (q_retryJob rnd i msg q)"
    by (rule q_inv_finish [OF assms(1) _ _ assms(2)])
       (use cb q br busy j pr in \<open>simp_all add: q_retryJob_def Let_def\<close>)
qed

lemma q_add_inv:
  assumes inv: "q_inv q" and new: "q_jobs q i = None" and add: "q_add now i nm d opts q = Inr q'"
  shows "q_inv q'"
proof -
  from inv new have ni: "i \<notin># q_places q" by (auto simp: q_inv_def)
  from add have open_q: "\<not> q_isClosed q" by (simp add: q_add_def split: if_splits)
  have pl: "q_places q' = add_mset i (q_places q)" "q_busy q' = q_busy q"
      "mset (q_active q') = mset (q_active q)" "q_completed q' = q_completed q"
      "q_failed q' = q_failed q" "q_concurrency q' = q_concurrency q"
      "q_defaults q' = q_defaults q" "q_isClosed q' = q_isClosed q"
      "dom (q_jobs q') = insert i (dom (q_jobs q))"
    using add open_q
    by (auto simp: q_add_def Let_def q_places_def q_idle_def q_busy_def q_later_def
        split: if_splits)
  have "\<forall>k. count (add_mset i (q_places q)) k \<le> 1"
    using inv ni by (auto simp: q_inv_def not_in_iff)
  with inv pl show ?thesis unfolding q_inv_def by auto
qed

lemma q_fire_inv:
  assumes inv: "q_inv q" and t: "t \<in> set (q_timers q)"
  shows "q_inv (q_fire t q)"
proof -
  from t obtain M where M: "mset (q_timers q) = add_mset t M"
    by (metis multi_member_split set_mset_mset)
  show ?thesis
    by (cases t; simp; rule q_processNext_inv; rule q_inv_same [OF inv])
       (use inv M in \<open>auto simp: q_places_def q_idle_def q_busy_def q_inv_def\<close>)
qed

lemma q_callback_inv:
  assumes inv: "q_inv q" and imm: "q_immediates q = cb # cbs"
  shows "q_inv (q_runCallback now cb (q\<lparr>q_immediates := cbs\<rparr>))"
proof (cases cb)
  case ProcessNext
  have "q_inv (q\<lparr>q_immediates := cbs\<rparr>)"
    by (rule q_inv_same [OF inv])
       (use inv imm ProcessNext in \<open>auto simp: q_places_def q_idle_def q_busy_def q_inv_def\<close>)
  with ProcessNext show ?thesis by (simp add: q_processNext_inv)
next
  case (ExecuteJob i)
  let ?q = "q\<lparr>q_immediates := cbs\<rparr>"
  have i: "i \<in># q_busy q" using imm ExecuteJob by (simp add: q_busy_def)
  with inv have "i \<in> dom (q_jobs q)" by (auto simp: q_inv_def q_places_def)
  then obtain j where j: "q_jobs q i = Some j" by auto
  have b: "q_busy ?q = q_busy q - {#i#}" using imm ExecuteJob by (simp add: q_busy_def)
  show ?thesis
  proof (cases "job_name j \<in> set (q_processors q)")
    case True
    with j ExecuteJob have eq: "q_runCallback now cb ?q =
        (let q1 = q_update i (\<lambda>j. j\<lparr>job_state := js_active, job_attempts := job_attempts j + 1,
                        processedAt := Some now\<rparr>) ?q
         in q1\<lparr>q_running := i # q_running q1\<rparr>)"
      by (simp add: q_executeJob_def)
    show ?thesis
      unfolding eq
      by (rule q_inv_same [OF inv])
         (use inv imm ExecuteJob in
          \<open>simp_all add: q_places_def q_idle_def q_busy_def q_inv_def Let_def\<close>)
  next
    case False
    with j ExecuteJob show ?thesis
      using q_move_inv(2) [OF inv i _ _ _ _ _ _ _ _ _ b] by (simp add: q_executeJob_def)
  qed
qed

lemma q_settle_inv:
  assumes inv: "q_inv q" and run: "i \<in> set (q_running q)"
  shows "q_inv (q_settle now rnd i r q)"
proof -
  let ?q = "q\<lparr>q_running := remove1 i (q_running q)\<rparr>"
  have i: "i \<in># q_busy q" using run by (simp add: q_busy_def)
  with inv have "i \<in> dom (q_jobs q)" by (auto simp: q_inv_def q_places_def)
  then obtain j where j: "q_jobs q i = Some j" by auto
  have b: "q_busy ?q = q_busy q - {#i#}" using run by (simp add: q_busy_def)
  note mv = q_move_inv [OF inv i _ _ _ _ _ _ _ _ _ b]
  show ?thesis
    using j by (auto simp: q_settle_def Let_def intro!: mv split: sum.splits)
qed

lemma q_remove_inv:
  assumes inv: "q_inv q" and rem: "q_remove i q = Inr q'"
  shows "q_inv q'"
proof -
  have sub: "q_places q' \<subseteq># q_places q" and "q_busy q' = q_busy q"
      and "q_active q' = q_active q \<and> q_isClosed q' = q_isClosed q \<and>
        q_concurrency q' = q_concurrency q \<and> q_defaults q' = q_defaults q \<and> q_jobs q' = q_jobs q"
      and "length (q_completed q') \<le> length (q_completed q)"
      and "length (q_failed q') \<le> length (q_failed q)"
    using rem
    by (auto simp: q_remove_def q_places_def q_idle_def q_busy_def length_remove1
        intro!: subset_mset.add_mono split: if_splits)
  then show ?thesis
    by (intro q_inv_same [OF inv sub]) (use inv in \<open>auto simp: q_inv_def\<close>)
qed

lemma q_step_inv: "q_step q q' \<Longrightarrow> q_inv q \<Longrightarrow> q_inv q'"
proof (induction rule: q_step.induct)
  case (Register q nm)
  show ?case
    by (rule q_inv_same [OF Register])
       (use Register in \<open>simp_all add: q_process_def q_places_def q_idle_def q_busy_def q_inv_def\<close>)
next
  case (CloseBegin q)
  then have "q_places (q_close_begin q) \<subseteq># q_places q"
    by (simp add: q_close_begin_def q_places_def q_idle_def q_busy_def)
  with CloseBegin q_count_le [OF _ this] set_mset_mono [OF this] show ?case
    by (auto simp: q_close_begin_def q_inv_def q_busy_def)
next
  case (CloseEnd q)
  then have "q_places (q_close_end q) \<subseteq># q_places q"
    by (simp add: q_close_end_def q_places_def q_idle_def q_busy_def)
  with CloseEnd q_count_le [OF _ this] set_mset_mono [OF this] show ?case
    by (auto simp: q_close_end_def q_inv_def q_busy_def)
next
  case (Progress q i p)
  show ?case
    by (rule q_inv_same [OF Progress])
       (use Progress in \<open>simp_all add: q_updateJobProgress_def q_places_def q_idle_def q_busy_def q_inv_def\<close>)
next
  case (Add q i now nm d opts q')
  then show ?case by (metis q_add_inv)
next
  case (Immediate q cb cbs now)
  then show ?case by (metis q_callback_inv)
next
  case (Timer t q)
  then show ?case by (metis q_fire_inv)
next
  case (Settle i q rnd now r)
  then show ?case by (metis q_settle_inv)
next
  case (Remove i q q')
  then show ?case by (metis q_remove_inv)
qed

lemma q_reach_inv: "q_reach q q' \<Longrightarrow> q_inv q \<Longrightarrow> q_inv q'"
  by (induction rule: q_reach.induct) (auto intro: q_step_inv)

lemma q_inv_new: "q_inv (q_new conc att bo keepC keepF)"
  by (simp add: q_inv_def q_new_def q_places_def q_idle_def q_busy_def)

section \<open>Attempts\<close>

definition q_attempts :: "queue \<Rightarrow> string \<Rightarrow> (int \<times> int) option" where
  "q_attempts q i = map_option (\<lambda>j. (job_attempts j, maxAttempts j)) (q_jobs q i)"

text \<open>The jobs that will be called again.\<close>

definition q_waiting :: "queue \<Rightarrow> string set" where
  "q_waiting q = set (q_pending q) \<union> timer_id ` set (q_timers q) \<union> set (exec_ids (q_immediates q))"

definition q_tries :: "queue \<Rightarrow> bool" where
  "q_tries q \<longleftrightarrow>
     (\<forall>i a m. q_attempts q i = Some (a, m) \<longrightarrow>
        a \<le> max 1 m \<and> (i \<in> q_waiting q \<longrightarrow> a < max 1 m))"

lemma q_tries_mono:
  "q_tries q \<Longrightarrow> q_attempts q' = q_attempts q \<Longrightarrow> q_waiting q' \<subseteq> q_waiting q \<Longrightarrow> q_tries q'"
  unfolding q_tries_def by (metis subset_iff)

lemma q_tries_again:
  "q_tries q \<Longrightarrow> q_attempts q' = q_attempts q \<Longrightarrow> q_waiting q' \<subseteq> insert i (q_waiting q) \<Longrightarrow>
   (\<And>a m. q_attempts q i = Some (a, m) \<Longrightarrow> a < max 1 m) \<Longrightarrow> q_tries q'"
  unfolding q_tries_def by (metis insert_iff subset_iff)

lemma q_update_attempts:
  "(\<And>j. job_attempts (f j) = job_attempts j) \<Longrightarrow> (\<And>j. maxAttempts (f j) = maxAttempts j) \<Longrightarrow>
   q_attempts (q_update i f q) = q_attempts q"
  by (auto simp: q_attempts_def q_update_def option.map_comp o_def fun_eq_iff)

lemma q_fill_set: "q_fill conc pend act = (p, a, st) \<Longrightarrow> set pend = set st \<union> set p"
proof (induction conc pend act arbitrary: p a st rule: q_fill.induct)
  case (2 conc i pend act)
  show ?case
  proof (cases "int (length act) < conc")
    case True
    define act' where "act' = (if i \<in> set act then act else act @ [i])"
    obtain p' a' st' where q: "q_fill conc pend act' = (p', a', st')" by (rule prod_cases3)
    from 2(2) True q have "p = p' \<and> st = i # st'" by (simp flip: act'_def)
    with 2(1) [OF True, folded act'_def, OF q] show ?thesis by auto
  next
    case False
    with 2(2) show ?thesis by simp
  qed
qed simp

lemma q_processNext_waiting:
  "q_waiting (q_processNext q) = q_waiting q" "q_attempts (q_processNext q) = q_attempts q"
proof -
  obtain p a st where f: "q_fill (q_concurrency q) (q_pending q) (q_active q) = (p, a, st)"
    by (metis surj_pair)
  with q_fill_set [OF f] show "q_waiting (q_processNext q) = q_waiting q"
    by (auto simp: q_processNext_def q_waiting_def)
  from f show "q_attempts (q_processNext q) = q_attempts q"
    by (simp add: q_processNext_def q_attempts_def fun_eq_iff)
qed

lemma q_fire_waiting:
  assumes "t \<in> set (q_timers q)"
  shows "q_waiting (q_fire t q) \<subseteq> q_waiting q" and "q_attempts (q_fire t q) = q_attempts q"
proof -
  have sub: "timer_id ` set (remove1 t (q_timers q)) \<subseteq> timer_id ` set (q_timers q)"
    using set_remove1_subset [of t "q_timers q"] by blast
  have id: "timer_id t \<in> timer_id ` set (q_timers q)" using assms by (rule imageI)
  show "q_waiting (q_fire t q) \<subseteq> q_waiting q"
  proof (cases t)
    case (DelayedPush i)
    with sub id show ?thesis by (simp only: q_fire.simps q_processNext_waiting) (auto simp: q_waiting_def)
  next
    case (RetryPush i)
    with sub id show ?thesis by (simp only: q_fire.simps q_processNext_waiting) (auto simp: q_waiting_def)
  qed
  show "q_attempts (q_fire t q) = q_attempts q"
    by (cases t; simp add: q_processNext_waiting; simp add: q_attempts_def fun_eq_iff)
qed

lemma q_move_attempts:
  "q_attempts (q_moveJobToCompleted now i r q) = q_attempts q"
  "q_attempts (q_moveJobToFailed now i msg q) = q_attempts q"
  "q_attempts (q_retryJob rnd i msg q) = q_attempts q"
proof -
  have jobs: "q_attempts (q1\<lparr>q_active := a, q_completed := b, q_emits := c\<rparr>) = q_attempts q1"
    "q_attempts (q1\<lparr>q_active := a, q_failed := b, q_emits := c\<rparr>) = q_attempts q1"
    "q_attempts (q1\<lparr>q_active := a, q_timers := t\<rparr>) = q_attempts q1"
    "q_attempts (q1\<lparr>q_active := a, q_pending := b\<rparr>) = q_attempts q1"
    "q_attempts (q_later cb q1) = q_attempts q1" for q1 a b c t cb
    by (simp_all add: q_attempts_def q_later_def fun_eq_iff)
  show "q_attempts (q_moveJobToCompleted now i r q) = q_attempts q"
    by (simp add: q_moveJobToCompleted_def Let_def jobs q_update_attempts)
  show "q_attempts (q_moveJobToFailed now i msg q) = q_attempts q"
    by (simp add: q_moveJobToFailed_def Let_def jobs q_update_attempts)
  show "q_attempts (q_retryJob rnd i msg q) = q_attempts q"
    by (simp add: q_retryJob_def Let_def jobs q_update_attempts split: option.splits)
qed

lemma q_move_waiting:
  "q_waiting (q_moveJobToCompleted now i r q) = q_waiting q"
  "q_waiting (q_moveJobToFailed now i msg q) = q_waiting q"
  "q_waiting (q_retryJob rnd i msg q) \<subseteq> insert i (q_waiting q)"
  by (auto simp: q_waiting_def q_moveJobToCompleted_def q_moveJobToFailed_def q_retryJob_def Let_def
      split: option.splits)

lemma q_executeJob_tries:
  assumes tries: "q_tries q" and inv: "q_inv q" and imm: "q_immediates q = ExecuteJob i # cbs"
  shows "q_tries (q_executeJob now i (q\<lparr>q_immediates := cbs\<rparr>))"
proof -
  let ?q = "q\<lparr>q_immediates := cbs\<rparr>"
  have base: "q_attempts ?q = q_attempts q" "q_waiting ?q \<subseteq> q_waiting q"
    using imm by (auto simp: q_attempts_def q_waiting_def)
  have "i \<in># q_busy q" using imm by (simp add: q_busy_def)
  with inv have "i \<in> dom (q_jobs q)" by (auto simp: q_inv_def q_places_def)
  then obtain j where j: "q_jobs q i = Some j" by auto
  show ?thesis
  proof (cases "job_name j \<in> set (q_processors q)")
    case False
    with j base show ?thesis
      by (simp add: q_executeJob_def) (rule q_tries_mono [OF tries], simp_all add: q_move_attempts q_move_waiting)
  next
    case True
    let ?r = "q_executeJob now i ?q"
    from inv have cnt: "count (q_places q) i \<le> 1" by (simp add: q_inv_def)
    have "q_places q = add_mset i (q_places ?q)"
      using imm by (simp add: q_places_def q_idle_def q_busy_def)
    with cnt have "i \<notin># q_places ?q" by (simp add: not_in_iff)
    then have ni: "i \<notin> q_waiting ?q" by (auto simp: q_places_def q_idle_def q_busy_def q_waiting_def)
    have at: "q_attempts ?r = (q_attempts q)(i := Some (job_attempts j + 1, maxAttempts j))"
      using j True by (auto simp: q_executeJob_def q_attempts_def q_update_def Let_def)
    have w: "q_waiting ?r = q_waiting ?q"
      using j True by (simp add: q_executeJob_def q_waiting_def Let_def)
    have "q_attempts q i = Some (job_attempts j, maxAttempts j)" using j by (simp add: q_attempts_def)
    moreover have "i \<in> q_waiting q" using imm by (simp add: q_waiting_def)
    ultimately have lt: "job_attempts j < max 1 (maxAttempts j)" using tries by (auto simp: q_tries_def)
    show ?thesis
      unfolding q_tries_def at w
    proof (intro allI impI)
      fix k a m
      assume k: "((q_attempts q)(i := Some (job_attempts j + 1, maxAttempts j))) k = Some (a, m)"
      show "a \<le> max 1 m \<and> (k \<in> q_waiting ?q \<longrightarrow> a < max 1 m)"
      proof (cases "k = i")
        case True
        with k lt ni show ?thesis by auto
      next
        case False
        with k tries base(2) show ?thesis by (auto simp: q_tries_def)
      qed
    qed
  qed
qed

lemma q_settle_tries:
  assumes tries: "q_tries q"
  shows "q_tries (q_settle now rnd i r q)"
proof -
  let ?q = "q\<lparr>q_running := remove1 i (q_running q)\<rparr>"
  have base: "q_attempts ?q = q_attempts q" "q_waiting ?q = q_waiting q"
    by (simp_all add: q_attempts_def q_waiting_def fun_eq_iff)
  show ?thesis
  proof (cases "q_jobs q i")
    case None
    then show ?thesis
      by (simp add: q_settle_def Let_def) (rule q_tries_mono [OF tries], simp_all add: base)
  next
    case (Some j)
    then have aj: "q_attempts q i = Some (job_attempts j, maxAttempts j)" by (simp add: q_attempts_def)
    show ?thesis
    proof (cases r)
      case (Inr v)
      with Some show ?thesis
        by (simp add: q_settle_def Let_def)
           (rule q_tries_mono [OF tries], simp_all add: base q_move_attempts q_move_waiting)
    next
      case (Inl msg)
      show ?thesis
      proof (cases "job_attempts j < maxAttempts j")
        case True
        show ?thesis
          by (rule q_tries_again [OF tries, where i = i])
             (use True Some Inl aj base q_move_waiting(3) [of rnd i msg ?q] in
              \<open>auto simp: q_settle_def Let_def q_move_attempts\<close>)
      next
        case False
        with Some Inl show ?thesis
          by (simp add: q_settle_def Let_def)
             (rule q_tries_mono [OF tries], simp_all add: base q_move_attempts q_move_waiting)
      qed
    qed
  qed
qed

lemma q_add_tries:
  assumes tries: "q_tries q" and add: "q_add now i nm d opts q = Inr q'"
  shows "q_tries q'"
proof -
  from add have "q_attempts q' = (q_attempts q)
      (i \<mapsto> (0, nullish (jo_attempts opts) (dj_attempts (q_defaults q))))"
    by (auto simp: q_add_def q_later_def Let_def q_attempts_def q_make_job_def fun_eq_iff
        split: if_splits)
  moreover from add have "q_waiting q' \<subseteq> insert i (q_waiting q)"
    by (auto simp: q_add_def Let_def q_waiting_def split: if_splits)
  ultimately show ?thesis using tries by (fastforce simp: q_tries_def split: if_splits)
qed

lemma q_step_tries: "q_step q q' \<Longrightarrow> q_inv q \<Longrightarrow> q_tries q \<Longrightarrow> q_tries q'"
proof (induction rule: q_step.induct)
  case (Add q i now nm d opts q')
  then show ?case by (metis q_add_tries)
next
  case (Register q nm)
  show ?case
    by (rule q_tries_mono [OF Register(2)])
       (simp_all add: q_process_def q_attempts_def q_waiting_def fun_eq_iff)
next
  case (Immediate q cb cbs now)
  show ?case
  proof (cases cb)
    case ProcessNext
    then have eq: "q_runCallback now cb (q\<lparr>q_immediates := cbs\<rparr>) =
        q_processNext (q\<lparr>q_immediates := cbs\<rparr>)" by simp
    show ?thesis
      unfolding eq
      by (rule q_tries_mono [OF Immediate(3)])
         (simp_all only: q_processNext_waiting,
          use Immediate(1) ProcessNext in \<open>simp_all add: q_attempts_def q_waiting_def fun_eq_iff\<close>)
  next
    case (ExecuteJob i)
    with Immediate show ?thesis by (simp add: q_executeJob_tries)
  qed
next
  case (Timer t q)
  then show ?case by (metis q_tries_mono q_fire_waiting)
next
  case (Settle i q rnd now r)
  then show ?case by (metis q_settle_tries)
next
  case (Remove i q q')
  show ?case
    by (rule q_tries_mono [OF Remove(3)])
       (use Remove(1) notin_set_remove1 [of _ "q_pending q" i] in
        \<open>auto simp: q_remove_def q_attempts_def q_waiting_def fun_eq_iff split: if_splits\<close>)
next
  case (CloseBegin q)
  show ?case
    by (rule q_tries_mono [OF CloseBegin(2)])
       (auto simp: q_close_begin_def q_attempts_def q_waiting_def fun_eq_iff)
next
  case (CloseEnd q)
  show ?case
    by (rule q_tries_mono [OF CloseEnd(3)])
       (auto simp: q_close_end_def q_attempts_def q_waiting_def fun_eq_iff)
next
  case (Progress q i p)
  have "q_attempts (q_updateJobProgress i p q) =
      q_attempts (q_update i (\<lambda>j. j\<lparr>job_progress := max 0 (min 100 p)\<rparr>) q)"
    by (simp add: q_updateJobProgress_def q_attempts_def fun_eq_iff)
  also have "\<dots> = q_attempts q" by (rule q_update_attempts) simp_all
  finally show ?case
    by (rule q_tries_mono [OF Progress(2)]) (simp add: q_updateJobProgress_def q_waiting_def)
qed

lemma q_reach_tries: "q_reach q q' \<Longrightarrow> q_inv q \<Longrightarrow> q_tries q \<Longrightarrow> q_tries q'"
  by (induction rule: q_reach.induct) (auto intro: q_step_tries q_reach_inv)

lemma q_tries_new: "q_tries (q_new conc att bo keepC keepF)"
  by (simp add: q_tries_def q_new_def q_attempts_def)

section \<open>Wake-ups\<close>

text \<open>
  If a job is pending and there is room for it, a \<open>processNext\<close> is scheduled, or a timer whose
  firing calls it is armed.
\<close>

definition q_awake :: "queue \<Rightarrow> bool" where
  "q_awake q \<longleftrightarrow>
     q_isClosed q \<or> q_pending q = [] \<or> q_concurrency q \<le> int (length (q_active q)) \<or>
     ProcessNext \<in> set (q_immediates q) \<or> q_timers q \<noteq> []"

lemma q_fill_full:
  "q_fill conc pend act = (p, a, st) \<Longrightarrow> p = [] \<or> conc \<le> int (length a)"
proof (induction conc pend act arbitrary: p a st rule: q_fill.induct)
  case (2 conc i pend act)
  obtain p' a' st' where "q_fill conc pend (if i \<in> set act then act else act @ [i]) = (p', a', st')"
    by (metis surj_pair)
  with 2 show ?case by (cases "int (length act) < conc") auto
qed simp

lemma q_processNext_awake: "q_awake (q_processNext q)"
proof -
  obtain p a st where f: "q_fill (q_concurrency q) (q_pending q) (q_active q) = (p, a, st)"
    by (metis surj_pair)
  with q_fill_full [OF f] show ?thesis by (auto simp: q_processNext_def q_awake_def)
qed

lemma q_move_awake:
  "q_awake (q_moveJobToCompleted now i r q)" "q_awake (q_moveJobToFailed now i msg q)"
  "q_jobs q i \<noteq> None \<Longrightarrow> q_awake (q_retryJob rnd i msg q)"
  by (auto simp: q_awake_def q_moveJobToCompleted_def q_moveJobToFailed_def q_retryJob_def Let_def
      split: if_splits)

lemma q_step_awake:
  "q_step q q' \<Longrightarrow> q_inv q \<Longrightarrow> q_awake q \<Longrightarrow> q_awake q'"
proof (induction rule: q_step.induct)
  case (Add q i now nm d opts q')
  then show ?case by (auto simp: q_add_def Let_def q_awake_def split: if_splits)
next
  case (Immediate q cb cbs now)
  show ?case
  proof (cases cb)
    case ProcessNext
    then show ?thesis by (simp add: q_processNext_awake)
  next
    case (ExecuteJob i)
    have "i \<in># q_busy q" using Immediate(1) ExecuteJob by (simp add: q_busy_def)
    with Immediate(2) have "i \<in> dom (q_jobs q)" by (auto simp: q_inv_def q_places_def)
    then obtain j where "q_jobs q i = Some j" by auto
    with Immediate(1,3) ExecuteJob show ?thesis
      by (cases "job_name j \<in> set (q_processors q)")
         (simp_all add: q_executeJob_def q_move_awake, simp add: q_awake_def Let_def)
  qed
next
  case (Timer t q)
  show ?case by (cases t) (simp_all add: q_processNext_awake)
next
  case (Settle i q rnd now r)
  have "i \<in># q_busy q" using Settle(1) by (simp add: q_busy_def)
  with Settle(3) have "i \<in> dom (q_jobs q)" by (auto simp: q_inv_def q_places_def)
  then show ?case by (auto simp: q_settle_def Let_def q_move_awake split: sum.splits)
next
  case (Remove i q q')
  then show ?case by (auto simp: q_remove_def q_awake_def split: if_splits)
qed (auto simp: q_process_def q_close_begin_def q_close_end_def q_updateJobProgress_def q_awake_def)

lemma q_reach_awake: "q_reach q q' \<Longrightarrow> q_inv q \<Longrightarrow> q_awake q \<Longrightarrow> q_awake q'"
  by (induction rule: q_reach.induct) (auto intro: q_step_awake q_reach_inv)

lemma q_awake_new: "q_awake (q_new conc att bo keepC keepF)"
  by (simp add: q_awake_def q_new_def)

lemma q_reach_concurrency:
  "q_reach q q' \<Longrightarrow> q_concurrency q' = q_concurrency q \<and> q_defaults q' = q_defaults q"
proof (induction rule: q_reach.induct)
  case (Step q q1 q2)
  have pn: "q_concurrency (q_processNext x) = q_concurrency x \<and> q_defaults (q_processNext x) = q_defaults x"
    for x by (simp add: q_processNext_def case_prod_beta)
  have mv: "q_concurrency (q_moveJobToCompleted now i r x) = q_concurrency x \<and>
      q_defaults (q_moveJobToCompleted now i r x) = q_defaults x \<and>
      q_concurrency (q_moveJobToFailed now i msg x) = q_concurrency x \<and>
      q_defaults (q_moveJobToFailed now i msg x) = q_defaults x \<and>
      q_concurrency (q_retryJob rnd i msg x) = q_concurrency x \<and>
      q_defaults (q_retryJob rnd i msg x) = q_defaults x" for now i r msg rnd x
    by (simp add: q_moveJobToCompleted_def q_moveJobToFailed_def q_retryJob_def Let_def
        split: option.splits)
  from Step(2) have "q_concurrency q2 = q_concurrency q1 \<and> q_defaults q2 = q_defaults q1"
  proof cases
    case (Add i now nm d opts)
    then show ?thesis by (auto simp: q_add_def Let_def split: if_splits)
  next
    case (Immediate cb cbs now)
    then show ?thesis by (cases cb) (auto simp: pn mv q_executeJob_def Let_def split: option.splits)
  next
    case (Timer t)
    then show ?thesis by (cases t) (simp_all add: pn)
  next
    case (Settle i rnd r now)
    then show ?thesis by (auto simp: mv q_settle_def Let_def split: option.splits sum.splits)
  next
    case (Remove i)
    then show ?thesis by (auto simp: q_remove_def split: if_splits)
  qed (simp_all add: q_process_def q_close_begin_def q_close_end_def q_updateJobProgress_def)
  with Step show ?case by simp
qed simp

section \<open>Concrete runs\<close>

text \<open>The callbacks that are due, run in order; adding a job that is accepted.\<close>

fun q_drain :: "nat \<Rightarrow> int \<Rightarrow> queue \<Rightarrow> queue" where
  "q_drain 0 now q = q"
| "q_drain (Suc n) now q =
     (case q_immediates q of
        [] \<Rightarrow> q
      | cb # cbs \<Rightarrow> q_drain n now (q_runCallback now cb (q\<lparr>q_immediates := cbs\<rparr>)))"

definition q_added :: "int \<Rightarrow> string \<Rightarrow> string \<Rightarrow> json \<Rightarrow> job_options \<Rightarrow> queue \<Rightarrow> queue" where
  "q_added now i nm d opts q = (case q_add now i nm d opts q of Inr q' \<Rightarrow> q' | Inl _ \<Rightarrow> q)"

lemma q_reach_drain: "q_reach q0 q \<Longrightarrow> q_reach q0 (q_drain n now q)"
proof (induction n arbitrary: q)
  case (Suc n)
  then show ?case
    by (cases "q_immediates q") (auto intro: q_reach.Step q_step.Immediate)
qed simp

lemma q_reach_added: "q_reach q0 q \<Longrightarrow> q_jobs q i = None \<Longrightarrow> q_reach q0 (q_added now i nm d opts q)"
  by (auto simp: q_added_def split: sum.splits intro: q_reach.Step q_step.Add)

definition q_no_options :: job_options where
  "q_no_options = \<lparr>jo_attempts = None, jo_backoff = None, jo_delay = None, jo_priority = None,
     jo_removeOnComplete = None, jo_removeOnFail = None\<rparr>"

definition q_default :: queue where
  "q_default = q_new None None None None None"

definition q_two_jobs :: queue where
  "q_two_jobs = q_drain 9 2 (q_added 1 ''b'' ''backup'' JNull q_no_options
     (q_added 0 ''a'' ''backup'' JNull q_no_options (q_process ''backup'' q_default)))"

definition q_stalled :: queue where
  "q_stalled = q_settle 3 0 ''a'' (Inl ''boom'') q_two_jobs"

lemma q_reach_two_jobs: "q_reach q_default q_two_jobs"
  unfolding q_two_jobs_def
proof (intro q_reach_drain q_reach_added)
  show "q_reach q_default (q_process ''backup'' q_default)"
    by (rule q_reach.Step [OF q_reach.Refl q_step.Register])
  show "q_jobs (q_process ''backup'' q_default) ''a'' = None"
    and "q_jobs (q_added 0 ''a'' ''backup'' JNull q_no_options (q_process ''backup'' q_default)) ''b'' = None"
    by code_simp+
qed

lemma q_reach_stalled: "q_reach q_default q_stalled"
proof -
  have "''a'' \<in> set (q_running q_two_jobs)" by code_simp
  then show ?thesis
    unfolding q_stalled_def
    by (intro q_reach.Step [OF q_reach_two_jobs] q_step.Settle) simp_all
qed

section \<open>Properties\<close>

text \<open>C35: The queue never has more processor calls in flight than its concurrency, and no job is
  in flight twice or in two of its lists, timers and callbacks at once; both hold in every state
  that adding, processing, retrying, removing and closing can lead to, also while closing.\<close>

theorem q_concurrency_bounded:
  assumes "q_reach (q_new conc att bo keepC keepF) q"
  shows "int (length (q_running q)) \<le> max 0 (or_num conc 1) \<and> distinct (q_running q) \<and>
    (\<forall>i. count (q_places q) i \<le> 1)"
proof -
  have inv: "q_inv q" by (rule q_reach_inv [OF assms q_inv_new])
  have c: "q_concurrency q = or_num conc 1"
    using q_reach_concurrency [OF assms] by (simp add: q_new_def)
  from inv have cnt: "\<forall>i. count (q_places q) i \<le> 1"
      and sz: "int (size (q_busy q)) \<le> max 0 (q_concurrency q)"
    by (simp_all add: q_inv_def)
  have "length (q_running q) \<le> size (q_busy q)" by (simp add: q_busy_def)
  with sz c q_distinct_parts(2) [OF cnt] cnt show ?thesis by auto
qed

theorem q_concurrency_bounded_witness: "int (length (q_running q_two_jobs)) \<le> 1"
  using q_concurrency_bounded [OF q_reach_two_jobs [unfolded q_default_def]] by simp

text \<open>A job's processor is called at most as often as its attempts allow (once if they allow
  none): in every reachable state the attempts counted do not exceed the maximum, and are below
  it for a job that waits to be called.\<close>

theorem q_attempts_bounded:
  assumes "q_reach (q_new conc att bo keepC keepF) q" and "q_jobs q i = Some j"
  shows "job_attempts j \<le> max 1 (maxAttempts j) \<and>
    (i \<in> q_waiting q \<longrightarrow> job_attempts j < max 1 (maxAttempts j))"
  using q_reach_tries [OF assms(1) q_inv_new q_tries_new] assms(2)
  by (auto simp: q_tries_def q_attempts_def)

theorem q_attempts_bounded_witness: "job_attempts (the (q_jobs q_stalled ''a'')) < 3"
proof -
  have m: "maxAttempts (the (q_jobs q_stalled ''a'')) = 3"
    and s: "q_jobs q_stalled ''a'' = Some (the (q_jobs q_stalled ''a''))"
    and w: "''a'' \<in> q_waiting q_stalled"
    by code_simp+
  from q_attempts_bounded [OF q_reach_stalled [unfolded q_default_def] s] m w show ?thesis by simp
qed

text \<open>No wake-up is lost for good: in every reachable state in which the queue is open and a
  job is pending with room for it, a processNext is scheduled or a timer is armed that will
  run it.\<close>

theorem q_no_lost_wakeup:
  assumes "q_reach (q_new conc att bo keepC keepF) q"
    and "\<not> q_isClosed q" and "q_pending q \<noteq> []" and "int (length (q_active q)) < q_concurrency q"
  shows "ProcessNext \<in> set (q_immediates q) \<or> q_timers q \<noteq> []"
  using q_reach_awake [OF assms(1) q_inv_new q_awake_new] assms(2-) by (auto simp: q_awake_def)

lemma q_stalled_facts:
  "\<not> q_isClosed q_stalled" "q_pending q_stalled = [''b'']" "q_active q_stalled = []"
  "q_running q_stalled = []" "q_immediates q_stalled = []"
  "q_timers q_stalled = [RetryPush ''a'']" "q_concurrency q_stalled = 1"
  by code_simp+

theorem q_no_lost_wakeup_witness: "q_timers q_stalled \<noteq> []"
  using q_no_lost_wakeup [OF q_reach_stalled [unfolded q_default_def]] q_stalled_facts by simp

text \<open>But a wake-up can be late by a whole backoff: with the default options there is a
  reachable state in which a job that has never been tried is pending, nothing is active and
  nothing is scheduled, and the only timer is the retry of another job. Putting a failed job off
  frees its slot without calling processNext.\<close>

theorem q_retry_stalls:
  "\<exists>q. q_reach (q_new None None None None None) q \<and> \<not> q_isClosed q \<and> q_pending q = [''b''] \<and>
     q_active q = [] \<and> q_running q = [] \<and> q_immediates q = [] \<and> q_timers q = [RetryPush ''a'']"
  using q_reach_stalled q_stalled_facts unfolding q_default_def by blast

text \<open>The delay before a retry doubles with the attempt and the jitter adds at most a tenth:
  for a non-negative base delay it lies between the base times 2 to the attempts made so far
  less one and eleven tenths of that; a fixed backoff is the base delay itself.\<close>

theorem q_backoff_bounds:
  assumes "rnd < 2 ^ 53" and "0 \<le> bo_delay bo"
  shows "if bo_type bo = bo_fixed then q_calculateBackoff rnd n bo = bo_delay bo
    else bo_delay bo * 2 ^ nat (n - 1) \<le> q_calculateBackoff rnd n bo \<and>
      10 * q_calculateBackoff rnd n bo \<le> 11 * (bo_delay bo * 2 ^ nat (n - 1))"
proof (cases "bo_type bo = bo_fixed")
  case False
  define e where "e = bo_delay bo * 2 ^ nat (n - 1)"
  have e: "0 \<le> e" using assms(2) by (simp add: e_def)
  have "int rnd < int (2 ^ 53)" using assms(1) by (simp only: of_nat_less_iff)
  then have rnd: "int rnd \<le> 2 ^ 53" by simp
  have "int rnd * e \<le> 2 ^ 53 * e"
    by (rule mult_right_mono [OF rnd e])
  then have "(int rnd * e) div (10 * 2 ^ 53) \<le> (2 ^ 53 * e) div (10 * 2 ^ 53)"
    by (rule zdiv_mono1) simp
  also have "\<dots> = e div 10" by (simp add: mult.commute [of 10])
  finally have "10 * ((int rnd * e) div (10 * 2 ^ 53)) \<le> e" by linarith
  moreover have "0 \<le> (int rnd * e) div (10 * 2 ^ 53)" using e by (simp add: pos_imp_zdiv_nonneg_iff)
  ultimately show ?thesis using False by (simp add: q_calculateBackoff_def Let_def e_def [symmetric])
qed (simp add: q_calculateBackoff_def)

theorem q_backoff_bounds_witness:
  "q_calculateBackoff 1 2 \<lparr>bo_type = bo_exponential, bo_delay = 30000\<rparr> \<le> 66000"
  using q_backoff_bounds [of 1 "\<lparr>bo_type = bo_exponential, bo_delay = 30000\<rparr>" 2] by simp

end
