(* ===== verification/KeyedMutex.thy ===== *)
theory KeyedMutex
  imports Prelude
begin

text \<open>
  The per-key mutex of \<open>lib/keyed-mutex.ts\<close>. A call of \<open>runExclusive\<close> is a ticket, numbered in
  call order, with the promise it makes: it waits for the tail of its key at the time of the
  call, runs its callback, and settles whatever the callback does. The steps are the reactions
  of the event loop, in any order the promises allow.
\<close>

section \<open>State and operations\<close>

datatype ticket_state = Waiting | Running | Done

record ticket =
  tk_key :: string
  tk_prev :: "nat option"
  tk_state :: ticket_state

record mutex =
  km_tails :: "string \<Rightarrow> nat option"
  km_tickets :: "nat \<Rightarrow> ticket option"
  km_next :: nat

definition km_new :: mutex where
  "km_new = \<lparr>km_tails = (\<lambda>_. None), km_tickets = (\<lambda>_. None), km_next = 0\<rparr>"

text \<open>The call: chain onto the tail of the key and become its tail.\<close>

definition km_runExclusive :: "string \<Rightarrow> mutex \<Rightarrow> nat \<times> mutex" where
  "km_runExclusive k m =
     (let n = km_next m in
      (n, m\<lparr>km_tails := (km_tails m)(k \<mapsto> n),
            km_tickets := (km_tickets m)
              (n \<mapsto> \<lparr>tk_key = k, tk_prev = km_tails m k, tk_state = Waiting\<rparr>),
            km_next := Suc n\<rparr>))"

definition km_is :: "ticket_state \<Rightarrow> mutex \<Rightarrow> nat \<Rightarrow> bool" where
  "km_is s m n = (case km_tickets m n of None \<Rightarrow> False | Some t \<Rightarrow> tk_state t = s)"

definition km_set_state :: "ticket_state \<Rightarrow> nat \<Rightarrow> mutex \<Rightarrow> mutex" where
  "km_set_state s n m =
     m\<lparr>km_tickets := (km_tickets m)(n := map_option (tk_state_update (\<lambda>_. s)) (km_tickets m n))\<rparr>"

text \<open>The callback may start once the previous tail is settled.\<close>

definition km_can_start :: "mutex \<Rightarrow> nat \<Rightarrow> bool" where
  "km_can_start m n =
     (case km_tickets m n of
        None \<Rightarrow> False
      | Some t \<Rightarrow> tk_state t = Waiting \<and>
          (case tk_prev t of None \<Rightarrow> True | Some p \<Rightarrow> km_is Done m p))"

definition km_start :: "nat \<Rightarrow> mutex \<Rightarrow> mutex" where
  "km_start n m = (if km_can_start m n then km_set_state Running n m else m)"

text \<open>The callback's promise settles, with a result or an error alike.\<close>

definition km_settle :: "nat \<Rightarrow> mutex \<Rightarrow> mutex" where
  "km_settle n m = (if km_is Running m n then km_set_state Done n m else m)"

text \<open>The last reaction drops the entry of the map if the ticket is still the tail.\<close>

definition km_cleanup :: "nat \<Rightarrow> mutex \<Rightarrow> mutex" where
  "km_cleanup n m =
     (case km_tickets m n of
        None \<Rightarrow> m
      | Some t \<Rightarrow>
          if tk_state t = Done \<and> km_tails m (tk_key t) = Some n
          then m\<lparr>km_tails := (km_tails m)(tk_key t := None)\<rparr> else m)"

section \<open>Steps\<close>

inductive km_step :: "mutex \<Rightarrow> mutex \<Rightarrow> bool" where
  Call: "km_step m (snd (km_runExclusive k m))"
| Start: "km_step m (km_start n m)"
| Settle: "km_step m (km_settle n m)"
| Cleanup: "km_step m (km_cleanup n m)"

inductive km_reach :: "mutex \<Rightarrow> bool" where
  Init: "km_reach km_new"
| Step: "km_reach m \<Longrightarrow> km_step m m' \<Longrightarrow> km_reach m'"

section \<open>Invariant\<close>

text \<open>
  Tickets are numbered in call order; the tail of a key is its latest ticket, or all its tickets
  are settled; a ticket's predecessor is the one called before it on its key, or all those are
  settled; whoever has started has nobody unsettled before it.
\<close>

definition km_before :: "mutex \<Rightarrow> nat \<Rightarrow> nat \<Rightarrow> bool" where
  "km_before m a b \<longleftrightarrow> a < b \<and>
     (\<exists>s t. km_tickets m a = Some s \<and> km_tickets m b = Some t \<and> tk_key s = tk_key t)"

definition km_inv :: "mutex \<Rightarrow> bool" where
  "km_inv m \<longleftrightarrow>
     (\<forall>n. km_tickets m n \<noteq> None \<longleftrightarrow> n < km_next m) \<and>
     (\<forall>n t. km_tickets m n = Some t \<longrightarrow> km_tails m (tk_key t) = None \<longrightarrow> tk_state t = Done) \<and>
     (\<forall>n t l. km_tickets m n = Some t \<longrightarrow> km_tails m (tk_key t) = Some l \<longrightarrow> n \<le> l) \<and>
     (\<forall>k l. km_tails m k = Some l \<longrightarrow> (\<exists>t. km_tickets m l = Some t \<and> tk_key t = k)) \<and>
     (\<forall>n t a. km_tickets m n = Some t \<longrightarrow> km_before m a n \<longrightarrow> tk_prev t = None \<longrightarrow>
        km_is Done m a) \<and>
     (\<forall>n t a p. km_tickets m n = Some t \<longrightarrow> km_before m a n \<longrightarrow> tk_prev t = Some p \<longrightarrow> a \<le> p) \<and>
     (\<forall>n t p. km_tickets m n = Some t \<longrightarrow> tk_prev t = Some p \<longrightarrow> km_before m p n) \<and>
     (\<forall>n t a. km_tickets m n = Some t \<longrightarrow> tk_state t \<noteq> Waiting \<longrightarrow> km_before m a n \<longrightarrow>
        km_is Done m a)"

lemma km_invD:
  assumes "km_inv m"
  shows "km_tickets m n \<noteq> None \<longleftrightarrow> n < km_next m"
    and "km_tickets m n = Some t \<Longrightarrow> km_tails m (tk_key t) = None \<Longrightarrow> tk_state t = Done"
    and "km_tickets m n = Some t \<Longrightarrow> km_tails m (tk_key t) = Some l \<Longrightarrow> n \<le> l"
    and "km_tails m k = Some l \<Longrightarrow> \<exists>t. km_tickets m l = Some t \<and> tk_key t = k"
    and "km_tickets m n = Some t \<Longrightarrow> km_before m a n \<Longrightarrow> tk_prev t = None \<Longrightarrow> km_is Done m a"
    and "km_tickets m n = Some t \<Longrightarrow> km_before m a n \<Longrightarrow> tk_prev t = Some p \<Longrightarrow> a \<le> p"
    and "km_tickets m n = Some t \<Longrightarrow> tk_prev t = Some p \<Longrightarrow> km_before m p n"
    and "km_tickets m n = Some t \<Longrightarrow> tk_state t \<noteq> Waiting \<Longrightarrow> km_before m a n \<Longrightarrow> km_is Done m a"
proof -
  note inv = assms [unfolded km_inv_def]
  from inv show "km_tickets m n \<noteq> None \<longleftrightarrow> n < km_next m" by (elim conjE) (erule spec)
  show "tk_state t = Done" if "km_tickets m n = Some t" and "km_tails m (tk_key t) = None"
    using inv that by meson
  show "n \<le> l" if "km_tickets m n = Some t" and "km_tails m (tk_key t) = Some l"
    using inv that by meson
  show "\<exists>t. km_tickets m l = Some t \<and> tk_key t = k" if "km_tails m k = Some l"
    using inv that by meson
  show "km_is Done m a"
    if "km_tickets m n = Some t" and "km_before m a n" and "tk_prev t = None"
    using inv that by meson
  show "a \<le> p" if "km_tickets m n = Some t" and "km_before m a n" and "tk_prev t = Some p"
    using inv that by meson
  show "km_before m p n" if "km_tickets m n = Some t" and "tk_prev t = Some p"
    using inv that by meson
  show "km_is Done m a"
    if "km_tickets m n = Some t" and "tk_state t \<noteq> Waiting" and "km_before m a n"
    using inv that by meson
qed

lemma km_set_tickets:
  "km_tickets (km_set_state s n m) i =
     (if i = n then map_option (tk_state_update (\<lambda>_. s)) (km_tickets m n) else km_tickets m i)"
  "km_tails (km_set_state s n m) = km_tails m" "km_next (km_set_state s n m) = km_next m"
  by (simp_all add: km_set_state_def)

lemma km_set_before: "km_before (km_set_state s n m) a b = km_before m a b"
  by (auto simp: km_before_def km_set_tickets)

lemma km_set_is:
  "km_is s' (km_set_state s n m) a \<longleftrightarrow>
     (if a = n then km_tickets m n \<noteq> None \<and> s' = s else km_is s' m a)"
  by (auto simp: km_is_def km_set_tickets split: option.splits)

lemma km_set_inv:
  assumes inv: "km_inv m" and tk: "km_tickets m n = Some u"
    and up: "tk_state u \<noteq> Done" and to: "s \<noteq> Waiting"
    and before: "\<And>a. km_before m a n \<Longrightarrow> km_is Done m a"
  shows "km_inv (km_set_state s n m)"
  unfolding km_inv_def km_set_before km_set_is
proof (intro conjI allI impI)
  note D = km_invD [OF inv]
  have n_not: "\<not> km_is Done m n" using tk up by (simp add: km_is_def)
  show "km_tickets (km_set_state s n m) i \<noteq> None \<longleftrightarrow> i < km_next (km_set_state s n m)" for i
    using D(1) [of i] by (auto simp: km_set_tickets)
  show "tk_state t = Done"
    if "km_tickets (km_set_state s n m) i = Some t"
      and "km_tails (km_set_state s n m) (tk_key t) = None" for i t
    using that D(2) [of i t] D(2) [of n u] tk up by (auto simp: km_set_tickets split: if_splits)
  show "i \<le> l"
    if "km_tickets (km_set_state s n m) i = Some t"
      and "km_tails (km_set_state s n m) (tk_key t) = Some l" for i t l
    using that D(3) [of i t l] D(3) [of n u l] tk by (auto simp: km_set_tickets split: if_splits)
  show "\<exists>t. km_tickets (km_set_state s n m) l = Some t \<and> tk_key t = k"
    if "km_tails (km_set_state s n m) k = Some l" for k l
    using that D(4) by (fastforce simp: km_set_tickets)
  show "if a = n then km_tickets m n \<noteq> None \<and> Done = s else km_is Done m a"
    if "km_tickets (km_set_state s n m) i = Some t" and "km_before m a i" and "tk_prev t = None"
    for i t a
  proof -
    from that(1,3) obtain t0 where "km_tickets m i = Some t0" "tk_prev t0 = None"
      by (auto simp: km_set_tickets split: if_splits)
    with D(5) [of i t0 a] that(2) n_not show ?thesis by auto
  qed
  show "a \<le> p"
    if "km_tickets (km_set_state s n m) i = Some t" and "km_before m a i" and "tk_prev t = Some p"
    for i t a p
  proof -
    from that(1,3) obtain t0 where "km_tickets m i = Some t0" "tk_prev t0 = Some p"
      by (auto simp: km_set_tickets split: if_splits)
    with D(6) [of i t0 a p] that(2) show ?thesis by auto
  qed
  show "km_before m p i"
    if "km_tickets (km_set_state s n m) i = Some t" and "tk_prev t = Some p" for i t p
    using that D(7) by (auto simp: km_set_tickets split: if_splits)
  show "if a = n then km_tickets m n \<noteq> None \<and> Done = s else km_is Done m a"
    if "km_tickets (km_set_state s n m) i = Some t" and "tk_state t \<noteq> Waiting" and "km_before m a i"
    for i t a
  proof (cases "i = n")
    case True
    with that(3) before n_not show ?thesis by (auto simp: km_before_def)
  next
    case False
    with that D(8) [of i t a] n_not show ?thesis by (auto simp: km_set_tickets)
  qed
qed

lemma km_start_inv:
  assumes inv: "km_inv m"
  shows "km_inv (km_start n m)"
proof (cases "km_can_start m n")
  case True
  then obtain t where t: "km_tickets m n = Some t" "tk_state t = Waiting"
    by (auto simp: km_can_start_def split: option.splits)
  have "km_is Done m a" if a: "km_before m a n" for a
  proof (cases "tk_prev t")
    case None
    with km_invD(5) [OF inv t(1) a] show ?thesis by simp
  next
    case (Some p)
    from True t Some have p: "km_is Done m p" by (simp add: km_can_start_def)
    have "a \<le> p" by (rule km_invD(6) [OF inv t(1) a Some])
    show ?thesis
    proof (cases "a = p")
      case False
      with \<open>a \<le> p\<close> km_invD(7) [OF inv t(1) Some] a have "km_before m a p"
        by (auto simp: km_before_def)
      moreover from p obtain u where "km_tickets m p = Some u" "tk_state u = Done"
        by (auto simp: km_is_def split: option.splits)
      ultimately show ?thesis using km_invD(8) [OF inv, of p u a] by simp
    qed (use p in simp)
  qed
  then show ?thesis
    using km_set_inv [OF inv t(1), of Running] t(2) True by (simp add: km_start_def)
qed (simp add: km_start_def inv)

lemma km_settle_inv:
  assumes inv: "km_inv m"
  shows "km_inv (km_settle n m)"
proof (cases "km_is Running m n")
  case True
  then obtain t where t: "km_tickets m n = Some t" "tk_state t = Running"
    by (auto simp: km_is_def split: option.splits)
  with km_invD(8) [OF inv t(1)] show ?thesis
    using km_set_inv [OF inv t(1), of Done] True by (simp add: km_settle_def)
qed (simp add: km_settle_def inv)

lemma km_cleanup_inv:
  assumes inv: "km_inv m"
  shows "km_inv (km_cleanup n m)"
proof (cases "\<exists>t. km_tickets m n = Some t \<and> tk_state t = Done \<and> km_tails m (tk_key t) = Some n")
  case True
  then obtain t where t: "km_tickets m n = Some t" "tk_state t = Done" "km_tails m (tk_key t) = Some n"
    by blast
  have all: "tk_state u = Done" if u: "km_tickets m i = Some u" "tk_key u = tk_key t" for i u
  proof (cases "i = n")
    case False
    with km_invD(3) [OF inv u(1)] t u have "km_before m i n" by (auto simp: km_before_def)
    with km_invD(8) [OF inv t(1), of i] t(2) have "km_is Done m i" by simp
    with u(1) show ?thesis by (simp add: km_is_def)
  qed (use t u in simp)
  let ?m = "m\<lparr>km_tails := (km_tails m)(tk_key t := None)\<rparr>"
  have eq: "km_cleanup n m = ?m" using t by (simp add: km_cleanup_def)
  have same: "km_before ?m = km_before m" "km_is s ?m = km_is s m" for s
    by (auto simp: km_before_def km_is_def fun_eq_iff)
  show ?thesis
    using inv all unfolding eq km_inv_def same by auto
next
  case False
  then have "km_cleanup n m = m" by (auto simp: km_cleanup_def split: option.splits)
  with inv show ?thesis by simp
qed

lemma km_call_inv:
  assumes inv: "km_inv m"
  shows "km_inv (snd (km_runExclusive k m))"
proof -
  let ?n = "km_next m" and ?m = "snd (km_runExclusive k m)"
  note D = km_invD [OF inv]
  have tk: "km_tickets ?m i =
      (if i = ?n then Some \<lparr>tk_key = k, tk_prev = km_tails m k, tk_state = Waiting\<rparr>
       else km_tickets m i)" for i
    by (simp add: km_runExclusive_def Let_def)
  have tl: "km_tails ?m = (km_tails m)(k \<mapsto> ?n)" "km_next ?m = Suc ?n"
    by (simp_all add: km_runExclusive_def Let_def)
  have none: "km_tickets m ?n = None" using D(1) [of ?n] by auto
  have lt: "i < ?n" if "km_tickets m i = Some t" for i t using that D(1) [of i] by auto
  have before: "km_before ?m a b \<longleftrightarrow>
      (if b = ?n then (\<exists>s. km_tickets m a = Some s \<and> tk_key s = k) else km_before m a b)" for a b
    using none lt by (fastforce simp: km_before_def tk)
  have done_iff: "km_is Done ?m a = km_is Done m a" for a
    using none by (simp add: km_is_def tk)
  show ?thesis
    unfolding km_inv_def before done_iff
  proof (intro conjI allI impI)
    show "km_tickets ?m i \<noteq> None \<longleftrightarrow> i < km_next ?m" for i
      using D(1) [of i] by (auto simp: tk tl less_Suc_eq)
    show "tk_state t = Done" if "km_tickets ?m i = Some t" and "km_tails ?m (tk_key t) = None" for i t
      using that D(2) [of i t] by (auto simp: tk tl split: if_splits)
    show "i \<le> l" if "km_tickets ?m i = Some t" and "km_tails ?m (tk_key t) = Some l" for i t l
      using that D(3) [of i t l] lt [of i t] by (auto simp: tk tl split: if_splits)
    show "\<exists>t. km_tickets ?m l = Some t \<and> tk_key t = k'" if "km_tails ?m k' = Some l" for k' l
      using that D(4) [of k' l] none by (auto simp: tk tl split: if_splits)
    show "km_is Done m a"
      if "km_tickets ?m i = Some t"
        and "if i = ?n then (\<exists>s. km_tickets m a = Some s \<and> tk_key s = k) else km_before m a i"
        and "tk_prev t = None" for i t a
    proof (cases "i = ?n")
      case True
      with that obtain s where "km_tickets m a = Some s" "tk_key s = k" by auto
      with D(2) [of a s] True that show ?thesis by (auto simp: tk km_is_def)
    next
      case False
      with that D(5) [of i t a] show ?thesis by (simp add: tk)
    qed
    show "a \<le> p"
      if "km_tickets ?m i = Some t"
        and "if i = ?n then (\<exists>s. km_tickets m a = Some s \<and> tk_key s = k) else km_before m a i"
        and "tk_prev t = Some p" for i t a p
    proof (cases "i = ?n")
      case True
      with that obtain s where "km_tickets m a = Some s" "tk_key s = k" by auto
      with D(3) [of a s p] True that show ?thesis by (auto simp: tk)
    next
      case False
      with that D(6) [of i t a p] show ?thesis by (simp add: tk)
    qed
    show "if i = ?n then (\<exists>s. km_tickets m p = Some s \<and> tk_key s = k) else km_before m p i"
      if "km_tickets ?m i = Some t" and "tk_prev t = Some p" for i t p
      using that D(4) [of k p] D(7) [of i t p] by (auto simp: tk split: if_splits)
    show "km_is Done m a"
      if "km_tickets ?m i = Some t" and "tk_state t \<noteq> Waiting"
        and "if i = ?n then (\<exists>s. km_tickets m a = Some s \<and> tk_key s = k) else km_before m a i" for i t a
      using that D(8) [of i t a] by (auto simp: tk split: if_splits)
  qed
qed

lemma km_reach_inv: "km_reach m \<Longrightarrow> km_inv m"
proof (induction rule: km_reach.induct)
  case Init
  show ?case by (simp add: km_inv_def km_new_def km_before_def)
next
  case (Step m m')
  from Step(2,3) show ?case
    by cases (simp_all add: km_call_inv km_start_inv km_settle_inv km_cleanup_inv)
qed

section \<open>Properties\<close>

text \<open>C37: Callbacks of one key run one at a time and in call order: in every state the event loop
  can reach, when a callback has started, every earlier call on its key has settled, so no two
  callbacks of a key are running.\<close>

theorem km_exclusive_fifo:
  assumes "km_reach m" and "km_is Running m b \<or> km_is Done m b" and "km_before m a b"
  shows "km_is Done m a \<and> \<not> km_is Running m a"
proof -
  from assms(2) obtain t where t: "km_tickets m b = Some t" "tk_state t \<noteq> Waiting"
    by (auto simp: km_is_def split: option.splits)
  have "km_is Done m a" by (rule km_invD(8) [OF km_reach_inv [OF assms(1)] t assms(3)])
  then show ?thesis by (auto simp: km_is_def split: option.splits)
qed

definition km_sample :: mutex where
  "km_sample = km_start 1 (km_settle 0 (km_start 1 (km_start 0
     (snd (km_runExclusive ''k'' (snd (km_runExclusive ''k'' km_new)))))))"

lemma km_sample_reach: "km_reach km_sample"
  unfolding km_sample_def
  by (intro km_reach.Step [OF _ km_step.Start] km_reach.Step [OF _ km_step.Settle]
      km_reach.Step [OF _ km_step.Call] km_reach.Init)

theorem km_exclusive_fifo_witness: "km_is Done km_sample 0 \<and> km_is Running km_sample 1"
proof -
  have r: "km_is Running km_sample 1" by code_simp
  have "km_tickets km_sample 0 = Some \<lparr>tk_key = ''k'', tk_prev = None, tk_state = Done\<rparr>"
    "km_tickets km_sample 1 = Some \<lparr>tk_key = ''k'', tk_prev = Some 0, tk_state = Running\<rparr>"
    by code_simp+
  then have "km_before km_sample 0 1" by (simp add: km_before_def)
  with km_exclusive_fifo [OF km_sample_reach] r show ?thesis by blast
qed

text \<open>No call is left behind: as long as a call on a key has not settled, some call on that key
  is running or may start, whatever the calls before it did; a callback that throws blocks
  nobody.\<close>

theorem km_progress:
  assumes "km_reach m" and "km_tickets m n = Some t" and "tk_state t \<noteq> Done"
  shows "\<exists>i u. km_tickets m i = Some u \<and> tk_key u = tk_key t \<and> i \<le> n \<and>
    (tk_state u = Running \<or> km_can_start m i)"
  using assms(2,3)
proof (induction n arbitrary: t rule: less_induct)
  case (less n)
  have inv: "km_inv m" by (rule km_reach_inv [OF assms(1)])
  show ?case
  proof (cases "tk_state t = Running \<or> km_can_start m n")
    case True
    with less.prems show ?thesis by blast
  next
    case False
    with less.prems have "tk_state t = Waiting" by (cases "tk_state t") auto
    with False less.prems obtain p where p: "tk_prev t = Some p" "\<not> km_is Done m p"
      by (auto simp: km_can_start_def split: option.splits)
    from km_invD(7) [OF inv less.prems(1) p(1)] less.prems(1) obtain u
      where u: "p < n" "km_tickets m p = Some u" "tk_key u = tk_key t"
      by (auto simp: km_before_def)
    with p(2) have "tk_state u \<noteq> Done" by (simp add: km_is_def)
    from less.IH [OF u(1,2) this] u(1,3) show ?thesis by (metis less_or_eq_imp_le le_trans)
  qed
qed

theorem km_progress_witness:
  "\<exists>i u. km_tickets km_sample i = Some u \<and> (tk_state u = Running \<or> km_can_start km_sample i)"
proof -
  have "km_tickets km_sample 1 = Some \<lparr>tk_key = ''k'', tk_prev = Some 0, tk_state = Running\<rparr>"
    by code_simp
  from km_progress [OF km_sample_reach this] show ?thesis by auto
qed

end
