(* ===== verification/MembershipStore.thy ===== *)
theory MembershipStore
  imports KeyedMutex
begin

text \<open>
  The desired-state tables of networks and of who belongs to them,
  \<open>networks/membership-store.ts\<close>: the find-or-create operations on \<open>ManagedNetwork\<close> and
  \<open>NetworkMembership\<close> rows, first as each runs alone, then \<open>upsertNetworkMembership\<close> as the
  source runs it, its find and its write separate database calls under the keyed mutex. The
  database is a parameter only in its ids, which are numbers here, and in what can fail; rows
  are kept in creation order, which is the order \<open>findFirst\<close> looks through.
\<close>

section \<open>Rows\<close>

datatype net_scope = Sc_host | Sc_environment | Sc_stack

datatype membership_source = Src_template | Src_user | Src_egress | Src_haproxy | Src_system

record network_identity =
  ni_scope :: net_scope
  ni_environmentId :: "string option"
  ni_stackId :: "string option"
  ni_purpose :: string

record managed_network =
  mn_id :: nat
  mn_identity :: network_identity
  mn_name :: string
  mn_driver :: string
  mn_options :: "json option"
  mn_enforceMemberships :: bool

text \<open>A membership is of a stack service or of a container known by name.\<close>

record membership_target =
  mt_stackServiceId :: "string option"
  mt_containerName :: "string option"

record membership =
  nm_id :: nat
  nm_networkId :: nat
  nm_target :: membership_target
  nm_aliases :: "string list option"
  nm_staticIp :: "string option"
  nm_source :: membership_source
  nm_createdBy :: "string option"

record upsert_input =
  ui_target :: membership_target
  ui_networkId :: nat
  ui_source :: membership_source
  ui_aliases :: "string list option"
  ui_staticIp :: "string option"
  ui_createdBy :: "string option"

record net_db =
  db_networks :: "managed_network list"
  db_memberships :: "membership list"
  db_next :: nat

type_synonym 'a db_result = "(string + 'a) \<times> net_db"

section \<open>Managed networks\<close>

definition ms_create_network ::
  "network_identity \<Rightarrow> string \<Rightarrow> string option \<Rightarrow> json option \<Rightarrow> net_db \<Rightarrow> nat \<times> net_db" where
  "ms_create_network ident name driver options db =
     (db_next db,
      db\<lparr>db_networks := db_networks db @
           [\<lparr>mn_id = db_next db, mn_identity = ident, mn_name = name,
             mn_driver = or_str driver ''bridge'', mn_options = options,
             mn_enforceMemberships = False\<rparr>],
         db_next := Suc (db_next db)\<rparr>)"

definition upsertManagedNetworkByIdentity ::
  "network_identity \<Rightarrow> string \<Rightarrow> string option \<Rightarrow> json option \<Rightarrow> net_db \<Rightarrow> nat \<times> net_db" where
  "upsertManagedNetworkByIdentity ident name driver options db =
     (case find (\<lambda>r. mn_identity r = ident) (db_networks db) of
        Some r \<Rightarrow> (mn_id r, db)
      | None \<Rightarrow>
          (case find (\<lambda>r. mn_name r = name) (db_networks db) of
             Some r \<Rightarrow> (mn_id r, db)
           | None \<Rightarrow> ms_create_network ident name driver options db))"

definition findOrCreateManagedNetworkByName ::
  "string \<Rightarrow> network_identity \<Rightarrow> net_db \<Rightarrow> nat \<times> net_db" where
  "findOrCreateManagedNetworkByName name fallback db =
     (case find (\<lambda>r. mn_name r = name) (db_networks db) of
        Some r \<Rightarrow> (mn_id r, db)
      | None \<Rightarrow> ms_create_network fallback name None None db)"

section \<open>Memberships\<close>

text \<open>The identity a membership is looked up by.\<close>

definition ms_ident :: "membership \<Rightarrow> nat \<times> membership_target" where
  "ms_ident r = (nm_networkId r, nm_target r)"

definition ui_ident :: "upsert_input \<Rightarrow> nat \<times> membership_target" where
  "ui_ident i = (ui_networkId i, ui_target i)"

text \<open>The check before anything else: exactly one of the two names.\<close>

definition ms_check :: "upsert_input \<Rightarrow> string option" where
  "ms_check i =
     (let s = mt_stackServiceId (ui_target i); c = mt_containerName (ui_target i)
      in if \<not> truthy s \<and> \<not> truthy c
         then Some ''upsertNetworkMembership requires exactly one of stackServiceId/containerName''
         else if truthy s \<and> truthy c
         then Some ''upsertNetworkMembership requires exactly one of stackServiceId/containerName, not both''
         else None)"

text \<open>The \<open>findFirst\<close>, the refresh of what is re-derived on every call, and the \<open>create\<close>.\<close>

definition ms_find :: "upsert_input \<Rightarrow> membership list \<Rightarrow> nat option" where
  "ms_find i rows = map_option nm_id (find (\<lambda>r. ms_ident r = ui_ident i) rows)"

definition ms_refresh :: "upsert_input \<Rightarrow> membership \<Rightarrow> membership" where
  "ms_refresh i r = r\<lparr>
     nm_aliases := (case ui_aliases i of None \<Rightarrow> nm_aliases r | Some a \<Rightarrow> Some a),
     nm_staticIp := (case ui_staticIp i of None \<Rightarrow> nm_staticIp r | Some a \<Rightarrow> Some a)\<rparr>"

definition ms_write :: "upsert_input \<Rightarrow> nat option \<Rightarrow> net_db \<Rightarrow> bool \<times> net_db" where
  "ms_write i found db =
     (case found of
        Some rid \<Rightarrow>
          (False, db\<lparr>db_memberships :=
             map (\<lambda>r. if nm_id r = rid then ms_refresh i r else r) (db_memberships db)\<rparr>)
      | None \<Rightarrow>
          (True, db\<lparr>db_memberships := db_memberships db @
             [\<lparr>nm_id = db_next db, nm_networkId = ui_networkId i, nm_target = ui_target i,
               nm_aliases = ui_aliases i, nm_staticIp = ui_staticIp i, nm_source = ui_source i,
               nm_createdBy = ui_createdBy i\<rparr>],
             db_next := Suc (db_next db)\<rparr>))"

definition upsertNetworkMembership :: "upsert_input \<Rightarrow> net_db \<Rightarrow> bool db_result" where
  "upsertNetworkMembership i db =
     (case ms_check i of
        Some msg \<Rightarrow> (Inl msg, db)
      | None \<Rightarrow>
          (let (created, db') = ms_write i (ms_find i (db_memberships db)) db
           in (Inr created, db')))"

text \<open>The target of a service: its container's name if it is adopted, else its id.\<close>

definition resolveMembershipTarget ::
  "string \<Rightarrow> string \<Rightarrow> string option \<Rightarrow> membership_target" where
  "resolveMembershipTarget sid serviceType adopted =
     (if serviceType = ''AdoptedWeb'' \<and> truthy adopted
      then \<lparr>mt_stackServiceId = None, mt_containerName = adopted\<rparr>
      else \<lparr>mt_stackServiceId = Some sid, mt_containerName = None\<rparr>)"

text \<open>A failing write is logged; what it had written before stays.\<close>

definition safeMembershipWrite :: "(net_db \<Rightarrow> unit db_result) \<Rightarrow> net_db \<Rightarrow> net_db" where
  "safeMembershipWrite fn db = snd (fn db)"

section \<open>Concurrent upserts\<close>

text \<open>The mutex key of an upsert: the template literal of its three fields.\<close>

definition ms_key :: "upsert_input \<Rightarrow> string" where
  "ms_key i = string_of_nat (ui_networkId i) @ '':'' @
     nullish (mt_stackServiceId (ui_target i)) [] @ '':'' @
     nullish (mt_containerName (ui_target i)) []"

record store =
  st_mutex :: mutex
  st_db :: net_db
  st_calls :: "nat \<Rightarrow> upsert_input option"
  st_found :: "nat \<Rightarrow> nat option option"

definition ms_call :: "upsert_input \<Rightarrow> store \<Rightarrow> store" where
  "ms_call i s =
     (let (n, m) = km_runExclusive (ms_key i) (st_mutex s)
      in s\<lparr>st_mutex := m, st_calls := (st_calls s)(n \<mapsto> i)\<rparr>)"

text \<open>The callback's two database calls; the second ends it. It may also fail at any time.\<close>

definition ms_do_find :: "nat \<Rightarrow> store \<Rightarrow> store" where
  "ms_do_find n s =
     (case st_calls s n of
        Some i \<Rightarrow>
          if km_is Running (st_mutex s) n \<and> st_found s n = None
          then s\<lparr>st_found := (st_found s)(n \<mapsto> ms_find i (db_memberships (st_db s)))\<rparr> else s
      | None \<Rightarrow> s)"

definition ms_do_write :: "nat \<Rightarrow> store \<Rightarrow> store" where
  "ms_do_write n s =
     (case (st_calls s n, st_found s n) of
        (Some i, Some found) \<Rightarrow>
          if km_is Running (st_mutex s) n
          then s\<lparr>st_db := snd (ms_write i found (st_db s)), st_mutex := km_settle n (st_mutex s)\<rparr>
          else s
      | _ \<Rightarrow> s)"

inductive ms_step :: "store \<Rightarrow> store \<Rightarrow> bool" where
  Call: "ms_check i = None \<Longrightarrow> ms_step s (ms_call i s)"
| Start: "ms_step s (s\<lparr>st_mutex := km_start n (st_mutex s)\<rparr>)"
| Find: "ms_step s (ms_do_find n s)"
| Write: "ms_step s (ms_do_write n s)"
| Fail: "ms_step s (s\<lparr>st_mutex := km_settle n (st_mutex s)\<rparr>)"
| Cleanup: "ms_step s (s\<lparr>st_mutex := km_cleanup n (st_mutex s)\<rparr>)"

inductive ms_reach :: "store \<Rightarrow> store \<Rightarrow> bool" where
  Refl: "ms_reach s s"
| Step: "ms_reach s s1 \<Longrightarrow> ms_step s1 s2 \<Longrightarrow> ms_reach s s2"

definition ms_initial :: "net_db \<Rightarrow> store" where
  "ms_initial db = \<lparr>st_mutex = km_new, st_db = db, st_calls = (\<lambda>_. None), st_found = (\<lambda>_. None)\<rparr>"

section \<open>Lemmas\<close>

definition ms_idents :: "net_db \<Rightarrow> (nat \<times> membership_target) list" where
  "ms_idents db = map ms_ident (db_memberships db)"

definition db_wf :: "net_db \<Rightarrow> bool" where
  "db_wf db \<longleftrightarrow> distinct (ms_idents db) \<and> distinct (map nm_id (db_memberships db)) \<and>
     (\<forall>r \<in> set (db_memberships db). nm_id r < db_next db)"

lemma ms_refresh_simps [simp]:
  "nm_id (ms_refresh i r) = nm_id r" "ms_ident (ms_refresh i r) = ms_ident r"
  "nm_source (ms_refresh i r) = nm_source r" "nm_createdBy (ms_refresh i r) = nm_createdBy r"
  by (simp_all add: ms_refresh_def ms_ident_def)

lemma ms_find_None: "ms_find i rows = None \<longleftrightarrow> ui_ident i \<notin> ms_ident ` set rows"
  by (auto simp: ms_find_def find_None_iff image_iff)

lemma ms_find_Some: "ms_find i rows = Some rid \<Longrightarrow> \<exists>r \<in> set rows. nm_id r = rid \<and> ms_ident r = ui_ident i"
  by (auto simp: ms_find_def find_Some_iff)

lemma ms_write_idents:
  "ms_idents (snd (ms_write i found db)) =
     ms_idents db @ (case found of None \<Rightarrow> [ui_ident i] | Some _ \<Rightarrow> [])"
  by (auto simp: ms_write_def ms_idents_def ms_ident_def ui_ident_def split: option.splits)
     (auto simp: ms_ident_def ms_refresh_def)

lemma ms_write_wf:
  assumes "db_wf db" and "found = None \<Longrightarrow> ui_ident i \<notin> set (ms_idents db)"
  shows "db_wf (snd (ms_write i found db))"
proof (cases found)
  case None
  with assms show ?thesis
    by (auto simp: db_wf_def ms_write_idents) (auto simp: ms_write_def less_Suc_eq)
next
  case (Some rid)
  have "map nm_id (db_memberships (snd (ms_write i found db))) = map nm_id (db_memberships db)"
    by (simp add: ms_write_def Some comp_def if_distrib cong: if_cong)
  with assms Some show ?thesis
    by (auto simp: db_wf_def ms_write_idents) (auto simp: ms_write_def split: if_splits)
qed

lemma upsert_wf: "db_wf db \<Longrightarrow> db_wf (snd (upsertNetworkMembership i db))"
  using ms_write_wf [of db "ms_find i (db_memberships db)" i] ms_find_None [of i "db_memberships db"]
  by (auto simp: upsertNetworkMembership_def case_prod_beta ms_idents_def split: option.splits)

text \<open>What the steps of the mutex do to keys and ticket states.\<close>

definition km_key :: "mutex \<Rightarrow> nat \<Rightarrow> string option" where
  "km_key m n = map_option tk_key (km_tickets m n)"

lemma km_key_simps [simp]:
  "km_key (km_start n m) = km_key m" "km_key (km_settle n m) = km_key m"
  "km_key (km_cleanup n m) = km_key m"
  by (auto simp: km_key_def km_start_def km_settle_def km_cleanup_def km_set_tickets fun_eq_iff
      option.map_comp comp_def split: option.splits)

lemma km_is_cleanup [simp]: "km_is x (km_cleanup n m) = km_is x m"
  by (auto simp: km_is_def km_cleanup_def fun_eq_iff split: option.splits)

lemma km_is_settle:
  "km_is Running (km_settle n m) a \<longleftrightarrow> km_is Running m a \<and> a \<noteq> n"
  "km_is Done (km_settle n m) a \<longleftrightarrow> km_is Done m a \<or> a = n \<and> km_is Running m n"
  by (auto simp: km_settle_def km_set_is) (auto simp: km_is_def split: option.splits)

lemma km_is_start:
  "km_is Running (km_start n m) a \<longleftrightarrow> km_is Running m a \<or> a = n \<and> km_can_start m n"
  "km_is Done (km_start n m) a \<longleftrightarrow> km_is Done m a"
  by (auto simp: km_start_def km_set_is) (auto simp: km_is_def km_can_start_def split: option.splits)

lemma km_is_call:
  "km_is x (snd (km_runExclusive k m)) a \<longleftrightarrow> (if a = km_next m then x = Waiting else km_is x m a)"
  "km_key (snd (km_runExclusive k m)) = (km_key m)(km_next m \<mapsto> k)"
  by (auto simp: km_is_def km_key_def km_runExclusive_def Let_def)

lemma km_running_unique:
  assumes "km_inv m" and "km_is Running m a" and "km_is Running m b" and "km_key m a = km_key m b"
  shows "a = b"
proof (rule ccontr)
  assume "a \<noteq> b"
  have before_done: "\<not> km_before m x y" if "km_is Running m x" "km_is Running m y" for x y
  proof
    assume bf: "km_before m x y"
    from that(2) obtain t where "km_tickets m y = Some t" "tk_state t \<noteq> Waiting"
      by (auto simp: km_is_def split: option.splits)
    with km_invD(8) [OF assms(1)] bf have "km_is Done m x" by blast
    with that(1) show False by (auto simp: km_is_def split: option.splits)
  qed
  from \<open>a \<noteq> b\<close> assms(2-4) have "km_before m a b \<or> km_before m b a"
    by (auto simp: km_before_def km_is_def km_key_def split: option.splits)
  with before_done assms(2,3) show False by blast
qed

definition ms_inv :: "store \<Rightarrow> bool" where
  "ms_inv s \<longleftrightarrow> km_inv (st_mutex s) \<and> db_wf (st_db s) \<and>
     (\<forall>n k. km_key (st_mutex s) n = Some k \<longrightarrow> (\<exists>i. st_calls s n = Some i \<and> ms_key i = k)) \<and>
     (\<forall>n. st_found s n \<noteq> None \<longrightarrow> km_is Running (st_mutex s) n \<or> km_is Done (st_mutex s) n) \<and>
     (\<forall>n i. km_is Running (st_mutex s) n \<longrightarrow> st_calls s n = Some i \<longrightarrow> st_found s n = Some None \<longrightarrow>
        ui_ident i \<notin> set (ms_idents (st_db s)))"

lemma ms_invD:
  assumes "ms_inv s"
  shows "km_inv (st_mutex s)" and "db_wf (st_db s)"
    and "km_key (st_mutex s) n = Some k \<Longrightarrow> \<exists>i. st_calls s n = Some i \<and> ms_key i = k"
    and "st_found s n \<noteq> None \<Longrightarrow> km_is Running (st_mutex s) n \<or> km_is Done (st_mutex s) n"
    and "km_is Running (st_mutex s) n \<Longrightarrow> st_calls s n = Some i \<Longrightarrow> st_found s n = Some None \<Longrightarrow>
      ui_ident i \<notin> set (ms_idents (st_db s))"
  using assms unfolding ms_inv_def by simp_all

lemma ms_call_inv: "ms_inv s \<Longrightarrow> ms_inv (ms_call i s)"
proof -
  assume inv: "ms_inv s"
  let ?n = "km_next (st_mutex s)"
  have new: "\<not> km_is x (st_mutex s) ?n" "km_key (st_mutex s) ?n = None" for x
    using km_invD(1) [OF ms_invD(1) [OF inv], of ?n] by (auto simp: km_is_def km_key_def)
  with ms_invD(4) [OF inv, of ?n] have "st_found s ?n = None" by blast
  moreover have "fst (km_runExclusive (ms_key i) (st_mutex s)) = ?n"
    by (simp add: km_runExclusive_def Let_def)
  ultimately show ?thesis
    using inv new km_call_inv [OF ms_invD(1) [OF inv], of "ms_key i"]
    unfolding ms_inv_def ms_call_def
    by (auto simp: case_prod_beta km_is_call)
qed

lemma ms_find_inv: "ms_inv s \<Longrightarrow> ms_inv (ms_do_find n s)"
  unfolding ms_inv_def ms_do_find_def
  by (auto simp: ms_find_None ms_idents_def split: option.splits)

lemma ms_write_inv:
  assumes inv: "ms_inv s"
  shows "ms_inv (ms_do_write n s)"
proof (cases "\<exists>i found. st_calls s n = Some i \<and> st_found s n = Some found \<and> km_is Running (st_mutex s) n")
  case False
  then have "ms_do_write n s = s" by (auto simp: ms_do_write_def split: option.splits)
  with inv show ?thesis by simp
next
  case True
  then obtain i found where n: "st_calls s n = Some i" "st_found s n = Some found"
      "km_is Running (st_mutex s) n" by blast
  let ?db = "snd (ms_write i found (st_db s))"
  have eq: "ms_do_write n s = s\<lparr>st_db := ?db, st_mutex := km_settle n (st_mutex s)\<rparr>"
    using n by (simp add: ms_do_write_def)
  have wf: "db_wf ?db"
    by (rule ms_write_wf [OF ms_invD(2) [OF inv]]) (use ms_invD(5) [OF inv n(3,1)] n(2) in simp)
  have other: "ui_ident j \<notin> set (ms_idents ?db)"
    if a: "km_is Running (st_mutex s) a" "a \<noteq> n" "st_calls s a = Some j" "st_found s a = Some None"
    for a j
  proof -
    from a(1) n(3) obtain ka kn where k: "km_key (st_mutex s) a = Some ka" "km_key (st_mutex s) n = Some kn"
      by (auto simp: km_is_def km_key_def split: option.splits)
    with km_running_unique [OF ms_invD(1) [OF inv] a(1) n(3)] a(2) have "ka \<noteq> kn" by auto
    with ms_invD(3) [OF inv k(1)] ms_invD(3) [OF inv k(2)] a(3) n(1) have "ms_key j \<noteq> ms_key i"
      by auto
    then have "ui_ident j \<noteq> ui_ident i" by (auto simp: ui_ident_def ms_key_def)
    with ms_invD(5) [OF inv a(1,3,4)] show ?thesis
      by (auto simp: ms_write_idents split: option.splits)
  qed
  have found: "st_found s a = None \<or> km_is Running (st_mutex s) a \<or> km_is Done (st_mutex s) a" for a
    using ms_invD(4) [OF inv, of a] by blast
  have settled: "st_found s a \<noteq> None \<longrightarrow> km_is Running (km_settle n (st_mutex s)) a \<or>
      km_is Done (km_settle n (st_mutex s)) a" for a
    using found [of a] n(3) by (auto simp: km_is_settle)
  show ?thesis
    unfolding eq ms_inv_def
    using wf other settled km_settle_inv [OF ms_invD(1) [OF inv], of n] ms_invD(3) [OF inv]
    by (simp add: km_is_settle(1)) blast
qed

lemma ms_step_inv: "ms_step s s' \<Longrightarrow> ms_inv s \<Longrightarrow> ms_inv s'"
proof (induction rule: ms_step.induct)
  case (Start s n)
  have "st_found s n = None" if "km_can_start (st_mutex s) n"
  proof (rule ccontr)
    assume "st_found s n \<noteq> None"
    with ms_invD(4) [OF Start this] that show False
      by (auto simp: km_can_start_def km_is_def split: option.splits)
  qed
  with Start km_start_inv [OF ms_invD(1) [OF Start], of n] show ?case
    unfolding ms_inv_def by (auto simp: km_is_start)
next
  case (Fail s n)
  with km_settle_inv [OF ms_invD(1) [OF Fail], of n] show ?case
    unfolding ms_inv_def by (auto simp: km_is_settle)
next
  case (Cleanup s n)
  with km_cleanup_inv [OF ms_invD(1) [OF Cleanup], of n] show ?case
    unfolding ms_inv_def by auto
qed (simp_all add: ms_call_inv ms_find_inv ms_write_inv)

lemma ms_reach_inv: "ms_reach s s' \<Longrightarrow> ms_inv s \<Longrightarrow> ms_inv s'"
  by (induction rule: ms_reach.induct) (auto intro: ms_step_inv)

lemma ms_inv_initial: "db_wf db \<Longrightarrow> ms_inv (ms_initial db)"
  by (simp add: ms_inv_def ms_initial_def km_key_def km_inv_def km_new_def km_before_def)

text \<open>An upsert that has run finds its row; rows keep who made them.\<close>

lemma ms_refresh_twice: "ms_refresh i (ms_refresh i r) = ms_refresh i r"
  by (simp add: ms_refresh_def split: option.splits)

lemma ms_find_unique:
  assumes "db_wf db" and "r \<in> set (db_memberships db)" and "ms_ident r = ui_ident i"
  shows "ms_find i (db_memberships db) = Some (nm_id r)"
proof -
  from assms(2,3) have "ms_find i (db_memberships db) \<noteq> None"
    by (auto simp: ms_find_None image_iff intro: bexI [of _ r])
  then obtain rid where f: "ms_find i (db_memberships db) = Some rid" by auto
  from ms_find_Some [OF f] obtain r' where "r' \<in> set (db_memberships db)" "nm_id r' = rid"
      "ms_ident r' = ui_ident i" by auto
  with assms f show ?thesis by (auto simp: db_wf_def ms_idents_def distinct_map inj_on_def)
qed

lemma ms_write_rows:
  "r \<in> set (db_memberships db) \<Longrightarrow>
   \<exists>r' \<in> set (db_memberships (snd (ms_write i found db))).
     nm_id r' = nm_id r \<and> ms_ident r' = ms_ident r \<and> nm_source r' = nm_source r \<and>
     nm_createdBy r' = nm_createdBy r"
proof (cases found)
  case None
  then show "r \<in> set (db_memberships db) \<Longrightarrow> ?thesis" by (auto simp: ms_write_def)
next
  case (Some rid)
  then show "r \<in> set (db_memberships db) \<Longrightarrow> ?thesis"
    by (intro bexI [of _ "if nm_id r = rid then ms_refresh i r else r"]) (auto simp: ms_write_def)
qed

lemma ms_write_again:
  assumes wf: "db_wf db" and ck: "ms_check i = None"
    and db': "db' = snd (upsertNetworkMembership i db)"
  shows "upsertNetworkMembership i db' = (Inr False, db')"
proof -
  have wf': "db_wf db'" using upsert_wf [OF wf] db' by simp
  have eq: "db' = snd (ms_write i (ms_find i (db_memberships db)) db)"
    using db' ck by (simp add: upsertNetworkMembership_def case_prod_beta)
  show ?thesis
  proof (cases "ms_find i (db_memberships db)")
    case None
    let ?r = "\<lparr>nm_id = db_next db, nm_networkId = ui_networkId i, nm_target = ui_target i,
        nm_aliases = ui_aliases i, nm_staticIp = ui_staticIp i, nm_source = ui_source i,
        nm_createdBy = ui_createdBy i\<rparr>"
    have rows: "db_memberships db' = db_memberships db @ [?r]" by (simp add: eq None ms_write_def)
    have f: "ms_find i (db_memberships db') = Some (db_next db)"
      using ms_find_unique [OF wf', of ?r i] rows by (simp add: ms_ident_def ui_ident_def)
    have "ms_refresh i ?r = ?r" by (simp add: ms_refresh_def split: option.splits)
    moreover have "r \<in> set (db_memberships db) \<Longrightarrow> nm_id r \<noteq> db_next db" for r
      using wf by (auto simp: db_wf_def)
    ultimately have "map (\<lambda>r. if nm_id r = db_next db then ms_refresh i r else r) (db_memberships db') =
        db_memberships db'"
      by (simp add: rows map_idI)
    with ck f show ?thesis by (simp add: upsertNetworkMembership_def ms_write_def)
  next
    case (Some rid)
    have rows: "db_memberships db' = map (\<lambda>r. if nm_id r = rid then ms_refresh i r else r) (db_memberships db)"
      by (simp add: eq Some ms_write_def)
    from ms_find_Some [OF Some] obtain r where "r \<in> set (db_memberships db)" "nm_id r = rid"
        "ms_ident r = ui_ident i" by auto
    then have "ms_refresh i r \<in> set (db_memberships db')" by (auto simp: rows)
    from ms_find_unique [OF wf' this] \<open>ms_ident r = ui_ident i\<close> \<open>nm_id r = rid\<close>
    have f: "ms_find i (db_memberships db') = Some rid" by simp
    have "map (\<lambda>r. if nm_id r = rid then ms_refresh i r else r) (db_memberships db') = db_memberships db'"
      by (simp add: rows ms_refresh_twice)
    with ck f show ?thesis by (simp add: upsertNetworkMembership_def ms_write_def)
  qed
qed

section \<open>Properties\<close>

text \<open>C36: Under the keyed mutex concurrent upserts leave no duplicate memberships: starting from a
  table with one row per network and target, whatever calls are made and however their finds,
  writes, failures and the mutex's reactions interleave, no two rows share network and
  target.\<close>

theorem ms_concurrent_unique:
  assumes "db_wf db" and "ms_reach (ms_initial db) s"
  shows "distinct (map ms_ident (db_memberships (st_db s)))"
  using ms_reach_inv [OF assms(2) ms_inv_initial [OF assms(1)]]
  by (simp add: ms_inv_def db_wf_def ms_idents_def)

definition ms_sample_input :: upsert_input where
  "ms_sample_input = \<lparr>ui_target = \<lparr>mt_stackServiceId = Some ''web'', mt_containerName = None\<rparr>,
     ui_networkId = 0, ui_source = Src_template, ui_aliases = Some [''web''], ui_staticIp = None,
     ui_createdBy = None\<rparr>"

definition ms_empty :: net_db where
  "ms_empty = \<lparr>db_networks = [], db_memberships = [], db_next = 1\<rparr>"

definition ms_started :: "nat \<Rightarrow> store \<Rightarrow> store" where
  "ms_started n s = s\<lparr>st_mutex := km_start n (st_mutex s)\<rparr>"

definition ms_sample :: store where
  "ms_sample = ms_do_write 1 (ms_do_find 1 (ms_started 1 (ms_do_write 0 (ms_do_find 1 (ms_do_find 0
     (ms_started 1 (ms_started 0
       (ms_call ms_sample_input (ms_call ms_sample_input (ms_initial ms_empty))))))))))"

lemma ms_sample_reach: "ms_reach (ms_initial ms_empty) ms_sample"
proof -
  have ck: "ms_check ms_sample_input = None" by code_simp
  show ?thesis
    unfolding ms_sample_def ms_started_def
    by (intro ms_reach.Step [OF _ ms_step.Write] ms_reach.Step [OF _ ms_step.Find]
        ms_reach.Step [OF _ ms_step.Start] ms_reach.Step [OF _ ms_step.Call [OF ck]] ms_reach.Refl)
qed

lemma ms_empty_wf: "db_wf ms_empty"
  by (simp add: db_wf_def ms_empty_def ms_idents_def)

theorem ms_concurrent_unique_witness:
  "distinct (map ms_ident (db_memberships (st_db ms_sample))) \<and>
   length (db_memberships (st_db ms_sample)) = 1"
proof
  show "distinct (map ms_ident (db_memberships (st_db ms_sample)))"
    by (rule ms_concurrent_unique [OF ms_empty_wf ms_sample_reach])
  show "length (db_memberships (st_db ms_sample)) = 1" by code_simp
qed

text \<open>Recording a membership again changes nothing and creates nothing: with one row per
  network and target, an upsert that has gone through, repeated, finds its row and leaves the
  database as it is.\<close>

theorem ms_upsert_idempotent:
  assumes "db_wf db" and "upsertNetworkMembership i db = (Inr created, db')"
  shows "upsertNetworkMembership i db' = (Inr False, db')"
proof -
  from assms(2) have "ms_check i = None"
    by (auto simp: upsertNetworkMembership_def split: option.splits)
  from ms_write_again [OF assms(1) this, of db'] assms(2) show ?thesis by simp
qed

theorem ms_upsert_idempotent_witness:
  "fst (upsertNetworkMembership ms_sample_input (snd (upsertNetworkMembership ms_sample_input ms_empty))) =
     Inr False"
proof -
  have "fst (upsertNetworkMembership ms_sample_input ms_empty) = Inr True" by code_simp
  then have "upsertNetworkMembership ms_sample_input ms_empty =
      (Inr True, snd (upsertNetworkMembership ms_sample_input ms_empty))"
    by (metis prod.collapse)
  from ms_upsert_idempotent [OF ms_empty_wf this] show ?thesis by simp
qed

text \<open>A membership keeps its provenance: in any interleaving of upserts, a row that is in the
  table stays in it, for the same network and target and with the source and the creator it was
  made with, whatever source later calls declare.\<close>

theorem ms_provenance_kept:
  assumes "ms_reach s s'" and "r \<in> set (db_memberships (st_db s))"
  shows "\<exists>r' \<in> set (db_memberships (st_db s')). nm_id r' = nm_id r \<and> ms_ident r' = ms_ident r \<and>
    nm_source r' = nm_source r \<and> nm_createdBy r' = nm_createdBy r"
  using assms
proof (induction rule: ms_reach.induct)
  case (Step s s1 s2)
  then obtain r1 where r1: "r1 \<in> set (db_memberships (st_db s1))" "nm_id r1 = nm_id r"
      "ms_ident r1 = ms_ident r" "nm_source r1 = nm_source r" "nm_createdBy r1 = nm_createdBy r"
    by auto
  from Step(2) have "\<exists>r' \<in> set (db_memberships (st_db s2)). nm_id r' = nm_id r1 \<and>
      ms_ident r' = ms_ident r1 \<and> nm_source r' = nm_source r1 \<and> nm_createdBy r' = nm_createdBy r1"
  proof cases
    case (Write n)
    with r1(1) show ?thesis
      by (auto simp: ms_do_write_def split: option.splits intro: ms_write_rows)
  qed (use r1(1) in \<open>auto simp: ms_call_def ms_do_find_def case_prod_beta split: option.splits\<close>)
  with r1 show ?case by auto
qed blast

definition ms_user_row :: membership where
  "ms_user_row = \<lparr>nm_id = 0, nm_networkId = 0,
     nm_target = \<lparr>mt_stackServiceId = Some ''web'', mt_containerName = None\<rparr>, nm_aliases = None,
     nm_staticIp = None, nm_source = Src_user, nm_createdBy = Some ''u1''\<rparr>"

definition ms_user_start :: store where
  "ms_user_start = ms_initial (ms_empty\<lparr>db_memberships := [ms_user_row]\<rparr>)"

definition ms_user_end :: store where
  "ms_user_end = ms_do_write 0 (ms_do_find 0 (ms_started 0 (ms_call ms_sample_input ms_user_start)))"

lemma ms_user_reach: "ms_reach ms_user_start ms_user_end"
proof -
  have ck: "ms_check ms_sample_input = None" by code_simp
  show ?thesis
    unfolding ms_user_end_def ms_started_def
    by (intro ms_reach.Step [OF _ ms_step.Write] ms_reach.Step [OF _ ms_step.Find]
        ms_reach.Step [OF _ ms_step.Start] ms_reach.Step [OF _ ms_step.Call [OF ck]] ms_reach.Refl)
qed

theorem ms_provenance_kept_witness:
  "(\<exists>r \<in> set (db_memberships (st_db ms_user_end)). nm_source r = Src_user) \<and>
   map nm_aliases (db_memberships (st_db ms_user_end)) = [Some [''web'']]"
proof
  have "ms_user_row \<in> set (db_memberships (st_db ms_user_start))"
    by (simp add: ms_user_start_def ms_initial_def)
  from ms_provenance_kept [OF ms_user_reach this]
  show "\<exists>r \<in> set (db_memberships (st_db ms_user_end)). nm_source r = Src_user"
    by (auto simp: ms_user_row_def)
  show "map nm_aliases (db_memberships (st_db ms_user_end)) = [Some [''web'']]" by code_simp
qed

text \<open>A network found by its identity need not be the one that was named: joining an external
  network literally called like a purpose makes a host-scoped row with that purpose, and the
  host's own resource network of this purpose, under its own Docker name, is then taken to be
  that row; nothing is created under the name asked for.\<close>

theorem ms_identity_captures_name:
  assumes "find (\<lambda>r. mn_name r = purpose) (db_networks db) = None"
    and "find (\<lambda>r. mn_identity r = ident) (db_networks db) = None"
    and "ident = \<lparr>ni_scope = Sc_host, ni_environmentId = None, ni_stackId = None,
      ni_purpose = purpose\<rparr>"
    and "name = ''mini-infra-'' @ purpose"
    and "findOrCreateManagedNetworkByName purpose ident db = (joined, db1)"
    and "upsertManagedNetworkByIdentity ident name drv opts db1 = (owned, db2)"
  shows "owned = joined \<and> db2 = db1 \<and>
    (find (\<lambda>r. mn_name r = name) (db_networks db) = None \<longrightarrow>
     find (\<lambda>r. mn_name r = name) (db_networks db2) = None)"
proof -
  from assms(1,5) have joined: "joined = db_next db"
    and db1: "db_networks db1 = db_networks db @ [\<lparr>mn_id = db_next db, mn_identity = ident,
        mn_name = purpose, mn_driver = or_str None ''bridge'', mn_options = None,
        mn_enforceMemberships = False\<rparr>]"
    by (auto simp: findOrCreateManagedNetworkByName_def ms_create_network_def)
  have "find (\<lambda>r. mn_identity r = ident) (db_networks db1) = Some \<lparr>mn_id = db_next db,
      mn_identity = ident, mn_name = purpose, mn_driver = or_str None ''bridge'',
      mn_options = None, mn_enforceMemberships = False\<rparr>"
    using assms(2) by (simp add: db1 find_append_case)
  with assms(6) joined have "owned = joined" "db2 = db1"
    by (auto simp: upsertManagedNetworkByIdentity_def)
  moreover have "name \<noteq> purpose" using assms(4) by auto
  ultimately show ?thesis by (auto simp: db1 find_append_case split: option.splits)
qed

theorem ms_identity_captures_name_witness:
  "fst (upsertManagedNetworkByIdentity
      \<lparr>ni_scope = Sc_host, ni_environmentId = None, ni_stackId = None, ni_purpose = ''database''\<rparr>
      ''mini-infra-database'' None None
      (snd (findOrCreateManagedNetworkByName ''database''
        \<lparr>ni_scope = Sc_host, ni_environmentId = None, ni_stackId = None, ni_purpose = ''database''\<rparr>
        ms_empty))) = 1"
proof -
  let ?i = "\<lparr>ni_scope = Sc_host, ni_environmentId = None, ni_stackId = None, ni_purpose = ''database''\<rparr>"
  let ?f = "findOrCreateManagedNetworkByName ''database'' ?i ms_empty"
  let ?u = "upsertManagedNetworkByIdentity ?i ''mini-infra-database'' None None (snd ?f)"
  have "fst ?u = fst ?f"
    using ms_identity_captures_name [of "''database''" ms_empty ?i "''mini-infra-database''"
        "fst ?f" "snd ?f" None None "fst ?u" "snd ?u"]
    by (simp add: ms_empty_def)
  moreover have "fst ?f = 1" by code_simp
  ultimately show ?thesis by simp
qed

end
