(* ===== verification/Effects.thy ===== *)
theory Effects
  imports Prelude
begin

text \<open>
  Operations that call services outside the program and may throw. An operation on a state
  \<open>'s\<close> returns the message of the error it throws or its result, with the state it leaves;
  \<open>await f()\<close> in sequence is \<open>eff_bind\<close>, \<open>try/catch\<close> is \<open>eff_catch\<close> (the state changes made
  before the throw stay), a \<open>for\<close> loop that pushes onto a result list is \<open>eff_each\<close>.
\<close>

type_synonym ('e, 's, 'a) fx = "'s \<Rightarrow> ('e + 'a) \<times> 's"

type_synonym ('s, 'a) eff = "(string, 's, 'a) fx"

definition eff_return :: "'a \<Rightarrow> ('e, 's, 'a) fx" where
  "eff_return x = (\<lambda>s. (Inr x, s))"

definition eff_throw :: "'e \<Rightarrow> ('e, 's, 'a) fx" where
  "eff_throw e = (\<lambda>s. (Inl e, s))"

definition eff_bind :: "('e, 's, 'a) fx \<Rightarrow> ('a \<Rightarrow> ('e, 's, 'b) fx) \<Rightarrow> ('e, 's, 'b) fx" where
  "eff_bind m f = (\<lambda>s. case m s of (Inl e, t) \<Rightarrow> (Inl e, t) | (Inr x, t) \<Rightarrow> f x t)"

definition eff_then :: "('e, 's, 'a) fx \<Rightarrow> ('e, 's, 'b) fx \<Rightarrow> ('e, 's, 'b) fx" where
  "eff_then m n = eff_bind m (\<lambda>_. n)"

definition eff_catch :: "('e, 's, 'a) fx \<Rightarrow> ('e \<Rightarrow> ('e, 's, 'a) fx) \<Rightarrow> ('e, 's, 'a) fx" where
  "eff_catch m h = (\<lambda>s. case m s of (Inl e, t) \<Rightarrow> h e t | (Inr x, t) \<Rightarrow> (Inr x, t))"

definition eff_get :: "('s \<Rightarrow> 'a) \<Rightarrow> ('e, 's, 'a) fx" where
  "eff_get f = (\<lambda>s. (Inr (f s), s))"

definition eff_modify :: "('s \<Rightarrow> 's) \<Rightarrow> ('e, 's, unit) fx" where
  "eff_modify f = (\<lambda>s. (Inr (), f s))"

fun eff_each :: "('a \<Rightarrow> ('e, 's, 'b) fx) \<Rightarrow> 'a list \<Rightarrow> ('e, 's, 'b list) fx" where
  "eff_each f [] = eff_return []"
| "eff_each f (x # xs) = eff_bind (f x) (\<lambda>y. eff_bind (eff_each f xs) (\<lambda>ys. eff_return (y # ys)))"

text \<open>\<open>try { ... }\<close> whose outcome the code goes on with, and a loop that carries a value.\<close>

definition eff_try :: "('e, 's, 'a) fx \<Rightarrow> ('e, 's, 'e + 'a) fx" where
  "eff_try m = (\<lambda>s. case m s of (r, t) \<Rightarrow> (Inr r, t))"

fun eff_fold :: "('a \<Rightarrow> 'b \<Rightarrow> ('e, 's, 'b) fx) \<Rightarrow> 'a list \<Rightarrow> 'b \<Rightarrow> ('e, 's, 'b) fx" where
  "eff_fold f [] y = eff_return y"
| "eff_fold f (x # xs) y = eff_bind (f x y) (eff_fold f xs)"

named_theorems eff_defs \<open>running an operation on a state\<close>

lemmas [eff_defs] = eff_return_def eff_throw_def eff_bind_def eff_then_def eff_catch_def
  eff_get_def eff_modify_def

lemma eff_bind_Inr:
  "eff_bind m f s = (Inr y, t) \<longleftrightarrow> (\<exists>x u. m s = (Inr x, u) \<and> f x u = (Inr y, t))"
  by (auto simp: eff_bind_def split: prod.splits sum.splits)

lemma eff_then_Inr:
  "eff_then m n s = (Inr y, t) \<longleftrightarrow> (\<exists>x u. m s = (Inr x, u) \<and> n u = (Inr y, t))"
  by (auto simp: eff_then_def eff_bind_Inr)

lemma eff_return_Inr [simp]: "eff_return x s = (Inr y, t) \<longleftrightarrow> y = x \<and> t = s"
  by (auto simp: eff_return_def)

lemma eff_throw_Inr [simp]: "eff_throw e s \<noteq> (Inr y, t)"
  by (simp add: eff_throw_def)

lemma eff_get_Inr [simp]: "eff_get f s = (Inr y, t) \<longleftrightarrow> y = f s \<and> t = s"
  by (auto simp: eff_get_def)

lemma eff_modify_Inr [simp]: "eff_modify f s = (Inr y, t) \<longleftrightarrow> t = f s"
  by (auto simp: eff_modify_def)

lemma eff_try_Inr [simp]: "eff_try m s = (Inr r, t) \<longleftrightarrow> m s = (r, t)"
  by (auto simp: eff_try_def split: prod.splits)

text \<open>An operation that never throws, whatever the state.\<close>

definition eff_total :: "('e, 's, 'a) fx \<Rightarrow> bool" where
  "eff_total m \<longleftrightarrow> (\<forall>s. \<exists>x t. m s = (Inr x, t))"

lemma eff_totalE: "eff_total m \<Longrightarrow> (\<And>x t. m s = (Inr x, t) \<Longrightarrow> P) \<Longrightarrow> P"
  unfolding eff_total_def by blast

lemma eff_total_return [simp]: "eff_total (eff_return x)"
  by (simp add: eff_total_def eff_return_def)

lemma eff_total_get [simp]: "eff_total (eff_get f)"
  by (simp add: eff_total_def eff_get_def)

lemma eff_total_modify [simp]: "eff_total (eff_modify f)"
  by (simp add: eff_total_def eff_modify_def)

lemma eff_total_bind: "eff_total m \<Longrightarrow> (\<And>x. eff_total (f x)) \<Longrightarrow> eff_total (eff_bind m f)"
  unfolding eff_total_def eff_bind_def by (metis (mono_tags, lifting) case_prod_conv old.sum.simps(6))

lemma eff_total_then: "eff_total m \<Longrightarrow> eff_total n \<Longrightarrow> eff_total (eff_then m n)"
  unfolding eff_then_def by (intro eff_total_bind)

lemma eff_total_catch: "(\<And>e. eff_total (h e)) \<Longrightarrow> eff_total (eff_catch m h)"
  unfolding eff_total_def eff_catch_def by (metis (mono_tags, lifting) case_prod_conv obj_sumE old.sum.simps(5,6) surj_pair)

lemma eff_total_each: "(\<And>x. eff_total (f x)) \<Longrightarrow> eff_total (eff_each f xs)"
  by (induction xs) (auto intro!: eff_total_bind)

lemma eff_total_try [simp]: "eff_total (eff_try m)"
  by (simp add: eff_total_def eff_try_def split: prod.split)

lemma eff_total_fold: "(\<And>x y. eff_total (f x y)) \<Longrightarrow> eff_total (eff_fold f xs y)"
  by (induction xs arbitrary: y) (auto intro: eff_total_bind)

text \<open>What holds of every result of a loop, and what the loop keeps of the state.\<close>

lemma eff_each_results:
  assumes "eff_each f xs s = (Inr ys, t)"
    and "\<And>x s y t. x \<in> set xs \<Longrightarrow> f x s = (Inr y, t) \<Longrightarrow> P x y"
  shows "list_all2 P xs ys"
  using assms by (induction xs arbitrary: s ys) (fastforce simp: eff_bind_Inr)+

lemma eff_each_invariant:
  assumes "eff_each f xs s = (Inr ys, t)" and "I s"
    and "\<And>x s y t. x \<in> set xs \<Longrightarrow> I s \<Longrightarrow> f x s = (Inr y, t) \<Longrightarrow> I t"
  shows "I t"
  using assms
proof (induction xs arbitrary: s ys)
  case (Cons x xs)
  from Cons.prems(1) obtain y u zs where x: "f x s = (Inr y, u)" and xs: "eff_each f xs u = (Inr zs, t)"
    by (auto simp: eff_bind_Inr)
  have "I u" by (rule Cons.prems(3) [OF _ Cons.prems(2) x]) simp
  from xs this Cons.prems(3) show ?case by (rule Cons.IH) auto
qed simp

lemma eff_each_prefix:
  assumes "eff_each f xs s = (Inr ys, t)" and "I p s"
    and "\<And>q x s y t. I q s \<Longrightarrow> x \<in> set xs \<Longrightarrow> f x s = (Inr y, t) \<Longrightarrow> I (q @ [x]) t"
  shows "I (p @ xs) t"
  using assms
proof (induction xs arbitrary: p s ys)
  case (Cons x xs)
  from Cons.prems(1) obtain y u zs where x: "f x s = (Inr y, u)" and xs: "eff_each f xs u = (Inr zs, t)"
    by (auto simp: eff_bind_Inr)
  have "I (p @ [x]) u" by (rule Cons.prems(3) [OF Cons.prems(2) _ x]) simp
  from Cons.IH [OF xs this] Cons.prems(3) have "I ((p @ [x]) @ xs) t" by auto
  then show ?case by simp
qed simp

lemma eff_fold_prefix:
  assumes "eff_fold f xs y s = (Inr z, t)" and "I p y s"
    and "\<And>q x y s y' s'. x \<in> set xs \<Longrightarrow> I q y s \<Longrightarrow> f x y s = (Inr y', s') \<Longrightarrow> I (q @ [x]) y' s'"
  shows "I (p @ xs) z t"
  using assms
proof (induction xs arbitrary: p y s)
  case (Cons x xs)
  from Cons.prems(1) obtain y' u where x: "f x y s = (Inr y', u)" and xs: "eff_fold f xs y' u = (Inr z, t)"
    by (auto simp: eff_bind_Inr)
  have "I (p @ [x]) y' u" by (rule Cons.prems(3) [OF _ Cons.prems(2) x]) simp
  from Cons.IH [OF xs this] Cons.prems(3) have "I ((p @ [x]) @ xs) z t" by auto
  then show ?case by simp
qed simp

lemma eff_each_append:
  "eff_each f (xs @ ys) s = (Inr zs, t) \<longleftrightarrow>
   (\<exists>as bs u. eff_each f xs s = (Inr as, u) \<and> eff_each f ys u = (Inr bs, t) \<and> zs = as @ bs)"
proof (induction xs arbitrary: s zs)
  case (Cons x xs)
  show ?case (is "?l \<longleftrightarrow> ?r")
  proof
    assume ?l
    then obtain y u as bs v where "f x s = (Inr y, u)" "eff_each f xs u = (Inr as, v)"
      "eff_each f ys v = (Inr bs, t)" "zs = y # as @ bs"
      by (auto simp: eff_bind_Inr Cons.IH)
    then show ?r by (intro exI [of _ "y # as"] exI [of _ bs] exI [of _ v]) (auto simp: eff_bind_Inr)
  next
    assume ?r
    then show ?l by (auto simp: eff_bind_Inr Cons.IH)
  qed
qed simp

section \<open>How an operation moves the state\<close>

text \<open>
  Whatever it answers, an operation takes a state to one that a given order relates it to. The
  order is the only thing the client chooses: what is kept of the state, or what was added to a
  trace of calls.
\<close>

definition moves :: "('s \<Rightarrow> 's \<Rightarrow> bool) \<Rightarrow> ('e, 's, 'a) fx \<Rightarrow> bool" where
  "moves R m \<longleftrightarrow> (\<forall>s. R s (snd (m s)))"

lemma movesI: "(\<And>s r t. m s = (r, t) \<Longrightarrow> R s t) \<Longrightarrow> moves R m"
  unfolding moves_def by (metis prod.collapse)

lemma movesD: "moves R m \<Longrightarrow> m s = (r, t) \<Longrightarrow> R s t"
  unfolding moves_def by (metis snd_conv)

locale state_order =
  fixes R :: "'s \<Rightarrow> 's \<Rightarrow> bool"
  assumes refl: "R s s" and trans: "R s t \<Longrightarrow> R t u \<Longrightarrow> R s u"
begin

lemma return: "moves R (eff_return x)"
  by (simp add: moves_def eff_return_def refl)

lemma throw: "moves R (eff_throw e)"
  by (simp add: moves_def eff_throw_def refl)

lemma get: "moves R (eff_get f)"
  by (simp add: moves_def eff_get_def refl)

lemma modify: "(\<And>s. R s (f s)) \<Longrightarrow> moves R (eff_modify f)"
  by (simp add: moves_def eff_modify_def)

text \<open>What comes next may rest on what the answer was.\<close>

lemma bind_answer:
  assumes "moves R m" and "\<And>s x t. m s = (Inr x, t) \<Longrightarrow> moves R (f x)"
  shows "moves R (eff_bind m f)"
proof (rule movesI)
  fix s r t assume run: "eff_bind m f s = (r, t)"
  obtain q u where m: "m s = (q, u)" by (cases "m s")
  have su: "R s u" by (rule movesD [OF assms(1) m])
  show "R s t"
  proof (cases q)
    case (Inl e)
    with run m su show ?thesis by (simp add: eff_bind_def)
  next
    case (Inr x)
    with run m have "f x u = (r, t)" by (simp add: eff_bind_def)
    with assms(2) [of s x u] m Inr have "R u t" by (blast intro: movesD)
    with su show ?thesis by (rule trans)
  qed
qed

lemma bind: "moves R m \<Longrightarrow> (\<And>x. moves R (f x)) \<Longrightarrow> moves R (eff_bind m f)"
  by (rule bind_answer)

lemma seq: "moves R m \<Longrightarrow> moves R n \<Longrightarrow> moves R (eff_then m n)"
  unfolding eff_then_def by (rule bind)

lemma catch: "moves R m \<Longrightarrow> (\<And>e. moves R (h e)) \<Longrightarrow> moves R (eff_catch m h)"
  unfolding moves_def eff_catch_def by (auto split: prod.split sum.split) (metis snd_conv trans)+

lemma each: "(\<And>x. x \<in> set xs \<Longrightarrow> moves R (f x)) \<Longrightarrow> moves R (eff_each f xs)"
  by (induction xs) (auto intro: return bind)

lemma attempt: "moves R m \<Longrightarrow> moves R (eff_try m)"
  by (auto simp: moves_def eff_try_def split: prod.split) (metis snd_conv)

lemma folded: "(\<And>x y. x \<in> set xs \<Longrightarrow> moves R (f x y)) \<Longrightarrow> moves R (eff_fold f xs y)"
  by (induction xs arbitrary: y) (auto intro: return bind)

text \<open>What each turn of a loop makes true stays true if the order keeps it.\<close>

lemma fold_establishes:
  assumes "eff_fold f xs y s = (Inr z, t)" and "x \<in> set xs"
    and "\<And>x y. x \<in> set xs \<Longrightarrow> moves R (f x y)"
    and "\<And>x y u z v. x \<in> set xs \<Longrightarrow> R s u \<Longrightarrow> f x y u = (Inr z, v) \<Longrightarrow> F x v"
    and "\<And>x u v. x \<in> set xs \<Longrightarrow> F x u \<Longrightarrow> R u v \<Longrightarrow> F x v"
  shows "F x t"
  using assms
proof (induction xs arbitrary: y s)
  case Nil
  from Nil.prems(2) show ?case by simp
next
  case (Cons a xs)
  from Cons.prems(1) obtain b u where a: "f a y s = (Inr b, u)" and rest: "eff_fold f xs b u = (Inr z, t)"
    by (auto simp: eff_bind_Inr)
  have su: "R s u" by (rule movesD [OF Cons.prems(3) a]) simp
  have ut: "R u t" by (rule movesD [OF folded rest]) (simp add: Cons.prems(3))
  show ?case
  proof (cases "x = a")
    case True
    have "F a u" by (rule Cons.prems(4) [OF _ refl a]) simp
    with Cons.prems(5) ut True show ?thesis by simp
  next
    case False
    with Cons.prems(2) have x: "x \<in> set xs" by simp
    show ?thesis
      by (rule Cons.IH [OF rest x]) (use Cons.prems(3,4,5) su trans in \<open>(meson list.set_intros(2))+\<close>)
  qed
qed

lemmas intros = return throw get bind seq catch each attempt folded

end

end
