(* ===== verification/NetworkManager.thy ===== *)
theory NetworkManager
  imports Effects MembershipStore
begin

text \<open>
  \<open>networks/network-manager.ts\<close>, the one owner of Docker network operations. The daemon is a
  parameter: what it answers to each request, and the state the request leaves it in. Every
  request is recorded, in order. Invalidating the list cache and logging are left out.
\<close>

section \<open>The daemon\<close>

text \<open>An error of the daemon, with its status code if it has one.\<close>

record docker_error =
  de_statusCode :: "int option"
  de_message :: string

type_synonym labels = "(string \<times> string) list"

record network_info =
  wi_Name :: "string option"
  wi_Id :: string
  wi_Driver :: "string option"
  wi_Labels :: "labels option"
  wi_Options :: "labels option"
  wi_IPAM :: "(string option \<times> string option) option"
  wi_Containers :: "(string \<times> string option) list option"

record listed_network =
  lw_Name :: string
  lw_Id :: string
  lw_Driver :: "string option"
  lw_Labels :: "labels option"

record listed_container =
  lc_Id :: string
  lc_Names :: "string list option"
  lc_Labels :: "labels option"

text \<open>Times are parsed: \<open>None\<close> is a time that is missing or no time.\<close>

record inspected_container =
  vc_Name :: "string option"
  vc_Labels :: "labels option"
  vc_StartedAt :: "int option"
  vc_Created :: "int option"

text \<open>A filter \<open>label: ['k=v', ...]\<close> is the list of its pairs.\<close>

datatype container_filter = By_labels "(string \<times> string) list" | By_name string

type_synonym endpoint_config = "(string list option \<times> string option) option"

datatype docker_call =
    D_InspectNetwork string
  | D_CreateNetwork string
  | D_Connect string string
  | D_Disconnect string string
  | D_RemoveNetwork string
  | D_ListNetworks
  | D_ListContainers
  | D_InspectContainer string

record 'w docker =
  dk_inspectNetwork :: "string \<Rightarrow> (docker_error, 'w, network_info) fx"
  dk_createNetwork :: "string \<Rightarrow> string \<Rightarrow> labels \<Rightarrow> labels option \<Rightarrow> (docker_error, 'w, unit) fx"
  dk_connect :: "string \<Rightarrow> string \<Rightarrow> endpoint_config \<Rightarrow> (docker_error, 'w, unit) fx"
  dk_disconnect :: "string \<Rightarrow> string \<Rightarrow> bool \<Rightarrow> (docker_error, 'w, unit) fx"
  dk_removeNetwork :: "string \<Rightarrow> (docker_error, 'w, unit) fx"
  dk_listNetworks :: "(string \<times> string) list \<Rightarrow> (docker_error, 'w, listed_network list) fx"
  dk_listContainers :: "container_filter \<Rightarrow> (docker_error, 'w, listed_container list) fx"
  dk_inspectContainer :: "string \<Rightarrow> (docker_error, 'w, inspected_container) fx"
  dk_late :: "docker_call \<Rightarrow> 'w \<Rightarrow> bool"
  dk_now :: "'w \<Rightarrow> int"

record 'w docker_state =
  ds_world :: 'w
  ds_calls :: "docker_call list"

type_synonym ('w, 'a) docker_op = "(docker_error, 'w docker_state, 'a) fx"

definition ask :: "docker_call \<Rightarrow> (docker_error, 'w, 'a) fx \<Rightarrow> ('w, 'a) docker_op" where
  "ask c f = (\<lambda>s. case f (ds_world s) of (r, w) \<Rightarrow> (r, s\<lparr>ds_world := w, ds_calls := ds_calls s @ [c]\<rparr>))"

text \<open>
  \<open>raceWithTimeout\<close>: when the timer wins, the answer is its error; what the request did to the
  daemon is done all the same.
\<close>

definition raceWithTimeout ::
  "'w docker \<Rightarrow> docker_call \<Rightarrow> (docker_error, 'w, 'a) fx \<Rightarrow> string \<Rightarrow> ('w, 'a) docker_op" where
  "raceWithTimeout d c f msg = ask c (\<lambda>w. case f w of
     (r, v) \<Rightarrow> (if dk_late d c w then Inl \<lparr>de_statusCode = None, de_message = msg\<rparr> else r, v))"

section \<open>Owners and specifications\<close>

datatype existence = Present | Absent | Unknown

definition scope_string :: "net_scope \<Rightarrow> string" where
  "scope_string k = (case k of Sc_host \<Rightarrow> ''host'' | Sc_environment \<Rightarrow> ''environment'' | Sc_stack \<Rightarrow> ''stack'')"

record network_owner =
  no_kind :: net_scope
  no_id :: "string option"

record spec_mismatch =
  sm_driver :: "(string \<times> string) option"
  sm_labels :: "(labels \<times> labels \<times> string list \<times> string list) option"
  sm_options :: "(labels \<times> labels) option"

definition ownerLabels :: "network_owner \<Rightarrow> string option \<Rightarrow> labels" where
  "ownerLabels ow purpose =
     [(''mini-infra.managed'', ''true''),
      (''mini-infra.owner-kind'', scope_string (no_kind ow)),
      (''mini-infra.purpose'', nullish purpose ''_stack'')] @
     (case no_id ow of
        Some i \<Rightarrow> if no_kind ow \<noteq> Sc_host \<and> i \<noteq> [] then [(''mini-infra.owner-id'', i)] else []
      | None \<Rightarrow> [])"

definition isFallbackRemovalSafe :: "labels \<Rightarrow> network_owner \<Rightarrow> bool" where
  "isFallbackRemovalSafe ls ow =
     (if om_get ls ''mini-infra.managed'' = None then True
      else if om_get ls ''mini-infra.owner-kind'' \<noteq> Some (scope_string (no_kind ow)) then False
      else if no_kind ow = Sc_host then True
      else om_get ls ''mini-infra.owner-id'' = no_id ow)"

definition normalizeOptions :: "(string \<times> json) list option \<Rightarrow> labels option" where
  "normalizeOptions opts =
     (case opts of
        None \<Rightarrow> None
      | Some es \<Rightarrow> if es = [] then None else Some (map (\<lambda>(k, v). (k, js_string v)) es))"

definition detectMismatch :: "network_info \<Rightarrow> string \<Rightarrow> labels \<Rightarrow> labels option \<Rightarrow> spec_mismatch option" where
  "detectMismatch info driver ls opts =
     (let dm = (if or_str (wi_Driver info) [] \<noteq> [] \<and> wi_Driver info \<noteq> Some driver
                then Some (driver, or_str (wi_Driver info) []) else None);
          actual = nullish (wi_Labels info) [];
          expected = filter (\<lambda>(k, _). starts_with k ''mini-infra.'') ls;
          missing = filter (\<lambda>k. om_get actual k = None) (map fst expected);
          changed = filter (\<lambda>k. om_get actual k \<noteq> None \<and> om_get actual k \<noteq> om_get expected k) (map fst expected);
          lm = (if missing \<noteq> [] \<or> changed \<noteq> [] then Some (expected, actual, missing, changed) else None);
          aopts = nullish (wi_Options info) [];
          opm = (case opts of
                   None \<Rightarrow> None
                 | Some os \<Rightarrow> if os \<noteq> [] \<and> list_ex (\<lambda>k. om_get aopts k \<noteq> om_get os k) (map fst os)
                               then Some (os, aopts) else None)
      in if dm = None \<and> lm = None \<and> opm = None then None
         else Some \<lparr>sm_driver = dm, sm_labels = lm, sm_options = opm\<rparr>)"

section \<open>Reading\<close>

record inspect_result =
  ir_name :: string
  ir_id :: string
  ir_driver :: "string option"
  ir_labels :: labels
  ir_ipam :: "(string option \<times> string option) option"
  ir_connectedContainerIds :: "string list"

record reconcile_spec =
  rp_owner :: network_owner
  rp_purpose :: "string option"
  rp_driver :: "string option"
  rp_options :: "(string \<times> json) list option"

record reconcile_inspection =
  ri_existence :: existence
  ri_dockerId :: "string option"
  ri_subnet :: "string option"
  ri_connectedContainers :: "(string \<times> string) list option"
  ri_mismatch :: "spec_mismatch option"

definition not_found :: "docker_error \<Rightarrow> bool" where
  "not_found e \<longleftrightarrow> de_statusCode e = Some 404"

definition inspect_network :: "'w docker \<Rightarrow> string \<Rightarrow> ('w, network_info) docker_op" where
  "inspect_network d name = ask (D_InspectNetwork name) (dk_inspectNetwork d name)"

definition nm_exists :: "'w docker \<Rightarrow> string \<Rightarrow> ('w, existence) docker_op" where
  "nm_exists d name =
     eff_catch (eff_then (inspect_network d name) (eff_return Present))
       (\<lambda>e. eff_return (if not_found e then Absent else Unknown))"

definition nm_inspect :: "'w docker \<Rightarrow> string \<Rightarrow> ('w, inspect_result option) docker_op" where
  "nm_inspect d name =
     eff_catch
       (eff_bind (inspect_network d name) (\<lambda>info. eff_return (Some
          \<lparr>ir_name = nullish (wi_Name info) name, ir_id = wi_Id info, ir_driver = wi_Driver info,
           ir_labels = nullish (wi_Labels info) [], ir_ipam = wi_IPAM info,
           ir_connectedContainerIds = map fst (nullish (wi_Containers info) [])\<rparr>)))
       (\<lambda>e. if not_found e then eff_return None else eff_throw e)"

definition no_inspection :: "existence \<Rightarrow> reconcile_inspection" where
  "no_inspection x = \<lparr>ri_existence = x, ri_dockerId = None, ri_subnet = None,
     ri_connectedContainers = None, ri_mismatch = None\<rparr>"

definition inspection :: "reconcile_spec \<Rightarrow> network_info \<Rightarrow> reconcile_inspection" where
  "inspection sp info =
     \<lparr>ri_existence = Present, ri_dockerId = Some (wi_Id info),
      ri_subnet = Option.bind (wi_IPAM info) fst,
      ri_connectedContainers =
        Some (map (\<lambda>(i, n). (i, nullish n i)) (nullish (wi_Containers info) [])),
      ri_mismatch = detectMismatch info (nullish (rp_driver sp) ''bridge'')
        (ownerLabels (rp_owner sp) (rp_purpose sp)) (normalizeOptions (rp_options sp))\<rparr>"

definition inspectForReconcile ::
  "'w docker \<Rightarrow> string \<Rightarrow> reconcile_spec \<Rightarrow> ('w, reconcile_inspection) docker_op" where
  "inspectForReconcile d name sp =
     eff_catch (eff_bind (inspect_network d name) (\<lambda>info. eff_return (inspection sp info)))
       (\<lambda>e. eff_return (no_inspection (if not_found e then Absent else Unknown)))"

section \<open>Creating, connecting, disconnecting\<close>

record ensure_spec =
  es_name :: string
  es_owner :: network_owner
  es_purpose :: "string option"
  es_driver :: "string option"
  es_options :: "(string \<times> json) list option"
  es_extraLabels :: "labels option"

record ensure_result =
  er_name :: string
  er_created :: bool
  er_existence :: existence
  er_mismatch :: "spec_mismatch option"

definition ensure_labels :: "ensure_spec \<Rightarrow> labels" where
  "ensure_labels sp = foldl (\<lambda>m (k, v). om_set k v m) (ownerLabels (es_owner sp) (es_purpose sp))
     (nullish (es_extraLabels sp) [])"

definition ensured :: "ensure_spec \<Rightarrow> bool \<Rightarrow> spec_mismatch option \<Rightarrow> ensure_result" where
  "ensured sp created m =
     \<lparr>er_name = es_name sp, er_created = created, er_existence = Present, er_mismatch = m\<rparr>"

definition nm_ensure :: "'w docker \<Rightarrow> ensure_spec \<Rightarrow> ('w, ensure_result) docker_op" where
  "nm_ensure d sp =
     (let driver = nullish (es_driver sp) ''bridge'';
          ls = ensure_labels sp;
          opts = normalizeOptions (es_options sp)
      in eff_bind
        (eff_catch (eff_bind (inspect_network d (es_name sp)) (\<lambda>info. eff_return (Some info)))
          (\<lambda>e. if not_found e then eff_return None else eff_throw e))
        (\<lambda>found. case found of
           None \<Rightarrow>
             eff_catch
               (eff_then (ask (D_CreateNetwork (es_name sp)) (dk_createNetwork d (es_name sp) driver ls opts))
                 (eff_return (ensured sp True None)))
               (\<lambda>e. if de_statusCode e = Some 409 then eff_return (ensured sp False None) else eff_throw e)
         | Some info \<Rightarrow> eff_return (ensured sp False (detectMismatch info driver ls opts))))"

record connect_result =
  cr_connected :: bool
  cr_alreadyConnected :: bool

definition endpoint_config :: "string list option \<Rightarrow> string option \<Rightarrow> endpoint_config" where
  "endpoint_config aliases ip =
     (let al = (if nullish aliases [] = [] then None else aliases);
          st = (if truthy ip then ip else None)
      in if al = None \<and> st = None then None else Some (al, st))"

definition network_not_found :: "string \<Rightarrow> docker_error" where
  "network_not_found n = \<lparr>de_statusCode = Some 404,
     de_message = ''Docker network \"'' @ n @ ''\" not found.''\<rparr>"

definition nm_connect ::
  "'w docker \<Rightarrow> string \<Rightarrow> string \<Rightarrow> string list option \<Rightarrow> string option \<Rightarrow> ('w, connect_result) docker_op" where
  "nm_connect d cid net aliases ip =
     eff_bind
       (eff_catch
         (eff_bind (inspect_network d net) (\<lambda>info.
            eff_return (cid \<in> fst ` set (nullish (wi_Containers info) []))))
         (\<lambda>e. if not_found e then eff_throw (network_not_found net) else eff_return False))
       (\<lambda>attached.
          if attached then eff_return \<lparr>cr_connected = True, cr_alreadyConnected = True\<rparr>
          else eff_catch
            (eff_then (ask (D_Connect net cid) (dk_connect d net cid (endpoint_config aliases ip)))
              (eff_return \<lparr>cr_connected = True, cr_alreadyConnected = False\<rparr>))
            (\<lambda>e. if de_statusCode e = Some 403 \<or> de_statusCode e = Some 409
                 then eff_return \<lparr>cr_connected = True, cr_alreadyConnected = True\<rparr>
                 else eff_throw e))"

definition nm_disconnect :: "'w docker \<Rightarrow> string \<Rightarrow> string \<Rightarrow> bool \<Rightarrow> ('w, unit) docker_op" where
  "nm_disconnect d cid net force =
     eff_catch (ask (D_Disconnect net cid) (dk_disconnect d net cid force))
       (\<lambda>e. if not_found e then eff_return () else eff_throw e)"

section \<open>Removing\<close>

datatype remove_reason = Not_found | Has_containers | Remove_error

record remove_result =
  mr_name :: string
  mr_removed :: bool
  mr_reason :: "remove_reason option"

definition kept :: "string \<Rightarrow> remove_reason \<Rightarrow> remove_result" where
  "kept name why = \<lparr>mr_name = name, mr_removed = False, mr_reason = Some why\<rparr>"

definition remove_call :: "'w docker \<Rightarrow> string \<Rightarrow> ('w, remove_result) docker_op" where
  "remove_call d name =
     eff_catch
       (eff_then (raceWithTimeout d (D_RemoveNetwork name) (dk_removeNetwork d name)
           (''Docker API timeout while removing network '' @ name))
         (eff_return \<lparr>mr_name = name, mr_removed = True, mr_reason = None\<rparr>))
       (\<lambda>e. eff_return (kept name (if not_found e then Not_found else Remove_error)))"

definition nm_remove :: "'w docker \<Rightarrow> string \<Rightarrow> bool \<Rightarrow> ('w, remove_result) docker_op" where
  "nm_remove d name force =
     eff_bind
       (eff_try (raceWithTimeout d (D_InspectNetwork name) (dk_inspectNetwork d name)
         (''Docker API timeout while inspecting network '' @ name)))
       (\<lambda>r. case r of
          Inl e \<Rightarrow> eff_return (kept name (if not_found e then Not_found else Remove_error))
        | Inr info \<Rightarrow>
            (let attached = map fst (nullish (wi_Containers info) [])
             in if attached \<noteq> [] \<and> \<not> force then eff_return (kept name Has_containers)
                else eff_then
                  (eff_each (\<lambda>cid. eff_try (nm_disconnect d cid name True)) attached)
                  (remove_call d name)))"

text \<open>The candidates by name, after those the daemon listed by label.\<close>

definition remove_candidate :: "'w docker \<Rightarrow> network_owner \<Rightarrow> bool \<Rightarrow> string \<Rightarrow> ('w, remove_result list) docker_op" where
  "remove_candidate d ow force name =
     eff_bind (eff_try (nm_inspect d name))
       (\<lambda>info. case info of
          Inl _ \<Rightarrow> eff_return []
        | Inr None \<Rightarrow> eff_return []
        | Inr (Some i) \<Rightarrow>
            if isFallbackRemovalSafe (ir_labels i) ow
            then eff_bind (nm_remove d name force) (\<lambda>r. eff_return [r])
            else eff_return [])"

fun remove_candidates ::
  "'w docker \<Rightarrow> network_owner \<Rightarrow> bool \<Rightarrow> string set \<Rightarrow> string list \<Rightarrow> ('w, remove_result list) docker_op" where
  "remove_candidates d ow force handled [] = eff_return []"
| "remove_candidates d ow force handled (n # ns) =
     (if n \<in> handled then remove_candidates d ow force handled ns
      else eff_bind (remove_candidate d ow force n) (\<lambda>r.
           eff_bind (remove_candidates d ow force (insert n handled) ns) (\<lambda>rs.
           eff_return (r @ rs))))"

definition owner_filters :: "network_owner \<Rightarrow> (string \<times> string) list" where
  "owner_filters ow =
     [(''mini-infra.managed'', ''true''), (''mini-infra.owner-kind'', scope_string (no_kind ow))] @
     (if truthy (no_id ow) then [(''mini-infra.owner-id'', nullish (no_id ow) [])] else [])"

definition removeByOwner ::
  "'w docker \<Rightarrow> network_owner \<Rightarrow> bool \<Rightarrow> string list \<Rightarrow> ('w, remove_result list) docker_op" where
  "removeByOwner d ow force candidates =
     eff_bind
       (eff_catch
         (eff_bind (ask D_ListNetworks (dk_listNetworks d (owner_filters ow))) (\<lambda>nets.
            eff_bind (eff_each (\<lambda>n. nm_remove d (lw_Name n) force) nets) (\<lambda>rs.
            eff_return (rs, set (map lw_Name nets)))))
         (\<lambda>_. eff_return ([], {})))
       (\<lambda>(rs, handled). eff_bind (remove_candidates d ow force handled candidates) (\<lambda>qs.
          eff_return (rs @ qs)))"

record managed_info =
  mi_name :: string
  mi_id :: string
  mi_driver :: "string option"
  mi_ownerKind :: string
  mi_ownerId :: "string option"
  mi_purpose :: string
  mi_labels :: labels

definition managed_network_info :: "listed_network \<Rightarrow> managed_info" where
  "managed_network_info n =
     (let ls = nullish (lw_Labels n) []
      in \<lparr>mi_name = lw_Name n, mi_id = lw_Id n, mi_driver = lw_Driver n,
          mi_ownerKind = nullish (om_get ls ''mini-infra.owner-kind'') ''host'',
          mi_ownerId = om_get ls ''mini-infra.owner-id'',
          mi_purpose = nullish (om_get ls ''mini-infra.purpose'') ''_stack'',
          mi_labels = ls\<rparr>)"

definition listManaged ::
  "'w docker \<Rightarrow> network_owner option \<Rightarrow> string option \<Rightarrow> ('w, managed_info list) docker_op" where
  "listManaged d ow purpose =
     eff_bind
       (ask D_ListNetworks (dk_listNetworks d
         ([(''mini-infra.managed'', ''true'')] @
          (case ow of None \<Rightarrow> [] | Some x \<Rightarrow> (''mini-infra.owner-kind'', scope_string (no_kind x)) #
             (if truthy (no_id x) then [(''mini-infra.owner-id'', nullish (no_id x) [])] else [])) @
          (if truthy purpose then [(''mini-infra.purpose'', nullish purpose [])] else []))))
       (\<lambda>ns. eff_return (map managed_network_info ns))"

section \<open>What the operations ask of the daemon\<close>

text \<open>
  An order on states that every reading request moves along is one that every operation moves
  along, provided the changes it asks for do.
\<close>

locale docker_order = state_order R for R :: "'w docker_state \<Rightarrow> 'w docker_state \<Rightarrow> bool" +
  fixes d :: "'w docker"
  assumes inspect_call: "moves R (ask (D_InspectNetwork n) (dk_inspectNetwork d n))"
    and late_inspect: "moves R (raceWithTimeout d (D_InspectNetwork n) (dk_inspectNetwork d n) msg)"
    and networks_call: "moves R (ask D_ListNetworks (dk_listNetworks d ps))"
    and containers_call: "moves R (ask D_ListContainers (dk_listContainers d f))"
    and container_call: "moves R (ask (D_InspectContainer c) (dk_inspectContainer d c))"
begin

lemmas reading = inspect_call late_inspect networks_call containers_call container_call

lemma inspecting: "moves R (inspect_network d n)"
  unfolding inspect_network_def by (rule inspect_call)

lemma inspection: "moves R (inspectForReconcile d n sp)"
  unfolding inspectForReconcile_def by (intro intros inspecting)

lemma inspected: "moves R (nm_inspect d n)"
  unfolding nm_inspect_def by (auto intro!: intros inspecting)

lemma existing: "moves R (nm_exists d n)"
  unfolding nm_exists_def by (auto intro!: intros inspecting)

lemma listing: "moves R (listManaged d ow p)"
  unfolding listManaged_def by (intro intros reading)

lemma ensuring:
  assumes "\<And>drv ls opts. moves R (ask (D_CreateNetwork (es_name sp)) (dk_createNetwork d (es_name sp) drv ls opts))"
  shows "moves R (nm_ensure d sp)"
  unfolding nm_ensure_def Let_def by (auto intro!: intros inspecting assms split: option.split)

lemma connecting:
  assumes "\<And>cfg. moves R (ask (D_Connect n c) (dk_connect d n c cfg))"
  shows "moves R (nm_connect d c n al ip)"
  unfolding nm_connect_def by (auto intro!: intros inspecting assms)

lemma disconnecting:
  assumes "moves R (ask (D_Disconnect n c) (dk_disconnect d n c force))"
  shows "moves R (nm_disconnect d c n force)"
  unfolding nm_disconnect_def by (auto intro!: intros assms)

lemma removing:
  assumes "\<And>c. moves R (ask (D_Disconnect n c) (dk_disconnect d n c True))"
    and "\<And>msg. moves R (raceWithTimeout d (D_RemoveNetwork n) (dk_removeNetwork d n) msg)"
  shows "moves R (nm_remove d n force)"
  unfolding nm_remove_def remove_call_def Let_def
  by (auto intro!: intros late_inspect disconnecting assms split: sum.split)

end

text \<open>The requests added to the record, all of a kind.\<close>

definition asked :: "(docker_call \<Rightarrow> bool) \<Rightarrow> 'w docker_state \<Rightarrow> 'w docker_state \<Rightarrow> bool" where
  "asked P s t \<longleftrightarrow> (\<exists>cs. ds_calls t = ds_calls s @ cs \<and> list_all P cs)"

fun reading_call :: "docker_call \<Rightarrow> bool" where
  "reading_call (D_CreateNetwork n) = False"
| "reading_call (D_Connect n c) = False"
| "reading_call (D_Disconnect n c) = False"
| "reading_call (D_RemoveNetwork n) = False"
| "reading_call _ = True"

definition or_reading :: "(docker_call \<Rightarrow> bool) \<Rightarrow> docker_call \<Rightarrow> bool" where
  "or_reading P c \<longleftrightarrow> reading_call c \<or> P c"

lemma or_readingI: "P c \<Longrightarrow> or_reading P c"
  by (simp add: or_reading_def)

lemma asked_ask: "P c \<Longrightarrow> moves (asked P) (ask c f)"
  by (auto simp: moves_def asked_def ask_def split: prod.split)

lemma asked_race: "P c \<Longrightarrow> moves (asked P) (raceWithTimeout d c f msg)"
  unfolding raceWithTimeout_def by (rule asked_ask)

lemmas asked_change = asked_ask [OF or_readingI] asked_race [OF or_readingI]

interpretation asked: docker_order "asked (or_reading P)" d for P d
proof
  show "asked (or_reading P) s s" for s
    unfolding asked_def by (rule exI [of _ "[]"]) simp
  show "asked (or_reading P) s t \<Longrightarrow> asked (or_reading P) t u \<Longrightarrow> asked (or_reading P) s u" for s t u
    unfolding asked_def by (metis append.assoc list_all_append)
qed (simp_all add: asked_ask asked_race or_reading_def)

lemma askedD: "asked P s t \<Longrightarrow> ds_calls t = ds_calls s @ cs \<Longrightarrow> c \<in> set cs \<Longrightarrow> P c"
  by (auto simp: asked_def list_all_iff)

lemma asked_mono: "asked P s t \<Longrightarrow> (\<And>c. P c \<Longrightarrow> Q c) \<Longrightarrow> asked Q s t"
  by (auto simp: asked_def list_all_iff)

lemma asked_trans: "asked P s t \<Longrightarrow> asked P t u \<Longrightarrow> asked P s u"
  unfolding asked_def by (metis append.assoc list_all_append)

lemma asked_refl [simp]: "asked P s s"
  by (simp add: asked_def)

section \<open>Removing by owner\<close>

text \<open>
  The daemon keeps the labels a network was created with, and a listing by labels has only
  networks that carry them.
\<close>

definition keeps_labels :: "'w docker \<Rightarrow> (string \<Rightarrow> labels) \<Rightarrow> bool" where
  "keeps_labels d lab \<longleftrightarrow>
     (\<forall>n w. case dk_inspectNetwork d n w of (Inr info, _) \<Rightarrow> nullish (wi_Labels info) [] = lab n | _ \<Rightarrow> True) \<and>
     (\<forall>ps w. case dk_listNetworks d ps w of
        (Inr ns, _) \<Rightarrow> list_all (\<lambda>x. nullish (lw_Labels x) [] = lab (lw_Name x) \<and>
          list_all (\<lambda>(k, v). om_get (lab (lw_Name x)) k = Some v) ps) ns
      | _ \<Rightarrow> True)"

lemma keeps_labels_inspect:
  "keeps_labels d lab \<Longrightarrow> nm_inspect d n s = (Inr (Some i), t) \<Longrightarrow> ir_labels i = lab n"
  unfolding keeps_labels_def nm_inspect_def
  by (fastforce simp: eff_catch_def eff_bind_def eff_return_def eff_throw_def inspect_network_def ask_def
      split: prod.splits sum.splits if_splits)

lemma keeps_labels_listed:
  assumes "keeps_labels d lab" and "ask D_ListNetworks (dk_listNetworks d ps) s = (Inr ns, t)" and "x \<in> set ns"
  shows "\<forall>(k, v) \<in> set ps. om_get (lab (lw_Name x)) k = Some v" and "nullish (lw_Labels x) [] = lab (lw_Name x)"
  using assms unfolding keeps_labels_def by (fastforce simp: ask_def list_all_iff split: prod.splits)+

definition removes_only :: "(string \<Rightarrow> bool) \<Rightarrow> docker_call \<Rightarrow> bool" where
  "removes_only Q c = (case c of D_RemoveNetwork n \<Rightarrow> Q n | _ \<Rightarrow> True)"

lemma removes_only_simps [simp]:
  "removes_only Q (D_RemoveNetwork n) = Q n" "removes_only Q (D_Disconnect n c)"
  by (simp_all add: removes_only_def)

lemma remove_asks: "Q n \<Longrightarrow> moves (asked (or_reading (removes_only Q))) (nm_remove d n force)"
  by (rule asked.removing) (simp_all add: asked_change)

definition owned_or_unlabelled :: "network_owner \<Rightarrow> labels \<Rightarrow> bool" where
  "owned_or_unlabelled ow ls \<longleftrightarrow>
     om_get ls ''mini-infra.managed'' = None \<or>
     om_get ls ''mini-infra.owner-kind'' = Some (scope_string (no_kind ow)) \<and>
     (no_kind ow = Sc_host \<or> om_get ls ''mini-infra.owner-id'' = no_id ow)"

lemma candidates_asks:
  assumes "keeps_labels d lab" and "\<And>n. owned_or_unlabelled ow (lab n) \<Longrightarrow> Q n"
  shows "moves (asked (or_reading (removes_only Q))) (remove_candidates d ow force handled ns)"
proof -
  have "moves (asked (or_reading (removes_only Q))) (remove_candidate d ow force n)" for n
    unfolding remove_candidate_def
  proof (rule asked.bind_answer)
    fix s i t assume "eff_try (nm_inspect d n) s = (Inr i, t)"
    with keeps_labels_inspect [OF assms(1)] have "ir_labels x = lab n" if "i = Inr (Some x)" for x
      using that by auto
    with assms(2) [of n] show "moves (asked (or_reading (removes_only Q)))
      (case i of Inl _ \<Rightarrow> eff_return [] | Inr None \<Rightarrow> eff_return []
       | Inr (Some x) \<Rightarrow> if isFallbackRemovalSafe (ir_labels x) ow
           then eff_bind (nm_remove d n force) (\<lambda>r. eff_return [r]) else eff_return [])"
      by (auto simp: isFallbackRemovalSafe_def owned_or_unlabelled_def intro!: asked.intros remove_asks
          split: sum.split option.split if_splits)
  qed (intro asked.attempt asked.inspected)
  then show ?thesis
    by (induction d ow force handled ns rule: remove_candidates.induct) (auto intro!: asked.intros)
qed

lemma removals_asks:
  assumes "keeps_labels d lab" and "no_kind ow = Sc_host \<or> truthy (no_id ow)"
    and "\<And>n. owned_or_unlabelled ow (lab n) \<Longrightarrow> Q n"
  shows "moves (asked (or_reading (removes_only Q))) (removeByOwner d ow force cands)"
proof -
  have listed: "moves (asked (or_reading (removes_only Q)))
    (eff_bind (ask D_ListNetworks (dk_listNetworks d (owner_filters ow))) (\<lambda>nets.
       eff_bind (eff_each (\<lambda>n. nm_remove d (lw_Name n) force) nets) (\<lambda>rs. eff_return (rs, set (map lw_Name nets)))))"
  proof (rule asked.bind_answer)
    fix s nets t assume run: "ask D_ListNetworks (dk_listNetworks d (owner_filters ow)) s = (Inr nets, t)"
    have "Q (lw_Name n)" if "n \<in> set nets" for n
      using keeps_labels_listed(1) [OF assms(1) run that] assms(2)
      by (auto simp: owner_filters_def owned_or_unlabelled_def truthy_def split: option.splits intro!: assms(3))
    then show "moves (asked (or_reading (removes_only Q)))
      (eff_bind (eff_each (\<lambda>n. nm_remove d (lw_Name n) force) nets) (\<lambda>rs. eff_return (rs, set (map lw_Name nets))))"
      by (intro asked.intros remove_asks)
  qed (rule asked.networks_call)
  show ?thesis
    unfolding removeByOwner_def
    by (rule asked.bind, rule asked.catch, rule listed)
       (auto intro!: asked.intros candidates_asks [OF assms(1,3)] split: prod.split)
qed

section \<open>A daemon for the examples\<close>

text \<open>
  It never fails: the networks are its state, the containers are given. A container is known by
  the first twelve characters of its id.
\<close>

type_synonym sample_world = "(string \<times> network_info) list"

definition sample_error :: "int \<Rightarrow> docker_error" where
  "sample_error n = \<lparr>de_statusCode = Some n, de_message = []\<rparr>"

definition sample_inspect :: "string \<Rightarrow> (docker_error, sample_world, network_info) fx" where
  "sample_inspect n w = (case om_get w n of None \<Rightarrow> (Inl (sample_error 404), w) | Some i \<Rightarrow> (Inr i, w))"

definition sample_create :: "string \<Rightarrow> string \<Rightarrow> labels \<Rightarrow> labels option \<Rightarrow> (docker_error, sample_world, unit) fx" where
  "sample_create n drv ls opts w =
     (if om_get w n \<noteq> None then (Inl (sample_error 409), w)
      else (Inr (), om_set n \<lparr>wi_Name = Some n, wi_Id = n, wi_Driver = Some drv, wi_Labels = Some ls,
        wi_Options = opts, wi_IPAM = None, wi_Containers = Some []\<rparr> w))"

definition sample_connect :: "listed_container list \<Rightarrow> string \<Rightarrow> string \<Rightarrow> endpoint_config \<Rightarrow> (docker_error, sample_world, unit) fx" where
  "sample_connect cs n c cfg w =
     (case (om_get w n, find (\<lambda>x. take 12 (lc_Id x) = take 12 c) cs) of
        (Some i, Some x) \<Rightarrow>
          (let con = nullish (wi_Containers i) [] in
           if take 12 c \<in> (take 12 \<circ> fst) ` set con then (Inl (sample_error 403), w)
           else (Inr (), om_set n (i\<lparr>wi_Containers := Some (con @ [(lc_Id x, None)])\<rparr>) w))
      | _ \<Rightarrow> (Inl (sample_error 404), w))"

definition sample_disconnect :: "string \<Rightarrow> string \<Rightarrow> bool \<Rightarrow> (docker_error, sample_world, unit) fx" where
  "sample_disconnect n c force w =
     (case om_get w n of
        None \<Rightarrow> (Inl (sample_error 404), w)
      | Some i \<Rightarrow> (Inr (), om_set n (i\<lparr>wi_Containers :=
          Some (filter (\<lambda>(x, _). take 12 x \<noteq> take 12 c) (nullish (wi_Containers i) []))\<rparr>) w))"

definition sample_remove :: "string \<Rightarrow> (docker_error, sample_world, unit) fx" where
  "sample_remove n w = (if om_get w n = None then (Inl (sample_error 404), w) else (Inr (), om_delete n w))"

definition carries :: "(string \<times> string) list \<Rightarrow> labels \<Rightarrow> bool" where
  "carries ps ls = list_all (\<lambda>(k, v). om_get ls k = Some v) ps"

definition sample_listing :: "string \<times> network_info \<Rightarrow> listed_network" where
  "sample_listing p = \<lparr>lw_Name = fst p, lw_Id = wi_Id (snd p), lw_Driver = wi_Driver (snd p), lw_Labels = wi_Labels (snd p)\<rparr>"

definition sample_networks :: "(string \<times> string) list \<Rightarrow> (docker_error, sample_world, listed_network list) fx" where
  "sample_networks ps w = (Inr (filter (\<lambda>x. carries ps (nullish (lw_Labels x) [])) (map sample_listing w)), w)"

definition sample_containers ::
  "listed_container list \<Rightarrow> container_filter \<Rightarrow> (docker_error, sample_world, listed_container list) fx" where
  "sample_containers cs f w =
     (Inr (case f of By_labels ps \<Rightarrow> filter (\<lambda>x. carries ps (nullish (lc_Labels x) [])) cs
           | By_name n \<Rightarrow> filter (\<lambda>x. list_ex (\<lambda>y. includes_str y n) (nullish (lc_Names x) [])) cs), w)"

definition sample_container ::
  "listed_container list \<Rightarrow> string \<Rightarrow> (docker_error, sample_world, inspected_container) fx" where
  "sample_container cs c w =
     (case find (\<lambda>x. take 12 (lc_Id x) = take 12 c) cs of
        None \<Rightarrow> (Inl (sample_error 404), w)
      | Some x \<Rightarrow> (Inr \<lparr>vc_Name = (case nullish (lc_Names x) [] of [] \<Rightarrow> None | n # _ \<Rightarrow> Some n),
          vc_Labels = lc_Labels x, vc_StartedAt = None, vc_Created = None\<rparr>, w))"

definition sample_docker :: "listed_container list \<Rightarrow> sample_world docker" where
  "sample_docker cs =
     \<lparr>dk_inspectNetwork = sample_inspect, dk_createNetwork = sample_create, dk_connect = sample_connect cs,
      dk_disconnect = sample_disconnect, dk_removeNetwork = sample_remove, dk_listNetworks = sample_networks,
      dk_listContainers = sample_containers cs, dk_inspectContainer = sample_container cs,
      dk_late = (\<lambda>_ _. False), dk_now = (\<lambda>_. 0)\<rparr>"

definition sample_start :: "sample_world \<Rightarrow> sample_world docker_state" where
  "sample_start w = \<lparr>ds_world = w, ds_calls = []\<rparr>"

definition sample_network :: "string \<Rightarrow> labels \<Rightarrow> string list \<Rightarrow> string \<times> network_info" where
  "sample_network n ls cs = (n, \<lparr>wi_Name = Some n, wi_Id = n, wi_Driver = Some ''bridge'', wi_Labels = Some ls,
     wi_Options = None, wi_IPAM = None, wi_Containers = Some (map (\<lambda>c. (c, None)) cs)\<rparr>)"

lemmas sample_defs = sample_docker_def sample_inspect_def sample_create_def sample_connect_def
  sample_disconnect_def sample_remove_def sample_networks_def sample_containers_def sample_container_def

section \<open>Properties\<close>

text \<open>C18: \<open>removeByOwner\<close> asks for the removal of a network only if the labels it was created with
  say that it belongs to this owner, or do not claim it for the program at all. The daemon is
  assumed to keep labels, and to list by labels; an owner other than the host has an id.\<close>

theorem removals_own_networks:
  assumes "keeps_labels d lab" and "no_kind ow = Sc_host \<or> truthy (no_id ow)"
    and "removeByOwner d ow force cands s = (r, t)"
  shows "\<exists>cs. ds_calls t = ds_calls s @ cs \<and>
    (\<forall>n. D_RemoveNetwork n \<in> set cs \<longrightarrow> owned_or_unlabelled ow (lab n))"
proof -
  have "asked (or_reading (removes_only (\<lambda>n. owned_or_unlabelled ow (lab n)))) s t"
    by (rule movesD [OF removals_asks [OF assms(1,2)] assms(3)])
  then show ?thesis
    by (fastforce simp: asked_def list_all_iff or_reading_def)
qed

text \<open>Three networks: one of the stack, one of another stack under a name the stack might have used,
  and one from before the labels. Their labels depend on nothing but the name.\<close>

definition sample_labels :: "string \<Rightarrow> labels" where
  "sample_labels n =
     (if n = ''app_default'' then ownerLabels \<lparr>no_kind = Sc_stack, no_id = Some ''s1''\<rparr> None
      else if n = ''app_data'' then ownerLabels \<lparr>no_kind = Sc_stack, no_id = Some ''s2''\<rparr> None else [])"

definition labelled_docker :: "sample_world docker" where
  "labelled_docker = (sample_docker [])
     \<lparr>dk_inspectNetwork := (\<lambda>n w. case sample_inspect n w of (r, v) \<Rightarrow>
        (map_sum id (\<lambda>i. i\<lparr>wi_Labels := Some (sample_labels n)\<rparr>) r, v)),
      dk_listNetworks := (\<lambda>ps w.
        (Inr (filter (\<lambda>x. carries ps (sample_labels (lw_Name x)))
          (map (\<lambda>p. (sample_listing p)\<lparr>lw_Labels := Some (sample_labels (fst p))\<rparr>) w)), w))\<rparr>"

lemma labelled_docker_keeps: "keeps_labels labelled_docker sample_labels"
  by (auto simp: keeps_labels_def labelled_docker_def sample_inspect_def carries_def list_all_iff
      sample_listing_def split: option.splits)

theorem removals_own_networks_witness:
  "\<exists>r t. removeByOwner labelled_docker \<lparr>no_kind = Sc_stack, no_id = Some ''s1''\<rparr> False
       [''app_default'', ''app_data'', ''old_net'', ''gone'']
       (sample_start (map (\<lambda>n. sample_network n [] []) [''app_default'', ''app_data'', ''old_net''])) = (Inr r, t) \<and>
     map mr_name r = [''app_default'', ''old_net''] \<and> list_all mr_removed r \<and>
     (\<exists>cs. ds_calls t = cs \<and> D_RemoveNetwork ''old_net'' \<in> set cs \<and>
       (\<forall>n. D_RemoveNetwork n \<in> set cs \<longrightarrow>
         owned_or_unlabelled \<lparr>no_kind = Sc_stack, no_id = Some ''s1''\<rparr> (sample_labels n)))"
proof -
  let ?ow = "\<lparr>no_kind = Sc_stack, no_id = Some ''s1''\<rparr>"
  let ?s = "sample_start (map (\<lambda>n. sample_network n [] []) [''app_default'', ''app_data'', ''old_net''])"
  let ?run = "removeByOwner labelled_docker ?ow False [''app_default'', ''app_data'', ''old_net'', ''gone''] ?s"
  have run: "case ?run of
      (Inr r, t) \<Rightarrow> map mr_name r = [''app_default'', ''old_net''] \<and> list_all mr_removed r \<and>
        list_ex (\<lambda>c. c = D_RemoveNetwork ''old_net'') (ds_calls t)
    | (Inl e, t) \<Rightarrow> False"
    by code_simp
  then obtain r t where rt: "?run = (Inr r, t)" "map mr_name r = [''app_default'', ''old_net'']"
      "list_all mr_removed r" "D_RemoveNetwork ''old_net'' \<in> set (ds_calls t)"
    by (auto simp: list_ex_iff split: prod.splits sum.splits)
  from removals_own_networks [OF labelled_docker_keeps _ rt(1)] rt show ?thesis
    by (auto simp: sample_start_def)
qed

end
