(* ===== verification/NetworkReconcile.thy ===== *)
theory NetworkReconcile
  imports NetworkManager
begin

text \<open>
  \<open>networks/network-reconciler.ts\<close>: what differs between the rows that say which networks there
  should be and who should be on them, and what the daemon reports. The rows and the services,
  stacks and environments they refer to are read from one state of the database; what the daemon
  is asked, and in which order, is part of the state. Times and logging are left out.
\<close>

section \<open>What is read\<close>

record net_service =
  nv_id :: string
  nv_stackId :: string
  nv_serviceName :: string
  nv_serviceType :: string
  nv_adoptedContainer :: "string option"

record net_tables =
  tb_net :: net_db
  tb_services :: "net_service list"
  tb_stacks :: "string list"
  tb_environments :: "string list"

record container_summary =
  cs_id :: string
  cs_name :: string
  cs_labels :: labels

definition strip_slash :: "string \<Rightarrow> string" where
  "strip_slash s = (if starts_with s ''/'' then tl s else s)"

definition container_labels :: "listed_container \<Rightarrow> labels" where
  "container_labels c = nullish (lc_Labels c) []"

definition toContainerSummary :: "listed_container \<Rightarrow> container_summary" where
  "toContainerSummary c =
     \<lparr>cs_id = lc_Id c,
      cs_name = (case nullish (lc_Names c) [] of [] \<Rightarrow> lc_Id c | n # _ \<Rightarrow> strip_slash n),
      cs_labels = container_labels c\<rparr>"

definition isSynthetic :: "labels \<Rightarrow> bool" where
  "isSynthetic ls \<longleftrightarrow> om_get ls ''mini-infra.synthetic'' = Some ''true''"

definition shortId :: "string \<Rightarrow> string" where
  "shortId i = (if length i > 12 then take 12 i else i)"

definition ownerFromManagedNetwork :: "managed_network \<Rightarrow> network_owner" where
  "ownerFromManagedNetwork net =
     (case ni_scope (mn_identity net) of
        Sc_stack \<Rightarrow> \<lparr>no_kind = Sc_stack, no_id = ni_stackId (mn_identity net)\<rparr>
      | Sc_environment \<Rightarrow> \<lparr>no_kind = Sc_environment, no_id = ni_environmentId (mn_identity net)\<rparr>
      | Sc_host \<Rightarrow> \<lparr>no_kind = Sc_host, no_id = None\<rparr>)"

definition asOptionsRecord :: "json option \<Rightarrow> (string \<times> json) list option" where
  "asOptionsRecord j = (case j of Some (JObj es) \<Rightarrow> Some es | _ \<Rightarrow> None)"

definition desiredLabelPurpose :: "managed_network \<Rightarrow> string option" where
  "desiredLabelPurpose net =
     (if ni_scope (mn_identity net) = Sc_stack then None else Some (ni_purpose (mn_identity net)))"

definition driftRelevantMismatch :: "spec_mismatch option \<Rightarrow> spec_mismatch option" where
  "driftRelevantMismatch m =
     (case m of
        None \<Rightarrow> None
      | Some x \<Rightarrow> if sm_driver x = None \<and> sm_options x = None then None
                  else Some \<lparr>sm_driver = sm_driver x, sm_labels = None, sm_options = sm_options x\<rparr>)"

section \<open>From a membership to live containers\<close>

record container_cache =
  cc_byStackService :: "(string \<times> container_summary list) list"
  cc_byName :: "(string \<times> container_summary list) list"

definition newContainerCache :: container_cache where
  "newContainerCache = \<lparr>cc_byStackService = [], cc_byName = []\<rparr>"

definition cache_key :: "string \<Rightarrow> string \<Rightarrow> string" where
  "cache_key sid name = sid @ '':'' @ name"

definition service_label :: "listed_container \<Rightarrow> string option" where
  "service_label c = om_get (container_labels c) ''mini-infra.service''"

definition group_service ::
  "(string \<times> container_summary list) list \<Rightarrow> listed_container \<Rightarrow> (string \<times> container_summary list) list" where
  "group_service m raw =
     (if isSynthetic (container_labels raw) \<or> \<not> truthy (service_label raw) then m
      else let n = nullish (service_label raw) []
           in om_set n (nullish (om_get m n) [] @ [toContainerSummary raw]) m)"

definition seedStackContainers :: "string \<Rightarrow> listed_container list \<Rightarrow> container_cache \<Rightarrow> container_cache" where
  "seedStackContainers sid raws cache = cache\<lparr>cc_byStackService :=
     foldl (\<lambda>m (n, cs). om_set (cache_key sid n) cs m) (cc_byStackService cache)
       (foldl group_service [] raws)\<rparr>"

definition stack_filter :: "string \<Rightarrow> (string \<times> string) list" where
  "stack_filter sid = [(''mini-infra.stack-id'', sid)]"

definition list_containers :: "'w docker \<Rightarrow> container_filter \<Rightarrow> ('w, listed_container list) docker_op" where
  "list_containers d f = ask D_ListContainers (dk_listContainers d f)"

definition resolveStackServiceContainers ::
  "'w docker \<Rightarrow> container_cache \<Rightarrow> string \<Rightarrow> string \<Rightarrow> ('w, container_summary list \<times> container_cache) docker_op" where
  "resolveStackServiceContainers d cache sid name =
     (case om_get (cc_byStackService cache) (cache_key sid name) of
        Some cs \<Rightarrow> eff_return (cs, cache)
      | None \<Rightarrow>
          eff_bind (list_containers d (By_labels (stack_filter sid @ [(''mini-infra.service'', name)]))) (\<lambda>raw.
          let cs = map toContainerSummary (filter (\<lambda>c. \<not> isSynthetic (container_labels c)) raw)
          in eff_return (cs, cache\<lparr>cc_byStackService := om_set (cache_key sid name) cs (cc_byStackService cache)\<rparr>)))"

definition has_name :: "string \<Rightarrow> listed_container \<Rightarrow> bool" where
  "has_name n c = list_ex (\<lambda>x. strip_slash x = n) (nullish (lc_Names c) [])"

definition resolveByName ::
  "'w docker \<Rightarrow> container_cache \<Rightarrow> string \<Rightarrow> ('w, container_summary list \<times> container_cache) docker_op" where
  "resolveByName d cache name =
     (case om_get (cc_byName cache) name of
        Some cs \<Rightarrow> eff_return (cs, cache)
      | None \<Rightarrow>
          eff_bind (list_containers d (By_name name)) (\<lambda>raw.
          let cs = map toContainerSummary (filter (has_name name) raw)
          in eff_return (cs, cache\<lparr>cc_byName := om_set name cs (cc_byName cache)\<rparr>)))"

text \<open>The services a membership may refer to, by id.\<close>

type_synonym service_index = "(string \<times> (string \<times> string)) list"

definition self_sentinel :: string where
  "self_sentinel = ''self''"

definition resolveTargetContainers ::
  "'w docker \<Rightarrow> service_index \<Rightarrow> string option \<Rightarrow> membership_target \<Rightarrow> container_cache \<Rightarrow>
   ('w, container_summary list \<times> container_cache) docker_op" where
  "resolveTargetContainers d svcs self target cache =
     (if truthy (mt_containerName target) then
        (let name = nullish (mt_containerName target) [] in
         if name = self_sentinel then
           eff_return (if truthy self then [\<lparr>cs_id = nullish self [], cs_name = self_sentinel, cs_labels = []\<rparr>] else [], cache)
         else resolveByName d cache name)
      else if truthy (mt_stackServiceId target) then
        (case om_get svcs (nullish (mt_stackServiceId target) []) of
           None \<Rightarrow> eff_return ([], cache)
         | Some (sid, name) \<Rightarrow> resolveStackServiceContainers d cache sid name)
      else eff_return ([], cache))"

section \<open>Drift\<close>

datatype drift_type = Network_missing | Spec_mismatch | Membership_missing | Membership_stale

record drift_target =
  dt_stackServiceId :: "string option"
  dt_serviceName :: "string option"
  dt_containerName :: "string option"

record drift_item =
  di_type :: drift_type
  di_networkName :: string
  di_purpose :: string
  di_scope :: net_scope
  di_managedNetworkId :: nat
  di_target :: "drift_target option"
  di_containers :: "(string \<times> string) list option"
  di_mismatch :: "spec_mismatch option"
  di_message :: string

text \<open>The two explanations a note gives.\<close>

datatype note_reason = Without_own_labels | On_shared_network

record attachment_note =
  an_networkName :: string
  an_containerId :: string
  an_containerName :: string
  an_reason :: note_reason

definition drift_base :: "drift_type \<Rightarrow> managed_network \<Rightarrow> string \<Rightarrow> drift_item" where
  "drift_base ty net msg =
     \<lparr>di_type = ty, di_networkName = mn_name net, di_purpose = ni_purpose (mn_identity net),
      di_scope = ni_scope (mn_identity net), di_managedNetworkId = mn_id net, di_target = None,
      di_containers = None, di_mismatch = None, di_message = msg\<rparr>"

definition quoted :: "string \<Rightarrow> string" where
  "quoted s = ''\"'' @ s @ ''\"''"

definition network_missing_item :: "managed_network \<Rightarrow> drift_item" where
  "network_missing_item net = drift_base Network_missing net
     (''Managed network '' @ quoted (mn_name net) @ '' ('' @ ni_purpose (mn_identity net) @ '') does not exist in Docker'')"

definition mismatch_items :: "managed_network \<Rightarrow> spec_mismatch option \<Rightarrow> drift_item list" where
  "mismatch_items net m =
     (case driftRelevantMismatch m of
        None \<Rightarrow> []
      | Some x \<Rightarrow> [(drift_base Spec_mismatch net
          (''Network '' @ quoted (mn_name net) @ '' exists but its driver/options no longer match the desired spec''))
            \<lparr>di_mismatch := Some x\<rparr>])"

definition buildTarget :: "membership_target \<Rightarrow> service_index \<Rightarrow> drift_target" where
  "buildTarget m svcs =
     \<lparr>dt_stackServiceId = mt_stackServiceId m,
      dt_serviceName = (if truthy (mt_stackServiceId m)
        then map_option snd (om_get svcs (nullish (mt_stackServiceId m) [])) else None),
      dt_containerName = mt_containerName m\<rparr>"

definition membership_missing_items ::
  "managed_network \<Rightarrow> service_index \<Rightarrow> string set \<Rightarrow> membership \<Rightarrow> container_summary list \<Rightarrow> drift_item list" where
  "membership_missing_items net svcs connected m resolved =
     (let missing = filter (\<lambda>c. shortId (cs_id c) \<notin> connected) resolved
      in if missing = [] then []
         else [(drift_base Membership_missing net
             (string_of_nat (length missing) @ '' container(s) that should be attached to '' @
              quoted (mn_name net) @ '' are not''))
               \<lparr>di_target := Some (buildTarget (nm_target m) svcs),
                di_containers := Some (map (\<lambda>c. (cs_id c, cs_name c)) missing)\<rparr>])"

text \<open>The memberships of a network in turn: the items, the ids they explain, the cache.\<close>

fun check_memberships ::
  "'w docker \<Rightarrow> service_index \<Rightarrow> string option \<Rightarrow> managed_network \<Rightarrow> string set \<Rightarrow> membership list \<Rightarrow> container_cache \<Rightarrow>
   ('w, drift_item list \<times> string set \<times> container_cache) docker_op" where
  "check_memberships d svcs self net connected [] cache = eff_return ([], {}, cache)"
| "check_memberships d svcs self net connected (m # ms) cache =
     eff_bind (resolveTargetContainers d svcs self (nm_target m) cache) (\<lambda>(resolved, cache1).
     eff_bind (check_memberships d svcs self net connected ms cache1) (\<lambda>(items, expected, cache2).
     eff_return (membership_missing_items net svcs connected m resolved @ items,
       (shortId \<circ> cs_id) ` set resolved \<union> expected, cache2)))"

record diff_options =
  dp_staleEligible :: "nat set"
  dp_primary :: "(string \<times> container_summary) list"

definition stale_item :: "managed_network \<Rightarrow> string \<Rightarrow> string \<Rightarrow> drift_item" where
  "stale_item net cid name = (drift_base Membership_stale net
     (''Container '' @ quoted name @ '' is attached to '' @ quoted (mn_name net) @
      '' but has no matching desired-state membership''))\<lparr>di_containers := Some [(cid, name)]\<rparr>"

definition unattributed_note :: "managed_network \<Rightarrow> bool \<Rightarrow> string \<Rightarrow> string \<Rightarrow> attachment_note" where
  "unattributed_note net eligible cid name =
     \<lparr>an_networkName = mn_name net, an_containerId = cid, an_containerName = name,
      an_reason = (if eligible then Without_own_labels else On_shared_network)\<rparr>"

text \<open>What is said of one attached container.\<close>

datatype verdict = Explained | Synthetic | Stale | Noted

definition attachment_verdict :: "diff_options \<Rightarrow> managed_network \<Rightarrow> string set \<Rightarrow> string \<Rightarrow> verdict" where
  "attachment_verdict opts net expected cid =
     (if shortId cid \<in> expected then Explained
      else case om_get (dp_primary opts) cid of
             Some known \<Rightarrow>
               if isSynthetic (cs_labels known) then Synthetic
               else if mn_id net \<in> dp_staleEligible opts then Stale else Noted
           | None \<Rightarrow> Noted)"

definition stale_items :: "diff_options \<Rightarrow> managed_network \<Rightarrow> string set \<Rightarrow> (string \<times> string) list \<Rightarrow> drift_item list" where
  "stale_items opts net expected connected =
     map (\<lambda>(i, n). stale_item net i n) (filter (\<lambda>(i, _). attachment_verdict opts net expected i = Stale) connected)"

definition attachment_notes :: "diff_options \<Rightarrow> managed_network \<Rightarrow> string set \<Rightarrow> (string \<times> string) list \<Rightarrow> attachment_note list" where
  "attachment_notes opts net expected connected =
     map (\<lambda>(i, n). unattributed_note net (mn_id net \<in> dp_staleEligible opts) i n)
       (filter (\<lambda>(i, _). attachment_verdict opts net expected i = Noted) connected)"

record diff =
  df_items :: "drift_item list"
  df_notes :: "attachment_note list"
  df_membershipsChecked :: nat

definition no_diff :: diff where
  "no_diff = \<lparr>df_items = [], df_notes = [], df_membershipsChecked = 0\<rparr>"

definition diff_append :: "diff \<Rightarrow> diff \<Rightarrow> diff" where
  "diff_append a b = \<lparr>df_items = df_items a @ df_items b, df_notes = df_notes a @ df_notes b,
     df_membershipsChecked = df_membershipsChecked a + df_membershipsChecked b\<rparr>"

definition network_spec :: "managed_network \<Rightarrow> reconcile_spec" where
  "network_spec net = \<lparr>rp_owner = ownerFromManagedNetwork net, rp_purpose = desiredLabelPurpose net,
     rp_driver = Some (mn_driver net), rp_options = asOptionsRecord (mn_options net)\<rparr>"

definition diff_network ::
  "'w docker \<Rightarrow> service_index \<Rightarrow> string option \<Rightarrow> diff_options \<Rightarrow> (nat \<times> membership list) list \<Rightarrow>
   managed_network \<Rightarrow> container_cache \<Rightarrow> ('w, diff \<times> container_cache) docker_op" where
  "diff_network d svcs self opts byNetwork net cache =
     eff_bind (inspectForReconcile d (mn_name net) (network_spec net)) (\<lambda>r.
     case ri_existence r of
       Unknown \<Rightarrow> eff_return (no_diff, cache)
     | Absent \<Rightarrow> eff_return (no_diff\<lparr>df_items := [network_missing_item net]\<rparr>, cache)
     | Present \<Rightarrow>
         (let connected = nullish (ri_connectedContainers r) [];
              ms = nullish (om_get byNetwork (mn_id net)) []
          in eff_bind (check_memberships d svcs self net ((shortId \<circ> fst) ` set connected) ms cache)
               (\<lambda>(items, expected, cache1). eff_return
                 (\<lparr>df_items = mismatch_items net (ri_mismatch r) @ items @ stale_items opts net expected connected,
                   df_notes = attachment_notes opts net expected connected,
                   df_membershipsChecked = length ms\<rparr>, cache1))))"

fun diffNetworks ::
  "'w docker \<Rightarrow> service_index \<Rightarrow> string option \<Rightarrow> diff_options \<Rightarrow> (nat \<times> membership list) list \<Rightarrow>
   managed_network list \<Rightarrow> container_cache \<Rightarrow> ('w, diff) docker_op" where
  "diffNetworks d svcs self opts byNetwork [] cache = eff_return no_diff"
| "diffNetworks d svcs self opts byNetwork (net # nets) cache =
     eff_bind (diff_network d svcs self opts byNetwork net cache) (\<lambda>(x, cache1).
     eff_bind (diffNetworks d svcs self opts byNetwork nets cache1) (\<lambda>y.
     eff_return (diff_append x y)))"

section \<open>The scopes\<close>

record scoped_networks =
  sn_serviceIds :: "string list"
  sn_adoptedContainerNames :: "string list"
  sn_ownedNetworks :: "managed_network list"
  sn_joinedNetworks :: "managed_network list"
  sn_ownServiceMemberships :: "membership list"
  sn_ownContainerMemberships :: "membership list"

definition sn_networksToCheck :: "scoped_networks \<Rightarrow> managed_network list" where
  "sn_networksToCheck x = sn_ownedNetworks x @ sn_joinedNetworks x"

definition sn_ownedNetworkIds :: "scoped_networks \<Rightarrow> nat set" where
  "sn_ownedNetworkIds x = mn_id ` set (sn_ownedNetworks x)"

definition stack_owned :: "string \<Rightarrow> managed_network \<Rightarrow> bool" where
  "stack_owned sid net \<longleftrightarrow>
     ni_scope (mn_identity net) = Sc_stack \<and> ni_stackId (mn_identity net) = Some sid"

definition targets_service :: "string list \<Rightarrow> membership \<Rightarrow> bool" where
  "targets_service ids m \<longleftrightarrow> (case mt_stackServiceId (nm_target m) of None \<Rightarrow> False | Some i \<Rightarrow> i \<in> set ids)"

definition targets_container :: "string list \<Rightarrow> membership \<Rightarrow> bool" where
  "targets_container names m \<longleftrightarrow> (case mt_containerName (nm_target m) of None \<Rightarrow> False | Some n \<Rightarrow> n \<in> set names)"

definition no_stack_error :: docker_error where
  "no_stack_error = \<lparr>de_statusCode = None, de_message = ''No record was found for a query.''\<rparr>"

definition stack_services :: "net_tables \<Rightarrow> string \<Rightarrow> net_service list" where
  "stack_services tb sid = filter (\<lambda>v. nv_stackId v = sid) (tb_services tb)"

definition scoped :: "net_tables \<Rightarrow> string \<Rightarrow> scoped_networks" where
  "scoped tb sid =
     (let svcs = stack_services tb sid;
          ids = map nv_id svcs;
          names = filter (\<lambda>n. n \<noteq> []) (map (\<lambda>v. nullish (nv_adoptedContainer v) [])
            (filter (\<lambda>v. nv_serviceType v = ''AdoptedWeb'') svcs));
          nets = db_networks (tb_net tb);
          rows = db_memberships (tb_net tb);
          owned = filter (stack_owned sid) nets;
          bySvc = filter (targets_service ids) rows;
          byName = filter (targets_container names) rows;
          joined = {i \<in> nm_networkId ` set (bySvc @ byName). i \<notin> mn_id ` set owned}
      in \<lparr>sn_serviceIds = ids, sn_adoptedContainerNames = names, sn_ownedNetworks = owned,
          sn_joinedNetworks = filter (\<lambda>n. mn_id n \<in> joined) nets,
          sn_ownServiceMemberships = bySvc, sn_ownContainerMemberships = byName\<rparr>)"

definition resolveStackScopedNetworks :: "net_tables \<Rightarrow> string \<Rightarrow> ('w, scoped_networks) docker_op" where
  "resolveStackScopedNetworks tb sid =
     (if sid \<in> set (tb_stacks tb) then eff_return (scoped tb sid) else eff_throw no_stack_error)"

text \<open>The rows of each network, each row once.\<close>

definition add_membership :: "(nat \<times> membership list) list \<Rightarrow> membership \<Rightarrow> (nat \<times> membership list) list" where
  "add_membership by m =
     (let l = nullish (om_get by (nm_networkId m)) []
      in om_set (nm_networkId m)
           (if list_ex (\<lambda>x. nm_id x = nm_id m) l then l else l @ [m]) by)"

definition push_membership :: "(nat \<times> membership list) list \<Rightarrow> membership \<Rightarrow> (nat \<times> membership list) list" where
  "push_membership by m = om_set (nm_networkId m) (nullish (om_get by (nm_networkId m)) [] @ [m]) by"

definition referenced_services :: "net_tables \<Rightarrow> membership list \<Rightarrow> service_index" where
  "referenced_services tb ms =
     (let ids = filter (\<lambda>i. i \<noteq> []) (map (\<lambda>m. nullish (mt_stackServiceId (nm_target m)) []) ms)
      in map (\<lambda>v. (nv_id v, (nv_stackId v, nv_serviceName v)))
           (filter (\<lambda>v. nv_id v \<in> set ids) (tb_services tb)))"

datatype report_scope = Stack_scope string | Environment_scope string | All_scope | Container_scope string

record net_report =
  nr_scope :: report_scope
  nr_networksChecked :: nat
  nr_membershipsChecked :: nat
  nr_items :: "drift_item list"
  nr_notes :: "attachment_note list"

definition report :: "report_scope \<Rightarrow> nat \<Rightarrow> diff \<Rightarrow> net_report" where
  "report sc n x = \<lparr>nr_scope = sc, nr_networksChecked = n, nr_membershipsChecked = df_membershipsChecked x,
     nr_items = df_items x, nr_notes = df_notes x\<rparr>"

definition stack_rows_by_network :: "net_tables \<Rightarrow> scoped_networks \<Rightarrow> (nat \<times> membership list) list" where
  "stack_rows_by_network tb x =
     foldl add_membership []
       (filter (\<lambda>m. nm_networkId m \<in> sn_ownedNetworkIds x) (db_memberships (tb_net tb)) @
        sn_ownServiceMemberships x @ sn_ownContainerMemberships x)"

definition reconcileStack :: "'w docker \<Rightarrow> string option \<Rightarrow> net_tables \<Rightarrow> string \<Rightarrow> ('w, net_report) docker_op" where
  "reconcileStack d self tb sid =
     eff_bind (resolveStackScopedNetworks tb sid) (\<lambda>x.
     if sn_networksToCheck x = [] then eff_return (report (Stack_scope sid) 0 no_diff)
     else
       (let byNetwork = stack_rows_by_network tb x;
            svcs = referenced_services tb (concat (map snd byNetwork))
        in eff_bind (list_containers d (By_labels (stack_filter sid))) (\<lambda>raws.
           eff_bind (diffNetworks d svcs self
               \<lparr>dp_staleEligible = sn_ownedNetworkIds x,
                dp_primary = map (\<lambda>r. (lc_Id r, toContainerSummary r)) (rev raws)\<rparr>
               byNetwork (sn_networksToCheck x) (seedStackContainers sid raws newContainerCache)) (\<lambda>y.
           eff_return (report (Stack_scope sid) (length (sn_networksToCheck x)) y)))))"

definition reconcileNetworkSet :: "'w docker \<Rightarrow> string option \<Rightarrow> net_tables \<Rightarrow> managed_network list \<Rightarrow> ('w, diff) docker_op" where
  "reconcileNetworkSet d self tb nets =
     (if nets = [] then eff_return no_diff
      else
        (let rows = filter (\<lambda>m. nm_networkId m \<in> mn_id ` set nets) (db_memberships (tb_net tb))
         in diffNetworks d (referenced_services tb rows) self \<lparr>dp_staleEligible = {}, dp_primary = []\<rparr>
              (foldl push_membership [] rows) nets newContainerCache))"

definition environment_networks :: "net_tables \<Rightarrow> string \<Rightarrow> managed_network list" where
  "environment_networks tb eid =
     filter (\<lambda>n. ni_scope (mn_identity n) = Sc_environment \<and> ni_environmentId (mn_identity n) = Some eid)
       (db_networks (tb_net tb))"

definition host_networks :: "net_tables \<Rightarrow> managed_network list" where
  "host_networks tb = filter (\<lambda>n. ni_scope (mn_identity n) = Sc_host) (db_networks (tb_net tb))"

definition reconcileEnvironment :: "'w docker \<Rightarrow> string option \<Rightarrow> net_tables \<Rightarrow> string \<Rightarrow> ('w, net_report) docker_op" where
  "reconcileEnvironment d self tb eid =
     eff_bind (reconcileNetworkSet d self tb (environment_networks tb eid)) (\<lambda>y.
     eff_return (report (Environment_scope eid) (length (environment_networks tb eid)) y))"

definition merge_reports :: "net_report list \<Rightarrow> net_report" where
  "merge_reports rs =
     \<lparr>nr_scope = All_scope, nr_networksChecked = sum_list (map nr_networksChecked rs),
      nr_membershipsChecked = sum_list (map nr_membershipsChecked rs),
      nr_items = concat (map nr_items rs), nr_notes = concat (map nr_notes rs)\<rparr>"

definition reconcileAll :: "'w docker \<Rightarrow> string option \<Rightarrow> net_tables \<Rightarrow> ('w, net_report) docker_op" where
  "reconcileAll d self tb =
     eff_bind (eff_each (reconcileStack d self tb) (tb_stacks tb)) (\<lambda>ss.
     eff_bind (eff_each (reconcileEnvironment d self tb) (tb_environments tb)) (\<lambda>es.
     eff_bind (reconcileNetworkSet d self tb (host_networks tb)) (\<lambda>h.
     eff_return (merge_reports (ss @ es @ [report All_scope (length (host_networks tb)) h])))))"

section \<open>Reading only\<close>

context docker_order
begin

lemma target_reads: "moves R (resolveTargetContainers d svcs self tg cache)"
  by (auto simp: resolveTargetContainers_def resolveByName_def resolveStackServiceContainers_def
      list_containers_def Let_def intro!: intros reading split: option.split prod.split)

lemma check_reads: "moves R (check_memberships d svcs self net con ms cache)"
  by (induction ms arbitrary: cache) (auto intro!: intros target_reads split: prod.split)

lemma network_reads: "moves R (diff_network d svcs self opts by net cache)"
  by (auto simp: diff_network_def Let_def intro!: intros inspection check_reads split: existence.split prod.split)

lemma diff_reads: "moves R (diffNetworks d svcs self opts by nets cache)"
  by (induction nets arbitrary: cache) (auto intro!: intros network_reads split: prod.split)

lemma stack_reads: "moves R (reconcileStack d self tb sid)"
  by (auto simp: reconcileStack_def resolveStackScopedNetworks_def list_containers_def Let_def
      intro!: intros reading diff_reads)

lemma set_reads: "moves R (reconcileNetworkSet d self tb nets)"
  by (auto simp: reconcileNetworkSet_def Let_def intro!: intros diff_reads)

lemma environment_reads: "moves R (reconcileEnvironment d self tb eid)"
  by (auto simp: reconcileEnvironment_def intro!: intros set_reads)

lemma all_reads: "moves R (reconcileAll d self tb)"
  by (auto simp: reconcileAll_def intro!: intros stack_reads environment_reads set_reads)

end

section \<open>What a pass over the networks is made of\<close>

lemma list_all2_member: "list_all2 Q xs ys \<Longrightarrow> x \<in> set xs \<Longrightarrow> \<exists>y \<in> set ys. Q x y"
  by (induction rule: list_all2_induct) auto

lemma list_all2_member': "list_all2 Q xs ys \<Longrightarrow> y \<in> set ys \<Longrightarrow> \<exists>x \<in> set xs. Q x y"
  by (induction rule: list_all2_induct) auto

lemma filter_single: "filter P xs = [x] \<Longrightarrow> x \<in> set xs \<and> P x"
  using filter_set [of P xs] by auto

lemma check_parts:
  assumes "check_memberships d svcs self net con ms cache s = (Inr (items, expected, cache'), t)" and "I cache s"
    and "\<And>m c s r c' t. m \<in> set ms \<Longrightarrow> I c s \<Longrightarrow>
      resolveTargetContainers d svcs self (nm_target m) c s = (Inr (r, c'), t) \<Longrightarrow> I c' t \<and> Q m r"
  shows "\<exists>rs. list_all2 Q ms rs \<and> items = concat (map2 (membership_missing_items net svcs con) ms rs) \<and>
    expected = (shortId \<circ> cs_id) ` set (concat rs) \<and> I cache' t"
  using assms
proof (induction ms arbitrary: cache s items expected)
  case (Cons m ms)
  from Cons.prems(1) obtain r c1 u its ex where r: "resolveTargetContainers d svcs self (nm_target m) cache s = (Inr (r, c1), u)"
      and rest: "check_memberships d svcs self net con ms c1 u = (Inr (its, ex, cache'), t)"
      and items: "items = membership_missing_items net svcs con m r @ its"
      and ex: "expected = (shortId \<circ> cs_id) ` set r \<union> ex"
    by (auto simp: eff_bind_Inr split: prod.splits)
  have step: "I c1 u \<and> Q m r" by (rule Cons.prems(3) [OF _ Cons.prems(2) r]) simp
  obtain rs where "list_all2 Q ms rs" "its = concat (map2 (membership_missing_items net svcs con) ms rs)"
      "ex = (shortId \<circ> cs_id) ` set (concat rs)" "I cache' t"
    using Cons.IH [OF rest] step Cons.prems(3) by (metis list.set_intros(2))
  with step items ex show ?case by (intro exI [of _ "r # rs"]) (simp add: image_Un)
qed auto

lemma diff_parts:
  assumes "diffNetworks d svcs self opts by nets cache s = (Inr y, t)" and "I cache s"
    and "\<And>net c s x c' t. net \<in> set nets \<Longrightarrow> I c s \<Longrightarrow>
      diff_network d svcs self opts by net c s = (Inr (x, c'), t) \<Longrightarrow> I c' t \<and> Q net x"
  shows "\<exists>xs. list_all2 Q nets xs \<and> df_items y = concat (map df_items xs) \<and> (\<exists>c'. I c' t)"
  using assms
proof (induction nets arbitrary: cache s y)
  case (Cons net nets)
  from Cons.prems(1) obtain x c1 u z where x: "diff_network d svcs self opts by net cache s = (Inr (x, c1), u)"
      and rest: "diffNetworks d svcs self opts by nets c1 u = (Inr z, t)" and y: "y = diff_append x z"
    by (auto simp: eff_bind_Inr split: prod.splits)
  have step: "I c1 u \<and> Q net x" by (rule Cons.prems(3) [OF _ Cons.prems(2) x]) simp
  obtain xs where "list_all2 Q nets xs" "df_items z = concat (map df_items xs)" "\<exists>c'. I c' t"
    using Cons.IH [OF rest] step Cons.prems(3) by (metis list.set_intros(2))
  with step y show ?case by (intro exI [of _ "x # xs"]) (simp add: diff_append_def)
qed (auto simp: no_diff_def)

text \<open>One network: nothing if the daemon does not know, one item if it is gone, else what is attached.\<close>

lemma diff_network_cases:
  assumes "diff_network d svcs self opts by net cache s = (Inr (x, cache'), t)"
  obtains (unknown) "x = no_diff" "cache' = cache"
      and "\<exists>r. inspectForReconcile d (mn_name net) (network_spec net) s = (Inr r, t) \<and> ri_existence r = Unknown"
  | (absent) "df_items x = [network_missing_item net]" "cache' = cache"
      and "\<exists>r. inspectForReconcile d (mn_name net) (network_spec net) s = (Inr r, t) \<and> ri_existence r = Absent"
  | (present) r u connected items expected where
      "inspectForReconcile d (mn_name net) (network_spec net) s = (Inr r, u)" "ri_existence r = Present"
      "connected = nullish (ri_connectedContainers r) []"
      "check_memberships d svcs self net ((shortId \<circ> fst) ` set connected)
         (nullish (om_get by (mn_id net)) []) cache u = (Inr (items, expected, cache'), t)"
      "df_items x = mismatch_items net (ri_mismatch r) @ items @ stale_items opts net expected connected"
proof -
  from assms obtain r u where r: "inspectForReconcile d (mn_name net) (network_spec net) s = (Inr r, u)"
    and rest: "(case ri_existence r of Unknown \<Rightarrow> eff_return (no_diff, cache)
       | Absent \<Rightarrow> eff_return (no_diff\<lparr>df_items := [network_missing_item net]\<rparr>, cache)
       | Present \<Rightarrow> (let connected = nullish (ri_connectedContainers r) []; ms = nullish (om_get by (mn_id net)) []
          in eff_bind (check_memberships d svcs self net ((shortId \<circ> fst) ` set connected) ms cache)
               (\<lambda>(items, expected, cache1). eff_return
                 (\<lparr>df_items = mismatch_items net (ri_mismatch r) @ items @ stale_items opts net expected connected,
                   df_notes = attachment_notes opts net expected connected,
                   df_membershipsChecked = length ms\<rparr>, cache1)))) u = (Inr (x, cache'), t)"
    unfolding diff_network_def eff_bind_Inr by blast
  show ?thesis
  proof (cases "ri_existence r")
    case Present
    with rest r that(3) show ?thesis by (auto simp: Let_def eff_bind_Inr split: prod.splits)
  qed (use rest r that in auto)
qed

section \<open>Rows and caches\<close>

text \<open>The unique columns of the tables.\<close>

definition tables_wf :: "net_tables \<Rightarrow> bool" where
  "tables_wf tb \<longleftrightarrow> distinct (map nv_id (tb_services tb)) \<and> distinct (map mn_id (db_networks (tb_net tb))) \<and>
     distinct (map mn_name (db_networks (tb_net tb))) \<and> distinct (map nm_id (db_memberships (tb_net tb)))"

definition rows_of :: "(nat \<times> membership list) list \<Rightarrow> nat \<Rightarrow> membership list" where
  "rows_of by k = nullish (om_get by k) []"

lemma rows_of_add:
  "rows_of (add_membership bn m) k =
     (if k = nm_networkId m \<and> nm_id m \<notin> nm_id ` set (rows_of bn k) then rows_of bn k @ [m] else rows_of bn k)"
  by (auto simp: add_membership_def rows_of_def Let_def list_ex_iff image_iff eq_commute)

lemma rows_of_added:
  assumes "inj_on nm_id (set ms \<union> set (rows_of bn k))"
  shows "set (rows_of (foldl add_membership bn ms) k) = set (rows_of bn k) \<union> {m \<in> set ms. nm_networkId m = k}"
  using assms
proof (induction ms arbitrary: bn)
  case (Cons m ms)
  have sub: "set (rows_of (add_membership bn m) k) = set (rows_of bn k) \<union> (if nm_networkId m = k then {m} else {})"
    using Cons.prems by (auto simp: rows_of_add inj_on_def image_iff)
  have "inj_on nm_id (set ms \<union> set (rows_of (add_membership bn m) k))"
    by (rule inj_on_subset [OF Cons.prems]) (auto simp: sub split: if_splits)
  from Cons.IH [OF this] sub show ?case by auto
qed simp

lemma stack_rows:
  assumes "tables_wf tb"
  shows "set (rows_of (stack_rows_by_network tb (scoped tb sid)) k) =
    {m \<in> set (db_memberships (tb_net tb)). nm_networkId m = k \<and>
      (k \<in> sn_ownedNetworkIds (scoped tb sid) \<or> m \<in> set (sn_ownServiceMemberships (scoped tb sid)) \<or>
       m \<in> set (sn_ownContainerMemberships (scoped tb sid)))}"
proof -
  let ?ms = "filter (\<lambda>m. nm_networkId m \<in> sn_ownedNetworkIds (scoped tb sid)) (db_memberships (tb_net tb)) @
    sn_ownServiceMemberships (scoped tb sid) @ sn_ownContainerMemberships (scoped tb sid)"
  have own: "set (sn_ownServiceMemberships (scoped tb sid)) \<subseteq> set (db_memberships (tb_net tb))"
    "set (sn_ownContainerMemberships (scoped tb sid)) \<subseteq> set (db_memberships (tb_net tb))"
    by (auto simp: scoped_def Let_def)
  have "inj_on nm_id (set (db_memberships (tb_net tb)))"
    using assms by (simp add: tables_wf_def distinct_map)
  then have "inj_on nm_id (set ?ms \<union> set (rows_of [] k))"
    by (rule inj_on_subset) (use own in \<open>auto simp: rows_of_def\<close>)
  from rows_of_added [OF this] own show ?thesis
    by (auto simp: stack_rows_by_network_def rows_of_def)
qed

lemma rows_of_in: "m \<in> set (rows_of bn k) \<Longrightarrow> m \<in> set (concat (map snd bn))"
  by (cases "om_get bn k") (force simp: rows_of_def dest: map_of_SomeD)+

definition svc_lookup :: "net_tables \<Rightarrow> string \<Rightarrow> (string \<times> string) option" where
  "svc_lookup tb i = map_option (\<lambda>v. (nv_stackId v, nv_serviceName v)) (find (\<lambda>v. nv_id v = i) (tb_services tb))"

lemma referenced_lookup:
  assumes "m \<in> set ms" and "mt_stackServiceId (nm_target m) = Some i" and "i \<noteq> []"
  shows "om_get (referenced_services tb ms) i = svc_lookup tb i"
proof -
  have ref: "i \<in> set (filter (\<lambda>i. i \<noteq> []) (map (\<lambda>m. nullish (mt_stackServiceId (nm_target m)) []) ms))"
    using assms by (force simp: image_iff)
  have "i \<in> ids \<Longrightarrow> map_of (map (\<lambda>v. (nv_id v, (nv_stackId v, nv_serviceName v))) (filter (\<lambda>v. nv_id v \<in> ids) vs)) i =
      map_option (\<lambda>v. (nv_stackId v, nv_serviceName v)) (find (\<lambda>v. nv_id v = i) vs)" for ids vs
    by (induction vs) auto
  from this [OF ref] show ?thesis by (simp only: referenced_services_def svc_lookup_def Let_def)
qed

lemma svc_lookup_unique:
  "tables_wf tb \<Longrightarrow> v \<in> set (tb_services tb) \<Longrightarrow> svc_lookup tb (nv_id v) = Some (nv_stackId v, nv_serviceName v)"
  by (simp add: svc_lookup_def tables_wf_def find_key_distinct)

text \<open>What the containers of the stack leave in the cache.\<close>

definition of_service :: "string \<Rightarrow> listed_container \<Rightarrow> bool" where
  "of_service n c \<longleftrightarrow> \<not> isSynthetic (container_labels c) \<and> service_label c = Some n"

lemma group_step:
  "om_get (group_service m c) n =
    (if n \<noteq> [] \<and> of_service n c then Some (nullish (om_get m n) [] @ [toContainerSummary c]) else om_get m n)"
  by (auto simp: group_service_def of_service_def truthy_def Let_def split: option.splits)

lemma group_lookup:
  "om_get (foldl group_service m raws) n =
    (if n \<noteq> [] \<and> filter (of_service n) raws \<noteq> []
     then Some (nullish (om_get m n) [] @ map toContainerSummary (filter (of_service n) raws)) else om_get m n)"
proof (induction raws arbitrary: m)
  case (Cons c raws)
  show ?case by (cases "n \<noteq> [] \<and> of_service n c") (auto simp: Cons group_step)
qed simp

lemma group_wf: "om_wf m \<Longrightarrow> om_wf (foldl group_service m raws)"
  by (induction raws arbitrary: m) (auto simp: group_service_def Let_def)

lemma keyed_lookup:
  "om_wf ps \<Longrightarrow> om_get (foldl (\<lambda>m (n, cs). om_set (cache_key sid n) cs m) acc ps) (cache_key sid n) =
     (case om_get ps n of Some cs \<Rightarrow> Some cs | None \<Rightarrow> om_get acc (cache_key sid n))"
proof (induction ps arbitrary: acc)
  case (Cons p ps)
  obtain a b where p: "p = (a, b)" by (cases p)
  from Cons.prems p have "om_wf ps" "om_get ps a = None" by (auto simp: om_wf_def map_of_eq_None_iff)
  with Cons.IH p show ?case by (auto simp: cache_key_def split: option.split)
qed simp

lemma seed_lookup:
  "om_get (cc_byStackService (seedStackContainers sid raws newContainerCache)) (cache_key sid n) =
    (if n \<noteq> [] \<and> filter (of_service n) raws \<noteq> [] then Some (map toContainerSummary (filter (of_service n) raws)) else None)"
  by (simp add: seedStackContainers_def newContainerCache_def keyed_lookup [OF group_wf [OF om_wf_Nil]]
      group_lookup del: foldl_Nil foldl_Cons)

lemma resolve_keeps_entries:
  assumes "resolveTargetContainers d svcs self tg cache s = (Inr (r, cache'), t)"
    and "om_get (cc_byStackService cache) k = Some cs"
  shows "om_get (cc_byStackService cache') k = Some cs"
  using assms
  by (auto simp: resolveTargetContainers_def resolveByName_def resolveStackServiceContainers_def Let_def
      eff_bind_Inr split: if_splits option.splits)

lemma resolve_from_cache:
  assumes "resolveTargetContainers d svcs self tg cache s = (Inr (r, cache'), t)"
    and "\<not> truthy (mt_containerName tg)" and "mt_stackServiceId tg = Some i" and "i \<noteq> []"
    and "om_get svcs i = Some (sid, n)" and "om_get (cc_byStackService cache) (cache_key sid n) = Some cs"
  shows "r = cs"
  using assms by (simp add: resolveTargetContainers_def resolveStackServiceContainers_def)

section \<open>What is reported as stale\<close>

text \<open>Listed containers carry the labels they were created with, and those a filter asks for.\<close>

definition filters_containers :: "'w docker \<Rightarrow> (string \<Rightarrow> labels) \<Rightarrow> bool" where
  "filters_containers d lab \<longleftrightarrow>
     (\<forall>f w. case dk_listContainers d f w of
        (Inr cs, _) \<Rightarrow> list_all (\<lambda>c. container_labels c = lab (lc_Id c) \<and>
          (case f of By_labels ps \<Rightarrow> carries ps (lab (lc_Id c)) | By_name n \<Rightarrow> True)) cs
      | _ \<Rightarrow> True)"

lemma filters_listed:
  assumes "filters_containers d lab" and "list_containers d f s = (Inr cs, t)" and "c \<in> set cs"
  shows "container_labels c = lab (lc_Id c)" and "f = By_labels ps \<Longrightarrow> carries ps (lab (lc_Id c))"
proof -
  from assms(2) obtain v where "dk_listContainers d f (ds_world s) = (Inr cs, v)"
    by (auto simp: list_containers_def ask_def split: prod.splits)
  moreover from assms(1) have "case dk_listContainers d f (ds_world s) of
      (Inr cs, _) \<Rightarrow> list_all (\<lambda>c. container_labels c = lab (lc_Id c) \<and>
          (case f of By_labels ps \<Rightarrow> carries ps (lab (lc_Id c)) | By_name n \<Rightarrow> True)) cs
      | _ \<Rightarrow> True"
    by (simp add: filters_containers_def)
  ultimately show "container_labels c = lab (lc_Id c)" and "f = By_labels ps \<Longrightarrow> carries ps (lab (lc_Id c))"
    using assms(3) by (auto simp: list_all_iff)
qed

text \<open>A membership of the stack's service that the labels name.\<close>

definition explains :: "net_tables \<Rightarrow> string \<Rightarrow> labels \<Rightarrow> membership \<Rightarrow> bool" where
  "explains tb sid ls m \<longleftrightarrow>
     \<not> truthy (mt_containerName (nm_target m)) \<and>
     (\<exists>v \<in> set (tb_services tb). mt_stackServiceId (nm_target m) = Some (nv_id v) \<and> nv_id v \<noteq> [] \<and>
        nv_stackId v = sid \<and> nv_serviceName v \<noteq> [] \<and> om_get ls ''mini-infra.service'' = Some (nv_serviceName v))"

lemma item_types [simp]:
  "di_type (network_missing_item net) = Network_missing" "di_type (stale_item net i n) = Membership_stale"
  "di_managedNetworkId (network_missing_item net) = mn_id net" "di_managedNetworkId (stale_item net i n) = mn_id net"
  "di_containers (stale_item net i n) = Some [(i, n)]"
  by (simp_all add: network_missing_item_def stale_item_def drift_base_def)

lemma mismatch_types: "it \<in> set (mismatch_items net m) \<Longrightarrow> di_type it = Spec_mismatch \<and> di_managedNetworkId it = mn_id net"
  by (auto simp: mismatch_items_def drift_base_def split: option.splits)

lemma missing_types:
  "it \<in> set (membership_missing_items net svcs con m r) \<Longrightarrow> di_type it = Membership_missing \<and> di_managedNetworkId it = mn_id net"
  by (auto simp: membership_missing_items_def drift_base_def Let_def split: if_splits)

lemma stale_in:
  "it \<in> set (stale_items opts net expected con) \<longleftrightarrow>
     (\<exists>i n. (i, n) \<in> set con \<and> attachment_verdict opts net expected i = Stale \<and> it = stale_item net i n)"
  by (force simp: stale_items_def image_iff)

lemma check_types:
  assumes "check_memberships d svcs self net con ms cache s = (Inr (items, expected, cache'), t)" and "it \<in> set items"
  shows "di_type it = Membership_missing \<and> di_managedNetworkId it = mn_id net"
proof -
  obtain rs where "items = concat (map2 (membership_missing_items net svcs con) ms rs)"
    using check_parts [OF assms(1), of "\<lambda>_ _. True" "\<lambda>_ _. True"] by blast
  with assms(2) show ?thesis by (auto dest: missing_types)
qed

lemma verdict_stale:
  "attachment_verdict opts net expected i = Stale \<longleftrightarrow>
     shortId i \<notin> expected \<and> mn_id net \<in> dp_staleEligible opts \<and>
     (\<exists>k. om_get (dp_primary opts) i = Some k \<and> \<not> isSynthetic (cs_labels k))"
  by (auto simp: attachment_verdict_def split: option.splits)

text \<open>What a run of \<open>reconcileStack\<close> that returns went through.\<close>

lemma reconcileStack_run:
  assumes "reconcileStack d self tb sid s = (Inr rep, t)"
  obtains "sid \<in> set (tb_stacks tb)" and "sn_networksToCheck (scoped tb sid) = []" and "nr_items rep = []"
  | raws u y where "sid \<in> set (tb_stacks tb)" "list_containers d (By_labels (stack_filter sid)) s = (Inr raws, u)"
    "diffNetworks d (referenced_services tb (concat (map snd (stack_rows_by_network tb (scoped tb sid))))) self
       \<lparr>dp_staleEligible = sn_ownedNetworkIds (scoped tb sid),
        dp_primary = map (\<lambda>r. (lc_Id r, toContainerSummary r)) (rev raws)\<rparr>
       (stack_rows_by_network tb (scoped tb sid)) (sn_networksToCheck (scoped tb sid))
       (seedStackContainers sid raws newContainerCache) u = (Inr y, t)"
    "nr_items rep = df_items y"
  using assms
  by (auto simp: reconcileStack_def resolveStackScopedNetworks_def eff_bind_Inr report_def no_diff_def Let_def
      split: if_splits)

lemma owned_scoped: "net \<in> set (sn_networksToCheck (scoped tb sid)) \<Longrightarrow>
    mn_id net \<in> sn_ownedNetworkIds (scoped tb sid) \<Longrightarrow> net \<in> set (db_networks (tb_net tb)) \<and> stack_owned sid net"
  by (auto simp: sn_networksToCheck_def sn_ownedNetworkIds_def scoped_def Let_def)

text \<open>
  A stale container of a network, as one pass over the network reports it: no membership of the
  network resolved to it from the cache the stack's containers were put in.
\<close>

definition stale_in_pass ::
  "diff_options \<Rightarrow> service_index \<Rightarrow> (nat \<times> membership list) list \<Rightarrow> container_cache \<Rightarrow> string \<Rightarrow> managed_network \<Rightarrow> drift_item \<Rightarrow> bool" where
  "stale_in_pass opts svcs bn seed sid net it \<longleftrightarrow>
     (\<exists>i n k. it = stale_item net i n \<and> mn_id net \<in> dp_staleEligible opts \<and>
       om_get (dp_primary opts) i = Some k \<and> \<not> isSynthetic (cs_labels k) \<and>
       (\<forall>m \<in> set (rows_of bn (mn_id net)). \<forall>svc n cs. \<not> truthy (mt_containerName (nm_target m)) \<longrightarrow>
         mt_stackServiceId (nm_target m) = Some svc \<longrightarrow> svc \<noteq> [] \<longrightarrow> om_get svcs svc = Some (sid, n) \<longrightarrow>
         om_get (cc_byStackService seed) (cache_key sid n) = Some cs \<longrightarrow> shortId i \<notin> (shortId \<circ> cs_id) ` set cs))"

lemma stale_of_network:
  fixes d :: "'w docker"
  assumes run: "diff_network d svcs self opts bn net cache s = (Inr (x, cache'), t)"
    and it: "it \<in> set (df_items x)" "di_type it = Membership_stale"
    and entries: "\<And>n cs. om_get (cc_byStackService cache0) (cache_key sid n) = Some cs \<Longrightarrow>
      om_get (cc_byStackService cache) (cache_key sid n) = Some cs"
  shows "stale_in_pass opts svcs bn cache0 sid net it"
proof -
  from run show ?thesis
  proof (cases rule: diff_network_cases)
    case (present r u connected items expected)
    let ?I = "\<lambda>(c::container_cache) (_::'w docker_state). \<forall>n cs. om_get (cc_byStackService cache0) (cache_key sid n) = Some cs \<longrightarrow>
      om_get (cc_byStackService c) (cache_key sid n) = Some cs"
    let ?Q = "\<lambda>m r. \<forall>svc n cs. \<not> truthy (mt_containerName (nm_target m)) \<longrightarrow> mt_stackServiceId (nm_target m) = Some svc \<longrightarrow>
      svc \<noteq> [] \<longrightarrow> om_get svcs svc = Some (sid, n) \<longrightarrow> om_get (cc_byStackService cache0) (cache_key sid n) = Some cs \<longrightarrow> r = cs"
    have "\<exists>rs. list_all2 ?Q (nullish (om_get bn (mn_id net)) []) rs \<and>
        items = concat (map2 (membership_missing_items net svcs ((shortId \<circ> fst) ` set connected)) (nullish (om_get bn (mn_id net)) []) rs) \<and>
        expected = (shortId \<circ> cs_id) ` set (concat rs) \<and> ?I cache' t"
    proof (rule check_parts [OF present(4)])
      show "?I cache u" using entries by blast
      show "?I c' t \<and> ?Q m r" if I: "?I c s" and res: "resolveTargetContainers d svcs self (nm_target m) c s = (Inr (r, c'), t)"
        for m c s r c' t
        using I resolve_keeps_entries [OF res] resolve_from_cache [OF res] by blast
    qed
    then obtain rs where rs: "list_all2 ?Q (rows_of bn (mn_id net)) rs" "expected = (shortId \<circ> cs_id) ` set (concat rs)"
      unfolding rows_of_def by blast
    from it present(5) obtain i n where i: "attachment_verdict opts net expected i = Stale" "it = stale_item net i n"
      using mismatch_types [of it net "ri_mismatch r"] check_types [OF present(4), of it] by (auto simp: stale_in)
    from i(1) obtain k where k: "shortId i \<notin> expected" "mn_id net \<in> dp_staleEligible opts"
      "om_get (dp_primary opts) i = Some k" "\<not> isSynthetic (cs_labels k)" by (auto simp: verdict_stale)
    have free: "shortId i \<notin> (shortId \<circ> cs_id) ` set cs"
      if m: "m \<in> set (rows_of bn (mn_id net))" and svc: "\<not> truthy (mt_containerName (nm_target m))"
        "mt_stackServiceId (nm_target m) = Some svc" "svc \<noteq> []" "om_get svcs svc = Some (sid, n)"
        "om_get (cc_byStackService cache0) (cache_key sid n) = Some cs" for m svc n cs
    proof -
      from list_all2_member [OF rs(1) m] obtain q where "q \<in> set rs" "?Q m q" by blast
      with svc have "cs \<in> set rs" by blast
      with k(1) rs(2) show ?thesis by auto
    qed
    show ?thesis
      unfolding stale_in_pass_def
      by (intro exI [of _ i] exI [of _ n] exI [of _ k] conjI i k ballI allI impI free)
  qed (use it in \<open>auto simp: no_diff_def\<close>)
qed

lemma check_keeps:
  assumes "check_memberships d svcs self net con ms cache s = (Inr (items, expected, cache'), t)"
    and "om_get (cc_byStackService cache) k = Some cs"
  shows "om_get (cc_byStackService cache') k = Some cs"
proof -
  have "\<exists>rs. list_all2 (\<lambda>_ _. True) ms rs \<and> items = concat (map2 (membership_missing_items net svcs con) ms rs) \<and>
      expected = (shortId \<circ> cs_id) ` set (concat rs) \<and> om_get (cc_byStackService cache') k = Some cs"
    by (rule check_parts [OF assms(1), where I = "\<lambda>c _. om_get (cc_byStackService c) k = Some cs"])
       (use assms(2) resolve_keeps_entries in \<open>blast+\<close>)
  then show ?thesis by blast
qed

lemma diff_network_keeps:
  assumes "diff_network d svcs self opts bn net cache s = (Inr (x, cache'), t)"
    and "om_get (cc_byStackService cache) k = Some cs"
  shows "om_get (cc_byStackService cache') k = Some cs"
  using assms(1) by (cases rule: diff_network_cases) (use assms(2) check_keeps in \<open>blast+\<close>)

text \<open>What \<open>reconcileStack\<close> reports as stale.\<close>

lemma stale_item_own:
  fixes d :: "'w docker"
  assumes wf: "tables_wf tb" and lab: "filters_containers d lab"
    and run: "reconcileStack d self tb sid s = (Inr rep, t)"
    and it: "it \<in> set (nr_items rep)" "di_type it = Membership_stale"
  shows "\<exists>net i n. net \<in> set (db_networks (tb_net tb)) \<and> stack_owned sid net \<and>
    di_managedNetworkId it = mn_id net \<and> di_containers it = Some [(i, n)] \<and>
    om_get (lab i) ''mini-infra.stack-id'' = Some sid \<and> \<not> isSynthetic (lab i) \<and>
    (\<forall>m \<in> set (db_memberships (tb_net tb)). nm_networkId m = mn_id net \<longrightarrow> \<not> explains tb sid (lab i) m)"
proof -
  let ?x = "scoped tb sid" let ?bn = "stack_rows_by_network tb ?x"
  let ?svcs = "referenced_services tb (concat (map snd ?bn))"
  from run show ?thesis
  proof (cases rule: reconcileStack_run)
    case (2 raws u y)
    let ?seed = "seedStackContainers sid raws newContainerCache"
    let ?opts = "\<lparr>dp_staleEligible = sn_ownedNetworkIds ?x, dp_primary = map (\<lambda>r. (lc_Id r, toContainerSummary r)) (rev raws)\<rparr>"
    let ?I = "\<lambda>(c::container_cache) (_::'w docker_state). \<forall>n cs. om_get (cc_byStackService ?seed) (cache_key sid n) = Some cs \<longrightarrow>
      om_get (cc_byStackService c) (cache_key sid n) = Some cs"
    let ?Q = "\<lambda>net (x::diff). \<forall>it \<in> set (df_items x). di_type it = Membership_stale \<longrightarrow> stale_in_pass ?opts ?svcs ?bn ?seed sid net it"
    have "\<exists>xs. list_all2 ?Q (sn_networksToCheck ?x) xs \<and> df_items y = concat (map df_items xs) \<and> (\<exists>c'. ?I c' t)"
    proof (rule diff_parts [OF 2(3), where I = ?I and Q = ?Q])
      show "?I c' t \<and> ?Q net x" if I: "?I c s" and one: "diff_network d ?svcs self ?opts ?bn net c s = (Inr (x, c'), t)"
        for net c s x c' t
      proof
        show "?I c' t" using I diff_network_keeps [OF one] by blast
        show "?Q net x" using stale_of_network [OF one, of _ ?seed sid] I by auto
      qed
    qed simp
    then obtain xs where xs: "list_all2 ?Q (sn_networksToCheck ?x) xs" "df_items y = concat (map df_items xs)" by blast
    from it(1) 2(4) xs(2) obtain x where x: "x \<in> set xs" "it \<in> set (df_items x)" by auto
    from list_all2_member' [OF xs(1) x(1)] obtain net where net: "net \<in> set (sn_networksToCheck ?x)" "?Q net x" by blast
    from net(2) x(2) it(2) have "stale_in_pass ?opts ?svcs ?bn ?seed sid net it" by blast
    then obtain i n k where i: "it = stale_item net i n" "mn_id net \<in> sn_ownedNetworkIds ?x"
      "om_get (dp_primary ?opts) i = Some k" "\<not> isSynthetic (cs_labels k)" and
      free: "\<And>m svc n cs. m \<in> set (rows_of ?bn (mn_id net)) \<Longrightarrow> \<not> truthy (mt_containerName (nm_target m)) \<Longrightarrow>
         mt_stackServiceId (nm_target m) = Some svc \<Longrightarrow> svc \<noteq> [] \<Longrightarrow> om_get ?svcs svc = Some (sid, n) \<Longrightarrow>
         om_get (cc_byStackService ?seed) (cache_key sid n) = Some cs \<Longrightarrow> shortId i \<notin> (shortId \<circ> cs_id) ` set cs"
      unfolding stale_in_pass_def by auto
    from i(3) obtain raw where raw: "raw \<in> set raws" "lc_Id raw = i" "k = toContainerSummary raw"
      by (auto dest!: map_of_SomeD)
    from filters_listed [OF lab 2(2) raw(1)] raw(2) have ls: "container_labels raw = lab i" "om_get (lab i) ''mini-infra.stack-id'' = Some sid"
      by (auto simp: stack_filter_def carries_def)
    with i(4) raw(3) have nosyn: "\<not> isSynthetic (lab i)" by (simp add: toContainerSummary_def)
    have "\<not> explains tb sid (lab i) m" if m: "m \<in> set (db_memberships (tb_net tb))" "nm_networkId m = mn_id net" for m
    proof
      assume "explains tb sid (lab i) m"
      then obtain v where v: "\<not> truthy (mt_containerName (nm_target m))" "v \<in> set (tb_services tb)"
        "mt_stackServiceId (nm_target m) = Some (nv_id v)" "nv_id v \<noteq> []" "nv_stackId v = sid" "nv_serviceName v \<noteq> []"
        "om_get (lab i) ''mini-infra.service'' = Some (nv_serviceName v)" by (auto simp: explains_def)
      have row: "m \<in> set (rows_of ?bn (mn_id net))" using m i(2) by (simp add: stack_rows [OF wf])
      have svc: "om_get ?svcs (nv_id v) = Some (sid, nv_serviceName v)"
        using referenced_lookup [OF rows_of_in [OF row] v(3,4)] svc_lookup_unique [OF wf v(2)] v(5) by simp
      have mine: "raw \<in> set (filter (of_service (nv_serviceName v)) raws)"
        using raw(1) ls(1) nosyn v(7) by (simp add: of_service_def service_label_def)
      then have "om_get (cc_byStackService ?seed) (cache_key sid (nv_serviceName v)) =
          Some (map toContainerSummary (filter (of_service (nv_serviceName v)) raws))"
        using v(6) by (auto simp: seed_lookup filter_empty_conv)
      from free [OF row v(1,3,4) svc this] mine raw(2) show False by (force simp: toContainerSummary_def)
    qed
    with owned_scoped [OF net(1) i(2)] i(1) ls(2) nosyn show ?thesis by auto
  qed (use it in simp)
qed

text \<open>A stack with one service, whose container, one of a service it no longer has, and an addon's are attached.\<close>

definition sample_container_of :: "string \<Rightarrow> string \<Rightarrow> string \<Rightarrow> labels \<Rightarrow> listed_container" where
  "sample_container_of i sid svc extra = \<lparr>lc_Id = i, lc_Names = Some [''/'' @ i],
     lc_Labels = Some ([(''mini-infra.stack-id'', sid), (''mini-infra.service'', svc)] @ extra)\<rparr>"

definition sample_cs :: "listed_container list" where
  "sample_cs = [sample_container_of ''0123456789abcdef'' ''s1'' ''web'' [],
     sample_container_of ''1123456789abcdef'' ''s1'' ''old'' [],
     sample_container_of ''2123456789abcdef'' ''s1'' ''proxy'' [(''mini-infra.synthetic'', ''true'')]]"

definition sample_row :: "nat \<Rightarrow> string \<Rightarrow> string \<Rightarrow> string \<Rightarrow> bool \<Rightarrow> managed_network" where
  "sample_row i sid purpose name enforce =
     \<lparr>mn_id = i, mn_identity = \<lparr>ni_scope = Sc_stack, ni_environmentId = None, ni_stackId = Some sid, ni_purpose = purpose\<rparr>,
      mn_name = name, mn_driver = ''bridge'', mn_options = None, mn_enforceMemberships = enforce\<rparr>"

definition sample_member :: "nat \<Rightarrow> nat \<Rightarrow> string \<Rightarrow> membership" where
  "sample_member i nid svc =
     \<lparr>nm_id = i, nm_networkId = nid, nm_target = \<lparr>mt_stackServiceId = Some svc, mt_containerName = None\<rparr>,
      nm_aliases = Some [''web''], nm_staticIp = None, nm_source = Src_template, nm_createdBy = None\<rparr>"

definition sample_tables :: "bool \<Rightarrow> net_tables" where
  "sample_tables enforce =
     \<lparr>tb_net = \<lparr>db_networks = [sample_row 1 ''s1'' ''default'' ''app_default'' enforce],
        db_memberships = [sample_member 2 1 ''v1''], db_next = 3\<rparr>,
      tb_services = [\<lparr>nv_id = ''v1'', nv_stackId = ''s1'', nv_serviceName = ''web'', nv_serviceType = ''Stateful'',
        nv_adoptedContainer = None\<rparr>],
      tb_stacks = [''s1''], tb_environments = []\<rparr>"

definition labels_in :: "listed_container list \<Rightarrow> string \<Rightarrow> labels" where
  "labels_in cs i = (case find (\<lambda>c. lc_Id c = i) cs of None \<Rightarrow> [] | Some c \<Rightarrow> container_labels c)"

lemma sample_filters: "distinct (map lc_Id cs) \<Longrightarrow> filters_containers (sample_docker cs) (labels_in cs)"
  by (auto simp: filters_containers_def sample_defs list_all_iff labels_in_def find_key_distinct container_labels_def
      split: container_filter.splits)

lemma sample_tables_wf: "tables_wf (sample_tables enforce)"
  by (simp add: tables_wf_def sample_tables_def sample_row_def sample_member_def)

lemma sample_ids: "distinct (map lc_Id sample_cs)"
  by (simp add: sample_cs_def sample_container_of_def)


lemma diff_items_in:
  "diffNetworks d svcs self opts bn nets cache s = (Inr y, t) \<Longrightarrow> it \<in> set (df_items y) \<Longrightarrow>
   \<exists>net \<in> set nets. \<exists>c s x c' t. diff_network d svcs self opts bn net c s = (Inr (x, c'), t) \<and> it \<in> set (df_items x)"
proof (induction nets arbitrary: cache s y)
  case (Cons net nets)
  then obtain x c1 u z where x: "diff_network d svcs self opts bn net cache s = (Inr (x, c1), u)"
      and rest: "diffNetworks d svcs self opts bn nets c1 u = (Inr z, t)" and y: "y = diff_append x z"
    by (auto simp: eff_bind_Inr split: prod.splits)
  from Cons.prems(2) y have "it \<in> set (df_items x) \<or> it \<in> set (df_items z)" by (simp add: diff_append_def)
  then show ?case
  proof
    assume "it \<in> set (df_items z)"
    from Cons.IH [OF rest this] show ?thesis by (meson list.set_intros(2))
  qed (use x in \<open>meson list.set_intros(1)\<close>)
qed (simp add: no_diff_def)

lemma set_no_stale:
  assumes "reconcileNetworkSet d self tb nets s = (Inr y, t)" and "it \<in> set (df_items y)"
  shows "di_type it \<noteq> Membership_stale"
proof (cases "nets = []")
  case True
  with assms show ?thesis by (simp add: reconcileNetworkSet_def no_diff_def)
next
  case False
  let ?rows = "filter (\<lambda>m. nm_networkId m \<in> mn_id ` set nets) (db_memberships (tb_net tb))"
  from assms(1) False have run: "diffNetworks d (referenced_services tb ?rows) self \<lparr>dp_staleEligible = {}, dp_primary = []\<rparr>
      (foldl push_membership [] ?rows) nets newContainerCache s = (Inr y, t)"
    by (simp add: reconcileNetworkSet_def Let_def)
  from diff_items_in [OF run assms(2)] obtain net c s' x c' t' where
    one: "diff_network d (referenced_services tb ?rows) self \<lparr>dp_staleEligible = {}, dp_primary = []\<rparr>
      (foldl push_membership [] ?rows) net c s' = (Inr (x, c'), t')" and it: "it \<in> set (df_items x)" by blast
  from one show ?thesis
    by (cases rule: diff_network_cases)
       (use it in \<open>auto simp: no_diff_def stale_in verdict_stale dest: mismatch_types check_types\<close>)
qed

section \<open>Properties\<close>

text \<open>in a sweep over every stack, every environment and the host, a container is reported as
  stale only on a network owned by a stack, only if it is one of that stack's containers and not
  an addon's, and only if no membership of the network names its service; shared networks never
  have stale containers. Row ids are unique; the daemon lists containers by the labels they carry.\<close>

theorem sweep_stale_only_own:
  assumes "tables_wf tb" and "filters_containers d lab" and run: "reconcileAll d self tb s = (Inr rep, t)"
    and it: "it \<in> set (nr_items rep)" "di_type it = Membership_stale"
  shows "\<exists>sid net i n. sid \<in> set (tb_stacks tb) \<and> net \<in> set (db_networks (tb_net tb)) \<and> stack_owned sid net \<and>
    di_managedNetworkId it = mn_id net \<and> di_containers it = Some [(i, n)] \<and>
    om_get (lab i) ''mini-infra.stack-id'' = Some sid \<and> \<not> isSynthetic (lab i) \<and>
    (\<forall>m \<in> set (db_memberships (tb_net tb)). nm_networkId m = mn_id net \<longrightarrow> \<not> explains tb sid (lab i) m)"
proof -
  from run obtain ss es h u v where
    ss: "eff_each (reconcileStack d self tb) (tb_stacks tb) s = (Inr ss, u)" and
    es: "eff_each (reconcileEnvironment d self tb) (tb_environments tb) u = (Inr es, v)" and
    h: "reconcileNetworkSet d self tb (host_networks tb) v = (Inr h, t)" and
    rep: "rep = merge_reports (ss @ es @ [report All_scope (length (host_networks tb)) h])"
    by (auto simp: reconcileAll_def eff_bind_Inr)
  have "list_all2 (\<lambda>eid r. \<exists>s y t. reconcileNetworkSet d self tb (environment_networks tb eid) s = (Inr y, t) \<and>
      nr_items r = df_items y) (tb_environments tb) es"
    by (rule eff_each_results [OF es]) (fastforce simp: reconcileEnvironment_def eff_bind_Inr report_def)
  then have env: "it \<notin> set (nr_items r)" if "r \<in> set es" for r
    using list_all2_member' [OF _ that] set_no_stale [of d self tb _ _ _ _ it] it(2) by fastforce
  have "it \<notin> set (df_items h)" using set_no_stale [OF h] it(2) by blast
  with it(1) env rep obtain r where r: "r \<in> set ss" "it \<in> set (nr_items r)"
    by (auto simp: merge_reports_def report_def)
  have "list_all2 (\<lambda>sid r. \<exists>s t. reconcileStack d self tb sid s = (Inr r, t)) (tb_stacks tb) ss"
    by (rule eff_each_results [OF ss]) blast
  from list_all2_member' [OF this r(1)] obtain sid s' t' where
    sid: "sid \<in> set (tb_stacks tb)" "reconcileStack d self tb sid s' = (Inr r, t')" by blast
  from stale_item_own [OF assms(1,2) sid(2) r(2) it(2)] sid(1) show ?thesis by blast
qed

theorem sweep_stale_only_own_witness:
  "\<exists>rep t it. reconcileAll (sample_docker sample_cs) None (sample_tables False)
       (sample_start [sample_network ''app_default'' [] (map lc_Id sample_cs)]) = (Inr rep, t) \<and>
     filter (\<lambda>x. di_type x = Membership_stale) (nr_items rep) = [it] \<and>
     di_containers it = Some [(''1123456789abcdef'', ''1123456789abcdef'')] \<and>
     \<not> isSynthetic (labels_in sample_cs ''1123456789abcdef'') \<and>
     (\<forall>m \<in> set (db_memberships (tb_net (sample_tables False))). nm_networkId m = 1 \<longrightarrow>
        \<not> explains (sample_tables False) ''s1'' (labels_in sample_cs ''1123456789abcdef'') m)"
proof -
  let ?run = "reconcileAll (sample_docker sample_cs) None (sample_tables False)
    (sample_start [sample_network ''app_default'' [] (map lc_Id sample_cs)])"
  have "case ?run of (Inr rep, t) \<Rightarrow> map (\<lambda>x. (di_managedNetworkId x, di_containers x))
        (filter (\<lambda>x. di_type x = Membership_stale) (nr_items rep)) = [(1, Some [(''1123456789abcdef'', ''1123456789abcdef'')])]
    | (Inl e, t) \<Rightarrow> False"
    by code_simp
  then obtain rep t it where run: "?run = (Inr rep, t)"
    and it: "filter (\<lambda>x. di_type x = Membership_stale) (nr_items rep) = [it]"
      "di_managedNetworkId it = 1" "di_containers it = Some [(''1123456789abcdef'', ''1123456789abcdef'')]"
    by (auto split: prod.splits sum.splits)
  from it(1) have "it \<in> set (nr_items rep)" "di_type it = Membership_stale"
    using filter_single [OF it(1)] by simp_all
  from sweep_stale_only_own [OF sample_tables_wf sample_filters [OF sample_ids] run this]
  obtain sid i n and net :: managed_network where p: "sid \<in> set (tb_stacks (sample_tables False))"
      "di_managedNetworkId it = mn_id net" "di_containers it = Some [(i, n)]"
      "\<not> isSynthetic (labels_in sample_cs i)"
      "\<forall>m \<in> set (db_memberships (tb_net (sample_tables False))). nm_networkId m = mn_id net \<longrightarrow>
         \<not> explains (sample_tables False) sid (labels_in sample_cs i) m" by blast
  from p(1,2,3) it(2,3) have "sid = ''s1''" "mn_id net = 1" "i = ''1123456789abcdef''"
    by (simp_all add: sample_tables_def)
  with p(4,5) run it show ?thesis
    by (intro exI [of _ rep] exI [of _ t] exI [of _ it] conjI) simp_all
qed

end
