(* ===== verification/NetworkConverge.thy ===== *)
theory NetworkConverge
  imports NetworkReconcile
begin

text \<open>
  \<open>networks/network-converger.ts\<close>: acting on what the reconciler reported. The result's counters
  are carried through the loops, so that what was counted before a failure stays counted.
  Logging is left out.
\<close>

section \<open>Results\<close>

record converge_result =
  cv_scope :: report_scope
  cv_networksEnsured :: nat
  cv_networksCreated :: nat
  cv_membershipsConnected :: nat
  cv_membershipsDisconnected :: nat
  cv_skippedDisconnects :: nat
  cv_skippedRecentContainers :: nat
  cv_errors :: nat

definition emptyResult :: "report_scope \<Rightarrow> converge_result" where
  "emptyResult sc =
     \<lparr>cv_scope = sc, cv_networksEnsured = 0, cv_networksCreated = 0, cv_membershipsConnected = 0,
      cv_membershipsDisconnected = 0, cv_skippedDisconnects = 0, cv_skippedRecentContainers = 0,
      cv_errors = 0\<rparr>"

definition count_error :: "converge_result \<Rightarrow> converge_result" where
  "count_error r = r\<lparr>cv_errors := cv_errors r + 1\<rparr>"

definition count_ensured :: "ensure_result \<Rightarrow> converge_result \<Rightarrow> converge_result" where
  "count_ensured e r = r\<lparr>cv_networksEnsured := cv_networksEnsured r + 1,
     cv_networksCreated := cv_networksCreated r + (if er_created e then 1 else 0)\<rparr>"

definition count_connected :: "connect_result \<Rightarrow> converge_result \<Rightarrow> converge_result" where
  "count_connected c r =
     (if cr_connected c \<and> \<not> cr_alreadyConnected c
      then r\<lparr>cv_membershipsConnected := cv_membershipsConnected r + 1\<rparr> else r)"

section \<open>Acting on one item\<close>

definition membershipKey :: "nat \<Rightarrow> string option \<Rightarrow> string option \<Rightarrow> string" where
  "membershipKey nid svc name = string_of_nat nid @ '':'' @ nullish svc [] @ '':'' @ nullish name []"

definition item_key :: "drift_item \<Rightarrow> string" where
  "item_key it = (case di_target it of
     None \<Rightarrow> membershipKey (di_managedNetworkId it) None None
   | Some t \<Rightarrow> membershipKey (di_managedNetworkId it) (dt_stackServiceId t) (dt_containerName t))"

definition row_key :: "membership \<Rightarrow> string" where
  "row_key m = membershipKey (nm_networkId m) (mt_stackServiceId (nm_target m)) (mt_containerName (nm_target m))"

definition network_ensure_spec :: "managed_network \<Rightarrow> ensure_spec" where
  "network_ensure_spec net =
     \<lparr>es_name = mn_name net, es_owner = ownerFromManagedNetwork net, es_purpose = desiredLabelPurpose net,
      es_driver = Some (mn_driver net), es_options = asOptionsRecord (mn_options net), es_extraLabels = None\<rparr>"

definition disconnect_grace_ms :: int where
  "disconnect_grace_ms = 30000"

definition reference_time :: "inspected_container \<Rightarrow> int option" where
  "reference_time i = (case vc_StartedAt i of Some t \<Rightarrow> if t > 0 then Some t else vc_Created i | None \<Rightarrow> vc_Created i)"

definition isSafeToDisconnect :: "'w docker \<Rightarrow> string \<Rightarrow> ('w, bool) docker_op" where
  "isSafeToDisconnect d cid =
     eff_catch
       (eff_bind (ask (D_InspectContainer cid) (dk_inspectContainer d cid)) (\<lambda>i.
          case reference_time i of
            None \<Rightarrow> eff_return True
          | Some t \<Rightarrow> eff_get (\<lambda>s. dk_now d (ds_world s) - t \<ge> disconnect_grace_ms)))
       (\<lambda>_. eff_return True)"

definition ensure_missing :: "'w docker \<Rightarrow> managed_network \<Rightarrow> converge_result \<Rightarrow> ('w, converge_result) docker_op" where
  "ensure_missing d net r =
     eff_bind (eff_try (nm_ensure d (network_ensure_spec net))) (\<lambda>e. eff_return
       (case e of Inl _ \<Rightarrow> count_error r | Inr x \<Rightarrow> count_ensured x r))"

definition connect_missing ::
  "'w docker \<Rightarrow> managed_network \<Rightarrow> membership option \<Rightarrow> string \<times> string \<Rightarrow> converge_result \<Rightarrow> ('w, converge_result) docker_op" where
  "connect_missing d net row c r =
     eff_bind (eff_try (nm_connect d (fst c) (mn_name net) (Option.bind row nm_aliases) (Option.bind row nm_staticIp))) (\<lambda>e. eff_return
       (case e of Inl _ \<Rightarrow> count_error r | Inr x \<Rightarrow> count_connected x r))"

definition disconnect_stale ::
  "'w docker \<Rightarrow> managed_network \<Rightarrow> string \<times> string \<Rightarrow> converge_result \<Rightarrow> ('w, converge_result) docker_op" where
  "disconnect_stale d net c r =
     eff_bind (isSafeToDisconnect d (fst c)) (\<lambda>safe.
     if \<not> safe then eff_return (r\<lparr>cv_skippedRecentContainers := cv_skippedRecentContainers r + 1\<rparr>)
     else eff_bind (eff_try (nm_disconnect d (fst c) (mn_name net) False)) (\<lambda>e. eff_return
       (case e of Inl _ \<Rightarrow> count_error r
        | Inr _ \<Rightarrow> r\<lparr>cv_membershipsDisconnected := cv_membershipsDisconnected r + 1\<rparr>)))"

definition act_on_item ::
  "'w docker \<Rightarrow> (nat \<times> managed_network) list \<Rightarrow> (string \<times> membership) list \<Rightarrow> drift_item \<Rightarrow> converge_result \<Rightarrow>
   ('w, converge_result) docker_op" where
  "act_on_item d nets rows it r =
     (case om_get nets (di_managedNetworkId it) of
        None \<Rightarrow> eff_return r
      | Some net \<Rightarrow>
          (case di_type it of
             Network_missing \<Rightarrow> ensure_missing d net r
           | Membership_missing \<Rightarrow>
               eff_fold (connect_missing d net (om_get rows (item_key it))) (nullish (di_containers it) []) r
           | Membership_stale \<Rightarrow>
               if \<not> mn_enforceMemberships net
               then eff_return (r\<lparr>cv_skippedDisconnects := cv_skippedDisconnects r + length (nullish (di_containers it) [])\<rparr>)
               else eff_fold (disconnect_stale d net) (nullish (di_containers it) []) r
           | Spec_mismatch \<Rightarrow> eff_return r))"

section \<open>The sweeps\<close>

definition fetchManagedNetworksByIds :: "net_tables \<Rightarrow> nat set \<Rightarrow> (nat \<times> managed_network) list" where
  "fetchManagedNetworksByIds tb ids = om_collect mn_id (filter (\<lambda>n. mn_id n \<in> ids) (db_networks (tb_net tb)))"

definition fetchMembershipLookup :: "net_tables \<Rightarrow> nat set \<Rightarrow> (string \<times> membership) list" where
  "fetchMembershipLookup tb ids = om_collect row_key (filter (\<lambda>m. nm_networkId m \<in> ids) (db_memberships (tb_net tb)))"

definition applyConvergence :: "'w docker \<Rightarrow> net_tables \<Rightarrow> net_report \<Rightarrow> ('w, converge_result) docker_op" where
  "applyConvergence d tb rep =
     (let ids = di_managedNetworkId ` set (nr_items rep)
      in eff_fold (act_on_item d (fetchManagedNetworksByIds tb ids) (fetchMembershipLookup tb ids))
           (nr_items rep) (emptyResult (nr_scope rep)))"

definition convergeStack :: "'w docker \<Rightarrow> string option \<Rightarrow> net_tables \<Rightarrow> string \<Rightarrow> ('w, converge_result) docker_op" where
  "convergeStack d self tb sid = eff_bind (reconcileStack d self tb sid) (applyConvergence d tb)"

definition convergeEnvironment :: "'w docker \<Rightarrow> string option \<Rightarrow> net_tables \<Rightarrow> string \<Rightarrow> ('w, converge_result) docker_op" where
  "convergeEnvironment d self tb eid = eff_bind (reconcileEnvironment d self tb eid) (applyConvergence d tb)"

definition convergeAll :: "'w docker \<Rightarrow> string option \<Rightarrow> net_tables \<Rightarrow> ('w, converge_result) docker_op" where
  "convergeAll d self tb = eff_bind (reconcileAll d self tb) (applyConvergence d tb)"

section \<open>One container\<close>

definition service_target :: "net_service \<Rightarrow> membership_target" where
  "service_target v = resolveMembershipTarget (nv_id v) (nv_serviceType v) (nv_adoptedContainer v)"

definition named_target :: "string \<Rightarrow> membership_target" where
  "named_target n = \<lparr>mt_stackServiceId = None, mt_containerName = Some n\<rparr>"

definition inspected_target :: "net_tables \<Rightarrow> inspected_container \<Rightarrow> membership_target option" where
  "inspected_target tb i =
     (let ls = nullish (vc_Labels i) [];
          sid = om_get ls ''mini-infra.stack-id'';
          name = om_get ls ''mini-infra.service'';
          found = (if truthy sid \<and> truthy name
            then find (\<lambda>v. Some (nv_stackId v) = sid \<and> Some (nv_serviceName v) = name) (tb_services tb) else None);
          own = strip_slash (nullish (vc_Name i) [])
      in case found of
           Some v \<Rightarrow> Some (service_target v)
         | None \<Rightarrow> if own \<noteq> [] then Some (named_target own) else None)"

definition resolveContainerTarget ::
  "'w docker \<Rightarrow> string option \<Rightarrow> net_tables \<Rightarrow> string \<Rightarrow> ('w, membership_target option) docker_op" where
  "resolveContainerTarget d self tb cid =
     (if self = Some cid then eff_return (Some (named_target self_sentinel))
      else eff_bind (eff_try (ask (D_InspectContainer cid) (dk_inspectContainer d cid))) (\<lambda>i. eff_return
        (case i of Inl _ \<Rightarrow> None | Inr x \<Rightarrow> inspected_target tb x)))"

definition target_rows :: "net_tables \<Rightarrow> membership_target \<Rightarrow> membership list" where
  "target_rows tb t =
     filter (\<lambda>m. if truthy (mt_stackServiceId t) then mt_stackServiceId (nm_target m) = mt_stackServiceId t
                 else mt_containerName (nm_target m) = mt_containerName t)
       (db_memberships (tb_net tb))"

definition converge_row ::
  "'w docker \<Rightarrow> (nat \<times> managed_network) list \<Rightarrow> string \<Rightarrow> membership \<Rightarrow> converge_result \<Rightarrow> ('w, converge_result) docker_op" where
  "converge_row d nets cid m r =
     (case om_get nets (nm_networkId m) of
        None \<Rightarrow> eff_return r
      | Some net \<Rightarrow>
          eff_bind (eff_try (nm_ensure d (network_ensure_spec net))) (\<lambda>e.
          case e of
            Inl _ \<Rightarrow> eff_return (count_error r)
          | Inr x \<Rightarrow>
              eff_bind (eff_try (nm_connect d cid (mn_name net) (nm_aliases m) (nm_staticIp m))) (\<lambda>c. eff_return
                (case c of Inl _ \<Rightarrow> count_error (count_ensured x r)
                 | Inr y \<Rightarrow> count_connected y (count_ensured x r)))))"

definition convergeContainer :: "'w docker \<Rightarrow> string option \<Rightarrow> net_tables \<Rightarrow> string \<Rightarrow> ('w, converge_result) docker_op" where
  "convergeContainer d self tb cid =
     eff_bind (resolveContainerTarget d self tb cid) (\<lambda>t.
     case t of
       None \<Rightarrow> eff_return (emptyResult (Container_scope cid))
     | Some target \<Rightarrow>
         (let rows = target_rows tb target
          in eff_fold (converge_row d (fetchManagedNetworksByIds tb (nm_networkId ` set rows)) cid) rows
               (emptyResult (Container_scope cid))))"

section \<open>What acting asks of the daemon\<close>

context docker_order
begin

lemma ensuring_missing:
  assumes "\<And>drv ls opts. moves R (ask (D_CreateNetwork (mn_name net)) (dk_createNetwork d (mn_name net) drv ls opts))"
  shows "moves R (ensure_missing d net r)"
  unfolding ensure_missing_def by (intro intros ensuring) (simp add: network_ensure_spec_def assms)

lemma connecting_missing:
  assumes "\<And>cfg. moves R (ask (D_Connect (mn_name net) (fst c)) (dk_connect d (mn_name net) (fst c) cfg))"
  shows "moves R (connect_missing d net row c r)"
  unfolding connect_missing_def by (intro intros connecting assms)

lemma safe_reads: "moves R (isSafeToDisconnect d c)"
  unfolding isSafeToDisconnect_def by (auto intro!: intros reading split: option.split)

lemma disconnecting_stale:
  assumes "moves R (ask (D_Disconnect (mn_name net) (fst c)) (dk_disconnect d (mn_name net) (fst c) False))"
  shows "moves R (disconnect_stale d net c r)"
  unfolding disconnect_stale_def by (auto intro!: intros safe_reads disconnecting assms)

lemma acting:
  assumes "\<And>net. om_get nets (di_managedNetworkId it) = Some net \<Longrightarrow> di_type it = Network_missing \<Longrightarrow>
      moves R (ensure_missing d net r)"
    and "\<And>net row c r. om_get nets (di_managedNetworkId it) = Some net \<Longrightarrow> di_type it = Membership_missing \<Longrightarrow>
      c \<in> set (nullish (di_containers it) []) \<Longrightarrow> moves R (connect_missing d net row c r)"
    and "\<And>net c r. om_get nets (di_managedNetworkId it) = Some net \<Longrightarrow> di_type it = Membership_stale \<Longrightarrow>
      mn_enforceMemberships net \<Longrightarrow> c \<in> set (nullish (di_containers it) []) \<Longrightarrow> moves R (disconnect_stale d net c r)"
  shows "moves R (act_on_item d nets rows it r)"
  unfolding act_on_item_def by (auto intro!: intros assms split: option.split drift_type.split)

end

lemma fetched_network:
  "om_get (fetchManagedNetworksByIds tb ids) i = Some net \<Longrightarrow> net \<in> set (db_networks (tb_net tb)) \<and> mn_id net = i"
  unfolding fetchManagedNetworksByIds_def by (auto dest: om_collect_SomeD)

lemma network_by_id:
  "tables_wf tb \<Longrightarrow> a \<in> set (db_networks (tb_net tb)) \<Longrightarrow> b \<in> set (db_networks (tb_net tb)) \<Longrightarrow> mn_id a = mn_id b \<Longrightarrow> a = b"
  by (auto simp: tables_wf_def distinct_map dest: inj_onD)

definition disconnects_only :: "(string \<Rightarrow> string \<Rightarrow> bool) \<Rightarrow> docker_call \<Rightarrow> bool" where
  "disconnects_only Q c = (case c of D_Disconnect n i \<Rightarrow> Q n i | D_RemoveNetwork n \<Rightarrow> False | _ \<Rightarrow> True)"

lemma disconnects_only_simps [simp]:
  "disconnects_only Q (D_CreateNetwork n)" "disconnects_only Q (D_Connect n i)"
  "disconnects_only Q (D_Disconnect n i) = Q n i" "\<not> disconnects_only Q (D_RemoveNetwork n)"
  by (simp_all add: disconnects_only_def)

lemma convergence_asks:
  assumes "\<And>it net i n. it \<in> set (nr_items rep) \<Longrightarrow> di_type it = Membership_stale \<Longrightarrow>
      net \<in> set (db_networks (tb_net tb)) \<Longrightarrow> mn_id net = di_managedNetworkId it \<Longrightarrow> mn_enforceMemberships net \<Longrightarrow>
      (i, n) \<in> set (nullish (di_containers it) []) \<Longrightarrow> Q (mn_name net) i"
  shows "moves (asked (or_reading (disconnects_only Q))) (applyConvergence d tb rep)"
  unfolding applyConvergence_def Let_def
  by (intro asked.folded asked.acting asked.ensuring_missing asked.connecting_missing asked.disconnecting_stale asked_change)
     (auto dest!: fetched_network intro: assms)

section \<open>Properties\<close>

text \<open>C9: converging a stack never removes a network, and asks to disconnect a container only from a
  network of that stack whose row enforces memberships, and only one of the stack's own
  containers, not an addon's, whose service no membership of the network names. Whether the
  sweep returns or fails.\<close>

theorem disconnects_only_enforced:
  assumes wf: "tables_wf tb" and lab: "filters_containers d lab"
    and run: "convergeStack d self tb sid s = (r, t)"
  shows "\<exists>cs. ds_calls t = ds_calls s @ cs \<and> (\<forall>n. D_RemoveNetwork n \<notin> set cs) \<and>
    (\<forall>n i. D_Disconnect n i \<in> set cs \<longrightarrow>
      (\<exists>net \<in> set (db_networks (tb_net tb)). mn_name net = n \<and> stack_owned sid net \<and> mn_enforceMemberships net \<and>
        om_get (lab i) ''mini-infra.stack-id'' = Some sid \<and> \<not> isSynthetic (lab i) \<and>
        (\<forall>m \<in> set (db_memberships (tb_net tb)). nm_networkId m = mn_id net \<longrightarrow> \<not> explains tb sid (lab i) m)))"
proof -
  let ?Q = "\<lambda>n i. \<exists>net \<in> set (db_networks (tb_net tb)). mn_name net = n \<and> stack_owned sid net \<and> mn_enforceMemberships net \<and>
        om_get (lab i) ''mini-infra.stack-id'' = Some sid \<and> \<not> isSynthetic (lab i) \<and>
        (\<forall>m \<in> set (db_memberships (tb_net tb)). nm_networkId m = mn_id net \<longrightarrow> \<not> explains tb sid (lab i) m)"
  have "moves (asked (or_reading (disconnects_only ?Q))) (convergeStack d self tb sid)"
    unfolding convergeStack_def
  proof (rule asked.bind_answer [OF asked.stack_reads])
    fix s rep t assume rep: "reconcileStack d self tb sid s = (Inr rep, t)"
    show "moves (asked (or_reading (disconnects_only ?Q))) (applyConvergence d tb rep)"
    proof (rule convergence_asks)
      fix it i n and net :: managed_network
      assume it: "it \<in> set (nr_items rep)" "di_type it = Membership_stale" and
        net: "net \<in> set (db_networks (tb_net tb))" "mn_id net = di_managedNetworkId it" "mn_enforceMemberships net" and
        c: "(i, n) \<in> set (nullish (di_containers it) [])"
      from stale_item_own [OF wf lab rep it] obtain own :: managed_network and j k where
        own: "own \<in> set (db_networks (tb_net tb))" "stack_owned sid own" "di_managedNetworkId it = mn_id own"
          "di_containers it = Some [(j, k)]" "om_get (lab j) ''mini-infra.stack-id'' = Some sid" "\<not> isSynthetic (lab j)"
          "\<forall>m \<in> set (db_memberships (tb_net tb)). nm_networkId m = mn_id own \<longrightarrow> \<not> explains tb sid (lab j) m" by blast
      have "own = net" by (rule network_by_id [OF wf own(1) net(1)]) (simp add: own(3) net(2))
      with own net c show "?Q (mn_name net) i" by auto
    qed
  qed
  then have "asked (or_reading (disconnects_only ?Q)) s t" by (rule movesD) (rule run)
  then obtain cs where cs: "ds_calls t = ds_calls s @ cs" "\<forall>c \<in> set cs. or_reading (disconnects_only ?Q) c"
    by (auto simp: asked_def list_all_iff)
  have "D_RemoveNetwork n \<notin> set cs" "D_Disconnect n i \<in> set cs \<Longrightarrow> ?Q n i" for n i
    using cs(2) by (fastforce simp: or_reading_def)+
  with cs(1) show ?thesis by blast
qed

theorem disconnects_only_enforced_witness:
  "\<exists>r t. convergeStack (sample_docker sample_cs) None (sample_tables True) ''s1''
       (sample_start [sample_network ''app_default'' [] (map lc_Id sample_cs)]) = (r, t) \<and>
     D_Disconnect ''app_default'' ''1123456789abcdef'' \<in> set (ds_calls t) \<and>
     \<not> isSynthetic (labels_in sample_cs ''1123456789abcdef'') \<and> mn_enforceMemberships (sample_row 1 ''s1'' ''default'' ''app_default'' True)"
proof -
  let ?run = "convergeStack (sample_docker sample_cs) None (sample_tables True) ''s1''
    (sample_start [sample_network ''app_default'' [] (map lc_Id sample_cs)])"
  have asked: "D_Disconnect ''app_default'' ''1123456789abcdef'' \<in> set (ds_calls (snd ?run))" by code_simp
  obtain r t where run: "?run = (r, t)" by (cases ?run)
  from disconnects_only_enforced [OF sample_tables_wf sample_filters [OF sample_ids] run] obtain cs where
    cs: "ds_calls t = cs" "\<And>n i. D_Disconnect n i \<in> set cs \<Longrightarrow>
      \<exists>net \<in> set (db_networks (tb_net (sample_tables True))). mn_enforceMemberships net \<and> \<not> isSynthetic (labels_in sample_cs i)"
    by (fastforce simp: sample_start_def)
  from cs(2) [of "''app_default''" "''1123456789abcdef''"] cs(1) asked run
  have "\<not> isSynthetic (labels_in sample_cs ''1123456789abcdef'')" by auto
  with run asked show ?thesis
    by (intro exI [of _ r] exI [of _ t] conjI) (simp_all add: sample_row_def)
qed

end
