(* ===== verification/NetworkHealth.thy ===== *)
theory NetworkHealth
  imports NetworkConverge
begin

text \<open>
  What the sweeps achieve. A daemon that answers every request, on a host where no container comes
  or goes meanwhile, is described by the networks it has and who is attached to them; the
  reconciler's report is then exactly the difference between those and the rows, and two sweeps
  remove it. The second one is needed: a network that was gone is only created by the first.
\<close>

section \<open>A daemon that answers\<close>

definition attached :: "network_info \<Rightarrow> string set" where
  "attached i = (shortId \<circ> fst) ` set (nullish (wi_Containers i) [])"

definition known_ids :: "listed_container list \<Rightarrow> string set" where
  "known_ids cs = (shortId \<circ> lc_Id) ` set cs"

text \<open>
  The networks of a state of the daemon are \<open>nets w\<close>, its containers \<open>cs\<close>. Inspecting answers 404
  for a network that is not there; creating one that is not there, and connecting a known
  container to one that is, work; disconnecting takes away no other container.
\<close>

definition answers_inspect :: "'w docker \<Rightarrow> ('w \<Rightarrow> string \<Rightarrow> network_info option) \<Rightarrow> bool" where
  "answers_inspect d nets \<longleftrightarrow>
     (\<forall>n w. \<exists>v. nets v = nets w \<and>
        (case nets w n of Some i \<Rightarrow> dk_inspectNetwork d n w = (Inr i, v)
         | None \<Rightarrow> \<exists>e. not_found e \<and> dk_inspectNetwork d n w = (Inl e, v)))"

definition answers_lists :: "'w docker \<Rightarrow> ('w \<Rightarrow> string \<Rightarrow> network_info option) \<Rightarrow> listed_container list \<Rightarrow> bool" where
  "answers_lists d nets cs \<longleftrightarrow>
     (\<forall>ps w. \<exists>xs v. dk_listContainers d (By_labels ps) w = (Inr xs, v) \<and> nets v = nets w \<and>
        set xs = {c \<in> set cs. carries ps (container_labels c)}) \<and>
     (\<forall>n w. \<exists>xs v. dk_listContainers d (By_name n) w = (Inr xs, v) \<and> nets v = nets w \<and>
        {c \<in> set xs. has_name n c} = {c \<in> set cs. has_name n c}) \<and>
     (\<forall>c w. nets (snd (dk_inspectContainer d c w)) = nets w) \<and>
     (\<forall>ps w. nets (snd (dk_listNetworks d ps w)) = nets w)"

definition creates_networks :: "'w docker \<Rightarrow> ('w \<Rightarrow> string \<Rightarrow> network_info option) \<Rightarrow> bool" where
  "creates_networks d nets \<longleftrightarrow>
     (\<forall>n drv ls opts w.
        if nets w n = None then \<exists>i. nets (snd (dk_createNetwork d n drv ls opts w)) = (nets w)(n \<mapsto> i)
        else nets (snd (dk_createNetwork d n drv ls opts w)) = nets w)"

definition connects_containers :: "'w docker \<Rightarrow> ('w \<Rightarrow> string \<Rightarrow> network_info option) \<Rightarrow> string set \<Rightarrow> bool" where
  "connects_containers d nets known \<longleftrightarrow>
     (\<forall>n c cfg w. nets w n = None \<longrightarrow> nets (snd (dk_connect d n c cfg w)) = nets w) \<and>
     (\<forall>n c cfg w i. nets w n = Some i \<longrightarrow> shortId c \<in> known \<longrightarrow>
        (\<exists>j. nets (snd (dk_connect d n c cfg w)) = (nets w)(n \<mapsto> j) \<and> attached j = insert (shortId c) (attached i))) \<and>
     (\<forall>n c f w. nets w n = None \<longrightarrow> nets (snd (dk_disconnect d n c f w)) = nets w) \<and>
     (\<forall>n c f w i. nets w n = Some i \<longrightarrow>
        (\<exists>j. nets (snd (dk_disconnect d n c f w)) = (nets w)(n \<mapsto> j) \<and> attached i - {shortId c} \<subseteq> attached j))"

definition healthy :: "'w docker \<Rightarrow> ('w \<Rightarrow> string \<Rightarrow> network_info option) \<Rightarrow> listed_container list \<Rightarrow> bool" where
  "healthy d nets cs \<longleftrightarrow> answers_inspect d nets \<and> answers_lists d nets cs \<and> creates_networks d nets \<and>
     connects_containers d nets (known_ids cs)"

abbreviation view :: "('w \<Rightarrow> string \<Rightarrow> network_info option) \<Rightarrow> 'w docker_state \<Rightarrow> string \<Rightarrow> network_info option" where
  "view nets s \<equiv> nets (ds_world s)"

lemma healthyD:
  assumes "healthy d nets cs"
  shows "\<exists>v. nets v = nets w \<and> (case nets w n of Some i \<Rightarrow> dk_inspectNetwork d n w = (Inr i, v)
      | None \<Rightarrow> \<exists>e. not_found e \<and> dk_inspectNetwork d n w = (Inl e, v))"
    and "\<exists>xs v. dk_listContainers d (By_labels ps) w = (Inr xs, v) \<and> nets v = nets w \<and>
        set xs = {c \<in> set cs. carries ps (container_labels c)}"
    and "\<exists>xs v. dk_listContainers d (By_name n) w = (Inr xs, v) \<and> nets v = nets w \<and>
        {c \<in> set xs. has_name n c} = {c \<in> set cs. has_name n c}"
    and "nets (snd (dk_inspectContainer d c w)) = nets w"
    and "nets (snd (dk_listNetworks d ps w)) = nets w"
    and "nets w n = None \<Longrightarrow> \<exists>i. nets (snd (dk_createNetwork d n drv ls opts w)) = (nets w)(n \<mapsto> i)"
    and "nets w n = Some i \<Longrightarrow> nets (snd (dk_createNetwork d n drv ls opts w)) = nets w"
    and "nets w n = None \<Longrightarrow> nets (snd (dk_connect d n c cfg w)) = nets w"
    and "nets w n = Some i \<Longrightarrow> shortId c \<in> known_ids cs \<Longrightarrow>
      \<exists>j. nets (snd (dk_connect d n c cfg w)) = (nets w)(n \<mapsto> j) \<and> attached j = insert (shortId c) (attached i)"
    and "nets w n = None \<Longrightarrow> nets (snd (dk_disconnect d n c f w)) = nets w"
    and "nets w n = Some i \<Longrightarrow>
      \<exists>j. nets (snd (dk_disconnect d n c f w)) = (nets w)(n \<mapsto> j) \<and> attached i - {shortId c} \<subseteq> attached j"
proof -
  from assms have h: "answers_inspect d nets" "answers_lists d nets cs" "creates_networks d nets"
      "connects_containers d nets (known_ids cs)" by (simp_all add: healthy_def)
  show "\<exists>v. nets v = nets w \<and> (case nets w n of Some i \<Rightarrow> dk_inspectNetwork d n w = (Inr i, v)
      | None \<Rightarrow> \<exists>e. not_found e \<and> dk_inspectNetwork d n w = (Inl e, v))"
    using h(1) by (simp add: answers_inspect_def)
  show "\<exists>xs v. dk_listContainers d (By_labels ps) w = (Inr xs, v) \<and> nets v = nets w \<and>
        set xs = {c \<in> set cs. carries ps (container_labels c)}"
    "\<exists>xs v. dk_listContainers d (By_name n) w = (Inr xs, v) \<and> nets v = nets w \<and>
        {c \<in> set xs. has_name n c} = {c \<in> set cs. has_name n c}"
    "nets (snd (dk_inspectContainer d c w)) = nets w" "nets (snd (dk_listNetworks d ps w)) = nets w"
    using h(2) by (simp_all add: answers_lists_def)
  show "nets w n = None \<Longrightarrow> \<exists>i. nets (snd (dk_createNetwork d n drv ls opts w)) = (nets w)(n \<mapsto> i)"
    "nets w n = Some i \<Longrightarrow> nets (snd (dk_createNetwork d n drv ls opts w)) = nets w"
    using h(3) by (force simp: creates_networks_def)+
  show "nets w n = None \<Longrightarrow> nets (snd (dk_connect d n c cfg w)) = nets w"
    "nets w n = Some i \<Longrightarrow> shortId c \<in> known_ids cs \<Longrightarrow>
      \<exists>j. nets (snd (dk_connect d n c cfg w)) = (nets w)(n \<mapsto> j) \<and> attached j = insert (shortId c) (attached i)"
    "nets w n = None \<Longrightarrow> nets (snd (dk_disconnect d n c f w)) = nets w"
    "nets w n = Some i \<Longrightarrow>
      \<exists>j. nets (snd (dk_disconnect d n c f w)) = (nets w)(n \<mapsto> j) \<and> attached i - {shortId c} \<subseteq> attached j"
    using h(4) by (simp_all add: connects_containers_def)
qed

lemma inspect_view:
  "healthy d nets cs \<Longrightarrow> nets (snd (dk_inspectNetwork d n w)) = nets w"
  using healthyD(1) [of d nets cs w n] by (auto split: option.splits)

lemma list_view:
  "healthy d nets cs \<Longrightarrow> nets (snd (dk_listContainers d f w)) = nets w"
  using healthyD(2,3) [of d nets cs] by (cases f) (metis snd_conv)+

lemma ask_view: "view nets (snd (ask c f s)) = nets (snd (f (ds_world s)))"
  by (simp add: ask_def split: prod.split)

lemma race_view: "view nets (snd (raceWithTimeout d c f msg s)) = nets (snd (f (ds_world s)))"
  by (simp add: raceWithTimeout_def ask_def split: prod.split)

text \<open>Reading leaves the networks as they are.\<close>

definition same_view :: "('w \<Rightarrow> string \<Rightarrow> network_info option) \<Rightarrow> 'w docker_state \<Rightarrow> 'w docker_state \<Rightarrow> bool" where
  "same_view nets s t \<longleftrightarrow> view nets t = view nets s"

lemma same_view_order: "healthy d nets cs \<Longrightarrow> docker_order (same_view nets) d"
  by unfold_locales (auto simp: same_view_def moves_def ask_view race_view inspect_view list_view healthyD(4,5))

text \<open>A network that is there stays, and so do those attached to it that are wanted there.\<close>

definition keeps_wanted ::
  "('w \<Rightarrow> string \<Rightarrow> network_info option) \<Rightarrow> (string \<Rightarrow> string set) \<Rightarrow> 'w docker_state \<Rightarrow> 'w docker_state \<Rightarrow> bool" where
  "keeps_wanted nets W s t \<longleftrightarrow>
     (\<forall>n i. view nets s n = Some i \<longrightarrow> (\<exists>j. view nets t n = Some j \<and> attached i \<inter> W n \<subseteq> attached j))"

lemma keeps_wanted_same: "view nets t = view nets s \<Longrightarrow> keeps_wanted nets W s t"
  by (simp add: keeps_wanted_def)

lemma keeps_present: "keeps_wanted nets W s t \<Longrightarrow> view nets s n \<noteq> None \<Longrightarrow> view nets t n \<noteq> None"
  unfolding keeps_wanted_def by (metis not_None_eq)

lemma keeps_wanted_order: "healthy d nets cs \<Longrightarrow> docker_order (keeps_wanted nets W) d"
proof
  show "keeps_wanted nets W s s" for s by (simp add: keeps_wanted_same)
  show "keeps_wanted nets W s u" if st: "keeps_wanted nets W s t" and tu: "keeps_wanted nets W t u" for s t u
    unfolding keeps_wanted_def
  proof (intro allI impI)
    fix n i assume "view nets s n = Some i"
    with st obtain j where j: "view nets t n = Some j" "attached i \<inter> W n \<subseteq> attached j" unfolding keeps_wanted_def by blast
    with tu obtain k where "view nets u n = Some k" "attached j \<inter> W n \<subseteq> attached k" unfolding keeps_wanted_def by blast
    with j(2) show "\<exists>k. view nets u n = Some k \<and> attached i \<inter> W n \<subseteq> attached k" by blast
  qed
qed (auto simp: moves_def ask_view race_view inspect_view list_view healthyD(4,5) intro!: keeps_wanted_same)

lemma create_keeps: "healthy d nets cs \<Longrightarrow> moves (keeps_wanted nets W) (ask (D_CreateNetwork n) (dk_createNetwork d n drv ls opts))"
  unfolding moves_def
proof
  fix s assume h: "healthy d nets cs"
  show "keeps_wanted nets W s (snd (ask (D_CreateNetwork n) (dk_createNetwork d n drv ls opts) s))"
  proof (cases "view nets s n")
    case None
    from healthyD(6) [OF h None, of drv ls opts] None show ?thesis by (auto simp: keeps_wanted_def ask_view)
  next
    case (Some i)
    from healthyD(7) [OF h Some] show ?thesis by (simp add: keeps_wanted_same ask_view)
  qed
qed

lemma connect_keeps:
  assumes h: "healthy d nets cs" and "shortId c \<in> known_ids cs"
  shows "moves (keeps_wanted nets W) (ask (D_Connect n c) (dk_connect d n c cfg))"
  unfolding moves_def
proof
  fix s
  show "keeps_wanted nets W s (snd (ask (D_Connect n c) (dk_connect d n c cfg) s))"
  proof (cases "view nets s n")
    case None
    from healthyD(8) [OF h None] show ?thesis by (simp add: keeps_wanted_same ask_view)
  next
    case (Some i)
    from healthyD(9) [OF h Some assms(2), of cfg] Some show ?thesis by (force simp: keeps_wanted_def ask_view)
  qed
qed

lemma disconnect_keeps:
  assumes h: "healthy d nets cs" and "shortId c \<notin> W n"
  shows "moves (keeps_wanted nets W) (ask (D_Disconnect n c) (dk_disconnect d n c f))"
  unfolding moves_def
proof
  fix s
  show "keeps_wanted nets W s (snd (ask (D_Disconnect n c) (dk_disconnect d n c f) s))"
  proof (cases "view nets s n")
    case None
    from healthyD(10) [OF h None] show ?thesis by (simp add: keeps_wanted_same ask_view)
  next
    case (Some i)
    from healthyD(11) [OF h Some, of c f] assms(2) Some show ?thesis by (force simp: keeps_wanted_def ask_view)
  qed
qed

section \<open>What a membership stands for\<close>

definition service_ids :: "listed_container list \<Rightarrow> string \<Rightarrow> string \<Rightarrow> string set" where
  "service_ids cs sid n = (shortId \<circ> lc_Id) `
     {c \<in> set cs. om_get (container_labels c) ''mini-infra.stack-id'' = Some sid \<and> of_service n c}"

definition name_ids :: "listed_container list \<Rightarrow> string \<Rightarrow> string set" where
  "name_ids cs n = (shortId \<circ> lc_Id) ` {c \<in> set cs. has_name n c}"

definition live_targets :: "listed_container list \<Rightarrow> (string \<Rightarrow> (string \<times> string) option) \<Rightarrow> string option \<Rightarrow> membership_target \<Rightarrow> string set" where
  "live_targets cs look self tg =
     (if truthy (mt_containerName tg) then
        (if mt_containerName tg = Some self_sentinel
         then if truthy self then {shortId (nullish self [])} else {}
         else name_ids cs (nullish (mt_containerName tg) []))
      else if truthy (mt_stackServiceId tg) then
        (case look (nullish (mt_stackServiceId tg) []) of
           None \<Rightarrow> {} | Some (sid, n) \<Rightarrow> service_ids cs sid n)
      else {})"

abbreviation summary_ids :: "container_summary list \<Rightarrow> string set" where
  "summary_ids r \<equiv> (shortId \<circ> cs_id) ` set r"

lemma summary_id [simp]: "cs_id (toContainerSummary c) = lc_Id c"
  by (simp add: toContainerSummary_def)

text \<open>The cache says what the daemon would; the ids of stacks have no colon.\<close>

definition plain :: "string \<Rightarrow> bool" where
  "plain sid \<longleftrightarrow> CHR '':'' \<notin> set sid"

lemma cache_key_inj:
  assumes "plain a" and "plain b" and "cache_key a m = cache_key b n"
  shows "a = b \<and> m = n"
  using assms
proof (induction a arbitrary: b)
  case Nil
  then show ?case by (cases b) (auto simp: cache_key_def plain_def)
next
  case (Cons x a)
  then show ?case by (cases b) (auto simp: cache_key_def plain_def)
qed

definition cache_ok :: "listed_container list \<Rightarrow> container_cache \<Rightarrow> bool" where
  "cache_ok cs cache \<longleftrightarrow>
     (\<forall>sid n xs. plain sid \<longrightarrow> om_get (cc_byStackService cache) (cache_key sid n) = Some xs \<longrightarrow>
        summary_ids xs = service_ids cs sid n) \<and>
     (\<forall>n xs. om_get (cc_byName cache) n = Some xs \<longrightarrow> summary_ids xs = name_ids cs n)"

lemma list_run:
  assumes "healthy d nets cs"
  shows "\<exists>xs t. list_containers d (By_labels ps) s = (Inr xs, t) \<and> view nets t = view nets s \<and>
      set xs = {c \<in> set cs. carries ps (container_labels c)}"
    and "\<exists>xs t. list_containers d (By_name n) s = (Inr xs, t) \<and> view nets t = view nets s \<and>
      {c \<in> set xs. has_name n c} = {c \<in> set cs. has_name n c}"
proof -
  from healthyD(2) [OF assms, of ps "ds_world s"] show "\<exists>xs t. list_containers d (By_labels ps) s = (Inr xs, t) \<and>
      view nets t = view nets s \<and> set xs = {c \<in> set cs. carries ps (container_labels c)}"
    by (auto simp: list_containers_def ask_def)
  from healthyD(3) [OF assms, of n "ds_world s"] show "\<exists>xs t. list_containers d (By_name n) s = (Inr xs, t) \<and>
      view nets t = view nets s \<and> {c \<in> set xs. has_name n c} = {c \<in> set cs. has_name n c}"
    by (auto simp: list_containers_def ask_def)
qed

lemma service_run:
  assumes h: "healthy d nets cs" and c: "cache_ok cs cache" and p: "plain sid"
  shows "\<exists>r c' t. resolveStackServiceContainers d cache sid n s = (Inr (r, c'), t) \<and> view nets t = view nets s \<and>
    cache_ok cs c' \<and> summary_ids r = service_ids cs sid n"
proof (cases "om_get (cc_byStackService cache) (cache_key sid n)")
  case (Some xs)
  with c p show ?thesis by (simp add: resolveStackServiceContainers_def cache_ok_def eff_return_def)
next
  case None
  from list_run(1) [OF h, of "stack_filter sid @ [(''mini-infra.service'', n)]" s] obtain xs t where
    xs: "list_containers d (By_labels (stack_filter sid @ [(''mini-infra.service'', n)])) s = (Inr xs, t)"
      "view nets t = view nets s" "set xs = {c \<in> set cs. carries (stack_filter sid @ [(''mini-infra.service'', n)]) (container_labels c)}"
    by blast
  let ?r = "map toContainerSummary (filter (\<lambda>c. \<not> isSynthetic (container_labels c)) xs)"
  let ?c = "cache\<lparr>cc_byStackService := om_set (cache_key sid n) ?r (cc_byStackService cache)\<rparr>"
  have ids: "summary_ids ?r = service_ids cs sid n"
    using xs(3) by (auto simp: service_ids_def of_service_def service_label_def stack_filter_def carries_def image_iff)
  have "cache_ok cs ?c"
    using c ids cache_key_inj [OF p] unfolding cache_ok_def by (auto split: if_splits) (metis option.inject)+
  moreover have "resolveStackServiceContainers d cache sid n s = (Inr (?r, ?c), t)"
    using None xs(1) by (simp add: resolveStackServiceContainers_def Let_def eff_bind_def eff_return_def)
  ultimately show ?thesis using ids xs(2) by blast
qed

lemma name_run:
  assumes h: "healthy d nets cs" and c: "cache_ok cs cache"
  shows "\<exists>r c' t. resolveByName d cache n s = (Inr (r, c'), t) \<and> view nets t = view nets s \<and>
    cache_ok cs c' \<and> summary_ids r = name_ids cs n"
proof (cases "om_get (cc_byName cache) n")
  case (Some xs)
  with c show ?thesis by (simp add: resolveByName_def cache_ok_def eff_return_def)
next
  case None
  from list_run(2) [OF h, of n s] obtain xs t where xs: "list_containers d (By_name n) s = (Inr xs, t)"
      "view nets t = view nets s" "{c \<in> set xs. has_name n c} = {c \<in> set cs. has_name n c}"
    by blast
  let ?r = "map toContainerSummary (filter (has_name n) xs)"
  let ?c = "cache\<lparr>cc_byName := om_set n ?r (cc_byName cache)\<rparr>"
  have "summary_ids ?r = (shortId \<circ> lc_Id) ` {c \<in> set xs. has_name n c}"
    by (auto simp: image_iff)
  with xs(3) have ids: "summary_ids ?r = name_ids cs n" by (simp add: name_ids_def)
  with c have "cache_ok cs ?c" unfolding cache_ok_def by auto
  moreover have "resolveByName d cache n s = (Inr (?r, ?c), t)"
    using None xs(1) by (simp add: resolveByName_def Let_def eff_bind_def eff_return_def)
  ultimately show ?thesis using ids xs(2) by blast
qed

definition plain_index :: "service_index \<Rightarrow> bool" where
  "plain_index svcs \<longleftrightarrow> (\<forall>i sid n. om_get svcs i = Some (sid, n) \<longrightarrow> plain sid)"

lemma target_run:
  assumes h: "healthy d nets cs" and c: "cache_ok cs cache" and p: "plain_index svcs"
  shows "\<exists>r c' t. resolveTargetContainers d svcs self tg cache s = (Inr (r, c'), t) \<and> view nets t = view nets s \<and>
    cache_ok cs c' \<and> summary_ids r = live_targets cs (om_get svcs) self tg"
proof (cases "truthy (mt_containerName tg)")
  case True
  then obtain n where n: "mt_containerName tg = Some n" "n \<noteq> []" by (rule truthyE)
  with name_run [OF h c, of n s] c show ?thesis
    by (auto simp: resolveTargetContainers_def live_targets_def Let_def eff_return_def)
next
  case False
  note noname = this
  show ?thesis
  proof (cases "truthy (mt_stackServiceId tg)")
    case True
    then obtain i where i: "mt_stackServiceId tg = Some i" "i \<noteq> []" by (rule truthyE)
    show ?thesis
    proof (cases "om_get svcs i")
      case None
      with i noname c show ?thesis by (simp add: resolveTargetContainers_def live_targets_def eff_return_def)
    next
      case (Some q)
      obtain sid n where q: "q = (sid, n)" by (cases q)
      with Some p have "plain sid" by (auto simp: plain_index_def)
      from service_run [OF h c this, of n s] i noname Some q show ?thesis
        by (simp add: resolveTargetContainers_def live_targets_def)
    qed
  qed (use noname c in \<open>simp add: resolveTargetContainers_def live_targets_def eff_return_def\<close>)
qed

lemma seed_ok:
  assumes "set raws = {c \<in> set cs. carries (stack_filter sid) (container_labels c)}" and "plain sid"
  shows "cache_ok cs (seedStackContainers sid raws newContainerCache)"
  unfolding cache_ok_def
proof (intro conjI allI impI)
  fix a n xs
  assume a: "plain a" and xs: "om_get (cc_byStackService (seedStackContainers sid raws newContainerCache)) (cache_key a n) = Some xs"
  show "summary_ids xs = service_ids cs a n"
  proof (cases "a = sid")
    case True
    with xs have "xs = map toContainerSummary (filter (of_service n) raws)" by (simp add: seed_lookup split: if_splits)
    with assms(1) True show ?thesis by (auto simp: service_ids_def stack_filter_def carries_def image_iff)
  next
    case False
    have ne: "cache_key a n \<noteq> cache_key sid m" for m using False cache_key_inj [OF a assms(2)] by blast
    have other: "om_get (foldl (\<lambda>m (n, cs). om_set (cache_key sid n) cs m) acc ps) (cache_key a n) = om_get acc (cache_key a n)"
      for acc and ps :: "(string \<times> container_summary list) list"
      by (induction ps arbitrary: acc) (auto simp: ne)
    with xs show ?thesis by (simp add: seedStackContainers_def newContainerCache_def)
  qed
qed (simp add: seedStackContainers_def newContainerCache_def)

lemma empty_cache_ok: "cache_ok cs newContainerCache"
  by (simp add: cache_ok_def newContainerCache_def)

section \<open>The report is the difference\<close>

lemma check_run:
  assumes h: "healthy d nets cs" and p: "plain_index svcs" and "cache_ok cs cache"
  shows "\<exists>items expected c' t rs. check_memberships d svcs self net con ms cache s = (Inr (items, expected, c'), t) \<and>
    view nets t = view nets s \<and> cache_ok cs c' \<and>
    list_all2 (\<lambda>m r. summary_ids r = live_targets cs (om_get svcs) self (nm_target m)) ms rs \<and>
    items = concat (map2 (membership_missing_items net svcs con) ms rs) \<and> expected = summary_ids (concat rs)"
  using assms(3)
proof (induction ms arbitrary: cache s)
  case Nil
  then show ?case by (simp add: eff_return_def)
next
  case (Cons m ms)
  from target_run [OF h Cons.prems p, of self "nm_target m" s] obtain r c1 u where
    r: "resolveTargetContainers d svcs self (nm_target m) cache s = (Inr (r, c1), u)" "view nets u = view nets s"
      "cache_ok cs c1" "summary_ids r = live_targets cs (om_get svcs) self (nm_target m)" by blast
  from Cons.IH [OF r(3), of u] obtain items expected c' t rs where
    rest: "check_memberships d svcs self net con ms c1 u = (Inr (items, expected, c'), t)" "view nets t = view nets u"
      "cache_ok cs c'" "list_all2 (\<lambda>m r. summary_ids r = live_targets cs (om_get svcs) self (nm_target m)) ms rs"
      "items = concat (map2 (membership_missing_items net svcs con) ms rs)" "expected = summary_ids (concat rs)" by blast
  have "check_memberships d svcs self net con (m # ms) cache s =
      (Inr (membership_missing_items net svcs con m r @ items, summary_ids r \<union> expected, c'), t)"
    using r(1) rest(1) by (simp add: eff_bind_def eff_return_def)
  moreover have "list_all2 (\<lambda>m r. summary_ids r = live_targets cs (om_get svcs) self (nm_target m)) (m # ms) (r # rs)"
    using r(4) rest(4) by simp
  ultimately show ?case using r(2) rest(2,3,5,6)
    by (intro exI [of _ "membership_missing_items net svcs con m r @ items"] exI [of _ "summary_ids r \<union> expected"]
        exI [of _ c'] exI [of _ t] exI [of _ "r # rs"]) (simp add: image_Un)
qed

text \<open>What a pass finds of one network, given what there is.\<close>

definition item_ids :: "drift_item \<Rightarrow> string set" where
  "item_ids it = (shortId \<circ> fst) ` set (nullish (di_containers it) [])"

definition wanted_on :: "listed_container list \<Rightarrow> (string \<Rightarrow> (string \<times> string) option) \<Rightarrow> string option \<Rightarrow> membership list \<Rightarrow> string set" where
  "wanted_on cs look self ms = (\<Union>m \<in> set ms. live_targets cs look self (nm_target m))"

definition found_drift :: "network_info option \<Rightarrow> string set \<Rightarrow> managed_network \<Rightarrow> drift_item list \<Rightarrow> bool" where
  "found_drift now wanted net items \<longleftrightarrow>
     (\<forall>it \<in> set items. di_managedNetworkId it = mn_id net) \<and>
     (case now of
        None \<Rightarrow> items = [network_missing_item net]
      | Some i \<Rightarrow>
          (\<forall>it \<in> set items. di_type it \<noteq> Network_missing) \<and>
          wanted - attached i = (\<Union>it \<in> {it \<in> set items. di_type it = Membership_missing}. item_ids it) \<and>
          (\<forall>it \<in> set items. di_type it = Membership_missing \<longrightarrow> item_ids it \<noteq> {}) \<and>
          (\<forall>it \<in> set items. di_type it = Membership_stale \<longrightarrow> item_ids it \<inter> wanted = {}))"

lemma missing_items_ids:
  "(\<Union>it \<in> set (membership_missing_items net svcs con m r). item_ids it) = summary_ids r - con"
  "it \<in> set (membership_missing_items net svcs con m r) \<Longrightarrow> item_ids it \<noteq> {}"
  by (auto simp: membership_missing_items_def Let_def item_ids_def drift_base_def image_iff filter_empty_conv split: if_splits)

lemma checked_ids:
  "list_all2 (\<lambda>m r. summary_ids r = live_targets cs (om_get svcs) self (nm_target m)) ms rs \<Longrightarrow>
   (\<Union>it \<in> set (concat (map2 (membership_missing_items net svcs con) ms rs)). item_ids it) = wanted_on cs (om_get svcs) self ms - con \<and>
   summary_ids (concat rs) = wanted_on cs (om_get svcs) self ms"
proof (induction rule: list_all2_induct)
  case (Cons m ms r rs)
  then show ?case by (auto simp: missing_items_ids(1) wanted_on_def image_Un)
qed (simp add: wanted_on_def)

lemma inspection_run:
  assumes h: "healthy d nets cs"
  shows "\<exists>r t. inspectForReconcile d n sp s = (Inr r, t) \<and> view nets t = view nets s \<and>
    (case view nets s n of None \<Rightarrow> ri_existence r = Absent | Some i \<Rightarrow> r = inspection sp i)"
proof (cases "view nets s n")
  case None
  from healthyD(1) [OF h, of "ds_world s" n] None obtain v e where "nets v = view nets s" "not_found e"
    "dk_inspectNetwork d n (ds_world s) = (Inl e, v)" by auto
  with None show ?thesis
    by (simp add: inspectForReconcile_def inspect_network_def ask_def eff_catch_def eff_bind_def eff_return_def no_inspection_def)
next
  case (Some i)
  from healthyD(1) [OF h, of "ds_world s" n] Some obtain v where "nets v = view nets s"
    "dk_inspectNetwork d n (ds_world s) = (Inr i, v)" by auto
  with Some show ?thesis
    by (simp add: inspectForReconcile_def inspect_network_def ask_def eff_catch_def eff_bind_def eff_return_def)
qed

lemma network_run:
  assumes h: "healthy d nets cs" and p: "plain_index svcs" and c: "cache_ok cs cache"
  shows "\<exists>x c' t. diff_network d svcs self opts bn net cache s = (Inr (x, c'), t) \<and> view nets t = view nets s \<and>
    cache_ok cs c' \<and>
    found_drift (view nets s (mn_name net)) (wanted_on cs (om_get svcs) self (rows_of bn (mn_id net))) net (df_items x)"
proof -
  from inspection_run [OF h, of "mn_name net" "network_spec net" s] obtain r u where
    r: "inspectForReconcile d (mn_name net) (network_spec net) s = (Inr r, u)" "view nets u = view nets s"
      "case view nets s (mn_name net) of None \<Rightarrow> ri_existence r = Absent | Some i \<Rightarrow> r = inspection (network_spec net) i"
    by blast
  show ?thesis
  proof (cases "view nets s (mn_name net)")
    case None
    with r c show ?thesis
      by (simp add: diff_network_def eff_bind_def eff_return_def found_drift_def no_diff_def)
  next
    case (Some i)
    let ?con = "map (\<lambda>(i, n). (i, nullish n i)) (nullish (wi_Containers i) [])"
    from Some r(3) have ri: "ri_existence r = Present" "nullish (ri_connectedContainers r) [] = ?con"
      by (simp_all add: inspection_def)
    have con: "(shortId \<circ> fst) ` set ?con = attached i"
      by (force simp: attached_def image_iff)
    from check_run [OF h p c, of self net "attached i" "rows_of bn (mn_id net)" u] obtain items expected c' t rs where
      chk: "check_memberships d svcs self net (attached i) (rows_of bn (mn_id net)) cache u = (Inr (items, expected, c'), t)"
        "view nets t = view nets u" "cache_ok cs c'"
        "list_all2 (\<lambda>m r. summary_ids r = live_targets cs (om_get svcs) self (nm_target m)) (rows_of bn (mn_id net)) rs"
        "items = concat (map2 (membership_missing_items net svcs (attached i)) (rows_of bn (mn_id net)) rs)"
        "expected = summary_ids (concat rs)" by blast
    let ?items = "mismatch_items net (ri_mismatch r) @ items @ stale_items opts net expected ?con"
    from r(1) ri chk(1) con have run: "\<exists>x. diff_network d svcs self opts bn net cache s = (Inr (x, c'), t) \<and> df_items x = ?items"
      by (simp add: diff_network_def eff_bind_def eff_return_def rows_of_def Let_def del: o_apply)
    have ty: "it \<in> set (mismatch_items net (ri_mismatch r)) \<Longrightarrow> di_type it = Spec_mismatch"
      "it \<in> set items \<Longrightarrow> di_type it = Membership_missing \<and> item_ids it \<noteq> {}"
      "it \<in> set (stale_items opts net expected ?con) \<Longrightarrow> di_type it = Membership_stale \<and> item_ids it \<inter> expected = {}" for it
      using chk(5) by (auto dest: mismatch_types missing_types missing_items_ids(2) simp: stale_in verdict_stale item_ids_def)
    have "{it \<in> set ?items. di_type it = Membership_missing} = set items" using ty by fastforce
    moreover have "di_managedNetworkId it = mn_id net" if "it \<in> set ?items" for it
      using that chk(5) by (auto dest: mismatch_types missing_types simp: stale_in)
    moreover have "it \<in> set ?items \<Longrightarrow> di_type it \<noteq> Network_missing" for it using ty by fastforce
    moreover have "it \<in> set ?items \<Longrightarrow> di_type it = Membership_stale \<Longrightarrow> item_ids it \<inter> expected = {}" for it using ty by fastforce
    moreover have "it \<in> set ?items \<Longrightarrow> di_type it = Membership_missing \<Longrightarrow> item_ids it \<noteq> {}" for it using ty by fastforce
    ultimately have "found_drift (Some i) (wanted_on cs (om_get svcs) self (rows_of bn (mn_id net))) net ?items"
      unfolding found_drift_def using checked_ids [OF chk(4), of net "attached i"] chk(5,6) by simp
    moreover from run obtain x where "diff_network d svcs self opts bn net cache s = (Inr (x, c'), t)" "df_items x = ?items" by blast
    ultimately show ?thesis using r(2) chk(2,3) Some
      by (intro exI [of _ x] exI [of _ c'] exI [of _ t]) simp
  qed
qed

lemma networks_run:
  assumes h: "healthy d nets cs" and p: "plain_index svcs" and "cache_ok cs cache"
  shows "\<exists>y t xs. diffNetworks d svcs self opts bn ns cache s = (Inr y, t) \<and> view nets t = view nets s \<and>
    list_all2 (\<lambda>net x. found_drift (view nets s (mn_name net)) (wanted_on cs (om_get svcs) self (rows_of bn (mn_id net))) net x) ns xs \<and>
    df_items y = concat xs"
  using assms(3)
proof (induction ns arbitrary: cache s)
  case Nil
  then show ?case by (simp add: eff_return_def no_diff_def)
next
  case (Cons net ns)
  from network_run [OF h p Cons.prems, of self opts bn net s] obtain x c1 u where
    x: "diff_network d svcs self opts bn net cache s = (Inr (x, c1), u)" "view nets u = view nets s" "cache_ok cs c1"
      "found_drift (view nets s (mn_name net)) (wanted_on cs (om_get svcs) self (rows_of bn (mn_id net))) net (df_items x)" by blast
  from Cons.IH [OF x(3), of u] obtain y t xs where
    y: "diffNetworks d svcs self opts bn ns c1 u = (Inr y, t)" "view nets t = view nets u"
      "list_all2 (\<lambda>net x. found_drift (view nets u (mn_name net)) (wanted_on cs (om_get svcs) self (rows_of bn (mn_id net))) net x) ns xs"
      "df_items y = concat xs" by blast
  have "diffNetworks d svcs self opts bn (net # ns) cache s = (Inr (diff_append x y), t)"
    using x(1) y(1) by (simp add: eff_bind_def eff_return_def)
  with x y show ?case
    by (intro exI [of _ "diff_append x y"] exI [of _ t] exI [of _ "df_items x # xs"]) (simp add: diff_append_def)
qed

end
