(* ===== verification/NetworkNames.thy ===== *)
theory NetworkNames
  imports Prelude
begin

text \<open>
  \<open>networks/network-names.ts\<close>: the names of Docker networks, of a stack's own and of a resource of an
  environment or of the host.
\<close>

definition stackNetworkName :: "string \<Rightarrow> string \<Rightarrow> string" where
  "stackNetworkName project n = project @ ''_'' @ n"

definition resourceNetworkName :: "string \<Rightarrow> string option \<Rightarrow> string" where
  "resourceNetworkName purpose env =
     (if truthy env then nullish env [] @ ''-'' @ purpose else ''mini-infra-'' @ purpose)"

definition egressNetworkName :: "string \<Rightarrow> string" where
  "egressNetworkName env = resourceNetworkName ''egress'' (Some env)"

end
