(* ===== verification/MembershipCompiler.thy ===== *)
theory MembershipCompiler
  imports Effects NetworkNames MembershipStore
begin

text \<open>
  \<open>networks/membership-compiler.ts\<close>: what a stack declares about networks (its own, those of
  resources, and those its services join by name) compiled into the rows of the membership store.
  The database answers; what can fail is the store's check of a target, and then what had been
  written before stays. Prisma's reads of resources are a list of rows.
\<close>

section \<open>What is compiled\<close>

record declared_network =
  dn_name :: string
  dn_driver :: "string option"
  dn_options :: "json option"

record member_service =
  si_id :: string
  si_serviceName :: string
  si_serviceType :: string
  si_adoptedContainer :: "string option"
  si_networkMode :: "string option"
  si_joinNetworks :: "string list option"
  si_joinResourceNetworks :: "string list option"
  si_egressBypass :: "bool option"

record infra_row =
  if_purpose :: string
  if_name :: string
  if_scope :: net_scope
  if_environmentId :: "string option"

record compile_input =
  ci_stackId :: string
  ci_environmentId :: "string option"
  ci_templateSource :: "string option"
  ci_templateCreatedById :: "string option"
  ci_projectName :: string
  ci_networks :: "declared_network list"
  ci_outputs :: "(string \<times> string) list"
  ci_inputs :: "(string \<times> string) list"
  ci_services :: "member_service list"
  ci_infra :: "infra_row list"

type_synonym 'a db_op = "(net_db, 'a) eff"

definition find_or_create :: "(net_db \<Rightarrow> nat \<times> net_db) \<Rightarrow> nat db_op" where
  "find_or_create f = (\<lambda>db. case f db of (i, db') \<Rightarrow> (Inr i, db'))"

section \<open>The networks\<close>

definition stack_identity :: "compile_input \<Rightarrow> declared_network \<Rightarrow> network_identity" where
  "stack_identity x net = \<lparr>ni_scope = Sc_stack, ni_environmentId = ci_environmentId x,
     ni_stackId = Some (ci_stackId x), ni_purpose = dn_name net\<rparr>"

definition compile_network :: "compile_input \<Rightarrow> declared_network \<Rightarrow> (string \<times> nat) list \<Rightarrow> (string \<times> nat) list db_op" where
  "compile_network x net ids =
     eff_bind (find_or_create (upsertManagedNetworkByIdentity (stack_identity x net)
       (stackNetworkName (ci_projectName x) (dn_name net)) (dn_driver net) (dn_options net)))
       (\<lambda>i. eff_return (om_set (dn_name net) i ids))"

definition resource_scope :: "compile_input \<Rightarrow> net_scope" where
  "resource_scope x = (if truthy (ci_environmentId x) then Sc_environment else Sc_host)"

definition compile_output :: "compile_input \<Rightarrow> string \<times> string \<Rightarrow> (string \<times> nat) list \<Rightarrow> (string \<times> nat) list db_op" where
  "compile_output x pn ids =
     eff_bind (find_or_create (upsertManagedNetworkByIdentity
         \<lparr>ni_scope = resource_scope x, ni_environmentId = ci_environmentId x, ni_stackId = None, ni_purpose = fst pn\<rparr>
         (snd pn) None None))
       (\<lambda>i. eff_return (om_set (fst pn) i ids))"

definition owning_resource :: "compile_input \<Rightarrow> string \<times> string \<Rightarrow> infra_row option" where
  "owning_resource x pn = find (\<lambda>r. if_purpose r = fst pn \<and> if_name r = snd pn) (ci_infra x)"

definition compile_input_network :: "compile_input \<Rightarrow> string \<times> string \<Rightarrow> (string \<times> nat) list \<Rightarrow> (string \<times> nat) list db_op" where
  "compile_input_network x pn ids =
     (if om_get ids (fst pn) \<noteq> None then eff_return ids
      else
        eff_bind (find_or_create (findOrCreateManagedNetworkByName (snd pn)
          \<lparr>ni_scope = (case owning_resource x pn of Some r \<Rightarrow> if_scope r | None \<Rightarrow> resource_scope x),
           ni_environmentId = (case owning_resource x pn of Some r \<Rightarrow> if_environmentId r | None \<Rightarrow> ci_environmentId x),
           ni_stackId = None, ni_purpose = fst pn\<rparr>))
          (\<lambda>i. eff_return (om_set (fst pn) i ids)))"

section \<open>The memberships of a service\<close>

definition member_target :: "member_service \<Rightarrow> membership_target" where
  "member_target svc = resolveMembershipTarget (si_id svc) (si_serviceType svc) (si_adoptedContainer svc)"

definition host_mode :: "member_service \<Rightarrow> bool" where
  "host_mode svc \<longleftrightarrow> si_networkMode svc = Some ''host''"

definition member_input :: "member_service \<Rightarrow> nat \<Rightarrow> membership_source \<Rightarrow> string list option \<Rightarrow> string option \<Rightarrow> upsert_input" where
  "member_input svc nid src aliases creator =
     \<lparr>ui_target = member_target svc, ui_networkId = nid, ui_source = src, ui_aliases = aliases,
      ui_staticIp = None, ui_createdBy = creator\<rparr>"

definition join_stack_network :: "(string \<times> nat) list \<Rightarrow> member_service \<Rightarrow> declared_network \<Rightarrow> unit \<Rightarrow> unit db_op" where
  "join_stack_network ids svc net _ =
     (case om_get ids (dn_name net) of
        None \<Rightarrow> eff_return ()
      | Some nid \<Rightarrow> eff_bind (upsertNetworkMembership (member_input svc nid Src_template (Some [si_serviceName svc]) None))
          (\<lambda>_. eff_return ()))"

definition host_identity :: "string \<Rightarrow> network_identity" where
  "host_identity n = \<lparr>ni_scope = Sc_host, ni_environmentId = None, ni_stackId = None, ni_purpose = n\<rparr>"

definition user_app :: "compile_input \<Rightarrow> bool" where
  "user_app x \<longleftrightarrow> ci_templateSource x = Some ''user''"

definition join_named_network :: "compile_input \<Rightarrow> member_service \<Rightarrow> string \<Rightarrow> unit \<Rightarrow> unit db_op" where
  "join_named_network x svc n _ =
     (if n = [] then eff_return ()
      else
        eff_bind (find_or_create (findOrCreateManagedNetworkByName n (host_identity n))) (\<lambda>nid.
        eff_bind (upsertNetworkMembership (member_input svc nid (if user_app x then Src_user else Src_template) None
            (if user_app x then ci_templateCreatedById x else None))) (\<lambda>_. eff_return ())))"

definition join_resource_network :: "(string \<times> nat) list \<Rightarrow> member_service \<Rightarrow> string \<Rightarrow> unit \<Rightarrow> unit db_op" where
  "join_resource_network ids svc purpose _ =
     (case om_get ids purpose of
        None \<Rightarrow> eff_return ()
      | Some nid \<Rightarrow>
          eff_bind (upsertNetworkMembership (member_input svc nid Src_template
            (if si_egressBypass svc = Some True then Some [si_serviceName svc] else None) None)) (\<lambda>_. eff_return ()))"

definition compile_service ::
  "compile_input \<Rightarrow> (string \<times> nat) list \<Rightarrow> (string \<times> nat) list \<Rightarrow> member_service \<Rightarrow> unit \<Rightarrow> unit db_op" where
  "compile_service x stack_ids resource_ids svc _ =
     eff_then (if host_mode svc then eff_return () else eff_fold (join_stack_network stack_ids svc) (ci_networks x) ())
     (eff_then (eff_fold (join_named_network x svc) (nullish (si_joinNetworks svc) []) ())
       (eff_fold (join_resource_network resource_ids svc) (nullish (si_joinResourceNetworks svc) []) ()))"

definition compile_rows :: "compile_input \<Rightarrow> unit db_op" where
  "compile_rows x =
     eff_bind (eff_fold (compile_network x) (ci_networks x) []) (\<lambda>stack_ids.
     eff_bind (eff_fold (compile_output x) (ci_outputs x) []) (\<lambda>out_ids.
     eff_bind (eff_fold (compile_input_network x) (ci_inputs x) out_ids) (\<lambda>resource_ids.
     eff_fold (compile_service x stack_ids resource_ids) (ci_services x) ())))"

definition compileStackNetworkMemberships :: "compile_input \<Rightarrow> net_db \<Rightarrow> net_db" where
  "compileStackNetworkMemberships x = safeMembershipWrite (compile_rows x)"

text \<open>
  The services compiled: those of the stack's rows that have a resolved definition, of which the
  container configuration and the adopted container are taken.
\<close>

record resolved_member =
  rd_adoptedContainer :: "string option"
  rd_networkMode :: "string option"
  rd_joinNetworks :: "string list option"
  rd_joinResourceNetworks :: "string list option"
  rd_egressBypass :: "bool option"

definition buildMembershipServiceInputs ::
  "(string \<times> string \<times> string) list \<Rightarrow> (string \<times> resolved_member) list \<Rightarrow> member_service list" where
  "buildMembershipServiceInputs rows defs =
     concat (map (\<lambda>(i, name, ty). case om_get defs name of
         None \<Rightarrow> []
       | Some r \<Rightarrow> [\<lparr>si_id = i, si_serviceName = name, si_serviceType = ty, si_adoptedContainer = rd_adoptedContainer r,
           si_networkMode = rd_networkMode r, si_joinNetworks = rd_joinNetworks r,
           si_joinResourceNetworks = rd_joinResourceNetworks r, si_egressBypass = rd_egressBypass r\<rparr>]) rows)"

section \<open>What the store keeps\<close>

text \<open>The unique columns of both tables, ids below the next one.\<close>

definition store_wf :: "net_db \<Rightarrow> bool" where
  "store_wf db \<longleftrightarrow> db_wf db \<and> distinct (map mn_id (db_networks db)) \<and> distinct (map mn_name (db_networks db)) \<and>
     (\<forall>r \<in> set (db_networks db). mn_id r < db_next db)"

definition grows :: "net_db \<Rightarrow> net_db \<Rightarrow> bool" where
  "grows db db' \<longleftrightarrow> (store_wf db \<longrightarrow> store_wf db') \<and> set (db_networks db) \<subseteq> set (db_networks db') \<and>
     set (ms_idents db) \<subseteq> set (ms_idents db')"

interpretation grows: state_order grows
  by unfold_locales (auto simp: grows_def)

lemma create_grows:
  assumes "find (\<lambda>r. mn_name r = name) (db_networks db) = None"
  shows "grows db (snd (ms_create_network ident name driver options db))"
  using assms
  by (auto simp: grows_def store_wf_def db_wf_def ms_create_network_def ms_idents_def find_None_iff less_Suc_eq)

lemma identity_upsert_grows: "moves grows (find_or_create (upsertManagedNetworkByIdentity ident name driver options))"
  by (auto simp: moves_def find_or_create_def upsertManagedNetworkByIdentity_def grows.refl split: prod.split option.split)
     (metis create_grows snd_conv)

lemma name_upsert_grows: "moves grows (find_or_create (findOrCreateManagedNetworkByName name ident))"
  by (auto simp: moves_def find_or_create_def findOrCreateManagedNetworkByName_def grows.refl split: prod.split option.split)
     (metis create_grows snd_conv)

lemma write_networks [simp]: "db_networks (snd (ms_write i found db)) = db_networks db"
  by (simp add: ms_write_def split: option.split)

lemma write_next: "db_next db \<le> db_next (snd (ms_write i found db))"
  by (simp add: ms_write_def split: option.split)

lemma upsert_parts:
  "upsertNetworkMembership i db = (r, db') \<Longrightarrow> db' = db \<or> db' = snd (ms_write i (ms_find i (db_memberships db)) db)"
  by (auto simp: upsertNetworkMembership_def case_prod_beta split: option.splits)

lemma upsert_grows: "moves grows (upsertNetworkMembership i)"
proof (rule movesI)
  fix db r db' assume run: "upsertNetworkMembership i db = (r, db')"
  let ?w = "snd (ms_write i (ms_find i (db_memberships db)) db)"
  from upsert_wf [of db i] run have "db_wf db \<Longrightarrow> db_wf db'" by simp
  with upsert_parts [OF run] show "grows db db'"
    using write_next [of db i "ms_find i (db_memberships db)"]
    by (auto simp: grows_def store_wf_def ms_write_idents) (meson le_trans less_le_trans)+
qed

lemmas compile_grows = grows.intros identity_upsert_grows name_upsert_grows upsert_grows

lemma service_grows: "moves grows (compile_service x a b svc u)"
  unfolding compile_service_def join_stack_network_def join_named_network_def join_resource_network_def
  by (auto intro!: compile_grows split: option.split)

lemma network_grows: "moves grows (compile_network x net ids)"
  unfolding compile_network_def by (intro compile_grows)

lemma resource_grows: "moves grows (compile_output x p ids)" "moves grows (compile_input_network x p ids)"
  unfolding compile_output_def compile_input_network_def by (auto intro!: compile_grows)

lemma rows_grow: "moves grows (compile_rows x)"
  unfolding compile_rows_def by (intro grows.intros network_grows resource_grows service_grows)

section \<open>What is compiled is there\<close>

text \<open>The row a declared network is compiled to: its own, or one that had its name already.\<close>

definition network_row :: "compile_input \<Rightarrow> string \<Rightarrow> managed_network \<Rightarrow> bool" where
  "network_row x n row \<longleftrightarrow>
     mn_identity row = \<lparr>ni_scope = Sc_stack, ni_environmentId = ci_environmentId x, ni_stackId = Some (ci_stackId x), ni_purpose = n\<rparr> \<or>
     mn_name row = stackNetworkName (ci_projectName x) n"

definition ids_ok :: "compile_input \<Rightarrow> declared_network list \<Rightarrow> (string \<times> nat) list \<Rightarrow> net_db \<Rightarrow> bool" where
  "ids_ok x seen ids db \<longleftrightarrow>
     (\<forall>net \<in> set seen. om_get ids (dn_name net) \<noteq> None) \<and>
     (\<forall>n i. om_get ids n = Some i \<longrightarrow> (\<exists>row \<in> set (db_networks db). mn_id row = i \<and> network_row x n row))"

lemma ids_ok_grows: "ids_ok x seen ids db \<Longrightarrow> grows db db' \<Longrightarrow> ids_ok x seen ids db'"
  unfolding ids_ok_def grows_def by blast

lemma identity_upsert_row:
  "upsertManagedNetworkByIdentity ident name driver options db = (i, db') \<Longrightarrow>
   \<exists>row \<in> set (db_networks db'). mn_id row = i \<and> (mn_identity row = ident \<or> mn_name row = name)"
  by (auto simp: upsertManagedNetworkByIdentity_def ms_create_network_def split: option.splits dest!: find_SomeD)

lemma compile_network_ok:
  assumes "ids_ok x seen ids db" and "compile_network x net ids db = (Inr ids', db')"
  shows "ids_ok x (seen @ [net]) ids' db'"
proof -
  from assms(2) obtain i where up: "upsertManagedNetworkByIdentity (stack_identity x net)
      (stackNetworkName (ci_projectName x) (dn_name net)) (dn_driver net) (dn_options net) db = (i, db')"
    and ids: "ids' = om_set (dn_name net) i ids"
    by (auto simp: compile_network_def find_or_create_def eff_bind_Inr split: prod.splits)
  have "ids_ok x seen ids db'"
    by (rule ids_ok_grows [OF assms(1) movesD [OF network_grows assms(2)]])
  with identity_upsert_row [OF up] ids show ?thesis
    unfolding ids_ok_def network_row_def by (auto simp: stack_identity_def)
qed

lemma member_checked: "si_id svc \<noteq> [] \<Longrightarrow> ms_check (member_input svc nid src al cr) = None"
  by (auto simp: ms_check_def member_input_def member_target_def resolveMembershipTarget_def Let_def)

lemma upsert_there:
  assumes "upsertNetworkMembership i db = (Inr b, db')"
  shows "ui_ident i \<in> set (ms_idents db')"
proof -
  from assms have db: "db' = snd (ms_write i (ms_find i (db_memberships db)) db)"
    by (auto simp: upsertNetworkMembership_def case_prod_beta split: option.splits)
  show ?thesis
  proof (cases "ms_find i (db_memberships db)")
    case None
    with db show ?thesis by (simp add: ms_write_idents)
  next
    case (Some rid)
    then have "ui_ident i \<in> set (ms_idents db)" using ms_find_None [of i "db_memberships db"] by (auto simp: ms_idents_def)
    with db Some show ?thesis by (simp add: ms_write_idents)
  qed
qed

definition member_of :: "compile_input \<Rightarrow> member_service \<Rightarrow> declared_network \<Rightarrow> net_db \<Rightarrow> bool" where
  "member_of x svc net db \<longleftrightarrow>
     (\<exists>row \<in> set (db_networks db). network_row x (dn_name net) row \<and> (mn_id row, member_target svc) \<in> set (ms_idents db))"

lemma member_grows: "member_of x svc net db \<Longrightarrow> grows db db' \<Longrightarrow> member_of x svc net db'"
  unfolding member_of_def grows_def by blast

lemma join_stack_member:
  assumes "ids_ok x nets ids db" and "net \<in> set nets" and "join_stack_network ids svc net u db = (Inr v, db')"
  shows "member_of x svc net db'"
proof -
  from assms(1,2) obtain nid row where nid: "om_get ids (dn_name net) = Some nid"
    and row: "row \<in> set (db_networks db)" "mn_id row = nid" "network_row x (dn_name net) row" by (fastforce simp: ids_ok_def)
  from assms(3) nid obtain b where up: "upsertNetworkMembership (member_input svc nid Src_template (Some [si_serviceName svc]) None) db = (Inr b, db')"
    by (auto simp: join_stack_network_def eff_bind_Inr)
  from movesD [OF upsert_grows up] row(1) have "row \<in> set (db_networks db')" by (auto simp: grows_def)
  with upsert_there [OF up] row(2,3) show ?thesis by (auto simp: member_of_def member_input_def ui_ident_def)
qed

lemma joined_grows: "moves grows (join_stack_network ids svc net u)"
  unfolding join_stack_network_def by (auto intro!: compile_grows split: option.split)

lemma service_members:
  assumes ids: "ids_ok x (ci_networks x) stack_ids db" and net: "net \<in> set (ci_networks x)" and host: "\<not> host_mode svc"
    and run: "compile_service x stack_ids resource_ids svc u db = (Inr v, db')"
  shows "member_of x svc net db'"
proof -
  from run host obtain w db1 where own: "eff_fold (join_stack_network stack_ids svc) (ci_networks x) () db = (Inr w, db1)"
    and rest: "eff_then (eff_fold (join_named_network x svc) (nullish (si_joinNetworks svc) []) ())
       (eff_fold (join_resource_network resource_ids svc) (nullish (si_joinResourceNetworks svc) []) ()) db1 = (Inr v, db')"
    by (auto simp: compile_service_def eff_then_Inr)
  have "member_of x svc net db1"
  proof (rule grows.fold_establishes [OF own net, where F = "member_of x svc"])
    show "member_of x svc a c" if a: "a \<in> set (ci_networks x)" and g: "grows db b" and r: "join_stack_network stack_ids svc a y b = (Inr z, c)"
      for a y b z c
      by (rule join_stack_member [OF ids_ok_grows [OF ids g] a r])
  qed (use joined_grows member_grows in blast)+
  moreover have "moves grows (eff_then (eff_fold (join_named_network x svc) (nullish (si_joinNetworks svc) []) ())
       (eff_fold (join_resource_network resource_ids svc) (nullish (si_joinResourceNetworks svc) []) ()))"
    unfolding join_named_network_def join_resource_network_def by (auto intro!: compile_grows split: option.split)
  from movesD [OF this rest] have "grows db1 db'" .
  ultimately show ?thesis by (rule member_grows)
qed

text \<open>With ids, no check of the store fails.\<close>

lemma upsert_total: "si_id svc \<noteq> [] \<Longrightarrow> eff_total (upsertNetworkMembership (member_input svc nid src al cr))"
  by (simp add: eff_total_def upsertNetworkMembership_def member_checked case_prod_beta)

lemma find_total [simp]: "eff_total (find_or_create f)"
  by (simp add: eff_total_def find_or_create_def split: prod.split)

lemma compile_service_total: "si_id svc \<noteq> [] \<Longrightarrow> eff_total (compile_service x a b svc u)"
  unfolding compile_service_def join_stack_network_def join_named_network_def join_resource_network_def
  by (auto intro!: eff_total_then eff_total_fold eff_total_bind upsert_total split: option.split)

lemma compile_network_total: "eff_total (compile_network x net ids)" "eff_total (compile_output x p ids)"
  "eff_total (compile_input_network x p ids)"
  unfolding compile_network_def compile_output_def compile_input_network_def by (auto intro!: eff_total_bind)

lemma eff_total_fold_in: "(\<And>x y. x \<in> set xs \<Longrightarrow> eff_total (f x y)) \<Longrightarrow> eff_total (eff_fold f xs y)"
  by (induction xs arbitrary: y) (auto intro: eff_total_bind)

lemma compile_total: "list_all (\<lambda>svc. si_id svc \<noteq> []) (ci_services x) \<Longrightarrow> eff_total (compile_rows x)"
  unfolding compile_rows_def
  by (intro eff_total_bind eff_total_fold eff_total_fold_in compile_network_total compile_service_total) (simp add: list_all_iff)

lemma compiled_member:
  assumes ids: "list_all (\<lambda>svc. si_id svc \<noteq> []) (ci_services x)" and svc: "svc \<in> set (ci_services x)"
    and host: "\<not> host_mode svc" and net: "net \<in> set (ci_networks x)"
  shows "member_of x svc net (compileStackNetworkMemberships x db)"
proof -
  obtain u db' where run: "compile_rows x db = (Inr u, db')" by (rule eff_totalE [OF compile_total [OF ids]])
  then obtain sids db1 oids db2 rids db3 where
    one: "eff_fold (compile_network x) (ci_networks x) [] db = (Inr sids, db1)" and
    two: "eff_fold (compile_output x) (ci_outputs x) [] db1 = (Inr oids, db2)" and
    three: "eff_fold (compile_input_network x) (ci_inputs x) oids db2 = (Inr rids, db3)" and
    four: "eff_fold (compile_service x sids rids) (ci_services x) () db3 = (Inr u, db')"
    unfolding compile_rows_def eff_bind_Inr by blast
  have "ids_ok x ([] @ ci_networks x) sids db1"
    by (rule eff_fold_prefix [OF one, where I = "ids_ok x"]) (simp add: ids_ok_def, rule compile_network_ok)
  moreover have "grows db1 db3"
    using movesD [OF grows.folded [OF resource_grows(1)] two] movesD [OF grows.folded [OF resource_grows(2)] three]
    by (rule grows.trans)
  ultimately have ok: "ids_ok x (ci_networks x) sids db3" using ids_ok_grows by fastforce
  have "host_mode svc \<or> member_of x svc net db'"
  proof (rule grows.fold_establishes [OF four svc service_grows, where F = "\<lambda>v db. host_mode v \<or> member_of x v net db"])
    show "host_mode v \<or> member_of x v net c" if "v \<in> set (ci_services x)" "grows db3 b" "compile_service x sids rids v y b = (Inr z, c)"
      for v y b z c
      using service_members [OF ids_ok_grows [OF ok that(2)] net _ that(3)] by blast
  qed (use member_grows in blast)
  with run host show ?thesis by (simp add: compileStackNetworkMemberships_def safeMembershipWrite_def)
qed

section \<open>Properties\<close>

text \<open>C27: after a stack's declarations are compiled, every service that does not use the host's network
  has a membership on every network the stack declares; no row of either table is gone, and ids
  and names are as unique as before. Service ids are not empty.\<close>

theorem compiled_joined:
  assumes "store_wf db" and "list_all (\<lambda>svc. si_id svc \<noteq> []) (ci_services x)"
    and "db' = compileStackNetworkMemberships x db"
  shows "store_wf db' \<and> set (db_networks db) \<subseteq> set (db_networks db') \<and> set (ms_idents db) \<subseteq> set (ms_idents db') \<and>
    (\<forall>svc \<in> set (ci_services x). \<forall>net \<in> set (ci_networks x). \<not> host_mode svc \<longrightarrow>
       (\<exists>row \<in> set (db_networks db'). network_row x (dn_name net) row \<and> (mn_id row, member_target svc) \<in> set (ms_idents db')))"
proof -
  obtain r t where "compile_rows x db = (r, t)" by (cases "compile_rows x db")
  with movesD [OF rows_grow this] assms(3) have "grows db db'"
    by (simp add: compileStackNetworkMemberships_def safeMembershipWrite_def)
  with assms compiled_member [OF assms(2)] show ?thesis by (simp add: grows_def member_of_def)
qed

text \<open>Two services, one in host mode, one network of the stack under a name another stack's row has
  already, and one more.\<close>

definition sample_member_service :: "string \<Rightarrow> string \<Rightarrow> string option \<Rightarrow> member_service" where
  "sample_member_service i n mode = \<lparr>si_id = i, si_serviceName = n, si_serviceType = ''Stateful'', si_adoptedContainer = None,
     si_networkMode = mode, si_joinNetworks = Some [''shared''], si_joinResourceNetworks = Some [''vault''], si_egressBypass = None\<rparr>"

definition sample_compile :: compile_input where
  "sample_compile = \<lparr>ci_stackId = ''s1'', ci_environmentId = None, ci_templateSource = Some ''user'',
     ci_templateCreatedById = Some ''u1'', ci_projectName = ''app'',
     ci_networks = [\<lparr>dn_name = ''default'', dn_driver = None, dn_options = None\<rparr>, \<lparr>dn_name = ''data'', dn_driver = None, dn_options = None\<rparr>],
     ci_outputs = [], ci_inputs = [(''vault'', ''mini-infra-vault'')],
     ci_services = [sample_member_service ''v1'' ''web'' None, sample_member_service ''v2'' ''agent'' (Some ''host'')],
     ci_infra = []\<rparr>"

definition sample_db :: net_db where
  "sample_db = \<lparr>db_networks = [\<lparr>mn_id = 0, mn_identity = host_identity ''app_data'', mn_name = ''app_data'', mn_driver = ''bridge'',
     mn_options = None, mn_enforceMemberships = False\<rparr>], db_memberships = [], db_next = 1\<rparr>"

theorem compiled_joined_witness:
  "map (\<lambda>r. (mn_id r, mn_name r)) (db_networks (compileStackNetworkMemberships sample_compile sample_db)) =
     [(0, ''app_data''), (1, ''app_default''), (2, ''mini-infra-vault''), (5, ''shared'')] \<and>
   map (\<lambda>m. (nm_networkId m, mt_stackServiceId (nm_target m))) (db_memberships (compileStackNetworkMemberships sample_compile sample_db)) =
     [(1, Some ''v1''), (0, Some ''v1''), (5, Some ''v1''), (2, Some ''v1''), (5, Some ''v2''), (2, Some ''v2'')] \<and>
   store_wf (compileStackNetworkMemberships sample_compile sample_db) \<and>
   (\<exists>row \<in> set (db_networks (compileStackNetworkMemberships sample_compile sample_db)).
      network_row sample_compile ''data'' row \<and> (mn_id row, member_target (sample_member_service ''v1'' ''web'' None)) \<in>
        set (ms_idents (compileStackNetworkMemberships sample_compile sample_db)))"
proof -
  let ?db = "compileStackNetworkMemberships sample_compile sample_db"
  have wf: "store_wf sample_db" by (simp add: store_wf_def db_wf_def ms_idents_def sample_db_def)
  have ids: "list_all (\<lambda>svc. si_id svc \<noteq> []) (ci_services sample_compile)"
    by (simp add: sample_compile_def sample_member_service_def)
  have "map (\<lambda>r. (mn_id r, mn_name r)) (db_networks ?db) =
     [(0, ''app_data''), (1, ''app_default''), (2, ''mini-infra-vault''), (5, ''shared'')] \<and>
   map (\<lambda>m. (nm_networkId m, mt_stackServiceId (nm_target m))) (db_memberships ?db) =
     [(1, Some ''v1''), (0, Some ''v1''), (5, Some ''v1''), (2, Some ''v1''), (5, Some ''v2''), (2, Some ''v2'')]"
    by code_simp
  moreover have "sample_member_service ''v1'' ''web'' None \<in> set (ci_services sample_compile)"
    "\<lparr>dn_name = ''data'', dn_driver = None, dn_options = None\<rparr> \<in> set (ci_networks sample_compile)"
    "\<not> host_mode (sample_member_service ''v1'' ''web'' None)"
    by (simp_all add: sample_compile_def sample_member_service_def host_mode_def)
  ultimately show ?thesis using compiled_joined [OF wf ids refl] by fastforce
qed

end
