(* ===== verification/NetworkRepair.thy ===== *)
theory NetworkRepair
  imports NetworkHealth MembershipCompiler
begin

text \<open>
  Two sweeps of the converger repair the networks of a stack: what one sweep repairs, what it keeps,
  and, with the membership compiler in front, that what a stack declares is what its containers
  end up attached to.
\<close>

section \<open>A stack's networks\<close>

definition plain_tables :: "net_tables \<Rightarrow> bool" where
  "plain_tables tb \<longleftrightarrow> list_all (\<lambda>v. plain (nv_stackId v)) (tb_services tb)"

text \<open>The members of a network that a pass for the stack looks at, and the containers they stand for.\<close>

definition stack_members :: "net_tables \<Rightarrow> string \<Rightarrow> managed_network \<Rightarrow> membership list" where
  "stack_members tb sid net =
     filter (\<lambda>m. nm_networkId m = mn_id net \<and>
         (mn_id net \<in> sn_ownedNetworkIds (scoped tb sid) \<or> m \<in> set (sn_ownServiceMemberships (scoped tb sid)) \<or>
          m \<in> set (sn_ownContainerMemberships (scoped tb sid))))
       (db_memberships (tb_net tb))"

definition stack_wants :: "listed_container list \<Rightarrow> net_tables \<Rightarrow> string option \<Rightarrow> string \<Rightarrow> managed_network \<Rightarrow> string set" where
  "stack_wants cs tb self sid net = wanted_on cs (svc_lookup tb) self (stack_members tb sid net)"

definition stack_networks :: "net_tables \<Rightarrow> string \<Rightarrow> managed_network list" where
  "stack_networks tb sid = sn_networksToCheck (scoped tb sid)"

lemma stack_networks_db: "net \<in> set (stack_networks tb sid) \<Longrightarrow> net \<in> set (db_networks (tb_net tb))"
  by (auto simp: stack_networks_def sn_networksToCheck_def scoped_def Let_def)

lemma plain_referenced: "plain_tables tb \<Longrightarrow> plain_index (referenced_services tb ms)"
  by (auto simp: plain_index_def plain_tables_def referenced_services_def list_all_iff Let_def dest!: map_of_SomeD)

lemma wanted_rows:
  assumes "tables_wf tb"
  shows "wanted_on cs (om_get (referenced_services tb (concat (map snd (stack_rows_by_network tb (scoped tb sid)))))) self
      (rows_of (stack_rows_by_network tb (scoped tb sid)) (mn_id net)) = stack_wants cs tb self sid net"
proof -
  let ?bn = "stack_rows_by_network tb (scoped tb sid)"
  have "live_targets cs (om_get (referenced_services tb (concat (map snd ?bn)))) self (nm_target m) =
      live_targets cs (svc_lookup tb) self (nm_target m)" if "m \<in> set (rows_of ?bn (mn_id net))" for m
    using referenced_lookup [OF rows_of_in [OF that]]
    by (cases "mt_stackServiceId (nm_target m)") (simp_all add: live_targets_def)
  moreover have "set (rows_of ?bn (mn_id net)) = set (stack_members tb sid net)"
    by (auto simp: stack_rows [OF assms] stack_members_def)
  ultimately show ?thesis by (simp add: stack_wants_def wanted_on_def)
qed

lemma reconcile_run:
  assumes h: "healthy d nets cs" and wf: "tables_wf tb" and p: "plain_tables tb" "plain sid" and sid: "sid \<in> set (tb_stacks tb)"
  shows "\<exists>rep t xs. reconcileStack d self tb sid s = (Inr rep, t) \<and> view nets t = view nets s \<and>
    list_all2 (\<lambda>net x. found_drift (view nets s (mn_name net)) (stack_wants cs tb self sid net) net x) (stack_networks tb sid) xs \<and>
    nr_items rep = concat xs"
proof (cases "stack_networks tb sid = []")
  case True
  with sid show ?thesis
    by (simp add: reconcileStack_def resolveStackScopedNetworks_def stack_networks_def eff_bind_def eff_return_def report_def no_diff_def)
next
  case False
  let ?bn = "stack_rows_by_network tb (scoped tb sid)"
  let ?svcs = "referenced_services tb (concat (map snd ?bn))"
  from list_run(1) [OF h, of "stack_filter sid" s] obtain raws u where
    raws: "list_containers d (By_labels (stack_filter sid)) s = (Inr raws, u)" "view nets u = view nets s"
      "set raws = {c \<in> set cs. carries (stack_filter sid) (container_labels c)}" by blast
  let ?opts = "\<lparr>dp_staleEligible = sn_ownedNetworkIds (scoped tb sid),
    dp_primary = map (\<lambda>r. (lc_Id r, toContainerSummary r)) (rev raws)\<rparr>"
  from networks_run [OF h plain_referenced [OF p(1)] seed_ok [OF raws(3) p(2)], of _ self ?opts ?bn "stack_networks tb sid" u]
  obtain y t xs where y: "diffNetworks d ?svcs self ?opts ?bn (stack_networks tb sid)
        (seedStackContainers sid raws newContainerCache) u = (Inr y, t)" "view nets t = view nets u"
      "list_all2 (\<lambda>net x. found_drift (view nets u (mn_name net)) (wanted_on cs (om_get ?svcs) self (rows_of ?bn (mn_id net))) net x)
        (stack_networks tb sid) xs" "df_items y = concat xs" by blast
  have "reconcileStack d self tb sid s = (Inr (report (Stack_scope sid) (length (stack_networks tb sid)) y), t)"
    using sid False raws(1) y(1)
    by (simp add: reconcileStack_def resolveStackScopedNetworks_def stack_networks_def eff_bind_def eff_return_def Let_def)
  moreover have "nr_items (report (Stack_scope sid) (length (stack_networks tb sid)) y) = concat xs"
    using y(4) by (simp add: report_def)
  ultimately show ?thesis using raws(2) y(2,3)
    by (intro exI [of _ "report (Stack_scope sid) (length (stack_networks tb sid)) y"] exI [of _ t] exI [of _ xs])
       (simp add: wanted_rows [OF wf])
qed

text \<open>Nothing is missing: every network of the stack is there, with every container that belongs on it.\<close>

definition settled ::
  "listed_container list \<Rightarrow> net_tables \<Rightarrow> string option \<Rightarrow> string \<Rightarrow> (string \<Rightarrow> network_info option) \<Rightarrow> bool" where
  "settled cs tb self sid now \<longleftrightarrow>
     (\<forall>net \<in> set (stack_networks tb sid). \<exists>i. now (mn_name net) = Some i \<and> stack_wants cs tb self sid net \<subseteq> attached i)"

definition missing_item :: "drift_item \<Rightarrow> bool" where
  "missing_item it \<longleftrightarrow> di_type it = Network_missing \<or> di_type it = Membership_missing"

lemma found_none_missing:
  assumes "found_drift now wanted net items"
  shows "(\<forall>it \<in> set items. \<not> missing_item it) \<longleftrightarrow> (\<exists>i. now = Some i \<and> wanted \<subseteq> attached i)"
proof (cases now)
  case None
  with assms show ?thesis by (simp add: found_drift_def missing_item_def)
next
  case (Some i)
  let ?miss = "{it \<in> set items. di_type it = Membership_missing}"
  from assms Some have f: "\<forall>it \<in> set items. di_type it \<noteq> Network_missing" "wanted - attached i = (\<Union>it \<in> ?miss. item_ids it)"
    "\<forall>it \<in> ?miss. item_ids it \<noteq> {}" by (auto simp: found_drift_def)
  then have "(\<forall>it \<in> set items. \<not> missing_item it) \<longleftrightarrow> ?miss = {}" by (auto simp: missing_item_def)
  also have "\<dots> \<longleftrightarrow> (\<Union>it \<in> ?miss. item_ids it) = {}" using f(3) by blast
  also have "\<dots> \<longleftrightarrow> wanted \<subseteq> attached i" using f(2) by blast
  finally show ?thesis using Some by simp
qed

lemma report_settled:
  assumes "list_all2 (\<lambda>net x. found_drift (now (mn_name net)) (stack_wants cs tb self sid net) net x) (stack_networks tb sid) xs"
  shows "(\<forall>it \<in> set (concat xs). \<not> missing_item it) \<longleftrightarrow> settled cs tb self sid now"
proof -
  have "list_all2 P ns xs \<Longrightarrow> (\<And>net x. P net x \<Longrightarrow> (\<forall>it \<in> set x. \<not> missing_item it) = Q net) \<Longrightarrow>
      (\<forall>it \<in> set (concat xs). \<not> missing_item it) = (\<forall>net \<in> set ns. Q net)" for P Q and ns :: "managed_network list"
  proof (induction rule: list_all2_induct)
    case (Cons net ns x xs)
    then show ?case by (simp add: ball_Un)
  qed simp
  from this [OF assms found_none_missing] show ?thesis by (simp add: settled_def)
qed

section \<open>What one sweep repairs\<close>

lemma found_network: "found_drift now wanted net x \<Longrightarrow> it \<in> set x \<Longrightarrow> di_managedNetworkId it = mn_id net"
  by (simp add: found_drift_def)

text \<open>The program's own container is one of those of the host.\<close>

definition self_known :: "listed_container list \<Rightarrow> string option \<Rightarrow> bool" where
  "self_known cs self \<longleftrightarrow> \<not> truthy self \<or> shortId (nullish self []) \<in> known_ids cs"

lemma known_targets:
  assumes "self_known cs self"
  shows "stack_wants cs tb self sid net \<subseteq> known_ids cs"
proof -
  have "live_targets cs look self tg \<subseteq> known_ids cs" for look tg
    using assms by (cases self) (auto simp: self_known_def live_targets_def name_ids_def service_ids_def known_ids_def split: option.splits if_splits)
  then show ?thesis by (auto simp: stack_wants_def wanted_on_def)
qed

text \<open>Ensuring a network makes it there; connecting to one that is there attaches.\<close>

lemma ensure_effect:
  assumes h: "healthy d nets cs" and run: "nm_ensure d sp s = (r, t)"
  shows "view nets t (es_name sp) \<noteq> None"
proof (cases "view nets s (es_name sp)")
  case None
  from healthyD(1) [OF h, of "ds_world s" "es_name sp"] None obtain v e where
    v: "nets v = view nets s" "not_found e" "dk_inspectNetwork d (es_name sp) (ds_world s) = (Inl e, v)" by auto
  let ?s = "s\<lparr>ds_world := v, ds_calls := ds_calls s @ [D_InspectNetwork (es_name sp)]\<rparr>"
  let ?m = "ask (D_CreateNetwork (es_name sp)) (dk_createNetwork d (es_name sp) (nullish (es_driver sp) ''bridge'')
    (ensure_labels sp) (normalizeOptions (es_options sp)))"
  from run v(2,3) have "t = snd (?m ?s)"
    by (auto simp: nm_ensure_def inspect_network_def ask_def eff_catch_def eff_bind_def eff_then_def eff_return_def
        eff_throw_def Let_def split: prod.splits sum.splits if_splits)
  then have "view nets t = nets (snd (dk_createNetwork d (es_name sp) (nullish (es_driver sp) ''bridge'')
      (ensure_labels sp) (normalizeOptions (es_options sp)) v))" by (simp add: ask_view)
  moreover have "\<exists>i. nets (snd (dk_createNetwork d (es_name sp) (nullish (es_driver sp) ''bridge'')
      (ensure_labels sp) (normalizeOptions (es_options sp)) v)) = (nets v)(es_name sp \<mapsto> i)"
    by (rule healthyD(6) [OF h]) (simp add: v(1) None)
  ultimately show ?thesis by auto
next
  case (Some i)
  have "moves (keeps_wanted nets (\<lambda>_. {})) (nm_ensure d sp)"
    by (rule docker_order.ensuring [OF keeps_wanted_order [OF h]]) (rule create_keeps [OF h])
  from movesD [OF this run] Some show ?thesis by (auto simp: keeps_wanted_def)
qed

lemma connect_effect:
  assumes h: "healthy d nets cs" and here: "view nets s n = Some i" and known: "shortId c \<in> known_ids cs"
    and run: "nm_connect d c n al ip s = (r, t)"
  shows "\<exists>j. view nets t n = Some j \<and> shortId c \<in> attached j"
proof -
  from healthyD(1) [OF h, of "ds_world s" n] here obtain v where v: "nets v = view nets s"
    "dk_inspectNetwork d n (ds_world s) = (Inr i, v)" by auto
  let ?s = "s\<lparr>ds_world := v, ds_calls := ds_calls s @ [D_InspectNetwork n]\<rparr>"
  have insp: "inspect_network d n s = (Inr i, ?s)" using v(2) by (simp add: inspect_network_def ask_def)
  show ?thesis
  proof (cases "c \<in> fst ` set (nullish (wi_Containers i) [])")
    case True
    with run insp have "t = ?s"
      by (simp add: nm_connect_def eff_bind_def eff_catch_def eff_return_def)
    with True v(1) here show ?thesis by (auto simp: attached_def)
  next
    case False
    let ?m = "ask (D_Connect n c) (dk_connect d n c (endpoint_config al ip))"
    from False run insp have "t = snd (?m ?s)"
      by (auto simp: nm_connect_def eff_bind_def eff_then_def eff_catch_def eff_return_def eff_throw_def
          split: prod.splits sum.splits if_splits)
    then have "view nets t = nets (snd (dk_connect d n c (endpoint_config al ip) v))" by (simp add: ask_view)
    moreover have "nets v n = Some i" using v(1) here by simp
    ultimately show ?thesis using healthyD(9) [OF h \<open>nets v n = Some i\<close> known, of "endpoint_config al ip"] by auto
  qed
qed

lemma apply_total: "eff_total (applyConvergence d tb rep)"
proof -
  have "eff_total (isSafeToDisconnect d c)" for c
    unfolding isSafeToDisconnect_def by (intro eff_total_catch) simp
  then have "eff_total (act_on_item d nets rows it r)" for nets rows it r
    unfolding act_on_item_def ensure_missing_def
    by (auto intro!: eff_total_bind eff_total_fold simp: connect_missing_def disconnect_stale_def split: option.split drift_type.split)
  then show ?thesis unfolding applyConvergence_def Let_def by (intro eff_total_fold)
qed

text \<open>What an item of the report asks for, once acted on.\<close>

definition repaired :: "net_tables \<Rightarrow> drift_item \<Rightarrow> (string \<Rightarrow> network_info option) \<Rightarrow> bool" where
  "repaired tb it now \<longleftrightarrow>
     (\<forall>net \<in> set (db_networks (tb_net tb)). mn_id net = di_managedNetworkId it \<longrightarrow>
        (di_type it = Network_missing \<longrightarrow> now (mn_name net) \<noteq> None) \<and>
        (di_type it = Membership_missing \<longrightarrow> (\<exists>i. now (mn_name net) = Some i \<and> item_ids it \<subseteq> attached i)))"

lemma fetch_row:
  assumes "tables_wf tb" and "net \<in> set (db_networks (tb_net tb))" and "mn_id net \<in> ids"
  shows "om_get (fetchManagedNetworksByIds tb ids) (mn_id net) = Some net"
  unfolding fetchManagedNetworksByIds_def
  by (rule om_collect_distinct) (use assms in \<open>simp_all add: tables_wf_def distinct_map_filter\<close>)

text \<open>Where containers are wanted, by the name of the network.\<close>

definition wants_by_name :: "listed_container list \<Rightarrow> net_tables \<Rightarrow> string option \<Rightarrow> string \<Rightarrow> string \<Rightarrow> string set" where
  "wants_by_name cs tb self sid n = (\<Union>net \<in> {net \<in> set (stack_networks tb sid). mn_name net = n}. stack_wants cs tb self sid net)"

lemma wants_by_name_of:
  assumes "tables_wf tb" and "net \<in> set (stack_networks tb sid)"
  shows "wants_by_name cs tb self sid (mn_name net) = stack_wants cs tb self sid net"
proof -
  have "x = net" if "x \<in> set (stack_networks tb sid)" "mn_name x = mn_name net" for x
    using stack_networks_db [OF that(1)] stack_networks_db [OF assms(2)] that(2) assms(1)
    by (auto simp: tables_wf_def distinct_map dest: inj_onD)
  with assms(2) have "{x \<in> set (stack_networks tb sid). mn_name x = mn_name net} = {net}" by blast
  then show ?thesis by (simp add: wants_by_name_def)
qed

text \<open>An item of a report belongs to a network of the stack.\<close>

definition item_of ::
  "listed_container list \<Rightarrow> net_tables \<Rightarrow> string option \<Rightarrow> string \<Rightarrow> (string \<Rightarrow> network_info option) \<Rightarrow> managed_network \<Rightarrow> drift_item \<Rightarrow> bool" where
  "item_of cs tb self sid now net it \<longleftrightarrow>
     net \<in> set (stack_networks tb sid) \<and> di_managedNetworkId it = mn_id net \<and>
     (di_type it = Membership_missing \<longrightarrow> now (mn_name net) \<noteq> None \<and> item_ids it \<subseteq> stack_wants cs tb self sid net) \<and>
     (di_type it = Membership_stale \<longrightarrow> item_ids it \<inter> stack_wants cs tb self sid net = {})"

lemma found_item:
  assumes "found_drift (now (mn_name net)) (stack_wants cs tb self sid net) net x" and "net \<in> set (stack_networks tb sid)"
    and "it \<in> set x"
  shows "item_of cs tb self sid now net it"
  using assms unfolding found_drift_def item_of_def
  by (cases "now (mn_name net)") auto

context docker_order
begin

lemmas order = state_order_axioms

end

lemma acting_keeps:
  assumes h: "healthy d nets cs" and wf: "tables_wf tb"
    and self: "self_known cs self"
    and it: "item_of cs tb self sid now net it"
  shows "moves (keeps_wanted nets (wants_by_name cs tb self sid)) (act_on_item d (fetchManagedNetworksByIds tb ids) rows it r)"
proof (rule docker_order.acting [OF keeps_wanted_order [OF h]])
  from it have net: "net \<in> set (stack_networks tb sid)" "mn_id net = di_managedNetworkId it" by (simp_all add: item_of_def)
  have row: "b = net" if "om_get (fetchManagedNetworksByIds tb ids) (di_managedNetworkId it) = Some b" for b
    using fetched_network [OF that] network_by_id [OF wf _ stack_networks_db [OF net(1)]] net(2) by simp
  show "moves (keeps_wanted nets (wants_by_name cs tb self sid)) (ensure_missing d b r)" for b
    by (rule docker_order.ensuring_missing [OF keeps_wanted_order [OF h] create_keeps [OF h]])
  show "moves (keeps_wanted nets (wants_by_name cs tb self sid)) (connect_missing d b row c r)"
    if "di_type it = Membership_missing" "c \<in> set (nullish (di_containers it) [])" for b row c r
  proof (rule docker_order.connecting_missing [OF keeps_wanted_order [OF h] connect_keeps [OF h]])
    from that have "shortId (fst c) \<in> item_ids it" by (auto simp: item_ids_def)
    with it that(1) known_targets [OF self] show "shortId (fst c) \<in> known_ids cs" by (fastforce simp: item_of_def)
  qed
  show "moves (keeps_wanted nets (wants_by_name cs tb self sid)) (disconnect_stale d b c r)"
    if "om_get (fetchManagedNetworksByIds tb ids) (di_managedNetworkId it) = Some b"
      "di_type it = Membership_stale" "c \<in> set (nullish (di_containers it) [])" for b c r
  proof (rule docker_order.disconnecting_stale [OF keeps_wanted_order [OF h] disconnect_keeps [OF h]])
    from that(3) have "shortId (fst c) \<in> item_ids it" by (auto simp: item_ids_def)
    with it that(2) row [OF that(1)] wants_by_name_of [OF wf net(1)]
    show "shortId (fst c) \<notin> wants_by_name cs tb self sid (mn_name b)" by (auto simp: item_of_def)
  qed
qed

lemma acting_repairs:
  assumes h: "healthy d nets cs" and wf: "tables_wf tb"
    and self: "self_known cs self"
    and it: "item_of cs tb self sid now net it" and ids: "di_managedNetworkId it \<in> ids"
    and here: "now (mn_name net) \<noteq> None \<Longrightarrow> view nets u (mn_name net) \<noteq> None"
    and run: "act_on_item d (fetchManagedNetworksByIds tb ids) rows it r u = (Inr z, v)"
  shows "repaired tb it (view nets v)"
proof -
  from it have net: "net \<in> set (stack_networks tb sid)" "di_managedNetworkId it = mn_id net" by (simp_all add: item_of_def)
  note db = stack_networks_db [OF net(1)]
  have row: "om_get (fetchManagedNetworksByIds tb ids) (di_managedNetworkId it) = Some net"
    using fetch_row [OF wf db] ids net(2) by simp
  have "view nets v (mn_name net) \<noteq> None" if "di_type it = Network_missing"
  proof -
    from run row that obtain e where "nm_ensure d (network_ensure_spec net) u = (e, v)"
      by (auto simp: act_on_item_def ensure_missing_def eff_bind_Inr)
    from ensure_effect [OF h this] show ?thesis by (simp add: network_ensure_spec_def)
  qed
  moreover have "\<exists>j. view nets v (mn_name net) = Some j \<and> item_ids it \<subseteq> attached j" if ty: "di_type it = Membership_missing"
  proof -
    let ?W = "wants_by_name cs tb self sid" let ?n = "mn_name net"
    let ?G = "\<lambda>c s. \<exists>j. view nets s ?n = Some j \<and> shortId (fst c) \<in> attached j"
    note ord = docker_order.order [OF keeps_wanted_order [OF h, of ?W]]
    from run row ty have fold: "eff_fold (connect_missing d net (om_get rows (item_key it))) (nullish (di_containers it) []) r u = (Inr z, v)"
      by (simp add: act_on_item_def)
    have sub: "item_ids it \<subseteq> ?W ?n" "now ?n \<noteq> None" using it ty wants_by_name_of [OF wf net(1)] by (auto simp: item_of_def)
    have known: "shortId (fst c) \<in> known_ids cs \<and> shortId (fst c) \<in> ?W ?n" if "c \<in> set (nullish (di_containers it) [])" for c
      using that sub(1) wants_by_name_of [OF wf net(1)] known_targets [OF self] by (fastforce simp: item_ids_def)
    have one: "?G c v" if c: "c \<in> set (nullish (di_containers it) [])" for c
    proof (rule state_order.fold_establishes [OF ord fold c, where F = ?G])
      show "moves (keeps_wanted nets ?W) (connect_missing d net (om_get rows (item_key it)) x y)"
        if "x \<in> set (nullish (di_containers it) [])" for x y
        by (rule docker_order.connecting_missing [OF keeps_wanted_order [OF h] connect_keeps [OF h]])
           (use known [OF that] in blast)
      show "?G x w" if x: "x \<in> set (nullish (di_containers it) [])" and k: "keeps_wanted nets ?W u b"
        and c: "connect_missing d net (om_get rows (item_key it)) x y b = (Inr q, w)" for x y b q w
      proof -
        from here [OF sub(2)] k obtain i where "view nets b ?n = Some i" unfolding keeps_wanted_def by blast
        moreover from c obtain e where "nm_connect d (fst x) ?n (Option.bind (om_get rows (item_key it)) nm_aliases)
            (Option.bind (om_get rows (item_key it)) nm_staticIp) b = (e, w)"
          by (auto simp: connect_missing_def eff_bind_Inr)
        ultimately show ?thesis using connect_effect [OF h] known [OF x] by blast
      qed
      show "?G x w" if "x \<in> set (nullish (di_containers it) [])" "?G x b" "keeps_wanted nets ?W b w" for x b w
        using that known [OF that(1)] by (fastforce simp: keeps_wanted_def)
    qed
    show ?thesis
    proof (cases "nullish (di_containers it) []")
      case Nil
      with fold here [OF sub(2)] show ?thesis by (auto simp: item_ids_def)
    next
      case (Cons c cs')
      with one [of c] obtain j where j: "view nets v ?n = Some j" by auto
      with one show ?thesis by (auto simp: item_ids_def)
    qed
  qed
  ultimately show ?thesis
    using network_by_id [OF wf _ db] net(2) unfolding repaired_def by metis
qed

lemma repaired_kept:
  assumes wf: "tables_wf tb" and it: "item_of cs tb self sid now net it" and r: "repaired tb it (view nets w)"
    and k: "keeps_wanted nets (wants_by_name cs tb self sid) w v"
  shows "repaired tb it (view nets v)"
proof -
  from it have n: "net \<in> set (stack_networks tb sid)" "di_managedNetworkId it = mn_id net" by (simp_all add: item_of_def)
  note db = stack_networks_db [OF n(1)]
  have "view nets v (mn_name net) \<noteq> None" if "di_type it = Network_missing"
    by (rule keeps_present [OF k]) (use r db n(2) that in \<open>simp add: repaired_def\<close>)
  moreover have "\<exists>j. view nets v (mn_name net) = Some j \<and> item_ids it \<subseteq> attached j" if ty: "di_type it = Membership_missing"
  proof -
    from r db n(2) ty obtain i where i: "view nets w (mn_name net) = Some i" "item_ids it \<subseteq> attached i"
      by (auto simp: repaired_def)
    from k i(1) obtain j where "view nets v (mn_name net) = Some j"
      "attached i \<inter> wants_by_name cs tb self sid (mn_name net) \<subseteq> attached j" unfolding keeps_wanted_def by metis
    moreover have "item_ids it \<subseteq> wants_by_name cs tb self sid (mn_name net)"
      using it ty wants_by_name_of [OF wf n(1)] by (simp add: item_of_def)
    ultimately show ?thesis using i(2) by auto
  qed
  ultimately show ?thesis
    using network_by_id [OF wf _ db] n(2) unfolding repaired_def by metis
qed

lemma one_sweep:
  assumes h: "healthy d nets cs" and wf: "tables_wf tb" and p: "plain_tables tb" "plain sid" and sid: "sid \<in> set (tb_stacks tb)"
    and self: "self_known cs self"
  shows "\<exists>r t. convergeStack d self tb sid s = (Inr r, t) \<and>
    (\<forall>net \<in> set (stack_networks tb sid). \<exists>j. view nets t (mn_name net) = Some j \<and>
       (view nets s (mn_name net) \<noteq> None \<longrightarrow> stack_wants cs tb self sid net \<subseteq> attached j))"
proof -
  let ?W = "wants_by_name cs tb self sid" let ?now = "view nets s"
  from reconcile_run [OF h wf p sid, of self s] obtain rep u xs where
    rep: "reconcileStack d self tb sid s = (Inr rep, u)" "view nets u = ?now"
      "list_all2 (\<lambda>net x. found_drift (?now (mn_name net)) (stack_wants cs tb self sid net) net x) (stack_networks tb sid) xs"
      "nr_items rep = concat xs" by blast
  obtain r t where app: "applyConvergence d tb rep u = (Inr r, t)" by (rule eff_totalE [OF apply_total])
  let ?ids = "di_managedNetworkId ` set (nr_items rep)"
  let ?f = "act_on_item d (fetchManagedNetworksByIds tb ?ids) (fetchMembershipLookup tb ?ids)"
  from app have fold: "eff_fold ?f (nr_items rep) (emptyResult (nr_scope rep)) u = (Inr r, t)"
    by (simp add: applyConvergence_def Let_def)
  have item: "\<exists>net. item_of cs tb self sid ?now net it" if "it \<in> set (nr_items rep)" for it
  proof -
    from that rep(4) obtain x where x: "x \<in> set xs" "it \<in> set x" by auto
    from list_all2_member' [OF rep(3) x(1)] obtain net where "net \<in> set (stack_networks tb sid)"
      "found_drift (?now (mn_name net)) (stack_wants cs tb self sid net) net x" by blast
    with x(2) show ?thesis by (meson found_item)
  qed
  note ord = docker_order.order [OF keeps_wanted_order [OF h, of ?W]]
  have keep: "moves (keeps_wanted nets ?W) (?f it y)" if "it \<in> set (nr_items rep)" for it y
    using item [OF that] by (auto intro: acting_keeps [OF h wf self])
  have done_all: "repaired tb it (view nets t)" if it: "it \<in> set (nr_items rep)" for it
  proof (rule state_order.fold_establishes [OF ord fold it keep, where F = "\<lambda>it v. repaired tb it (view nets v)"])
    show "repaired tb x (view nets v)" if x: "x \<in> set (nr_items rep)" and k: "keeps_wanted nets ?W u w" and
      run: "?f x y w = (Inr z, v)" for x y w z v
    proof -
      from item [OF x] obtain net where net: "item_of cs tb self sid ?now net x" by blast
      have "view nets w (mn_name net) \<noteq> None" if "?now (mn_name net) \<noteq> None"
        by (rule keeps_present [OF k]) (simp add: rep(2) that)
      with x show ?thesis by (intro acting_repairs [OF h wf self net _ _ run]) simp_all
    qed
    show "repaired tb x (view nets v)" if x: "x \<in> set (nr_items rep)" and r: "repaired tb x (view nets w)" and
      k: "keeps_wanted nets ?W w v" for x w v
    proof -
      from item [OF x] obtain net where "item_of cs tb self sid ?now net x" by blast
      from repaired_kept [OF wf this r k] show ?thesis .
    qed
  qed
  have ut: "keeps_wanted nets ?W u t" by (rule movesD [OF state_order.folded [OF ord keep] fold])
  have "\<exists>j. view nets t (mn_name net) = Some j \<and> (?now (mn_name net) \<noteq> None \<longrightarrow> stack_wants cs tb self sid net \<subseteq> attached j)"
    if net: "net \<in> set (stack_networks tb sid)" for net
  proof -
    from list_all2_member [OF rep(3) net] obtain x where x: "x \<in> set xs"
      "found_drift (?now (mn_name net)) (stack_wants cs tb self sid net) net x" by blast
    have rep_x: "it \<in> set x \<Longrightarrow> repaired tb it (view nets t)" for it using done_all x(1) rep(4) by auto
    note db = stack_networks_db [OF net]
    show ?thesis
    proof (cases "?now (mn_name net)")
      case None
      with x(2) have "network_missing_item net \<in> set x" by (simp add: found_drift_def)
      from rep_x [OF this] db None show ?thesis by (auto simp: repaired_def)
    next
      case (Some i)
      from ut Some rep(2) obtain j where j: "view nets t (mn_name net) = Some j" "attached i \<inter> ?W (mn_name net) \<subseteq> attached j"
        unfolding keeps_wanted_def by metis
      have "q \<in> attached j" if q: "q \<in> stack_wants cs tb self sid net" for q
      proof (cases "q \<in> attached i")
        case True
        with q j(2) wants_by_name_of [OF wf net] show ?thesis by auto
      next
        case False
        from x(2) Some have "stack_wants cs tb self sid net - attached i =
            (\<Union>it \<in> {it \<in> set x. di_type it = Membership_missing}. item_ids it)" by (simp add: found_drift_def)
        with q False obtain it where it: "it \<in> set x" "di_type it = Membership_missing" "q \<in> item_ids it" by blast
        from rep_x [OF it(1)] db it(2) found_network [OF x(2) it(1)] obtain k where
          "view nets t (mn_name net) = Some k" "item_ids it \<subseteq> attached k" unfolding repaired_def by metis
        with it(3) j(1) show ?thesis by auto
      qed
      with j(1) show ?thesis by auto
    qed
  qed
  moreover have "convergeStack d self tb sid s = (Inr r, t)"
    using rep(1) app by (simp add: convergeStack_def eff_bind_def)
  ultimately show ?thesis by blast
qed


lemma two_sweeps:
  assumes h: "healthy d nets cs" and wf: "tables_wf tb" and p: "plain_tables tb" "plain sid" and sid: "sid \<in> set (tb_stacks tb)"
    and self: "self_known cs self"
  shows "\<exists>r1 t1 r2 t2. convergeStack d self tb sid s = (Inr r1, t1) \<and> convergeStack d self tb sid t1 = (Inr r2, t2) \<and>
    settled cs tb self sid (nets (ds_world t2))"
proof -
  from one_sweep [OF h wf p sid self, where s = s] obtain r1 t1 where
    a: "convergeStack d self tb sid s = (Inr r1, t1)"
      "\<forall>net \<in> set (stack_networks tb sid). \<exists>j. view nets t1 (mn_name net) = Some j" by blast
  from one_sweep [OF h wf p sid self, where s = t1] obtain r2 t2 where
    b: "convergeStack d self tb sid t1 = (Inr r2, t2)"
      "\<forall>net \<in> set (stack_networks tb sid). \<exists>j. view nets t2 (mn_name net) = Some j \<and>
         (view nets t1 (mn_name net) \<noteq> None \<longrightarrow> stack_wants cs tb self sid net \<subseteq> attached j)" by blast
  from a(2) b(2) have "settled cs tb self sid (view nets t2)" unfolding settled_def by fastforce
  with a(1) b(1) show ?thesis by blast
qed



section \<open>From the declarations to the attachments\<close>

lemma compiled_tables_wf:
  assumes "store_wf db" and "tb_net tb = compileStackNetworkMemberships x db" and "distinct (map nv_id (tb_services tb))"
  shows "tables_wf tb"
proof -
  obtain r t where "compile_rows x db = (r, t)" by (cases "compile_rows x db")
  with movesD [OF rows_grow this] assms(1) have "store_wf (compileStackNetworkMemberships x db)"
    by (simp add: compileStackNetworkMemberships_def safeMembershipWrite_def grows_def)
  with assms(2,3) show ?thesis by (simp add: tables_wf_def store_wf_def db_wf_def)
qed

lemma service_target_simps:
  assumes "si_serviceType svc \<noteq> ''AdoptedWeb''"
  shows "member_target svc = \<lparr>mt_stackServiceId = Some (si_id svc), mt_containerName = None\<rparr>"
  using assms by (simp add: member_target_def resolveMembershipTarget_def)

text \<open>A row of a service is looked at in its stack's pass, and wants the service's containers attached.\<close>

lemma service_row_wanted:
  assumes wf: "tables_wf tb" and v: "v \<in> set (tb_services tb)" and id: "nv_id v \<noteq> []"
    and row: "row \<in> set (db_networks (tb_net tb))"
    and m: "(mn_id row, \<lparr>mt_stackServiceId = Some (nv_id v), mt_containerName = None\<rparr>) \<in> set (ms_idents (tb_net tb))"
  shows "row \<in> set (stack_networks tb (nv_stackId v))"
    and "service_ids cs (nv_stackId v) (nv_serviceName v) \<subseteq> stack_wants cs tb self (nv_stackId v) row"
proof -
  from m obtain q where q: "q \<in> set (db_memberships (tb_net tb))" "nm_networkId q = mn_id row"
    "nm_target q = \<lparr>mt_stackServiceId = Some (nv_id v), mt_containerName = None\<rparr>" by (auto simp: ms_idents_def ms_ident_def)
  have own: "q \<in> set (sn_ownServiceMemberships (scoped tb (nv_stackId v)))"
    using q v by (auto simp: scoped_def Let_def targets_service_def stack_services_def)
  show "row \<in> set (stack_networks tb (nv_stackId v))"
  proof (cases "stack_owned (nv_stackId v) row")
    case True
    with row show ?thesis by (auto simp: stack_networks_def sn_networksToCheck_def scoped_def Let_def)
  next
    case False
    have "n = row" if "n \<in> set (db_networks (tb_net tb))" "mn_id n = mn_id row" for n
      by (rule network_by_id [OF wf that(1) row that(2)])
    with False have "mn_id row \<notin> mn_id ` set (filter (stack_owned (nv_stackId v)) (db_networks (tb_net tb)))" by auto
    with row q(2) own show ?thesis by (force simp: stack_networks_def sn_networksToCheck_def scoped_def Let_def)
  qed
  have "q \<in> set (stack_members tb (nv_stackId v) row)" using q(1,2) own by (simp add: stack_members_def)
  moreover have "live_targets cs (svc_lookup tb) self (nm_target q) = service_ids cs (nv_stackId v) (nv_serviceName v)"
    using id by (simp add: live_targets_def q(3) truthy_def svc_lookup_unique [OF wf v])
  ultimately show "service_ids cs (nv_stackId v) (nv_serviceName v) \<subseteq> stack_wants cs tb self (nv_stackId v) row"
    unfolding stack_wants_def wanted_on_def by blast
qed

section \<open>The example daemon\<close>

lemma shortId_take: "shortId i = take 12 i"
  by (simp add: shortId_def)

lemma named_includes: "has_name n c \<Longrightarrow> list_ex (\<lambda>y. includes_str y n) (nullish (lc_Names c) [])"
proof -
  have "includes_str x (strip_slash x)" for x
  proof (cases "starts_with x ''/''")
    case True
    then obtain y where "x = CHR ''/'' # y" by (cases x) auto
    with includes_str_append [of "''/''" y "[]"] show ?thesis by (simp add: strip_slash_def)
  next
    case False
    with includes_str_append [of "[]" x "[]"] show ?thesis by (simp add: strip_slash_def)
  qed
  then show "has_name n c \<Longrightarrow> list_ex (\<lambda>y. includes_str y n) (nullish (lc_Names c) [])"
    by (auto simp: has_name_def list_ex_iff)
qed

lemma sample_healthy: "healthy (sample_docker cs) om_get cs"
proof -
  have known: "\<exists>x. find (\<lambda>x. take 12 (lc_Id x) = take 12 c) cs = Some x \<and> take 12 (lc_Id x) = take 12 c"
    if "take 12 c \<in> (\<lambda>x. take 12 (lc_Id x)) ` set cs" for c
    using that by (cases "find (\<lambda>x. take 12 (lc_Id x) = take 12 c) cs") (auto simp: find_None_iff dest: find_SomeD)
  have "answers_inspect (sample_docker cs) om_get"
    by (auto simp: answers_inspect_def sample_defs sample_error_def not_found_def split: option.split)
  moreover have "answers_lists (sample_docker cs) om_get cs"
    by (auto simp: answers_lists_def sample_defs container_labels_def named_includes split: option.split)
  moreover have "creates_networks (sample_docker cs) om_get"
    by (auto simp: creates_networks_def sample_defs)
  moreover have "connects_containers (sample_docker cs) om_get (known_ids cs)"
    unfolding connects_containers_def
  proof (intro conjI allI impI)
    fix n c :: string and f :: bool and w :: sample_world and i assume i: "om_get w n = Some (i :: network_info)"
    show "\<exists>j. om_get (snd (dk_disconnect (sample_docker cs) n c f w)) = (om_get w)(n \<mapsto> j) \<and> attached i - {shortId c} \<subseteq> attached j"
      using i by (force simp: sample_defs attached_def shortId_take)
    show "\<exists>j. om_get (snd (dk_connect (sample_docker cs) n c cfg w)) = (om_get w)(n \<mapsto> j) \<and>
        attached j = insert (shortId c) (attached i)" if k: "shortId c \<in> known_ids cs" for cfg
    proof -
      from k known [of c] obtain x where x: "find (\<lambda>x. take 12 (lc_Id x) = take 12 c) cs = Some x"
        "take 12 (lc_Id x) = take 12 c" by (auto simp: known_ids_def shortId_take o_def)
      show ?thesis
      proof (cases "take 12 c \<in> (take 12 \<circ> fst) ` set (nullish (wi_Containers i) [])")
        case True
        with i x show ?thesis
          by (intro exI [of _ i]) (auto simp: sample_defs attached_def shortId_take fun_upd_idem Let_def)
      next
        case False
        with i x show ?thesis
          by (intro exI [of _ "i\<lparr>wi_Containers := Some (nullish (wi_Containers i) [] @ [(lc_Id x, None)])\<rparr>"])
             (auto simp: sample_defs attached_def shortId_take Let_def)
      qed
    qed
  qed (simp_all add: sample_defs)
  ultimately show ?thesis by (simp add: healthy_def)
qed

lemma sample_plain: "plain_tables (sample_tables enforce)" "plain ''s1''" "''s1'' \<in> set (tb_stacks (sample_tables enforce))"
  by (simp_all add: plain_tables_def sample_tables_def plain_def)

section \<open>Properties\<close>

text \<open>C29: on a host whose daemon answers, the reconciler's report of a stack has no network and no
  attachment missing exactly if every network of the stack is there and every live container that
  a membership stands for is attached to it; and reconciling leaves the networks as they are.\<close>

theorem report_exact:
  assumes "healthy d nets cs" and "tables_wf tb" and "plain_tables tb" and "plain sid" and "sid \<in> set (tb_stacks tb)"
  shows "\<exists>rep t. reconcileStack d self tb sid s = (Inr rep, t) \<and> nets (ds_world t) = nets (ds_world s) \<and>
    ((\<forall>it \<in> set (nr_items rep). \<not> missing_item it) \<longleftrightarrow> settled cs tb self sid (nets (ds_world s)))"
proof -
  from reconcile_run [OF assms, of self s] obtain rep t xs where
    r: "reconcileStack d self tb sid s = (Inr rep, t)" "view nets t = view nets s"
      "list_all2 (\<lambda>net x. found_drift (view nets s (mn_name net)) (stack_wants cs tb self sid net) net x) (stack_networks tb sid) xs"
      "nr_items rep = concat xs" by blast
  from report_settled [OF r(3)] r(4) have "(\<forall>it \<in> set (nr_items rep). \<not> missing_item it) \<longleftrightarrow> settled cs tb self sid (view nets s)"
    by simp
  with r(1,2) show ?thesis by (intro exI [of _ rep] exI [of _ t] conjI) simp_all
qed



theorem report_exact_witness:
  "\<exists>rep t. reconcileStack (sample_docker sample_cs) None (sample_tables False) ''s1'' (sample_start []) = (Inr rep, t) \<and>
     map di_type (nr_items rep) = [Network_missing] \<and> ds_world t = [] \<and>
     \<not> settled sample_cs (sample_tables False) None ''s1'' (om_get [])"
proof -
  let ?run = "reconcileStack (sample_docker sample_cs) None (sample_tables False) ''s1'' (sample_start [])"
  from report_exact [OF sample_healthy sample_tables_wf sample_plain, where self = None and s = "sample_start []", of sample_cs]
  obtain rep t where run: "?run = (Inr rep, t)" and
    iff: "(\<forall>it \<in> set (nr_items rep). \<not> missing_item it) \<longleftrightarrow> settled sample_cs (sample_tables False) None ''s1'' (om_get [])"
    unfolding sample_start_def docker_state.select_convs by blast
  have "case ?run of (Inr q, u) \<Rightarrow> map di_type (nr_items q) = [Network_missing] \<and> ds_world u = [] | (Inl e, u) \<Rightarrow> False"
    by code_simp
  with run have it: "map di_type (nr_items rep) = [Network_missing]" "ds_world t = []" by simp_all
  then have "\<exists>it \<in> set (nr_items rep). missing_item it" by (auto simp: missing_item_def)
  with iff have "\<not> settled sample_cs (sample_tables False) None ''s1'' (om_get [])" by blast
  with run it show ?thesis by (intro exI [of _ rep] exI [of _ t] conjI) simp_all
qed


text \<open>The stack declares two networks; neither is there yet. Its service ends up on both.\<close>

definition sample_joined :: net_tables where
  "sample_joined =
     \<lparr>tb_net = compileStackNetworkMemberships sample_compile sample_db,
      tb_services = [\<lparr>nv_id = ''v1'', nv_stackId = ''s1'', nv_serviceName = ''web'', nv_serviceType = ''Stateful'',
          nv_adoptedContainer = None\<rparr>,
        \<lparr>nv_id = ''v2'', nv_stackId = ''s1'', nv_serviceName = ''agent'', nv_serviceType = ''Stateful'', nv_adoptedContainer = None\<rparr>],
      tb_stacks = [''s1''], tb_environments = []\<rparr>"

lemma service_ids_listed:
  "service_ids cs sid n = set (map (shortId \<circ> lc_Id)
     (filter (\<lambda>c. om_get (container_labels c) ''mini-infra.stack-id'' = Some sid \<and> of_service n c) cs))"
  by (simp add: service_ids_def)


end
