(* ===== verification/NetworkGc.thy ===== *)
theory NetworkGc
  imports NetworkHealth
begin

text \<open>
  \<open>networks/network-gc.ts\<close>: collecting the managed networks whose owner is gone, and the timer that
  reports them. The database is the tables of the reconciler; what a run leaves in them is part of
  its result. Logging is left out.
\<close>

section \<open>A run\<close>

record gc_orphan =
  go_name :: string
  go_ownerKind :: string
  go_ownerId :: "string option"
  go_purpose :: string
  go_connectedContainerCount :: nat
  go_eligibleForRemoval :: bool
  go_removed :: "bool option"

record gc_report =
  gr_dryRun :: bool
  gr_scannedCount :: nat
  gr_orphans :: "gc_orphan list"
  gr_removedCount :: nat

text \<open>The owners that are there, of those some network names.\<close>

definition named_owners :: "string \<Rightarrow> managed_info list \<Rightarrow> string set" where
  "named_owners kind managed =
     set (map (\<lambda>n. nullish (mi_ownerId n) []) (filter (\<lambda>n. mi_ownerKind n = kind \<and> truthy (mi_ownerId n)) managed))"

definition existingStackIds :: "net_tables \<Rightarrow> managed_info list \<Rightarrow> string set" where
  "existingStackIds tb managed = set (tb_stacks tb) \<inter> named_owners ''stack'' managed"

definition existingEnvironmentIds :: "net_tables \<Rightarrow> managed_info list \<Rightarrow> string set" where
  "existingEnvironmentIds tb managed = set (tb_environments tb) \<inter> named_owners ''environment'' managed"

definition ownerExists :: "net_tables \<Rightarrow> managed_info list \<Rightarrow> string \<Rightarrow> string option \<Rightarrow> bool" where
  "ownerExists tb managed kind oid =
     (if kind = ''host'' then True
      else if \<not> truthy oid then True
      else if kind = ''stack'' then nullish oid [] \<in> existingStackIds tb managed
      else nullish oid [] \<in> existingEnvironmentIds tb managed)"

definition gc_orphan_of :: "managed_info \<Rightarrow> nat \<Rightarrow> bool option \<Rightarrow> gc_orphan" where
  "gc_orphan_of net k removed =
     \<lparr>go_name = mi_name net, go_ownerKind = mi_ownerKind net, go_ownerId = mi_ownerId net,
      go_purpose = mi_purpose net, go_connectedContainerCount = k, go_eligibleForRemoval = (k = 0),
      go_removed = removed\<rparr>"

definition gc_network ::
  "'w docker \<Rightarrow> net_tables \<Rightarrow> managed_info list \<Rightarrow> bool \<Rightarrow> managed_info \<Rightarrow> ('w, gc_orphan list) docker_op" where
  "gc_network d tb managed dry net =
     (if ownerExists tb managed (mi_ownerKind net) (mi_ownerId net) then eff_return []
      else eff_bind (eff_try (nm_inspect d (mi_name net))) (\<lambda>r.
        case r of
          Inl _ \<Rightarrow> eff_return []
        | Inr found \<Rightarrow>
            (let k = (case found of None \<Rightarrow> 0 | Some i \<Rightarrow> length (ir_connectedContainerIds i))
             in if k = 0 \<and> \<not> dry
                then eff_bind (nm_remove d (mi_name net) False) (\<lambda>m. eff_return [gc_orphan_of net k (Some (mr_removed m))])
                else eff_return [gc_orphan_of net k None])))"

text \<open>Rows whose service is gone.\<close>

definition orphan_membership :: "net_tables \<Rightarrow> membership \<Rightarrow> bool" where
  "orphan_membership tb m \<longleftrightarrow> (case mt_stackServiceId (nm_target m) of
     None \<Rightarrow> False | Some i \<Rightarrow> i \<notin> nv_id ` set (tb_services tb))"

definition pruneOrphanedMemberships :: "net_tables \<Rightarrow> bool \<Rightarrow> net_tables" where
  "pruneOrphanedMemberships tb dry =
     (if dry then tb
      else tb\<lparr>tb_net := (tb_net tb)\<lparr>db_memberships :=
        filter (\<lambda>m. \<not> orphan_membership tb m) (db_memberships (tb_net tb))\<rparr>\<rparr>)"

definition runNetworkGc :: "'w docker \<Rightarrow> net_tables \<Rightarrow> bool \<Rightarrow> ('w, gc_report \<times> net_tables) docker_op" where
  "runNetworkGc d tb dry =
     eff_bind (listManaged d None None) (\<lambda>managed.
     eff_bind (eff_each (gc_network d tb managed dry) managed) (\<lambda>os.
     eff_return
       (\<lparr>gr_dryRun = dry, gr_scannedCount = length managed, gr_orphans = concat os,
         gr_removedCount = length (filter (\<lambda>x. go_removed x = Some True) (concat os))\<rparr>,
        pruneOrphanedMemberships tb dry)))"

section \<open>The timer\<close>

text \<open>A tick reports; that the daemon could be reached when it started is \<open>reachable\<close>.\<close>

definition gc_tick :: "'w docker \<Rightarrow> bool \<Rightarrow> net_tables \<Rightarrow> ('w, gc_report option \<times> net_tables) docker_op" where
  "gc_tick d reachable tb =
     (if \<not> reachable then eff_return (None, tb)
      else eff_bind (eff_try (runNetworkGc d tb True)) (\<lambda>r. eff_return
        (case r of Inl _ \<Rightarrow> (None, tb) | Inr (rep, tb') \<Rightarrow> (Some rep, tb'))))"

record gc_scheduler =
  gs_running :: bool
  gs_interval :: bool

text \<open>Whether a tick is launched at once, and the scheduler after.\<close>

definition gc_start :: "gc_scheduler \<Rightarrow> bool \<times> gc_scheduler" where
  "gc_start g = (if gs_running g then (False, g) else (True, \<lparr>gs_running = True, gs_interval = True\<rparr>))"

definition gc_stop :: "gc_scheduler \<Rightarrow> gc_scheduler" where
  "gc_stop g = g\<lparr>gs_running := False, gs_interval := False\<rparr>"

lemma gc_tick_total: "eff_total (gc_tick d reachable tb)"
  by (auto simp: gc_tick_def intro!: eff_total_bind)

lemma gc_dry_tables: "runNetworkGc d tb True s = (Inr (rep, tb'), t) \<Longrightarrow> tb' = tb"
  by (auto simp: runNetworkGc_def eff_bind_Inr pruneOrphanedMemberships_def)

lemma gc_tick_tables:
  assumes "gc_tick d reachable tb s = (Inr (rep, tb'), t)"
  shows "tb' = tb"
proof (cases reachable)
  case True
  with assms obtain r u where r: "runNetworkGc d tb True s = (r, u)"
    "(rep, tb') = (case r of Inl _ \<Rightarrow> (None, tb) | Inr (rep, tb') \<Rightarrow> (Some rep, tb'))"
    by (auto simp: gc_tick_def eff_bind_Inr)
  then show ?thesis by (cases r) (auto dest: gc_dry_tables)
qed (use assms in \<open>simp add: gc_tick_def\<close>)

section \<open>What a run asks of the daemon\<close>

definition removes_free :: "(string \<Rightarrow> bool) \<Rightarrow> docker_call \<Rightarrow> bool" where
  "removes_free Q c = (case c of D_RemoveNetwork n \<Rightarrow> Q n | _ \<Rightarrow> False)"

lemma removes_freeD: "removes_free Q c \<Longrightarrow> \<exists>n. c = D_RemoveNetwork n \<and> Q n"
  by (cases c) (simp_all add: removes_free_def)

lemma unforced_remove_asks: "Q n \<Longrightarrow> moves (asked (or_reading (removes_free Q))) (nm_remove d n False)"
  unfolding nm_remove_def remove_call_def Let_def
  by (auto intro!: asked.intros asked.late_inspect asked_change simp: removes_free_def split: sum.split)

lemma gc_network_asks:
  assumes "\<not> ownerExists tb managed (mi_ownerKind net) (mi_ownerId net) \<Longrightarrow> \<not> dry \<Longrightarrow> Q (mi_name net)"
  shows "moves (asked (or_reading (removes_free Q))) (gc_network d tb managed dry net)"
  unfolding gc_network_def Let_def
  by (auto intro!: asked.intros asked.inspected unforced_remove_asks assms split: sum.split)

lemma listed_managed:
  assumes "keeps_labels d lab" and "listManaged d None None s = (Inr ms, t)" and "x \<in> set ms"
  shows "om_get (lab (mi_name x)) ''mini-infra.managed'' = Some ''true''"
    and "mi_ownerKind x = nullish (om_get (lab (mi_name x)) ''mini-infra.owner-kind'') ''host''"
    and "mi_ownerId x = om_get (lab (mi_name x)) ''mini-infra.owner-id''"
proof -
  from assms(2) obtain ns where ns: "ask D_ListNetworks (dk_listNetworks d [(''mini-infra.managed'', ''true'')]) s = (Inr ns, t)"
    and ms: "ms = map managed_network_info ns" by (auto simp: listManaged_def eff_bind_Inr)
  from assms(3) ms obtain n where n: "n \<in> set ns" "x = managed_network_info n" by auto
  from keeps_labels_listed [OF assms(1) ns n(1)] n(2)
  show "om_get (lab (mi_name x)) ''mini-infra.managed'' = Some ''true''"
    "mi_ownerKind x = nullish (om_get (lab (mi_name x)) ''mini-infra.owner-kind'') ''host''"
    "mi_ownerId x = om_get (lab (mi_name x)) ''mini-infra.owner-id''"
    by (auto simp: managed_network_info_def Let_def)
qed

text \<open>An owner that the labels name and the database does not have.\<close>

definition gone_owner :: "net_tables \<Rightarrow> labels \<Rightarrow> bool" where
  "gone_owner tb ls \<longleftrightarrow>
     (\<exists>kind i. om_get ls ''mini-infra.owner-kind'' = Some kind \<and> kind \<noteq> ''host'' \<and>
        om_get ls ''mini-infra.owner-id'' = Some i \<and> i \<noteq> [] \<and>
        (kind = ''stack'' \<longrightarrow> i \<notin> set (tb_stacks tb)) \<and> (kind = ''environment'' \<longrightarrow> i \<notin> set (tb_environments tb)))"

lemma missing_owner:
  assumes "x \<in> set ms" and "\<not> ownerExists tb ms (mi_ownerKind x) (mi_ownerId x)"
    and "mi_ownerKind x = nullish (om_get ls ''mini-infra.owner-kind'') ''host''" and "mi_ownerId x = om_get ls ''mini-infra.owner-id''"
  shows "gone_owner tb ls"
proof -
  from assms(2) have not_host: "mi_ownerKind x \<noteq> ''host''" and "truthy (mi_ownerId x)"
    by (auto simp: ownerExists_def split: if_splits)
  then obtain i where i: "mi_ownerId x = Some i" "i \<noteq> []" by (cases "mi_ownerId x") auto
  from not_host assms(3) obtain kind where k: "om_get ls ''mini-infra.owner-kind'' = Some kind" "mi_ownerKind x = kind" "kind \<noteq> ''host''"
    by (cases "om_get ls ''mini-infra.owner-kind''") auto
  have named: "i \<in> named_owners kind ms" using assms(1) k(2) i by (force simp: named_owners_def truthy_def)
  with assms(2) k i have "kind = ''stack'' \<Longrightarrow> i \<notin> set (tb_stacks tb)" "kind = ''environment'' \<Longrightarrow> i \<notin> set (tb_environments tb)"
    by (auto simp: ownerExists_def existingStackIds_def existingEnvironmentIds_def truthy_def)
  with k i assms(4) show ?thesis by (auto simp: gone_owner_def)
qed

lemma gc_asks:
  assumes "keeps_labels d lab"
  shows "moves (asked (or_reading (removes_free (\<lambda>n. \<not> dry \<and> om_get (lab n) ''mini-infra.managed'' = Some ''true'' \<and>
    gone_owner tb (lab n))))) (runNetworkGc d tb dry)"
  unfolding runNetworkGc_def
proof (rule asked.bind_answer [OF asked.listing])
  fix s ms t assume run: "listManaged d None None s = (Inr ms, t)"
  let ?Q = "\<lambda>n. \<not> dry \<and> om_get (lab n) ''mini-infra.managed'' = Some ''true'' \<and> gone_owner tb (lab n)"
  have "moves (asked (or_reading (removes_free ?Q))) (gc_network d tb ms dry x)" if x: "x \<in> set ms" for x
    by (rule gc_network_asks) (use listed_managed [OF assms run x] missing_owner [OF x] in auto)
  then show "moves (asked (or_reading (removes_free ?Q))) (eff_bind (eff_each (gc_network d tb ms dry) ms) (\<lambda>os. eff_return
       (\<lparr>gr_dryRun = dry, gr_scannedCount = length ms, gr_orphans = concat os,
         gr_removedCount = length (filter (\<lambda>x. go_removed x = Some True) (concat os))\<rparr>,
        pruneOrphanedMemberships tb dry)))"
    by (intro asked.intros)
qed


section \<open>What a run collects\<close>

abbreviation info_labels :: "network_info \<Rightarrow> labels" where
  "info_labels i \<equiv> nullish (wi_Labels i) []"

abbreviation info_containers :: "network_info \<Rightarrow> (string \<times> string option) list" where
  "info_containers i \<equiv> nullish (wi_Containers i) []"

text \<open>
  A daemon that answers: its listing has exactly the managed networks, each once and with its
  labels, and removing a network that no container is on works, in time.
\<close>

definition lists_managed :: "'w docker \<Rightarrow> ('w \<Rightarrow> string \<Rightarrow> network_info option) \<Rightarrow> bool" where
  "lists_managed d nets \<longleftrightarrow>
     (\<forall>w. \<exists>xs v. dk_listNetworks d [(''mini-infra.managed'', ''true'')] w = (Inr xs, v) \<and> nets v = nets w \<and>
        distinct (map lw_Name xs) \<and>
        (\<forall>x \<in> set xs. \<exists>i. nets w (lw_Name x) = Some i \<and> info_labels i = nullish (lw_Labels x) []) \<and>
        (\<forall>n i. nets w n = Some i \<longrightarrow>
           (om_get (info_labels i) ''mini-infra.managed'' = Some ''true'' \<longleftrightarrow> n \<in> lw_Name ` set xs)))"

definition removes_networks :: "'w docker \<Rightarrow> ('w \<Rightarrow> string \<Rightarrow> network_info option) \<Rightarrow> bool" where
  "removes_networks d nets \<longleftrightarrow>
     (\<forall>c w. \<not> dk_late d c w) \<and>
     (\<forall>n w i. nets w n = Some i \<longrightarrow> info_containers i = [] \<longrightarrow>
        (\<exists>v. dk_removeNetwork d n w = (Inr (), v) \<and> nets v = (nets w)(n := None)))"

definition collecting :: "'w docker \<Rightarrow> ('w \<Rightarrow> string \<Rightarrow> network_info option) \<Rightarrow> bool" where
  "collecting d nets \<longleftrightarrow> answers_inspect d nets \<and> lists_managed d nets \<and> removes_networks d nets"

text \<open>A network that ought to go; the kinds of owner that the program labels networks with.\<close>

definition unwanted :: "net_tables \<Rightarrow> network_info \<Rightarrow> bool" where
  "unwanted tb i \<longleftrightarrow> om_get (info_labels i) ''mini-infra.managed'' = Some ''true'' \<and> gone_owner tb (info_labels i) \<and>
     info_containers i = []"

definition known_kind :: "labels \<Rightarrow> bool" where
  "known_kind ls \<longleftrightarrow> om_get ls ''mini-infra.owner-kind'' \<in> {None, Some ''host'', Some ''stack'', Some ''environment''}"

lemma present_inspect:
  assumes "answers_inspect d nets" and "view nets s n = Some i"
  shows "\<exists>t. nm_inspect d n s = (Inr (Some \<lparr>ir_name = nullish (wi_Name i) n, ir_id = wi_Id i, ir_driver = wi_Driver i,
      ir_labels = info_labels i, ir_ipam = wi_IPAM i, ir_connectedContainerIds = map fst (info_containers i)\<rparr>), t) \<and>
    view nets t = view nets s"
proof -
  from assms obtain v where v: "dk_inspectNetwork d n (ds_world s) = (Inr i, v)" "nets v = view nets s"
    by (force simp: answers_inspect_def split: option.splits)
  then show ?thesis
    by (simp add: nm_inspect_def inspect_network_def ask_def eff_catch_def eff_bind_def eff_return_def)
qed

lemma free_remove:
  assumes h: "collecting d nets" and n: "view nets s n = Some i" and free: "info_containers i = []"
  shows "\<exists>t. nm_remove d n False s = (Inr \<lparr>mr_name = n, mr_removed = True, mr_reason = None\<rparr>, t) \<and>
    view nets t = (view nets s)(n := None)"
proof -
  from h n obtain v where v: "dk_inspectNetwork d n (ds_world s) = (Inr i, v)" "nets v = view nets s"
    by (force simp: collecting_def answers_inspect_def split: option.splits)
  from h v(2) n free obtain u where u: "dk_removeNetwork d n v = (Inr (), u)" "nets u = (view nets s)(n := None)"
    unfolding collecting_def removes_networks_def by metis
  from h have late: "\<not> dk_late d c w" for c w by (simp add: collecting_def removes_networks_def)
  from v u free late show ?thesis
    by (simp add: nm_remove_def remove_call_def raceWithTimeout_def ask_def eff_try_def eff_catch_def eff_bind_def
        eff_then_def eff_return_def Let_def)
qed

lemma owner_gone_iff:
  assumes "x \<in> set ms" and "known_kind ls"
    and "mi_ownerKind x = nullish (om_get ls ''mini-infra.owner-kind'') ''host''" and "mi_ownerId x = om_get ls ''mini-infra.owner-id''"
  shows "ownerExists tb ms (mi_ownerKind x) (mi_ownerId x) \<longleftrightarrow> \<not> gone_owner tb ls"
proof
  show "\<not> gone_owner tb ls" if ex: "ownerExists tb ms (mi_ownerKind x) (mi_ownerId x)"
  proof
    assume "gone_owner tb ls"
    then obtain kind i where k: "om_get ls ''mini-infra.owner-kind'' = Some kind" "kind \<noteq> ''host''"
      "om_get ls ''mini-infra.owner-id'' = Some i" "i \<noteq> []"
      "kind = ''stack'' \<longrightarrow> i \<notin> set (tb_stacks tb)" "kind = ''environment'' \<longrightarrow> i \<notin> set (tb_environments tb)"
      by (auto simp: gone_owner_def)
    from assms(2) k(1,2) have "kind = ''stack'' \<or> kind = ''environment''" by (auto simp: known_kind_def)
    with ex k assms(3,4) show False
      by (auto simp: ownerExists_def existingStackIds_def existingEnvironmentIds_def)
  qed
qed (use missing_owner [OF assms(1) _ assms(3,4), of tb] in blast)

definition describes :: "managed_info \<Rightarrow> network_info \<Rightarrow> bool" where
  "describes x i \<longleftrightarrow> known_kind (info_labels i) \<and> om_get (info_labels i) ''mini-infra.managed'' = Some ''true'' \<and>
     mi_ownerKind x = nullish (om_get (info_labels i) ''mini-infra.owner-kind'') ''host'' \<and>
     mi_ownerId x = om_get (info_labels i) ''mini-infra.owner-id''"

lemma gc_network_run:
  assumes h: "collecting d nets" and x: "x \<in> set ms" and i: "view nets s (mi_name x) = Some i" "describes x i"
  shows "\<exists>os t. gc_network d tb ms False x s = (Inr os, t) \<and>
    view nets t = (if unwanted tb i then (view nets s)(mi_name x := None) else view nets s) \<and>
    length (filter (\<lambda>q. go_removed q = Some True) os) = (if unwanted tb i then 1 else 0)"
proof (cases "gone_owner tb (info_labels i)")
  case False
  with owner_gone_iff [OF x, of "info_labels i" tb] i(2) show ?thesis
    by (simp add: gc_network_def describes_def unwanted_def eff_return_def)
next
  case True
  with owner_gone_iff [OF x, of "info_labels i" tb] i(2)
  have gone: "\<not> ownerExists tb ms (mi_ownerKind x) (mi_ownerId x)" by (simp add: describes_def)
  from h have "answers_inspect d nets" by (simp add: collecting_def)
  from present_inspect [OF this i(1)] obtain u where u: "nm_inspect d (mi_name x) s =
      (Inr (Some \<lparr>ir_name = nullish (wi_Name i) (mi_name x), ir_id = wi_Id i, ir_driver = wi_Driver i,
      ir_labels = info_labels i, ir_ipam = wi_IPAM i, ir_connectedContainerIds = map fst (info_containers i)\<rparr>), u)"
    "view nets u = view nets s" by blast
  show ?thesis
  proof (cases "info_containers i = []")
    case empty: True
    from u(2) i(1) have "view nets u (mi_name x) = Some i" by simp
    from free_remove [OF h this empty] obtain t where
      "nm_remove d (mi_name x) False u = (Inr \<lparr>mr_name = mi_name x, mr_removed = True, mr_reason = None\<rparr>, t)"
      "view nets t = (view nets s)(mi_name x := None)" using u(2) by auto
    with u(1) gone empty True i(2) show ?thesis
      by (simp add: gc_network_def eff_try_def eff_bind_def eff_return_def Let_def unwanted_def describes_def gc_orphan_of_def)
  next
    case False
    with u gone show ?thesis
      by (simp add: gc_network_def eff_try_def eff_bind_def eff_return_def Let_def unwanted_def gc_orphan_of_def)
  qed
qed

definition collected :: "net_tables \<Rightarrow> (string \<Rightarrow> network_info option) \<Rightarrow> string \<Rightarrow> bool" where
  "collected tb now n \<longleftrightarrow> (\<exists>i. now n = Some i \<and> unwanted tb i)"

lemma gc_networks_run:
  assumes h: "collecting d nets"
  shows "distinct (map mi_name xs) \<Longrightarrow> set xs \<subseteq> set ms \<Longrightarrow>
    (\<And>x. x \<in> set xs \<Longrightarrow> \<exists>i. view nets s (mi_name x) = Some i \<and> describes x i) \<Longrightarrow>
    \<exists>os t. eff_each (gc_network d tb ms False) xs s = (Inr os, t) \<and>
      view nets t = (\<lambda>n. if n \<in> mi_name ` set xs \<and> collected tb (view nets s) n then None else view nets s n) \<and>
      length (filter (\<lambda>q. go_removed q = Some True) (concat os)) = length (filter (\<lambda>x. collected tb (view nets s) (mi_name x)) xs)"
proof (induction xs arbitrary: s)
  case Nil
  then show ?case by (simp add: eff_return_def)
next
  case (Cons x xs)
  from Cons.prems(3) obtain i where i: "view nets s (mi_name x) = Some i" "describes x i" by force
  from Cons.prems(2) have "x \<in> set ms" by simp
  from gc_network_run [OF h this i, of tb] obtain os u where
    u: "gc_network d tb ms False x s = (Inr os, u)"
      "view nets u = (if unwanted tb i then (view nets s)(mi_name x := None) else view nets s)"
      "length (filter (\<lambda>q. go_removed q = Some True) os) = (if unwanted tb i then 1 else 0)" by blast
  from Cons.prems(1) have not_again: "mi_name x \<notin> mi_name ` set xs" by simp
  have other: "view nets u (mi_name y) = view nets s (mi_name y)" if "y \<in> set xs" for y
    using u(2) not_again that by (auto simp: image_iff)
  have same: "collected tb (view nets u) (mi_name y) = collected tb (view nets s) (mi_name y)" if "y \<in> set xs" for y
    using other [OF that] by (simp add: collected_def)
  have "\<exists>os t. eff_each (gc_network d tb ms False) xs u = (Inr os, t) \<and>
      view nets t = (\<lambda>n. if n \<in> mi_name ` set xs \<and> collected tb (view nets u) n then None else view nets u n) \<and>
      length (filter (\<lambda>q. go_removed q = Some True) (concat os)) = length (filter (\<lambda>x. collected tb (view nets u) (mi_name x)) xs)"
    by (rule Cons.IH) (use Cons.prems other in auto)
  then obtain ps t where t: "eff_each (gc_network d tb ms False) xs u = (Inr ps, t)"
      "view nets t = (\<lambda>n. if n \<in> mi_name ` set xs \<and> collected tb (view nets u) n then None else view nets u n)"
      "length (filter (\<lambda>q. go_removed q = Some True) (concat ps)) = length (filter (\<lambda>x. collected tb (view nets u) (mi_name x)) xs)"
    by blast
  have here: "collected tb (view nets s) (mi_name x) \<longleftrightarrow> unwanted tb i" using i(1) by (simp add: collected_def)
  have "filter (\<lambda>x. collected tb (view nets u) (mi_name x)) xs = filter (\<lambda>x. collected tb (view nets s) (mi_name x)) xs"
    using same by (auto intro: filter_cong)
  with t(3) u(3) here have count: "length (filter (\<lambda>q. go_removed q = Some True) (concat (os # ps))) =
      length (filter (\<lambda>x. collected tb (view nets s) (mi_name x)) (x # xs))" by simp
  have "view nets t n = (if n \<in> mi_name ` set (x # xs) \<and> collected tb (view nets s) n then None else view nets s n)" for n
  proof (cases "n = mi_name x")
    case True
    with Cons.prems(1) have "n \<notin> mi_name ` set xs" by auto
    with True t(2) u(2) here show ?thesis by simp
  next
    case False
    then have "view nets u n = view nets s n" using u(2) by simp
    with False t(2) show ?thesis by (auto simp: collected_def)
  qed
  with u(1) t(1) count show ?case
    by (intro exI [of _ "os # ps"] exI [of _ t]) (auto simp: eff_bind_def eff_return_def)
qed


lemma listed_run:
  assumes "collecting d nets"
  shows "\<exists>ms t. listManaged d None None s = (Inr ms, t) \<and> view nets t = view nets s \<and> distinct (map mi_name ms) \<and>
    (\<forall>x \<in> set ms. \<exists>i. view nets s (mi_name x) = Some i \<and> om_get (info_labels i) ''mini-infra.managed'' = Some ''true'' \<and>
       mi_ownerKind x = nullish (om_get (info_labels i) ''mini-infra.owner-kind'') ''host'' \<and>
       mi_ownerId x = om_get (info_labels i) ''mini-infra.owner-id'') \<and>
    (\<forall>n. collected tb (view nets s) n \<longrightarrow> n \<in> mi_name ` set ms)"
proof -
  from assms obtain xs v where xs: "dk_listNetworks d [(''mini-infra.managed'', ''true'')] (ds_world s) = (Inr xs, v)" "nets v = view nets s"
    "distinct (map lw_Name xs)" "\<And>x. x \<in> set xs \<Longrightarrow> \<exists>i. view nets s (lw_Name x) = Some i \<and> info_labels i = nullish (lw_Labels x) []"
    "\<And>n i. view nets s n = Some i \<Longrightarrow> om_get (info_labels i) ''mini-infra.managed'' = Some ''true'' \<longleftrightarrow> n \<in> lw_Name ` set xs"
    unfolding collecting_def lists_managed_def by meson
  let ?ms = "map managed_network_info xs" let ?t = "s\<lparr>ds_world := v, ds_calls := ds_calls s @ [D_ListNetworks]\<rparr>"
  have name: "mi_name (managed_network_info x) = lw_Name x" for x by (simp add: managed_network_info_def Let_def)
  have "listManaged d None None s = (Inr ?ms, ?t)"
    using xs(1) by (simp add: listManaged_def eff_bind_def ask_def eff_return_def truthy_def)
  moreover have "\<exists>i. view nets s (mi_name y) = Some i \<and> om_get (info_labels i) ''mini-infra.managed'' = Some ''true'' \<and>
       mi_ownerKind y = nullish (om_get (info_labels i) ''mini-infra.owner-kind'') ''host'' \<and>
       mi_ownerId y = om_get (info_labels i) ''mini-infra.owner-id''" if "y \<in> set ?ms" for y
  proof -
    from that obtain x where x: "x \<in> set xs" "y = managed_network_info x" by auto
    from xs(4) [OF x(1)] obtain i where i: "view nets s (lw_Name x) = Some i" "info_labels i = nullish (lw_Labels x) []" by blast
    from xs(5) [OF i(1)] x(1) have "om_get (info_labels i) ''mini-infra.managed'' = Some ''true''" by blast
    with i x(2) show ?thesis by (intro exI [of _ i]) (simp add: managed_network_info_def Let_def)
  qed
  moreover have "n \<in> mi_name ` set ?ms" if "collected tb (view nets s) n" for n
  proof -
    from that obtain i where "view nets s n = Some i" "om_get (info_labels i) ''mini-infra.managed'' = Some ''true''"
      by (auto simp: collected_def unwanted_def)
    with xs(5) have "n \<in> lw_Name ` set xs" by blast
    then show ?thesis by (simp add: image_image name)
  qed
  ultimately show ?thesis
    using xs(2,3) by (intro exI [of _ ?ms] exI [of _ ?t] conjI ballI allI impI) (simp_all add: o_def name)
qed

section \<open>An example\<close>

text \<open>
  Networks of a stack that is there, of two that are gone (one with a container on it), and a foreign
  one; the listing has each name once.
\<close>

definition gc_labels :: "string \<Rightarrow> labels" where
  "gc_labels i = [(''mini-infra.managed'', ''true''), (''mini-infra.owner-kind'', ''stack''), (''mini-infra.owner-id'', i)]"

definition gc_world :: sample_world where
  "gc_world = [sample_network ''app_default'' (gc_labels ''s1'') [], sample_network ''gone_default'' (gc_labels ''s8'') [],
     sample_network ''busy_default'' (gc_labels ''s9'') [''0123456789abcdef''], sample_network ''other'' [] []]"

definition listed_once :: "sample_world \<Rightarrow> (string \<times> network_info) list" where
  "listed_once w = concat (map (\<lambda>n. case om_get w n of None \<Rightarrow> [] | Some i \<Rightarrow> [(n, i)]) (remdups (map fst w)))"

definition gc_docker :: "sample_world docker" where
  "gc_docker = (sample_docker [])\<lparr>dk_listNetworks := (\<lambda>ps w. (Inr (filter (\<lambda>x. carries ps (nullish (lw_Labels x) [])) (map sample_listing (listed_once w))), w))\<rparr>"

lemma listed_once_set: "(n, i) \<in> set (listed_once w) \<longleftrightarrow> om_get w n = Some i"
proof
  assume "om_get w n = Some i"
  then show "(n, i) \<in> set (listed_once w)"
    by (auto simp: listed_once_def intro!: rev_bexI [OF map_of_SomeD])
qed (auto simp: listed_once_def split: option.splits)

lemma listed_once_names: "map fst (listed_once w) = remdups (map fst w)"
proof -
  have "set ns \<subseteq> fst ` set w \<Longrightarrow>
      map fst (concat (map (\<lambda>n. case om_get w n of None \<Rightarrow> [] | Some i \<Rightarrow> [(n, i)]) ns)) = ns" for ns
    by (induction ns) (auto split: option.split simp: map_of_eq_None_iff)
  then show ?thesis by (simp add: listed_once_def)
qed

lemma gc_docker_collecting: "collecting gc_docker om_get"
proof -
  have "answers_inspect gc_docker om_get"
    by (auto simp: answers_inspect_def gc_docker_def sample_defs sample_error_def not_found_def split: option.split)
  moreover have "lists_managed gc_docker om_get"
    unfolding lists_managed_def
  proof (intro allI exI conjI)
    fix w :: sample_world
    let ?p = "\<lambda>x. carries [(''mini-infra.managed'', ''true'')] (nullish (lw_Labels x) [])"
    let ?xs = "filter ?p (map sample_listing (listed_once w))"
    show "dk_listNetworks gc_docker [(''mini-infra.managed'', ''true'')] w = (Inr ?xs, w)" by (simp add: gc_docker_def)
    have "map lw_Name (map sample_listing (listed_once w)) = remdups (map fst w)"
      using listed_once_names [of w] by (simp add: sample_listing_def o_def)
    then show "distinct (map lw_Name ?xs)" by (metis distinct_map_filter distinct_remdups)
    show "\<forall>x \<in> set ?xs. \<exists>i. om_get w (lw_Name x) = Some i \<and> info_labels i = nullish (lw_Labels x) []"
      by (auto simp: sample_listing_def listed_once_set)
    show "om_get w n = Some i \<longrightarrow> (om_get (info_labels i) ''mini-infra.managed'' = Some ''true'' \<longleftrightarrow> n \<in> lw_Name ` set ?xs)" for n i
    proof
      assume i: "om_get w n = Some i"
      have "n \<in> lw_Name ` set ?xs" if "om_get (info_labels i) ''mini-infra.managed'' = Some ''true''"
      proof (rule image_eqI [of _ _ "sample_listing (n, i)"])
        show "sample_listing (n, i) \<in> set ?xs"
          using i that listed_once_set [of n i w] imageI [of "(n, i)" "set (listed_once w)" sample_listing]
          by (simp add: carries_def) (simp add: sample_listing_def)
      qed (simp add: sample_listing_def)
      moreover have "om_get (info_labels i) ''mini-infra.managed'' = Some ''true''" if n: "n \<in> lw_Name ` set ?xs"
      proof -
        from n obtain x where x: "x \<in> set ?xs" "n = lw_Name x" by blast
        then obtain m j where j: "(m, j) \<in> set (listed_once w)" "x = sample_listing (m, j)" by auto
        with x i have "j = i" by (simp add: listed_once_set sample_listing_def)
        with x(1) j(2) show ?thesis by (simp add: sample_listing_def carries_def)
      qed
      ultimately show "om_get (info_labels i) ''mini-infra.managed'' = Some ''true'' \<longleftrightarrow> n \<in> lw_Name ` set ?xs" by blast
    qed
  qed simp
  moreover have "removes_networks gc_docker om_get"
    by (auto simp: removes_networks_def gc_docker_def sample_defs)
  ultimately show ?thesis by (simp add: collecting_def)
qed

section \<open>Properties\<close>

text \<open>C26: collecting asks for nothing but reading and the removal of networks, and of no network but one
  that its labels say the program manages for a stack or an environment the database does not
  have (or for an owner of a kind it does not know); a dry run, as every tick of the timer is,
  removes nothing. Whether the run returns or fails.\<close>

theorem gc_removes_only_gone:
  assumes "keeps_labels d lab" and "runNetworkGc d tb dry s = (r, t)"
  shows "\<exists>cs. ds_calls t = ds_calls s @ cs \<and>
    (\<forall>c \<in> set cs. reading_call c \<or> (\<exists>n. c = D_RemoveNetwork n \<and> \<not> dry \<and>
       om_get (lab n) ''mini-infra.managed'' = Some ''true'' \<and> gone_owner tb (lab n)))"
proof -
  from movesD [OF gc_asks [OF assms(1)] assms(2)] obtain cs where cs: "ds_calls t = ds_calls s @ cs"
    "list_all (or_reading (removes_free (\<lambda>n. \<not> dry \<and> om_get (lab n) ''mini-infra.managed'' = Some ''true'' \<and> gone_owner tb (lab n)))) cs"
    by (auto simp: asked_def)
  then show ?thesis
    by (intro exI [of _ cs]) (fastforce simp: list_all_iff or_reading_def dest: removes_freeD)
qed

text \<open>C11: on a host whose daemon answers, a run that is not dry removes exactly the managed networks
  whose owner is gone and that no container is on, and reports how many; every other network stays
  as it is. Of the membership rows it deletes exactly those whose service is gone.\<close>

theorem gc_collects:
  assumes h: "collecting d nets" and kinds: "\<forall>n i. nets (ds_world s) n = Some i \<longrightarrow> known_kind (info_labels i)"
  shows "\<exists>rep tb' t. runNetworkGc d tb False s = (Inr (rep, tb'), t) \<and>
    (\<forall>n. nets (ds_world t) n = (if collected tb (nets (ds_world s)) n then None else nets (ds_world s) n)) \<and>
    gr_removedCount rep = card {n. collected tb (nets (ds_world s)) n} \<and>
    set (db_memberships (tb_net tb')) = {m \<in> set (db_memberships (tb_net tb)). \<not> orphan_membership tb m}"
proof -
  from listed_run [OF h, of s tb] obtain ms u where ms: "listManaged d None None s = (Inr ms, u)" "view nets u = view nets s"
    "distinct (map mi_name ms)" "\<And>n. collected tb (view nets s) n \<Longrightarrow> n \<in> mi_name ` set ms"
    and listed: "\<And>x. x \<in> set ms \<Longrightarrow> \<exists>i. view nets s (mi_name x) = Some i \<and> om_get (info_labels i) ''mini-infra.managed'' = Some ''true'' \<and>
       mi_ownerKind x = nullish (om_get (info_labels i) ''mini-infra.owner-kind'') ''host'' \<and>
       mi_ownerId x = om_get (info_labels i) ''mini-infra.owner-id''" by metis
  have "\<exists>i. view nets u (mi_name x) = Some i \<and> describes x i" if "x \<in> set ms" for x
    using listed [OF that] kinds by (auto simp: ms(2) describes_def)
  from gc_networks_run [OF h ms(3) order.refl this, of tb] obtain os t where
    run: "eff_each (gc_network d tb ms False) ms u = (Inr os, t)"
      "view nets t = (\<lambda>n. if n \<in> mi_name ` set ms \<and> collected tb (view nets u) n then None else view nets u n)"
      "length (filter (\<lambda>q. go_removed q = Some True) (concat os)) = length (filter (\<lambda>x. collected tb (view nets u) (mi_name x)) ms)"
    by blast
  have "length (filter (\<lambda>x. collected tb (view nets s) (mi_name x)) ms) = card (mi_name ` set (filter (\<lambda>x. collected tb (view nets s) (mi_name x)) ms))"
    using distinct_card [of "map mi_name (filter (\<lambda>x. collected tb (view nets s) (mi_name x)) ms)"] distinct_map_filter [OF ms(3)] by simp
  also have "mi_name ` set (filter (\<lambda>x. collected tb (view nets s) (mi_name x)) ms) = {n. collected tb (view nets s) n}"
    using ms(4) by auto
  finally have count: "length (filter (\<lambda>q. go_removed q = Some True) (concat os)) = card {n. collected tb (view nets s) n}"
    using run(3) ms(2) by simp
  let ?rep = "\<lparr>gr_dryRun = False, gr_scannedCount = length ms, gr_orphans = concat os,
    gr_removedCount = length (filter (\<lambda>q. go_removed q = Some True) (concat os))\<rparr>"
  have "runNetworkGc d tb False s = (Inr (?rep, pruneOrphanedMemberships tb False), t)"
    using ms(1) run(1) by (simp add: runNetworkGc_def eff_bind_def eff_return_def)
  moreover have "view nets t n = (if collected tb (view nets s) n then None else view nets s n)" for n
    using run(2) ms(2,4) by auto
  moreover have "set (db_memberships (tb_net (pruneOrphanedMemberships tb False))) =
      {m \<in> set (db_memberships (tb_net tb)). \<not> orphan_membership tb m}" by (auto simp: pruneOrphanedMemberships_def)
  ultimately show ?thesis
    using count by (intro exI [of _ ?rep] exI [of _ "pruneOrphanedMemberships tb False"] exI [of _ t] conjI allI) simp_all
qed

theorem gc_collects_witness:
  "\<exists>rep tb' t. runNetworkGc gc_docker (sample_tables False) False (sample_start gc_world) = (Inr (rep, tb'), t) \<and>
     map fst (ds_world t) = [''app_default'', ''busy_default'', ''other''] \<and>
     gr_removedCount rep = 1 \<and> card {n. collected (sample_tables False) (om_get gc_world) n} = 1 \<and>
     om_get (ds_world t) ''gone_default'' = None \<and>
     (\<forall>n. n \<noteq> ''gone_default'' \<longrightarrow> om_get (ds_world t) n = om_get gc_world n)"
proof -
  let ?run = "runNetworkGc gc_docker (sample_tables False) False (sample_start gc_world)"
  have kinds: "\<forall>n i. om_get (ds_world (sample_start gc_world)) n = Some i \<longrightarrow> known_kind (info_labels i)"
    by (auto simp: sample_start_def gc_world_def sample_network_def known_kind_def gc_labels_def split: if_splits)
  have who: "collected (sample_tables False) (om_get gc_world) n \<longleftrightarrow> n = ''gone_default''" for n
    by (auto simp: collected_def unwanted_def gone_owner_def gc_world_def sample_network_def gc_labels_def sample_tables_def)
  have start: "ds_world (sample_start gc_world) = gc_world" by (simp add: sample_start_def)
  from gc_collects [OF gc_docker_collecting kinds, where tb = "sample_tables False"] obtain rep tb' t where
    run: "?run = (Inr (rep, tb'), t)"
      "\<And>n. om_get (ds_world t) n = (if collected (sample_tables False) (om_get gc_world) n then None else om_get gc_world n)"
      "gr_removedCount rep = card {n. collected (sample_tables False) (om_get gc_world) n}"
    unfolding start by blast
  have "case ?run of (q, u) \<Rightarrow> map fst (ds_world u) = [''app_default'', ''busy_default'', ''other'']" by code_simp
  with run who show ?thesis by (intro exI [of _ rep] exI [of _ tb'] exI [of _ t] conjI allI impI) simp_all
qed

theorem gc_removes_only_gone_witness:
  "\<exists>r t cs. runNetworkGc labelled_docker ((sample_tables False)\<lparr>tb_stacks := [''s2'']\<rparr>) False
       (sample_start (map (\<lambda>n. sample_network n [] []) [''app_default'', ''app_data'', ''old_net''])) = (r, t) \<and>
     ds_calls t = cs \<and> D_RemoveNetwork ''app_default'' \<in> set cs \<and>
     gone_owner ((sample_tables False)\<lparr>tb_stacks := [''s2'']\<rparr>) (sample_labels ''app_default'') \<and>
     D_RemoveNetwork ''app_data'' \<notin> set cs \<and> D_RemoveNetwork ''old_net'' \<notin> set cs"
proof -
  let ?tb = "(sample_tables False)\<lparr>tb_stacks := [''s2'']\<rparr>"
  let ?run = "runNetworkGc labelled_docker ?tb False
    (sample_start (map (\<lambda>n. sample_network n [] []) [''app_default'', ''app_data'', ''old_net'']))"
  obtain r t where run: "?run = (r, t)" by (cases ?run)
  have "D_RemoveNetwork ''app_default'' \<in> set (ds_calls (snd ?run))" by code_simp
  with run have asked: "D_RemoveNetwork ''app_default'' \<in> set (ds_calls t)" by simp
  from gc_removes_only_gone [OF labelled_docker_keeps run] have only: "n = ''app_default'' \<and> gone_owner ?tb (sample_labels n)"
    if "D_RemoveNetwork n \<in> set (ds_calls t)" for n
    using that by (fastforce simp: sample_start_def sample_labels_def ownerLabels_def scope_string_def gone_owner_def split: if_splits)
  from run asked only [OF asked] only [of "''app_data''"] only [of "''old_net''"] show ?thesis
    by (intro exI [of _ r] exI [of _ t] exI [of _ "ds_calls t"] conjI) auto
qed

end
