(* ===== verification/ConvergenceScheduler.thy ===== *)
theory ConvergenceScheduler
  imports NetworkConverge
begin

text \<open>
  \<open>networks/network-convergence-scheduler.ts\<close>: when the sweeps of the converger run. The timers are
  the times they are due; Node fires one at that time or later, which a step of the event loop
  chooses. What was triggered and swept is kept in a log, latest first. A lookup of a network's row is in
  flight until the database answers. Logging is left out.
\<close>

section \<open>The scheduler\<close>

datatype sweep_scope = On_stack string | On_environment string | On_container string | On_all

datatype sweep_entry =
    Triggered sweep_scope int
  | Swept sweep_scope int
  | Ticked int
  | Stopped int

record sweep_config =
  sg_intervalMs :: int
  sg_debounceMs :: int
  sg_self :: "string option"

record sweep_state =
  sw_now :: int
  sw_running :: bool
  sw_interval :: "int option"
  sw_pendingStacks :: "(string \<times> int) list"
  sw_pendingEnvironments :: "(string \<times> int) list"
  sw_pendingContainers :: "(string \<times> int) list"
  sw_pendingAll :: "int option"
  sw_lookups :: "string list"
  sw_log :: "sweep_entry list"

definition sweep_initial :: "int \<Rightarrow> sweep_state" where
  "sweep_initial now = \<lparr>sw_now = now, sw_running = False, sw_interval = None, sw_pendingStacks = [],
     sw_pendingEnvironments = [], sw_pendingContainers = [], sw_pendingAll = None, sw_lookups = [], sw_log = []\<rparr>"

definition sweep_note :: "sweep_entry \<Rightarrow> sweep_state \<Rightarrow> sweep_state" where
  "sweep_note e s = s\<lparr>sw_log := e # sw_log s\<rparr>"

definition sweep_start :: "sweep_config \<Rightarrow> sweep_state \<Rightarrow> sweep_state" where
  "sweep_start g s =
     (if sw_running s then s
      else s\<lparr>sw_running := True, sw_interval := Some (sw_now s + sg_intervalMs g)\<rparr>)"

definition sweep_stop :: "sweep_state \<Rightarrow> sweep_state" where
  "sweep_stop s = sweep_note (Stopped (sw_now s))
     (s\<lparr>sw_interval := None, sw_pendingStacks := [], sw_pendingEnvironments := [], sw_pendingContainers := [],
        sw_pendingAll := None, sw_running := False\<rparr>)"

definition due :: "sweep_config \<Rightarrow> sweep_state \<Rightarrow> int" where
  "due g s = sw_now s + sg_debounceMs g"

definition scheduleStackConverge :: "sweep_config \<Rightarrow> string \<Rightarrow> sweep_state \<Rightarrow> sweep_state" where
  "scheduleStackConverge g i s = sweep_note (Triggered (On_stack i) (sw_now s))
     (s\<lparr>sw_pendingStacks := om_set i (due g s) (sw_pendingStacks s)\<rparr>)"

definition scheduleEnvironmentConverge :: "sweep_config \<Rightarrow> string \<Rightarrow> sweep_state \<Rightarrow> sweep_state" where
  "scheduleEnvironmentConverge g i s = sweep_note (Triggered (On_environment i) (sw_now s))
     (s\<lparr>sw_pendingEnvironments := om_set i (due g s) (sw_pendingEnvironments s)\<rparr>)"

definition scheduleContainerConverge :: "sweep_config \<Rightarrow> string \<Rightarrow> sweep_state \<Rightarrow> sweep_state" where
  "scheduleContainerConverge g i s = sweep_note (Triggered (On_container i) (sw_now s))
     (s\<lparr>sw_pendingContainers := om_set i (due g s) (sw_pendingContainers s)\<rparr>)"

definition scheduleFullConverge :: "sweep_config \<Rightarrow> sweep_state \<Rightarrow> sweep_state" where
  "scheduleFullConverge g s = sweep_note (Triggered On_all (sw_now s)) (s\<lparr>sw_pendingAll := Some (due g s)\<rparr>)"

text \<open>Docker's events.\<close>

record container_event =
  ce_action :: string
  ce_labels :: "labels option"
  ce_containerId :: string

definition handleContainerEvent :: "sweep_config \<Rightarrow> container_event \<Rightarrow> sweep_state \<Rightarrow> sweep_state" where
  "handleContainerEvent g e s =
     (if ce_action e \<noteq> ''start'' then s
      else if \<not> truthy (om_get (nullish (ce_labels e) []) ''mini-infra.stack-id'') \<and> sg_self g \<noteq> Some (ce_containerId e) then s
      else scheduleContainerConverge g (ce_containerId e) s)"

definition handleNetworkEvent :: "string option \<Rightarrow> sweep_state \<Rightarrow> sweep_state" where
  "handleNetworkEvent name s =
     (if truthy name then s\<lparr>sw_lookups := sw_lookups s @ [nullish name []]\<rparr> else s)"

text \<open>The answer of the database, which may be an error.\<close>

definition network_looked_up :: "sweep_config \<Rightarrow> (unit + network_identity option) \<Rightarrow> sweep_state \<Rightarrow> sweep_state" where
  "network_looked_up g answer s =
     (case answer of
        Inr (Some row) \<Rightarrow>
          (if ni_scope row = Sc_stack \<and> truthy (ni_stackId row) then scheduleStackConverge g (nullish (ni_stackId row) []) s
           else if ni_scope row = Sc_environment \<and> truthy (ni_environmentId row)
           then scheduleEnvironmentConverge g (nullish (ni_environmentId row) []) s
           else scheduleFullConverge g s)
      | _ \<Rightarrow> s)"

text \<open>A timer that fires forgets itself first, then sweeps; the interval is armed again.\<close>

definition sweep_pending :: "sweep_scope \<Rightarrow> sweep_state \<Rightarrow> int option" where
  "sweep_pending x s = (case x of
     On_stack i \<Rightarrow> om_get (sw_pendingStacks s) i
   | On_environment i \<Rightarrow> om_get (sw_pendingEnvironments s) i
   | On_container i \<Rightarrow> om_get (sw_pendingContainers s) i
   | On_all \<Rightarrow> sw_pendingAll s)"

definition sweep_forget :: "sweep_scope \<Rightarrow> sweep_state \<Rightarrow> sweep_state" where
  "sweep_forget x s = (case x of
     On_stack i \<Rightarrow> s\<lparr>sw_pendingStacks := om_delete i (sw_pendingStacks s)\<rparr>
   | On_environment i \<Rightarrow> s\<lparr>sw_pendingEnvironments := om_delete i (sw_pendingEnvironments s)\<rparr>
   | On_container i \<Rightarrow> s\<lparr>sw_pendingContainers := om_delete i (sw_pendingContainers s)\<rparr>
   | On_all \<Rightarrow> s\<lparr>sw_pendingAll := None\<rparr>)"

definition sweep_fire :: "sweep_scope \<Rightarrow> sweep_state \<Rightarrow> sweep_state" where
  "sweep_fire x s = sweep_note (Swept x (sw_now s)) (sweep_forget x s)"

definition interval_fire :: "sweep_config \<Rightarrow> sweep_state \<Rightarrow> sweep_state" where
  "interval_fire g s = sweep_note (Ticked (sw_now s)) (s\<lparr>sw_interval := Some (sw_now s + sg_intervalMs g)\<rparr>)"

section \<open>The event loop\<close>

datatype sweep_event =
    Time_passes int
  | Start_scheduler
  | Stop_scheduler
  | Container_event container_event
  | Network_event "string option"
  | Network_looked_up string "unit + network_identity option"
  | Timer_fires sweep_scope
  | Interval_fires

inductive sweep_step :: "sweep_config \<Rightarrow> sweep_state \<Rightarrow> sweep_event \<Rightarrow> sweep_state \<Rightarrow> bool" for g :: sweep_config where
  time: "0 \<le> k \<Longrightarrow> sweep_step g s (Time_passes k) (s\<lparr>sw_now := sw_now s + k\<rparr>)"
| start: "sweep_step g s Start_scheduler (sweep_start g s)"
| stop: "sweep_step g s Stop_scheduler (sweep_stop s)"
| container: "sweep_step g s (Container_event e) (handleContainerEvent g e s)"
| network: "sweep_step g s (Network_event n) (handleNetworkEvent n s)"
| looked_up: "n \<in> set (sw_lookups s) \<Longrightarrow>
    sweep_step g s (Network_looked_up n a) (network_looked_up g a (s\<lparr>sw_lookups := remove1 n (sw_lookups s)\<rparr>))"
| timer: "sweep_pending x s = Some k \<Longrightarrow> k \<le> sw_now s \<Longrightarrow> sweep_step g s (Timer_fires x) (sweep_fire x s)"
| interval: "sw_interval s = Some k \<Longrightarrow> k \<le> sw_now s \<Longrightarrow> sweep_step g s Interval_fires (interval_fire g s)"

inductive_cases sweep_stepE: "sweep_step g s e t"

inductive sweep_run :: "sweep_config \<Rightarrow> sweep_state \<Rightarrow> sweep_event list \<Rightarrow> sweep_state \<Rightarrow> bool" for g :: sweep_config and s :: sweep_state where
  run_nil: "sweep_run g s [] s"
| run_snoc: "sweep_run g s es t \<Longrightarrow> sweep_step g t e u \<Longrightarrow> sweep_run g s (es @ [e]) u"

section \<open>What a sweep does\<close>

text \<open>The body of a timer: with no connection it does nothing; a sweep that fails is only logged.\<close>

definition run_sweep :: "'w docker \<Rightarrow> sweep_config \<Rightarrow> net_tables \<Rightarrow> bool \<Rightarrow> sweep_scope \<Rightarrow> ('w, converge_result option) docker_op" where
  "run_sweep d g tb reachable x =
     (if \<not> reachable then eff_return None
      else eff_bind
        (eff_try (case x of
           On_stack i \<Rightarrow> convergeStack d (sg_self g) tb i
         | On_environment i \<Rightarrow> convergeEnvironment d (sg_self g) tb i
         | On_container i \<Rightarrow> convergeContainer d (sg_self g) tb i
         | On_all \<Rightarrow> convergeAll d (sg_self g) tb))
        (\<lambda>r. eff_return (case r of Inl _ \<Rightarrow> None | Inr y \<Rightarrow> Some y)))"

lemma run_sweep_total: "eff_total (run_sweep d g tb reachable x)"
  by (auto simp: run_sweep_def intro!: eff_total_bind)

section \<open>The timers and the log\<close>

text \<open>The entries that settle what is due for a scope, and what is due after a log.\<close>

fun settles :: "sweep_scope \<Rightarrow> sweep_entry \<Rightarrow> bool" where
  "settles x (Triggered y t) \<longleftrightarrow> y = x"
| "settles x (Swept y t) \<longleftrightarrow> y = x"
| "settles x (Ticked t) \<longleftrightarrow> False"
| "settles x (Stopped t) \<longleftrightarrow> True"

fun due_after :: "sweep_config \<Rightarrow> sweep_scope \<Rightarrow> sweep_entry list \<Rightarrow> int option" where
  "due_after g x [] = None"
| "due_after g x (e # es) =
     (if \<not> settles x e then due_after g x es
      else case e of Triggered y t \<Rightarrow> Some (t + sg_debounceMs g) | _ \<Rightarrow> None)"

lemma due_after_Some:
  "due_after g x es = Some k \<longleftrightarrow>
   (\<exists>bs u as. es = bs @ Triggered x u # as \<and> k = u + sg_debounceMs g \<and> list_all (\<lambda>e. \<not> settles x e) bs)"
proof (induction es)
  case (Cons e es)
  show ?case
  proof (cases "settles x e")
    case False
    then have "due_after g x (e # es) = due_after g x es" by simp
    moreover have "(\<exists>bs u as. e # es = bs @ Triggered x u # as \<and> k = u + sg_debounceMs g \<and> list_all (\<lambda>e. \<not> settles x e) bs) \<longleftrightarrow>
      (\<exists>bs u as. es = bs @ Triggered x u # as \<and> k = u + sg_debounceMs g \<and> list_all (\<lambda>e. \<not> settles x e) bs)" (is "?l \<longleftrightarrow> ?r")
    proof
      assume ?l
      then obtain bs u as where l: "e # es = bs @ Triggered x u # as" "k = u + sg_debounceMs g" "list_all (\<lambda>e. \<not> settles x e) bs" by blast
      with False obtain bs' where "bs = e # bs'" by (cases bs) auto
      with l show ?r by auto
    next
      assume ?r
      then obtain bs u as where "es = bs @ Triggered x u # as" "k = u + sg_debounceMs g" "list_all (\<lambda>e. \<not> settles x e) bs" by blast
      with False show ?l by (intro exI [of _ "e # bs"] exI [of _ u] exI [of _ as]) simp
    qed
    ultimately show ?thesis using Cons.IH by simp
  next
    case True
    have "(\<exists>bs u as. e # es = bs @ Triggered x u # as \<and> k = u + sg_debounceMs g \<and> list_all (\<lambda>e. \<not> settles x e) bs) \<longleftrightarrow>
      (\<exists>u. e = Triggered x u \<and> k = u + sg_debounceMs g)" (is "?l \<longleftrightarrow> ?r")
    proof
      assume ?l
      then obtain bs u as where l: "e # es = bs @ Triggered x u # as" "k = u + sg_debounceMs g" "list_all (\<lambda>e. \<not> settles x e) bs" by blast
      with True have "bs = []" by (cases bs) auto
      with l show ?r by simp
    next
      assume ?r then show ?l by (metis append_Nil list.pred_inject(1))
    qed
    with True show ?thesis by (auto split: sweep_entry.splits)
  qed
qed simp

fun entry_time :: "sweep_entry \<Rightarrow> int" where
  "entry_time (Triggered x t) = t"
| "entry_time (Swept x t) = t"
| "entry_time (Ticked t) = t"
| "entry_time (Stopped t) = t"

text \<open>Every sweep of a timer was due, and the times do not go back.\<close>

fun log_ok :: "sweep_config \<Rightarrow> sweep_entry list \<Rightarrow> bool" where
  "log_ok g [] \<longleftrightarrow> True"
| "log_ok g (e # es) \<longleftrightarrow> log_ok g es \<and> list_all (\<lambda>e'. entry_time e' \<le> entry_time e) es \<and>
     (case e of Swept x t \<Rightarrow> (\<exists>k. due_after g x es = Some k \<and> k \<le> t) | _ \<Rightarrow> True)"

definition sweep_inv :: "sweep_config \<Rightarrow> sweep_state \<Rightarrow> bool" where
  "sweep_inv g s \<longleftrightarrow> log_ok g (sw_log s) \<and> list_all (\<lambda>e. entry_time e \<le> sw_now s) (sw_log s) \<and>
     (\<forall>x. sweep_pending x s = due_after g x (sw_log s))"


lemma sweep_inv_note:
  assumes "sweep_inv g s" and "entry_time e = sw_now s" and "sw_log t = e # sw_log s" and "sw_now t = sw_now s"
    and "\<And>x k. e = Swept x k \<Longrightarrow> \<exists>k'. sweep_pending x s = Some k' \<and> k' \<le> k"
    and "\<And>x. sweep_pending x t = due_after g x (e # sw_log s)"
  shows "sweep_inv g t"
  using assms by (auto simp: sweep_inv_def split: sweep_entry.split)

lemma sweep_inv_same:
  assumes "sweep_inv g s" and "sw_log t = sw_log s" and "sw_now s \<le> sw_now t" and "\<And>x. sweep_pending x t = sweep_pending x s"
  shows "sweep_inv g t"
  using assms by (auto simp: sweep_inv_def list_all_iff intro: order_trans)

lemmas schedule_defs = scheduleStackConverge_def scheduleEnvironmentConverge_def scheduleContainerConverge_def
  scheduleFullConverge_def sweep_note_def due_def

lemma schedule_inv:
  assumes "sweep_inv g s"
  shows "sweep_inv g (scheduleStackConverge g i s)" and "sweep_inv g (scheduleEnvironmentConverge g i s)"
    and "sweep_inv g (scheduleContainerConverge g i s)" and "sweep_inv g (scheduleFullConverge g s)"
proof -
  have p: "sweep_pending x s = due_after g x (sw_log s)" for x using assms by (simp add: sweep_inv_def)
  note [simp] = p [symmetric]
  show "sweep_inv g (scheduleStackConverge g i s)"
    by (rule sweep_inv_note [OF assms, where e = "Triggered (On_stack i) (sw_now s)"])
       (auto simp: schedule_defs sweep_pending_def split: sweep_scope.splits)
  show "sweep_inv g (scheduleEnvironmentConverge g i s)"
    by (rule sweep_inv_note [OF assms, where e = "Triggered (On_environment i) (sw_now s)"])
       (auto simp: schedule_defs sweep_pending_def split: sweep_scope.splits)
  show "sweep_inv g (scheduleContainerConverge g i s)"
    by (rule sweep_inv_note [OF assms, where e = "Triggered (On_container i) (sw_now s)"])
       (auto simp: schedule_defs sweep_pending_def split: sweep_scope.splits)
  show "sweep_inv g (scheduleFullConverge g s)"
    by (rule sweep_inv_note [OF assms, where e = "Triggered On_all (sw_now s)"])
       (auto simp: schedule_defs sweep_pending_def split: sweep_scope.splits)
qed

lemma stop_inv: "sweep_inv g s \<Longrightarrow> sweep_inv g (sweep_stop s)"
  by (rule sweep_inv_note [where s = s and e = "Stopped (sw_now s)"])
     (auto simp: sweep_stop_def sweep_note_def sweep_pending_def split: sweep_scope.splits)

lemma fire_inv:
  assumes "sweep_inv g s" and "sweep_pending x s = Some k" and "k \<le> sw_now s"
  shows "sweep_inv g (sweep_fire x s)"
proof (rule sweep_inv_note [OF assms(1), where e = "Swept x (sw_now s)"])
  have p: "sweep_pending y s = due_after g y (sw_log s)" for y using assms(1) by (simp add: sweep_inv_def)
  show "sweep_pending y (sweep_fire x s) = due_after g y (Swept x (sw_now s) # sw_log s)" for y
    using p [of y, symmetric] by (cases x; cases y) (simp_all add: sweep_fire_def sweep_note_def sweep_forget_def sweep_pending_def)
qed (use assms in \<open>auto simp: sweep_fire_def sweep_note_def sweep_forget_def split: sweep_scope.splits\<close>)

lemma tick_inv: "sweep_inv g s \<Longrightarrow> sweep_inv g (interval_fire g s)"
  by (rule sweep_inv_note [where s = s and e = "Ticked (sw_now s)"])
     (auto simp: interval_fire_def sweep_note_def sweep_pending_def sweep_inv_def split: sweep_scope.splits)

lemma step_inv: "sweep_step g s e t \<Longrightarrow> sweep_inv g s \<Longrightarrow> sweep_inv g t"
proof (induction rule: sweep_step.induct)
  case (looked_up n s a)
  have "sweep_inv g (s\<lparr>sw_lookups := remove1 n (sw_lookups s)\<rparr>)"
    by (rule sweep_inv_same [OF looked_up.prems]) (simp_all add: sweep_pending_def split: sweep_scope.split)
  then show ?case by (auto simp: network_looked_up_def intro: schedule_inv split: sum.split option.split)
next
  case (time k s)
  from sweep_inv_same [OF time.prems] time.hyps show ?case by (simp add: sweep_pending_def split: sweep_scope.split)
next
  case (start s)
  from sweep_inv_same [OF start.prems] show ?case by (simp add: sweep_start_def sweep_pending_def split: sweep_scope.split)
next
  case (network s n)
  from sweep_inv_same [OF network.prems] show ?case by (simp add: handleNetworkEvent_def sweep_pending_def split: sweep_scope.split)
qed (auto simp: handleContainerEvent_def intro: schedule_inv stop_inv fire_inv tick_inv)

lemma initial_inv: "sweep_inv g (sweep_initial now)"
  by (simp add: sweep_inv_def sweep_initial_def sweep_pending_def split: sweep_scope.split)

lemma run_inv: "sweep_run g (sweep_initial now) es s \<Longrightarrow> sweep_inv g s"
  by (induction rule: sweep_run.induct) (auto intro: initial_inv step_inv)

lemma log_ok_suffix: "log_ok g (bs @ es) \<Longrightarrow> log_ok g es"
  by (induction bs) auto

section \<open>Properties\<close>

text \<open>C23: the sweeps are debounced. Whatever events come and however late timers fire, a sweep of a scope
  follows the last trigger of that scope by at least the debounce time, with no stop and no other
  sweep of it in between; so two sweeps of one scope that events caused are at least the debounce
  time apart.\<close>

theorem sweeps_debounced:
  assumes "sweep_run g (sweep_initial now) es s" and "sw_log s = later @ Swept x t # log"
  shows "(\<exists>bs u as. log = bs @ Triggered x u # as \<and> u + sg_debounceMs g \<le> t \<and> list_all (\<lambda>e. \<not> settles x e) bs) \<and>
    (\<forall>t'. Swept x t' \<in> set log \<longrightarrow> t' + sg_debounceMs g \<le> t)"
proof -
  from run_inv [OF assms(1)] assms(2) have ok: "log_ok g (Swept x t # log)"
    using log_ok_suffix by (metis sweep_inv_def)
  then obtain k where k: "due_after g x log = Some k" "k \<le> t" by auto
  then obtain bs u as where log: "log = bs @ Triggered x u # as" "k = u + sg_debounceMs g" "list_all (\<lambda>e. \<not> settles x e) bs"
    by (auto simp: due_after_Some)
  have "t' + sg_debounceMs g \<le> t" if sw: "Swept x t' \<in> set log" for t'
  proof -
    from sw log(1,3) have "Swept x t' \<in> set as" by (auto simp: list_all_iff)
    moreover from ok log(1) have "log_ok g (Triggered x u # as)" using log_ok_suffix [of g bs "Triggered x u # as"] by simp
    ultimately have "t' \<le> u" by (auto simp: list_all_iff)
    with log(2) k(2) show ?thesis by simp
  qed
  with log k(2) show ?thesis by blast
qed

text \<open>C28: no trigger is lost. If the last thing that happened to a scope is a trigger, its timer is armed
  for the debounce time after it; once that has passed the timer can fire, and then the sweep is the
  next entry of the log.\<close>

theorem triggers_served:
  assumes "sweep_run g (sweep_initial now) es s" and "sw_log s = later @ Triggered x u # log"
    and "list_all (\<lambda>e. \<not> settles x e) later"
  shows "sweep_pending x s = Some (u + sg_debounceMs g) \<and>
    (\<exists>t. sweep_run g s [Time_passes (max 0 (u + sg_debounceMs g - sw_now s)), Timer_fires x] t \<and>
       sw_log t = Swept x (max (sw_now s) (u + sg_debounceMs g)) # sw_log s)"
proof -
  let ?k = "max 0 (u + sg_debounceMs g - sw_now s)" let ?s = "s\<lparr>sw_now := sw_now s + max 0 (u + sg_debounceMs g - sw_now s)\<rparr>"
  from assms(2,3) have "due_after g x (sw_log s) = Some (u + sg_debounceMs g)" by (auto simp: due_after_Some)
  with run_inv [OF assms(1)] have p: "sweep_pending x s = Some (u + sg_debounceMs g)" by (simp add: sweep_inv_def)
  have "sweep_step g s (Time_passes ?k) ?s" by (rule sweep_step.time) simp
  from run_snoc [OF run_nil this] have "sweep_run g s [Time_passes ?k] ?s" by simp
  moreover have "sweep_step g ?s (Timer_fires x) (sweep_fire x ?s)"
    by (rule sweep_step.timer [where k = "u + sg_debounceMs g"]) (use p in \<open>auto simp: sweep_pending_def split: sweep_scope.splits\<close>)
  ultimately have "sweep_run g s [Time_passes ?k, Timer_fires x] (sweep_fire x ?s)" by (auto dest: run_snoc)
  moreover have "sw_log (sweep_fire x ?s) = Swept x (max (sw_now s) (u + sg_debounceMs g)) # sw_log s"
    by (cases x) (simp_all add: sweep_fire_def sweep_note_def sweep_forget_def max_def)
  ultimately show ?thesis using p by blast
qed

text \<open>events that are not the program's arm nothing. A container event arms a timer only if a
  container with a stack's label, or the program's own, has started; a network event only if the
  network has a row; and after a stop no timer is armed until the next event.\<close>

theorem foreign_events_ignored:
  assumes "sweep_step g s e t" and "sweep_pending x t \<noteq> None" and "sweep_pending x s = None"
  shows "(\<exists>c. e = Container_event c \<and> ce_action c = ''start'' \<and> x = On_container (ce_containerId c) \<and>
      (truthy (om_get (nullish (ce_labels c) []) ''mini-infra.stack-id'') \<or> sg_self g = Some (ce_containerId c))) \<or>
    (\<exists>n row. e = Network_looked_up n (Inr (Some row)) \<and> n \<in> set (sw_lookups s) \<and>
      x = (if ni_scope row = Sc_stack \<and> truthy (ni_stackId row) then On_stack (nullish (ni_stackId row) [])
           else if ni_scope row = Sc_environment \<and> truthy (ni_environmentId row) then On_environment (nullish (ni_environmentId row) [])
           else On_all))"
  using assms
proof (cases rule: sweep_step.cases)
  case (container c)
  with assms(2,3) show ?thesis
    by (cases x) (auto simp: handleContainerEvent_def schedule_defs sweep_pending_def split: if_splits)
next
  case (looked_up n a)
  have same: "sweep_pending y (s\<lparr>sw_lookups := ns\<rparr>) = sweep_pending y s" for y ns
    by (simp add: sweep_pending_def split: sweep_scope.split)
  from looked_up(2) assms(2,3) obtain row where a: "a = Inr (Some row)"
    by (auto simp: network_looked_up_def same split: sum.splits option.splits)
  from looked_up(2) assms(2,3) a have "x = (if ni_scope row = Sc_stack \<and> truthy (ni_stackId row) then On_stack (nullish (ni_stackId row) [])
           else if ni_scope row = Sc_environment \<and> truthy (ni_environmentId row) then On_environment (nullish (ni_environmentId row) [])
           else On_all)"
    by (cases x) (auto simp: network_looked_up_def schedule_defs sweep_pending_def split: if_splits)
  with looked_up(1,3) a show ?thesis by blast
qed (cases x; auto simp: sweep_pending_def sweep_start_def sweep_stop_def sweep_note_def handleNetworkEvent_def
       sweep_fire_def sweep_forget_def interval_fire_def split: if_splits sweep_scope.splits)+


section \<open>An example\<close>

text \<open>A container starts twice within the debounce time and is swept once.\<close>

definition sample_sweep :: sweep_config where
  "sample_sweep = \<lparr>sg_intervalMs = 300000, sg_debounceMs = 5000, sg_self = None\<rparr>"

definition sample_started :: container_event where
  "sample_started = \<lparr>ce_action = ''start'', ce_labels = Some [(''mini-infra.stack-id'', ''s1'')], ce_containerId = ''c1''\<rparr>"

definition wait :: "int \<Rightarrow> sweep_state \<Rightarrow> sweep_state" where
  "wait k s = s\<lparr>sw_now := sw_now s + k\<rparr>"

lemma wait_step: "0 \<le> k \<Longrightarrow> sweep_step g s (Time_passes k) (wait k s)"
  unfolding wait_def by (rule sweep_step.time)

definition sample_triggered :: sweep_state where
  "sample_triggered = handleContainerEvent sample_sweep sample_started (wait 3000
     (handleContainerEvent sample_sweep sample_started (sweep_start sample_sweep (sweep_initial 0))))"

definition sample_swept :: sweep_state where
  "sample_swept = sweep_fire (On_container ''c1'') (wait 5000 sample_triggered)"

lemma sample_triggered_run:
  "sweep_run sample_sweep (sweep_initial 0)
     [Start_scheduler, Container_event sample_started, Time_passes 3000, Container_event sample_started] sample_triggered"
proof -
  note run_snoc [OF run_nil sweep_step.start, of sample_sweep "sweep_initial 0"]
  note run_snoc [OF this sweep_step.container, of sample_started]
  note run_snoc [OF this wait_step, of 3000]
  note run_snoc [OF this sweep_step.container, of sample_started]
  then show ?thesis by (simp add: sample_triggered_def)
qed

lemmas sample_state_defs = sample_swept_def sample_triggered_def sample_started_def sample_sweep_def wait_def sweep_initial_def
  sweep_start_def handleContainerEvent_def schedule_defs sweep_fire_def sweep_forget_def sweep_pending_def truthy_def

lemma sample_log:
  "sw_log sample_triggered = [Triggered (On_container ''c1'') 3000, Triggered (On_container ''c1'') 0]"
  "sw_log sample_swept = [Swept (On_container ''c1'') 8000, Triggered (On_container ''c1'') 3000, Triggered (On_container ''c1'') 0]"
  "sweep_pending (On_container ''c1'') (wait 5000 sample_triggered) = Some 8000" "sw_now (wait 5000 sample_triggered) = 8000"
  by (simp_all add: sample_state_defs)

lemma sample_swept_run:
  "sweep_run sample_sweep (sweep_initial 0)
     [Start_scheduler, Container_event sample_started, Time_passes 3000, Container_event sample_started, Time_passes 5000,
      Timer_fires (On_container ''c1'')] sample_swept"
proof -
  note run_snoc [OF sample_triggered_run wait_step, of 5000]
  note run_snoc [OF this sweep_step.timer [OF sample_log(3)]]
  then show ?thesis by (simp add: sample_swept_def sample_log)
qed

theorem sweeps_debounced_witness:
  "\<exists>bs u as. [Triggered (On_container ''c1'') 3000, Triggered (On_container ''c1'') 0] = bs @ Triggered (On_container ''c1'') u # as \<and>
     u + 5000 \<le> 8000 \<and> list_all (\<lambda>e. \<not> settles (On_container ''c1'') e) bs"
  using sweeps_debounced [OF sample_swept_run, of "[]", unfolded sample_log append_Nil, OF refl] by (simp add: sample_sweep_def)

theorem triggers_served_witness:
  "sweep_pending (On_container ''c1'') sample_triggered = Some 8000 \<and>
   (\<exists>t. sweep_run sample_sweep sample_triggered [Time_passes 5000, Timer_fires (On_container ''c1'')] t \<and>
      sw_log t = Swept (On_container ''c1'') 8000 # sw_log sample_triggered)"
proof -
  have log: "sw_log sample_triggered = [] @ Triggered (On_container ''c1'') 3000 # [Triggered (On_container ''c1'') 0]"
    by (simp add: sample_log)
  have "sw_now sample_triggered = 3000" by (simp add: sample_state_defs)
  with triggers_served [OF sample_triggered_run log] show ?thesis by (simp add: sample_sweep_def)
qed

theorem foreign_events_ignored_witness:
  "sweep_step sample_sweep (sweep_initial 0) (Container_event sample_started)
     (handleContainerEvent sample_sweep sample_started (sweep_initial 0)) \<and>
   ce_action sample_started = ''start'' \<and>
   (truthy (om_get (nullish (ce_labels sample_started) []) ''mini-infra.stack-id'') \<or> sg_self sample_sweep = Some ''c1'')"
proof -
  let ?t = "handleContainerEvent sample_sweep sample_started (sweep_initial 0)"
  have step: "sweep_step sample_sweep (sweep_initial 0) (Container_event sample_started) ?t" by (rule sweep_step.container)
  have "sweep_pending (On_container ''c1'') ?t \<noteq> None" "sweep_pending (On_container ''c1'') (sweep_initial 0) = None"
    by (simp_all add: sample_state_defs)
  from foreign_events_ignored [OF step this] step show ?thesis by (auto simp: sample_started_def)
qed

text \<open>
  The handlers do not ask whether the scheduler runs: an event after a stop, or a lookup that a stop
  overtook, arms a timer again.
\<close>

lemma stopped_still_triggers:
  "sw_running (sweep_stop s) = False \<and>
   sweep_pending (On_container ''c1'') (handleContainerEvent sample_sweep sample_started (sweep_stop s)) = Some (sw_now s + 5000)"
  by (simp add: sample_state_defs sweep_stop_def)

end
