(* ===== verification/UnifiedNetworks.thy ===== *)
theory UnifiedNetworks
  imports MembershipCompiler
begin

text \<open>
  \<open>networks/unified-network-declarations.ts\<close>: the unified spelling of networks, translated where a
  stack or template is authored into the four older declarations that the rest reads. An entry has
  the shape the schema let through. The rest of a service is left as it is and left out of the model.
\<close>

section \<open>Declarations\<close>

datatype network_entry =
    Legacy_network declared_network
  | Unified_network string "string option"

record resource_declaration =
  rc_type :: string
  rc_purpose :: string

record unified_service =
  us_serviceName :: "string option"
  us_networks :: "string list option"
  us_joinResourceNetworks :: "string list option"

record translated_service =
  ts_serviceName :: "string option"
  ts_joinResourceNetworks :: "string list option"

record unified_input =
  un_networks :: "network_entry list option"
  un_resourceOutputs :: "resource_declaration list option"
  un_resourceInputs :: "resource_declaration list option"
  un_services :: "unified_service list option"

record unified_result =
  ur_networks :: "declared_network list option"
  ur_resourceOutputs :: "resource_declaration list option"
  ur_resourceInputs :: "resource_declaration list option"
  ur_services :: "translated_service list option"

datatype declared_style = Legacy_style | Unified_style
datatype purpose_class = Stack_class | Resource_class

record unify_state =
  uy_declaredBy :: "(string \<times> declared_style) list"
  uy_legacyNetworks :: "declared_network list"
  uy_outputsFromUnified :: "resource_declaration list"
  uy_purposeClass :: "(string \<times> purpose_class) list"

definition plain_network :: "string \<Rightarrow> declared_network" where
  "plain_network n = \<lparr>dn_name = n, dn_driver = None, dn_options = None\<rparr>"

definition docker_network_output :: "string \<Rightarrow> resource_declaration" where
  "docker_network_output p = \<lparr>rc_type = ''docker-network'', rc_purpose = p\<rparr>"

section \<open>The stack's entries\<close>

definition both_styles_error :: "string \<Rightarrow> string" where
  "both_styles_error p = ''networks[]: \"'' @ p @
     ''\" is declared both as a legacy network and a unified network declaration -- pick one spelling.''"

definition duplicate_error :: "string \<Rightarrow> string" where
  "duplicate_error p = ''networks[]: duplicate unified declaration for purpose \"'' @ p @ ''\".''"

definition stack_collision_error :: "string \<Rightarrow> string" where
  "stack_collision_error p = ''networks[]: stack-scoped unified purpose \"'' @ p @
     ''\" collides with an existing resourceOutputs[]/resourceInputs[] entry of the same purpose.''"

definition output_collision_error :: "string \<Rightarrow> string" where
  "output_collision_error p = ''networks[]: purpose \"'' @ p @
     ''\" collides with an existing resourceOutputs[] entry of the same purpose.''"

definition unify_unified :: "string set \<Rightarrow> string \<Rightarrow> string option \<Rightarrow> unify_state \<Rightarrow> string + unify_state" where
  "unify_unified taken p scope s =
     (case om_get (uy_declaredBy s) p of
        Some Legacy_style \<Rightarrow> Inl (both_styles_error p)
      | Some Unified_style \<Rightarrow> Inl (duplicate_error p)
      | None \<Rightarrow>
          (let s1 = s\<lparr>uy_declaredBy := om_set p Unified_style (uy_declaredBy s)\<rparr>
           in if nullish scope ''stack'' = ''stack'' then
                (if p \<in> taken then Inl (stack_collision_error p)
                 else Inr (s1\<lparr>uy_legacyNetworks := uy_legacyNetworks s1 @ [plain_network p],
                   uy_purposeClass := om_set p Stack_class (uy_purposeClass s1)\<rparr>))
              else Inr (s1\<lparr>uy_outputsFromUnified := uy_outputsFromUnified s1 @ [docker_network_output p],
                uy_purposeClass := om_set p Resource_class (uy_purposeClass s1)\<rparr>)))"

definition unify_legacy :: "declared_network \<Rightarrow> unify_state \<Rightarrow> string + unify_state" where
  "unify_legacy net s =
     (if om_get (uy_declaredBy s) (dn_name net) = Some Unified_style then Inl (both_styles_error (dn_name net))
      else Inr (s\<lparr>uy_declaredBy := om_set (dn_name net) Legacy_style (uy_declaredBy s),
        uy_purposeClass := om_set (dn_name net) Stack_class (uy_purposeClass s),
        uy_legacyNetworks := uy_legacyNetworks s @ [net]\<rparr>))"

definition unify_entry :: "string set \<Rightarrow> network_entry \<Rightarrow> unify_state \<Rightarrow> string + unify_state" where
  "unify_entry taken e s = (case e of
     Unified_network p scope \<Rightarrow> unify_unified taken p scope s
   | Legacy_network net \<Rightarrow> unify_legacy net s)"

fun unify_entries :: "string set \<Rightarrow> network_entry list \<Rightarrow> unify_state \<Rightarrow> string + unify_state" where
  "unify_entries taken [] s = Inr s"
| "unify_entries taken (e # es) s = (case unify_entry taken e s of Inl m \<Rightarrow> Inl m | Inr t \<Rightarrow> unify_entries taken es t)"

definition unify_start :: unify_state where
  "unify_start = \<lparr>uy_declaredBy = [], uy_legacyNetworks = [], uy_outputsFromUnified = [], uy_purposeClass = []\<rparr>"

definition purposes :: "resource_declaration list option \<Rightarrow> string list" where
  "purposes rs = map rc_purpose (nullish rs [])"

definition merged_outputs :: "resource_declaration list option \<Rightarrow> resource_declaration list \<Rightarrow> string + resource_declaration list option" where
  "merged_outputs outs new =
     (if new = [] then Inr outs
      else case find (\<lambda>r. rc_purpose r \<in> set (purposes outs)) new of
             Some r \<Rightarrow> Inl (output_collision_error (rc_purpose r))
           | None \<Rightarrow> Inr (Some (nullish outs [] @ new)))"

section \<open>The services\<close>

definition undeclared_error :: "string option \<Rightarrow> string \<Rightarrow> string" where
  "undeclared_error name p = ''services[].networks: service \"'' @ nullish name ''?'' @
     ''\" references undeclared network purpose \"'' @ p @ ''\".''"

definition unify_service :: "(string \<times> purpose_class) list \<Rightarrow> unified_service \<Rightarrow> string + translated_service" where
  "unify_service cls svc =
     (let ps = nullish (us_networks svc) [];
          same = \<lparr>ts_serviceName = us_serviceName svc, ts_joinResourceNetworks = us_joinResourceNetworks svc\<rparr>;
          extra = filter (\<lambda>p. om_get cls p = Some Resource_class) ps
      in case find (\<lambda>p. om_get cls p = None) ps of
           Some p \<Rightarrow> Inl (undeclared_error (us_serviceName svc) p)
         | None \<Rightarrow>
             if extra = [] then Inr same
             else Inr (same\<lparr>ts_joinResourceNetworks :=
               Some (js_unique (nullish (us_joinResourceNetworks svc) [] @ extra))\<rparr>))"

fun unify_services :: "(string \<times> purpose_class) list \<Rightarrow> unified_service list \<Rightarrow> string + translated_service list" where
  "unify_services cls [] = Inr []"
| "unify_services cls (v # vs) =
     (case unify_service cls v of
        Inl m \<Rightarrow> Inl m
      | Inr t \<Rightarrow> (case unify_services cls vs of Inl m \<Rightarrow> Inl m | Inr ts \<Rightarrow> Inr (t # ts)))"

definition untouched_service :: "unified_service \<Rightarrow> translated_service" where
  "untouched_service v = \<lparr>ts_serviceName = us_serviceName v, ts_joinResourceNetworks = us_joinResourceNetworks v\<rparr>"

definition networks_required_error :: string where
  "networks_required_error = ''services[].networks requires the request to also include a top-level \"networks\" array declaring each referenced purpose (with an optional \"scope\").''"

definition class_all :: "purpose_class \<Rightarrow> string list \<Rightarrow> (string \<times> purpose_class) list \<Rightarrow> (string \<times> purpose_class) list" where
  "class_all k ps cls = foldl (\<lambda>m p. om_set p k m) cls ps"

definition translateUnifiedNetworkDeclarations :: "unified_input \<Rightarrow> string + unified_result" where
  "translateUnifiedNetworkDeclarations x =
     (case un_networks x of
        None \<Rightarrow>
          if list_ex (\<lambda>v. nullish (us_networks v) [] \<noteq> []) (nullish (un_services x) []) then Inl networks_required_error
          else Inr \<lparr>ur_networks = None, ur_resourceOutputs = un_resourceOutputs x, ur_resourceInputs = un_resourceInputs x,
            ur_services = map_option (map untouched_service) (un_services x)\<rparr>
      | Some entries \<Rightarrow>
          (let outs = purposes (un_resourceOutputs x); ins = purposes (un_resourceInputs x)
           in case unify_entries (set outs \<union> set ins) entries unify_start of
                Inl m \<Rightarrow> Inl m
              | Inr s \<Rightarrow>
                  (case merged_outputs (un_resourceOutputs x) (uy_outputsFromUnified s) of
                     Inl m \<Rightarrow> Inl m
                   | Inr merged \<Rightarrow>
                       (let cls = class_all Resource_class ins (class_all Resource_class outs (uy_purposeClass s))
                        in case un_services x of
                             None \<Rightarrow> Inr \<lparr>ur_networks = Some (uy_legacyNetworks s), ur_resourceOutputs = merged,
                               ur_resourceInputs = un_resourceInputs x, ur_services = None\<rparr>
                           | Some vs \<Rightarrow>
                               (case unify_services cls vs of
                                  Inl m \<Rightarrow> Inl m
                                | Inr ts \<Rightarrow> Inr \<lparr>ur_networks = Some (uy_legacyNetworks s), ur_resourceOutputs = merged,
                                    ur_resourceInputs = un_resourceInputs x, ur_services = Some ts\<rparr>)))))"


section \<open>What the entries say\<close>

definition unified_of :: "network_entry list \<Rightarrow> string list" where
  "unified_of es = concat (map (\<lambda>e. case e of Unified_network p sc \<Rightarrow> [p] | _ \<Rightarrow> []) es)"

definition legacy_of :: "network_entry list \<Rightarrow> string list" where
  "legacy_of es = concat (map (\<lambda>e. case e of Legacy_network n \<Rightarrow> [dn_name n] | _ \<Rightarrow> []) es)"

definition stack_scoped :: "string option \<Rightarrow> bool" where
  "stack_scoped sc \<longleftrightarrow> nullish sc ''stack'' = ''stack''"

definition stack_purposes :: "network_entry list \<Rightarrow> string list" where
  "stack_purposes es = concat (map (\<lambda>e. case e of Unified_network p sc \<Rightarrow> if stack_scoped sc then [p] else [] | _ \<Rightarrow> []) es)"

definition resource_purposes :: "network_entry list \<Rightarrow> string list" where
  "resource_purposes es = concat (map (\<lambda>e. case e of Unified_network p sc \<Rightarrow> if stack_scoped sc then [] else [p] | _ \<Rightarrow> []) es)"

definition stack_networks_of :: "network_entry list \<Rightarrow> declared_network list" where
  "stack_networks_of es = concat (map (\<lambda>e. case e of Legacy_network n \<Rightarrow> [n]
     | Unified_network p sc \<Rightarrow> if stack_scoped sc then [plain_network p] else []) es)"

lemmas entry_parts = unified_of_def legacy_of_def stack_purposes_def resource_purposes_def stack_networks_of_def

lemma entry_parts_append [simp]:
  "unified_of (es @ fs) = unified_of es @ unified_of fs" "legacy_of (es @ fs) = legacy_of es @ legacy_of fs"
  "stack_purposes (es @ fs) = stack_purposes es @ stack_purposes fs"
  "resource_purposes (es @ fs) = resource_purposes es @ resource_purposes fs"
  "stack_networks_of (es @ fs) = stack_networks_of es @ stack_networks_of fs"
  by (simp_all add: entry_parts)

lemma entry_parts_nil [simp]:
  "unified_of [] = []" "legacy_of [] = []" "stack_purposes [] = []" "resource_purposes [] = []" "stack_networks_of [] = []"
  by (simp_all add: entry_parts)

lemma entry_parts_one [simp]:
  "unified_of [Unified_network p sc] = [p]" "unified_of [Legacy_network n] = []"
  "legacy_of [Unified_network p sc] = []" "legacy_of [Legacy_network n] = [dn_name n]"
  "stack_purposes [Unified_network p sc] = (if stack_scoped sc then [p] else [])" "stack_purposes [Legacy_network n] = []"
  "resource_purposes [Unified_network p sc] = (if stack_scoped sc then [] else [p])" "resource_purposes [Legacy_network n] = []"
  "stack_networks_of [Unified_network p sc] = (if stack_scoped sc then [plain_network p] else [])"
  "stack_networks_of [Legacy_network n] = [n]"
  by (simp_all add: entry_parts)

lemma entry_parts_Cons [simp]:
  "unified_of (e # es) = unified_of [e] @ unified_of es" "legacy_of (e # es) = legacy_of [e] @ legacy_of es"
  "stack_purposes (e # es) = stack_purposes [e] @ stack_purposes es"
  "resource_purposes (e # es) = resource_purposes [e] @ resource_purposes es"
  "stack_networks_of (e # es) = stack_networks_of [e] @ stack_networks_of es"
  if "es \<noteq> []"
  by (simp_all add: entry_parts)

lemma unified_split: "set (unified_of es) = set (stack_purposes es) \<union> set (resource_purposes es)"
proof (induction es)
  case (Cons e es)
  then show ?case by (cases e; cases es) auto
qed simp

lemma stack_networks_names: "dn_name ` set (stack_networks_of es) = set (legacy_of es) \<union> set (stack_purposes es)"
proof (induction es)
  case (Cons e es)
  then show ?case by (cases e; cases es) (auto simp: plain_network_def)
qed simp

text \<open>No purpose is declared twice, unless in the older spelling.\<close>

definition clear_entries :: "string set \<Rightarrow> network_entry list \<Rightarrow> bool" where
  "clear_entries taken es \<longleftrightarrow> distinct (unified_of es) \<and> set (unified_of es) \<inter> set (legacy_of es) = {} \<and>
     set (stack_purposes es) \<inter> taken = {}"

definition unified_so_far :: "network_entry list \<Rightarrow> unify_state \<Rightarrow> bool" where
  "unified_so_far es s \<longleftrightarrow>
     (\<forall>p. om_get (uy_declaredBy s) p = (if p \<in> set (unified_of es) then Some Unified_style
        else if p \<in> set (legacy_of es) then Some Legacy_style else None)) \<and>
     uy_legacyNetworks s = stack_networks_of es \<and>
     uy_outputsFromUnified s = map docker_network_output (resource_purposes es) \<and>
     (\<forall>p. om_get (uy_purposeClass s) p = (if p \<in> set (resource_purposes es) then Some Resource_class
        else if p \<in> set (unified_of es) \<union> set (legacy_of es) then Some Stack_class else None))"

lemma unify_entry_step:
  assumes s: "unified_so_far es s" and clear: "clear_entries taken es"
  shows "case unify_entry taken e s of
      Inl m \<Rightarrow> \<not> clear_entries taken (es @ [e])
    | Inr t \<Rightarrow> clear_entries taken (es @ [e]) \<and> unified_so_far (es @ [e]) t"
proof (cases e)
  case (Legacy_network n)
  have "dn_name n \<in> set (resource_purposes es) \<Longrightarrow> dn_name n \<in> set (unified_of es)" by (simp add: unified_split)
  with s clear Legacy_network show ?thesis
    by (auto simp: unify_entry_def unify_legacy_def unified_so_far_def clear_entries_def)
next
  case (Unified_network p sc)
  have "p \<in> set (resource_purposes es) \<Longrightarrow> p \<in> set (unified_of es)" by (simp add: unified_split)
  with s clear Unified_network show ?thesis
    by (auto simp: unify_entry_def unify_unified_def unified_so_far_def clear_entries_def Let_def stack_scoped_def [symmetric])
qed

lemma clear_entries_prefix: "clear_entries taken (es @ fs) \<Longrightarrow> clear_entries taken es"
  by (auto simp: clear_entries_def)

lemma unify_entries_run:
  assumes "unified_so_far es s" and "clear_entries taken es"
  shows "case unify_entries taken fs s of
      Inl m \<Rightarrow> \<not> clear_entries taken (es @ fs)
    | Inr t \<Rightarrow> clear_entries taken (es @ fs) \<and> unified_so_far (es @ fs) t"
  using assms
proof (induction fs arbitrary: es s)
  case (Cons f fs)
  note step = unify_entry_step [OF Cons.prems, of f]
  show ?case
  proof (cases "unify_entry taken f s")
    case (Inl m)
    with step clear_entries_prefix [of taken "es @ [f]" fs] show ?thesis by auto
  next
    case (Inr t)
    with step have "unified_so_far (es @ [f]) t" "clear_entries taken (es @ [f])" by simp_all
    from Cons.IH [OF this] Inr show ?thesis
      by (simp only: unify_entries.simps sum.case append_assoc append_Cons append_Nil)
  qed
qed simp

lemma unify_start_ok: "unified_so_far [] unify_start" "clear_entries taken []"
  by (simp_all add: unified_so_far_def unify_start_def clear_entries_def)

lemmas unify_all = unify_entries_run [OF unify_start_ok, simplified]

section \<open>What the purposes resolve to\<close>

lemma class_all_get: "om_get (class_all k ps cls) p = (if p \<in> set ps then Some k else om_get cls p)"
  by (induction ps arbitrary: cls) (auto simp: class_all_def)

definition all_classes :: "unified_input \<Rightarrow> unify_state \<Rightarrow> (string \<times> purpose_class) list" where
  "all_classes x s = class_all Resource_class (purposes (un_resourceInputs x))
     (class_all Resource_class (purposes (un_resourceOutputs x)) (uy_purposeClass s))"

definition resource_class :: "unified_input \<Rightarrow> network_entry list \<Rightarrow> string set" where
  "resource_class x es = set (resource_purposes es) \<union> set (purposes (un_resourceOutputs x)) \<union> set (purposes (un_resourceInputs x))"

definition declared_purposes :: "unified_input \<Rightarrow> network_entry list \<Rightarrow> string set" where
  "declared_purposes x es = set (unified_of es) \<union> set (legacy_of es) \<union> resource_class x es"

lemma all_classes_get:
  assumes "unified_so_far es s"
  shows "om_get (all_classes x s) p = (if p \<in> resource_class x es then Some Resource_class
    else if p \<in> declared_purposes x es then Some Stack_class else None)"
  using assms by (auto simp: all_classes_def class_all_get unified_so_far_def resource_class_def declared_purposes_def)

definition translated :: "string set \<Rightarrow> unified_service \<Rightarrow> translated_service \<Rightarrow> bool" where
  "translated res v t \<longleftrightarrow> ts_serviceName t = us_serviceName v \<and>
     set (nullish (ts_joinResourceNetworks t) []) =
       set (nullish (us_joinResourceNetworks v) []) \<union> (set (nullish (us_networks v) []) \<inter> res)"

lemma unify_service_run:
  assumes "unified_so_far es s"
  shows "case unify_service (all_classes x s) v of
      Inl m \<Rightarrow> \<not> set (nullish (us_networks v) []) \<subseteq> declared_purposes x es
    | Inr t \<Rightarrow> set (nullish (us_networks v) []) \<subseteq> declared_purposes x es \<and> translated (resource_class x es) v t"
proof -
  note get = all_classes_get [OF assms, of x]
  have sub: "resource_class x es \<subseteq> declared_purposes x es" by (auto simp: declared_purposes_def)
  show ?thesis
  proof (cases "find (\<lambda>p. om_get (all_classes x s) p = None) (nullish (us_networks v) [])")
    case None
    then have "\<forall>p \<in> set (nullish (us_networks v) []). om_get (all_classes x s) p \<noteq> None" by (simp add: find_None_iff)
    then have "set (nullish (us_networks v) []) \<subseteq> declared_purposes x es" using sub by (auto simp: get split: if_splits)
    with None show ?thesis
      by (auto simp: unify_service_def Let_def translated_def js_unique_def get filter_empty_conv split: if_splits)
  next
    case (Some p)
    then have "p \<in> set (nullish (us_networks v) [])" "om_get (all_classes x s) p = None" by (auto dest: find_SomeD)
    with Some sub show ?thesis by (auto simp: unify_service_def Let_def get split: if_splits)
  qed
qed

lemma unify_services_run:
  assumes "unified_so_far es s"
  shows "case unify_services (all_classes x s) vs of
      Inl m \<Rightarrow> \<exists>v \<in> set vs. \<not> set (nullish (us_networks v) []) \<subseteq> declared_purposes x es
    | Inr ts \<Rightarrow> (\<forall>v \<in> set vs. set (nullish (us_networks v) []) \<subseteq> declared_purposes x es) \<and>
        list_all2 (translated (resource_class x es)) vs ts"
proof (induction vs)
  case (Cons v vs)
  with unify_service_run [OF assms, where x = x and v = v] show ?case by (auto split: sum.splits)
qed simp

text \<open>When a declaration is ambiguous or refers to nothing.\<close>

definition ambiguous :: "unified_input \<Rightarrow> bool" where
  "ambiguous x \<longleftrightarrow> (case un_networks x of
     None \<Rightarrow> \<exists>v \<in> set (nullish (un_services x) []). nullish (us_networks v) [] \<noteq> []
   | Some es \<Rightarrow>
       \<not> clear_entries (set (purposes (un_resourceOutputs x)) \<union> set (purposes (un_resourceInputs x))) es \<or>
       set (resource_purposes es) \<inter> set (purposes (un_resourceOutputs x)) \<noteq> {} \<or>
       (\<exists>v \<in> set (nullish (un_services x) []). \<not> set (nullish (us_networks v) []) \<subseteq> declared_purposes x es))"

lemma merged_outputs_run:
  "case merged_outputs outs (map docker_network_output ps) of
     Inl m \<Rightarrow> set ps \<inter> set (purposes outs) \<noteq> {}
   | Inr merged \<Rightarrow> set ps \<inter> set (purposes outs) = {} \<and> nullish merged [] = nullish outs [] @ map docker_network_output ps \<and>
       (ps = [] \<longrightarrow> merged = outs) \<and> (ps \<noteq> [] \<longrightarrow> merged \<noteq> None)"
proof (cases "find (\<lambda>r. rc_purpose r \<in> set (purposes outs)) (map docker_network_output ps)")
  case None
  then have "set ps \<inter> set (purposes outs) = {}" by (auto simp: find_None_iff docker_network_output_def)
  with None show ?thesis by (simp add: merged_outputs_def)
next
  case (Some r)
  then have "\<exists>p \<in> set ps. p \<in> set (purposes outs)" by (fastforce dest!: find_SomeD simp: docker_network_output_def)
  moreover from this have "ps \<noteq> []" by auto
  ultimately show ?thesis using Some by (auto simp: merged_outputs_def)
qed

text \<open>Both outcomes of a translation of a request with networks.\<close>

lemma translate_run:
  assumes n: "un_networks x = Some es"
  shows "case translateUnifiedNetworkDeclarations x of
      Inl m \<Rightarrow> ambiguous x
    | Inr y \<Rightarrow> \<not> ambiguous x \<and> ur_networks y = Some (stack_networks_of es) \<and>
        nullish (ur_resourceOutputs y) [] = nullish (un_resourceOutputs x) [] @ map docker_network_output (resource_purposes es) \<and>
        (resource_purposes es = [] \<longrightarrow> ur_resourceOutputs y = un_resourceOutputs x) \<and>
        ur_resourceInputs y = un_resourceInputs x \<and>
        rel_option (list_all2 (translated (resource_class x es))) (un_services x) (ur_services y)"
proof -
  let ?taken = "set (purposes (un_resourceOutputs x)) \<union> set (purposes (un_resourceInputs x))"
  note entries = unify_all [of ?taken es]
  show ?thesis
  proof (cases "unify_entries ?taken es unify_start")
    case (Inl m)
    with entries n show ?thesis by (simp add: translateUnifiedNetworkDeclarations_def ambiguous_def Let_def)
  next
    case (Inr s)
    with entries have s: "clear_entries ?taken es" "unified_so_far es s" by simp_all
    then have new: "uy_outputsFromUnified s = map docker_network_output (resource_purposes es)"
      "uy_legacyNetworks s = stack_networks_of es" by (simp_all add: unified_so_far_def)
    note outs = merged_outputs_run [where outs = "un_resourceOutputs x" and ps = "resource_purposes es"]
    show ?thesis
    proof (cases "merged_outputs (un_resourceOutputs x) (uy_outputsFromUnified s)")
      case bad: (Inl m)
      with outs new Inr n show ?thesis by (simp add: translateUnifiedNetworkDeclarations_def ambiguous_def Let_def)
    next
      case merged: (Inr merged)
      with outs new have m: "set (resource_purposes es) \<inter> set (purposes (un_resourceOutputs x)) = {}"
        "nullish merged [] = nullish (un_resourceOutputs x) [] @ map docker_network_output (resource_purposes es)"
        "resource_purposes es = [] \<longrightarrow> merged = un_resourceOutputs x" by simp_all
      show ?thesis
      proof (cases "un_services x")
        case None
        with n Inr merged m s(1) new show ?thesis
          by (simp add: translateUnifiedNetworkDeclarations_def ambiguous_def Let_def)
      next
        case (Some vs)
        note services = unify_services_run [OF s(2), where x = x and vs = vs]
        show ?thesis
        proof (cases "unify_services (all_classes x s) vs")
          case bad: (Inl e)
          with services Some n Inr merged show ?thesis
            by (simp add: translateUnifiedNetworkDeclarations_def ambiguous_def Let_def all_classes_def)
        next
          case ts: (Inr ts)
          with services Some n Inr merged m s(1) new show ?thesis
            by (simp add: translateUnifiedNetworkDeclarations_def ambiguous_def Let_def all_classes_def)
        qed
      qed
    qed
  qed
qed


section \<open>Resource networks in the compiler\<close>

text \<open>The row a purpose is compiled to: its own, or one that has the name of its network.\<close>

definition resource_row :: "compile_input \<Rightarrow> string \<Rightarrow> managed_network \<Rightarrow> bool" where
  "resource_row x p row \<longleftrightarrow>
     mn_identity row = \<lparr>ni_scope = resource_scope x, ni_environmentId = ci_environmentId x, ni_stackId = None, ni_purpose = p\<rparr> \<or>
     (p, mn_name row) \<in> set (ci_outputs x) \<union> set (ci_inputs x)"

definition resource_ids_ok :: "compile_input \<Rightarrow> (string \<times> string) list \<Rightarrow> (string \<times> nat) list \<Rightarrow> net_db \<Rightarrow> bool" where
  "resource_ids_ok x seen ids db \<longleftrightarrow>
     (\<forall>pn \<in> set seen. om_get ids (fst pn) \<noteq> None) \<and>
     (\<forall>p i. om_get ids p = Some i \<longrightarrow> (\<exists>row \<in> set (db_networks db). mn_id row = i \<and> resource_row x p row))"

lemma resource_ids_grow: "resource_ids_ok x seen ids db \<Longrightarrow> grows db db' \<Longrightarrow> resource_ids_ok x seen ids db'"
  unfolding resource_ids_ok_def grows_def by blast

lemma name_upsert_row:
  "findOrCreateManagedNetworkByName name ident db = (i, db') \<Longrightarrow> \<exists>row \<in> set (db_networks db'). mn_id row = i \<and> mn_name row = name"
  by (auto simp: findOrCreateManagedNetworkByName_def ms_create_network_def split: option.splits dest!: find_SomeD)

lemma compile_output_ok:
  assumes ok: "resource_ids_ok x seen ids db" and pn: "pn \<in> set (ci_outputs x)" and run: "compile_output x pn ids db = (Inr ids', db')"
  shows "resource_ids_ok x (seen @ [pn]) ids' db'"
proof -
  from run obtain i where up: "upsertManagedNetworkByIdentity
      \<lparr>ni_scope = resource_scope x, ni_environmentId = ci_environmentId x, ni_stackId = None, ni_purpose = fst pn\<rparr> (snd pn) None None db = (i, db')"
    and ids: "ids' = om_set (fst pn) i ids"
    by (auto simp: compile_output_def find_or_create_def eff_bind_Inr split: prod.splits)
  have "resource_ids_ok x seen ids db'" by (rule resource_ids_grow [OF ok movesD [OF resource_grows(1) run]])
  with identity_upsert_row [OF up] ids pn show ?thesis
    unfolding resource_ids_ok_def resource_row_def by (cases pn) auto
qed

lemma compile_input_ok:
  assumes ok: "resource_ids_ok x seen ids db" and pn: "pn \<in> set (ci_inputs x)" and run: "compile_input_network x pn ids db = (Inr ids', db')"
  shows "resource_ids_ok x (seen @ [pn]) ids' db'"
proof (cases "om_get ids (fst pn) = None")
  case True
  with run obtain i ident where up: "findOrCreateManagedNetworkByName (snd pn) ident db = (i, db')"
    and ids: "ids' = om_set (fst pn) i ids"
    by (auto simp: compile_input_network_def find_or_create_def eff_bind_Inr split: prod.splits)
  have "resource_ids_ok x seen ids db'" by (rule resource_ids_grow [OF ok movesD [OF resource_grows(2) run]])
  with name_upsert_row [OF up] ids pn show ?thesis
    unfolding resource_ids_ok_def resource_row_def by (cases pn) auto
next
  case False
  with run ok show ?thesis by (auto simp: compile_input_network_def resource_ids_ok_def)
qed

definition joined_to :: "member_service \<Rightarrow> (managed_network \<Rightarrow> bool) \<Rightarrow> net_db \<Rightarrow> bool" where
  "joined_to svc P db \<longleftrightarrow> (\<exists>row \<in> set (db_networks db). P row \<and> (mn_id row, member_target svc) \<in> set (ms_idents db))"

lemma joined_grow: "joined_to svc P db \<Longrightarrow> grows db db' \<Longrightarrow> joined_to svc P db'"
  unfolding joined_to_def grows_def by blast

lemma join_resource_grows: "moves grows (join_resource_network ids svc p u)"
  unfolding join_resource_network_def by (auto intro!: compile_grows split: option.split)

lemma join_resource_member:
  assumes ok: "resource_ids_ok x seen ids db" and p: "p \<in> fst ` set seen" and run: "join_resource_network ids svc p u db = (Inr v, db')"
  shows "joined_to svc (resource_row x p) db'"
proof -
  from ok p obtain nid row where nid: "om_get ids p = Some nid"
    and row: "row \<in> set (db_networks db)" "mn_id row = nid" "resource_row x p row" by (fastforce simp: resource_ids_ok_def)
  from run nid obtain b where up: "upsertNetworkMembership (member_input svc nid Src_template
      (if si_egressBypass svc = Some True then Some [si_serviceName svc] else None) None) db = (Inr b, db')"
    by (auto simp: join_resource_network_def eff_bind_Inr)
  from movesD [OF upsert_grows up] row(1) have "row \<in> set (db_networks db')" by (auto simp: grows_def)
  with upsert_there [OF up] row(2,3) show ?thesis by (auto simp: joined_to_def member_input_def ui_ident_def)
qed

lemma service_resources:
  assumes ok: "resource_ids_ok x seen resource_ids db" and p: "p \<in> fst ` set seen" "p \<in> set (nullish (si_joinResourceNetworks svc) [])"
    and run: "compile_service x stack_ids resource_ids svc u db = (Inr v, db')"
  shows "joined_to svc (resource_row x p) db'"
proof -
  let ?own = "if host_mode svc then eff_return () else eff_fold (join_stack_network stack_ids svc) (ci_networks x) ()"
  let ?named = "eff_fold (join_named_network x svc) (nullish (si_joinNetworks svc) []) ()"
  from run obtain a db1 b db2 where one: "?own db = (Inr a, db1)" and two: "?named db1 = (Inr b, db2)"
    and three: "eff_fold (join_resource_network resource_ids svc) (nullish (si_joinResourceNetworks svc) []) () db2 = (Inr v, db')"
    by (auto simp: compile_service_def eff_then_Inr)
  have "moves grows ?own" "moves grows ?named"
    unfolding join_stack_network_def join_named_network_def by (auto intro!: compile_grows split: option.split)
  from movesD [OF this(1) one] movesD [OF this(2) two] have "grows db db2" by (rule grows.trans)
  note ok2 = resource_ids_grow [OF ok this]
  have "p \<in> fst ` set seen \<longrightarrow> joined_to svc (resource_row x p) db'"
  proof (rule grows.fold_establishes [OF three p(2), where F = "\<lambda>p db. p \<in> fst ` set seen \<longrightarrow> joined_to svc (resource_row x p) db"])
    show "q \<in> fst ` set seen \<longrightarrow> joined_to svc (resource_row x q) c" if "grows db2 b'" "join_resource_network resource_ids svc q y b' = (Inr z, c)"
      for q y b' z c
      using join_resource_member [OF resource_ids_grow [OF ok2 that(1)] _ that(2)] by blast
  qed (use join_resource_grows joined_grow in blast)+
  with p(1) show ?thesis by blast
qed

lemma compiled_resource:
  assumes ids: "list_all (\<lambda>svc. si_id svc \<noteq> []) (ci_services x)" and svc: "svc \<in> set (ci_services x)"
    and p: "p \<in> fst ` set (ci_outputs x) \<union> fst ` set (ci_inputs x)" "p \<in> set (nullish (si_joinResourceNetworks svc) [])"
  shows "joined_to svc (resource_row x p) (compileStackNetworkMemberships x db)"
proof -
  obtain u db' where run: "compile_rows x db = (Inr u, db')" by (rule eff_totalE [OF compile_total [OF ids]])
  then obtain sids db1 oids db2 rids db3 where
    two: "eff_fold (compile_output x) (ci_outputs x) [] db1 = (Inr oids, db2)" and
    three: "eff_fold (compile_input_network x) (ci_inputs x) oids db2 = (Inr rids, db3)" and
    four: "eff_fold (compile_service x sids rids) (ci_services x) () db3 = (Inr u, db')"
    unfolding compile_rows_def eff_bind_Inr by blast
  have "resource_ids_ok x ([] @ ci_outputs x) oids db2"
    by (rule eff_fold_prefix [OF two, where I = "resource_ids_ok x"]) (simp add: resource_ids_ok_def, rule compile_output_ok)
  then have "resource_ids_ok x (ci_outputs x) oids db2" by simp
  then have ok: "resource_ids_ok x (ci_outputs x @ ci_inputs x) rids db3"
    by (rule eff_fold_prefix [OF three, where I = "resource_ids_ok x"]) (rule compile_input_ok)
  from p(1) have seen: "p \<in> fst ` set (ci_outputs x @ ci_inputs x)" by auto
  have "p \<in> set (nullish (si_joinResourceNetworks svc) []) \<longrightarrow> joined_to svc (resource_row x p) db'"
  proof (rule grows.fold_establishes [OF four svc service_grows,
      where F = "\<lambda>v db. p \<in> set (nullish (si_joinResourceNetworks v) []) \<longrightarrow> joined_to v (resource_row x p) db"])
    show "p \<in> set (nullish (si_joinResourceNetworks v) []) \<longrightarrow> joined_to v (resource_row x p) c"
      if "grows db3 b" "compile_service x sids rids v y b = (Inr z, c)" for v y b z c
      using service_resources [OF resource_ids_grow [OF ok that(1)] seen _ that(2)] by blast
  qed (use joined_grow in blast)
  with run p(2) show ?thesis by (simp add: compileStackNetworkMemberships_def safeMembershipWrite_def)
qed


section \<open>Requests in the older spelling\<close>

definition spelled_service :: "translated_service \<Rightarrow> unified_service" where
  "spelled_service t = \<lparr>us_serviceName = ts_serviceName t, us_networks = None, us_joinResourceNetworks = ts_joinResourceNetworks t\<rparr>"

definition spelled :: "unified_result \<Rightarrow> unified_input" where
  "spelled y = \<lparr>un_networks = map_option (map Legacy_network) (ur_networks y), un_resourceOutputs = ur_resourceOutputs y,
     un_resourceInputs = ur_resourceInputs y, un_services = map_option (map spelled_service) (ur_services y)\<rparr>"

lemma untouched_spelled [simp]: "untouched_service (spelled_service t) = t"
  by (simp add: untouched_service_def spelled_service_def)

lemma unify_spelled: "unify_services cls (map spelled_service ts) = Inr ts"
proof (induction ts)
  case (Cons t ts)
  have "unify_service cls (spelled_service t) = Inr t"
    by (simp add: unify_service_def spelled_service_def Let_def)
  with Cons show ?case by simp
qed simp

lemma legacy_parts [simp]:
  "unified_of (map Legacy_network ns) = []" "resource_purposes (map Legacy_network ns) = []" "stack_purposes (map Legacy_network ns) = []"
  "stack_networks_of (map Legacy_network ns) = ns"
  by (induction ns) (simp_all add: entry_parts)

lemma legacy_entries:
  "\<exists>s. unify_entries taken (map Legacy_network ns) unify_start = Inr s \<and> uy_legacyNetworks s = ns \<and> uy_outputsFromUnified s = []"
  using unify_all [of taken "map Legacy_network ns"]
  by (cases "unify_entries taken (map Legacy_network ns) unify_start") (auto simp: clear_entries_def unified_so_far_def)

section \<open>Properties\<close>

text \<open>C24: a translation is refused exactly if the request is ambiguous or refers to nothing: a purpose is
  declared twice and not only in the older spelling, a purpose for the stack is also one of a
  resource, a new output has the purpose of an old one, or a service names a purpose that is not
  declared (any purpose, if the request does not give the networks).\<close>

theorem translate_refused_iff:
  "(\<exists>m. translateUnifiedNetworkDeclarations x = Inl m) \<longleftrightarrow> ambiguous x"
proof (cases "un_networks x")
  case None
  then show ?thesis by (auto simp: translateUnifiedNetworkDeclarations_def ambiguous_def list_ex_iff)
next
  case (Some es)
  from translate_run [OF Some] show ?thesis by (cases "translateUnifiedNetworkDeclarations x") auto
qed

text \<open>C25: what is in the older spelling translates to itself, so a stored definition can be read, shown and
  saved again without change, whatever it declares.\<close>

theorem translate_roundtrip: "translateUnifiedNetworkDeclarations (spelled y) = Inr y"
proof (cases "ur_networks y")
  case None
  have "\<not> list_ex (\<lambda>v. nullish (us_networks v) [] \<noteq> []) (map spelled_service ts)" for ts
    by (simp add: list_ex_iff spelled_service_def)
  with None show ?thesis
    by (cases y; cases "ur_services y") (simp_all add: translateUnifiedNetworkDeclarations_def spelled_def o_def)
next
  case (Some ns)
  from legacy_entries [of "set (purposes (ur_resourceOutputs y)) \<union> set (purposes (ur_resourceInputs y))" ns] obtain s where
    s: "unify_entries (set (purposes (ur_resourceOutputs y)) \<union> set (purposes (ur_resourceInputs y))) (map Legacy_network ns) unify_start = Inr s"
      "uy_legacyNetworks s = ns" "uy_outputsFromUnified s = []" by blast
  with Some show ?thesis
    by (cases y; cases "ur_services y")
       (simp_all add: translateUnifiedNetworkDeclarations_def spelled_def Let_def merged_outputs_def unify_spelled)
qed

text \<open>C13: naming a purpose in the unified spelling ends in a membership. Let the request be translated and
  the result compiled into the store: the stack's networks are those of the result, every purpose of its resource
  declarations has the name of a network, and the services carry the translated lists. Then for every
  purpose a service names, that service, unless it uses the host's network, has a membership on
  the network the purpose stands for.\<close>

theorem named_purposes_joined:
  assumes tr: "translateUnifiedNetworkDeclarations u = Inr y" and vs: "un_services u = Some vs" "ur_services y = Some ts"
    and i: "i < length vs" "p \<in> set (nullish (us_networks (vs ! i)) [])"
    and nets: "set (nullish (ur_networks y) []) \<subseteq> set (ci_networks x)"
    and res: "set (purposes (ur_resourceOutputs y)) \<union> set (purposes (ur_resourceInputs y)) \<subseteq> fst ` (set (ci_outputs x) \<union> set (ci_inputs x))"
    and svc: "svc \<in> set (ci_services x)" "si_joinResourceNetworks svc = ts_joinResourceNetworks (ts ! i)" "\<not> host_mode svc"
    and ids: "list_all (\<lambda>svc. si_id svc \<noteq> []) (ci_services x)"
  shows "\<exists>row \<in> set (db_networks (compileStackNetworkMemberships x db)). (network_row x p row \<or> resource_row x p row) \<and>
    (mn_id row, member_target svc) \<in> set (ms_idents (compileStackNetworkMemberships x db))"
proof (cases "un_networks u")
  case None
  from i vs(1) have "vs ! i \<in> set vs" "nullish (us_networks (vs ! i)) [] \<noteq> []" by auto
  with None vs(1) have "ambiguous u" by (auto simp: ambiguous_def)
  with None tr vs(1) show ?thesis by (auto simp: translateUnifiedNetworkDeclarations_def ambiguous_def list_ex_iff)
next
  case (Some es)
  note run = translate_run [OF Some, unfolded tr sum.case]
  from run vs have l2: "list_all2 (translated (resource_class u es)) vs ts" by simp
  from run Some vs(1) i have decl: "p \<in> declared_purposes u es" by (fastforce simp: ambiguous_def)
  show ?thesis
  proof (cases "p \<in> resource_class u es")
    case True
    with l2 i have "p \<in> set (nullish (si_joinResourceNetworks svc) [])"
      by (auto simp: list_all2_conv_all_nth translated_def svc(2))
    moreover have "p \<in> set (purposes (ur_resourceOutputs y)) \<union> set (purposes (ur_resourceInputs y))"
      using True run by (auto simp: resource_class_def purposes_def docker_network_output_def o_def)
    with res have "p \<in> fst ` set (ci_outputs x) \<union> fst ` set (ci_inputs x)" by auto
    ultimately have "joined_to svc (resource_row x p) (compileStackNetworkMemberships x db)"
      by (intro compiled_resource [OF ids svc(1)])
    then show ?thesis by (auto simp: joined_to_def)
  next
    case False
    with decl unified_split [of es] have "p \<in> dn_name ` set (stack_networks_of es)"
      by (auto simp: declared_purposes_def resource_class_def stack_networks_names)
    then obtain net where net: "net \<in> set (stack_networks_of es)" "dn_name net = p" by blast
    from run nets net(1) have "net \<in> set (ci_networks x)" by auto
    from compiled_member [OF ids svc(1) svc(3) this, of db] net(2) show ?thesis by (auto simp: member_of_def)
  qed
qed

text \<open>One stack network and one resource, both in the new spelling, and a service that names them.\<close>

definition sample_unified :: unified_input where
  "sample_unified = \<lparr>un_networks = Some [Unified_network ''data'' None, Unified_network ''vault'' (Some ''environment''),
       Legacy_network (plain_network ''default'')],
     un_resourceOutputs = None, un_resourceInputs = None,
     un_services = Some [\<lparr>us_serviceName = Some ''web'', us_networks = Some [''vault'', ''data''], us_joinResourceNetworks = None\<rparr>]\<rparr>"

definition sample_translated :: unified_result where
  "sample_translated = \<lparr>ur_networks = Some [plain_network ''data'', plain_network ''default''],
     ur_resourceOutputs = Some [docker_network_output ''vault''], ur_resourceInputs = None,
     ur_services = Some [\<lparr>ts_serviceName = Some ''web'', ts_joinResourceNetworks = Some [''vault'']\<rparr>]\<rparr>"

lemma sample_translation: "translateUnifiedNetworkDeclarations sample_unified = Inr sample_translated"
  by code_simp

theorem named_purposes_joined_witness:
  "(\<exists>row \<in> set (db_networks (compileStackNetworkMemberships sample_compile sample_db)).
      (network_row sample_compile ''vault'' row \<or> resource_row sample_compile ''vault'' row) \<and>
      (mn_id row, member_target (sample_member_service ''v1'' ''web'' None)) \<in>
        set (ms_idents (compileStackNetworkMemberships sample_compile sample_db)))"
proof -
  let ?svc = "sample_member_service ''v1'' ''web'' None"
  let ?vs = "[\<lparr>us_serviceName = Some ''web'', us_networks = Some [''vault'', ''data''], us_joinResourceNetworks = None\<rparr>]"
  let ?ts = "[\<lparr>ts_serviceName = Some ''web'', ts_joinResourceNetworks = Some [''vault'']\<rparr>]"
  have vs: "un_services sample_unified = Some ?vs" "ur_services sample_translated = Some ?ts"
    by (simp_all add: sample_unified_def sample_translated_def)
  have "set (nullish (ur_networks sample_translated) []) \<subseteq> set (ci_networks sample_compile)"
    "set (purposes (ur_resourceOutputs sample_translated)) \<union> set (purposes (ur_resourceInputs sample_translated)) \<subseteq>
       fst ` (set (ci_outputs sample_compile) \<union> set (ci_inputs sample_compile))"
    "?svc \<in> set (ci_services sample_compile)" "si_joinResourceNetworks ?svc = ts_joinResourceNetworks (?ts ! 0)" "\<not> host_mode ?svc"
    "list_all (\<lambda>svc. si_id svc \<noteq> []) (ci_services sample_compile)"
    by (simp_all add: sample_translated_def sample_compile_def plain_network_def purposes_def docker_network_output_def
        sample_member_service_def host_mode_def)
  from named_purposes_joined [OF sample_translation vs _ _ this, of "''vault''" sample_db] show ?thesis by simp
qed

end
