(* ===== verification/JsonPrint.thy ===== *)
theory JsonPrint
  imports Prelude "HOL-Library.Char_ord" "HOL-Library.List_Lexorder" "HOL-Library.Multiset"
begin

text \<open>
  \<open>stableStringify\<close> of \<open>stacks/definition-hash.ts\<close>, the key-sorted printing of a value, and the
  proof that it is injective up to the order of object keys: \<open>print_json\<close> prints in the order
  given, \<open>json_norm\<close> sorts the keys at every level, \<open>stable_print\<close> relates the two to the source's
  function, and \<open>print_inj\<close> reads a printed value back off any text that follows it. Strings are
  sequences of code units; objects are lists of fields; numbers are integers of a size that
  \<open>JSON.stringify\<close> prints in decimal. A value that may be \<open>undefined\<close> is an option: the source
  prints it as the word \<open>undefined\<close>, which no value prints as (\<open>canonical_lookup\<close>).
\<close>

section \<open>Printing JSON\<close>

definition hex_digit :: "nat \<Rightarrow> char" where
  "hex_digit n = ''0123456789abcdef'' ! n"

text \<open>\<open>JSON.stringify\<close> of a string: quote, backslash and control characters are escaped.\<close>

definition json_escape :: "char \<Rightarrow> string" where
  "json_escape c =
     (if c = CHR 0x22 then [CHR 0x5C, CHR 0x22]
      else if c = CHR 0x5C then [CHR 0x5C, CHR 0x5C]
      else if c = CHR 0x08 then [CHR 0x5C, CHR ''b'']
      else if c = CHR 0x09 then [CHR 0x5C, CHR ''t'']
      else if c = CHR 0x0A then [CHR 0x5C, CHR ''n'']
      else if c = CHR 0x0C then [CHR 0x5C, CHR ''f'']
      else if c = CHR 0x0D then [CHR 0x5C, CHR ''r'']
      else if of_char c < (32 :: nat)
      then [CHR 0x5C, CHR ''u'', CHR ''0'', CHR ''0'',
            hex_digit (of_char c div 16), hex_digit (of_char c mod 16)]
      else [c])"

definition json_quote :: "string \<Rightarrow> string" where
  "json_quote s = CHR 0x22 # concat (map json_escape s) @ [CHR 0x22]"

section \<open>stableStringify\<close>

fun stableStringify :: "json \<Rightarrow> string"
  and stable_items :: "json list \<Rightarrow> string list"
  and stable_fields :: "(string \<times> json) list \<Rightarrow> (string \<times> string) list" where
  "stableStringify JNull = ''null''"
| "stableStringify (JBool b) = (if b then ''true'' else ''false'')"
| "stableStringify (JNum n) = string_of_int n"
| "stableStringify (JStr s) = json_quote s"
| "stableStringify (JArr xs) = ''['' @ join_str '','' (stable_items xs) @ '']''"
| "stableStringify (JObj m) =
     ''{'' @ join_str '','' (map (\<lambda>(k, v). json_quote k @ '':'' @ v)
       (sort_key fst (stable_fields m))) @ ''}''"
| "stable_items [] = []"
| "stable_items (x # xs) = stableStringify x # stable_items xs"
| "stable_fields [] = []"
| "stable_fields ((k, v) # m) = (k, stableStringify v) # stable_fields m"

definition stable_opt :: "json option \<Rightarrow> string" where
  "stable_opt v = (case v of None \<Rightarrow> ''undefined'' | Some j \<Rightarrow> stableStringify j)"

text \<open>The canonical object itself, whose fields may be \<open>undefined\<close>.\<close>

definition stable_canonical :: "(string \<times> json option) list \<Rightarrow> string" where
  "stable_canonical m =
     ''{'' @ join_str '','' (map (\<lambda>(k, v). json_quote k @ '':'' @ stable_opt v)
       (sort_key fst m)) @ ''}''"

section \<open>Printing is injective\<close>

text \<open>Printing in the order given, and the value with its keys in order.\<close>

fun print_json :: "json \<Rightarrow> string"
  and print_items :: "json list \<Rightarrow> string"
  and print_fields :: "(string \<times> json) list \<Rightarrow> string" where
  "print_json JNull = ''null''"
| "print_json (JBool b) = (if b then ''true'' else ''false'')"
| "print_json (JNum n) = string_of_int n"
| "print_json (JStr s) = json_quote s"
| "print_json (JArr []) = ''[]''"
| "print_json (JArr (x # xs)) = ''['' @ print_json x @ print_items xs"
| "print_json (JObj []) = ''{}''"
| "print_json (JObj ((k, v) # m)) = ''{'' @ json_quote k @ '':'' @ print_json v @ print_fields m"
| "print_items [] = '']''"
| "print_items (x # xs) = '','' @ print_json x @ print_items xs"
| "print_fields [] = ''}''"
| "print_fields ((k, v) # m) = '','' @ json_quote k @ '':'' @ print_json v @ print_fields m"

fun json_norm :: "json \<Rightarrow> json"
  and norm_items :: "json list \<Rightarrow> json list"
  and norm_fields :: "(string \<times> json) list \<Rightarrow> (string \<times> json) list" where
  "json_norm (JArr xs) = JArr (norm_items xs)"
| "json_norm (JObj m) = JObj (sort_key fst (norm_fields m))"
| "json_norm JNull = JNull"
| "json_norm (JBool b) = JBool b"
| "json_norm (JNum n) = JNum n"
| "json_norm (JStr s) = JStr s"
| "norm_items [] = []"
| "norm_items (x # xs) = json_norm x # norm_items xs"
| "norm_fields [] = []"
| "norm_fields ((k, v) # m) = (k, json_norm v) # norm_fields m"

lemma insort_key_map:
  "insort_key fst (a, f b) (map (\<lambda>(k, v). (k, f v)) m) =
     map (\<lambda>(k, v). (k, f v)) (insort_key fst (a, b) m)"
  by (induction m) auto

lemma sort_key_map:
  "sort_key fst (map (\<lambda>(k, v). (k, f v)) m) = map (\<lambda>(k, v). (k, f v)) (sort_key fst m)"
  by (induction m) (auto simp: insort_key_map split: prod.splits)

lemma join_items: "join_str '','' (x # map print_json xs) @ '']'' = x @ print_items xs"
  by (induction xs arbitrary: x) auto

lemma join_fields:
  "join_str '','' (x # map (\<lambda>(k, v). json_quote k @ '':'' @ print_json v) m) @ ''}'' = x @ print_fields m"
  by (induction m arbitrary: x) auto

lemma print_arr: "''['' @ join_str '','' (map print_json xs) @ '']'' = print_json (JArr xs)"
  using join_items by (cases xs) auto

lemma print_obj:
  "''{'' @ join_str '','' (map (\<lambda>(k, v). json_quote k @ '':'' @ print_json v) m) @ ''}'' =
   print_json (JObj m)"
  using join_fields by (cases m) auto

lemma stable_print:
  "stableStringify j = print_json (json_norm j)"
  "stable_items xs = map print_json (norm_items xs)"
  "stable_fields m = map (\<lambda>(k, v). (k, print_json v)) (norm_fields m)"
proof (induction j and xs and m rule: stableStringify_stable_items_stable_fields.induct)
  case (5 xs)
  then show ?case by (simp only: stableStringify.simps print_arr json_norm.simps)
next
  case (6 m)
  have "map (\<lambda>(k, v). json_quote k @ '':'' @ v) (sort_key fst (stable_fields m)) =
      map (\<lambda>(k, v). json_quote k @ '':'' @ print_json v) (sort_key fst (norm_fields m))"
    unfolding 6 sort_key_map by (simp add: comp_def case_prod_beta)
  then show ?case by (simp only: stableStringify.simps print_obj json_norm.simps)
qed simp_all

text \<open>What may follow a printed value.\<close>

fun json_delim :: "string \<Rightarrow> bool" where
  "json_delim [] = True"
| "json_delim (c # r) = (c = CHR '','' \<or> c = CHR '']'' \<or> c = CHR ''}'')"

definition is_digit :: "char \<Rightarrow> bool" where
  "is_digit c \<longleftrightarrow> 48 \<le> (of_char c :: nat) \<and> (of_char c :: nat) \<le> 57"

lemma digit_char_digit: "n < 10 \<Longrightarrow> is_digit (digit_char n) \<and> of_char (digit_char n) = 48 + n"
  unfolding digit_char_def is_digit_def
  by (simp add: numeral_eq_Suc less_Suc_eq) (auto simp: numeral_eq_Suc)

lemma string_of_nat_digits: "list_all is_digit (string_of_nat n) \<and> string_of_nat n \<noteq> []"
proof (induction n rule: string_of_nat.induct)
  case (1 n)
  then show ?case
    using digit_char_digit [of n] digit_char_digit [of "n mod 10"]
    by (cases "n < 10") (simp_all add: string_of_nat.simps [of n])
qed

definition digits_value :: "string \<Rightarrow> nat" where
  "digits_value s = foldl (\<lambda>a c. 10 * a + (of_char c - 48)) 0 s"

lemma digits_value_string_of_nat: "digits_value (string_of_nat n) = n"
proof (induction n rule: string_of_nat.induct)
  case (1 n)
  then show ?case
    using digit_char_digit [of n] digit_char_digit [of "n mod 10"]
    by (cases "n < 10") (simp_all add: string_of_nat.simps [of n] digits_value_def)
qed

lemma json_delim_no_digit: "json_delim r \<Longrightarrow> r = [] \<or> \<not> is_digit (hd r)"
  by (cases r) (auto simp: is_digit_def)

lemma digits_append_inj:
  assumes "list_all is_digit a" and "list_all is_digit b"
    and "r = [] \<or> \<not> is_digit (hd r)" and "s = [] \<or> \<not> is_digit (hd s)"
    and "a @ r = b @ s"
  shows "a = b \<and> r = s"
proof -
  have tw: "takeWhile is_digit (x @ t) = x" if "list_all is_digit x" "t = [] \<or> \<not> is_digit (hd t)"
    for x t
    using that by (cases t) (auto simp: takeWhile_append list_all_iff)
  from tw [OF assms(1,3)] tw [OF assms(2,4)] assms(5) have "a = b" by simp
  with assms(5) show ?thesis by simp
qed

lemma string_of_int_inj:
  assumes "json_delim r" and "json_delim s" and "string_of_int m @ r = string_of_int n @ s"
  shows "m = n \<and> r = s"
proof -
  have minus: "\<not> is_digit CHR ''-''" by (simp add: is_digit_def)
  have hd: "hd (string_of_nat k @ t) \<noteq> CHR ''-''" for k t
    using string_of_nat_digits [of k] minus by (cases "string_of_nat k") auto
  have nat_inj: "k = l \<and> r = s" if "string_of_nat k @ r = string_of_nat l @ s" for k l
    using digits_append_inj [OF _ _ json_delim_no_digit [OF assms(1)] json_delim_no_digit [OF assms(2)] that]
      string_of_nat_digits digits_value_string_of_nat by metis
  show ?thesis
  proof (cases "m < 0")
    case m: True
    show ?thesis
    proof (cases "n < 0")
      case True
      with m assms(3) have "string_of_nat (nat (- m)) @ r = string_of_nat (nat (- n)) @ s"
        by (simp add: string_of_int_def)
      from nat_inj [OF this] m True show ?thesis by (simp add: eq_nat_nat_iff)
    next
      case False
      with m assms(3) have "string_of_nat (nat n) @ s = CHR ''-'' # string_of_nat (nat (- m)) @ r"
        by (simp add: string_of_int_def)
      with hd [of "nat n" s] show ?thesis by simp
    qed
  next
    case m: False
    show ?thesis
    proof (cases "n < 0")
      case True
      with m assms(3) have "string_of_nat (nat m) @ r = CHR ''-'' # string_of_nat (nat (- n)) @ s"
        by (simp add: string_of_int_def)
      with hd [of "nat m" r] show ?thesis by simp
    next
      case False
      with m assms(3) have "string_of_nat (nat m) @ r = string_of_nat (nat n) @ s"
        by (simp add: string_of_int_def)
      from nat_inj [OF this] m False show ?thesis by (simp add: eq_nat_nat_iff)
    qed
  qed
qed

text \<open>The escapes are a prefix code, and none begins with a quote.\<close>

lemma hex_digit_inj: "a < 16 \<Longrightarrow> b < 16 \<Longrightarrow> hex_digit a = hex_digit b \<Longrightarrow> a = b"
proof -
  have d: "distinct ''0123456789abcdef''" and l: "length ''0123456789abcdef'' = 16" by simp_all
  show "a < 16 \<Longrightarrow> b < 16 \<Longrightarrow> hex_digit a = hex_digit b \<Longrightarrow> a = b"
    unfolding hex_digit_def using nth_eq_iff_index_eq [OF d, of a b] l by simp
qed

lemma of_char_nat_inj: "(of_char c :: nat) = of_char d \<Longrightarrow> c = d"
  by (metis char_of_char)

lemma control_escape_inj:
  assumes c: "of_char c < (32 :: nat)" and d: "of_char d < (32 :: nat)"
    and h1: "hex_digit (of_char c div 16) = hex_digit (of_char d div 16)"
    and h2: "hex_digit (of_char c mod 16) = hex_digit (of_char d mod 16)"
  shows "c = d"
proof -
  have "of_char c div 16 = (of_char d div 16 :: nat)"
    by (rule hex_digit_inj [OF _ _ h1]) (use c d in auto)
  moreover have "of_char c mod 16 = (of_char d mod 16 :: nat)"
    by (rule hex_digit_inj [OF _ _ h2]) auto
  ultimately have "(of_char c :: nat) = of_char d" by (metis div_mult_mod_eq)
  then show ?thesis by (rule of_char_nat_inj)
qed

text \<open>A character is printed as itself, by a letter after a backslash, or by its number.\<close>

definition escape_letters :: "(char \<times> char) list" where
  "escape_letters =
     [(CHR 0x22, CHR 0x22), (CHR 0x5C, CHR 0x5C), (CHR 0x08, CHR ''b''), (CHR 0x09, CHR ''t''),
      (CHR 0x0A, CHR ''n''), (CHR 0x0C, CHR ''f''), (CHR 0x0D, CHR ''r'')]"

lemma escape_letters_inj:
  "(c, z) \<in> set escape_letters \<Longrightarrow> (d, z) \<in> set escape_letters \<Longrightarrow> c = d"
  "(c, z) \<in> set escape_letters \<Longrightarrow> z \<noteq> CHR ''u''"
  by (auto simp: escape_letters_def)

lemma json_escape_cases:
  obtains (plain) "json_escape c = [c]" "c \<noteq> CHR 0x5C" "c \<noteq> CHR 0x22"
  | (letter) z where "json_escape c = [CHR 0x5C, z]" "(c, z) \<in> set escape_letters"
  | (number) "of_char c < (32 :: nat)"
      "json_escape c = [CHR 0x5C, CHR ''u'', CHR ''0'', CHR ''0'',
         hex_digit (of_char c div 16), hex_digit (of_char c mod 16)]"
proof (cases "\<exists>z. (c, z) \<in> set escape_letters")
  case True
  then obtain z where z: "(c, z) \<in> set escape_letters" by blast
  then have "json_escape c = [CHR 0x5C, z]" by (auto simp: escape_letters_def json_escape_def)
  with z letter show thesis by blast
next
  case False
  then have "c \<noteq> CHR 0x22" "c \<noteq> CHR 0x5C" "c \<noteq> CHR 0x08" "c \<noteq> CHR 0x09" "c \<noteq> CHR 0x0A"
      "c \<noteq> CHR 0x0C" "c \<noteq> CHR 0x0D"
    by (auto simp: escape_letters_def)
  then show thesis using plain number by (cases "of_char c < (32 :: nat)") (simp_all add: json_escape_def)
qed

lemma json_escape_prefix:
  assumes "json_escape c @ x = json_escape d @ y"
  shows "c = d \<and> x = y"
proof (cases c rule: json_escape_cases)
  case c: plain
  show ?thesis by (cases d rule: json_escape_cases) (use assms c in auto)
next
  case c: (letter z)
  show ?thesis
  proof (cases d rule: json_escape_cases)
    case (letter w)
    with assms c escape_letters_inj(1) [of c z d] show ?thesis by simp
  next
    case number
    with assms c escape_letters_inj(2) [of c z] show ?thesis by simp
  qed (use assms c in simp)
next
  case c: number
  show ?thesis
  proof (cases d rule: json_escape_cases)
    case (letter w)
    with assms c escape_letters_inj(2) [of d w] show ?thesis by simp
  next
    case number
    with assms c control_escape_inj [of c d] show ?thesis by simp
  qed (use assms c in simp)
qed

lemma json_escape_no_quote: "json_escape c @ x \<noteq> CHR 0x22 # y"
  by (cases c rule: json_escape_cases) simp_all

lemma json_quote_inj: "json_quote a @ r = json_quote b @ s \<Longrightarrow> a = b \<and> r = s"
proof -
  have "concat (map json_escape a) @ CHR 0x22 # r = concat (map json_escape b) @ CHR 0x22 # s \<Longrightarrow>
      a = b \<and> r = s"
  proof (induction a arbitrary: b)
    case Nil
    then show ?case
    proof (cases b)
      case (Cons d b')
      with Nil have "json_escape d @ concat (map json_escape b') @ CHR 0x22 # s = CHR 0x22 # r"
        by (simp add: eq_commute)
      with json_escape_no_quote show ?thesis by blast
    qed simp
  next
    case (Cons c a)
    show ?case
    proof (cases b)
      case Nil
      with Cons.prems json_escape_no_quote [of c] show ?thesis by simp
    next
      case b: (Cons d b')
      with Cons.prems have "json_escape c @ concat (map json_escape a) @ CHR 0x22 # r =
          json_escape d @ concat (map json_escape b') @ CHR 0x22 # s" by simp
      from json_escape_prefix [OF this] Cons.IH [of b'] b show ?thesis by auto
    qed
  qed
  then show "json_quote a @ r = json_quote b @ s \<Longrightarrow> a = b \<and> r = s"
    by (simp add: json_quote_def)
qed

text \<open>The first character of a printed value tells its constructor.\<close>

definition num_start :: "char \<Rightarrow> bool" where
  "num_start c \<longleftrightarrow> is_digit c \<or> c = CHR ''-''"

lemma string_of_int_start: "\<exists>c t. string_of_int n = c # t \<and> num_start c"
proof -
  have "\<exists>c t. string_of_nat k = c # t \<and> is_digit c" for k
    using string_of_nat_digits [of k] by (cases "string_of_nat k") auto
  from this [of "nat n"] show ?thesis by (auto simp: string_of_int_def num_start_def)
qed

lemma num_start_simps [simp]:
  "\<not> num_start CHR ''n''" "\<not> num_start CHR ''t''" "\<not> num_start CHR ''f''"
  "\<not> num_start CHR 0x22" "\<not> num_start CHR ''[''" "\<not> num_start CHR ''{''"
  "\<not> num_start CHR '']''" "\<not> num_start CHR ''}''" "\<not> num_start CHR ''u''"
  by (simp_all add: num_start_def is_digit_def)

lemma json_quote_start: "\<exists>t. json_quote s = CHR 0x22 # t"
  by (simp add: json_quote_def)

fun json_start :: "json \<Rightarrow> char \<Rightarrow> bool" where
  "json_start JNull c = (c = CHR ''n'')"
| "json_start (JBool b) c = (c = (if b then CHR ''t'' else CHR ''f''))"
| "json_start (JNum n) c = num_start c"
| "json_start (JStr s) c = (c = CHR 0x22)"
| "json_start (JArr xs) c = (c = CHR ''['')"
| "json_start (JObj m) c = (c = CHR ''{'')"

lemma print_start: "\<exists>c t. print_json j = c # t \<and> json_start j c"
proof (cases j)
  case (JNum n)
  with string_of_int_start [of n] show ?thesis by auto
next
  case (JStr s)
  with json_quote_start [of s] show ?thesis by auto
next
  case (JArr xs)
  then show ?thesis by (cases xs) auto
next
  case (JObj m)
  then show ?thesis by (cases m rule: list.exhaust) auto
qed auto

lemma print_delims:
  "json_delim (print_items xs @ r)" "json_delim (print_fields m @ s)"
  by (cases xs; simp) (cases m rule: list.exhaust; auto)

lemma json_start_no_close: "\<not> json_start j CHR '']''"
  by (cases j) (auto split: if_splits)

lemma print_no_close: "print_json j @ t \<noteq> CHR '']'' # u"
  using print_start [of j] json_start_no_close [of j] by auto

lemma print_inj:
  "print_json j @ r = print_json k @ s \<Longrightarrow> json_delim r \<Longrightarrow> json_delim s \<Longrightarrow> j = k \<and> r = s"
  "print_items xs @ r = print_items ys @ s \<Longrightarrow> xs = ys \<and> r = s"
  "print_fields m @ r = print_fields m' @ s \<Longrightarrow> m = m' \<and> r = s"
proof (induction j and xs and m arbitrary: k r s and ys r s and m' r s
    rule: print_json_print_items_print_fields.induct)
  case 1
  with print_start [of k] show ?case by (cases k) (auto split: if_splits)
next
  case (2 b)
  with print_start [of k] show ?case by (cases k) (auto split: if_splits)
next
  case (3 n)
  with print_start [of k] string_of_int_start [of n] string_of_int_inj [of r s n] show ?case
    by (cases k) (auto split: if_splits)
next
  case (4 x)
  with print_start [of k] json_quote_start [of x] json_quote_inj [of x r _ s] show ?case
    by (cases k) (auto split: if_splits)
next
  case 5
  then obtain ys where k: "k = JArr ys" using print_start [of k] by (cases k) (auto split: if_splits)
  with 5 show ?case
  proof (cases ys)
    case (Cons y ys')
    have "print_json (JArr []) @ r = print_json (JArr (y # ys')) @ s" using 5(1) unfolding k Cons .
    then have "CHR '']'' # r = print_json y @ print_items ys' @ s"
      unfolding print_json.simps append.simps append_assoc list.inject by blast
    with print_no_close [of y "print_items ys' @ s" r] show ?thesis by argo
  qed simp
next
  case (6 x xs)
  from 6(3) obtain ys where k: "k = JArr ys" using print_start [of k] by (cases k) (auto split: if_splits)
  show ?case
  proof (cases ys)
    case Nil
    with 6(3) k have "print_json x @ print_items xs @ r = CHR '']'' # s" by simp
    with print_no_close [of x "print_items xs @ r" s] show ?thesis by argo
  next
    case (Cons y ys')
    with 6(3) k have eq: "print_json x @ print_items xs @ r = print_json y @ print_items ys' @ s" by simp
    from 6(1) [OF eq print_delims(1) print_delims(1)] 6(2) [of r ys' s] k Cons show ?thesis by simp
  qed
next
  case 7
  then obtain m where k: "k = JObj m" using print_start [of k] by (cases k) (auto split: if_splits)
  with 7 show ?case
  proof (cases m)
    case (Cons p m')
    with 7 k json_quote_start [of "fst p"] show ?thesis by (cases p) auto
  qed simp
next
  case (8 a x m)
  from 8(3) obtain m1 where k: "k = JObj m1" using print_start [of k] by (cases k) (auto split: if_splits)
  show ?case
  proof (cases m1)
    case Nil
    with 8(3) k json_quote_start [of a] show ?thesis by auto
  next
    case (Cons p m2)
    obtain b y where p: "p = (b, y)" by (cases p)
    with 8(3) k Cons have "json_quote a @ '':'' @ print_json x @ print_fields m @ r =
        json_quote b @ '':'' @ print_json y @ print_fields m2 @ s" by simp
    from json_quote_inj [OF this] have ab: "a = b"
      and eq: "print_json x @ print_fields m @ r = print_json y @ print_fields m2 @ s" by simp_all
    from 8(1) [OF eq print_delims(2) print_delims(2)] 8(2) [of r m2 s] ab p k Cons show ?thesis by simp
  qed
next
  case 9
  then show ?case by (cases ys) auto
next
  case (10 x xs)
  show ?case
  proof (cases ys)
    case Nil
    with 10(3) show ?thesis by simp
  next
    case (Cons y ys')
    with 10(3) have eq: "print_json x @ print_items xs @ r = print_json y @ print_items ys' @ s" by simp
    from 10(1) [OF eq print_delims(1) print_delims(1)] 10(2) [of r ys' s] Cons show ?thesis by simp
  qed
next
  case 11
  then show ?case by (cases m' rule: list.exhaust) auto
next
  case (12 a x m)
  show ?case
  proof (cases m')
    case Nil
    with 12(3) show ?thesis by simp
  next
    case (Cons p m2)
    obtain b y where p: "p = (b, y)" by (cases p)
    with 12(3) Cons have "json_quote a @ '':'' @ print_json x @ print_fields m @ r =
        json_quote b @ '':'' @ print_json y @ print_fields m2 @ s" by simp
    from json_quote_inj [OF this] have ab: "a = b"
      and eq: "print_json x @ print_fields m @ r = print_json y @ print_fields m2 @ s" by simp_all
    from 12(1) [OF eq print_delims(2) print_delims(2)] 12(2) [of r m2 s] ab p Cons show ?thesis by simp
  qed
qed

section \<open>The canonical object is injective\<close>

definition norm_opt_fields :: "(string \<times> json option) list \<Rightarrow> (string \<times> json option) list" where
  "norm_opt_fields m = map (\<lambda>(k, v). (k, map_option json_norm v)) m"

fun print_tail :: "(string \<times> json option) list \<Rightarrow> string" where
  "print_tail [] = ''}''"
| "print_tail ((k, v) # m) = '','' @ json_quote k @ '':'' @ stable_opt v @ print_tail m"

lemma print_tail_join:
  "join_str '','' (x # map (\<lambda>(k, v). json_quote k @ '':'' @ stable_opt v) m) @ ''}'' = x @ print_tail m"
  by (induction m arbitrary: x) auto

lemma print_tail_delim: "json_delim (print_tail m @ r)"
  by (cases m rule: print_tail.cases) auto

lemma print_no_u: "print_json j @ r \<noteq> CHR ''u'' # s"
proof -
  obtain c t where c: "print_json j = c # t" "json_start j c" using print_start [of j] by blast
  have "\<not> json_start j CHR ''u''" by (cases j) (auto split: if_splits)
  with c show ?thesis by auto
qed

lemma stable_opt_inj:
  assumes "stable_opt a @ r = stable_opt b @ s" and "json_delim r" and "json_delim s"
  shows "map_option json_norm a = map_option json_norm b \<and> r = s"
  using assms print_inj(1) [of "json_norm (the a)" r "json_norm (the b)" s]
    print_no_u [of "json_norm (the a)" r] print_no_u [of "json_norm (the b)" s]
  by (cases a; cases b) (auto simp: stable_opt_def stable_print, metis)

lemma print_tail_inj: "print_tail m = print_tail m' \<Longrightarrow> norm_opt_fields m = norm_opt_fields m'"
proof (induction m arbitrary: m' rule: print_tail.induct)
  case 1
  then show ?case by (cases m' rule: print_tail.cases) (auto simp: norm_opt_fields_def)
next
  case (2 a v m)
  note IH = 2(1) and eq0 = 2(2)
  show ?case
  proof (cases m' rule: print_tail.cases)
    case 1
    with eq0 show ?thesis by simp
  next
    case (2 b w m2)
    with eq0 have "json_quote a @ '':'' @ stable_opt v @ print_tail m =
        json_quote b @ '':'' @ stable_opt w @ print_tail m2" by simp
    from json_quote_inj [OF this] have ab: "a = b"
      and eq: "stable_opt v @ print_tail m = stable_opt w @ print_tail m2" by simp_all
    have "json_delim (print_tail m)" "json_delim (print_tail m2)"
      using print_tail_delim [of _ "[]"] by simp_all
    with stable_opt_inj [OF eq] have "map_option json_norm v = map_option json_norm w"
      "print_tail m = print_tail m2" by blast+
    with IH [of m2] ab 2 show ?thesis by (simp add: norm_opt_fields_def)
  qed
qed

lemma stable_canonical_tail:
  "stable_canonical m =
     (case sort_key fst m of
        [] \<Rightarrow> ''{}''
      | (k, v) # m' \<Rightarrow> ''{'' @ json_quote k @ '':'' @ stable_opt v @ print_tail m')"
  using print_tail_join by (cases "sort_key fst m") (auto simp: stable_canonical_def)

lemma canonical_inj:
  assumes "stable_canonical m = stable_canonical m'"
  shows "norm_opt_fields (sort_key fst m) = norm_opt_fields (sort_key fst m')"
proof -
  have eq: "print_tail (sort_key fst m) = print_tail (sort_key fst m')"
    using assms by (auto simp: stable_canonical_tail json_quote_def split: list.splits)
  from print_tail_inj [OF this] show ?thesis .
qed

lemma map_of_sort_key: "distinct (map fst m) \<Longrightarrow> map_of (sort_key fst m) = map_of m"
proof (induction m)
  case (Cons p m)
  have "map_of (insort_key fst q l) = (map_of l)(fst q \<mapsto> snd q)" if "fst q \<notin> fst ` set l" for q l
    using that by (induction l) (auto simp: fun_eq_iff)
  from this [of p "sort_key fst m"] Cons show ?case by (cases p) (auto simp: image_iff)
qed simp

lemma sort_key_lookup:
  "sort_key fst m = sort_key fst m' \<Longrightarrow> distinct (map fst m) \<Longrightarrow> distinct (map fst m') \<Longrightarrow>
   map_of m k = map_of m' k"
  by (metis map_of_sort_key)

lemma map_of_norm_opt: "map_of (norm_opt_fields m) k = map_option (map_option json_norm) (map_of m k)"
  by (induction m) (auto simp: norm_opt_fields_def)

lemma map_of_norm_fields: "map_of (norm_fields m) k = map_option json_norm (map_of m k)"
  by (induction m) auto

lemma norm_fields_keys: "map fst (norm_fields m) = map fst m"
  by (induction m) auto

lemma norm_fields_map: "norm_fields m = map (\<lambda>(k, v). (k, json_norm v)) m"
  by (induction m) auto

lemma norm_items_map: "norm_items xs = map json_norm xs"
  by (induction xs) auto

lemma canonical_lookup:
  assumes "stable_canonical m = stable_canonical m'"
    and "distinct (map fst m)" and "distinct (map fst m')"
  shows "map_option (map_option json_norm) (map_of m k) = map_option (map_option json_norm) (map_of m' k)"
proof -
  have "map_of (norm_opt_fields (sort_key fst m)) k = map_of (norm_opt_fields (sort_key fst m')) k"
    using canonical_inj [OF assms(1)] by simp
  then show ?thesis using assms(2,3) by (simp add: map_of_norm_opt map_of_sort_key)
qed

lemma stable_opt_norm: "map_option json_norm a = map_option json_norm b \<Longrightarrow> stable_opt a = stable_opt b"
  by (cases a; cases b) (auto simp: stable_opt_def stable_print)

lemma canonical_cong:
  "list_all2 (\<lambda>(k, a) (l, b). k = l \<and> map_option json_norm a = map_option json_norm b) m m' \<Longrightarrow>
   stable_canonical m = stable_canonical m'"
proof -
  assume "list_all2 (\<lambda>(k, a) (l, b). k = l \<and> map_option json_norm a = map_option json_norm b) m m'"
  then have "map (\<lambda>(k, a). (k, stable_opt a)) m = map (\<lambda>(k, a). (k, stable_opt a)) m'"
    by (induction m m' rule: list_all2_induct) (auto dest: stable_opt_norm)
  then have "map (\<lambda>(k, a). (k, stable_opt a)) (sort_key fst m) =
      map (\<lambda>(k, a). (k, stable_opt a)) (sort_key fst m')"
    by (simp flip: sort_key_map)
  then have "map (\<lambda>(k, v). json_quote k @ '':'' @ v) (map (\<lambda>(k, a). (k, stable_opt a)) (sort_key fst m)) =
      map (\<lambda>(k, v). json_quote k @ '':'' @ v) (map (\<lambda>(k, a). (k, stable_opt a)) (sort_key fst m'))"
    by (rule arg_cong)
  then show ?thesis by (simp add: stable_canonical_def comp_def case_prod_unfold)
qed

end
