(* ===== verification/DefinitionHash.thy ===== *)
theory DefinitionHash
  imports JsonPrint
begin

text \<open>
  The identity of a service definition, \<open>stacks/definition-hash.ts\<close>: the canonical object a
  definition is reduced to and the hash of its printing. SHA-256 is node's and so a parameter,
  \<open>sha\<close>; so is \<open>le\<close>, the order \<open>localeCompare\<close> puts strings in.
\<close>

section \<open>Service definitions\<close>

datatype job_pool_trigger =
    CronTrigger string string "string option"
  | NatsRequestTrigger string string bool
  | ManualTrigger string

record job_pool_config =
  jp_triggers :: "job_pool_trigger list"
  jp_history :: "json option"
  jp_killAfterSeconds :: "int option"
  jp_onFailure :: "json option"

record service_definition =
  sd_serviceName :: string
  sd_serviceType :: string
  sd_dockerImage :: string
  sd_dockerTag :: string
  sd_containerConfig :: "(string \<times> json) list option"
  sd_configFiles :: "json list option"
  sd_initCommands :: "json list option"
  sd_routing :: "json option"
  sd_adoptedContainer :: "json option"
  sd_addons :: "json option"
  sd_jobPoolConfig :: "job_pool_config option"

text \<open>\<open>a ?? null\<close>.\<close>

definition or_null :: "json option \<Rightarrow> json" where
  "or_null j = nullish j JNull"

text \<open>A JSON value in a condition.\<close>

fun json_truthy :: "json option \<Rightarrow> bool" where
  "json_truthy None = False"
| "json_truthy (Some JNull) = False"
| "json_truthy (Some (JBool b)) = b"
| "json_truthy (Some (JNum n)) = (n \<noteq> 0)"
| "json_truthy (Some (JStr s)) = (s \<noteq> [])"
| "json_truthy (Some _) = True"

definition stripDynamic :: "(string \<times> json) list option \<Rightarrow> (string \<times> json) list option" where
  "stripDynamic cc =
     (case cc of
        None \<Rightarrow> None
      | Some m \<Rightarrow>
          if json_truthy (map_of m ''dynamicEnv'') then Some (om_delete ''dynamicEnv'' m) else Some m)"

definition canonicaliseTrigger :: "job_pool_trigger \<Rightarrow> json" where
  "canonicaliseTrigger t =
     (case t of
        CronTrigger name schedule timezone \<Rightarrow>
          JObj [(''kind'', JStr ''cron''), (''name'', JStr name), (''schedule'', JStr schedule),
            (''timezone'', or_null (map_option JStr timezone))]
      | NatsRequestTrigger name subject ack \<Rightarrow>
          JObj [(''kind'', JStr ''nats-request''), (''name'', JStr name), (''subject'', JStr subject),
            (''ackWithRunId'', JBool ack)]
      | ManualTrigger name \<Rightarrow> JObj [(''kind'', JStr ''manual''), (''name'', JStr name)])"

text \<open>A stable sort by a key in the order \<open>le\<close>, as \<open>Array.sort\<close> does with a comparator.\<close>

fun insert_by :: "(string \<Rightarrow> string \<Rightarrow> bool) \<Rightarrow> ('a \<Rightarrow> string) \<Rightarrow> 'a \<Rightarrow> 'a list \<Rightarrow> 'a list" where
  "insert_by le key x [] = [x]"
| "insert_by le key x (y # ys) =
     (if le (key x) (key y) then x # y # ys else y # insert_by le key x ys)"

fun sort_by :: "(string \<Rightarrow> string \<Rightarrow> bool) \<Rightarrow> ('a \<Rightarrow> string) \<Rightarrow> 'a list \<Rightarrow> 'a list" where
  "sort_by le key [] = []"
| "sort_by le key (x # xs) = insert_by le key x (sort_by le key xs)"

text \<open>A field of a JSON object in a template literal.\<close>

definition field_str :: "string \<Rightarrow> json \<Rightarrow> string" where
  "field_str k j =
     (case j of
        JObj m \<Rightarrow> (case map_of m k of Some v \<Rightarrow> js_string v | None \<Rightarrow> ''undefined'')
      | _ \<Rightarrow> ''undefined'')"

definition pair_key :: "string \<Rightarrow> string \<Rightarrow> json \<Rightarrow> string" where
  "pair_key a b j = field_str a j @ '':'' @ field_str b j"

definition canonicaliseJobPoolConfig ::
  "(string \<Rightarrow> string \<Rightarrow> bool) \<Rightarrow> job_pool_config option \<Rightarrow> json" where
  "canonicaliseJobPoolConfig le cfg =
     (case cfg of
        None \<Rightarrow> JNull
      | Some c \<Rightarrow>
          JObj [(''triggers'', JArr (sort_by le (pair_key ''kind'' ''name'')
                   (map canonicaliseTrigger (jp_triggers c)))),
                (''history'', or_null (jp_history c)),
                (''killAfterSeconds'', or_null (map_option JNum (jp_killAfterSeconds c))),
                (''onFailure'', or_null (jp_onFailure c))])"

definition config_field :: "service_definition \<Rightarrow> string \<Rightarrow> json option" where
  "config_field s k = Option.bind (sd_containerConfig s) (\<lambda>m. map_of m k)"

definition hash_canonical ::
  "(string \<Rightarrow> string \<Rightarrow> bool) \<Rightarrow> service_definition \<Rightarrow> json list option \<Rightarrow> (string \<times> json option) list" where
  "hash_canonical le s resolved =
     (if sd_serviceType s = ''AdoptedWeb'' then
        [(''serviceType'', Some (JStr ''AdoptedWeb'')),
         (''adoptedContainer'', Some (or_null (sd_adoptedContainer s))),
         (''routing'', Some (or_null (sd_routing s))),
         (''joinNetworks'', Some (or_null (config_field s ''joinNetworks''))),
         (''joinResourceNetworks'', Some (or_null (config_field s ''joinResourceNetworks'')))]
      else
        [(''dockerImage'', Some (JStr (sd_dockerImage s))),
         (''dockerTag'', Some (JStr (sd_dockerTag s))),
         (''containerConfig'', map_option JObj (stripDynamic (sd_containerConfig s))),
         (''configFiles'', Some (JArr (sort_by le (pair_key ''volumeName'' ''path'')
            (nullish resolved (nullish (sd_configFiles s) []))))),
         (''initCommands'', Some (JArr (sort_by le (pair_key ''volumeName'' ''mountPath'')
            (nullish (sd_initCommands s) [])))),
         (''routing'', Some (or_null (sd_routing s))),
         (''addons'', Some (or_null (sd_addons s))),
         (''jobPoolConfig'', Some
            (if sd_serviceType s = ''JobPool''
             then canonicaliseJobPoolConfig le (sd_jobPoolConfig s) else JNull))])"

definition computeDefinitionHash ::
  "(string \<Rightarrow> string) \<Rightarrow> (string \<Rightarrow> string \<Rightarrow> bool) \<Rightarrow> service_definition \<Rightarrow> json list option \<Rightarrow> string" where
  "computeDefinitionHash sha le s resolved =
     ''sha256:'' @ sha (stable_canonical (hash_canonical le s resolved))"

section \<open>Synthetic sidecars\<close>

record synthetic_info =
  sy_addonIds :: "string list"
  sy_kind :: "string option"
  sy_targetService :: string

definition synthetic_canonical ::
  "synthetic_info \<Rightarrow> (string \<times> json) list option \<Rightarrow> (string \<times> json option) list" where
  "synthetic_canonical sy addons =
     (let ids = sort (sy_addonIds sy);
          relevant = foldl (\<lambda>m i. om_set i (or_null (Option.bind addons (\<lambda>a. map_of a i))) m) [] ids
      in [(''syntheticAddonIds'', Some (JArr (map JStr ids))),
          (''syntheticKind'', Some (or_null (map_option JStr (sy_kind sy)))),
          (''syntheticTarget'', Some (JStr (sy_targetService sy))),
          (''addonConfigs'', Some (JObj relevant))])"

definition computeSyntheticDefinitionHash ::
  "(string \<Rightarrow> string) \<Rightarrow> synthetic_info \<Rightarrow> (string \<times> json) list option \<Rightarrow> string" where
  "computeSyntheticDefinitionHash sha sy addons =
     ''sha256:'' @ sha (stable_canonical (synthetic_canonical sy addons))"

section \<open>What the hash tells apart\<close>

lemma hash_canonical_distinct: "distinct (map fst (hash_canonical le s r))"
  by (simp add: hash_canonical_def)

lemma synthetic_canonical_distinct: "distinct (map fst (synthetic_canonical sy a))"
  by (simp add: synthetic_canonical_def Let_def)

lemma hash_lookup:
  assumes "inj sha" and "computeDefinitionHash sha le s r = computeDefinitionHash sha le t q"
  shows "map_option (map_option json_norm) (map_of (hash_canonical le s r) k) =
    map_option (map_option json_norm) (map_of (hash_canonical le t q) k)"
  using assms(2) injD [OF assms(1)]
  by (intro canonical_lookup hash_canonical_distinct) (auto simp: computeDefinitionHash_def)

text \<open>C19: With a collision-free digest, comparing hashes misses no change of a service the stack itself
  runs: two definitions with the same hash agree on the image, the tag, the
  container configuration without \<open>dynamicEnv\<close> (up to the order of its keys), the routing, the
  authored addons, the configuration files and init commands in their sorted order, and, for a job
  pool, the canonical pool configuration. A field that is \<open>undefined\<close> is told apart from every value.\<close>

theorem hash_detects_change:
  assumes "inj sha" and "computeDefinitionHash sha le s r = computeDefinitionHash sha le t q"
    and "sd_serviceType s \<noteq> ''AdoptedWeb''"
  shows "sd_serviceType t \<noteq> ''AdoptedWeb'' \<and>
    sd_dockerImage s = sd_dockerImage t \<and> sd_dockerTag s = sd_dockerTag t \<and>
    map_option (json_norm \<circ> JObj) (stripDynamic (sd_containerConfig s)) =
      map_option (json_norm \<circ> JObj) (stripDynamic (sd_containerConfig t)) \<and>
    json_norm (or_null (sd_routing s)) = json_norm (or_null (sd_routing t)) \<and>
    json_norm (or_null (sd_addons s)) = json_norm (or_null (sd_addons t)) \<and>
    map json_norm (sort_by le (pair_key ''volumeName'' ''path'') (nullish r (nullish (sd_configFiles s) []))) =
      map json_norm (sort_by le (pair_key ''volumeName'' ''path'') (nullish q (nullish (sd_configFiles t) []))) \<and>
    map json_norm (sort_by le (pair_key ''volumeName'' ''mountPath'') (nullish (sd_initCommands s) [])) =
      map json_norm (sort_by le (pair_key ''volumeName'' ''mountPath'') (nullish (sd_initCommands t) [])) \<and>
    json_norm (if sd_serviceType s = ''JobPool''
        then canonicaliseJobPoolConfig le (sd_jobPoolConfig s) else JNull) =
      json_norm (if sd_serviceType t = ''JobPool''
        then canonicaliseJobPoolConfig le (sd_jobPoolConfig t) else JNull)"
proof -
  note eq = hash_lookup [OF assms(1,2)]
  have t: "sd_serviceType t \<noteq> ''AdoptedWeb''"
    using eq [of "''dockerImage''"] assms(3) by (auto simp: hash_canonical_def)
  with assms(3) eq [of "''dockerImage''"] eq [of "''dockerTag''"] eq [of "''containerConfig''"]
    eq [of "''routing''"] eq [of "''addons''"] eq [of "''configFiles''"] eq [of "''initCommands''"]
    eq [of "''jobPoolConfig''"]
  show ?thesis
    by (simp add: hash_canonical_def option.map_comp comp_def norm_items_map del: json_norm.simps(2))
qed

definition hash_example :: service_definition where
  "hash_example = \<lparr>sd_serviceName = ''web'', sd_serviceType = ''Stateful'', sd_dockerImage = ''nginx'',
     sd_dockerTag = ''1.27'',
     sd_containerConfig = Some [(''env'', JObj [(''B'', JStr ''2''), (''A'', JStr ''1'')]),
       (''dynamicEnv'', JObj [(''SECRET'', JStr ''vault-wrapped-secret-id'')])],
     sd_configFiles = None, sd_initCommands = None, sd_routing = None, sd_adoptedContainer = None,
     sd_addons = None, sd_jobPoolConfig = None\<rparr>"

lemma hash_detects_change_witness:
  "map_option (json_norm \<circ> JObj) (stripDynamic (sd_containerConfig hash_example)) =
   map_option (json_norm \<circ> JObj) (stripDynamic (sd_containerConfig
     (hash_example\<lparr>sd_containerConfig :=
        Some [(''env'', JObj [(''B'', JStr ''2''), (''A'', JStr ''1'')])]\<rparr>)))"
proof -
  have "computeDefinitionHash id (\<le>) hash_example None = computeDefinitionHash id (\<le>)
      (hash_example\<lparr>sd_containerConfig := Some [(''env'', JObj [(''B'', JStr ''2''), (''A'', JStr ''1'')])]\<rparr>) None"
    by (simp add: hash_example_def computeDefinitionHash_def hash_canonical_def stripDynamic_def om_delete_def)
  moreover have "sd_serviceType hash_example \<noteq> ''AdoptedWeb''" by (simp add: hash_example_def)
  ultimately show ?thesis
    by (rule hash_detects_change [OF inj_on_id, THEN conjunct2, THEN conjunct2, THEN conjunct2, THEN conjunct1])
qed

section \<open>What the hash does not depend on\<close>

text \<open>\<open>localeCompare\<close> orders the strings linearly.\<close>

definition locale_order :: "(string \<Rightarrow> string \<Rightarrow> bool) \<Rightarrow> bool" where
  "locale_order le \<longleftrightarrow> (\<forall>a b. le a b \<or> le b a) \<and> (\<forall>a b c. le a b \<longrightarrow> le b c \<longrightarrow> le a c) \<and>
     (\<forall>a b. le a b \<longrightarrow> le b a \<longrightarrow> a = b)"

lemma insert_by_mset [simp]: "mset (insert_by le key x ys) = add_mset x (mset ys)"
  by (induction ys) auto

lemma sort_by_mset [simp]: "mset (sort_by le key xs) = mset xs"
  by (induction xs) auto

lemma insert_by_set: "set (insert_by le key x ys) = insert x (set ys)"
  by (induction ys) auto

lemma insert_by_sorted:
  assumes "locale_order le" and "sorted_wrt (\<lambda>a b. le (key a) (key b)) ys"
  shows "sorted_wrt (\<lambda>a b. le (key a) (key b)) (insert_by le key x ys)"
proof -
  have total: "le a b \<or> le b a" for a b using assms(1) unfolding locale_order_def by blast
  have trans: "le a b \<Longrightarrow> le b c \<Longrightarrow> le a c" for a b c using assms(1) unfolding locale_order_def by blast
  from assms(2) show ?thesis
  proof (induction ys)
    case (Cons y ys)
    then show ?case using total [of "key x" "key y"] trans [of "key x" "key y"]
      by (auto simp: insert_by_set)
  qed simp
qed

lemma sort_by_sorted:
  "locale_order le \<Longrightarrow> sorted_wrt (\<lambda>a b. le (key a) (key b)) (sort_by le key xs)"
  by (induction xs) (auto intro: insert_by_sorted)

lemma sorted_wrt_unique:
  "sorted_wrt P xs \<Longrightarrow> sorted_wrt P ys \<Longrightarrow> mset xs = mset ys \<Longrightarrow>
   (\<And>x y. x \<in> set xs \<Longrightarrow> y \<in> set xs \<Longrightarrow> P x y \<Longrightarrow> P y x \<Longrightarrow> x = y) \<Longrightarrow> xs = ys"
proof (induction xs arbitrary: ys)
  case (Cons x xs)
  from Cons.prems(3) obtain y ys' where ys: "ys = y # ys'" by (cases ys) auto
  have sets: "set (x # xs) = set ys" using Cons.prems(3) by (metis set_mset_mset)
  have "x = y"
  proof (rule ccontr)
    assume "x \<noteq> y"
    with sets ys have "x \<in> set ys'" "y \<in> set xs" by auto
    with Cons.prems(1,2) ys have "P y x" "P x y" by auto
    with Cons.prems(4) [of x y] \<open>y \<in> set xs\<close> \<open>x \<noteq> y\<close> show False by simp
  qed
  with Cons.prems ys have "xs = ys'" by (intro Cons.IH) auto
  with \<open>x = y\<close> ys show ?case by simp
qed simp

lemma sort_by_perm:
  assumes "locale_order le" and "mset xs = mset ys" and "inj_on key (set xs)"
  shows "sort_by le key xs = sort_by le key ys"
proof (rule sorted_wrt_unique [OF sort_by_sorted [OF assms(1)] sort_by_sorted [OF assms(1)]])
  show "mset (sort_by le key xs) = mset (sort_by le key ys)" using assms(2) by simp
  have "set (sort_by le key xs) = set xs" by (metis set_mset_mset sort_by_mset)
  then show "x = y" if "x \<in> set (sort_by le key xs)" "y \<in> set (sort_by le key xs)"
    "le (key x) (key y)" "le (key y) (key x)" for x y
    using that assms(1,3) unfolding locale_order_def inj_on_def by metis
qed

lemma json_norm_perm:
  assumes "mset m = mset m'" and "distinct (map fst m)"
  shows "json_norm (JObj m) = json_norm (JObj m')"
proof -
  have "mset (norm_fields m) = mset (norm_fields m')"
    using assms(1) by (simp add: norm_fields_map)
  moreover have "inj_on fst (set (norm_fields m))"
    using assms(2) by (metis distinct_map norm_fields_keys)
  ultimately have "sort_key fst (norm_fields m) = sort_key fst (sort_key fst (norm_fields m'))"
    by (intro sort_key_inj_key_eq) auto
  moreover have "sort_key fst (sort_key fst (norm_fields m')) = sort_key fst (norm_fields m')"
    by (rule sort_key_id_if_sorted) simp
  ultimately show ?thesis by simp
qed

lemma map_of_perm: "mset m = mset m' \<Longrightarrow> distinct (map fst m) \<Longrightarrow> map_of m k = map_of m' k"
proof -
  assume mset: "mset m = mset m'" and d: "distinct (map fst m)"
  have "mset (map fst m) = mset (map fst m')" using mset by simp
  with d have "distinct (map fst m')" using mset_eq_imp_distinct_iff by blast
  moreover have "set m = set m'" using mset by (rule mset_eq_setD)
  ultimately show "map_of m k = map_of m' k" using d map_of_inject_set [of m m'] by simp
qed

lemma strip_perm:
  assumes "mset m = mset m'" and "distinct (map fst m)"
  shows "map_option (json_norm \<circ> JObj) (stripDynamic (Some m)) =
    map_option (json_norm \<circ> JObj) (stripDynamic (Some m'))"
proof -
  have "mset (om_delete k m) = mset (om_delete k m')" for k
    using assms(1) by (simp add: om_delete_def mset_filter)
  moreover have "distinct (map fst (om_delete k m))" for k
    using assms(2) om_wf_delete [of m k] by (simp add: om_wf_def)
  ultimately show ?thesis
    using assms json_norm_perm [OF assms] json_norm_perm [of "om_delete ''dynamicEnv'' m"]
      map_of_perm [OF assms] by (simp add: stripDynamic_def del: json_norm.simps)
qed

lemma canonicalise_perm:
  assumes "locale_order le" and "mset ts = mset ts'"
    and "inj_on (pair_key ''kind'' ''name'') (set (map canonicaliseTrigger ts))"
  shows "canonicaliseJobPoolConfig le (map_option (jp_triggers_update (\<lambda>_. ts)) jp) =
    canonicaliseJobPoolConfig le (map_option (jp_triggers_update (\<lambda>_. ts')) jp)"
  using sort_by_perm [OF assms(1) _ assms(3), of "map canonicaliseTrigger ts'"] assms(2)
  by (cases jp) (simp_all add: canonicaliseJobPoolConfig_def)

text \<open>An operator who only reorders the keys of the container configuration, the configuration files,
  the init commands or the triggers of a job pool does not cause a redeploy: where the sort keys are
  distinct and \<open>localeCompare\<close> is a linear order, the hash stays the same.\<close>

theorem hash_ignores_order:
  assumes "locale_order le"
    and "mset cc = mset cc'" and "distinct (map fst cc)"
    and "mset fs = mset fs'" and "inj_on (pair_key ''volumeName'' ''path'') (set fs)"
    and "mset ics = mset ics'" and "inj_on (pair_key ''volumeName'' ''mountPath'') (set ics)"
    and "mset ts = mset ts'"
    and "inj_on (pair_key ''kind'' ''name'') (set (map canonicaliseTrigger ts))"
  shows "computeDefinitionHash sha le (s\<lparr>sd_containerConfig := Some cc, sd_configFiles := Some fs,
      sd_initCommands := Some ics, sd_jobPoolConfig := map_option (jp_triggers_update (\<lambda>_. ts)) jp\<rparr>) None =
    computeDefinitionHash sha le (s\<lparr>sd_containerConfig := Some cc', sd_configFiles := Some fs',
      sd_initCommands := Some ics', sd_jobPoolConfig := map_option (jp_triggers_update (\<lambda>_. ts')) jp\<rparr>) None"
proof -
  note lookups = map_of_perm [OF assms(2,3)]
  note sorts = sort_by_perm [OF assms(1,4,5)] sort_by_perm [OF assms(1,6,7)]
    canonicalise_perm [OF assms(1,8,9)]
  have "stable_canonical (hash_canonical le (s\<lparr>sd_containerConfig := Some cc, sd_configFiles := Some fs,
      sd_initCommands := Some ics, sd_jobPoolConfig := map_option (jp_triggers_update (\<lambda>_. ts)) jp\<rparr>) None) =
    stable_canonical (hash_canonical le (s\<lparr>sd_containerConfig := Some cc', sd_configFiles := Some fs',
      sd_initCommands := Some ics', sd_jobPoolConfig := map_option (jp_triggers_update (\<lambda>_. ts')) jp\<rparr>) None)"
  proof (rule canonical_cong, cases "sd_serviceType s = ''AdoptedWeb''")
    case True
    then show "list_all2 (\<lambda>(k, a) (l, b). k = l \<and> map_option json_norm a = map_option json_norm b)
       (hash_canonical le (s\<lparr>sd_containerConfig := Some cc, sd_configFiles := Some fs,
      sd_initCommands := Some ics, sd_jobPoolConfig := map_option (jp_triggers_update (\<lambda>_. ts)) jp\<rparr>) None)
       (hash_canonical le (s\<lparr>sd_containerConfig := Some cc', sd_configFiles := Some fs',
      sd_initCommands := Some ics', sd_jobPoolConfig := map_option (jp_triggers_update (\<lambda>_. ts')) jp\<rparr>) None)"
      by (simp add: hash_canonical_def config_field_def lookups)
  next
    case False
    then show "list_all2 (\<lambda>(k, a) (l, b). k = l \<and> map_option json_norm a = map_option json_norm b)
       (hash_canonical le (s\<lparr>sd_containerConfig := Some cc, sd_configFiles := Some fs,
      sd_initCommands := Some ics, sd_jobPoolConfig := map_option (jp_triggers_update (\<lambda>_. ts)) jp\<rparr>) None)
       (hash_canonical le (s\<lparr>sd_containerConfig := Some cc', sd_configFiles := Some fs',
      sd_initCommands := Some ics', sd_jobPoolConfig := map_option (jp_triggers_update (\<lambda>_. ts')) jp\<rparr>) None)"
      using strip_perm [OF assms(2,3)]
      by (simp add: hash_canonical_def sorts option.map_comp del: json_norm.simps)
  qed
  then show ?thesis by (simp add: computeDefinitionHash_def)
qed

lemma locale_order_strings: "locale_order ((\<le>) :: string \<Rightarrow> string \<Rightarrow> bool)"
  by (simp add: locale_order_def) (meson linear order_trans)

lemma hash_ignores_order_witness:
  "computeDefinitionHash id (\<le>) (hash_example\<lparr>sd_containerConfig := Some [(''a'', JNull), (''b'', JNull)],
      sd_configFiles := Some [], sd_initCommands := Some [],
      sd_jobPoolConfig := map_option (jp_triggers_update (\<lambda>_. [ManualTrigger ''x'', ManualTrigger ''y'']))
        (Some \<lparr>jp_triggers = [], jp_history = None, jp_killAfterSeconds = None, jp_onFailure = None\<rparr>)\<rparr>) None =
   computeDefinitionHash id (\<le>) (hash_example\<lparr>sd_containerConfig := Some [(''b'', JNull), (''a'', JNull)],
      sd_configFiles := Some [], sd_initCommands := Some [],
      sd_jobPoolConfig := map_option (jp_triggers_update (\<lambda>_. [ManualTrigger ''y'', ManualTrigger ''x'']))
        (Some \<lparr>jp_triggers = [], jp_history = None, jp_killAfterSeconds = None, jp_onFailure = None\<rparr>)\<rparr>) None"
  by (rule hash_ignores_order [OF locale_order_strings])
    (simp_all add: inj_on_def canonicaliseTrigger_def pair_key_def field_str_def)

text \<open>Values resolved at apply time are no part of the identity of a service: whatever truthy
  \<open>dynamicEnv\<close> block the container configuration carries, the hash is that of the configuration
  without the block.\<close>

theorem hash_ignores_dynamicEnv:
  "json_truthy (Some v) \<Longrightarrow>
   computeDefinitionHash sha le (s\<lparr>sd_containerConfig := Some (om_set ''dynamicEnv'' v m)\<rparr>) r =
   computeDefinitionHash sha le (s\<lparr>sd_containerConfig := Some (om_delete ''dynamicEnv'' m)\<rparr>) r"
proof -
  assume v: "json_truthy (Some v)"
  have del: "om_delete k (om_set k v m) = om_delete k m" for k
    by (induction k v m rule: om_set.induct) (auto simp: om_delete_def)
  have "stripDynamic (Some (om_set ''dynamicEnv'' v m)) = stripDynamic (Some (om_delete ''dynamicEnv'' m))"
    using v by (simp add: stripDynamic_def del)
  then show ?thesis
    by (simp add: computeDefinitionHash_def hash_canonical_def config_field_def)
qed

lemma hash_ignores_dynamicEnv_witness:
  "computeDefinitionHash id (\<le>) (hash_example\<lparr>sd_containerConfig :=
     Some (om_set ''dynamicEnv'' (JObj [(''K'', JStr ''nats-url'')]) [(''env'', JNull)])\<rparr>) None =
   computeDefinitionHash id (\<le>) (hash_example\<lparr>sd_containerConfig :=
     Some (om_delete ''dynamicEnv'' [(''env'', JNull)])\<rparr>) None"
  by (rule hash_ignores_dynamicEnv) simp

section \<open>Synthetic sidecars: the hash is exactly the authoring intent\<close>

definition addon_config :: "(string \<times> json) list option \<Rightarrow> string \<Rightarrow> json" where
  "addon_config addons i = or_null (Option.bind addons (\<lambda>a. map_of a i))"

lemma collect_lookup:
  "map_of (foldl (\<lambda>m i. om_set i (f i) m) acc ids) i = (if i \<in> set ids then Some (f i) else map_of acc i)"
  by (induction ids arbitrary: acc) auto

lemma collect_wf: "om_wf acc \<Longrightarrow> om_wf (foldl (\<lambda>m i. om_set i (f i) m) acc ids)"
  by (induction ids arbitrary: acc) auto

lemma collect_norm:
  "(\<And>i. i \<in> set ids \<Longrightarrow> json_norm (f i) = json_norm (g i)) \<Longrightarrow> norm_fields acc = norm_fields acc' \<Longrightarrow>
   norm_fields (foldl (\<lambda>m i. om_set i (f i) m) acc ids) =
     norm_fields (foldl (\<lambda>m i. om_set i (g i) m) acc' ids)"
proof (induction ids arbitrary: acc acc')
  case (Cons i ids)
  have "norm_fields (om_set k v m) = om_set k (json_norm v) (norm_fields m)" for k v m
    by (induction k v m rule: om_set.induct) auto
  then have "norm_fields (om_set i (f i) acc) = norm_fields (om_set i (g i) acc')"
    using Cons.prems by simp
  with Cons show ?case by simp
qed simp

lemma json_norm_strings: "json_norm (JArr (map JStr xs)) = JArr (map JStr xs)"
  by (simp add: norm_items_map comp_def)

lemma synthetic_canonical_eq:
  "synthetic_canonical sy addons =
     [(''syntheticAddonIds'', Some (JArr (map JStr (sort (sy_addonIds sy))))),
      (''syntheticKind'', Some (or_null (map_option JStr (sy_kind sy)))),
      (''syntheticTarget'', Some (JStr (sy_targetService sy))),
      (''addonConfigs'', Some (JObj
         (foldl (\<lambda>m i. om_set i (addon_config addons i) m) [] (sort (sy_addonIds sy)))))]"
  unfolding synthetic_canonical_def addon_config_def Let_def ..

lemma kind_norm:
  "json_norm (or_null (map_option JStr a)) = json_norm (or_null (map_option JStr b)) \<longleftrightarrow> a = b"
  by (cases a; cases b) (auto simp: or_null_def)

text \<open>With a collision-free digest the hash of a rendered sidecar is exactly its authoring intent: two
  sidecars hash the same precisely when they carry the same addon ids up to order, the same kind and
  target service, and for each of their addons the same authored configuration up to the order of its
  keys (none and \<open>null\<close> alike). Nothing else, in particular nothing minted at apply time, enters.\<close>

theorem synthetic_hash_exact:
  assumes "inj sha"
  shows "computeSyntheticDefinitionHash sha sy a = computeSyntheticDefinitionHash sha sy' a' \<longleftrightarrow>
    mset (sy_addonIds sy) = mset (sy_addonIds sy') \<and> sy_kind sy = sy_kind sy' \<and>
    sy_targetService sy = sy_targetService sy' \<and>
    list_all (\<lambda>i. json_norm (addon_config a i) = json_norm (addon_config a' i)) (sy_addonIds sy)"
    (is "?l = ?r")
proof
  assume ?l
  then have "stable_canonical (synthetic_canonical sy a) = stable_canonical (synthetic_canonical sy' a')"
    using injD [OF assms] by (auto simp: computeSyntheticDefinitionHash_def)
  note eq = canonical_lookup [OF this synthetic_canonical_distinct synthetic_canonical_distinct]
  have ids: "sort (sy_addonIds sy) = sort (sy_addonIds sy')"
    using eq [of "''syntheticAddonIds''"]
    by (simp add: synthetic_canonical_eq json_norm_strings inj_map_eq_map inj_def del: json_norm.simps(1))
  have rest: "sy_kind sy = sy_kind sy'" "sy_targetService sy = sy_targetService sy'"
    using eq [of "''syntheticKind''"] eq [of "''syntheticTarget''"]
    by (simp_all add: synthetic_canonical_eq kind_norm)
  let ?m = "\<lambda>a. foldl (\<lambda>m i. om_set i (addon_config a i) m) [] (sort (sy_addonIds sy))"
  have sorted: "sort_key fst (norm_fields (?m a)) = sort_key fst (norm_fields (?m a'))"
    using eq [of "''addonConfigs''"] ids by (simp add: synthetic_canonical_eq)
  have "distinct (map fst (norm_fields (?m b)))" for b
    using collect_wf [of "[]"] by (simp add: norm_fields_keys om_wf_def)
  with sort_key_lookup [OF sorted]
  have lk: "map_of (norm_fields (?m a)) i = map_of (norm_fields (?m a')) i" for i by blast
  have "json_norm (addon_config a i) = json_norm (addon_config a' i)" if "i \<in> set (sy_addonIds sy)" for i
    using lk [of i] that by (simp add: map_of_norm_fields collect_lookup)
  moreover have "mset (sy_addonIds sy) = mset (sy_addonIds sy')"
    using arg_cong [OF ids, of mset] by simp
  ultimately show ?r using rest by (simp add: list_all_iff)
next
  assume r: ?r
  then have ids: "sort (sy_addonIds sy) = sort (sy_addonIds sy')" by (simp add: properties_for_sort)
  have "norm_fields (foldl (\<lambda>m i. om_set i (addon_config a i) m) [] (sort (sy_addonIds sy))) =
      norm_fields (foldl (\<lambda>m i. om_set i (addon_config a' i) m) [] (sort (sy_addonIds sy)))"
    using r by (intro collect_norm) (auto simp: list_all_iff)
  with r ids have "stable_canonical (synthetic_canonical sy a) = stable_canonical (synthetic_canonical sy' a')"
    by (intro canonical_cong) (simp add: synthetic_canonical_eq)
  then show ?l by (simp add: computeSyntheticDefinitionHash_def)
qed

lemma synthetic_hash_exact_witness:
  "computeSyntheticDefinitionHash id \<lparr>sy_addonIds = [''b'', ''a''], sy_kind = None, sy_targetService = ''web''\<rparr> None =
   computeSyntheticDefinitionHash id \<lparr>sy_addonIds = [''a'', ''b''], sy_kind = None, sy_targetService = ''web''\<rparr>
     (Some [(''a'', JNull)])"
  by (subst synthetic_hash_exact) (auto simp: addon_config_def or_null_def)

end
