(* ===== verification/AddonExpansion.thy ===== *)
theory AddonExpansion
  imports Effects DefinitionHash
begin

text \<open>
  The render pass of the service addons, \<open>stack-addons/expand-addons.ts\<close> and \<open>registry.ts\<close>: the
  addons of each authored service are validated, grouped, provisioned and rendered into sidecars or
  merged into the service. The addons themselves are parameters: an entry of the registry is a
  record of the functions it supplies, of which only provisioning touches the world. An environment
  value is JSON text as in \<open>containerConfig\<close>.
\<close>

section \<open>JSON objects\<close>

text \<open>Fields of a container configuration that are objects or arrays; \<open>None\<close> where the field is absent.\<close>

definition obj_field :: "(string \<times> json) list \<Rightarrow> string \<Rightarrow> (string \<times> json) list" where
  "obj_field m k = (case map_of m k of Some (JObj o') \<Rightarrow> o' | _ \<Rightarrow> [])"

definition arr_field :: "(string \<times> json) list \<Rightarrow> string \<Rightarrow> json list option" where
  "arr_field m k = (case map_of m k of Some (JArr xs) \<Rightarrow> Some xs | _ \<Rightarrow> None)"

text \<open>The merge of a list field: absent only when the target has none and nothing is added.\<close>

definition merge_array :: "(json list \<Rightarrow> json list) \<Rightarrow> json list option \<Rightarrow> json list \<Rightarrow> json list option" where
  "merge_array f existing added =
     (if existing \<noteq> None \<or> added \<noteq> [] then Some (f (nullish existing [] @ added)) else None)"

definition set_array :: "string \<Rightarrow> json list option \<Rightarrow> (string \<times> json) list \<Rightarrow> (string \<times> json) list" where
  "set_array k xs m = (case xs of None \<Rightarrow> m | Some ys \<Rightarrow> om_set k (JArr ys) m)"

definition container_config :: "service_definition \<Rightarrow> (string \<times> json) list" where
  "container_config s = nullish (sd_containerConfig s) []"

section \<open>Addons and their context\<close>

datatype connected_services =
    ServicesUndefined | ServicesNull | ServicesLookup "string \<Rightarrow> bool" | ServicesObject "string list" | ServicesOther

record expansion_context =
  ec_stackId :: string
  ec_stackName :: string
  ec_environment :: "string \<times> string \<times> string"
  ec_instance :: "string option"
  ec_connectedServices :: connected_services
  ec_dryRun :: bool

record provision_context =
  pc_stack :: "string \<times> string"
  pc_service :: "string \<times> string"
  pc_environment :: "string \<times> string \<times> string"
  pc_addonConfig :: json
  pc_instance :: "string option"
  pc_connectedServices :: connected_services

record sidecar_values =
  sv_envForTarget :: "(string \<times> json) list option"
  sv_templateVars :: "(string \<times> json) list"

record target_integration =
  tg_envForTarget :: "(string \<times> json) list option"
  tg_mountsForTarget :: "json list option"

record env_values =
  ev_envForTarget :: "(string \<times> json) list option"
  ev_mountsForTarget :: "json list option"
  ev_labelsForTarget :: "(string \<times> json) list option"
  ev_requiredEgress :: "json list option"
  ev_capAddForTarget :: "json list option"
  ev_devicesForTarget :: "json list option"

text \<open>What supplies a sidecar: an addon alone, or the merge strategy of a kind.\<close>

record 'w sidecar_source =
  sc_integration :: target_integration
  sc_provision :: "provision_context \<Rightarrow> 'w \<Rightarrow> (string + sidecar_values) \<times> 'w"
  sc_build :: "provision_context \<Rightarrow> sidecar_values \<Rightarrow> string + service_definition"
  sc_planStub :: "(provision_context \<Rightarrow> string + service_definition) option"

datatype 'w addon_definition =
    SidecarAddon "'w sidecar_source"
  | EnvInjectionAddon "provision_context \<Rightarrow> 'w \<Rightarrow> (string + env_values) \<times> 'w"
      "(provision_context \<Rightarrow> string + env_values) option"

record 'w registered_addon =
  ad_kind :: "string option"
  ad_appliesTo :: "string list"
  ad_requires :: "string option"
  ad_parse :: "json \<Rightarrow> string + json"
  ad_definition :: "'w addon_definition"

record 'w addon_registry =
  rg_addons :: "(string \<times> 'w registered_addon) list"
  rg_strategies :: "(string \<times> ((string \<times> json) list \<Rightarrow> 'w sidecar_source)) list"

definition registry_register :: "string \<Rightarrow> 'w registered_addon \<Rightarrow> 'w addon_registry \<Rightarrow> string + 'w addon_registry" where
  "registry_register i a g =
     (if om_get (rg_addons g) i \<noteq> None
      then Inl (''Addon \"'' @ i @ ''\" is already registered'')
      else Inr (g\<lparr>rg_addons := om_set i a (rg_addons g)\<rparr>))"

definition registry_registerMergeStrategy ::
  "string \<Rightarrow> ((string \<times> json) list \<Rightarrow> 'w sidecar_source) \<Rightarrow> 'w addon_registry \<Rightarrow> string + 'w addon_registry" where
  "registry_registerMergeStrategy kind st g =
     (if om_get (rg_strategies g) kind \<noteq> None
      then Inl (''Merge strategy for kind \"'' @ kind @ ''\" is already registered'')
      else Inr (g\<lparr>rg_strategies := om_set kind st (rg_strategies g)\<rparr>))"

definition env_injection :: "'w registered_addon \<Rightarrow> bool" where
  "env_injection a = (case ad_definition a of EnvInjectionAddon _ _ \<Rightarrow> True | SidecarAddon _ \<Rightarrow> False)"

fun services_undefined :: "connected_services \<Rightarrow> bool" where
  "services_undefined ServicesUndefined = True"
| "services_undefined ServicesNull = False"
| "services_undefined (ServicesLookup _) = False"
| "services_undefined (ServicesObject _) = False"
| "services_undefined ServicesOther = False"

text \<open>The duck-typed presence check of a connected service.\<close>

definition connectedServiceConfigured :: "string \<Rightarrow> connected_services \<Rightarrow> bool" where
  "connectedServiceConfigured ty cs =
     (case cs of ServicesLookup f \<Rightarrow> f ty | ServicesObject ks \<Rightarrow> ty \<in> set ks | _ \<Rightarrow> False)"

definition buildProvisionContext ::
  "service_definition \<Rightarrow> json \<Rightarrow> expansion_context \<Rightarrow> provision_context" where
  "buildProvisionContext target config ctx =
     \<lparr>pc_stack = (ec_stackId ctx, ec_stackName ctx),
      pc_service = (sd_serviceName target, sd_serviceType target),
      pc_environment = ec_environment ctx, pc_addonConfig = config, pc_instance = ec_instance ctx,
      pc_connectedServices = ec_connectedServices ctx\<rparr>"

section \<open>Groups\<close>

record 'w application =
  ap_addonId :: string
  ap_config :: json
  ap_registered :: "'w registered_addon"

datatype 'w addon_group =
    Solo service_definition "'w application"
  | Merged service_definition string "'w application list" "(string \<times> json) list \<Rightarrow> 'w sidecar_source"

record expansion_error =
  ee_serviceName :: string
  ee_addonIds :: "string list"
  ee_message :: string

text \<open>The message of an \<open>AddonExpansionError\<close>.\<close>

definition expansion_message :: "expansion_error \<Rightarrow> string" where
  "expansion_message e =
     ''Addon expansion failed on service \"'' @ ee_serviceName e @ ''\" (addons: '' @
     join_str '', '' (ee_addonIds e) @ ''): '' @ ee_message e"

definition check_addon ::
  "'w addon_registry \<Rightarrow> expansion_context \<Rightarrow> service_definition \<Rightarrow> string \<times> json \<Rightarrow> expansion_error + 'w application" where
  "check_addon g ctx target p =
     (let i = fst p;
          fail = (\<lambda>m. Inl \<lparr>ee_serviceName = sd_serviceName target, ee_addonIds = [i], ee_message = m\<rparr>)
      in case om_get (rg_addons g) i of
           None \<Rightarrow> fail (''Addon \"'' @ i @ ''\" is not registered'')
         | Some a \<Rightarrow>
             (case ad_parse a (snd p) of
                Inl issues \<Rightarrow> fail (''Invalid config: '' @ issues)
              | Inr config \<Rightarrow>
                  if sd_serviceType target \<notin> set (ad_appliesTo a) then
                    fail (''Addon \"'' @ i @ ''\" does not apply to service type \"'' @ sd_serviceType target @
                      ''\" (allowed: '' @ join_str '', '' (ad_appliesTo a) @ '')'')
                  else if truthy (ad_requires a) \<and> \<not> services_undefined (ec_connectedServices ctx) \<and>
                      \<not> connectedServiceConfigured (the (ad_requires a)) (ec_connectedServices ctx) then
                    fail (''Addon \"'' @ i @ ''\" requires connected service \"'' @ the (ad_requires a) @
                      ''\" but it is not configured'')
                  else if truthy (ad_requires a) \<and> services_undefined (ec_connectedServices ctx) \<and> \<not> ec_dryRun ctx then
                    fail (''Addon \"'' @ i @ ''\" requires connected service \"'' @ the (ad_requires a) @
                      ''\" but no connected-services lookup was provided to apply-time expansion'')
                  else Inr \<lparr>ap_addonId = i, ap_config = config, ap_registered = a\<rparr>))"

fun check_addons ::
  "'w addon_registry \<Rightarrow> expansion_context \<Rightarrow> service_definition \<Rightarrow> (string \<times> json) list \<Rightarrow>
   expansion_error + 'w application list" where
  "check_addons g ctx target [] = Inr []"
| "check_addons g ctx target (p # ps) =
     (case check_addon g ctx target p of
        Inl e \<Rightarrow> Inl e
      | Inr a \<Rightarrow> (case check_addons g ctx target ps of Inl e \<Rightarrow> Inl e | Inr as \<Rightarrow> Inr (a # as)))"

definition is_solo :: "'w application \<Rightarrow> bool" where
  "is_solo a \<longleftrightarrow> \<not> truthy (ad_kind (ap_registered a)) \<or> env_injection (ap_registered a)"

text \<open>The applications of each kind, the kinds in order of first use.\<close>

definition by_kind :: "'w application list \<Rightarrow> (string \<times> 'w application list) list" where
  "by_kind as =
     foldl (\<lambda>m a. let k = the (ad_kind (ap_registered a)) in om_set k (nullish (om_get m k) [] @ [a]) m) []
       (filter (\<lambda>a. \<not> is_solo a) as)"

definition kind_group ::
  "'w addon_registry \<Rightarrow> service_definition \<Rightarrow> string \<times> 'w application list \<Rightarrow> expansion_error + 'w addon_group" where
  "kind_group g target p =
     (case snd p of
        [a] \<Rightarrow> Inr (Solo target a)
      | members \<Rightarrow>
          (case om_get (rg_strategies g) (fst p) of
             None \<Rightarrow> Inl \<lparr>ee_serviceName = sd_serviceName target, ee_addonIds = map ap_addonId members,
               ee_message = string_of_nat (length members) @ '' addons of kind \"'' @ fst p @
                 ''\" declared on the same service but no merge strategy is registered''\<rparr>
           | Some st \<Rightarrow> Inr (Merged target (fst p) members st)))"

fun kind_groups ::
  "'w addon_registry \<Rightarrow> service_definition \<Rightarrow> (string \<times> 'w application list) list \<Rightarrow> expansion_error + 'w addon_group list" where
  "kind_groups g target [] = Inr []"
| "kind_groups g target (p # ps) =
     (case kind_group g target p of
        Inl e \<Rightarrow> Inl e
      | Inr x \<Rightarrow> (case kind_groups g target ps of Inl e \<Rightarrow> Inl e | Inr xs \<Rightarrow> Inr (x # xs)))"

definition resolveGroups ::
  "'w addon_registry \<Rightarrow> expansion_context \<Rightarrow> service_definition \<Rightarrow> (string \<times> json) list \<Rightarrow>
   expansion_error + 'w addon_group list" where
  "resolveGroups g ctx target block =
     (case check_addons g ctx target block of
        Inl e \<Rightarrow> Inl e
      | Inr as \<Rightarrow>
          (case kind_groups g target (by_kind as) of
             Inl e \<Rightarrow> Inl e
           | Inr groups \<Rightarrow> Inr (map (Solo target) (filter is_solo as) @ groups)))"

section \<open>Rendering a group\<close>

record rendered_service =
  rn_definition :: service_definition
  rn_synthetic :: "synthetic_info option"

type_synonym rendered = "(string \<times> rendered_service) list"

datatype addon_event =
    AddonProvisioned string "string list" "string option" string
  | AddonFailed string "string list" "string option" string

record 'w expansion_state =
  xs_world :: 'w
  xs_events :: "addon_event list"

definition world_call :: "('w \<Rightarrow> (string + 'a) \<times> 'w) \<Rightarrow> ('w expansion_state, 'a) eff" where
  "world_call f = (\<lambda>s. let (r, w) = f (xs_world s) in (r, s\<lparr>xs_world := w\<rparr>))"

definition lift_result :: "string + 'a \<Rightarrow> ('s, 'a) eff" where
  "lift_result r = (case r of Inl e \<Rightarrow> eff_throw e | Inr x \<Rightarrow> eff_return x)"

definition emit_event :: "addon_event \<Rightarrow> ('w expansion_state, unit) eff" where
  "emit_event e = eff_modify (xs_events_update (\<lambda>es. es @ [e]))"

definition genericPlanStub :: "string \<Rightarrow> string list \<Rightarrow> string option \<Rightarrow> service_definition" where
  "genericPlanStub target ids kind =
     \<lparr>sd_serviceName = target @ ''-'' @ nullish kind (case ids of i # _ \<Rightarrow> i | [] \<Rightarrow> ''addon''),
      sd_serviceType = ''Stateful'', sd_dockerImage = ''addon-pending'', sd_dockerTag = ''plan'',
      sd_containerConfig = Some [], sd_configFiles = None, sd_initCommands = None, sd_routing = None,
      sd_adoptedContainer = None, sd_addons = None, sd_jobPoolConfig = None\<rparr>"

text \<open>Values provisioned and the sidecar they give; in a dry run the addon's stub or a generic one.\<close>

definition provision_sidecar ::
  "bool \<Rightarrow> provision_context \<Rightarrow> 'w sidecar_source \<Rightarrow> service_definition \<Rightarrow>
   ('w expansion_state, sidecar_values \<times> service_definition) eff" where
  "provision_sidecar dry pctx src generic =
     (if dry then
        eff_bind (case sc_planStub src of None \<Rightarrow> eff_return generic | Some f \<Rightarrow> lift_result (f pctx)) (\<lambda>d.
          eff_return (\<lparr>sv_envForTarget = None, sv_templateVars = []\<rparr>, d))
      else
        eff_bind (world_call (sc_provision src pctx)) (\<lambda>v.
        eff_bind (lift_result (sc_build src pctx v)) (\<lambda>d. eff_return (v, d))))"

definition update_config ::
  "string \<Rightarrow> ((string \<times> json) list \<Rightarrow> (string \<times> json) list) \<Rightarrow> rendered \<Rightarrow> rendered" where
  "update_config name f r =
     (case om_get r name of
        None \<Rightarrow> r
      | Some x \<Rightarrow> om_set name (x\<lparr>rn_definition := (rn_definition x)\<lparr>sd_containerConfig :=
          Some (f (container_config (rn_definition x)))\<rparr>\<rparr>) r)"

definition applyTargetIntegration ::
  "string \<Rightarrow> target_integration \<Rightarrow> sidecar_values \<Rightarrow> rendered \<Rightarrow> string + rendered" where
  "applyTargetIntegration name integration values r =
     (case om_get r name of
        None \<Rightarrow> Inl (''Target service \"'' @ name @ ''\" missing from rendered map'')
      | Some _ \<Rightarrow>
          (let env = obj_merge (nullish (sv_envForTarget values) []) (nullish (tg_envForTarget integration) []);
               mounts = nullish (tg_mountsForTarget integration) []
           in Inr (if env \<noteq> [] \<or> mounts \<noteq> [] then
                update_config name (\<lambda>cc. om_set ''mounts'' (JArr (nullish (arr_field cc ''mounts'') [] @ mounts))
                  (om_set ''env'' (JObj (obj_merge (obj_field cc ''env'') env)) cc)) r
              else r)))"

text \<open>The sidecar with its back-reference, added to the services, and the target integrated.\<close>

definition add_sidecar ::
  "service_definition \<Rightarrow> target_integration \<Rightarrow> synthetic_info \<Rightarrow> sidecar_values \<times> service_definition \<Rightarrow> rendered \<Rightarrow>
   string + rendered" where
  "add_sidecar target integration syn p r =
     (let name = sd_serviceName (snd p) in
      if om_get r name \<noteq> None then
        Inl (''Synthetic service name \"'' @ name @ ''\" collides with an existing service in the rendered stack'')
      else applyTargetIntegration (sd_serviceName target) integration (fst p)
        (om_set name \<lparr>rn_definition = snd p, rn_synthetic = Some syn\<rparr> r))"

definition render_sidecar ::
  "expansion_context \<Rightarrow> service_definition \<Rightarrow> json \<Rightarrow> 'w sidecar_source \<Rightarrow> string list \<Rightarrow> string option \<Rightarrow>
   rendered \<Rightarrow> ('w expansion_state, rendered) eff" where
  "render_sidecar ctx target config src ids kind r =
     eff_bind (provision_sidecar (ec_dryRun ctx) (buildProvisionContext target config ctx) src
       (genericPlanStub (sd_serviceName target) ids kind)) (\<lambda>p.
     eff_bind (lift_result (add_sidecar target (sc_integration src)
       \<lparr>sy_addonIds = ids, sy_kind = kind, sy_targetService = sd_serviceName target\<rparr> p r)) (\<lambda>r'.
     eff_then (emit_event (AddonProvisioned (sd_serviceName target) ids kind (sd_serviceName (snd p))))
       (eff_return r')))"

section \<open>Env injection\<close>

definition base_labels :: "string \<Rightarrow> (string \<times> json) list \<Rightarrow> (string \<times> json) list" where
  "base_labels i cc = obj_merge (obj_field cc ''labels'')
     [(''mini-infra.addon'', JStr i), (''mini-infra.synthetic'', JStr ''false'')]"

definition inject_stub :: "string \<Rightarrow> env_values \<Rightarrow> (string \<times> json) list \<Rightarrow> (string \<times> json) list" where
  "inject_stub i v cc =
     set_array ''devices'' (merge_array js_unique (arr_field cc ''devices'') (nullish (ev_devicesForTarget v) []))
      (set_array ''capAdd'' (merge_array js_unique (arr_field cc ''capAdd'') (nullish (ev_capAddForTarget v) []))
       (set_array ''requiredEgress'' (merge_array js_unique (arr_field cc ''requiredEgress'') (nullish (ev_requiredEgress v) []))
        (set_array ''mounts'' (merge_array id (arr_field cc ''mounts'') (nullish (ev_mountsForTarget v) []))
         (om_set ''labels'' (JObj (obj_merge (base_labels i cc) (nullish (ev_labelsForTarget v) []))) cc))))"

definition inject_values :: "string \<Rightarrow> env_values \<Rightarrow> (string \<times> json) list \<Rightarrow> (string \<times> json) list" where
  "inject_values i v cc =
     set_array ''devices'' (merge_array js_unique (arr_field cc ''devices'') (nullish (ev_devicesForTarget v) []))
      (set_array ''capAdd'' (merge_array js_unique (arr_field cc ''capAdd'') (nullish (ev_capAddForTarget v) []))
       (om_set ''requiredEgress'' (JArr (js_unique (nullish (arr_field cc ''requiredEgress'') [] @ nullish (ev_requiredEgress v) [])))
        (om_set ''labels'' (JObj (obj_merge (base_labels i cc) (nullish (ev_labelsForTarget v) [])))
         (om_set ''mounts'' (JArr (nullish (arr_field cc ''mounts'') [] @ nullish (ev_mountsForTarget v) []))
          (om_set ''env'' (JObj (obj_merge (obj_field cc ''env'') (nullish (ev_envForTarget v) []))) cc)))))"

text \<open>The first injected variable the target, or an earlier variable, already sets.\<close>

fun env_collision :: "(string \<times> json) list \<Rightarrow> (string \<times> json) list \<Rightarrow> string option" where
  "env_collision m [] = None"
| "env_collision m ((k, v) # kvs) = (if om_get m k \<noteq> None then Some k else env_collision (om_set k v m) kvs)"

definition no_values :: env_values where
  "no_values = \<lparr>ev_envForTarget = None, ev_mountsForTarget = None, ev_labelsForTarget = None,
     ev_requiredEgress = None, ev_capAddForTarget = None, ev_devicesForTarget = None\<rparr>"

definition applyEnvInjectionGroup ::
  "expansion_context \<Rightarrow> service_definition \<Rightarrow> 'w application \<Rightarrow>
   (provision_context \<Rightarrow> 'w \<Rightarrow> (string + env_values) \<times> 'w) \<Rightarrow> (provision_context \<Rightarrow> string + env_values) option \<Rightarrow>
   rendered \<Rightarrow> ('w expansion_state, rendered) eff" where
  "applyEnvInjectionGroup ctx target a provision stub r =
     (let name = sd_serviceName target; i = ap_addonId a;
          pctx = buildProvisionContext target (ap_config a) ctx
      in case om_get r name of
           None \<Rightarrow> eff_throw (''Target service \"'' @ name @ ''\" missing from rendered map'')
         | Some x \<Rightarrow>
             eff_bind
               (if ec_dryRun ctx then
                  eff_bind (case stub of None \<Rightarrow> eff_return no_values | Some f \<Rightarrow> lift_result (f pctx)) (\<lambda>v.
                    eff_return (update_config name (inject_stub i v) r))
                else
                  eff_bind (world_call (provision pctx)) (\<lambda>v.
                    (case env_collision (obj_field (container_config (rn_definition x)) ''env'') (nullish (ev_envForTarget v) []) of
                       Some k \<Rightarrow> eff_throw (''Addon \"'' @ i @ ''\" cannot inject env var \"'' @ k @
                         ''\" into target service \"'' @ name @ ''\": key already set'')
                     | None \<Rightarrow> eff_return (update_config name (inject_values i v) r))))
               (\<lambda>r'. eff_then (emit_event (AddonProvisioned name [i] None name)) (eff_return r')))"

definition applyGroup ::
  "expansion_context \<Rightarrow> 'w addon_group \<Rightarrow> rendered \<Rightarrow> ('w expansion_state, rendered) eff" where
  "applyGroup ctx gr r =
     (case gr of
        Solo target a \<Rightarrow>
          (case ad_definition (ap_registered a) of
             EnvInjectionAddon provision stub \<Rightarrow> applyEnvInjectionGroup ctx target a provision stub r
           | SidecarAddon src \<Rightarrow> render_sidecar ctx target (ap_config a) src [ap_addonId a] None r)
      | Merged target kind members strategy \<Rightarrow>
          (let pairs = map (\<lambda>m. (ap_addonId m, ap_config m)) members
           in render_sidecar ctx target
                (JArr (map (\<lambda>(i, c). JObj [(''addonId'', JStr i), (''config'', c)]) pairs))
                (strategy pairs) (map fst pairs) (Some kind) r))"

section \<open>The pass\<close>

definition group_ids :: "'w addon_group \<Rightarrow> string list" where
  "group_ids gr = (case gr of Solo _ a \<Rightarrow> [ap_addonId a] | Merged _ _ members _ \<Rightarrow> map ap_addonId members)"

definition group_kind :: "'w addon_group \<Rightarrow> string option" where
  "group_kind gr = (case gr of Solo _ _ \<Rightarrow> None | Merged _ kind _ _ \<Rightarrow> Some kind)"

fun apply_groups ::
  "expansion_context \<Rightarrow> string \<Rightarrow> 'w addon_group list \<Rightarrow> rendered \<Rightarrow> 'w expansion_state \<Rightarrow>
   (expansion_error + rendered) \<times> 'w expansion_state" where
  "apply_groups ctx name [] r s = (Inr r, s)"
| "apply_groups ctx name (gr # grs) r s =
     (case applyGroup ctx gr r s of
        (Inl e, t) \<Rightarrow>
          (Inl \<lparr>ee_serviceName = name, ee_addonIds = group_ids gr, ee_message = e\<rparr>,
           t\<lparr>xs_events := xs_events t @ [AddonFailed name (group_ids gr) (group_kind gr) e]\<rparr>)
      | (Inr r', t) \<Rightarrow> apply_groups ctx name grs r' t)"

definition addon_block :: "service_definition \<Rightarrow> (string \<times> json) list" where
  "addon_block s = (case sd_addons s of Some (JObj m) \<Rightarrow> m | _ \<Rightarrow> [])"

fun expand_services ::
  "'w addon_registry \<Rightarrow> expansion_context \<Rightarrow> service_definition list \<Rightarrow> rendered \<Rightarrow> 'w expansion_state \<Rightarrow>
   (expansion_error + rendered) \<times> 'w expansion_state" where
  "expand_services g ctx [] r s = (Inr r, s)"
| "expand_services g ctx (d # ds) r s =
     (if addon_block d = [] then expand_services g ctx ds r s
      else
        (case resolveGroups g ctx d (addon_block d) of
           Inl e \<Rightarrow> (Inl e, s\<lparr>xs_events := xs_events s @
             [AddonFailed (ee_serviceName e) (ee_addonIds e) None (expansion_message e)]\<rparr>)
         | Inr groups \<Rightarrow>
             (case apply_groups ctx (sd_serviceName d) groups r s of
                (Inl e, t) \<Rightarrow> (Inl e, t)
              | (Inr r', t) \<Rightarrow> expand_services g ctx ds r' t)))"

definition strip_addons :: "service_definition \<Rightarrow> rendered_service" where
  "strip_addons d = \<lparr>rn_definition = d\<lparr>sd_addons := None\<rparr>, rn_synthetic = None\<rparr>"

definition expandAddons ::
  "'w addon_registry \<Rightarrow> expansion_context \<Rightarrow> service_definition list \<Rightarrow> 'w expansion_state \<Rightarrow>
   (expansion_error + rendered_service list) \<times> 'w expansion_state" where
  "expandAddons g ctx authored s =
     (let start = foldl (\<lambda>m d. om_set (sd_serviceName d) (strip_addons d) m) [] authored in
      case expand_services g ctx authored start s of
        (Inl e, t) \<Rightarrow> (Inl e, t)
      | (Inr r, t) \<Rightarrow> (Inr (map snd r), t))"

section \<open>A dry run leaves the world alone\<close>

definition world_safe :: "('w expansion_state, 'a) eff \<Rightarrow> bool" where
  "world_safe m \<longleftrightarrow> (\<forall>s. xs_world (snd (m s)) = xs_world s)"

lemma world_safe_intros:
  "world_safe (eff_return x)" "world_safe (eff_throw e)" "world_safe (emit_event ev)" "world_safe (lift_result r)"
  by (simp_all add: world_safe_def eff_return_def eff_throw_def emit_event_def eff_modify_def lift_result_def
      split: sum.split)

lemma world_safe_bind: "world_safe m \<Longrightarrow> (\<And>x. world_safe (f x)) \<Longrightarrow> world_safe (eff_bind m f)"
proof -
  assume m: "world_safe m" and f: "\<And>x. world_safe (f x)"
  have "xs_world (snd (eff_bind m f s)) = xs_world s" for s
  proof -
    obtain r t where r: "m s = (r, t)" by fastforce
    with m have "xs_world t = xs_world s" by (metis snd_conv world_safe_def)
    with r f show ?thesis by (cases r) (simp_all add: eff_bind_def world_safe_def)
  qed
  then show "world_safe (eff_bind m f)" by (simp add: world_safe_def)
qed

lemma world_safe_then: "world_safe m \<Longrightarrow> world_safe n \<Longrightarrow> world_safe (eff_then m n)"
  unfolding eff_then_def by (rule world_safe_bind)

lemma group_world_safe: "ec_dryRun ctx \<Longrightarrow> world_safe (applyGroup ctx gr r)"
  by (auto simp: applyGroup_def applyEnvInjectionGroup_def render_sidecar_def provision_sidecar_def Let_def
      split: addon_group.split addon_definition.split option.split
      intro!: world_safe_intros world_safe_bind world_safe_then)

lemma groups_world:
  "ec_dryRun ctx \<Longrightarrow> xs_world (snd (apply_groups ctx name grs r s)) = xs_world s"
proof (induction grs arbitrary: r s)
  case (Cons gr grs)
  have "xs_world (snd (applyGroup ctx gr r s)) = xs_world s"
    using group_world_safe [OF Cons.prems, of gr r] by (simp add: world_safe_def)
  with Cons.IH [OF Cons.prems] show ?case by (auto split: prod.split sum.split)
qed simp

lemma services_world:
  "ec_dryRun ctx \<Longrightarrow> xs_world (snd (expand_services g ctx ds r s)) = xs_world s"
proof (induction ds arbitrary: r s)
  case (Cons d ds)
  show ?case
  proof (cases "addon_block d = []")
    case False
    note step = groups_world [OF Cons.prems, of "sd_serviceName d" _ r s]
    show ?thesis
    proof (cases "resolveGroups g ctx d (addon_block d)")
      case (Inr groups)
      obtain x t where x: "apply_groups ctx (sd_serviceName d) groups r s = (x, t)" by fastforce
      with step [of groups] have "xs_world t = xs_world s" by simp
      with False Inr x Cons.IH [OF Cons.prems, of _ t] show ?thesis by (cases x) auto
    qed (use False in simp)
  qed (use Cons in simp)
qed simp

text \<open>Planning has no side effects: in a dry run, whatever addons a stack declares and whether the pass
  succeeds or fails, no addon is provisioned and the world is as before.\<close>

theorem expand_dry_run_pure:
  "ec_dryRun ctx \<Longrightarrow> xs_world (snd (expandAddons g ctx ds s)) = xs_world s"
proof -
  assume dry: "ec_dryRun ctx"
  let ?start = "foldl (\<lambda>m d. om_set (sd_serviceName d) (strip_addons d) m) [] ds"
  obtain x t where x: "expand_services g ctx ds ?start s = (x, t)" by fastforce
  with services_world [OF dry, of g ds ?start s] have "xs_world t = xs_world s" by simp
  with x show "xs_world (snd (expandAddons g ctx ds s)) = xs_world s" by (cases x) (auto simp: expandAddons_def)
qed

section \<open>What a pass returns\<close>

lemma lift_result_Inr: "lift_result r s = (Inr x, t) \<longleftrightarrow> r = Inr x \<and> t = s"
  by (cases r) (auto simp: lift_result_def)

text \<open>Every entry is under its own name; what has no back-reference is authored, and the target of a
  back-reference is.\<close>

definition rendered_ok :: "string list \<Rightarrow> rendered \<Rightarrow> bool" where
  "rendered_ok authored r \<longleftrightarrow> om_wf r \<and> (\<exists>new. map fst r = authored @ new) \<and>
     (\<forall>(k, x) \<in> set r. sd_serviceName (rn_definition x) = k \<and> (rn_synthetic x = None \<longleftrightarrow> k \<in> set authored) \<and>
        (\<forall>syn. rn_synthetic x = Some syn \<longrightarrow> sy_targetService syn \<in> set authored))"

lemma om_set_keys_old: "om_get m k \<noteq> None \<Longrightarrow> map fst (om_set k v m) = map fst m"
  by (induction k v m rule: om_set.induct) auto

lemma om_set_new: "om_get m k = None \<Longrightarrow> om_set k v m = m @ [(k, v)]"
  by (induction k v m rule: om_set.induct) (auto split: if_splits)

lemma update_config_ok: "rendered_ok authored r \<Longrightarrow> rendered_ok authored (update_config name f r)"
proof (cases "om_get r name")
  case (Some x)
  assume ok: "rendered_ok authored r"
  let ?x = "x\<lparr>rn_definition := (rn_definition x)\<lparr>sd_containerConfig := Some (f (container_config (rn_definition x)))\<rparr>\<rparr>"
  have upd: "update_config name f r = om_set name ?x r" using Some by (simp add: update_config_def)
  have keys: "map fst (om_set name ?x r) = map fst r" using Some by (intro om_set_keys_old) simp
  have x: "(name, x) \<in> set r" using map_of_SomeD [OF Some] .
  have "\<forall>(k, y) \<in> set (om_set name ?x r). (k, y) = (name, ?x) \<or> (k, y) \<in> set r" using om_set_pairs by fastforce
  with ok x keys show ?thesis unfolding rendered_ok_def upd by (fastforce simp: om_wf_def)
qed (simp add: update_config_def)

lemma integration_ok:
  "rendered_ok authored r \<Longrightarrow> applyTargetIntegration name tg v r = Inr r' \<Longrightarrow> rendered_ok authored r'"
  by (auto simp: applyTargetIntegration_def Let_def update_config_ok split: option.splits if_splits)

lemma add_sidecar_ok:
  assumes "rendered_ok authored r" and "add_sidecar target tg syn p r = Inr r'"
    and "sy_targetService syn \<in> set authored"
  shows "rendered_ok authored r'"
proof -
  let ?n = "sd_serviceName (snd p)" and ?x = "\<lparr>rn_definition = snd p, rn_synthetic = Some syn\<rparr>"
  from assms(2) have none: "om_get r ?n = None"
    and int: "applyTargetIntegration (sd_serviceName target) tg (fst p) (om_set ?n ?x r) = Inr r'"
    by (auto simp: add_sidecar_def Let_def split: if_splits)
  from none have "om_set ?n ?x r = r @ [(?n, ?x)]" by (rule om_set_new)
  moreover from none have "?n \<notin> set (map fst r)" by (simp add: map_of_eq_None_iff)
  moreover have "?n \<notin> set authored"
    using assms(1) \<open>?n \<notin> set (map fst r)\<close> by (auto simp: rendered_ok_def simp del: set_map)
  ultimately have "rendered_ok authored (om_set ?n ?x r)"
    using assms(1,3) by (auto simp: rendered_ok_def om_wf_def)
  from integration_ok [OF this int] show ?thesis .
qed

lemma group_ok:
  assumes "rendered_ok authored r" and "applyGroup ctx gr r s = (Inr r', t)"
    and "(case gr of Solo d _ \<Rightarrow> sd_serviceName d | Merged d _ _ _ \<Rightarrow> sd_serviceName d) \<in> set authored"
  shows "rendered_ok authored r'"
proof -
  have side: "rendered_ok authored r'"
    if "render_sidecar ctx d c src ids kind r s = (Inr r', t)" "sd_serviceName d \<in> set authored" for d c src ids kind
    using that by (auto simp: render_sidecar_def eff_bind_Inr eff_then_Inr lift_result_Inr
        intro: add_sidecar_ok [OF assms(1)])
  have env: "rendered_ok authored r'"
    if "applyEnvInjectionGroup ctx d a prov stub r s = (Inr r', t)" for d a prov stub
    using that by (auto simp: applyEnvInjectionGroup_def Let_def eff_bind_Inr eff_then_Inr
        intro: update_config_ok [OF assms(1)] split: option.splits if_splits)
  show ?thesis
  proof (cases gr)
    case (Solo d a)
    with assms(2,3) side env show ?thesis
      by (cases "ad_definition (ap_registered a)") (auto simp: applyGroup_def)
  next
    case (Merged d kind members st)
    with assms(2,3) side show ?thesis by (auto simp: applyGroup_def Let_def)
  qed
qed

definition group_target :: "'w addon_group \<Rightarrow> service_definition" where
  "group_target gr = (case gr of Solo d _ \<Rightarrow> d | Merged d _ _ _ \<Rightarrow> d)"

lemma groups_ok:
  "rendered_ok authored r \<Longrightarrow> apply_groups ctx name grs r s = (Inr r', t) \<Longrightarrow>
   (\<forall>gr \<in> set grs. sd_serviceName (group_target gr) \<in> set authored) \<Longrightarrow> rendered_ok authored r'"
proof (induction grs arbitrary: r s)
  case (Cons gr grs)
  from Cons.prems(2) obtain q u where q: "applyGroup ctx gr r s = (Inr q, u)"
    and rest: "apply_groups ctx name grs q u = (Inr r', t)" by (auto split: prod.splits sum.splits)
  have "rendered_ok authored q"
    using Cons.prems(3) by (intro group_ok [OF Cons.prems(1) q]) (auto simp: group_target_def split: addon_group.splits)
  from Cons.IH [OF this rest] Cons.prems(3) show ?case by simp
qed simp

lemma kind_groups_target:
  "kind_groups g d ps = Inr grs \<Longrightarrow> \<forall>gr \<in> set grs. group_target gr = d"
  by (induction ps arbitrary: grs)
    (auto simp: kind_group_def group_target_def split: sum.splits list.splits option.splits)

lemma resolve_target: "resolveGroups g ctx d block = Inr grs \<Longrightarrow> \<forall>gr \<in> set grs. group_target gr = d"
proof -
  assume "resolveGroups g ctx d block = Inr grs"
  then obtain as rest where rest: "kind_groups g d (by_kind as) = Inr rest"
    and "grs = map (Solo d) (filter is_solo as) @ rest" by (auto simp: resolveGroups_def split: sum.splits)
  with kind_groups_target [OF rest] show "\<forall>gr \<in> set grs. group_target gr = d" by (auto simp: group_target_def)
qed

lemma services_ok:
  "rendered_ok authored r \<Longrightarrow> expand_services g ctx ds r s = (Inr r', t) \<Longrightarrow>
   sd_serviceName ` set ds \<subseteq> set authored \<Longrightarrow> rendered_ok authored r'"
proof (induction ds arbitrary: r s)
  case (Cons d ds)
  show ?case
  proof (cases "addon_block d = []")
    case False
    with Cons.prems(2) obtain grs q u where res: "resolveGroups g ctx d (addon_block d) = Inr grs"
      and q: "apply_groups ctx (sd_serviceName d) grs r s = (Inr q, u)"
      and rest: "expand_services g ctx ds q u = (Inr r', t)" by (auto split: sum.splits prod.splits)
    have "rendered_ok authored q"
      using resolve_target [OF res] Cons.prems(3) by (intro groups_ok [OF Cons.prems(1) q]) auto
    from Cons.IH [OF this rest] Cons.prems(3) show ?thesis by simp
  qed (use Cons in auto)
qed simp

lemma start_distinct:
  "distinct (map sd_serviceName ds) \<Longrightarrow>
   foldl (\<lambda>m d. om_set (sd_serviceName d) (strip_addons d) m) [] ds = map (\<lambda>d. (sd_serviceName d, strip_addons d)) ds"
proof -
  have "distinct (map sd_serviceName ds) \<Longrightarrow> \<forall>d \<in> set ds. om_get acc (sd_serviceName d) = None \<Longrightarrow>
      foldl (\<lambda>m d. om_set (sd_serviceName d) (strip_addons d) m) acc ds =
        acc @ map (\<lambda>d. (sd_serviceName d, strip_addons d)) ds" for acc
  proof (induction ds arbitrary: acc)
    case (Cons d ds)
    have "om_set (sd_serviceName d) (strip_addons d) acc = acc @ [(sd_serviceName d, strip_addons d)]"
      using Cons.prems(2) by (intro om_set_new) simp
    with Cons.prems show ?case
      by (simp, intro Cons.IH [THEN trans]) (auto simp: map_add_def rev_image_eqI split: option.split)
  qed simp
  from this [of "[]"] show "distinct (map sd_serviceName ds) \<Longrightarrow>
      foldl (\<lambda>m d. om_set (sd_serviceName d) (strip_addons d) m) [] ds =
        map (\<lambda>d. (sd_serviceName d, strip_addons d)) ds" by simp
qed

lemma expansion_entries:
  assumes "expandAddons g ctx ds s = (Inr out, t)" and "distinct (map sd_serviceName ds)"
  obtains r where "rendered_ok (map sd_serviceName ds) r" and "out = map snd r"
    and "map (\<lambda>x. sd_serviceName (rn_definition x)) out = map fst r"
proof -
  let ?start = "map (\<lambda>d. (sd_serviceName d, strip_addons d)) ds" and ?names = "map sd_serviceName ds"
  from assms obtain r where r: "expand_services g ctx ds ?start s = (Inr r, t)" "out = map snd r"
    by (auto simp: expandAddons_def start_distinct split: prod.splits sum.splits)
  have "rendered_ok ?names ?start"
    using assms(2) by (auto simp: rendered_ok_def om_wf_def comp_def strip_addons_def)
  from services_ok [OF this r(1)] have ok: "rendered_ok ?names r" by simp
  have names: "map (\<lambda>x. sd_serviceName (rn_definition x)) out = map fst r"
    using ok r(2) by (auto simp: rendered_ok_def)
  from ok r(2) names show ?thesis by (rule that)
qed

lemma expansion_names:
  assumes "expandAddons g ctx ds s = (Inr out, t)" and "distinct (map sd_serviceName ds)"
  shows "distinct (map (\<lambda>x. sd_serviceName (rn_definition x)) out) \<and>
    (\<exists>new. map (\<lambda>x. sd_serviceName (rn_definition x)) out = map sd_serviceName ds @ new)"
proof -
  from expansion_entries [OF assms] obtain r where r: "rendered_ok (map sd_serviceName ds) r"
    "map (\<lambda>x. sd_serviceName (rn_definition x)) out = map fst r" .
  from r(1) show ?thesis unfolding r(2) by (auto simp: rendered_ok_def om_wf_def)
qed

text \<open>C17: A pass that succeeds returns the authored services in their order, followed by the sidecars: no name
  occurs twice, exactly the services after the authored ones carry a back-reference, and each refers
  to an authored service.\<close>

theorem expand_structure:
  assumes "expandAddons g ctx ds s = (Inr out, t)" and "distinct (map sd_serviceName ds)"
  shows "distinct (map (\<lambda>x. sd_serviceName (rn_definition x)) out) \<and>
    (\<exists>new. map (\<lambda>x. sd_serviceName (rn_definition x)) out = map sd_serviceName ds @ new) \<and>
    list_all (\<lambda>x. (rn_synthetic x = None) = (sd_serviceName (rn_definition x) \<in> sd_serviceName ` set ds) \<and>
      (case rn_synthetic x of None \<Rightarrow> True | Some syn \<Rightarrow> sy_targetService syn \<in> sd_serviceName ` set ds)) out"
proof -
  from expansion_entries [OF assms] obtain r where r: "rendered_ok (map sd_serviceName ds) r" "out = map snd r"
    "map (\<lambda>x. sd_serviceName (rn_definition x)) out = map fst r" .
  show ?thesis using r(1) unfolding r(3)
    by (auto simp: rendered_ok_def om_wf_def r(2) list_all_iff split: option.split)
qed

definition example_source :: "nat sidecar_source" where
  "example_source = \<lparr>sc_integration = \<lparr>tg_envForTarget = None, tg_mountsForTarget = None\<rparr>,
     sc_provision = (\<lambda>p w. (Inr \<lparr>sv_envForTarget = None, sv_templateVars = []\<rparr>, Suc w)),
     sc_build = (\<lambda>p v. Inr (genericPlanStub (fst (pc_service p)) [''ssh''] None)), sc_planStub = None\<rparr>"

definition example_registry :: "nat addon_registry" where
  "example_registry = \<lparr>rg_addons =
     [(''ssh'', \<lparr>ad_kind = Some ''tailscale'', ad_appliesTo = [''Stateful''], ad_requires = None, ad_parse = Inr,
        ad_definition = SidecarAddon example_source\<rparr>),
      (''shell'', \<lparr>ad_kind = None, ad_appliesTo = [''Stateful''], ad_requires = None, ad_parse = Inr,
        ad_definition = EnvInjectionAddon
          (\<lambda>p w. (Inr (no_values\<lparr>ev_envForTarget := Some [(''TS_AUTHKEY'', JNum (int w))]\<rparr>), Suc w)) None\<rparr>)],
     rg_strategies = []\<rparr>"

definition example_context :: expansion_context where
  "example_context = \<lparr>ec_stackId = ''s1'', ec_stackName = ''app'', ec_environment = (''e1'', ''prod'', ''local''),
     ec_instance = None, ec_connectedServices = ServicesUndefined, ec_dryRun = False\<rparr>"

definition addon_example :: "string \<Rightarrow> service_definition" where
  "addon_example i = hash_example\<lparr>sd_addons := Some (JObj [(i, JObj [])])\<rparr>"

lemma expand_dry_run_pure_witness:
  "xs_world (snd (expandAddons example_registry (example_context\<lparr>ec_dryRun := True\<rparr>)
     [addon_example ''ssh''] \<lparr>xs_world = 7, xs_events = []\<rparr>)) = 7"
  by (subst expand_dry_run_pure) simp_all

lemma expand_structure_witness:
  "map (\<lambda>x. sd_serviceName (rn_definition x)) (projr (fst (expandAddons example_registry example_context
     [addon_example ''ssh''] \<lparr>xs_world = 7, xs_events = []\<rparr>))) = [''web'', ''web-ssh''] \<and>
   distinct (map (\<lambda>x. sd_serviceName (rn_definition x)) (projr (fst (expandAddons example_registry example_context
     [addon_example ''ssh''] \<lparr>xs_world = 7, xs_events = []\<rparr>))))"
proof -
  let ?run = "expandAddons example_registry example_context [addon_example ''ssh''] \<lparr>xs_world = 7, xs_events = []\<rparr>"
  have "isl (fst ?run) = False" by code_simp
  then have "fst ?run = Inr (projr (fst ?run))" by (cases "fst ?run") simp_all
  then have run: "?run = (Inr (projr (fst ?run)), snd ?run)" by (metis prod.collapse)
  have "distinct (map sd_serviceName [addon_example ''ssh''])" by simp
  moreover have "map (\<lambda>x. sd_serviceName (rn_definition x)) (projr (fst ?run)) = [''web'', ''web-ssh'']" by code_simp
  ultimately show ?thesis using expand_structure [OF run] by blast
qed

section \<open>Planning and applying\<close>

text \<open>
  The same services rendered by a dry run and by an apply: the back-references agree place by place.
\<close>

definition same_shape :: "rendered \<Rightarrow> rendered \<Rightarrow> bool" where
  "same_shape r q \<longleftrightarrow> map (rn_synthetic \<circ> snd) r = map (rn_synthetic \<circ> snd) q"

lemma update_config_shape: "map (rn_synthetic \<circ> snd) (update_config name f r) = map (rn_synthetic \<circ> snd) r"
proof (cases "om_get r name")
  case (Some x)
  then have "map (rn_synthetic \<circ> snd) (om_set name (x\<lparr>rn_definition := d\<rparr>) r) = map (rn_synthetic \<circ> snd) r" for d
    by (induction r) (auto split: if_splits)
  with Some show ?thesis by (simp add: update_config_def)
qed (simp add: update_config_def)

lemma add_sidecar_shape:
  "add_sidecar target tg syn p r = Inr r' \<Longrightarrow>
   map (rn_synthetic \<circ> snd) r' = map (rn_synthetic \<circ> snd) r @ [Some syn]"
  by (auto simp: add_sidecar_def applyTargetIntegration_def Let_def update_config_shape om_set_new
      split: if_splits option.splits)

definition group_synthetics :: "'w addon_group \<Rightarrow> synthetic_info option list" where
  "group_synthetics gr =
     (case gr of
        Solo d a \<Rightarrow> if env_injection (ap_registered a) then []
          else [Some \<lparr>sy_addonIds = [ap_addonId a], sy_kind = None, sy_targetService = sd_serviceName d\<rparr>]
      | Merged d kind members _ \<Rightarrow>
          [Some \<lparr>sy_addonIds = map ap_addonId members, sy_kind = Some kind, sy_targetService = sd_serviceName d\<rparr>])"

lemma group_shape:
  assumes "applyGroup ctx gr r s = (Inr r', t)"
  shows "map (rn_synthetic \<circ> snd) r' = map (rn_synthetic \<circ> snd) r @ group_synthetics gr"
proof -
  have side: "map (rn_synthetic \<circ> snd) r' = map (rn_synthetic \<circ> snd) r @
      [Some \<lparr>sy_addonIds = ids, sy_kind = kind, sy_targetService = sd_serviceName d\<rparr>]"
    if "render_sidecar ctx d c src ids kind r s = (Inr r', t)" for d c src ids kind
    using that by (auto simp: render_sidecar_def eff_bind_Inr eff_then_Inr lift_result_Inr dest: add_sidecar_shape)
  have env: "map (rn_synthetic \<circ> snd) r' = map (rn_synthetic \<circ> snd) r"
    if "applyEnvInjectionGroup ctx d a prov stub r s = (Inr r', t)" for d a prov stub
    using that by (auto simp: applyEnvInjectionGroup_def Let_def eff_bind_Inr eff_then_Inr update_config_shape
        split: option.splits if_splits)
  show ?thesis
  proof (cases gr)
    case (Solo d a)
    with assms side env show ?thesis
      by (cases "ad_definition (ap_registered a)") (auto simp: applyGroup_def group_synthetics_def env_injection_def)
  next
    case (Merged d kind members st)
    with assms side show ?thesis by (auto simp: applyGroup_def group_synthetics_def Let_def comp_def split_def)
  qed
qed

lemma groups_shape:
  "apply_groups ctx name grs r s = (Inr r', t) \<Longrightarrow>
   map (rn_synthetic \<circ> snd) r' = map (rn_synthetic \<circ> snd) r @ concat (map group_synthetics grs)"
  by (induction grs arbitrary: r s) (auto split: prod.splits sum.splits dest: group_shape)

lemma check_addon_dry:
  "check_addon g (ctx\<lparr>ec_dryRun := False\<rparr>) d p = Inr a \<Longrightarrow> check_addon g (ctx\<lparr>ec_dryRun := True\<rparr>) d p = Inr a"
  by (auto simp: check_addon_def Let_def split: option.splits sum.splits if_splits)

lemma check_addons_dry:
  "check_addons g (ctx\<lparr>ec_dryRun := False\<rparr>) d ps = Inr as \<Longrightarrow> check_addons g (ctx\<lparr>ec_dryRun := True\<rparr>) d ps = Inr as"
  by (induction ps arbitrary: as) (auto split: sum.splits dest: check_addon_dry)

lemma resolve_dry:
  "resolveGroups g (ctx\<lparr>ec_dryRun := False\<rparr>) d block = Inr grs \<Longrightarrow> resolveGroups g (ctx\<lparr>ec_dryRun := True\<rparr>) d block = Inr grs"
  by (auto simp: resolveGroups_def split: sum.splits dest: check_addons_dry)

lemma services_shape:
  "expand_services g (ctx\<lparr>ec_dryRun := True\<rparr>) ds r1 s1 = (Inr q1, t1) \<Longrightarrow>
   expand_services g (ctx\<lparr>ec_dryRun := False\<rparr>) ds r2 s2 = (Inr q2, t2) \<Longrightarrow>
   same_shape r1 r2 \<Longrightarrow> same_shape q1 q2"
proof (induction ds arbitrary: r1 s1 r2 s2)
  case (Cons d ds)
  show ?case
  proof (cases "addon_block d = []")
    case False
    with Cons.prems(2) obtain grs p2 u2 where real: "resolveGroups g (ctx\<lparr>ec_dryRun := False\<rparr>) d (addon_block d) = Inr grs"
      "apply_groups (ctx\<lparr>ec_dryRun := False\<rparr>) (sd_serviceName d) grs r2 s2 = (Inr p2, u2)"
      "expand_services g (ctx\<lparr>ec_dryRun := False\<rparr>) ds p2 u2 = (Inr q2, t2)" by (auto split: sum.splits prod.splits)
    with Cons.prems(1) False resolve_dry [OF real(1)] obtain p1 u1 where dry:
      "apply_groups (ctx\<lparr>ec_dryRun := True\<rparr>) (sd_serviceName d) grs r1 s1 = (Inr p1, u1)"
      "expand_services g (ctx\<lparr>ec_dryRun := True\<rparr>) ds p1 u1 = (Inr q1, t1)" by (auto split: sum.splits prod.splits)
    have "same_shape p1 p2"
      using Cons.prems(3) groups_shape [OF real(2)] groups_shape [OF dry(1)] by (simp add: same_shape_def)
    from Cons.IH [OF dry(2) real(3) this] show ?thesis .
  qed (use Cons in simp)
qed simp

text \<open>The sidecars of a plan are those of the apply: where both passes succeed, they render the same
  back-references in the same places, so the hash of every sidecar, which is computed from them, is
  the same when planning and when applying, whatever was provisioned.\<close>

theorem expand_plan_matches_apply:
  assumes "expandAddons g (ctx\<lparr>ec_dryRun := True\<rparr>) ds s1 = (Inr planned, t1)"
    and "expandAddons g (ctx\<lparr>ec_dryRun := False\<rparr>) ds s2 = (Inr applied, t2)"
  shows "map rn_synthetic planned = map rn_synthetic applied \<and>
    map (\<lambda>x. map_option (\<lambda>syn. computeSyntheticDefinitionHash sha syn (block syn)) (rn_synthetic x)) planned =
    map (\<lambda>x. map_option (\<lambda>syn. computeSyntheticDefinitionHash sha syn (block syn)) (rn_synthetic x)) applied"
proof -
  let ?start = "foldl (\<lambda>m d. om_set (sd_serviceName d) (strip_addons d) m) [] ds"
  from assms(1) obtain q1 where q1: "expand_services g (ctx\<lparr>ec_dryRun := True\<rparr>) ds ?start s1 = (Inr q1, t1)" "planned = map snd q1"
    by (auto simp: expandAddons_def Let_def split: prod.splits sum.splits)
  from assms(2) obtain q2 where q2: "expand_services g (ctx\<lparr>ec_dryRun := False\<rparr>) ds ?start s2 = (Inr q2, t2)" "applied = map snd q2"
    by (auto simp: expandAddons_def Let_def split: prod.splits sum.splits)
  from services_shape [OF q1(1) q2(1)] have same: "map rn_synthetic planned = map rn_synthetic applied"
    by (simp add: same_shape_def q1(2) q2(2) comp_def)
  have "map (\<lambda>x. map_option h (rn_synthetic x)) xs = map (map_option h) (map rn_synthetic xs)" for h :: "synthetic_info \<Rightarrow> string" and xs
    by simp
  with same show ?thesis by metis
qed

lemma Inr_projr: "isl x = False \<Longrightarrow> x = Inr (projr x)"
  by (cases x) simp_all

lemma expand_plan_matches_apply_witness:
  "map_option (\<lambda>s. (sy_addonIds s, sy_targetService s))
     (rn_synthetic (projr (fst (expandAddons example_registry (example_context\<lparr>ec_dryRun := True\<rparr>)
        [addon_example ''ssh''] \<lparr>xs_world = 7, xs_events = []\<rparr>)) ! 1)) = Some ([''ssh''], ''web'') \<and>
   map rn_synthetic (projr (fst (expandAddons example_registry (example_context\<lparr>ec_dryRun := True\<rparr>)
     [addon_example ''ssh''] \<lparr>xs_world = 7, xs_events = []\<rparr>))) =
   map rn_synthetic (projr (fst (expandAddons example_registry (example_context\<lparr>ec_dryRun := False\<rparr>)
     [addon_example ''ssh''] \<lparr>xs_world = 9, xs_events = []\<rparr>)))"
proof -
  let ?run = "\<lambda>b n. expandAddons example_registry (example_context\<lparr>ec_dryRun := b\<rparr>)
    [addon_example ''ssh''] \<lparr>xs_world = n, xs_events = []\<rparr>"
  have "isl (fst (?run True 7)) = False" "isl (fst (?run False 9)) = False" by code_simp+
  from this [THEN Inr_projr] have runs: "?run True 7 = (Inr (projr (fst (?run True 7))), snd (?run True 7))"
    "?run False 9 = (Inr (projr (fst (?run False 9))), snd (?run False 9))" by (metis prod.collapse)+
  have "map_option (\<lambda>s. (sy_addonIds s, sy_targetService s)) (rn_synthetic (projr (fst (?run True 7)) ! 1)) =
    Some ([''ssh''], ''web'')" by code_simp
  with expand_plan_matches_apply [OF runs] show ?thesis by blast
qed

section \<open>Env injection and the plan\<close>

lemma env_collision_None: "env_collision m kvs = None \<Longrightarrow> fst ` set kvs \<inter> fst ` set m = {}"
proof (induction m kvs rule: env_collision.induct)
  case (2 m k v kvs)
  then have "om_get m k = None" "fst ` set kvs \<inter> fst ` set (om_set k v m) = {}" by (auto split: if_splits)
  then show ?case by (auto simp: om_keys_set map_of_eq_None_iff)
qed simp

lemma set_array_wf: "om_wf m \<Longrightarrow> om_wf (set_array k xs m)"
  by (simp add: set_array_def split: option.split)

lemma inject_wf: "om_wf cc \<Longrightarrow> om_wf (inject_stub i v cc)" "om_wf cc \<Longrightarrow> om_wf (inject_values i v cc)"
  by (simp_all add: inject_stub_def inject_values_def set_array_wf)

lemma set_array_other: "k \<noteq> k' \<Longrightarrow> map_of (set_array k' xs m) k = map_of m k"
  by (simp add: set_array_def split: option.split)

lemma inject_env:
  "map_of (inject_stub i v cc) ''env'' = map_of cc ''env''"
  "map_of (inject_values i w cc) ''env'' = Some (JObj (obj_merge (obj_field cc ''env'') (nullish (ev_envForTarget w) [])))"
  by (simp_all add: inject_stub_def inject_values_def set_array_other)

lemma strip_lookup:
  "map_option (json_norm \<circ> JObj) (stripDynamic (Some m)) = map_option (json_norm \<circ> JObj) (stripDynamic (Some m')) \<Longrightarrow>
   om_wf m \<Longrightarrow> om_wf m' \<Longrightarrow> k \<noteq> ''dynamicEnv'' \<Longrightarrow>
   map_option json_norm (map_of m k) = map_option json_norm (map_of m' k)"
proof -
  assume eq: "map_option (json_norm \<circ> JObj) (stripDynamic (Some m)) = map_option (json_norm \<circ> JObj) (stripDynamic (Some m'))"
    and wf: "om_wf m" "om_wf m'" and k: "k \<noteq> ''dynamicEnv''"
  define d where "d m = (if json_truthy (map_of m ''dynamicEnv'') then om_delete ''dynamicEnv'' m else m)"
    for m :: "(string \<times> json) list"
  have d: "stripDynamic (Some m) = Some (d m)" "map_of (d m) k = map_of m k" "om_wf m \<Longrightarrow> om_wf (d m)" for m
    using k by (auto simp: d_def stripDynamic_def)
  from eq have "sort_key fst (norm_fields (d m)) = sort_key fst (norm_fields (d m'))" by (simp add: d(1))
  from sort_key_lookup [OF this] d(3) wf have "map_of (norm_fields (d m)) k = map_of (norm_fields (d m')) k"
    by (simp add: norm_fields_keys om_wf_def)
  then show ?thesis by (simp add: map_of_norm_fields d(2))
qed

lemma norm_obj_keys: "json_norm (JObj a) = json_norm (JObj b) \<Longrightarrow> fst ` set a = fst ` set b"
proof -
  assume "json_norm (JObj a) = json_norm (JObj b)"
  then have "set (sort_key fst (norm_fields a)) = set (sort_key fst (norm_fields b))" by simp
  then have "set (norm_fields a) = set (norm_fields b)" by simp
  then have "fst ` set (norm_fields a) = fst ` set (norm_fields b)" by simp
  then show "fst ` set a = fst ` set b" by (metis norm_fields_keys list.set_map)
qed

lemma env_key_differs:
  assumes "om_wf cp" "om_wf ca" and "map_of ca ''env'' = Some (JObj ma)" and "k \<in> fst ` set ma"
    and "\<And>m. map_of cp ''env'' = Some (JObj m) \<Longrightarrow> k \<notin> fst ` set m"
  shows "map_option (json_norm \<circ> JObj) (stripDynamic (Some cp)) \<noteq> map_option (json_norm \<circ> JObj) (stripDynamic (Some ca))"
    (is "?a \<noteq> ?b")
proof
  assume "?a = ?b"
  from strip_lookup [OF this assms(1,2), of "''env''"] assms(3)
  obtain e where e: "map_of cp ''env'' = Some e" "json_norm e = json_norm (JObj ma)"
    by (cases "map_of cp ''env''") (simp_all del: json_norm.simps)
  from e(2) obtain m where m: "e = JObj m" by (cases e) simp_all
  from e(2) have "fst ` set m = fst ` set ma" unfolding m by (rule norm_obj_keys)
  with assms(4) assms(5) [OF e(1) [unfolded m]] show False by blast
qed

lemma same_hash_config:
  assumes "inj sha" and "computeDefinitionHash sha le s r = computeDefinitionHash sha le t q"
    and "sd_serviceType s \<noteq> ''AdoptedWeb''" and "sd_serviceType t \<noteq> ''AdoptedWeb''"
  shows "map_option (json_norm \<circ> JObj) (stripDynamic (sd_containerConfig s)) =
    map_option (json_norm \<circ> JObj) (stripDynamic (sd_containerConfig t))"
  using hash_lookup [OF assms(1,2), of "''containerConfig''"] assms(3,4)
  by (simp add: hash_canonical_def option.map_comp comp_def del: json_norm.simps(2))

lemma om_get_single: "om_get [(k, x)] k = Some x" "om_set k y [(k, x)] = [(k, y)]"
  by simp_all

lemma env_pass:
  assumes "expandAddons g ctx [d] s = (Inr out, t)"
    and "resolveGroups g ctx d (addon_block d) = Inr [Solo d a]"
    and "ad_definition (ap_registered a) = EnvInjectionAddon provision stub" and "addon_block d \<noteq> []"
  shows "\<exists>cc v. out = [\<lparr>rn_definition = d\<lparr>sd_addons := None, sd_containerConfig := Some cc\<rparr>, rn_synthetic = None\<rparr>] \<and>
    (if ec_dryRun ctx then cc = inject_stub (ap_addonId a) v (container_config d)
     else cc = inject_values (ap_addonId a) v (container_config d) \<and>
       env_collision (obj_field (container_config d) ''env'') (nullish (ev_envForTarget v) []) = None \<and>
       (\<exists>p w w'. provision p w = (Inr v, w')))"
proof -
  let ?n = "sd_serviceName d" and ?i = "ap_addonId a"
  let ?start = "[(?n, strip_addons d)]"
  have config: "container_config (rn_definition (strip_addons d)) = container_config d"
    by (simp add: strip_addons_def container_config_def)
  have upd: "update_config ?n f ?start = [(?n, \<lparr>rn_definition = d\<lparr>sd_addons := None,
      sd_containerConfig := Some (f (container_config d))\<rparr>, rn_synthetic = None\<rparr>)]" for f
    unfolding update_config_def om_get_single option.case config by (simp add: strip_addons_def)
  from assms obtain r where r: "applyEnvInjectionGroup ctx d a provision stub ?start s = (Inr r, t)" and out: "out = map snd r"
    by (auto simp: expandAddons_def applyGroup_def split: prod.splits sum.splits)
  show ?thesis
  proof (cases "ec_dryRun ctx")
    case True
    with r obtain v where "r = update_config ?n (inject_stub ?i v) ?start"
      by (auto simp: applyEnvInjectionGroup_def Let_def eff_bind_Inr eff_then_Inr)
    with True show ?thesis by (auto simp: out upd)
  next
    case False
    with r obtain v u p where "r = update_config ?n (inject_values ?i v) ?start"
      and "env_collision (obj_field (container_config d) ''env'') (nullish (ev_envForTarget v) []) = None"
      and "world_call (provision p) s = (Inr v, u)"
      by (auto simp: applyEnvInjectionGroup_def Let_def eff_bind_Inr eff_then_Inr config split: option.splits)
    moreover from this(3) have "\<exists>p w w'. provision p w = (Inr v, w')"
      by (auto simp: world_call_def split: prod.splits)
    ultimately show ?thesis using False unfolding out upd
      by (intro exI [of _ "inject_values ?i v (container_config d)"] exI [of _ v]) simp
  qed
qed

section \<open>A service without addons\<close>

text \<open>The passes of other services leave its entry alone.\<close>

lemma update_config_other: "n \<noteq> m \<Longrightarrow> om_get (update_config m f r) n = om_get r n"
  by (simp add: update_config_def split: option.split)

lemma integration_other:
  "n \<noteq> m \<Longrightarrow> applyTargetIntegration m tg v r = Inr r' \<Longrightarrow> om_get r' n = om_get r n"
  by (auto simp: applyTargetIntegration_def Let_def update_config_other split: option.splits if_splits)

lemma add_sidecar_other:
  assumes "om_get r n = Some x" and "n \<noteq> sd_serviceName target" and "add_sidecar target tg syn p r = Inr r'"
  shows "om_get r' n = Some x"
proof -
  let ?n = "sd_serviceName (snd p)" and ?x = "\<lparr>rn_definition = snd p, rn_synthetic = Some syn\<rparr>"
  from assms(3) have none: "om_get r ?n = None"
    and int: "applyTargetIntegration (sd_serviceName target) tg (fst p) (om_set ?n ?x r) = Inr r'"
    by (auto simp: add_sidecar_def Let_def split: if_splits)
  from assms(1) none have "n \<noteq> ?n" by auto
  with integration_other [OF assms(2) int] assms(1) show ?thesis by simp
qed

lemma group_other:
  assumes "om_get r n = Some x" and "n \<noteq> sd_serviceName (group_target gr)" and "applyGroup ctx gr r s = (Inr r', t)"
  shows "om_get r' n = Some x"
proof -
  have side: "om_get r' n = Some x"
    if "render_sidecar ctx d c src ids kind r s = (Inr r', t)" "n \<noteq> sd_serviceName d" for d c src ids kind
    using that by (auto simp: render_sidecar_def eff_bind_Inr eff_then_Inr lift_result_Inr
        intro: add_sidecar_other [OF assms(1)])
  have env: "om_get r' n = Some x"
    if "applyEnvInjectionGroup ctx d a prov stub r s = (Inr r', t)" "n \<noteq> sd_serviceName d" for d a prov stub
    using that assms(1) by (auto simp: applyEnvInjectionGroup_def Let_def eff_bind_Inr eff_then_Inr
        update_config_other split: option.splits if_splits)
  show ?thesis
  proof (cases gr)
    case (Solo d a)
    with assms(2,3) side env show ?thesis
      by (cases "ad_definition (ap_registered a)") (auto simp: applyGroup_def group_target_def)
  next
    case (Merged d kind members st)
    with assms(2,3) side show ?thesis by (auto simp: applyGroup_def group_target_def Let_def)
  qed
qed

lemma groups_other:
  "om_get r n = Some x \<Longrightarrow> apply_groups ctx name grs r s = (Inr r', t) \<Longrightarrow>
   (\<forall>gr \<in> set grs. n \<noteq> sd_serviceName (group_target gr)) \<Longrightarrow> om_get r' n = Some x"
proof (induction grs arbitrary: r s)
  case (Cons gr grs)
  from Cons.prems(2) obtain q u where q: "applyGroup ctx gr r s = (Inr q, u)"
    and rest: "apply_groups ctx name grs q u = (Inr r', t)" by (auto split: prod.splits sum.splits)
  from Cons.prems(3) have "om_get q n = Some x" by (intro group_other [OF Cons.prems(1) _ q]) simp
  from Cons.IH [OF this rest] Cons.prems(3) show ?case by simp
qed simp

lemma services_other:
  "om_get r n = Some x \<Longrightarrow> expand_services g ctx ds r s = (Inr r', t) \<Longrightarrow>
   (\<forall>d \<in> set ds. addon_block d = [] \<or> sd_serviceName d \<noteq> n) \<Longrightarrow> om_get r' n = Some x"
proof (induction ds arbitrary: r s)
  case (Cons d ds)
  show ?case
  proof (cases "addon_block d = []")
    case False
    with Cons.prems(2) obtain grs q u where res: "resolveGroups g ctx d (addon_block d) = Inr grs"
      and q: "apply_groups ctx (sd_serviceName d) grs r s = (Inr q, u)"
      and rest: "expand_services g ctx ds q u = (Inr r', t)" by (auto split: sum.splits prod.splits)
    have "om_get q n = Some x"
      using resolve_target [OF res] Cons.prems(3) False by (intro groups_other [OF Cons.prems(1) q]) auto
    from Cons.IH [OF this rest] Cons.prems(3) show ?thesis by simp
  qed (use Cons in auto)
qed simp

lemma expand_untouched:
  assumes "expandAddons g ctx ds s = (Inr out, t)" and "distinct (map sd_serviceName ds)"
    and "d \<in> set ds" and "addon_block d = []"
  shows "strip_addons d \<in> set out"
proof -
  let ?start = "map (\<lambda>d. (sd_serviceName d, strip_addons d)) ds"
  from assms(1,2) obtain r where r: "expand_services g ctx ds ?start s = (Inr r, t)" "out = map snd r"
    by (auto simp: expandAddons_def start_distinct split: prod.splits sum.splits)
  have "om_get ?start (sd_serviceName d) = Some (strip_addons d)"
    using assms(2,3) by (intro map_of_is_SomeI) (auto simp: comp_def)
  moreover have "\<forall>e \<in> set ds. addon_block e = [] \<or> sd_serviceName e \<noteq> sd_serviceName d"
    using assms(2-4) by (metis distinct_map inj_onD)
  ultimately have "om_get r (sd_serviceName d) = Some (strip_addons d)" by (rule services_other [OF _ r(1)])
  from map_of_SomeD [OF this] r(2) show ?thesis by force
qed

end
