(* ===== verification/TemplateEngine.thy ===== *)
theory TemplateEngine
  imports DefinitionHash
begin

text \<open>
  The template engine, \<open>stacks/template-engine.ts\<close>: the context a stack offers to its definitions, the
  substitution of \<open>{{path}}\<close> in strings and object trees, and the conversion of resolved fields
  back to numbers. Numeric literals other than decimal integers are read by a parameter, \<open>num\<close>.
  Properties every JavaScript object inherits are not fields of the context here.
\<close>

section \<open>Results\<close>

definition res_bind :: "string + 'a \<Rightarrow> ('a \<Rightarrow> string + 'b) \<Rightarrow> string + 'b" where
  "res_bind r f = (case r of Inl e \<Rightarrow> Inl e | Inr x \<Rightarrow> f x)"

fun res_each :: "('a \<Rightarrow> string + 'b) \<Rightarrow> 'a list \<Rightarrow> string + 'b list" where
  "res_each f [] = Inr []"
| "res_each f (x # xs) = res_bind (f x) (\<lambda>y. res_bind (res_each f xs) (\<lambda>ys. Inr (y # ys)))"

definition res_option :: "('a \<Rightarrow> string + 'b) \<Rightarrow> 'a option \<Rightarrow> string + 'b option" where
  "res_option f a = (case a of None \<Rightarrow> Inr None | Some x \<Rightarrow> res_bind (f x) (\<lambda>y. Inr (Some y)))"

lemma res_bind_Inr: "res_bind r f = Inr y \<longleftrightarrow> (\<exists>x. r = Inr x \<and> f x = Inr y)"
  by (cases r) (simp_all add: res_bind_def)

lemma res_each_Inr: "res_each f xs = Inr ys \<longleftrightarrow> list_all2 (\<lambda>x y. f x = Inr y) xs ys"
proof (induction xs arbitrary: ys)
  case (Cons x xs)
  then show ?case by (cases ys) (auto simp: res_bind_Inr)
qed auto

lemma res_option_Inr:
  "res_option f a = Inr b \<longleftrightarrow> (case a of None \<Rightarrow> b = None | Some x \<Rightarrow> \<exists>y. f x = Inr y \<and> b = Some y)"
  by (auto simp: res_option_def res_bind_Inr split: option.split)

text \<open>The message of the \<open>TypeError\<close> a property of \<open>undefined\<close> gives.\<close>

definition no_property :: "string \<Rightarrow> string" where
  "no_property p = ''Cannot read properties of undefined (reading '' @ [CHR 0x27] @ p @ [CHR 0x27] @ '')''"

section \<open>The context\<close>

record template_environment =
  te_id :: string
  te_name :: string
  te_type :: string
  te_networkType :: string

record template_context =
  tx_id :: "string option"
  tx_name :: string
  tx_projectName :: string
  tx_services :: "(string \<times> string \<times> string) list"
  tx_env :: "(string \<times> json) list"
  tx_volumes :: "(string \<times> string) list"
  tx_networks :: "(string \<times> string) list"
  tx_params :: "(string \<times> json option) list"
  tx_environment :: "template_environment option"
  tx_inputs :: "(string \<times> string) list option"

definition getStackProjectName :: "string \<Rightarrow> string option \<Rightarrow> string" where
  "getStackProjectName name environment =
     (case environment of Some e \<Rightarrow> e @ ''-'' @ name | None \<Rightarrow> ''mini-infra-'' @ name)"

definition service_env :: "service_definition \<Rightarrow> (string \<times> json) list" where
  "service_env s = (case config_field s ''env'' of Some (JObj m) \<Rightarrow> m | _ \<Rightarrow> [])"

definition buildTemplateContext ::
  "string \<Rightarrow> string list \<Rightarrow> string list \<Rightarrow> service_definition list \<Rightarrow> string option \<Rightarrow>
   template_environment option \<Rightarrow> (string \<times> json option) list \<Rightarrow> (string \<times> string) list option \<Rightarrow> template_context" where
  "buildTemplateContext name networks volumes services sid environment params inputs =
     (let project = getStackProjectName name (map_option te_name environment) in
      \<lparr>tx_id = sid, tx_name = name, tx_projectName = project,
       tx_services = foldl (\<lambda>m s. om_set (sd_serviceName s)
         (project @ ''-'' @ sd_serviceName s, sd_dockerImage s @ '':'' @ sd_dockerTag s) m) [] services,
       tx_env = foldl (\<lambda>m (k, v). om_set k v m) [] (concat (map service_env services)),
       tx_volumes = foldl (\<lambda>m v. om_set v (project @ ''_'' @ v) m) [] volumes,
       tx_networks = foldl (\<lambda>m n. om_set n (project @ ''_'' @ n) m) [] networks,
       tx_params = params, tx_environment = environment, tx_inputs = inputs\<rparr>)"

text \<open>The context as the object a path walks through.\<close>

definition str_fields :: "(string \<times> string) list \<Rightarrow> json" where
  "str_fields m = JObj (map (\<lambda>(k, v). (k, JStr v)) m)"

definition context_json :: "template_context \<Rightarrow> json" where
  "context_json c = JObj (
     [(''stack'', str_fields ([(''name'', tx_name c), (''projectName'', tx_projectName c)] @
        (case tx_id c of None \<Rightarrow> [] | Some i \<Rightarrow> [(''id'', i)]))),
      (''services'', JObj (map (\<lambda>(n, cname, image). (n, str_fields [(''containerName'', cname), (''image'', image)])) (tx_services c))),
      (''env'', JObj (tx_env c)), (''volumes'', str_fields (tx_volumes c)), (''networks'', str_fields (tx_networks c)),
      (''params'', JObj (concat (map (\<lambda>(k, v). case v of None \<Rightarrow> [] | Some j \<Rightarrow> [(k, j)]) (tx_params c))))] @
     (case tx_environment c of None \<Rightarrow> []
      | Some e \<Rightarrow> [(''environment'', str_fields [(''id'', te_id e), (''name'', te_name e), (''type'', te_type e),
          (''networkType'', te_networkType e)])]) @
     (case tx_inputs c of None \<Rightarrow> [] | Some m \<Rightarrow> [(''inputs'', str_fields m)]))"

section \<open>Substitution in a string\<close>

definition is_space :: "char \<Rightarrow> bool" where
  "is_space c \<longleftrightarrow> c \<in> {CHR 0x09, CHR 0x0A, CHR 0x0B, CHR 0x0C, CHR 0x0D, CHR '' '', CHR 0xA0}"

definition trim :: "string \<Rightarrow> string" where
  "trim s = rev (dropWhile is_space (rev (dropWhile is_space s)))"

fun split_on :: "char \<Rightarrow> string \<Rightarrow> string list" where
  "split_on d [] = [[]]"
| "split_on d (c # s) =
     (if c = d then [] # split_on d s
      else (case split_on d s of w # ws \<Rightarrow> (c # w) # ws | [] \<Rightarrow> [[c]]))"

text \<open>
  \<open>/\{\{([^}]+)\}\}/\<close> at the head of a string: the path and what follows. The run of characters other
  than a closing brace can only end where that brace is.
\<close>

definition template_match :: "string \<Rightarrow> (string \<times> string) option" where
  "template_match s =
     (if take 2 s = ''{{'' then
        (let r = drop 2 s; path = takeWhile (\<lambda>c. c \<noteq> CHR ''}'') r; rest = dropWhile (\<lambda>c. c \<noteq> CHR ''}'') r
         in if path \<noteq> [] \<and> take 2 rest = ''}}'' then Some (path, drop 2 rest) else None)
      else None)"

text \<open>\<open>current[part]\<close> along the path; \<open>None\<close> where it is \<open>undefined\<close> or cannot be walked into.\<close>

fun path_value :: "json option \<Rightarrow> string list \<Rightarrow> json option" where
  "path_value cur [] = cur"
| "path_value (Some (JObj m)) (p # ps) = path_value (map_of m p) ps"
| "path_value _ (p # ps) = None"

fun scalar_text :: "json option \<Rightarrow> string option" where
  "scalar_text None = None"
| "scalar_text (Some JNull) = None"
| "scalar_text (Some (JArr _)) = None"
| "scalar_text (Some (JObj _)) = None"
| "scalar_text (Some j) = Some (js_string j)"

definition resolve_variable :: "json \<Rightarrow> string \<Rightarrow> string + string" where
  "resolve_variable ctx path =
     (case scalar_text (path_value (Some ctx) (split_on (CHR ''.'') (trim path))) of
        None \<Rightarrow> Inl (''Unresolved template variable: {{'' @ path @ ''}}'')
      | Some t \<Rightarrow> Inr t)"

lemma template_match_shorter: "template_match s = Some (p, r) \<Longrightarrow> length r < length s"
proof -
  assume "template_match s = Some (p, r)"
  then have "take 2 s = ''{{''" "r = drop 2 (dropWhile (\<lambda>c. c \<noteq> CHR ''}'') (drop 2 s))"
    by (auto simp: template_match_def Let_def split: if_splits)
  moreover from this(1) have "s \<noteq> []" by auto
  ultimately show "length r < length s"
    using length_dropWhile_le [of "\<lambda>c. c \<noteq> CHR ''}''" "drop 2 s"] by (cases s) auto
qed

function resolve_text :: "(string \<Rightarrow> string + string) \<Rightarrow> string \<Rightarrow> string + string" where
  "resolve_text f s =
     (case template_match s of
        Some (path, rest) \<Rightarrow> res_bind (f path) (\<lambda>v. res_bind (resolve_text f rest) (\<lambda>t. Inr (v @ t)))
      | None \<Rightarrow> (case s of [] \<Rightarrow> Inr [] | c # s' \<Rightarrow> res_bind (resolve_text f s') (\<lambda>t. Inr (c # t))))"
  by pat_completeness auto
termination by (relation "measure (length \<circ> snd)") (auto dest: template_match_shorter)

declare resolve_text.simps [simp del]

definition resolveTemplate :: "json \<Rightarrow> string \<Rightarrow> string + string" where
  "resolveTemplate ctx s = resolve_text (resolve_variable ctx) s"

section \<open>Object trees\<close>

fun deepResolve :: "json \<Rightarrow> json \<Rightarrow> string + json"
  and deep_items :: "json \<Rightarrow> json list \<Rightarrow> string + json list"
  and deep_fields :: "json \<Rightarrow> (string \<times> json) list \<Rightarrow> string + (string \<times> json) list" where
  "deepResolve ctx (JStr s) =
     (if includes_str s ''{{'' then res_bind (resolveTemplate ctx s) (\<lambda>t. Inr (JStr t)) else Inr (JStr s))"
| "deepResolve ctx (JArr xs) = res_bind (deep_items ctx xs) (\<lambda>ys. Inr (JArr ys))"
| "deepResolve ctx (JObj m) = res_bind (deep_fields ctx m) (\<lambda>m'. Inr (JObj m'))"
| "deepResolve ctx j = Inr j"
| "deep_items ctx [] = Inr []"
| "deep_items ctx (x # xs) = res_bind (deepResolve ctx x) (\<lambda>y. res_bind (deep_items ctx xs) (\<lambda>ys. Inr (y # ys)))"
| "deep_fields ctx [] = Inr []"
| "deep_fields ctx ((k, v) # m) = res_bind (deepResolve ctx v) (\<lambda>w. res_bind (deep_fields ctx m) (\<lambda>m'. Inr ((k, w) # m')))"

definition deep_str :: "json \<Rightarrow> string \<Rightarrow> string + string" where
  "deep_str ctx s = (if includes_str s ''{{'' then resolveTemplate ctx s else Inr s)"

definition deep_trigger :: "json \<Rightarrow> job_pool_trigger \<Rightarrow> string + job_pool_trigger" where
  "deep_trigger ctx t =
     (case t of
        CronTrigger name schedule timezone \<Rightarrow>
          res_bind (deep_str ctx name) (\<lambda>n. res_bind (deep_str ctx schedule) (\<lambda>s.
            res_bind (res_option (deep_str ctx) timezone) (\<lambda>z. Inr (CronTrigger n s z))))
      | NatsRequestTrigger name subject ack \<Rightarrow>
          res_bind (deep_str ctx name) (\<lambda>n. res_bind (deep_str ctx subject) (\<lambda>s. Inr (NatsRequestTrigger n s ack)))
      | ManualTrigger name \<Rightarrow> res_bind (deep_str ctx name) (\<lambda>n. Inr (ManualTrigger n)))"

definition deep_pool :: "json \<Rightarrow> job_pool_config \<Rightarrow> string + job_pool_config" where
  "deep_pool ctx p =
     res_bind (res_each (deep_trigger ctx) (jp_triggers p)) (\<lambda>ts.
     res_bind (res_option (deepResolve ctx) (jp_history p)) (\<lambda>h.
     res_bind (res_option (deepResolve ctx) (jp_onFailure p)) (\<lambda>f.
     Inr (p\<lparr>jp_triggers := ts, jp_history := h, jp_onFailure := f\<rparr>))))"

text \<open>\<open>deepResolve\<close> of a service definition, field by field.\<close>

definition deep_definition :: "json \<Rightarrow> service_definition \<Rightarrow> string + service_definition" where
  "deep_definition ctx s =
     res_bind (deep_str ctx (sd_serviceName s)) (\<lambda>name.
     res_bind (deep_str ctx (sd_serviceType s)) (\<lambda>ty.
     res_bind (deep_str ctx (sd_dockerImage s)) (\<lambda>image.
     res_bind (deep_str ctx (sd_dockerTag s)) (\<lambda>tag.
     res_bind (res_option (deep_fields ctx) (sd_containerConfig s)) (\<lambda>cc.
     res_bind (res_option (deep_items ctx) (sd_configFiles s)) (\<lambda>files.
     res_bind (res_option (deep_items ctx) (sd_initCommands s)) (\<lambda>inits.
     res_bind (res_option (deepResolve ctx) (sd_routing s)) (\<lambda>routing.
     res_bind (res_option (deepResolve ctx) (sd_adoptedContainer s)) (\<lambda>adopted.
     res_bind (res_option (deepResolve ctx) (sd_addons s)) (\<lambda>addons.
     res_bind (res_option (deep_pool ctx) (sd_jobPoolConfig s)) (\<lambda>pool.
     Inr \<lparr>sd_serviceName = name, sd_serviceType = ty, sd_dockerImage = image, sd_dockerTag = tag,
       sd_containerConfig = cc, sd_configFiles = files, sd_initCommands = inits, sd_routing = routing,
       sd_adoptedContainer = adopted, sd_addons = addons, sd_jobPoolConfig = pool\<rparr>)))))))))))"

section \<open>Numbers\<close>

definition digits_int :: "string \<Rightarrow> int" where
  "digits_int s = foldl (\<lambda>n c. 10 * n + (of_char c - 48)) 0 s"

definition decimal :: "string \<Rightarrow> int option" where
  "decimal s =
     (let ds = (case s of c # r \<Rightarrow> if c = CHR ''-'' \<or> c = CHR ''+'' then r else s | [] \<Rightarrow> []) in
      if ds \<noteq> [] \<and> list_all (\<lambda>c. c \<in> set ''0123456789'') ds
      then Some (if hd s = CHR ''-'' then - digits_int ds else digits_int ds) else None)"

text \<open>\<open>Number(value)\<close>, \<open>None\<close> where it is not finite.\<close>

definition number_of_text :: "(string \<Rightarrow> int option) \<Rightarrow> string \<Rightarrow> int option" where
  "number_of_text num s =
     (let t = trim s in
      if t = [] then Some 0 else (case decimal t of Some n \<Rightarrow> Some n | None \<Rightarrow> num t))"

fun to_number :: "(string \<Rightarrow> int option) \<Rightarrow> json option \<Rightarrow> int option" where
  "to_number num None = None"
| "to_number num (Some JNull) = Some 0"
| "to_number num (Some (JBool b)) = Some (if b then 1 else 0)"
| "to_number num (Some (JNum n)) = Some n"
| "to_number num (Some (JObj m)) = None"
| "to_number num (Some j) = number_of_text num (js_string j)"

definition toFiniteNumber :: "(string \<Rightarrow> int option) \<Rightarrow> json option \<Rightarrow> string \<Rightarrow> string \<Rightarrow> string + int" where
  "toFiniteNumber num v field service =
     (case to_number num v of
        Some n \<Rightarrow> Inr n
      | None \<Rightarrow> Inl (''Service \"'' @ service @ ''\" field \"'' @ field @ ''\" did not resolve to a finite number (got '' @
          (case v of None \<Rightarrow> ''undefined'' | Some j \<Rightarrow> print_json j) @ '')''))"

text \<open>A field that is an object, or an array.\<close>

fun as_obj :: "json option \<Rightarrow> (string \<times> json) list option" where
  "as_obj (Some (JObj m)) = Some m"
| "as_obj _ = None"

fun as_arr :: "json option \<Rightarrow> json list option" where
  "as_arr (Some (JArr xs)) = Some xs"
| "as_arr _ = None"

definition coerceExposeOnHost :: "json \<Rightarrow> bool" where
  "coerceExposeOnHost v \<longleftrightarrow> v = JBool True \<or> v = JStr ''true''"

text \<open>A field of an object replaced by its number.\<close>

definition set_number ::
  "(string \<Rightarrow> int option) \<Rightarrow> string \<Rightarrow> string \<Rightarrow> string \<Rightarrow> (string \<times> json) list \<Rightarrow> string + (string \<times> json) list" where
  "set_number num service label k m =
     res_bind (toFiniteNumber num (map_of m k) label service) (\<lambda>n. Inr (om_set k (JNum n) m))"

definition coerce_port ::
  "(string \<Rightarrow> int option) \<Rightarrow> string \<Rightarrow> nat \<Rightarrow> (string \<times> json) list \<Rightarrow> string + (string \<times> json) list" where
  "coerce_port num service i m =
     (let label = (\<lambda>k. ''ports['' @ string_of_nat i @ ''].'' @ k) in
      res_bind (set_number num service (label ''containerPort'') ''containerPort'' m) (\<lambda>m1.
      res_bind (set_number num service (label ''hostPort'') ''hostPort'' m1) (\<lambda>m2.
      Inr (case map_of m ''exposeOnHost'' of
             None \<Rightarrow> m2 | Some v \<Rightarrow> om_set ''exposeOnHost'' (JBool (coerceExposeOnHost v)) m2))))"

fun coerce_ports :: "(string \<Rightarrow> int option) \<Rightarrow> string \<Rightarrow> nat \<Rightarrow> json list \<Rightarrow> string + json list" where
  "coerce_ports num service i [] = Inr []"
| "coerce_ports num service i (p # ps) =
     res_bind (coerce_port num service i (nullish (as_obj (Some p)) [])) (\<lambda>m.
     res_bind (coerce_ports num service (Suc i) ps) (\<lambda>qs. Inr (JObj m # qs)))"

definition coerce_healthcheck ::
  "(string \<Rightarrow> int option) \<Rightarrow> string \<Rightarrow> (string \<times> json) list \<Rightarrow> string + (string \<times> json) list" where
  "coerce_healthcheck num service m =
     res_bind (set_number num service ''healthcheck.interval'' ''interval'' m) (\<lambda>m.
     res_bind (set_number num service ''healthcheck.timeout'' ''timeout'' m) (\<lambda>m.
     res_bind (set_number num service ''healthcheck.retries'' ''retries'' m) (\<lambda>m.
     set_number num service ''healthcheck.startPeriod'' ''startPeriod'' m)))"

definition set_optional_number ::
  "(string \<Rightarrow> int option) \<Rightarrow> string \<Rightarrow> string \<Rightarrow> (string \<times> json) list \<Rightarrow> string + (string \<times> json) list" where
  "set_optional_number num service k m =
     (case map_of m k of None \<Rightarrow> Inr m | Some _ \<Rightarrow> set_number num service (''routing.backendOptions.'' @ k) k m)"

definition coerce_routing ::
  "(string \<Rightarrow> int option) \<Rightarrow> string \<Rightarrow> (string \<times> json) list \<Rightarrow> string + (string \<times> json) list" where
  "coerce_routing num service m =
     res_bind (set_number num service ''routing.listeningPort'' ''listeningPort'' m) (\<lambda>m.
     (case as_obj (map_of m ''backendOptions'') of
        Some bo \<Rightarrow>
          res_bind (set_optional_number num service ''checkTimeout'' bo) (\<lambda>bo.
          res_bind (set_optional_number num service ''connectTimeout'' bo) (\<lambda>bo.
          res_bind (set_optional_number num service ''serverTimeout'' bo) (\<lambda>bo.
          Inr (om_set ''backendOptions'' (JObj bo) m))))
      | None \<Rightarrow> Inr m))"

definition coerce_config ::
  "(string \<Rightarrow> int option) \<Rightarrow> string \<Rightarrow> (string \<times> json) list \<Rightarrow> string + (string \<times> json) list" where
  "coerce_config num service cc =
     res_bind (case as_arr (map_of cc ''ports'') of
         Some ps \<Rightarrow> res_bind (coerce_ports num service 0 ps) (\<lambda>qs. Inr (om_set ''ports'' (JArr qs) cc))
       | None \<Rightarrow> Inr cc) (\<lambda>cc.
     (case as_obj (map_of cc ''healthcheck'') of
         Some h \<Rightarrow> res_bind (coerce_healthcheck num service h) (\<lambda>h. Inr (om_set ''healthcheck'' (JObj h) cc))
       | None \<Rightarrow> Inr cc))"

definition coerceServiceDefinitionTypes ::
  "(string \<Rightarrow> int option) \<Rightarrow> service_definition \<Rightarrow> string + service_definition" where
  "coerceServiceDefinitionTypes num s =
     (case sd_containerConfig s of
        None \<Rightarrow> Inl (no_property ''ports'')
      | Some cc \<Rightarrow>
          res_bind (coerce_config num (sd_serviceName s) cc) (\<lambda>cc.
          (case as_obj (sd_routing s) of
             Some m \<Rightarrow> res_bind (coerce_routing num (sd_serviceName s) m) (\<lambda>m.
               Inr (s\<lparr>sd_containerConfig := Some cc, sd_routing := Some (JObj m)\<rparr>))
           | None \<Rightarrow> Inr (s\<lparr>sd_containerConfig := Some cc\<rparr>))))"

definition resolveServiceDefinition ::
  "(string \<Rightarrow> int option) \<Rightarrow> template_context \<Rightarrow> service_definition \<Rightarrow> string + service_definition" where
  "resolveServiceDefinition num ctx s =
     res_bind (deep_definition (context_json ctx) s) (coerceServiceDefinitionTypes num)"

text \<open>\<open>{ ...file, content: resolveTemplate(file.content, context) }\<close>.\<close>

definition resolve_file :: "json \<Rightarrow> json \<Rightarrow> string + json" where
  "resolve_file ctx f =
     (let m = nullish (as_obj (Some f)) [] in
      case map_of m ''content'' of
        Some (JStr c) \<Rightarrow> res_bind (resolveTemplate ctx c) (\<lambda>t. Inr (JObj (om_set ''content'' (JStr t) m)))
      | _ \<Rightarrow> Inl (no_property ''replace''))"

definition resolveStackConfigFiles :: "template_context \<Rightarrow> json list \<Rightarrow> string + json list" where
  "resolveStackConfigFiles ctx fs = res_each (resolve_file (context_json ctx)) fs"

section \<open>What a substitution does\<close>

text \<open>A template as its author reads it: text without an opening brace, and variables.\<close>

datatype segment = Literal string | Variable string

fun segment_ok :: "segment \<Rightarrow> bool" where
  "segment_ok (Literal s) = (CHR ''{'' \<notin> set s)"
| "segment_ok (Variable p) = (p \<noteq> [] \<and> CHR ''}'' \<notin> set p)"

fun print_segment :: "segment \<Rightarrow> string" where
  "print_segment (Literal s) = s"
| "print_segment (Variable p) = ''{{'' @ p @ ''}}''"

fun segment_value :: "(string \<Rightarrow> string + string) \<Rightarrow> segment \<Rightarrow> string + string" where
  "segment_value f (Literal s) = Inr s"
| "segment_value f (Variable p) = f p"

lemma match_variable: "p \<noteq> [] \<Longrightarrow> CHR ''}'' \<notin> set p \<Longrightarrow> template_match (''{{'' @ p @ ''}}'' @ s) = Some (p, s)"
proof -
  assume p: "p \<noteq> []" "CHR ''}'' \<notin> set p"
  then have "takeWhile (\<lambda>c. c \<noteq> CHR ''}'') (p @ ''}}'' @ s) = p"
    "dropWhile (\<lambda>c. c \<noteq> CHR ''}'') (p @ ''}}'' @ s) = ''}}'' @ s"
    by (auto simp: takeWhile_append dropWhile_append)
  with p show ?thesis by (simp add: template_match_def)
qed

lemma match_plain: "CHR ''{'' \<noteq> c \<Longrightarrow> template_match (c # s) = None"
  by (cases s) (simp_all add: template_match_def)

lemma match_Nil: "template_match [] = None"
  by (simp add: template_match_def)

lemma resolve_variable_step:
  "p \<noteq> [] \<Longrightarrow> CHR ''}'' \<notin> set p \<Longrightarrow>
   resolve_text f (''{{'' @ p @ ''}}'' @ s) = res_bind (f p) (\<lambda>v. res_bind (resolve_text f s) (\<lambda>t. Inr (v @ t)))"
  by (subst resolve_text.simps) (simp add: match_variable del: append_Cons)

lemma resolve_plain_step: "CHR ''{'' \<noteq> c \<Longrightarrow> resolve_text f (c # s) = res_bind (resolve_text f s) (\<lambda>t. Inr (c # t))"
  by (subst resolve_text.simps) (simp add: match_plain)

lemma resolve_literal:
  "CHR ''{'' \<notin> set l \<Longrightarrow> resolve_text f (l @ s) = res_bind (resolve_text f s) (\<lambda>t. Inr (l @ t))"
proof (induction l)
  case Nil
  show ?case by (cases "resolve_text f s") (simp_all add: res_bind_def)
next
  case (Cons c l)
  then show ?case by (cases "resolve_text f s") (simp_all add: resolve_plain_step res_bind_def)
qed

lemma resolve_Nil: "resolve_text f [] = Inr []"
  by (subst resolve_text.simps) (simp add: match_Nil)

lemma resolve_segments:
  "list_all segment_ok segs \<Longrightarrow>
   resolve_text f (concat (map print_segment segs)) =
     res_bind (res_each (segment_value f) segs) (\<lambda>vs. Inr (concat vs))"
proof (induction segs)
  case Nil
  show ?case by (simp add: resolve_Nil res_bind_def)
next
  case (Cons g segs)
  have step: "resolve_text f (print_segment g @ s) =
      res_bind (segment_value f g) (\<lambda>v. res_bind (resolve_text f s) (\<lambda>t. Inr (v @ t)))" for s
  proof (cases g)
    case (Literal l)
    with Cons.prems resolve_literal [of l f s] show ?thesis by (simp add: res_bind_def)
  next
    case (Variable p)
    with Cons.prems resolve_variable_step [of p f s] show ?thesis by simp
  qed
  show ?case using Cons by (simp add: step) (auto simp: res_bind_def split: sum.split)
qed

lemma resolve_untouched: "\<not> includes_str s ''{{'' \<Longrightarrow> resolve_text f s = Inr s"
proof (induction s)
  case (Cons c s)
  have "template_match (c # s) = None"
  proof -
    have "take 2 (c # s) \<noteq> ''{{''"
    proof
      assume "take 2 (c # s) = ''{{''"
      then have "starts_with (c # s) ''{{''" by (cases s) auto
      with Cons.prems show False by simp
    qed
    then show ?thesis unfolding template_match_def by (rule if_not_P)
  qed
  moreover have "resolve_text f s = Inr s" using Cons by simp
  ultimately show ?case by (subst resolve_text.simps) (simp add: res_bind_def)
qed (rule resolve_Nil)

text \<open>Substitution is one pass from left to right: a template made of literal text and variables resolves
  to the texts of its variables in place, or to the error of the first variable without one; what a
  variable's value contains is never substituted again. A text without an opening double brace is unchanged.\<close>

theorem template_substitution:
  "(list_all segment_ok segs \<longrightarrow>
     resolveTemplate ctx (concat (map print_segment segs)) =
       res_bind (res_each (segment_value (resolve_variable ctx)) segs) (\<lambda>vs. Inr (concat vs))) \<and>
   (includes_str s ''{{'' \<or> resolveTemplate ctx s = Inr s)"
  using resolve_segments [of segs "resolve_variable ctx"] resolve_untouched [of s "resolve_variable ctx"]
  by (auto simp: resolveTemplate_def)

definition example_template_context :: template_context where
  "example_template_context = buildTemplateContext ''web'' [''front''] [''data''] [] (Some ''s1'') None
     [(''port'', Some (JNum 8080)), (''self'', Some (JStr ''{{stack.name}}''))] None"

lemma template_substitution_witness:
  "resolveTemplate (context_json example_template_context) ''{{ volumes.data }}:{{params.port}}'' =
     Inr ''mini-infra-web_data:8080'' \<and>
   resolveTemplate (context_json example_template_context) ''{{params.self}}'' = Inr ''{{stack.name}}''"
proof -
  have vals: "segment_value (resolve_variable (context_json example_template_context)) (Variable '' volumes.data '') =
      Inr ''mini-infra-web_data''"
    "segment_value (resolve_variable (context_json example_template_context)) (Literal '':'') = Inr '':''"
    "segment_value (resolve_variable (context_json example_template_context)) (Variable ''params.port'') = Inr ''8080''"
    "segment_value (resolve_variable (context_json example_template_context)) (Variable ''params.self'') =
      Inr ''{{stack.name}}''"
    by (simp_all add: resolve_variable_def context_json_def example_template_context_def buildTemplateContext_def
      str_fields_def trim_def is_space_def getStackProjectName_def string_of_int_def string_of_nat.simps digit_char_def)
  note run = template_substitution [THEN conjunct1, rule_format]
  let ?one = "[Variable '' volumes.data '', Literal '':'', Variable ''params.port'']" and ?two = "[Variable ''params.self'']"
  have ok: "list_all segment_ok ?one" "list_all segment_ok ?two" by simp_all
  have vs: "res_each (segment_value (resolve_variable (context_json example_template_context))) ?one =
      Inr [''mini-infra-web_data'', '':'', ''8080'']"
    "res_each (segment_value (resolve_variable (context_json example_template_context))) ?two = Inr [''{{stack.name}}'']"
    by (simp_all del: segment_value.simps add: vals res_bind_def)
  have "concat (map print_segment ?one) = ''{{ volumes.data }}:{{params.port}}''"
    "concat (map print_segment ?two) = ''{{params.self}}''" by simp_all
  with run [OF ok(1), of "context_json example_template_context", unfolded vs(1)]
    run [OF ok(2), of "context_json example_template_context", unfolded vs(2)]
  show ?thesis unfolding res_bind_def sum.case by simp
qed

section \<open>Resolved definitions are well typed\<close>

fun is_number :: "json option \<Rightarrow> bool" where
  "is_number (Some (JNum n)) = True"
| "is_number _ = False"

fun is_boolean :: "json option \<Rightarrow> bool" where
  "is_boolean (Some (JBool b)) = True"
| "is_boolean _ = False"

fun port_typed :: "json \<Rightarrow> bool" where
  "port_typed (JObj m) = (is_number (map_of m ''containerPort'') \<and> is_number (map_of m ''hostPort'') \<and>
     (map_of m ''exposeOnHost'' = None \<or> is_boolean (map_of m ''exposeOnHost'')))"
| "port_typed _ = False"

definition config_typed :: "(string \<times> json) list \<Rightarrow> bool" where
  "config_typed cc \<longleftrightarrow>
     (case as_arr (map_of cc ''ports'') of None \<Rightarrow> True | Some ps \<Rightarrow> list_all port_typed ps) \<and>
     (case as_obj (map_of cc ''healthcheck'') of
        None \<Rightarrow> True
      | Some h \<Rightarrow> list_all (\<lambda>k. is_number (map_of h k)) [''interval'', ''timeout'', ''retries'', ''startPeriod''])"

definition routing_typed :: "json option \<Rightarrow> bool" where
  "routing_typed r \<longleftrightarrow> (case as_obj r of
     None \<Rightarrow> True
   | Some m \<Rightarrow> is_number (map_of m ''listeningPort'') \<and>
       (case as_obj (map_of m ''backendOptions'') of
          None \<Rightarrow> True
        | Some bo \<Rightarrow> list_all (\<lambda>k. map_of bo k = None \<or> is_number (map_of bo k))
            [''checkTimeout'', ''connectTimeout'', ''serverTimeout'']))"

lemma set_number_Inr:
  "set_number num sv label k m = Inr m' \<longleftrightarrow> (\<exists>n. to_number num (map_of m k) = Some n \<and> m' = om_set k (JNum n) m)"
  by (auto simp: set_number_def toFiniteNumber_def res_bind_Inr split: option.splits)

lemma coerce_port_typed: "coerce_port num sv i m = Inr m' \<Longrightarrow> port_typed (JObj m')"
  by (cases "map_of m ''exposeOnHost''") (auto simp: coerce_port_def Let_def res_bind_Inr set_number_Inr)

lemma coerce_ports_typed: "coerce_ports num sv i ps = Inr qs \<Longrightarrow> list_all port_typed qs"
  by (induction ps arbitrary: i qs) (auto simp: res_bind_Inr simp del: port_typed.simps dest: coerce_port_typed)

lemma coerce_healthcheck_typed:
  "coerce_healthcheck num sv h = Inr h' \<Longrightarrow>
   list_all (\<lambda>k. is_number (map_of h' k)) [''interval'', ''timeout'', ''retries'', ''startPeriod'']"
  by (auto simp: coerce_healthcheck_def res_bind_Inr set_number_Inr)

lemma coerce_config_typed: "coerce_config num sv cc = Inr cc' \<Longrightarrow> config_typed cc'"
proof -
  assume run: "coerce_config num sv cc = Inr cc'"
  then obtain c1 where first: "(case as_arr (map_of cc ''ports'') of
         Some ps \<Rightarrow> res_bind (coerce_ports num sv 0 ps) (\<lambda>qs. Inr (om_set ''ports'' (JArr qs) cc))
       | None \<Rightarrow> Inr cc) = Inr c1"
    and rest: "(case as_obj (map_of c1 ''healthcheck'') of
         Some h \<Rightarrow> res_bind (coerce_healthcheck num sv h) (\<lambda>h. Inr (om_set ''healthcheck'' (JObj h) c1))
       | None \<Rightarrow> Inr c1) = Inr cc'"
    unfolding coerce_config_def res_bind_Inr by blast
  have ports: "case as_arr (map_of c1 ''ports'') of None \<Rightarrow> True | Some ps \<Rightarrow> list_all port_typed ps"
    using first by (cases "as_arr (map_of cc ''ports'')") (auto simp: res_bind_Inr dest: coerce_ports_typed)
  show ?thesis
  proof (cases "as_obj (map_of c1 ''healthcheck'')")
    case None
    with rest ports show ?thesis by (simp add: config_typed_def)
  next
    case (Some h)
    with rest obtain h' where "coerce_healthcheck num sv h = Inr h'" "cc' = om_set ''healthcheck'' (JObj h') c1"
      by (auto simp: res_bind_Inr)
    with ports coerce_healthcheck_typed show ?thesis by (simp add: config_typed_def)
  qed
qed

lemma optional_number_Inr:
  "set_optional_number num sv k m = Inr m' \<longleftrightarrow>
   (case map_of m k of None \<Rightarrow> m' = m | Some v \<Rightarrow> \<exists>n. to_number num (Some v) = Some n \<and> m' = om_set k (JNum n) m)"
  by (auto simp: set_optional_number_def set_number_Inr split: option.splits)

lemma optional_number_typed:
  assumes "set_optional_number num sv k m = Inr m'"
  shows "(map_of m' k = None \<or> is_number (map_of m' k)) \<and> (\<forall>j. j \<noteq> k \<longrightarrow> map_of m' j = map_of m j)"
  using assms by (cases "map_of m k") (auto simp: optional_number_Inr)

lemma coerce_routing_typed: "coerce_routing num sv m = Inr m' \<Longrightarrow> routing_typed (Some (JObj m'))"
proof -
  assume run: "coerce_routing num sv m = Inr m'"
  then obtain n where rest: "(case as_obj (map_of (om_set ''listeningPort'' (JNum n) m) ''backendOptions'') of
        Some bo \<Rightarrow>
          res_bind (set_optional_number num sv ''checkTimeout'' bo) (\<lambda>bo.
          res_bind (set_optional_number num sv ''connectTimeout'' bo) (\<lambda>bo.
          res_bind (set_optional_number num sv ''serverTimeout'' bo) (\<lambda>bo.
          Inr (om_set ''backendOptions'' (JObj bo) (om_set ''listeningPort'' (JNum n) m)))))
      | None \<Rightarrow> Inr (om_set ''listeningPort'' (JNum n) m)) = Inr m'"
    unfolding coerce_routing_def res_bind_Inr set_number_Inr by blast
  show ?thesis
  proof (cases "as_obj (map_of m ''backendOptions'')")
    case None
    with rest have "m' = om_set ''listeningPort'' (JNum n) m" by simp
    with None show ?thesis by (simp add: routing_typed_def)
  next
    case (Some bo)
    with rest obtain b1 b2 b3 where b: "set_optional_number num sv ''checkTimeout'' bo = Inr b1"
      "set_optional_number num sv ''connectTimeout'' b1 = Inr b2" "set_optional_number num sv ''serverTimeout'' b2 = Inr b3"
      and m': "m' = om_set ''backendOptions'' (JObj b3) (om_set ''listeningPort'' (JNum n) m)"
      by (auto simp: res_bind_Inr)
    from b [THEN optional_number_typed]
    have "list_all (\<lambda>k. map_of b3 k = None \<or> is_number (map_of b3 k)) [''checkTimeout'', ''connectTimeout'', ''serverTimeout'']"
      by simp
    then show ?thesis by (simp add: routing_typed_def m')
  qed
qed


end
