(* ===== verification/ResourceReconciler.thy ===== *)
theory ResourceReconciler
  imports Effects
begin

text \<open>
  Stack-level resources, \<open>stacks/stack-resource-reconciler.ts\<close>: TLS certificates, DNS records and
  tunnel ingress rules. The plan compares the definitions with the rows of \<open>StackResource\<close>; the
  three reconcile passes carry it out; \<open>reconcileResources\<close> is the block of
  \<open>stack-reconciler.ts\<close> that runs them in order. The state is the table of rows, the results
  reported to the progress callback and the world behind the services (Cloudflare, the certificate
  manager, the database), whose calls are parameters: each returns a result or the message of the
  error it throws. The callback itself cannot disturb a pass (its throw is caught) and only records.
\<close>

section \<open>Data\<close>

datatype plan_action = ActCreate | ActRecreate | ActUpdate | ActRemove | ActNoOp

record field_diff =
  fd_field :: string
  fd_old :: json
  fd_new :: json

record tls_certificate =
  tc_name :: string
  tc_fqdn :: string

record dns_record =
  dr_name :: string
  dr_fqdn :: string
  dr_target :: string
  dr_ttl :: "int option"
  dr_proxied :: "bool option"

record tunnel_ingress =
  ti_name :: string
  ti_fqdn :: string
  ti_service :: string

record resource_definitions =
  rd_tlsCertificates :: "tls_certificate list"
  rd_dnsRecords :: "dns_record list"
  rd_tunnelIngress :: "tunnel_ingress list"

text \<open>\<open>externalState\<close> is a JSON column: an object's fields, or none.\<close>

record stack_resource =
  sr_stackId :: string
  sr_resourceType :: string
  sr_resourceName :: string
  sr_fqdn :: string
  sr_externalId :: "string option"
  sr_externalState :: "(string \<times> json) list option"
  sr_status :: string
  sr_error :: "string option"

record resource_action =
  ra_resourceType :: string
  ra_resourceName :: string
  ra_action :: plan_action
  ra_diff :: "field_diff list option"

record resource_result =
  rr_resourceType :: string
  rr_resourceName :: string
  rr_action :: plan_action
  rr_success :: bool
  rr_error :: "string option"

section \<open>The plan\<close>

definition state_field :: "stack_resource \<Rightarrow> string \<Rightarrow> json option" where
  "state_field r k = Option.bind (sr_externalState r) (\<lambda>m. map_of m k)"

definition diffTls :: "tls_certificate \<Rightarrow> stack_resource \<Rightarrow> field_diff list" where
  "diffTls def cur =
     (if tc_fqdn def \<noteq> sr_fqdn cur
      then [\<lparr>fd_field = ''fqdn'', fd_old = JStr (sr_fqdn cur), fd_new = JStr (tc_fqdn def)\<rparr>] else [])"

definition diffDns :: "dns_record \<Rightarrow> stack_resource \<Rightarrow> field_diff list" where
  "diffDns def cur =
     (let target = state_field cur ''target'';
          ttl = json_or (state_field cur ''ttl'') (JNum 300);
          proxied = json_or (state_field cur ''proxied'') (JBool False);
          desiredTtl = JNum (nullish (dr_ttl def) 300);
          desiredProxied = JBool (nullish (dr_proxied def) False)
      in (if target \<noteq> Some (JStr (dr_target def))
          then [\<lparr>fd_field = ''target'', fd_old = json_or target JNull, fd_new = JStr (dr_target def)\<rparr>] else []) @
         (if desiredTtl \<noteq> ttl
          then [\<lparr>fd_field = ''ttl'', fd_old = JStr (js_string ttl), fd_new = JStr (js_string desiredTtl)\<rparr>] else []) @
         (if desiredProxied \<noteq> proxied
          then [\<lparr>fd_field = ''proxied'', fd_old = JStr (js_string proxied),
                 fd_new = JStr (js_string desiredProxied)\<rparr>] else []))"

definition diffTunnel :: "tunnel_ingress \<Rightarrow> stack_resource \<Rightarrow> field_diff list" where
  "diffTunnel def cur =
     (let fqdn = json_or (state_field cur ''fqdn'') (JStr (sr_fqdn cur));
          service = state_field cur ''service''
      in (if JStr (ti_fqdn def) \<noteq> fqdn
          then [\<lparr>fd_field = ''fqdn'', fd_old = fqdn, fd_new = JStr (ti_fqdn def)\<rparr>] else []) @
         (if service \<noteq> Some (JStr (ti_service def))
          then [\<lparr>fd_field = ''service'', fd_old = json_or service JNull, fd_new = JStr (ti_service def)\<rparr>] else []))"

definition resource_key :: "string \<Rightarrow> string \<Rightarrow> string" where
  "resource_key t n = t @ '':'' @ n"

text \<open>\<open>currentMap\<close>: the rows by type and name, a later row replacing an earlier one.\<close>

definition current_map :: "stack_resource list \<Rightarrow> (string \<times> stack_resource) list" where
  "current_map rows =
     om_collect (\<lambda>r. resource_key (sr_resourceType r) (sr_resourceName r)) rows"

text \<open>The body of the three loops over definitions, which differ in the type and the diff.\<close>

definition plan_definition ::
  "string \<Rightarrow> string \<Rightarrow> (stack_resource \<Rightarrow> field_diff list) \<Rightarrow> (string \<times> stack_resource) list \<Rightarrow> resource_action" where
  "plan_definition ty name diff m =
     (case om_get m (resource_key ty name) of
        None \<Rightarrow> \<lparr>ra_resourceType = ty, ra_resourceName = name, ra_action = ActCreate, ra_diff = None\<rparr>
      | Some cur \<Rightarrow>
          (let diffs = diff cur
           in if diffs \<noteq> []
              then \<lparr>ra_resourceType = ty, ra_resourceName = name, ra_action = ActUpdate, ra_diff = Some diffs\<rparr>
              else \<lparr>ra_resourceType = ty, ra_resourceName = name, ra_action = ActNoOp, ra_diff = None\<rparr>))"

definition matched_keys :: "resource_definitions \<Rightarrow> string list" where
  "matched_keys d =
     map (\<lambda>x. resource_key ''tls'' (tc_name x)) (rd_tlsCertificates d) @
     map (\<lambda>x. resource_key ''dns'' (dr_name x)) (rd_dnsRecords d) @
     map (\<lambda>x. resource_key ''tunnel'' (ti_name x)) (rd_tunnelIngress d)"

definition planResources :: "resource_definitions \<Rightarrow> stack_resource list \<Rightarrow> resource_action list" where
  "planResources d rows =
     (let m = current_map rows
      in map (\<lambda>x. plan_definition ''tls'' (tc_name x) (diffTls x) m) (rd_tlsCertificates d) @
         map (\<lambda>x. plan_definition ''dns'' (dr_name x) (diffDns x) m) (rd_dnsRecords d) @
         map (\<lambda>x. plan_definition ''tunnel'' (ti_name x) (diffTunnel x) m) (rd_tunnelIngress d) @
         map (\<lambda>(_, row). \<lparr>ra_resourceType = sr_resourceType row, ra_resourceName = sr_resourceName row,
                ra_action = ActRemove, ra_diff = None\<rparr>)
           (filter (\<lambda>(key, _). key \<notin> set (matched_keys d)) m))"

section \<open>The services and the state\<close>

record 'w cloud =
  db_access :: "'w \<Rightarrow> (string + unit) \<times> 'w"
  findActiveCertificate :: "string \<Rightarrow> 'w \<Rightarrow> (string + string option) \<times> 'w"
  issueCertificate :: "string \<Rightarrow> string \<Rightarrow> 'w \<Rightarrow> (string + string) \<times> 'w"
  upsertARecord :: "string \<Rightarrow> string \<Rightarrow> int \<Rightarrow> bool \<Rightarrow> 'w \<Rightarrow> (string + string) \<times> 'w"
  findZoneForHostname :: "string \<Rightarrow> 'w \<Rightarrow> (string + string option) \<times> 'w"
  deleteDNSRecord :: "string \<Rightarrow> string \<Rightarrow> 'w \<Rightarrow> (string + unit) \<times> 'w"
  tunnelService :: bool
  addHostname :: "string \<Rightarrow> string \<Rightarrow> string \<Rightarrow> 'w \<Rightarrow> (string + unit) \<times> 'w"
  removeHostname :: "string \<Rightarrow> string \<Rightarrow> 'w \<Rightarrow> (string + unit) \<times> 'w"
  upsertCNAMERecord :: "string \<Rightarrow> string \<Rightarrow> 'w \<Rightarrow> (string + unit) \<times> 'w"
  deleteCNAMEByHostname :: "string \<Rightarrow> 'w \<Rightarrow> (string + unit) \<times> 'w"
  environmentTunnel :: "string \<Rightarrow> 'w \<Rightarrow> (string + (string option \<times> string option)) \<times> 'w"

record 'w rstate =
  rs_world :: 'w
  rs_rows :: "stack_resource list"
  rs_progress :: "resource_result list"

text \<open>A call of a service.\<close>

definition call :: "('w \<Rightarrow> (string + 'a) \<times> 'w) \<Rightarrow> ('w rstate, 'a) eff" where
  "call f = (\<lambda>s. let (r, w) = f (rs_world s) in (r, s\<lparr>rs_world := w\<rparr>))"

definition same_resource :: "string \<Rightarrow> string \<Rightarrow> string \<Rightarrow> stack_resource \<Rightarrow> bool" where
  "same_resource sid ty name r \<longleftrightarrow>
     sr_stackId r = sid \<and> sr_resourceType r = ty \<and> sr_resourceName r = name"

text \<open>
  \<open>stackResource.upsert\<close> as the passes use it: the row of the key gets the new \<open>fqdn\<close>,
  \<open>externalId\<close> and \<open>externalState\<close>, status \<open>active\<close> and no error; a missing row is created.
\<close>

fun upsert_row :: "stack_resource \<Rightarrow> stack_resource list \<Rightarrow> stack_resource list" where
  "upsert_row n [] = [n]"
| "upsert_row n (r # rows) =
     (if same_resource (sr_stackId n) (sr_resourceType n) (sr_resourceName n) r
      then n # rows else r # upsert_row n rows)"

definition db_upsert :: "'w cloud \<Rightarrow> stack_resource \<Rightarrow> ('w rstate, unit) eff" where
  "db_upsert c n = eff_then (call (db_access c)) (eff_modify (rs_rows_update (upsert_row n)))"

definition db_find :: "'w cloud \<Rightarrow> string \<Rightarrow> string \<Rightarrow> string \<Rightarrow> ('w rstate, stack_resource list) eff" where
  "db_find c sid ty name =
     eff_then (call (db_access c)) (eff_get (\<lambda>s. filter (same_resource sid ty name) (rs_rows s)))"

definition db_delete :: "'w cloud \<Rightarrow> string \<Rightarrow> string \<Rightarrow> string \<Rightarrow> ('w rstate, unit) eff" where
  "db_delete c sid ty name =
     eff_then (call (db_access c))
       (eff_modify (rs_rows_update (filter (\<lambda>r. \<not> same_resource sid ty name r))))"

definition new_row ::
  "string \<Rightarrow> string \<Rightarrow> string \<Rightarrow> string \<Rightarrow> string option \<Rightarrow> (string \<times> json) list \<Rightarrow> stack_resource" where
  "new_row sid ty name fqdn ext st =
     \<lparr>sr_stackId = sid, sr_resourceType = ty, sr_resourceName = name, sr_fqdn = fqdn,
      sr_externalId = ext, sr_externalState = Some st, sr_status = ''active'', sr_error = None\<rparr>"

section \<open>The passes\<close>

definition result_of :: "resource_action \<Rightarrow> string option \<Rightarrow> resource_result" where
  "result_of a e =
     \<lparr>rr_resourceType = ra_resourceType a, rr_resourceName = ra_resourceName a, rr_action = ra_action a,
      rr_success = (e = None), rr_error = e\<rparr>"

definition report :: "resource_result \<Rightarrow> ('w rstate, resource_result) eff" where
  "report r = eff_then (eff_modify (rs_progress_update (\<lambda>p. p @ [r]))) (eff_return r)"

text \<open>
  The frame every pass has: the work of one action in a \<open>try\<close>, its error in the result, the result
  reported and collected; an action to create or update without a definition yields its error
  without a report. The work returns no value; an action that is neither of the two nor a removal
  leaves the result unsuccessful without an error.
\<close>

definition reconcile_action ::
  "string \<Rightarrow> ('d \<Rightarrow> ('w rstate, unit) eff) \<Rightarrow> (string \<Rightarrow> ('w rstate, unit) eff) \<Rightarrow>
   (string \<Rightarrow> 'd option) \<Rightarrow> resource_action \<Rightarrow> ('w rstate, resource_result) eff" where
  "reconcile_action label applied removed defs a =
     (if ra_action a = ActCreate \<or> ra_action a = ActUpdate then
        (case defs (ra_resourceName a) of
           None \<Rightarrow> eff_return (result_of a
             (Some (''No definition found for '' @ label @ '' resource '' @ ra_resourceName a)))
         | Some d \<Rightarrow>
             eff_bind (eff_catch (eff_then (applied d) (eff_return None)) (\<lambda>e. eff_return (Some e)))
               (\<lambda>e. report (result_of a e)))
      else if ra_action a = ActRemove then
        eff_bind (eff_catch (eff_then (removed (ra_resourceName a)) (eff_return None)) (\<lambda>e. eff_return (Some e)))
          (\<lambda>e. report (result_of a e))
      else report (result_of a None\<lparr>rr_success := False\<rparr>))"

definition pending :: "string \<Rightarrow> resource_action list \<Rightarrow> resource_action list" where
  "pending ty acts = filter (\<lambda>a. \<not> (ra_resourceType a \<noteq> ty \<or> ra_action a = ActNoOp)) acts"

text \<open>\<open>new Map(definitions.map(...))\<close>: the last definition of a name counts.\<close>

definition by_name :: "('d \<Rightarrow> string) \<Rightarrow> 'd list \<Rightarrow> string \<Rightarrow> 'd option" where
  "by_name name defs n = om_get (om_collect name defs) n"

definition tls_apply :: "'w cloud \<Rightarrow> string \<Rightarrow> string \<Rightarrow> tls_certificate \<Rightarrow> ('w rstate, unit) eff" where
  "tls_apply c sid user d =
     eff_bind (call (findActiveCertificate c (tc_fqdn d))) (\<lambda>existing.
     eff_bind (case existing of Some i \<Rightarrow> eff_return i | None \<Rightarrow> call (issueCertificate c (tc_fqdn d) user)) (\<lambda>certId.
     db_upsert c (new_row sid ''tls'' (tc_name d) (tc_fqdn d) (Some certId) [(''fqdn'', JStr (tc_fqdn d))])))"

definition tls_remove :: "'w cloud \<Rightarrow> string \<Rightarrow> string \<Rightarrow> ('w rstate, unit) eff" where
  "tls_remove c sid name = db_delete c sid ''tls'' name"

definition reconcileTls ::
  "'w cloud \<Rightarrow> resource_action list \<Rightarrow> string \<Rightarrow> tls_certificate list \<Rightarrow> string \<Rightarrow>
   ('w rstate, resource_result list) eff" where
  "reconcileTls c acts sid defs user =
     eff_each (reconcile_action ''TLS'' (tls_apply c sid user) (tls_remove c sid) (by_name tc_name defs))
       (pending ''tls'' acts)"

definition dns_apply :: "'w cloud \<Rightarrow> string \<Rightarrow> dns_record \<Rightarrow> ('w rstate, unit) eff" where
  "dns_apply c sid d =
     (let ttl = nullish (dr_ttl d) 300; proxied = nullish (dr_proxied d) False in
      eff_bind (call (upsertARecord c (dr_fqdn d) (dr_target d) ttl proxied)) (\<lambda>recordId.
      eff_bind (call (findZoneForHostname c (dr_fqdn d))) (\<lambda>zone.
      db_upsert c (new_row sid ''dns'' (dr_name d) (dr_fqdn d) (Some recordId)
        [(''target'', JStr (dr_target d)), (''ttl'', JNum ttl), (''proxied'', JBool proxied),
         (''zoneId'', case zone of Some z \<Rightarrow> JStr z | None \<Rightarrow> JNull)]))))"

text \<open>The zone id recorded in a row, if it is a non-empty string.\<close>

definition zone_of :: "stack_resource \<Rightarrow> string option" where
  "zone_of r = (case state_field r ''zoneId'' of Some (JStr z) \<Rightarrow> if z = [] then None else Some z | _ \<Rightarrow> None)"

definition delete_record :: "'w cloud \<Rightarrow> stack_resource \<Rightarrow> ('w rstate, unit) eff" where
  "delete_record c r =
     (case (zone_of r, sr_externalId r) of
        (Some z, Some i) \<Rightarrow> if i = [] then eff_return () else call (deleteDNSRecord c z i)
      | _ \<Rightarrow> eff_return ())"

definition dns_remove :: "'w cloud \<Rightarrow> string \<Rightarrow> string \<Rightarrow> ('w rstate, unit) eff" where
  "dns_remove c sid name =
     eff_bind (db_find c sid ''dns'' name) (\<lambda>rows.
     eff_then (eff_each (delete_record c) rows) (db_delete c sid ''dns'' name))"

definition reconcileDns ::
  "'w cloud \<Rightarrow> resource_action list \<Rightarrow> string \<Rightarrow> dns_record list \<Rightarrow> ('w rstate, resource_result list) eff" where
  "reconcileDns c acts sid defs =
     eff_each (reconcile_action ''DNS'' (dns_apply c sid) (dns_remove c sid) (by_name dr_name defs))
       (pending ''dns'' acts)"

text \<open>A call whose error is only logged.\<close>

definition best_effort :: "('w rstate, unit) eff \<Rightarrow> ('w rstate, unit) eff" where
  "best_effort m = eff_catch m (\<lambda>_. eff_return ())"

text \<open>A call whose error counts as success when its message contains a phrase.\<close>

definition tolerate :: "string \<Rightarrow> ('w rstate, unit) eff \<Rightarrow> ('w rstate, unit) eff" where
  "tolerate phrase m =
     eff_catch m (\<lambda>e. if includes_str e phrase then eff_return () else eff_throw e)"

definition tunnel_apply ::
  "'w cloud \<Rightarrow> string \<Rightarrow> string option \<Rightarrow> string option \<Rightarrow> tunnel_ingress \<Rightarrow> ('w rstate, unit) eff" where
  "tunnel_apply c sid tunnelId url d =
     eff_then
       (if truthy tunnelId \<and> tunnelService c
        then eff_then
          (tolerate ''already exists''
            (call (addHostname c (the tunnelId) (ti_fqdn d) (nullish url (ti_service d)))))
          (best_effort (call (upsertCNAMERecord c (ti_fqdn d) (the tunnelId))))
        else eff_return ())
       (db_upsert c (new_row sid ''tunnel'' (ti_name d) (ti_fqdn d) tunnelId
          [(''fqdn'', JStr (ti_fqdn d)), (''service'', JStr (nullish url (ti_service d)))]))"

definition tunnel_remove :: "'w cloud \<Rightarrow> string \<Rightarrow> string option \<Rightarrow> string \<Rightarrow> ('w rstate, unit) eff" where
  "tunnel_remove c sid tunnelId name =
     eff_bind (db_find c sid ''tunnel'' name) (\<lambda>rows.
     (let row = (case rows of [] \<Rightarrow> None | r # _ \<Rightarrow> Some r);
          removeId = (case Option.bind row sr_externalId of Some i \<Rightarrow> Some i | None \<Rightarrow> tunnelId);
          fqdn = nullish (map_option sr_fqdn row) name
      in eff_then
          (if truthy removeId \<and> tunnelService c
           then eff_then
             (tolerate ''not found'' (call (removeHostname c (the removeId) fqdn)))
             (best_effort (call (deleteCNAMEByHostname c fqdn)))
           else eff_return ())
          (db_delete c sid ''tunnel'' name)))"

text \<open>The tunnel and service URL of the stack's environment are read before the loop, outside any \<open>try\<close>.\<close>

definition reconcileTunnel ::
  "'w cloud \<Rightarrow> resource_action list \<Rightarrow> string \<Rightarrow> tunnel_ingress list \<Rightarrow> ('w rstate, resource_result list) eff" where
  "reconcileTunnel c acts sid defs =
     eff_bind (call (environmentTunnel c sid)) (\<lambda>(tunnelId, url).
       eff_each (reconcile_action ''tunnel'' (tunnel_apply c sid tunnelId url) (tunnel_remove c sid tunnelId)
         (by_name ti_name defs)) (pending ''tunnel'' acts))"

section \<open>All three in order, as an apply runs them\<close>

definition check_results :: "string \<Rightarrow> resource_result list \<Rightarrow> ('w rstate, unit) eff" where
  "check_results label rs =
     (case find (\<lambda>r. \<not> rr_success r) rs of
        None \<Rightarrow> eff_return ()
      | Some r \<Rightarrow> eff_throw (label @ '' reconciliation failed: '' @ nullish (rr_error r) ''undefined''))"

definition reconcileResources ::
  "'w cloud \<Rightarrow> string \<Rightarrow> string \<Rightarrow> resource_definitions \<Rightarrow> resource_action list \<Rightarrow>
   ('w rstate, resource_result list) eff" where
  "reconcileResources c sid user d acts =
     (if list_ex (\<lambda>a. ra_action a \<noteq> ActNoOp) acts then
        eff_bind (reconcileDns c acts sid (rd_dnsRecords d)) (\<lambda>dns.
        eff_then (check_results ''DNS'' dns) (
        eff_bind (reconcileTls c acts sid (rd_tlsCertificates d) user) (\<lambda>tls.
        eff_then (check_results ''TLS'' tls) (
        eff_bind (reconcileTunnel c acts sid (rd_tunnelIngress d)) (\<lambda>tun.
        eff_then (check_results ''Tunnel'' tun) (
        eff_return (dns @ tls @ tun)))))))
      else eff_return [])"

section \<open>References and destruction\<close>

record service_routing =
  rt_tlsCertificate :: "string option"
  rt_dnsRecord :: "string option"
  rt_tunnelIngress :: "string option"

record reference_warning =
  rw_serviceName :: string
  rw_resourceName :: string
  rw_resourceType :: string

definition missing_reference ::
  "string \<Rightarrow> string \<Rightarrow> string option \<Rightarrow> string list \<Rightarrow> reference_warning list" where
  "missing_reference svc ty ref names =
     (if truthy ref \<and> the ref \<notin> set names
      then [\<lparr>rw_serviceName = svc, rw_resourceName = the ref, rw_resourceType = ty\<rparr>] else [])"

definition validateResourceReferences ::
  "(string \<times> service_routing option) list \<Rightarrow> resource_definitions \<Rightarrow> reference_warning list" where
  "validateResourceReferences services d =
     concat (map (\<lambda>(svc, routing). case routing of None \<Rightarrow> [] | Some r \<Rightarrow>
       missing_reference svc ''tls'' (rt_tlsCertificate r) (map tc_name (rd_tlsCertificates d)) @
       missing_reference svc ''dns'' (rt_dnsRecord r) (map dr_name (rd_dnsRecords d)) @
       missing_reference svc ''tunnel'' (rt_tunnelIngress r) (map ti_name (rd_tunnelIngress d))) services)"

definition destroy_external :: "'w cloud \<Rightarrow> stack_resource \<Rightarrow> ('w rstate, unit) eff" where
  "destroy_external c r =
     eff_then
       (if sr_resourceType r = ''dns'' \<and> truthy (sr_externalId r) \<and> zone_of r \<noteq> None
        then best_effort (call (deleteDNSRecord c (the (zone_of r)) (the (sr_externalId r)))) else eff_return ())
       (if sr_resourceType r = ''tunnel'' \<and> truthy (sr_externalId r) \<and> tunnelService c
        then eff_then
          (best_effort (call (removeHostname c (the (sr_externalId r)) (sr_fqdn r))))
          (best_effort (call (deleteCNAMEByHostname c (sr_fqdn r))))
        else eff_return ())"

definition destroyAllResources :: "'w cloud \<Rightarrow> string \<Rightarrow> ('w rstate, unit) eff" where
  "destroyAllResources c sid =
     eff_then (call (db_access c)) (
     eff_bind (eff_get (\<lambda>s. filter (\<lambda>r. sr_stackId r = sid) (rs_rows s))) (\<lambda>rows.
     eff_then (eff_each (destroy_external c) rows) (
     eff_then (call (db_access c))
       (eff_modify (rs_rows_update (filter (\<lambda>r. sr_stackId r \<noteq> sid)))))))"

section \<open>Rows\<close>

definition row_key :: "stack_resource \<Rightarrow> string \<times> string \<times> string" where
  "row_key r = (sr_stackId r, sr_resourceType r, sr_resourceName r)"

text \<open>The unique constraint of the table, and the three types.\<close>

definition rows_wf :: "stack_resource list \<Rightarrow> bool" where
  "rows_wf rows \<longleftrightarrow> distinct (map row_key rows) \<and>
     list_all (\<lambda>r. sr_resourceType r \<in> {''tls'', ''dns'', ''tunnel''}) rows"

definition rows_at :: "string \<Rightarrow> string \<Rightarrow> string \<Rightarrow> stack_resource list \<Rightarrow> stack_resource list" where
  "rows_at sid ty n rows = filter (same_resource sid ty n) rows"

lemma same_resource_key: "same_resource sid ty n r \<longleftrightarrow> row_key r = (sid, ty, n)"
  by (auto simp: same_resource_def row_key_def)

lemma rows_at_Cons:
  "rows_at sid ty n (r # rows) =
     (if row_key r = (sid, ty, n) then r # rows_at sid ty n rows else rows_at sid ty n rows)"
  by (simp add: rows_at_def same_resource_key)

lemma rows_at_Nil [simp]: "rows_at sid ty n [] = []"
  by (simp add: rows_at_def)

lemma rows_at_empty: "rows_at sid ty n rows = [] \<longleftrightarrow> (sid, ty, n) \<notin> row_key ` set rows"
  by (force simp: rows_at_def same_resource_key filter_empty_conv)

lemma upsert_keys: "row_key ` set (upsert_row n rows) = insert (row_key n) (row_key ` set rows)"
  by (induction rows) (auto simp: same_resource_key row_key_def)

lemma rows_upsert_wf:
  "rows_wf rows \<Longrightarrow> sr_resourceType n \<in> {''tls'', ''dns'', ''tunnel''} \<Longrightarrow> rows_wf (upsert_row n rows)"
proof (induction rows)
  case (Cons r rows)
  then show ?case using upsert_keys [of n rows]
    by (auto simp: rows_wf_def same_resource_key) (auto simp: row_key_def)
qed (simp add: rows_wf_def)

lemma upsert_at_same:
  "distinct (map row_key rows) \<Longrightarrow> row_key n = (sid, ty, m) \<Longrightarrow> rows_at sid ty m (upsert_row n rows) = [n]"
proof (induction rows)
  case (Cons r rows)
  have "rows_at sid ty m rows = []" if "row_key r = (sid, ty, m)"
    using Cons.prems that by (force simp: rows_at_empty)
  with Cons show ?case by (auto simp: rows_at_Cons same_resource_key row_key_def)
qed (simp add: rows_at_Cons)

lemma upsert_at_other:
  "row_key n \<noteq> (sid, ty, m) \<Longrightarrow> rows_at sid ty m (upsert_row n rows) = rows_at sid ty m rows"
  by (induction rows) (auto simp: rows_at_Cons same_resource_key row_key_def)

lemma remove_at_other:
  "(sid, ty, n) \<noteq> (sid', ty', n') \<Longrightarrow>
   rows_at sid' ty' n' (filter (\<lambda>r. \<not> same_resource sid ty n r) rows) = rows_at sid' ty' n' rows"
  by (induction rows) (auto simp: rows_at_Cons same_resource_key)

lemma remove_at_same: "rows_at sid ty n (filter (\<lambda>r. \<not> same_resource sid ty n r) rows) = []"
  by (auto simp: rows_at_def)

lemma remove_wf: "rows_wf rows \<Longrightarrow> rows_wf (filter P rows)"
  by (auto simp: rows_wf_def distinct_map list_all_iff intro: inj_on_subset)

section \<open>What the three passes share\<close>

text \<open>
  The contract of a pass: carrying out a definition leaves its row settled, removing drops the row,
  and an error leaves the table as it was.
\<close>

locale resource_pass =
  fixes sid ty :: string
    and applied :: "'d \<Rightarrow> ('w rstate, unit) eff"
    and removed :: "string \<Rightarrow> ('w rstate, unit) eff"
    and name :: "'d \<Rightarrow> string"
    and settled :: "'d \<Rightarrow> stack_resource \<Rightarrow> bool"
  assumes known_type: "ty \<in> {''tls'', ''dns'', ''tunnel''}"
    and applied_ok: "applied d s = (Inr u, t) \<Longrightarrow>
      \<exists>row. row_key row = (sid, ty, name d) \<and> settled d row \<and> rs_rows t = upsert_row row (rs_rows s)"
    and applied_err: "applied d s = (Inl e, t) \<Longrightarrow> rs_rows t = rs_rows s"
    and removed_ok: "removed n s = (Inr u, t) \<Longrightarrow>
      rs_rows t = filter (\<lambda>r. \<not> same_resource sid ty n r) (rs_rows s)"
    and removed_err: "removed n s = (Inl e, t) \<Longrightarrow> rs_rows t = rs_rows s"
begin

lemma action_total: "eff_total (reconcile_action label applied removed defs a)"
  by (auto simp: reconcile_action_def report_def split: option.split
      intro!: eff_total_bind eff_total_catch eff_total_then)

lemma action_names:
  "reconcile_action label applied removed defs a s = (Inr r, t) \<Longrightarrow>
   rr_resourceType r = ra_resourceType a \<and> rr_resourceName r = ra_resourceName a \<and> rr_action r = ra_action a"
  by (auto simp: reconcile_action_def report_def result_of_def eff_bind_Inr eff_then_Inr
      split: if_splits option.splits)

lemma attempt_rows:
  assumes "eff_bind (eff_catch (eff_then m (eff_return None)) (\<lambda>e. eff_return (Some e)))
      (\<lambda>e. report (result_of a e)) s = (Inr r, t)"
  shows "(rr_success r \<longrightarrow> (\<exists>u v. m s = (Inr u, v) \<and> rs_rows t = rs_rows v)) \<and>
    (\<not> rr_success r \<longrightarrow> (\<exists>e v. m s = (Inl e, v) \<and> rs_rows t = rs_rows v))"
  using assms
  by (cases "m s"; cases "fst (m s)")
    (auto simp: eff_bind_def eff_catch_def eff_then_def eff_return_def eff_modify_def report_def result_of_def)

lemma action_rows:
  assumes "reconcile_action label applied removed defs a s = (Inr r, t)"
  shows "\<not> rr_success r \<longrightarrow> rs_rows t = rs_rows s"
    and "rr_success r \<longrightarrow> ra_action a \<in> {ActCreate, ActUpdate} \<longrightarrow>
      (\<exists>d row. defs (ra_resourceName a) = Some d \<and> row_key row = (sid, ty, name d) \<and> settled d row \<and>
        rs_rows t = upsert_row row (rs_rows s))"
    and "rr_success r \<longrightarrow> ra_action a \<notin> {ActCreate, ActUpdate} \<longrightarrow>
      ra_action a = ActRemove \<and>
      rs_rows t = filter (\<lambda>q. \<not> same_resource sid ty (ra_resourceName a) q) (rs_rows s)"
proof -
  consider (none) "ra_action a \<in> {ActCreate, ActUpdate}" "defs (ra_resourceName a) = None"
    | (some) d where "ra_action a \<in> {ActCreate, ActUpdate}" "defs (ra_resourceName a) = Some d"
    | (remove) "ra_action a = ActRemove" | (other) "ra_action a \<notin> {ActCreate, ActUpdate, ActRemove}"
    by (cases "defs (ra_resourceName a)") auto
  then have "(\<not> rr_success r \<longrightarrow> rs_rows t = rs_rows s) \<and>
    (rr_success r \<longrightarrow> ra_action a \<in> {ActCreate, ActUpdate} \<longrightarrow>
      (\<exists>d row. defs (ra_resourceName a) = Some d \<and> row_key row = (sid, ty, name d) \<and> settled d row \<and>
        rs_rows t = upsert_row row (rs_rows s))) \<and>
    (rr_success r \<longrightarrow> ra_action a \<notin> {ActCreate, ActUpdate} \<longrightarrow> ra_action a = ActRemove \<and>
      rs_rows t = filter (\<lambda>q. \<not> same_resource sid ty (ra_resourceName a) q) (rs_rows s))"
  proof cases
    case none
    then show ?thesis using assms by (auto simp: reconcile_action_def result_of_def)
  next
    case (some d)
    with assms have "eff_bind (eff_catch (eff_then (applied d) (eff_return None)) (\<lambda>e. eff_return (Some e)))
        (\<lambda>e. report (result_of a e)) s = (Inr r, t)"
      by (auto simp: reconcile_action_def)
    note tried = attempt_rows [OF this]
    show ?thesis
    proof (cases "rr_success r")
      case True
      with tried obtain u v where "applied d s = (Inr u, v)" "rs_rows t = rs_rows v" by blast
      with applied_ok [of d s u v] some True show ?thesis by auto
    next
      case False
      with tried obtain e v where "applied d s = (Inl e, v)" "rs_rows t = rs_rows v" by blast
      with applied_err [of d s e v] False show ?thesis by simp
    qed
  next
    case remove
    with assms have "eff_bind (eff_catch (eff_then (removed (ra_resourceName a)) (eff_return None))
        (\<lambda>e. eff_return (Some e))) (\<lambda>e. report (result_of a e)) s = (Inr r, t)"
      by (simp add: reconcile_action_def)
    note tried = attempt_rows [OF this]
    show ?thesis
    proof (cases "rr_success r")
      case True
      with tried obtain u v where "removed (ra_resourceName a) s = (Inr u, v)" "rs_rows t = rs_rows v" by blast
      with removed_ok [of "ra_resourceName a" s u v] remove True show ?thesis by simp
    next
      case False
      with tried obtain e v where "removed (ra_resourceName a) s = (Inl e, v)" "rs_rows t = rs_rows v" by blast
      with removed_err [of "ra_resourceName a" s e v] False show ?thesis by simp
    qed
  next
    case other
    then show ?thesis using assms by (auto simp: reconcile_action_def report_def result_of_def eff_then_Inr)
  qed
  then show "\<not> rr_success r \<longrightarrow> rs_rows t = rs_rows s"
    and "rr_success r \<longrightarrow> ra_action a \<in> {ActCreate, ActUpdate} \<longrightarrow>
      (\<exists>d row. defs (ra_resourceName a) = Some d \<and> row_key row = (sid, ty, name d) \<and> settled d row \<and>
        rs_rows t = upsert_row row (rs_rows s))"
    and "rr_success r \<longrightarrow> ra_action a \<notin> {ActCreate, ActUpdate} \<longrightarrow>
      ra_action a = ActRemove \<and>
      rs_rows t = filter (\<lambda>q. \<not> same_resource sid ty (ra_resourceName a) q) (rs_rows s)"
    by blast+
qed

lemma action_wf:
  "reconcile_action label applied removed defs a s = (Inr r, t) \<Longrightarrow> rows_wf (rs_rows s) \<Longrightarrow> rows_wf (rs_rows t)"
proof -
  assume run: "reconcile_action label applied removed defs a s = (Inr r, t)" and wf: "rows_wf (rs_rows s)"
  have "rows_wf (upsert_row row (rs_rows s))" if "row_key row = (sid, ty, m)" for row m
    using rows_upsert_wf [OF wf, of row] known_type that by (simp add: row_key_def)
  with action_rows [OF run] remove_wf [OF wf] wf show ?thesis by (metis)
qed

lemma action_frame:
  assumes run: "reconcile_action label applied removed defs a s = (Inr r, t)"
    and named: "\<And>n d. defs n = Some d \<Longrightarrow> name d = n"
    and other: "(sid', ty', n) \<noteq> (sid, ty, ra_resourceName a)"
  shows "rows_at sid' ty' n (rs_rows t) = rows_at sid' ty' n (rs_rows s)"
proof (cases "rr_success r")
  case False
  with action_rows(1) [OF run] show ?thesis by simp
next
  case True
  show ?thesis
  proof (cases "ra_action a \<in> {ActCreate, ActUpdate}")
    case create: True
    with action_rows(2) [OF run] True obtain d row where "defs (ra_resourceName a) = Some d"
      "row_key row = (sid, ty, name d)" "rs_rows t = upsert_row row (rs_rows s)" by blast
    with named other upsert_at_other [of row sid' ty' n "rs_rows s"] show ?thesis by auto
  next
    case False
    with action_rows(3) [OF run] True
    have "rs_rows t = filter (\<lambda>q. \<not> same_resource sid ty (ra_resourceName a) q) (rs_rows s)" by blast
    with other remove_at_other [of sid ty "ra_resourceName a" sid' ty' n "rs_rows s"] show ?thesis by auto
  qed
qed

text \<open>The row of an action once it has succeeded.\<close>

definition action_done :: "(string \<Rightarrow> 'd option) \<Rightarrow> resource_action \<Rightarrow> stack_resource list \<Rightarrow> bool" where
  "action_done defs a rows \<longleftrightarrow>
     (if ra_action a = ActRemove then rows_at sid ty (ra_resourceName a) rows = []
      else (\<exists>d row. defs (ra_resourceName a) = Some d \<and> settled d row \<and>
        rows_at sid ty (ra_resourceName a) rows = [row]))"

lemma action_success:
  assumes run: "reconcile_action label applied removed defs a s = (Inr r, t)" and ok: "rr_success r"
    and wf: "rows_wf (rs_rows s)" and named: "\<And>n d. defs n = Some d \<Longrightarrow> name d = n"
  shows "action_done defs a (rs_rows t)"
proof (cases "ra_action a \<in> {ActCreate, ActUpdate}")
  case True
  with action_rows(2) [OF run] ok obtain d row where d: "defs (ra_resourceName a) = Some d"
    "row_key row = (sid, ty, name d)" "settled d row" "rs_rows t = upsert_row row (rs_rows s)" by blast
  with named have "row_key row = (sid, ty, ra_resourceName a)" by simp
  from upsert_at_same [OF _ this, of "rs_rows s"] wf d True show ?thesis
    by (auto simp: action_done_def rows_wf_def)
next
  case False
  with action_rows(3) [OF run] ok remove_at_same show ?thesis by (simp add: action_done_def)
qed

lemma pass_wf:
  "eff_each (reconcile_action label applied removed defs) acts s = (Inr rs, t) \<Longrightarrow> rows_wf (rs_rows s) \<Longrightarrow>
   rows_wf (rs_rows t)"
  by (rule eff_each_invariant [where I = "\<lambda>s. rows_wf (rs_rows s)"]) (auto intro: action_wf)

lemma pass_frame:
  assumes "eff_each (reconcile_action label applied removed defs) acts s = (Inr rs, t)"
    and "\<And>n d. defs n = Some d \<Longrightarrow> name d = n"
    and "(sid', ty') \<noteq> (sid, ty) \<or> n \<notin> ra_resourceName ` set acts"
  shows "rows_at sid' ty' n (rs_rows t) = rows_at sid' ty' n (rs_rows s)"
proof (rule eff_each_invariant [OF assms(1), where I = "\<lambda>u. rows_at sid' ty' n (rs_rows u) = rows_at sid' ty' n (rs_rows s)"])
  fix x u r v
  assume x: "x \<in> set acts" and eq: "rows_at sid' ty' n (rs_rows u) = rows_at sid' ty' n (rs_rows s)"
    and run: "reconcile_action label applied removed defs x u = (Inr r, v)"
  from x assms(3) have "(sid', ty', n) \<noteq> (sid, ty, ra_resourceName x)" by auto
  from action_frame [OF run assms(2) this] eq
  show "rows_at sid' ty' n (rs_rows v) = rows_at sid' ty' n (rs_rows s)" by simp
qed simp

lemma pass_settles:
  assumes "eff_each (reconcile_action label applied removed defs) acts s = (Inr rs, t)"
    and "list_all rr_success rs" and "rows_wf (rs_rows s)"
    and named: "\<And>n d. defs n = Some d \<Longrightarrow> name d = n"
    and "distinct (map ra_resourceName acts)"
  shows "\<forall>a \<in> set acts. action_done defs a (rs_rows t)"
  using assms(1,2,3,5)
proof (induction acts arbitrary: s rs)
  case (Cons a acts)
  from Cons.prems(1) obtain r u rs' where a: "reconcile_action label applied removed defs a s = (Inr r, u)"
    and rest: "eff_each (reconcile_action label applied removed defs) acts u = (Inr rs', t)"
    and rs: "rs = r # rs'" by (auto simp: eff_bind_Inr)
  from Cons.prems(2) rs have ok: "rr_success r" "list_all rr_success rs'" by auto
  have "action_done defs a (rs_rows u)" by (rule action_success [OF a ok(1) Cons.prems(3) named])
  moreover have "rows_at sid ty (ra_resourceName a) (rs_rows t) = rows_at sid ty (ra_resourceName a) (rs_rows u)"
    using Cons.prems(4) by (intro pass_frame [OF rest named]) auto
  ultimately have "action_done defs a (rs_rows t)" by (auto simp: action_done_def split: if_splits)
  moreover have "\<forall>a \<in> set acts. action_done defs a (rs_rows t)"
    using Cons.prems(4) by (intro Cons.IH [OF rest ok(2) action_wf [OF a Cons.prems(3)]]) simp
  ultimately show ?case by simp
qed simp

lemma pass_total: "eff_total (eff_each (reconcile_action label applied removed defs) acts)"
  by (intro eff_total_each action_total)

lemma pass_results:
  "eff_each (reconcile_action label applied removed defs) acts s = (Inr rs, t) \<Longrightarrow>
   list_all2 (\<lambda>a r. rr_resourceType r = ra_resourceType a \<and> rr_resourceName r = ra_resourceName a \<and>
     rr_action r = ra_action a) acts rs"
  by (erule eff_each_results) (rule action_names)

end

section \<open>The three passes keep the contract\<close>

text \<open>An operation that changes the table only when it succeeds, and then by \<open>P\<close>.\<close>

definition writes :: "(stack_resource list \<Rightarrow> stack_resource list \<Rightarrow> bool) \<Rightarrow> ('w rstate, 'a) eff \<Rightarrow> bool" where
  "writes P m \<longleftrightarrow> (\<forall>s. (case m s of
       (Inl _, t) \<Rightarrow> rs_rows t = rs_rows s | (Inr _, t) \<Rightarrow> P (rs_rows s) (rs_rows t)))"

lemma writes_call: "writes (\<lambda>a b. b = a) (call f)"
  by (auto simp: writes_def call_def Let_def split: prod.splits sum.splits)

lemma writes_return: "writes (\<lambda>a b. b = a) (eff_return x)"
  by (simp add: writes_def eff_return_def)

lemma writes_throw: "writes P (eff_throw e)"
  by (simp add: writes_def eff_throw_def)

lemma writes_get: "writes (\<lambda>a b. b = a) (eff_get f)"
  by (simp add: writes_def eff_get_def)

lemma writes_bind: "writes (\<lambda>a b. b = a) m \<Longrightarrow> (\<And>x. writes P (f x)) \<Longrightarrow> writes P (eff_bind m f)"
  unfolding writes_def eff_bind_def by (fastforce split: prod.splits sum.splits)

lemma writes_then: "writes (\<lambda>a b. b = a) m \<Longrightarrow> writes P n \<Longrightarrow> writes P (eff_then m n)"
  unfolding eff_then_def by (rule writes_bind)

lemma writes_catch:
  "writes (\<lambda>a b. b = a) m \<Longrightarrow> (\<And>e. writes (\<lambda>a b. b = a) (h e)) \<Longrightarrow> writes (\<lambda>a b. b = a) (eff_catch m h)"
  unfolding writes_def eff_catch_def by (fastforce split: prod.splits sum.splits)

lemma writes_each: "(\<And>x. writes (\<lambda>a b. b = a) (f x)) \<Longrightarrow> writes (\<lambda>a b. b = a) (eff_each f xs)"
  by (induction xs) (auto intro: writes_return writes_bind)

lemma writes_upsert: "writes (\<lambda>a b. b = upsert_row n a) (db_upsert c n)"
  unfolding db_upsert_def by (rule writes_then [OF writes_call]) (simp add: writes_def eff_modify_def)

lemma writes_delete:
  "writes (\<lambda>a b. b = filter (\<lambda>r. \<not> same_resource sid ty n r) a) (db_delete c sid ty n)"
  unfolding db_delete_def by (rule writes_then [OF writes_call]) (simp add: writes_def eff_modify_def)

lemma writes_find: "writes (\<lambda>a b. b = a) (db_find c sid ty n)"
  unfolding db_find_def by (intro writes_then writes_call writes_get)

lemma writes_best_effort: "writes (\<lambda>a b. b = a) (best_effort (call f))"
  unfolding best_effort_def by (intro writes_catch writes_call writes_return)

lemma writes_tolerate: "writes (\<lambda>a b. b = a) (tolerate p (call f))"
  unfolding tolerate_def by (auto intro!: writes_catch writes_call writes_return writes_throw)

lemmas writes_intros = writes_call writes_return writes_throw writes_get writes_bind writes_then
  writes_each writes_upsert writes_delete writes_find writes_best_effort writes_tolerate

lemma writes_ok: "writes P m \<Longrightarrow> m s = (Inr u, t) \<Longrightarrow> P (rs_rows s) (rs_rows t)"
  by (auto simp: writes_def dest: spec [of _ s])

lemma writes_err: "writes P m \<Longrightarrow> m s = (Inl e, t) \<Longrightarrow> rs_rows t = rs_rows s"
  by (auto simp: writes_def dest: spec [of _ s])

lemma writes_mono: "writes P m \<Longrightarrow> (\<And>a b. P a b \<Longrightarrow> Q a b) \<Longrightarrow> writes Q m"
  unfolding writes_def by (fastforce split: prod.splits sum.splits)

lemma resource_passI:
  assumes "ty \<in> {''tls'', ''dns'', ''tunnel''}"
    and "\<And>d. writes (\<lambda>a b. \<exists>row. row_key row = (sid, ty, name d) \<and> settled d row \<and> b = upsert_row row a) (applied d)"
    and "\<And>n. writes (\<lambda>a b. b = filter (\<lambda>r. \<not> same_resource sid ty n r) a) (removed n)"
  shows "resource_pass sid ty applied removed name settled"
proof
  show "ty \<in> {''tls'', ''dns'', ''tunnel''}" by (rule assms(1))
  show "applied d s = (Inr u, t) \<Longrightarrow>
      \<exists>row. row_key row = (sid, ty, name d) \<and> settled d row \<and> rs_rows t = upsert_row row (rs_rows s)"
    for d s u t using writes_ok [OF assms(2)] by blast
  show "applied d s = (Inl e, t) \<Longrightarrow> rs_rows t = rs_rows s" for d s e t by (rule writes_err [OF assms(2)])
  show "removed n s = (Inr u, t) \<Longrightarrow>
      rs_rows t = filter (\<lambda>r. \<not> same_resource sid ty n r) (rs_rows s)" for n s u t
    using writes_ok [OF assms(3)] by blast
  show "removed n s = (Inl e, t) \<Longrightarrow> rs_rows t = rs_rows s" for n s e t by (rule writes_err [OF assms(3)])
qed

lemma new_row_key: "row_key (new_row sid ty n f e st) = (sid, ty, n)"
  by (simp add: row_key_def new_row_def)

lemma new_row_field: "state_field (new_row sid ty n f e st) k = map_of st k"
  by (simp add: state_field_def new_row_def)

lemma upsert_settled:
  "settled d (new_row sid ty (name d) f e st) \<Longrightarrow>
   writes (\<lambda>a b. \<exists>row. row_key row = (sid, ty, name d) \<and> settled d row \<and> b = upsert_row row a)
     (db_upsert c (new_row sid ty (name d) f e st))"
  by (rule writes_mono [OF writes_upsert]) (auto intro: exI [of _ "new_row sid ty (name d) f e st"] simp: new_row_key)

definition tunnel_override :: "string option \<Rightarrow> tunnel_ingress \<Rightarrow> tunnel_ingress" where
  "tunnel_override url d = d\<lparr>ti_service := nullish url (ti_service d)\<rparr>"

lemma tls_settled: "diffTls d (new_row sid ''tls'' (tc_name d) (tc_fqdn d) e st) = []"
  by (simp add: diffTls_def new_row_def)

lemma dns_settled:
  "diffDns d (new_row sid ''dns'' (dr_name d) f e
     [(''target'', JStr (dr_target d)), (''ttl'', JNum (nullish (dr_ttl d) 300)),
      (''proxied'', JBool (nullish (dr_proxied d) False)), z]) = []"
  by (simp add: diffDns_def new_row_field json_or_def)

lemma tunnel_settled:
  "diffTunnel (tunnel_override url d) (new_row sid ''tunnel'' (ti_name d) (ti_fqdn d) e
     [(''fqdn'', JStr (ti_fqdn d)), (''service'', JStr (nullish url (ti_service d)))]) = []"
  by (simp add: diffTunnel_def tunnel_override_def new_row_field json_or_def)

interpretation tls_pass: resource_pass sid "''tls''" "tls_apply c sid user" "tls_remove c sid" tc_name
    "\<lambda>d r. diffTls d r = []"
  for c sid user
  by (rule resource_passI)
    (auto simp: tls_apply_def tls_remove_def tls_settled
      intro!: writes_intros upsert_settled split: option.split)

interpretation dns_pass: resource_pass sid "''dns''" "dns_apply c sid" "dns_remove c sid" dr_name
    "\<lambda>d r. diffDns d r = []"
  for c sid
  by (rule resource_passI)
    (auto simp: dns_apply_def dns_remove_def delete_record_def dns_settled Let_def
      intro!: writes_intros upsert_settled split: option.split)

interpretation tunnel_pass: resource_pass sid "''tunnel''" "tunnel_apply c sid tid url"
    "tunnel_remove c sid tid" ti_name "\<lambda>d r. diffTunnel (tunnel_override url d) r = []"
  for c sid tid url
  by (rule resource_passI)
    (auto simp: tunnel_apply_def tunnel_remove_def tunnel_settled Let_def
      intro!: writes_intros upsert_settled split: option.split)

end
