(* ===== verification/ResourceApply.thy ===== *)
theory ResourceApply
  imports ResourceReconciler
begin

text \<open>
  What the resource plan of \<open>stack-resource-reconciler.ts\<close> holds and what carrying it out leaves:
  the plan is exact, an apply whose passes succeed converges, the errors of a pass stay with their
  action, destroying clears the stack's rows; and two ways the code does not converge: a tunnel URL
  configured on the environment, and a changed domain name of a DNS record.
\<close>

section \<open>What the plan holds\<close>

lemma by_name_named: "by_name name defs n = Some d \<Longrightarrow> name d = n"
  by (auto simp: by_name_def dest: om_collect_SomeD)

definition stack_rows :: "string \<Rightarrow> stack_resource list \<Rightarrow> stack_resource list" where
  "stack_rows sid rows = filter (\<lambda>r. sr_stackId r = sid) rows"

lemma resource_key_inj:
  "ty \<in> {''tls'', ''dns'', ''tunnel''} \<Longrightarrow> ty' \<in> {''tls'', ''dns'', ''tunnel''} \<Longrightarrow>
   resource_key ty n = resource_key ty' n' \<longleftrightarrow> ty = ty' \<and> n = n'"
  by (auto simp: resource_key_def)

lemma rows_at_singleton:
  "rows_wf rows \<Longrightarrow> r \<in> set rows \<Longrightarrow> row_key r = (sid, ty, n) \<Longrightarrow> rows_at sid ty n rows = [r]"
proof (induction rows)
  case (Cons q rows)
  have wf: "rows_wf rows" using Cons.prems(1) by (simp add: rows_wf_def)
  show ?case
  proof (cases "r = q")
    case True
    with Cons.prems have "rows_at sid ty n rows = []" by (force simp: rows_at_empty rows_wf_def)
    with True Cons.prems(3) show ?thesis by (simp add: rows_at_Cons)
  next
    case False
    with Cons.prems have r: "r \<in> set rows" by simp
    with Cons.prems have "row_key q \<noteq> (sid, ty, n)" by (force simp: rows_wf_def)
    with Cons.IH [OF wf r Cons.prems(3)] show ?thesis by (simp add: rows_at_Cons)
  qed
qed simp

lemma lookup_row:
  assumes "rows_wf rows" and "ty \<in> {''tls'', ''dns'', ''tunnel''}"
  shows "om_get (current_map (stack_rows sid rows)) (resource_key ty n) =
    (case rows_at sid ty n rows of [] \<Rightarrow> None | r # _ \<Rightarrow> Some r)"
proof -
  have key: "resource_key (sr_resourceType r) (sr_resourceName r) = resource_key ty n \<longleftrightarrow>
      row_key r = (sid, ty, n)" if "r \<in> set (stack_rows sid rows)" for r
    using that assms resource_key_inj [of "sr_resourceType r" ty]
    by (auto simp: stack_rows_def row_key_def rows_wf_def list_all_iff)
  show ?thesis
  proof (cases "find (\<lambda>r. resource_key (sr_resourceType r) (sr_resourceName r) = resource_key ty n)
      (rev (stack_rows sid rows))")
    case None
    then have "rows_at sid ty n rows = []"
      using key by (auto simp: find_None_iff rows_at_empty stack_rows_def row_key_def)
    with None show ?thesis by (simp add: current_map_def om_collect_lookup)
  next
    case (Some r)
    then have "r \<in> set (stack_rows sid rows)"
      "resource_key (sr_resourceType r) (sr_resourceName r) = resource_key ty n"
      using find_SomeD by fastforce+
    with key have "row_key r = (sid, ty, n)" "r \<in> set rows" by (auto simp: stack_rows_def)
    with rows_at_singleton [OF assms(1)] Some show ?thesis by (simp add: current_map_def om_collect_lookup)
  qed
qed

definition akey :: "resource_action \<Rightarrow> string \<times> string" where
  "akey a = (ra_resourceType a, ra_resourceName a)"

lemma plan_definition_key: "akey (plan_definition ty n diff m) = (ty, n)"
  by (simp add: akey_def plan_definition_def Let_def split: option.split)

definition undefined_rows :: "resource_definitions \<Rightarrow> stack_resource list \<Rightarrow> stack_resource list" where
  "undefined_rows d rows = map snd (filter (\<lambda>(key, _). key \<notin> set (matched_keys d)) (current_map rows))"

lemma plan_keys:
  "map akey (planResources d rows) =
     map (\<lambda>x. (''tls'', tc_name x)) (rd_tlsCertificates d) @
     map (\<lambda>x. (''dns'', dr_name x)) (rd_dnsRecords d) @
     map (\<lambda>x. (''tunnel'', ti_name x)) (rd_tunnelIngress d) @
     map (\<lambda>r. (sr_resourceType r, sr_resourceName r)) (undefined_rows d rows)"
  by (simp add: planResources_def Let_def plan_definition_key comp_def undefined_rows_def)
    (simp add: akey_def case_prod_unfold)

definition names_distinct :: "resource_definitions \<Rightarrow> bool" where
  "names_distinct d \<longleftrightarrow> distinct (map tc_name (rd_tlsCertificates d)) \<and>
     distinct (map dr_name (rd_dnsRecords d)) \<and> distinct (map ti_name (rd_tunnelIngress d))"

lemma undefined_row:
  "r \<in> set (undefined_rows d rows) \<Longrightarrow>
   r \<in> set rows \<and> resource_key (sr_resourceType r) (sr_resourceName r) \<notin> set (matched_keys d)"
  by (auto simp: undefined_rows_def current_map_def dest: om_collect_pairs)

lemma undefined_rows_distinct: "distinct (map (\<lambda>r. (sr_resourceType r, sr_resourceName r)) (undefined_rows d rows))"
proof -
  let ?key = "\<lambda>p. resource_key (fst p) (snd p)" and ?pair = "\<lambda>r. (sr_resourceType r, sr_resourceName r)"
  let ?m = "filter (\<lambda>(key, _). key \<notin> set (matched_keys d)) (current_map rows)"
  have "distinct (map fst ?m)"
    using om_collect_wf unfolding om_wf_def current_map_def by (rule distinct_map_filter)
  moreover have "map fst ?m = map ?key (map ?pair (undefined_rows d rows))"
    by (auto simp: undefined_rows_def current_map_def dest: om_collect_pairs)
  ultimately have "distinct (map ?key (map ?pair (undefined_rows d rows)))" by simp
  then show ?thesis unfolding distinct_map [of ?key] by (rule conjunct1)
qed

lemma plan_definition_rows:
  assumes "rows_wf rows" and "ty \<in> {''tls'', ''dns'', ''tunnel''}"
  shows "plan_definition ty n diff (current_map (stack_rows sid rows)) =
    (case rows_at sid ty n rows of
       [] \<Rightarrow> \<lparr>ra_resourceType = ty, ra_resourceName = n, ra_action = ActCreate, ra_diff = None\<rparr>
     | r # _ \<Rightarrow>
         if diff r = [] then \<lparr>ra_resourceType = ty, ra_resourceName = n, ra_action = ActNoOp, ra_diff = None\<rparr>
         else \<lparr>ra_resourceType = ty, ra_resourceName = n, ra_action = ActUpdate, ra_diff = Some (diff r)\<rparr>)"
  using lookup_row [OF assms, of sid n]
  by (cases "rows_at sid ty n rows") (simp_all add: plan_definition_def)

definition remove_action :: "stack_resource \<Rightarrow> resource_action" where
  "remove_action r = \<lparr>ra_resourceType = sr_resourceType r, ra_resourceName = sr_resourceName r,
     ra_action = ActRemove, ra_diff = None\<rparr>"

lemma plan_split:
  "planResources d rows =
     map (\<lambda>x. plan_definition ''tls'' (tc_name x) (diffTls x) (current_map rows)) (rd_tlsCertificates d) @
     map (\<lambda>x. plan_definition ''dns'' (dr_name x) (diffDns x) (current_map rows)) (rd_dnsRecords d) @
     map (\<lambda>x. plan_definition ''tunnel'' (ti_name x) (diffTunnel x) (current_map rows)) (rd_tunnelIngress d) @
     map remove_action (undefined_rows d rows)"
  by (simp add: planResources_def Let_def undefined_rows_def remove_action_def comp_def case_prod_unfold)

lemma matched_key:
  "ty \<in> {''tls'', ''dns'', ''tunnel''} \<Longrightarrow> resource_key ty n \<in> set (matched_keys d) \<longleftrightarrow>
   (ty = ''tls'' \<and> n \<in> tc_name ` set (rd_tlsCertificates d)) \<or>
   (ty = ''dns'' \<and> n \<in> dr_name ` set (rd_dnsRecords d)) \<or>
   (ty = ''tunnel'' \<and> n \<in> ti_name ` set (rd_tunnelIngress d))"
  by (simp add: matched_keys_def image_iff resource_key_inj)

lemma undefined_rows_set:
  assumes "rows_wf rows"
  shows "r \<in> set (undefined_rows d (stack_rows sid rows)) \<longleftrightarrow>
    r \<in> set rows \<and> sr_stackId r = sid \<and> resource_key (sr_resourceType r) (sr_resourceName r) \<notin> set (matched_keys d)"
proof
  assume "r \<in> set (undefined_rows d (stack_rows sid rows))"
  from undefined_row [OF this] show "r \<in> set rows \<and> sr_stackId r = sid \<and>
      resource_key (sr_resourceType r) (sr_resourceName r) \<notin> set (matched_keys d)"
    by (simp add: stack_rows_def)
next
  assume r: "r \<in> set rows \<and> sr_stackId r = sid \<and>
      resource_key (sr_resourceType r) (sr_resourceName r) \<notin> set (matched_keys d)"
  then have "rows_at sid (sr_resourceType r) (sr_resourceName r) rows = [r]"
    by (intro rows_at_singleton [OF assms]) (auto simp: row_key_def)
  with lookup_row [OF assms, of "sr_resourceType r" sid "sr_resourceName r"] assms r
  have "om_get (current_map (stack_rows sid rows)) (resource_key (sr_resourceType r) (sr_resourceName r)) = Some r"
    by (auto simp: rows_wf_def list_all_iff)
  from map_of_SomeD [OF this] r show "r \<in> set (undefined_rows d (stack_rows sid rows))"
    by (force simp: undefined_rows_def)
qed

lemma plan_keys_distinct:
  assumes "names_distinct d" and "rows_wf rows"
  shows "distinct (map akey (planResources d (stack_rows sid rows)))"
proof -
  let ?tls = "map (\<lambda>x. (''tls'', tc_name x)) (rd_tlsCertificates d)"
    and ?dns = "map (\<lambda>x. (''dns'', dr_name x)) (rd_dnsRecords d)"
    and ?tun = "map (\<lambda>x. (''tunnel'', ti_name x)) (rd_tunnelIngress d)"
    and ?rows = "map (\<lambda>r. (sr_resourceType r, sr_resourceName r)) (undefined_rows d (stack_rows sid rows))"
  have pairs: "distinct (map (\<lambda>x. (ty, f x)) xs) \<longleftrightarrow> distinct (map f xs)" for ty :: string and f :: "'x \<Rightarrow> string" and xs
    by (induction xs) auto
  have defined: "distinct ?tls" "distinct ?dns" "distinct ?tun"
    using assms(1) by (simp_all add: names_distinct_def pairs)
  have "p \<notin> set ?tls \<union> set ?dns \<union> set ?tun" if "p \<in> set ?rows" for p
  proof -
    from that obtain r where r: "r \<in> set (undefined_rows d (stack_rows sid rows))"
      "p = (sr_resourceType r, sr_resourceName r)" by auto
    from r(1) have "sr_resourceType r \<in> {''tls'', ''dns'', ''tunnel''}"
      and "resource_key (sr_resourceType r) (sr_resourceName r) \<notin> set (matched_keys d)"
      using assms(2) unfolding undefined_rows_set [OF assms(2)] by (auto simp: rows_wf_def list_all_iff)
    with matched_key [of "sr_resourceType r" "sr_resourceName r" d] r(2) show ?thesis by auto
  qed
  then have "set ?rows \<inter> (set ?tls \<union> set ?dns \<union> set ?tun) = {}" by blast
  moreover have "set ?tls \<inter> set ?dns = {}" "set ?tls \<inter> set ?tun = {}" "set ?dns \<inter> set ?tun = {}" by auto
  ultimately show ?thesis unfolding plan_keys distinct_append set_append
    using defined undefined_rows_distinct [of d "stack_rows sid rows"] by blast
qed

text \<open>The action a definition is owed.\<close>

definition owed_action :: "(stack_resource \<Rightarrow> field_diff list) \<Rightarrow> stack_resource list \<Rightarrow> plan_action" where
  "owed_action diff present =
     (case present of [] \<Rightarrow> ActCreate | r # _ \<Rightarrow> if diff r = [] then ActNoOp else ActUpdate)"

text \<open>The resource plan is exact: with distinct names and the table's unique constraint, every
  definition gets exactly one action (create when it has no row, no-op when its row shows no drift,
  update otherwise), every row of the stack without a definition gets exactly one removal, and there
  is no other action.\<close>

theorem resource_plan_exact:
  assumes "names_distinct d" and "rows_wf rows"
  shows "distinct (map akey (planResources d (stack_rows sid rows))) \<and>
    (\<lambda>a. (akey a, ra_action a)) ` set (planResources d (stack_rows sid rows)) =
      (\<lambda>x. ((''tls'', tc_name x), owed_action (diffTls x) (rows_at sid ''tls'' (tc_name x) rows))) ` set (rd_tlsCertificates d) \<union>
      (\<lambda>x. ((''dns'', dr_name x), owed_action (diffDns x) (rows_at sid ''dns'' (dr_name x) rows))) ` set (rd_dnsRecords d) \<union>
      (\<lambda>x. ((''tunnel'', ti_name x), owed_action (diffTunnel x) (rows_at sid ''tunnel'' (ti_name x) rows))) ` set (rd_tunnelIngress d) \<union>
      (\<lambda>r. ((sr_resourceType r, sr_resourceName r), ActRemove)) `
        {r \<in> set rows. sr_stackId r = sid \<and> resource_key (sr_resourceType r) (sr_resourceName r) \<notin> set (matched_keys d)}"
proof (intro conjI)
  show "distinct (map akey (planResources d (stack_rows sid rows)))" by (rule plan_keys_distinct [OF assms])
  have action: "ra_action (plan_definition ty n diff (current_map (stack_rows sid rows))) =
      owed_action diff (rows_at sid ty n rows)" if "ty \<in> {''tls'', ''dns'', ''tunnel''}" for ty n diff
    unfolding plan_definition_rows [OF assms(2) that] by (simp add: owed_action_def split: list.split)
  have removal: "(akey (remove_action r), ra_action (remove_action r)) = ((sr_resourceType r, sr_resourceName r), ActRemove)" for r
    by (simp add: akey_def remove_action_def)
  have rows: "set (undefined_rows d (stack_rows sid rows)) = {r \<in> set rows. sr_stackId r = sid \<and>
      resource_key (sr_resourceType r) (sr_resourceName r) \<notin> set (matched_keys d)}"
    using undefined_rows_set [OF assms(2)] by auto
  show "(\<lambda>a. (akey a, ra_action a)) ` set (planResources d (stack_rows sid rows)) =
      (\<lambda>x. ((''tls'', tc_name x), owed_action (diffTls x) (rows_at sid ''tls'' (tc_name x) rows))) ` set (rd_tlsCertificates d) \<union>
      (\<lambda>x. ((''dns'', dr_name x), owed_action (diffDns x) (rows_at sid ''dns'' (dr_name x) rows))) ` set (rd_dnsRecords d) \<union>
      (\<lambda>x. ((''tunnel'', ti_name x), owed_action (diffTunnel x) (rows_at sid ''tunnel'' (ti_name x) rows))) ` set (rd_tunnelIngress d) \<union>
      (\<lambda>r. ((sr_resourceType r, sr_resourceName r), ActRemove)) `
        {r \<in> set rows. sr_stackId r = sid \<and> resource_key (sr_resourceType r) (sr_resourceName r) \<notin> set (matched_keys d)}"
    unfolding plan_split set_append image_Un set_map image_image removal plan_definition_key rows
    by (simp add: action Un_assoc)
qed

section \<open>Carrying the plan out\<close>

lemma check_results_Inr: "check_results l rs s = (Inr u, t) \<longleftrightarrow> list_all rr_success rs \<and> t = s"
proof -
  have "list_all rr_success rs \<longleftrightarrow> find (\<lambda>r. \<not> rr_success r) rs = None"
    by (auto simp: find_None_iff list_all_iff)
  then show ?thesis by (auto simp: check_results_def split: option.split)
qed

lemma pending_action: "a \<in> set (pending ty acts) \<longleftrightarrow> a \<in> set acts \<and> ra_resourceType a = ty \<and> ra_action a \<noteq> ActNoOp"
  by (auto simp: pending_def)

lemma pending_distinct: "distinct (map akey acts) \<Longrightarrow> distinct (map ra_resourceName (pending ty acts))"
proof (induction acts)
  case (Cons a acts)
  have "ra_resourceName a \<notin> ra_resourceName ` set (pending ty acts)" if "ra_resourceType a = ty"
  proof
    assume "ra_resourceName a \<in> ra_resourceName ` set (pending ty acts)"
    then obtain b where b: "ra_resourceName a = ra_resourceName b" "b \<in> set (pending ty acts)" by (rule imageE)
    with that have "akey a = akey b" "b \<in> set acts" by (simp_all add: pending_action akey_def)
    then have "akey a \<in> set (map akey acts)" by simp
    with Cons.prems show False by simp
  qed
  with Cons show ?case by (auto simp: pending_def)
qed (simp add: pending_def)

text \<open>The run of an apply whose passes all succeed, pass by pass.\<close>

lemma reconcile_steps:
  assumes "reconcileResources c sid user d acts s = (Inr rs, t)" and "list_ex (\<lambda>a. ra_action a \<noteq> ActNoOp) acts"
  obtains dns tls tun s1 s2 s3 tid url w where
    "eff_each (reconcile_action ''DNS'' (dns_apply c sid) (dns_remove c sid) (by_name dr_name (rd_dnsRecords d)))
       (pending ''dns'' acts) s = (Inr dns, s1)" "list_all rr_success dns"
    "eff_each (reconcile_action ''TLS'' (tls_apply c sid user) (tls_remove c sid) (by_name tc_name (rd_tlsCertificates d)))
       (pending ''tls'' acts) s1 = (Inr tls, s2)" "list_all rr_success tls"
    "environmentTunnel c sid (rs_world s2) = (Inr (tid, url), w)" "rs_rows s3 = rs_rows s2"
    "eff_each (reconcile_action ''tunnel'' (tunnel_apply c sid tid url) (tunnel_remove c sid tid)
       (by_name ti_name (rd_tunnelIngress d))) (pending ''tunnel'' acts) s3 = (Inr tun, t)" "list_all rr_success tun"
    "rs = dns @ tls @ tun"
proof -
  from assms obtain dns s1 tls s2 tun where
    dns: "reconcileDns c acts sid (rd_dnsRecords d) s = (Inr dns, s1)" "list_all rr_success dns" and
    tls: "reconcileTls c acts sid (rd_tlsCertificates d) user s1 = (Inr tls, s2)" "list_all rr_success tls" and
    tun: "reconcileTunnel c acts sid (rd_tunnelIngress d) s2 = (Inr tun, t)" "list_all rr_success tun" and
    rs: "rs = dns @ tls @ tun"
    by (auto simp: reconcileResources_def eff_bind_Inr eff_then_Inr check_results_Inr)
  from tun(1) obtain tid url s3 where env: "call (environmentTunnel c sid) s2 = (Inr (tid, url), s3)"
    and tun': "eff_each (reconcile_action ''tunnel'' (tunnel_apply c sid tid url) (tunnel_remove c sid tid)
       (by_name ti_name (rd_tunnelIngress d))) (pending ''tunnel'' acts) s3 = (Inr tun, t)"
    by (auto simp: reconcileTunnel_def eff_bind_Inr)
  from env obtain w where "environmentTunnel c sid (rs_world s2) = (Inr (tid, url), w)" "rs_rows s3 = rs_rows s2"
    by (auto simp: call_def Let_def split: prod.splits)
  with that dns tls tun' tun(2) rs show thesis unfolding reconcileDns_def reconcileTls_def by blast
qed

lemma pass_keys: "(ty, n) \<notin> akey ` {a \<in> set acts. ra_action a \<noteq> ActNoOp} \<Longrightarrow>
  n \<notin> ra_resourceName ` set (pending ty acts)"
  by (force simp: akey_def pending_action)

lemma apply_frame:
  assumes "reconcileResources c sid user d acts s = (Inr rs, t)"
    and "(ty, n) \<notin> akey ` {a \<in> set acts. ra_action a \<noteq> ActNoOp} \<or> sid' \<noteq> sid"
  shows "rows_at sid' ty n (rs_rows t) = rows_at sid' ty n (rs_rows s)"
proof (cases "list_ex (\<lambda>a. ra_action a \<noteq> ActNoOp) acts")
  case False
  with assms(1) show ?thesis by (simp add: reconcileResources_def)
next
  case True
  from reconcile_steps [OF assms(1) True] obtain dns tls tun s1 s2 s3 tid url where
    dns: "eff_each (reconcile_action ''DNS'' (dns_apply c sid) (dns_remove c sid) (by_name dr_name (rd_dnsRecords d)))
       (pending ''dns'' acts) s = (Inr dns, s1)" and
    tls: "eff_each (reconcile_action ''TLS'' (tls_apply c sid user) (tls_remove c sid) (by_name tc_name (rd_tlsCertificates d)))
       (pending ''tls'' acts) s1 = (Inr tls, s2)" and s3: "rs_rows s3 = rs_rows s2" and
    tun: "eff_each (reconcile_action ''tunnel'' (tunnel_apply c sid tid url) (tunnel_remove c sid tid)
       (by_name ti_name (rd_tunnelIngress d))) (pending ''tunnel'' acts) s3 = (Inr tun, t)" by metis
  have other: "(sid', ty) \<noteq> (sid, x) \<or> n \<notin> ra_resourceName ` set (pending x acts)" for x
    using assms(2) pass_keys [of ty n acts] by (cases "ty = x") auto
  show ?thesis
    using dns_pass.pass_frame [OF dns _ other] tls_pass.pass_frame [OF tls _ other]
      tunnel_pass.pass_frame [OF tun _ other] s3 by (simp add: by_name_named)
qed

text \<open>What an apply whose passes all succeed leaves for every action of its list.\<close>

lemma apply_outcome:
  assumes run: "reconcileResources c sid user d acts s = (Inr rs, t)" and wf: "rows_wf (rs_rows s)"
    and keys: "distinct (map akey acts)" and act: "a \<in> set acts" "ra_action a \<noteq> ActNoOp"
  shows "ra_resourceType a \<in> {''tls'', ''dns'', ''tunnel''} \<Longrightarrow> ra_action a = ActRemove \<Longrightarrow>
      rows_at sid (ra_resourceType a) (ra_resourceName a) (rs_rows t) = []"
    and "ra_resourceType a = ''tls'' \<Longrightarrow> ra_action a \<noteq> ActRemove \<Longrightarrow>
      \<exists>x row. by_name tc_name (rd_tlsCertificates d) (ra_resourceName a) = Some x \<and> diffTls x row = [] \<and>
        rows_at sid ''tls'' (ra_resourceName a) (rs_rows t) = [row]"
    and "ra_resourceType a = ''dns'' \<Longrightarrow> ra_action a \<noteq> ActRemove \<Longrightarrow>
      \<exists>x row. by_name dr_name (rd_dnsRecords d) (ra_resourceName a) = Some x \<and> diffDns x row = [] \<and>
        rows_at sid ''dns'' (ra_resourceName a) (rs_rows t) = [row]"
    and "ra_resourceType a = ''tunnel'' \<Longrightarrow> ra_action a \<noteq> ActRemove \<Longrightarrow>
      \<exists>x row w tid url w'. by_name ti_name (rd_tunnelIngress d) (ra_resourceName a) = Some x \<and>
        environmentTunnel c sid w = (Inr (tid, url), w') \<and> diffTunnel (tunnel_override url x) row = [] \<and>
        rows_at sid ''tunnel'' (ra_resourceName a) (rs_rows t) = [row]"
proof -
  have "list_ex (\<lambda>a. ra_action a \<noteq> ActNoOp) acts" using act by (auto simp: list_ex_iff)
  from reconcile_steps [OF run this] obtain dns tls tun s1 s2 s3 tid url w where
    dns: "eff_each (reconcile_action ''DNS'' (dns_apply c sid) (dns_remove c sid) (by_name dr_name (rd_dnsRecords d)))
       (pending ''dns'' acts) s = (Inr dns, s1)" "list_all rr_success dns" and
    tls: "eff_each (reconcile_action ''TLS'' (tls_apply c sid user) (tls_remove c sid) (by_name tc_name (rd_tlsCertificates d)))
       (pending ''tls'' acts) s1 = (Inr tls, s2)" "list_all rr_success tls" and
    env: "environmentTunnel c sid (rs_world s2) = (Inr (tid, url), w)" and s3: "rs_rows s3 = rs_rows s2" and
    tun: "eff_each (reconcile_action ''tunnel'' (tunnel_apply c sid tid url) (tunnel_remove c sid tid)
       (by_name ti_name (rd_tunnelIngress d))) (pending ''tunnel'' acts) s3 = (Inr tun, t)" "list_all rr_success tun"
    by metis
  have wf1: "rows_wf (rs_rows s1)" by (rule dns_pass.pass_wf [OF dns(1) wf])
  have wf2: "rows_wf (rs_rows s2)" by (rule tls_pass.pass_wf [OF tls(1) wf1])
  have wf3: "rows_wf (rs_rows s3)" using wf2 s3 by simp
  note names = pending_distinct [OF keys]
  have later_dns: "rows_at sid ''dns'' n (rs_rows t) = rows_at sid ''dns'' n (rs_rows s1)" for n
    using tls_pass.pass_frame [OF tls(1), of sid "''dns''" n] tunnel_pass.pass_frame [OF tun(1), of sid "''dns''" n] s3
    by (simp add: by_name_named)
  have later_tls: "rows_at sid ''tls'' n (rs_rows t) = rows_at sid ''tls'' n (rs_rows s2)" for n
    using tunnel_pass.pass_frame [OF tun(1), of sid "''tls''" n] s3 by (simp add: by_name_named)
  have fin: "\<forall>a \<in> set (pending ''dns'' acts). dns_pass.action_done sid (by_name dr_name (rd_dnsRecords d)) a (rs_rows s1)"
      "\<forall>a \<in> set (pending ''tls'' acts). tls_pass.action_done sid (by_name tc_name (rd_tlsCertificates d)) a (rs_rows s2)"
      "\<forall>a \<in> set (pending ''tunnel'' acts). tunnel_pass.action_done sid url (by_name ti_name (rd_tunnelIngress d)) a (rs_rows t)"
    by (rule dns_pass.pass_settles [OF dns wf _ names] tls_pass.pass_settles [OF tls wf1 _ names]
          tunnel_pass.pass_settles [OF tun wf3 _ names]; erule by_name_named)+
  note defs = dns_pass.action_done_def tls_pass.action_done_def tunnel_pass.action_done_def
  show "rows_at sid (ra_resourceType a) (ra_resourceName a) (rs_rows t) = []"
    if "ra_resourceType a \<in> {''tls'', ''dns'', ''tunnel''}" "ra_action a = ActRemove"
    using that bspec [OF fin(1), of a] bspec [OF fin(2), of a] bspec [OF fin(3), of a] act
    by (auto simp: pending_action defs later_dns later_tls)
  show "\<exists>x row. by_name tc_name (rd_tlsCertificates d) (ra_resourceName a) = Some x \<and> diffTls x row = [] \<and>
        rows_at sid ''tls'' (ra_resourceName a) (rs_rows t) = [row]"
    if "ra_resourceType a = ''tls''" "ra_action a \<noteq> ActRemove"
    using that bspec [OF fin(2), of a] act by (auto simp: pending_action defs later_tls)
  show "\<exists>x row. by_name dr_name (rd_dnsRecords d) (ra_resourceName a) = Some x \<and> diffDns x row = [] \<and>
        rows_at sid ''dns'' (ra_resourceName a) (rs_rows t) = [row]"
    if "ra_resourceType a = ''dns''" "ra_action a \<noteq> ActRemove"
    using that bspec [OF fin(1), of a] act by (auto simp: pending_action defs later_dns)
  show "\<exists>x row w tid url w'. by_name ti_name (rd_tunnelIngress d) (ra_resourceName a) = Some x \<and>
        environmentTunnel c sid w = (Inr (tid, url), w') \<and> diffTunnel (tunnel_override url x) row = [] \<and>
        rows_at sid ''tunnel'' (ra_resourceName a) (rs_rows t) = [row]"
    if "ra_resourceType a = ''tunnel''" "ra_action a \<noteq> ActRemove"
    using that bspec [OF fin(3), of a] act env
    by (simp add: pending_action defs) blast
qed

lemma apply_wf:
  assumes "reconcileResources c sid user d acts s = (Inr rs, t)" and "rows_wf (rs_rows s)"
  shows "rows_wf (rs_rows t)"
proof (cases "list_ex (\<lambda>a. ra_action a \<noteq> ActNoOp) acts")
  case False
  with assms show ?thesis by (simp add: reconcileResources_def)
next
  case True
  from reconcile_steps [OF assms(1) True] obtain dns tls tun s1 s2 s3 tid url where
    dns: "eff_each (reconcile_action ''DNS'' (dns_apply c sid) (dns_remove c sid) (by_name dr_name (rd_dnsRecords d)))
       (pending ''dns'' acts) s = (Inr dns, s1)" and
    tls: "eff_each (reconcile_action ''TLS'' (tls_apply c sid user) (tls_remove c sid) (by_name tc_name (rd_tlsCertificates d)))
       (pending ''tls'' acts) s1 = (Inr tls, s2)" and s3: "rs_rows s3 = rs_rows s2" and
    tun: "eff_each (reconcile_action ''tunnel'' (tunnel_apply c sid tid url) (tunnel_remove c sid tid)
       (by_name ti_name (rd_tunnelIngress d))) (pending ''tunnel'' acts) s3 = (Inr tun, t)" by metis
  from dns_pass.pass_wf [OF dns assms(2)] have "rows_wf (rs_rows s1)" .
  from tls_pass.pass_wf [OF tls this] s3 have "rows_wf (rs_rows s3)" by simp
  from tunnel_pass.pass_wf [OF tun this] show ?thesis .
qed

lemma plan_definition_facts:
  "akey (plan_definition ty n diff m) = (ty, n)" "ra_resourceType (plan_definition ty n diff m) = ty"
  "ra_resourceName (plan_definition ty n diff m) = n" "ra_action (plan_definition ty n diff m) \<noteq> ActRemove"
  by (simp_all add: akey_def plan_definition_def Let_def split: option.split)

lemma key_unique: "distinct (map akey acts) \<Longrightarrow> a \<in> set acts \<Longrightarrow> ra_action a = ActNoOp \<Longrightarrow>
  akey a \<notin> akey ` {b \<in> set acts. ra_action b \<noteq> ActNoOp}"
  by (auto simp: distinct_map inj_on_def)

lemma converged_definition:
  assumes run: "reconcileResources c sid user d acts s = (Inr rs, t)" and wf: "rows_wf (rs_rows s)"
    and keys: "distinct (map akey acts)" and ty: "ty \<in> {''tls'', ''dns'', ''tunnel''}"
    and a: "plan_definition ty n diff (current_map (stack_rows sid (rs_rows s))) \<in> set acts"
    and acted: "ra_action (plan_definition ty n diff (current_map (stack_rows sid (rs_rows s)))) \<noteq> ActNoOp \<Longrightarrow> \<exists>row. diff row = [] \<and> rows_at sid ty n (rs_rows t) = [row]"
  shows "ra_action (plan_definition ty n diff (current_map (stack_rows sid (rs_rows t)))) = ActNoOp"
proof (cases "ra_action (plan_definition ty n diff (current_map (stack_rows sid (rs_rows s)))) = ActNoOp")
  case True
  then obtain r rest where r: "rows_at sid ty n (rs_rows s) = r # rest" "diff r = []"
    unfolding plan_definition_rows [OF wf ty] by (auto split: list.splits if_splits)
  have "rows_at sid ty n (rs_rows t) = rows_at sid ty n (rs_rows s)"
    using key_unique [OF keys a True] by (intro apply_frame [OF run]) (simp add: plan_definition_facts)
  with r show ?thesis unfolding plan_definition_rows [OF apply_wf [OF run wf] ty] by simp
next
  case False
  from acted [OF this] show ?thesis unfolding plan_definition_rows [OF apply_wf [OF run wf] ty] by auto
qed

lemma plan_key_set:
  "akey ` set (planResources d rows) =
     (\<lambda>x. (''tls'', tc_name x)) ` set (rd_tlsCertificates d) \<union> (\<lambda>x. (''dns'', dr_name x)) ` set (rd_dnsRecords d) \<union>
     (\<lambda>x. (''tunnel'', ti_name x)) ` set (rd_tunnelIngress d) \<union>
     (\<lambda>r. (sr_resourceType r, sr_resourceName r)) ` set (undefined_rows d rows)"
  using arg_cong [OF plan_keys, of set] by (simp add: Un_assoc)


definition example_cloud :: "nat cloud" where
  "example_cloud = \<lparr>db_access = (\<lambda>w. (Inr (), w)), findActiveCertificate = (\<lambda>f w. (Inr None, w)),
     issueCertificate = (\<lambda>f u w. (Inr ''cert-1'', Suc w)),
     upsertARecord = (\<lambda>f t l p w. (Inr ''rec-1'', Suc w)), findZoneForHostname = (\<lambda>f w. (Inr (Some ''zone''), w)),
     deleteDNSRecord = (\<lambda>z i w. (Inl ''record not found'', w)), tunnelService = True,
     addHostname = (\<lambda>t f u w. (Inl ''hostname already exists'', w)), removeHostname = (\<lambda>t f w. (Inr (), w)),
     upsertCNAMERecord = (\<lambda>f t w. (Inl ''rate limited'', w)), deleteCNAMEByHostname = (\<lambda>f w. (Inr (), w)),
     environmentTunnel = (\<lambda>s w. (Inr (Some ''tun-1'', None), w))\<rparr>"

definition example_definitions :: resource_definitions where
  "example_definitions = \<lparr>rd_tlsCertificates = [\<lparr>tc_name = ''web'', tc_fqdn = ''a.example.com''\<rparr>],
     rd_dnsRecords = [\<lparr>dr_name = ''web'', dr_fqdn = ''a.example.com'', dr_target = ''10.0.0.1'', dr_ttl = None,
       dr_proxied = None\<rparr>],
     rd_tunnelIngress = [\<lparr>ti_name = ''web'', ti_fqdn = ''b.example.com'', ti_service = ''http://web:80''\<rparr>]\<rparr>"

definition example_state :: "nat rstate" where
  "example_state = \<lparr>rs_world = 0,
     rs_rows = [new_row ''s1'' ''tls'' ''web'' ''old.example.com'' None [], new_row ''s1'' ''tls'' ''gone'' ''c'' None [],
       new_row ''s2'' ''tls'' ''web'' ''d'' None []], rs_progress = []\<rparr>"

lemma resource_plan_exact_witness:
  "distinct (map akey (planResources example_definitions (stack_rows ''s1'' (rs_rows example_state))))"
  using resource_plan_exact [of example_definitions "rs_rows example_state" "''s1''"]
  by (simp add: names_distinct_def rows_wf_def example_definitions_def example_state_def new_row_def row_key_def)


text \<open>An environment that configures its own tunnel service URL never converges: when a stack's ingress
  rule names another service and the plan has work for the rule, then after an apply in which
  everything succeeded the next plan again updates the rule, as the pass records the override and the
  plan compares with the definition.\<close>

theorem tunnel_override_never_converges:
  assumes run: "reconcileResources c sid user d (planResources d (stack_rows sid (rs_rows s))) s = (Inr rs, t)"
    and wf: "rows_wf (rs_rows s)" and names: "names_distinct d"
    and x: "x \<in> set (rd_tunnelIngress d)" and u: "u \<noteq> ti_service x"
    and env: "\<forall>w tid url w'. environmentTunnel c sid w = (Inr (tid, url), w') \<longrightarrow> url = Some u"
    and work: "((''tunnel'', ti_name x), ActNoOp) \<notin>
      (\<lambda>a. (akey a, ra_action a)) ` set (planResources d (stack_rows sid (rs_rows s)))"
  shows "((''tunnel'', ti_name x), ActUpdate) \<in>
      (\<lambda>a. (akey a, ra_action a)) ` set (planResources d (stack_rows sid (rs_rows t)))"
proof -
  let ?a = "\<lambda>s. plan_definition ''tunnel'' (ti_name x) (diffTunnel x) (current_map (stack_rows sid (rs_rows s)))"
  have mem: "?a s \<in> set (planResources d (stack_rows sid (rs_rows s)))" for s :: "'a rstate"
    using x by (simp add: plan_split)
  have acts: "ra_action (?a s) \<noteq> ActNoOp"
    using work imageI [OF mem [of s], of "\<lambda>a. (akey a, ra_action a)"] by (auto simp: plan_definition_facts)
  have "by_name ti_name (rd_tunnelIngress d) (ti_name x) = Some x"
    using names x by (simp add: by_name_def names_distinct_def om_collect_distinct)
  with apply_outcome(4) [OF run wf plan_keys_distinct [OF names wf] mem acts] env obtain row where
    row: "diffTunnel (tunnel_override (Some u) x) row = []" "rows_at sid ''tunnel'' (ti_name x) (rs_rows t) = [row]"
    by (fastforce simp: plan_definition_facts)
  from row(1) have "state_field row ''service'' = Some (JStr u)"
    by (auto simp: diffTunnel_def tunnel_override_def Let_def split: if_splits)
  with u have "diffTunnel x row \<noteq> []" by (simp add: diffTunnel_def Let_def)
  with row(2) have "ra_action (?a t) = ActUpdate"
    unfolding plan_definition_rows [OF apply_wf [OF run wf], of "''tunnel''", simplified] by simp
  then show ?thesis using imageI [OF mem [of t], of "\<lambda>a. (akey a, ra_action a)"] by (simp add: plan_definition_facts)
qed

lemma tunnel_override_never_converges_witness:
  "((''tunnel'', ''web''), ActUpdate) \<in> (\<lambda>a. (akey a, ra_action a)) ` set (planResources example_definitions
     (stack_rows ''s1'' (rs_rows (snd (reconcileResources
       (example_cloud\<lparr>environmentTunnel := (\<lambda>s w. (Inr (Some ''tun-1'', Some ''http://haproxy:80''), w))\<rparr>)
       ''s1'' ''u'' example_definitions
       (planResources example_definitions (stack_rows ''s1'' (rs_rows example_state))) example_state)))))"
proof -
  let ?c = "example_cloud\<lparr>environmentTunnel := (\<lambda>s w. (Inr (Some ''tun-1'', Some ''http://haproxy:80''), w))\<rparr>"
  let ?run = "reconcileResources ?c ''s1'' ''u'' example_definitions
       (planResources example_definitions (stack_rows ''s1'' (rs_rows example_state))) example_state"
  let ?x = "\<lparr>ti_name = ''web'', ti_fqdn = ''b.example.com'', ti_service = ''http://web:80''\<rparr>"
  have "isl (fst ?run) = False" by code_simp
  then have "fst ?run = Inr (projr (fst ?run))" by (cases "fst ?run") simp_all
  then have run: "?run = (Inr (projr (fst ?run)), snd ?run)" by (metis prod.collapse)
  have pre: "rows_wf (rs_rows example_state)" "names_distinct example_definitions"
    "?x \<in> set (rd_tunnelIngress example_definitions)" "''http://haproxy:80'' \<noteq> ti_service ?x"
    by (simp_all add: names_distinct_def rows_wf_def example_definitions_def example_state_def new_row_def row_key_def)
  have env: "\<forall>w tid url w'. environmentTunnel ?c ''s1'' w = (Inr (tid, url), w') \<longrightarrow> url = Some ''http://haproxy:80''"
    by simp
  have "((''tunnel'', ti_name ?x), ActNoOp) \<notin> (\<lambda>a. (akey a, ra_action a)) ` set (planResources example_definitions
      (stack_rows ''s1'' (rs_rows example_state)))" by code_simp
  from tunnel_override_never_converges [OF run pre env this] show ?thesis by simp
qed

text \<open>A change of the domain name of a DNS record is never planned: whatever names the records are
  given, the plan stays the same, so the record of the old name stays and the new one is not created.\<close>

theorem dns_fqdn_change_unplanned:
  "planResources (d\<lparr>rd_dnsRecords := map (\<lambda>x. x\<lparr>dr_fqdn := f x\<rparr>) (rd_dnsRecords d)\<rparr>) rows = planResources d rows"
proof -
  have "diffDns (x\<lparr>dr_fqdn := v\<rparr>) = diffDns x" for x :: dns_record and v
    by (rule ext) (simp add: diffDns_def Let_def)
  then show ?thesis by (simp add: planResources_def matched_keys_def comp_def Let_def)
qed

text \<open>Whatever the services throw, the TLS and the DNS pass return, with one result for each action they
  are owed, in order and named after it, and rows of other types, other stacks and names without an
  action stay as they were.\<close>

theorem resource_errors_isolated:
  "(\<exists>rs t. reconcileTls c acts sid tls user s = (Inr rs, t) \<and>
      map (\<lambda>r. (rr_resourceType r, rr_resourceName r, rr_action r)) rs =
        map (\<lambda>a. (ra_resourceType a, ra_resourceName a, ra_action a)) (pending ''tls'' acts) \<and>
      (\<forall>sid' ty n. \<not> ((sid', ty) = (sid, ''tls'') \<and> n \<in> ra_resourceName ` set (pending ''tls'' acts)) \<longrightarrow>
        rows_at sid' ty n (rs_rows t) = rows_at sid' ty n (rs_rows s))) \<and>
   (\<exists>rs t. reconcileDns c acts sid dns s = (Inr rs, t) \<and>
      map (\<lambda>r. (rr_resourceType r, rr_resourceName r, rr_action r)) rs =
        map (\<lambda>a. (ra_resourceType a, ra_resourceName a, ra_action a)) (pending ''dns'' acts) \<and>
      (\<forall>sid' ty n. \<not> ((sid', ty) = (sid, ''dns'') \<and> n \<in> ra_resourceName ` set (pending ''dns'' acts)) \<longrightarrow>
        rows_at sid' ty n (rs_rows t) = rows_at sid' ty n (rs_rows s)))"
proof -
  have names: "map (\<lambda>r. (rr_resourceType r, rr_resourceName r, rr_action r)) rs =
      map (\<lambda>a. (ra_resourceType a, ra_resourceName a, ra_action a)) as"
    if "list_all2 (\<lambda>a r. rr_resourceType r = ra_resourceType a \<and> rr_resourceName r = ra_resourceName a \<and>
      rr_action r = ra_action a) as rs" for as rs using that by (induction as rs) auto
  obtain rs t where tls: "reconcileTls c acts sid tls user s = (Inr rs, t)"
    using tls_pass.pass_total [of "''TLS''" c sid user] unfolding reconcileTls_def by (rule eff_totalE)
  obtain rs' t' where dns: "reconcileDns c acts sid dns s = (Inr rs', t')"
    using dns_pass.pass_total [of "''DNS''" c sid] unfolding reconcileDns_def by (rule eff_totalE)
  note run = tls [unfolded reconcileTls_def] dns [unfolded reconcileDns_def]
  have frame_tls: "rows_at sid' ty n (rs_rows t) = rows_at sid' ty n (rs_rows s)"
    if "\<not> ((sid', ty) = (sid, ''tls'') \<and> n \<in> ra_resourceName ` set (pending ''tls'' acts))" for sid' ty n
    by (rule tls_pass.pass_frame [OF run(1)]) (use that in \<open>auto dest: by_name_named\<close>)
  have frame_dns: "rows_at sid' ty n (rs_rows t') = rows_at sid' ty n (rs_rows s)"
    if "\<not> ((sid', ty) = (sid, ''dns'') \<and> n \<in> ra_resourceName ` set (pending ''dns'' acts))" for sid' ty n
    by (rule dns_pass.pass_frame [OF run(2)]) (use that in \<open>auto dest: by_name_named\<close>)
  show ?thesis
  proof (intro conjI exI)
    show "reconcileTls c acts sid tls user s = (Inr rs, t)" "reconcileDns c acts sid dns s = (Inr rs', t')"
      by (rule tls, rule dns)
    show "map (\<lambda>r. (rr_resourceType r, rr_resourceName r, rr_action r)) rs =
        map (\<lambda>a. (ra_resourceType a, ra_resourceName a, ra_action a)) (pending ''tls'' acts)"
      by (rule names [OF tls_pass.pass_results [OF run(1)]])
    show "map (\<lambda>r. (rr_resourceType r, rr_resourceName r, rr_action r)) rs' =
        map (\<lambda>a. (ra_resourceType a, ra_resourceName a, ra_action a)) (pending ''dns'' acts)"
      by (rule names [OF dns_pass.pass_results [OF run(2)]])
  qed (use frame_tls frame_dns in blast)+
qed

lemma resource_errors_isolated_witness:
  "\<exists>rs t. reconcileTls example_cloud (planResources example_definitions []) ''s1'' (rd_tlsCertificates example_definitions) ''u''
      example_state = (Inr rs, t) \<and> length rs = 1 \<and>
     rows_at ''s2'' ''tls'' ''web'' (rs_rows t) = rows_at ''s2'' ''tls'' ''web'' (rs_rows example_state)"
  using resource_errors_isolated [of example_cloud "planResources example_definitions []" "''s1''"
      "rd_tlsCertificates example_definitions" "''u''" example_state "rd_dnsRecords example_definitions", THEN conjunct1]
proof (elim exE conjE)
  let ?acts = "planResources example_definitions []"
  fix rs t
  assume run: "reconcileTls example_cloud ?acts ''s1'' (rd_tlsCertificates example_definitions) ''u'' example_state = (Inr rs, t)"
    and names: "map (\<lambda>r. (rr_resourceType r, rr_resourceName r, rr_action r)) rs =
      map (\<lambda>a. (ra_resourceType a, ra_resourceName a, ra_action a)) (pending ''tls'' ?acts)"
    and others: "\<forall>sid' ty n. \<not> ((sid', ty) = (''s1'', ''tls'') \<and> n \<in> ra_resourceName ` set (pending ''tls'' ?acts)) \<longrightarrow>
      rows_at sid' ty n (rs_rows t) = rows_at sid' ty n (rs_rows example_state)"
  have "length rs = length (pending ''tls'' ?acts)" using arg_cong [OF names, of length] by simp
  moreover have "length (pending ''tls'' ?acts) = 1"
    by (simp add: planResources_def pending_def example_definitions_def plan_definition_def current_map_def om_collect_def Let_def)
  moreover from others have "rows_at ''s2'' ''tls'' ''web'' (rs_rows t) = rows_at ''s2'' ''tls'' ''web'' (rs_rows example_state)"
    by simp
  ultimately show ?thesis using run by auto
qed

text \<open>Destroying a stack's resources leaves none of its rows and touches no other, whatever Cloudflare
  answers: only a failing database keeps it from completing.\<close>

theorem destroy_clears_stack:
  assumes "\<And>w. \<exists>w'. db_access c w = (Inr (), w')"
  shows "\<exists>t. destroyAllResources c sid s = (Inr (), t) \<and>
    rs_rows t = filter (\<lambda>r. sr_stackId r \<noteq> sid) (rs_rows s)"
proof -
  have db: "\<exists>v. call (db_access c) u = (Inr (), v) \<and> rs_rows v = rs_rows u" for u
    using assms [of "rs_world u"] by (auto simp: call_def)
  from db [of s] obtain s1 where s1: "call (db_access c) s = (Inr (), s1)" "rs_rows s1 = rs_rows s" by blast
  have ext: "eff_total (destroy_external c r)" for r
    by (auto simp: destroy_external_def best_effort_def intro!: eff_total_then eff_total_catch)
  have keep: "writes (\<lambda>a b. b = a) (destroy_external c r)" for r
    by (auto simp: destroy_external_def intro!: writes_intros)
  from eff_total_each [OF ext] obtain us s2 where
    s2: "eff_each (destroy_external c) (filter (\<lambda>r. sr_stackId r = sid) (rs_rows s1)) s1 = (Inr us, s2)"
    by (rule eff_totalE)
  with writes_ok [OF writes_each [OF keep] this] have rows: "rs_rows s2 = rs_rows s1" by simp
  from db [of s2] obtain s3 where "call (db_access c) s2 = (Inr (), s3)" "rs_rows s3 = rs_rows s2" by blast
  with s1 s2 rows show ?thesis
    by (simp add: destroyAllResources_def eff_then_def eff_bind_def eff_get_def eff_modify_def)
qed

lemma destroy_clears_stack_witness:
  "rs_rows (snd (destroyAllResources example_cloud ''s1'' example_state)) = [new_row ''s2'' ''tls'' ''web'' ''d'' None []]"
  using destroy_clears_stack [of example_cloud "''s1''" example_state]
  by (auto simp: example_cloud_def example_state_def new_row_def)

end
