(* ===== verification/PlanComputer.thy ===== *)
theory PlanComputer
  imports TemplateEngine ResourceApply
begin

text \<open>
  The plan of a stack, \<open>stacks/stack-plan-computer.ts\<close> with \<open>stack-diff-generator.ts\<close>,
  \<open>stack-conflict-detector.ts\<close>, \<open>buildContainerMap\<close> and \<open>mergeParameterValues\<close> of \<open>utils.ts\<close> and
  \<open>computeTemplateVersionRelation\<close> of \<open>lib/types/stacks.ts\<close>. What Docker lists is a parameter, as
  are the resolved definitions and their hashes; texts of messages are left out of warnings.
\<close>

section \<open>Containers\<close>

record port_info =
  pi_PublicPort :: "int option"
  pi_Type :: string

record container_info =
  ci_Id :: string
  ci_Names :: "string list"
  ci_Image :: string
  ci_ImageID :: string
  ci_State :: string
  ci_Labels :: "(string \<times> string) list"
  ci_Ports :: "port_info list"

text \<open>What the Docker client answers: all containers, those with a label, those a name filter finds.\<close>

record docker_lists =
  list_all_containers :: "container_info list"
  list_by_stack :: "string \<Rightarrow> container_info list"
  list_by_name :: "string \<Rightarrow> container_info list"

text \<open>\<open>name.replace(/^\//, '')\<close>.\<close>

fun strip_slash :: "string \<Rightarrow> string" where
  "strip_slash [] = []"
| "strip_slash (c # s) = (if c = CHR ''/'' then s else c # s)"

definition label :: "container_info \<Rightarrow> string \<Rightarrow> string option" where
  "label c k = om_get (ci_Labels c) k"

definition buildContainerMap :: "container_info list \<Rightarrow> (string \<times> container_info) list" where
  "buildContainerMap cs =
     om_collect (\<lambda>c. the (label c ''mini-infra.service''))
       (filter (\<lambda>c. truthy (label c ''mini-infra.service'')) cs)"

section \<open>Differences and reasons\<close>

text \<open>\<open>JSON.stringify\<close> keeps the order of the keys.\<close>

definition stringify_opt :: "json option \<Rightarrow> json" where
  "stringify_opt j = (case j of None \<Rightarrow> JNull | Some x \<Rightarrow> JStr (print_json x))"

definition diff_field :: "string \<Rightarrow> json \<Rightarrow> json \<Rightarrow> field_diff list" where
  "diff_field name old new =
     (if old \<noteq> new then [\<lparr>fd_field = name, fd_old = old, fd_new = new\<rparr>] else [])"

definition service_diffs :: "service_definition \<Rightarrow> service_definition \<Rightarrow> field_diff list" where
  "service_diffs old cur =
     diff_field ''dockerImage'' (JStr (sd_dockerImage old)) (JStr (sd_dockerImage cur)) @
     diff_field ''dockerTag'' (JStr (sd_dockerTag old)) (JStr (sd_dockerTag cur)) @
     diff_field ''containerConfig'' (stringify_opt (map_option JObj (sd_containerConfig old)))
       (stringify_opt (map_option JObj (sd_containerConfig cur))) @
     diff_field ''configFiles'' (stringify_opt (Some (JArr (nullish (sd_configFiles old) []))))
       (stringify_opt (Some (JArr (nullish (sd_configFiles cur) [])))) @
     diff_field ''initCommands'' (stringify_opt (Some (JArr (nullish (sd_initCommands old) []))))
       (stringify_opt (Some (JArr (nullish (sd_initCommands cur) [])))) @
     diff_field ''routing'' (stringify_opt (Some (or_null (sd_routing old))))
       (stringify_opt (Some (or_null (sd_routing cur))))"

definition generateDiffs ::
  "string \<Rightarrow> service_definition list option \<Rightarrow> service_definition \<Rightarrow> field_diff list" where
  "generateDiffs name snapshot cur =
     (case snapshot of
        None \<Rightarrow> []
      | Some services \<Rightarrow>
          (case find (\<lambda>s. sd_serviceName s = name) services of
             None \<Rightarrow> [] | Some old \<Rightarrow> service_diffs old cur))"

definition buildReason :: "string \<Rightarrow> string \<Rightarrow> field_diff list \<Rightarrow> string" where
  "buildReason cur desired diffs =
     (if cur \<noteq> desired then ''image changed: '' @ cur @ '' -> '' @ desired
      else if diffs \<noteq> [] then ''configuration changed: '' @ join_str '', '' (map fd_field diffs)
      else ''definition hash changed'')"

section \<open>Conflicts\<close>

datatype plan_warning =
    PortConflict string json string string "string option"
  | NameConflict string string string "string option"
  | ResourceReference reference_warning
  | AdoptedMissing string string
  | AdoptedNotRunning string string string

text \<open>Published ports of foreign running containers; of two containers with one port the later counts.\<close>

definition used_ports :: "container_info list \<Rightarrow> (string \<times> string \<times> container_info) list" where
  "used_ports others = om_collect fst
     (concat (map (\<lambda>c. if ci_State c \<noteq> ''running'' then [] else
        concat (map (\<lambda>p. case pi_PublicPort p of
            None \<Rightarrow> []
          | Some n \<Rightarrow> if n = 0 then [] else [(string_of_int n @ ''/'' @ pi_Type p, c)]) (ci_Ports c))) others))"

definition used_names :: "container_info list \<Rightarrow> (string \<times> string \<times> container_info) list" where
  "used_names others = om_collect fst (concat (map (\<lambda>c. map (\<lambda>n. (strip_slash n, c)) (ci_Names c)) others))"

definition container_ports :: "service_definition \<Rightarrow> json list" where
  "container_ports s = (case config_field s ''ports'' of Some (JArr ps) \<Rightarrow> ps | _ \<Rightarrow> [])"

definition port_field :: "json \<Rightarrow> string \<Rightarrow> json option" where
  "port_field p k = (case p of JObj m \<Rightarrow> map_of m k | _ \<Rightarrow> None)"

definition internal_port :: "json \<Rightarrow> bool" where
  "internal_port p \<longleftrightarrow> port_field p ''exposeOnHost'' = Some (JBool False) \<or> port_field p ''hostPort'' = Some (JNum 0)"

definition port_key :: "json \<Rightarrow> string" where
  "port_key p = field_str ''hostPort'' p @ ''/'' @ field_str ''protocol'' p"

definition stack_label :: "container_info \<Rightarrow> string option" where
  "stack_label c = (case label c ''mini-infra.stack'' of Some s \<Rightarrow> if s = [] then None else Some s | None \<Rightarrow> None)"

definition container_name :: "container_info \<Rightarrow> string" where
  "container_name c = (case ci_Names c of n # _ \<Rightarrow> strip_slash n | [] \<Rightarrow> take 12 (ci_Id c))"

definition port_warning ::
  "(string \<times> string \<times> container_info) list \<Rightarrow> string \<Rightarrow> json \<Rightarrow> plan_warning list" where
  "port_warning used name p =
     (if internal_port p then [] else
        (case om_get used (port_key p) of
           None \<Rightarrow> []
         | Some (_, c) \<Rightarrow> [PortConflict name p (field_str ''protocol'' p) (container_name c) (stack_label c)]))"

definition name_warning ::
  "(string \<times> string \<times> container_info) list \<Rightarrow> string \<Rightarrow> string \<Rightarrow> plan_warning list" where
  "name_warning used project name =
     (let desired = project @ ''-'' @ name
      in case om_get used desired of
           None \<Rightarrow> []
         | Some (_, c) \<Rightarrow> [NameConflict name desired (take 12 (ci_Id c)) (stack_label c)])"

definition detectConflicts ::
  "(string \<times> service_definition) list \<Rightarrow> string \<Rightarrow> string \<Rightarrow> docker_lists \<Rightarrow> plan_warning list" where
  "detectConflicts defs sid project docker =
     (let others = filter (\<lambda>c. label c ''mini-infra.stack-id'' \<noteq> Some sid) (list_all_containers docker)
      in concat (map (\<lambda>(name, s). concat (map (port_warning (used_ports others) name) (container_ports s))) defs) @
         concat (map (\<lambda>(name, s). name_warning (used_names others) project name) defs))"

text \<open>The container a create action clears away first.\<close>

definition removeConflictingContainer :: "string \<Rightarrow> string \<Rightarrow> docker_lists \<Rightarrow> string option" where
  "removeConflictingContainer name sid docker =
     map_option ci_Id (find (\<lambda>c. name \<in> set (map strip_slash (ci_Names c)) \<and>
       label c ''mini-infra.stack-id'' \<noteq> Some sid) (list_all_containers docker))"

section \<open>Service actions\<close>

record service_action =
  sa_serviceName :: string
  sa_action :: plan_action
  sa_reason :: "string option"
  sa_diff :: "field_diff list option"
  sa_currentImage :: "string option"
  sa_desiredImage :: "string option"

definition no_op :: "string \<Rightarrow> service_action" where
  "no_op name = \<lparr>sa_serviceName = name, sa_action = ActNoOp, sa_reason = None, sa_diff = None,
     sa_currentImage = None, sa_desiredImage = None\<rparr>"

definition diff_option :: "field_diff list \<Rightarrow> field_diff list option" where
  "diff_option ds = (if ds \<noteq> [] then Some ds else None)"

text \<open>
  The row as a definition: the authored \<open>addons\<close> block only when it is an object.
\<close>

definition toServiceDefinition :: "service_definition \<Rightarrow> service_definition" where
  "toServiceDefinition s =
     s\<lparr>sd_addons := (case sd_addons s of
         Some (JObj m) \<Rightarrow> Some (JObj m) | Some (JArr xs) \<Rightarrow> Some (JArr xs) | _ \<Rightarrow> None)\<rparr>"

text \<open>An adopted container: warnings and the action from the snapshot's definition.\<close>

definition plan_adopted ::
  "(string \<Rightarrow> string) \<Rightarrow> (string \<Rightarrow> string \<Rightarrow> bool) \<Rightarrow> docker_lists \<Rightarrow> service_definition list option \<Rightarrow>
   string option \<Rightarrow> service_definition \<Rightarrow> service_action \<times> plan_warning list" where
  "plan_adopted sha le docker snapshot desired s =
     (let name = sd_serviceName s in
      if \<not> json_truthy (sd_adoptedContainer s) then (no_op name, [AdoptedMissing name ''unknown''])
      else
        (let cname = field_str ''containerName'' (the (sd_adoptedContainer s));
             image = Some (''adopted:'' @ cname);
             warnings = (case find (\<lambda>c. cname \<in> set (map strip_slash (ci_Names c))) (list_by_name docker cname) of
                 None \<Rightarrow> [AdoptedMissing name cname]
               | Some c \<Rightarrow> if ci_State c \<noteq> ''running'' then [AdoptedNotRunning name cname (ci_State c)] else [])
         in case Option.bind snapshot (find (\<lambda>x. sd_serviceName x = name)) of
              None \<Rightarrow> ((no_op name)\<lparr>sa_action := ActCreate, sa_reason := Some ''routing not configured'',
                sa_desiredImage := image\<rparr>, warnings)
            | Some old \<Rightarrow>
                if Some (computeDefinitionHash sha le old None) = desired then (no_op name, warnings)
                else ((no_op name)\<lparr>sa_action := ActRecreate, sa_reason := Some ''routing configuration changed'',
                  sa_diff := diff_option (generateDiffs name snapshot (toServiceDefinition s)),
                  sa_desiredImage := image\<rparr>, warnings)))"

text \<open>A service the stack runs: what its container is compared with.\<close>

definition plan_container ::
  "service_definition list option \<Rightarrow> (string \<times> container_info) list \<Rightarrow> string option \<Rightarrow> service_definition \<Rightarrow>
   service_action" where
  "plan_container snapshot cmap desired s =
     (let name = sd_serviceName s;
          image = sd_dockerImage s @ '':'' @ sd_dockerTag s
      in case om_get cmap name of
           None \<Rightarrow> (no_op name)\<lparr>sa_action := ActCreate, sa_reason := Some ''service not deployed'', sa_desiredImage := Some image\<rparr>
         | Some c \<Rightarrow>
             (let known = (no_op name)\<lparr>sa_currentImage := Some (ci_Image c), sa_desiredImage := Some image\<rparr> in
              if ci_State c \<noteq> ''running'' then
                known\<lparr>sa_action := ActRecreate, sa_reason := Some ''container not running''\<rparr>
              else if label c ''mini-infra.definition-hash'' = desired then known
              else
                (let diffs = generateDiffs name snapshot (toServiceDefinition s) in
                 known\<lparr>sa_action := ActRecreate, sa_reason := Some (buildReason (ci_Image c) image diffs),
                   sa_diff := diff_option diffs\<rparr>)))"

definition plan_service ::
  "(string \<Rightarrow> string) \<Rightarrow> (string \<Rightarrow> string \<Rightarrow> bool) \<Rightarrow> docker_lists \<Rightarrow> service_definition list option \<Rightarrow>
   (string \<times> container_info) list \<Rightarrow> (string \<times> string) list \<Rightarrow> service_definition \<Rightarrow>
   service_action \<times> plan_warning list" where
  "plan_service sha le docker snapshot cmap hashes s =
     (let desired = om_get hashes (sd_serviceName s) in
      if sd_serviceType s = ''Pool'' \<or> sd_serviceType s = ''JobPool'' then (no_op (sd_serviceName s), [])
      else if sd_serviceType s = ''AdoptedWeb'' then plan_adopted sha le docker snapshot desired s
      else (plan_container snapshot cmap desired s, []))"

text \<open>A rendered sidecar, which has no row.\<close>

definition plan_synthetic ::
  "(string \<times> container_info) list \<Rightarrow> (string \<times> string) list \<Rightarrow> string \<times> service_definition \<Rightarrow> service_action list" where
  "plan_synthetic cmap hashes p =
     (let name = fst p; image = sd_dockerImage (snd p) @ '':'' @ sd_dockerTag (snd p);
          desired = om_get hashes name
      in if \<not> truthy desired then [] else
         (case om_get cmap name of
            None \<Rightarrow> [(no_op name)\<lparr>sa_action := ActCreate, sa_reason := Some ''addon-derived sidecar not deployed'',
              sa_desiredImage := Some image\<rparr>]
          | Some c \<Rightarrow>
              (let known = (no_op name)\<lparr>sa_currentImage := Some (ci_Image c), sa_desiredImage := Some image\<rparr> in
               if ci_State c \<noteq> ''running'' then
                 [known\<lparr>sa_action := ActRecreate, sa_reason := Some ''sidecar container not running''\<rparr>]
               else if label c ''mini-infra.definition-hash'' = desired then [known]
               else [known\<lparr>sa_action := ActRecreate, sa_reason := Some ''addon configuration changed''\<rparr>])))"

definition plan_orphan :: "string \<times> container_info \<Rightarrow> service_action" where
  "plan_orphan p = (no_op (fst p))\<lparr>sa_action := ActRemove, sa_reason := Some ''service removed from definition'',
     sa_currentImage := Some (ci_Image (snd p))\<rparr>"

text \<open>The containers of the stack without the instances of its pools.\<close>

definition stack_containers :: "docker_lists \<Rightarrow> string \<Rightarrow> container_info list" where
  "stack_containers docker sid =
     filter (\<lambda>c. label c ''mini-infra.pool-instance'' \<noteq> Some ''true'') (list_by_stack docker sid)"

definition plan_actions ::
  "(string \<Rightarrow> string) \<Rightarrow> (string \<Rightarrow> string \<Rightarrow> bool) \<Rightarrow> docker_lists \<Rightarrow> string \<Rightarrow> service_definition list option \<Rightarrow>
   service_definition list \<Rightarrow> (string \<times> service_definition) list \<Rightarrow> (string \<times> string) list \<Rightarrow> service_action list" where
  "plan_actions sha le docker sid snapshot rows resolved hashes =
     (let cmap = buildContainerMap (stack_containers docker sid);
          authored = map sd_serviceName rows
      in map (\<lambda>s. fst (plan_service sha le docker snapshot cmap hashes s)) rows @
         concat (map (plan_synthetic cmap hashes) (filter (\<lambda>p. fst p \<notin> set authored) resolved)) @
         map plan_orphan (filter (\<lambda>p. fst p \<notin> set authored \<union> fst ` set resolved) cmap))"

section \<open>The whole plan\<close>

datatype version_relation = Behind | CurrentVersion | Ahead | UnknownVersion

definition computeTemplateVersionRelation :: "int option \<Rightarrow> int option \<Rightarrow> version_relation" where
  "computeTemplateVersionRelation installed cur =
     (case (installed, cur) of
        (Some i, Some c) \<Rightarrow> if c > i then Behind else if c < i then Ahead else CurrentVersion
      | _ \<Rightarrow> UnknownVersion)"

text \<open>\<open>values[def.name] ?? def.default\<close> for every declared parameter.\<close>

definition mergeParameterValues ::
  "(string \<times> json option) list \<Rightarrow> (string \<times> json) list \<Rightarrow> (string \<times> json option) list" where
  "mergeParameterValues defs values =
     foldl (\<lambda>m (name, d). om_set name (case om_get values name of
         None \<Rightarrow> d | Some JNull \<Rightarrow> d | Some v \<Rightarrow> Some v) m) [] defs"

record 'n stack_plan =
  sp_actions :: "service_action list"
  sp_resourceActions :: "resource_action list"
  sp_networkActions :: "'n list"
  sp_hasChanges :: bool
  sp_templateUpdateAvailable :: bool
  sp_templateVersionRelation :: version_relation
  sp_warnings :: "plan_warning list option"

record stack_row =
  st_id :: string
  st_name :: string
  st_environmentName :: "string option"
  st_services :: "service_definition list"
  st_lastAppliedSnapshot :: "service_definition list option"
  st_templateVersion :: "int option"
  st_currentVersion :: "int option"
  st_resources :: resource_definitions

text \<open>The routing of a definition as far as references go.\<close>

definition routing_of :: "service_definition \<Rightarrow> service_routing option" where
  "routing_of s =
     (case sd_routing s of
        Some (JObj m) \<Rightarrow>
          (let str = (\<lambda>k. case map_of m k of Some (JStr v) \<Rightarrow> Some v | _ \<Rightarrow> None)
           in Some \<lparr>rt_tlsCertificate = str ''tlsCertificate'', rt_dnsRecord = str ''dnsRecord'',
                rt_tunnelIngress = str ''tunnelIngress''\<rparr>)
      | _ \<Rightarrow> None)"

text \<open>
  \<open>compute\<close>, with the rows of \<open>StackResource\<close> when a resource reconciler is configured and the
  outcome of the network reconciler, whose failure only empties the list of network actions.
\<close>

definition compute_plan ::
  "(string \<Rightarrow> string) \<Rightarrow> (string \<Rightarrow> string \<Rightarrow> bool) \<Rightarrow> docker_lists \<Rightarrow> stack_row \<Rightarrow>
   (string \<times> service_definition) list \<Rightarrow> (string \<times> string) list \<Rightarrow> stack_resource list option \<Rightarrow>
   string + 'n list \<Rightarrow> 'n stack_plan" where
  "compute_plan sha le docker st resolved hashes resources network =
     (let project = (case st_environmentName st of Some e \<Rightarrow> e @ ''-'' @ st_name st | None \<Rightarrow> st_name st);
          cmap = buildContainerMap (stack_containers docker (st_id st));
          actions = plan_actions sha le docker (st_id st) (st_lastAppliedSnapshot st) (st_services st) resolved hashes;
          adopted = concat (map (\<lambda>s. snd (plan_service sha le docker (st_lastAppliedSnapshot st) cmap hashes s)) (st_services st));
          resourceActions = (case resources of None \<Rightarrow> [] | Some rows \<Rightarrow> planResources (st_resources st) rows);
          references = (case resources of None \<Rightarrow> []
            | Some _ \<Rightarrow> validateResourceReferences (map (\<lambda>(n, s). (sd_serviceName s, routing_of s)) resolved) (st_resources st));
          networkActions = (case network of Inl _ \<Rightarrow> [] | Inr items \<Rightarrow> items);
          relation = computeTemplateVersionRelation (st_templateVersion st) (st_currentVersion st);
          warnings = detectConflicts resolved (st_id st) project docker @ adopted @ map ResourceReference references
      in \<lparr>sp_actions = actions, sp_resourceActions = resourceActions, sp_networkActions = networkActions,
          sp_hasChanges = (list_ex (\<lambda>a. sa_action a \<noteq> ActNoOp) actions \<or>
            list_ex (\<lambda>a. ra_action a \<noteq> ActNoOp) resourceActions \<or> networkActions \<noteq> []),
          sp_templateUpdateAvailable = (relation = Behind), sp_templateVersionRelation = relation,
          sp_warnings = (if warnings \<noteq> [] then Some warnings else None)\<rparr>)"

section \<open>One action for each service\<close>

lemma service_name: "sa_serviceName (fst (plan_service sha le docker snap cmap hashes s)) = sd_serviceName s"
  by (simp add: plan_service_def plan_adopted_def plan_container_def no_op_def Let_def split: option.split)

lemma synthetic_names:
  "map sa_serviceName (plan_synthetic cmap hashes p) = (if truthy (om_get hashes (fst p)) then [fst p] else [])"
  by (simp add: plan_synthetic_def no_op_def Let_def split: option.split)

lemma orphan_name: "sa_serviceName (plan_orphan p) = fst p"
  by (simp add: plan_orphan_def no_op_def)

lemma concat_synthetics:
  "map sa_serviceName (concat (map (plan_synthetic cmap hashes) ps)) =
   filter (\<lambda>n. truthy (om_get hashes n)) (map fst ps)"
  by (induction ps) (auto simp: synthetic_names)

text \<open>The plan has exactly one action per service: one for each row of the stack in order, one for each
  rendered sidecar with a hash, one for each container of the stack no definition stands for. With
  distinct service names no name occurs twice.\<close>

theorem plan_one_action_each:
  assumes "distinct (map sd_serviceName rows)" and "om_wf resolved"
  shows "map sa_serviceName (plan_actions sha le docker sid snap rows resolved hashes) =
      map sd_serviceName rows @
      filter (\<lambda>n. n \<notin> sd_serviceName ` set rows \<and> truthy (om_get hashes n)) (map fst resolved) @
      filter (\<lambda>n. n \<notin> sd_serviceName ` set rows \<and> n \<notin> fst ` set resolved)
        (map fst (buildContainerMap (stack_containers docker sid))) \<and>
    distinct (map sa_serviceName (plan_actions sha le docker sid snap rows resolved hashes))"
proof -
  let ?cmap = "buildContainerMap (stack_containers docker sid)"
  have "om_wf ?cmap" by (simp add: buildContainerMap_def)
  then have d: "distinct (map fst ?cmap)" "distinct (map fst resolved)"
    using assms(2) by (simp_all add: om_wf_def)
  have names: "map sa_serviceName (plan_actions sha le docker sid snap rows resolved hashes) =
      map sd_serviceName rows @
      filter (\<lambda>n. n \<notin> sd_serviceName ` set rows \<and> truthy (om_get hashes n)) (map fst resolved) @
      filter (\<lambda>n. n \<notin> sd_serviceName ` set rows \<and> n \<notin> fst ` set resolved) (map fst ?cmap)"
    by (simp add: plan_actions_def Let_def service_name comp_def concat_synthetics orphan_name filter_map
        conj_commute)
  have "distinct (map sd_serviceName rows @
      filter (\<lambda>n. n \<notin> sd_serviceName ` set rows \<and> truthy (om_get hashes n)) (map fst resolved) @
      filter (\<lambda>n. n \<notin> sd_serviceName ` set rows \<and> n \<notin> fst ` set resolved) (map fst ?cmap))"
    using assms(1) d by auto
  with names show ?thesis by simp
qed

lemma build_map_lookup:
  "om_get (buildContainerMap cs) n = Some c \<Longrightarrow> c \<in> set cs \<and> label c ''mini-infra.service'' = Some n \<and> n \<noteq> []"
  by (auto simp: buildContainerMap_def truthy_def dest!: om_collect_SomeD split: option.splits)

lemma build_map_keys:
  "fst ` set (buildContainerMap cs) = {n. n \<noteq> [] \<and> (\<exists>c \<in> set cs. label c ''mini-infra.service'' = Some n)}"
  unfolding buildContainerMap_def om_collect_keys
  by (force simp: truthy_def image_iff split: option.splits)

text \<open>C20: Only orphans are removed, and all of them: the services the plan removes are exactly those that
  some container labelled with the stack and not an instance of a pool names, and that neither a row
  of the stack nor a rendered definition bears.\<close>

theorem plan_removes_exactly_orphans:
  "sa_serviceName ` {a \<in> set (plan_actions sha le docker sid snap rows resolved hashes). sa_action a = ActRemove} =
   {n. n \<noteq> [] \<and> n \<notin> sd_serviceName ` set rows \<and> n \<notin> fst ` set resolved \<and>
     (\<exists>c \<in> set (list_by_stack docker sid). label c ''mini-infra.service'' = Some n \<and>
        label c ''mini-infra.pool-instance'' \<noteq> Some ''true'')}"
proof -
  have own: "sa_action (fst (plan_service sha le docker snap cmap hashes s)) \<noteq> ActRemove" for cmap s
    by (simp add: plan_service_def plan_adopted_def plan_container_def no_op_def Let_def split: option.split)
  have syn: "a \<in> set (plan_synthetic cmap hashes p) \<Longrightarrow> sa_action a \<noteq> ActRemove" for cmap p a
    by (auto simp: plan_synthetic_def no_op_def Let_def split: option.splits if_splits)
  have orphan: "sa_action (plan_orphan p) = ActRemove" for p by (simp add: plan_orphan_def)
  let ?cmap = "buildContainerMap (stack_containers docker sid)"
  have "{a \<in> set (plan_actions sha le docker sid snap rows resolved hashes). sa_action a = ActRemove} =
      plan_orphan ` {p \<in> set ?cmap. fst p \<notin> sd_serviceName ` set rows \<and> fst p \<notin> fst ` set resolved}"
    using own syn orphan by (auto simp: plan_actions_def Let_def)
  then have "sa_serviceName ` {a \<in> set (plan_actions sha le docker sid snap rows resolved hashes). sa_action a = ActRemove} =
      {n \<in> fst ` set ?cmap. n \<notin> sd_serviceName ` set rows \<and> n \<notin> fst ` set resolved}"
    by (auto simp: image_image orphan_name)
  then show ?thesis unfolding build_map_keys by (auto simp: stack_containers_def)
qed

section \<open>Nothing to do\<close>

text \<open>When a row, and a rendered sidecar, need no work.\<close>

definition runs_as :: "(string \<times> container_info) list \<Rightarrow> string option \<Rightarrow> string \<Rightarrow> bool" where
  "runs_as cmap desired name \<longleftrightarrow>
     (\<exists>c. om_get cmap name = Some c \<and> ci_State c = ''running'' \<and> label c ''mini-infra.definition-hash'' = desired)"

definition row_settled ::
  "(string \<Rightarrow> string) \<Rightarrow> (string \<Rightarrow> string \<Rightarrow> bool) \<Rightarrow> service_definition list option \<Rightarrow>
   (string \<times> container_info) list \<Rightarrow> string option \<Rightarrow> service_definition \<Rightarrow> bool" where
  "row_settled sha le snap cmap desired s \<longleftrightarrow>
     (if sd_serviceType s \<in> {''Pool'', ''JobPool''} then True
      else if sd_serviceType s = ''AdoptedWeb'' then
        \<not> json_truthy (sd_adoptedContainer s) \<or>
        (\<exists>old. Option.bind snap (find (\<lambda>x. sd_serviceName x = sd_serviceName s)) = Some old \<and>
          Some (computeDefinitionHash sha le old None) = desired)
      else runs_as cmap desired (sd_serviceName s))"

lemma row_no_op:
  "sa_action (fst (plan_service sha le docker snap cmap hashes s)) = ActNoOp \<longleftrightarrow>
   row_settled sha le snap cmap (om_get hashes (sd_serviceName s)) s"
  by (auto simp: plan_service_def plan_adopted_def plan_container_def no_op_def Let_def row_settled_def
      runs_as_def split: option.splits)

lemma synthetic_no_op:
  "list_all (\<lambda>a. sa_action a = ActNoOp) (plan_synthetic cmap hashes p) \<longleftrightarrow>
   (truthy (om_get hashes (fst p)) \<longrightarrow> runs_as cmap (om_get hashes (fst p)) (fst p))"
  by (auto simp: plan_synthetic_def no_op_def Let_def runs_as_def split: option.splits)

lemma ball_concat_filter:
  "(\<forall>a \<in> set (concat (map f (filter P xs))). Q a) \<longleftrightarrow> (\<forall>p \<in> set xs. P p \<longrightarrow> list_all Q (f p))"
  by (auto simp: list_all_iff)

lemma ball_map_filter: "(\<forall>a \<in> set (map f (filter P xs)). Q a) \<longleftrightarrow> (\<forall>p \<in> set xs. P p \<longrightarrow> Q (f p))"
  by auto

text \<open>C39: A plan reports no changes exactly when there is nothing to do: every service the stack runs has a
  running container labelled with the desired hash, every adopted one a snapshot of that hash, every
  rendered sidecar its container, no container is an orphan, every resource is in sync and the
  network reconciler found no drift.\<close>

theorem plan_no_changes_iff:
  "\<not> sp_hasChanges (compute_plan sha le docker st resolved hashes resources network) \<longleftrightarrow>
   (let cmap = buildContainerMap (stack_containers docker (st_id st)) in
     list_all (\<lambda>s. row_settled sha le (st_lastAppliedSnapshot st) cmap (om_get hashes (sd_serviceName s)) s) (st_services st) \<and>
     list_all (\<lambda>n. n \<in> sd_serviceName ` set (st_services st) \<or> \<not> truthy (om_get hashes n) \<or>
       runs_as cmap (om_get hashes n) n) (map fst resolved) \<and>
     list_all (\<lambda>n. n \<in> sd_serviceName ` set (st_services st) \<or> n \<in> fst ` set resolved) (map fst cmap) \<and>
     list_all (\<lambda>a. ra_action a = ActNoOp) (case resources of None \<Rightarrow> [] | Some rows \<Rightarrow> planResources (st_resources st) rows) \<and>
     (case network of Inl _ \<Rightarrow> True | Inr items \<Rightarrow> items = []))"
proof -
  let ?cmap = "buildContainerMap (stack_containers docker (st_id st))"
  have orphan: "sa_action (plan_orphan p) \<noteq> ActNoOp" for p by (simp add: plan_orphan_def)
  have "(\<forall>a \<in> set (plan_actions sha le docker (st_id st) (st_lastAppliedSnapshot st) (st_services st) resolved hashes).
        sa_action a = ActNoOp) \<longleftrightarrow>
     list_all (\<lambda>s. row_settled sha le (st_lastAppliedSnapshot st) ?cmap (om_get hashes (sd_serviceName s)) s) (st_services st) \<and>
     list_all (\<lambda>n. n \<in> sd_serviceName ` set (st_services st) \<or> \<not> truthy (om_get hashes n) \<or>
       runs_as ?cmap (om_get hashes n) n) (map fst resolved) \<and>
     list_all (\<lambda>n. n \<in> sd_serviceName ` set (st_services st) \<or> n \<in> fst ` set resolved) (map fst ?cmap)"
    (is "?all \<longleftrightarrow> ?rows \<and> ?syn \<and> ?orph")
  proof -
    have "?all \<longleftrightarrow>
        (\<forall>s \<in> set (st_services st). sa_action (fst (plan_service sha le docker (st_lastAppliedSnapshot st) ?cmap hashes s)) = ActNoOp) \<and>
        (\<forall>p \<in> set resolved. fst p \<notin> sd_serviceName ` set (st_services st) \<longrightarrow>
          list_all (\<lambda>a. sa_action a = ActNoOp) (plan_synthetic ?cmap hashes p)) \<and>
        (\<forall>p \<in> set ?cmap. fst p \<notin> sd_serviceName ` set (st_services st) \<union> fst ` set resolved \<longrightarrow>
          sa_action (plan_orphan p) = ActNoOp)"
      unfolding plan_actions_def Let_def set_append ball_Un ball_concat_filter ball_map_filter by simp
    then show ?thesis unfolding row_no_op synthetic_no_op by (simp add: orphan list_all_iff) blast
  qed
  then show ?thesis
    by (auto simp: compute_plan_def Let_def list_ex_iff list_all_iff split: sum.splits option.splits)
qed

definition plan_example_container :: "string \<Rightarrow> string \<Rightarrow> string \<Rightarrow> container_info" where
  "plan_example_container name service hash =
     \<lparr>ci_Id = ''0123456789abcdef'', ci_Names = [''/'' @ name], ci_Image = ''nginx:1.27'', ci_ImageID = ''sha256:1'', ci_State = ''running'',
      ci_Labels = [(''mini-infra.service'', service), (''mini-infra.definition-hash'', hash)], ci_Ports = []\<rparr>"

lemma plan_one_action_each_witness:
  "map sa_serviceName (plan_actions id (\<le>)
     \<lparr>list_all_containers = [], list_by_stack = (\<lambda>s. [plan_example_container ''p-old'' ''old'' ''h'']), list_by_name = (\<lambda>n. [])\<rparr>
     ''s1'' None [hash_example] [] []) = [''web'', ''old'']"
  using plan_one_action_each [of "[hash_example]" "[]" id "(\<le>)"
      "\<lparr>list_all_containers = [], list_by_stack = (\<lambda>s. [plan_example_container ''p-old'' ''old'' ''h'']), list_by_name = (\<lambda>n. [])\<rparr>"
      "''s1''" None "[]"]
  by (simp add: hash_example_def stack_containers_def plan_example_container_def label_def buildContainerMap_def
      om_collect_def)

section \<open>Differences\<close>

lemma print_json_inj: "print_json a = print_json b \<longleftrightarrow> a = b"
  using print_inj(1) [of a "[]" b "[]"] by auto

lemma stringify_inj: "stringify_opt a = stringify_opt b \<longleftrightarrow> a = b"
  by (cases a; cases b) (auto simp: stringify_opt_def print_json_inj)

text \<open>The list of differences is empty exactly when the snapshot has no such service or agrees with the
  definition in image, tag, container configuration, files, init commands and routing, to the order
  of their keys; addons, the adopted container and the job pool configuration are never looked at.\<close>

theorem plan_diffs_exact:
  "generateDiffs name (Some services) cur = [] \<longleftrightarrow>
   (case find (\<lambda>s. sd_serviceName s = name) services of
      None \<Rightarrow> True
    | Some old \<Rightarrow> sd_dockerImage old = sd_dockerImage cur \<and> sd_dockerTag old = sd_dockerTag cur \<and>
        sd_containerConfig old = sd_containerConfig cur \<and>
        nullish (sd_configFiles old) [] = nullish (sd_configFiles cur) [] \<and>
        nullish (sd_initCommands old) [] = nullish (sd_initCommands cur) [] \<and>
        or_null (sd_routing old) = or_null (sd_routing cur))"
proof -
  have "map_option JObj a = map_option JObj b \<longleftrightarrow> a = b" for a b by (cases a; cases b) auto
  then show ?thesis
    by (auto simp: generateDiffs_def service_diffs_def diff_field_def stringify_inj split: option.split)
qed

section \<open>Conflicts\<close>

lemma used_ports_lookup:
  "om_get (used_ports others) k = Some p \<Longrightarrow>
   fst p = k \<and> snd p \<in> set others \<and> ci_State (snd p) = ''running'' \<and>
   (\<exists>q \<in> set (ci_Ports (snd p)). \<exists>n. pi_PublicPort q = Some n \<and> n \<noteq> 0 \<and> k = string_of_int n @ ''/'' @ pi_Type q)"
  unfolding used_ports_def
  by (drule om_collect_SomeD) (auto split: if_splits option.splits, metis)

lemma used_ports_found:
  assumes "c \<in> set others" and "ci_State c = ''running''" and "q \<in> set (ci_Ports c)"
    and "pi_PublicPort q = Some n" and "n \<noteq> 0"
  shows "om_get (used_ports others) (string_of_int n @ ''/'' @ pi_Type q) \<noteq> None"
proof -
  have "(string_of_int n @ ''/'' @ pi_Type q, c) \<in>
      set (concat (map (\<lambda>p. case pi_PublicPort p of None \<Rightarrow> []
        | Some n \<Rightarrow> if n = 0 then [] else [(string_of_int n @ ''/'' @ pi_Type p, c)]) (ci_Ports c)))"
    using assms(3-5) by force
  with assms(1,2) show ?thesis unfolding used_ports_def om_collect_None by (force simp: image_iff)
qed

text \<open>A port conflict is reported for a port of a resolved service exactly when the port is published
  on the host and a running container outside the stack publishes the same port and protocol.\<close>

theorem plan_port_conflicts_exact:
  "(\<exists>c l. PortConflict name p (field_str ''protocol'' p) c l \<in> set (detectConflicts defs sid project docker)) \<longleftrightarrow>
   (\<exists>s. (name, s) \<in> set defs \<and> p \<in> set (container_ports s)) \<and> \<not> internal_port p \<and>
   (\<exists>c \<in> set (list_all_containers docker). label c ''mini-infra.stack-id'' \<noteq> Some sid \<and> ci_State c = ''running'' \<and>
     (\<exists>q \<in> set (ci_Ports c). \<exists>n. pi_PublicPort q = Some n \<and> n \<noteq> 0 \<and> port_key p = string_of_int n @ ''/'' @ pi_Type q))"
proof -
  let ?others = "filter (\<lambda>c. label c ''mini-infra.stack-id'' \<noteq> Some sid) (list_all_containers docker)"
  have names: "PortConflict a b c d e \<notin> set (name_warning u project n)" for a b c d e u n
    by (auto simp: name_warning_def Let_def split: option.splits)
  have ports: "PortConflict name p (field_str ''protocol'' p) c l \<in> set (port_warning u n r) \<longleftrightarrow>
      n = name \<and> r = p \<and> \<not> internal_port p \<and>
      (\<exists>q. om_get u (port_key p) = Some q \<and> c = container_name (snd q) \<and> l = stack_label (snd q))" for u n r c l
    by (cases "om_get u (port_key r)") (auto simp: port_warning_def split_def)
  have main: "(\<exists>c l. PortConflict name p (field_str ''protocol'' p) c l \<in> set (detectConflicts defs sid project docker)) \<longleftrightarrow>
      (\<exists>s. (name, s) \<in> set defs \<and> p \<in> set (container_ports s)) \<and> \<not> internal_port p \<and>
      (\<exists>q. om_get (used_ports ?others) (port_key p) = Some q)"
  proof -
    have "PortConflict name p (field_str ''protocol'' p) c l \<in> set (detectConflicts defs sid project docker) \<longleftrightarrow>
        (\<exists>(n, s) \<in> set defs. \<exists>r \<in> set (container_ports s).
          PortConflict name p (field_str ''protocol'' p) c l \<in> set (port_warning (used_ports ?others) n r))" for c l
      by (simp add: detectConflicts_def Let_def names split_def)
    then show ?thesis unfolding ports by blast
  qed
  have found: "(\<exists>q. om_get (used_ports ?others) (port_key p) = Some q) \<longleftrightarrow>
      (\<exists>c \<in> set ?others. ci_State c = ''running'' \<and>
        (\<exists>q \<in> set (ci_Ports c). \<exists>n. pi_PublicPort q = Some n \<and> n \<noteq> 0 \<and> port_key p = string_of_int n @ ''/'' @ pi_Type q))"
  proof
    assume "\<exists>q. om_get (used_ports ?others) (port_key p) = Some q"
    then obtain q where "om_get (used_ports ?others) (port_key p) = Some q" ..
    from used_ports_lookup [OF this] show "\<exists>c \<in> set ?others. ci_State c = ''running'' \<and>
        (\<exists>q \<in> set (ci_Ports c). \<exists>n. pi_PublicPort q = Some n \<and> n \<noteq> 0 \<and> port_key p = string_of_int n @ ''/'' @ pi_Type q)"
      by blast
  next
    assume "\<exists>c \<in> set ?others. ci_State c = ''running'' \<and>
        (\<exists>q \<in> set (ci_Ports c). \<exists>n. pi_PublicPort q = Some n \<and> n \<noteq> 0 \<and> port_key p = string_of_int n @ ''/'' @ pi_Type q)"
    then obtain c q n where "c \<in> set ?others" "ci_State c = ''running''" "q \<in> set (ci_Ports c)"
      "pi_PublicPort q = Some n" "n \<noteq> 0" "port_key p = string_of_int n @ ''/'' @ pi_Type q" by blast
    with used_ports_found [OF this(1-5)] show "\<exists>q. om_get (used_ports ?others) (port_key p) = Some q" by simp
  qed
  from main found show ?thesis by (simp add: Bex_def)
qed

text \<open>What an apply clears away it has announced, for a stack in an environment: where applying a resolved
  service removes a foreign container that has the name of the service's container, the plan carries
  the name conflict.\<close>

theorem plan_announces_clearing:
  assumes "st_environmentName st = Some e" and "(n, s) \<in> set resolved"
    and "removeConflictingContainer (getStackProjectName (st_name st) (Some e) @ ''-'' @ n) (st_id st) docker = Some i"
  shows "\<exists>j l. NameConflict n (getStackProjectName (st_name st) (Some e) @ ''-'' @ n) j l \<in>
    set (nullish (sp_warnings (compute_plan sha le docker st resolved hashes resources network)) [])"
proof -
  let ?project = "getStackProjectName (st_name st) (Some e)"
  let ?others = "filter (\<lambda>c. label c ''mini-infra.stack-id'' \<noteq> Some (st_id st)) (list_all_containers docker)"
  from assms(3) obtain c where "find (\<lambda>c. ?project @ ''-'' @ n \<in> set (map strip_slash (ci_Names c)) \<and>
       label c ''mini-infra.stack-id'' \<noteq> Some (st_id st)) (list_all_containers docker) = Some c"
    by (auto simp: removeConflictingContainer_def)
  from find_SomeD [OF this] have "c \<in> set ?others" "?project @ ''-'' @ n \<in> strip_slash ` set (ci_Names c)" by auto
  then have "?project @ ''-'' @ n \<in> fst ` set (concat (map (\<lambda>c. map (\<lambda>n. (strip_slash n, c)) (ci_Names c)) ?others))"
    by force
  then have "om_get (used_names ?others) (?project @ ''-'' @ n) \<noteq> None"
    unfolding used_names_def om_collect_None by simp
  then obtain q where "om_get (used_names ?others) (?project @ ''-'' @ n) = Some q" by blast
  then have "NameConflict n (?project @ ''-'' @ n) (take 12 (ci_Id (snd q))) (stack_label (snd q)) \<in>
      set (name_warning (used_names ?others) ?project n)"
    by (cases q) (simp add: name_warning_def)
  with assms(2) have "NameConflict n (?project @ ''-'' @ n) (take 12 (ci_Id (snd q))) (stack_label (snd q)) \<in>
      set (detectConflicts resolved (st_id st) ?project docker)"
    unfolding detectConflicts_def Let_def by (force simp del: append_assoc)
  with assms(1) have "NameConflict n (?project @ ''-'' @ n) (take 12 (ci_Id (snd q))) (stack_label (snd q)) \<in>
      set (nullish (sp_warnings (compute_plan sha le docker st resolved hashes resources network)) [])"
    by (auto simp: compute_plan_def Let_def getStackProjectName_def)
  then show ?thesis by blast
qed

definition host_stack :: stack_row where
  "host_stack = \<lparr>st_id = ''s1'', st_name = ''monitoring'', st_environmentName = None, st_services = [hash_example],
     st_lastAppliedSnapshot = None, st_templateVersion = None, st_currentVersion = None,
     st_resources = \<lparr>rd_tlsCertificates = [], rd_dnsRecords = [], rd_tunnelIngress = []\<rparr>\<rparr>"

definition host_docker :: docker_lists where
  "host_docker = \<lparr>list_all_containers = [plan_example_container ''mini-infra-monitoring-web'' ''x'' ''h''],
     list_by_stack = (\<lambda>s. []), list_by_name = (\<lambda>n. [])\<rparr>"

lemma plan_no_changes_iff_witness:
  "\<not> sp_hasChanges (compute_plan id (\<le>)
     (host_docker\<lparr>list_by_stack := (\<lambda>s. [plan_example_container ''mini-infra-monitoring-web'' ''web'' ''h''])\<rparr>)
     host_stack [(''web'', hash_example)] [(''web'', ''h'')] None (Inr ([] :: nat list)))"
  unfolding plan_no_changes_iff
  by (simp add: host_docker_def host_stack_def stack_containers_def plan_example_container_def label_def
      buildContainerMap_def om_collect_def hash_example_def row_settled_def runs_as_def Let_def)

lemma plan_announces_clearing_witness:
  "\<exists>j l. NameConflict ''web'' ''prod-monitoring-web'' j l \<in> set (nullish (sp_warnings
     (compute_plan id (\<le>) (host_docker\<lparr>list_all_containers := [plan_example_container ''prod-monitoring-web'' ''x'' ''h'']\<rparr>)
       (host_stack\<lparr>st_environmentName := Some ''prod''\<rparr>) [(''web'', hash_example)] [] None (Inr ([] :: nat list)))) [])"
  using plan_announces_clearing [of "host_stack\<lparr>st_environmentName := Some ''prod''\<rparr>" "''prod''" "''web''" hash_example
      "[(''web'', hash_example)]"
      "host_docker\<lparr>list_all_containers := [plan_example_container ''prod-monitoring-web'' ''x'' ''h'']\<rparr>"
      "''0123456789abcdef''" id "(\<le>)" "[]" None "Inr ([] :: nat list)"]
  by (simp add: host_stack_def removeConflictingContainer_def getStackProjectName_def host_docker_def
      plan_example_container_def label_def)

text \<open>For a stack of the host it has not: there is a host stack and a foreign container that applying the
  stack's service removes while the plan carries no warning at all, as the plan looks for the names
  without the prefix \<open>mini-infra-\<close> that the containers of host stacks bear.\<close>

theorem plan_misses_host_conflict:
  "sp_warnings (compute_plan id (\<le>) host_docker host_stack [(''web'', hash_example)] [] None (Inr [])) = None \<and>
   removeConflictingContainer (getStackProjectName (st_name host_stack) (st_environmentName host_stack) @ ''-web'')
     (st_id host_stack) host_docker = Some ''0123456789abcdef''"
  by code_simp

end
