(* ===== verification/ServiceResolution.thy ===== *)
theory ServiceResolution
  imports AddonExpansion PlanComputer
begin

text \<open>
  \<open>resolveServiceConfigs\<close> of \<open>stacks/utils.ts\<close>, which a plan and an apply both call: the rows become
  definitions, the addons are expanded, the templates resolved, and every rendered service hashed.
\<close>

record resolve_options =
  ro_instance :: "string option"
  ro_connectedServices :: connected_services
  ro_dryRun :: bool

text \<open>\<open>{}\<close>, what an update passes, and the options of a plan.\<close>

definition no_options :: resolve_options where
  "no_options = \<lparr>ro_instance = None, ro_connectedServices = ServicesUndefined, ro_dryRun = False\<rparr>"

definition plan_options :: resolve_options where
  "plan_options = no_options\<lparr>ro_dryRun := True\<rparr>"

definition expansion_context_of :: "template_context \<Rightarrow> resolve_options \<Rightarrow> expansion_context" where
  "expansion_context_of c opt =
     \<lparr>ec_stackId = nullish (tx_id c) [], ec_stackName = tx_name c,
      ec_environment = (case tx_environment c of
          Some e \<Rightarrow> (te_id e, te_name e, te_networkType e) | None \<Rightarrow> ([], [], ''local'')),
      ec_instance = ro_instance opt, ec_connectedServices = ro_connectedServices opt, ec_dryRun = ro_dryRun opt\<rparr>"

record resolved_services =
  rv_configs :: "(string \<times> json list) list"
  rv_definitions :: "(string \<times> service_definition) list"
  rv_hashes :: "(string \<times> string) list"

definition authored_configs ::
  "template_context \<Rightarrow> service_definition list \<Rightarrow> string + (string \<times> json list) list" where
  "authored_configs c rows =
     res_bind (res_each (\<lambda>s. res_bind (resolveStackConfigFiles c (nullish (sd_configFiles s) []))
         (\<lambda>fs. Inr (sd_serviceName s, fs))) rows)
       (\<lambda>ps. Inr (foldl (\<lambda>m (k, v). om_set k v m) [] ps))"

text \<open>The addons block of each row, \<open>None\<close> inside for a row without one.\<close>

definition authored_addons :: "service_definition list \<Rightarrow> (string \<times> json option) list" where
  "authored_addons defs = foldl (\<lambda>m d. om_set (sd_serviceName d) (sd_addons d) m) [] defs"

definition addons_of :: "(string \<times> json option) list \<Rightarrow> string \<Rightarrow> json option" where
  "addons_of m name = (case om_get m name of Some a \<Rightarrow> a | None \<Rightarrow> None)"

definition service_hash ::
  "(string \<Rightarrow> string) \<Rightarrow> (string \<Rightarrow> string \<Rightarrow> bool) \<Rightarrow> (string \<times> json option) list \<Rightarrow> rendered_service \<Rightarrow>
   service_definition \<Rightarrow> json list \<Rightarrow> string" where
  "service_hash sha le addons x resolved configs =
     (case rn_synthetic x of
        Some syn \<Rightarrow> computeSyntheticDefinitionHash sha syn (as_obj (addons_of addons (sy_targetService syn)))
      | None \<Rightarrow> computeDefinitionHash sha le
          (case addons_of addons (sd_serviceName (rn_definition x)) of
             Some a \<Rightarrow> resolved\<lparr>sd_addons := Some a\<rparr> | None \<Rightarrow> resolved) (Some configs))"

definition resolve_one ::
  "(string \<Rightarrow> string) \<Rightarrow> (string \<Rightarrow> string \<Rightarrow> bool) \<Rightarrow> (string \<Rightarrow> int option) \<Rightarrow> template_context \<Rightarrow>
   (string \<times> json option) list \<Rightarrow> rendered_service \<Rightarrow> resolved_services \<Rightarrow> string + resolved_services" where
  "resolve_one sha le num c addons x r =
     (let d = rn_definition x; name = sd_serviceName d in
      res_bind (case om_get (rv_configs r) name of
          Some fs \<Rightarrow> Inr fs | None \<Rightarrow> resolveStackConfigFiles c (nullish (sd_configFiles d) [])) (\<lambda>fs.
      res_bind (resolveServiceDefinition num c d) (\<lambda>t.
      Inr \<lparr>rv_configs = (if om_get (rv_configs r) name = None then om_set name fs (rv_configs r) else rv_configs r),
           rv_definitions = om_set name t (rv_definitions r),
           rv_hashes = om_set name (service_hash sha le addons x t fs) (rv_hashes r)\<rparr>)))"

fun resolve_rendered ::
  "(string \<Rightarrow> string) \<Rightarrow> (string \<Rightarrow> string \<Rightarrow> bool) \<Rightarrow> (string \<Rightarrow> int option) \<Rightarrow> template_context \<Rightarrow>
   (string \<times> json option) list \<Rightarrow> rendered_service list \<Rightarrow> resolved_services \<Rightarrow> string + resolved_services" where
  "resolve_rendered sha le num c addons [] r = Inr r"
| "resolve_rendered sha le num c addons (x # xs) r =
     res_bind (resolve_one sha le num c addons x r) (resolve_rendered sha le num c addons xs)"

definition expand_or_throw ::
  "'w addon_registry \<Rightarrow> expansion_context \<Rightarrow> service_definition list \<Rightarrow> ('w expansion_state, rendered_service list) eff" where
  "expand_or_throw g ctx defs =
     (\<lambda>s. case expandAddons g ctx defs s of
        (Inl e, t) \<Rightarrow> (Inl (expansion_message e), t) | (Inr xs, t) \<Rightarrow> (Inr xs, t))"

definition resolveServiceConfigs ::
  "(string \<Rightarrow> string) \<Rightarrow> (string \<Rightarrow> string \<Rightarrow> bool) \<Rightarrow> (string \<Rightarrow> int option) \<Rightarrow> 'w addon_registry \<Rightarrow>
   template_context \<Rightarrow> resolve_options \<Rightarrow> service_definition list \<Rightarrow> ('w expansion_state, resolved_services) eff" where
  "resolveServiceConfigs sha le num g c opt rows =
     (let defs = map toServiceDefinition rows in
      eff_bind (lift_result (authored_configs c rows)) (\<lambda>configs.
      eff_bind (expand_or_throw g (expansion_context_of c opt) defs) (\<lambda>rendered.
      lift_result (resolve_rendered sha le num c (authored_addons defs) rendered
        \<lparr>rv_configs = configs, rv_definitions = [], rv_hashes = []\<rparr>))))"

section \<open>Every rendered service has a definition and a hash\<close>

lemma resolve_rendered_keys:
  "resolve_rendered sha le num c addons xs r = Inr q \<Longrightarrow>
   map fst (rv_definitions r) = map fst (rv_hashes r) \<Longrightarrow>
   om_wf (rv_hashes r) \<Longrightarrow> distinct (map (\<lambda>x. sd_serviceName (rn_definition x)) xs) \<Longrightarrow>
   (\<forall>x \<in> set xs. sd_serviceName (rn_definition x) \<notin> set (map fst (rv_hashes r))) \<Longrightarrow>
   map fst (rv_hashes q) = map fst (rv_hashes r) @ map (\<lambda>x. sd_serviceName (rn_definition x)) xs \<and>
   map fst (rv_definitions q) = map fst (rv_hashes q)"
proof (induction xs arbitrary: r)
  case (Cons x xs)
  let ?n = "sd_serviceName (rn_definition x)"
  from Cons.prems(1) obtain r' where r': "resolve_one sha le num c addons x r = Inr r'"
    and rest: "resolve_rendered sha le num c addons xs r' = Inr q" by (auto simp: res_bind_Inr)
  from r' obtain t h where new: "rv_definitions r' = om_set ?n t (rv_definitions r)" "rv_hashes r' = om_set ?n h (rv_hashes r)"
    by (auto simp: resolve_one_def Let_def res_bind_Inr)
  have "?n \<notin> fst ` set (rv_hashes r)" using Cons.prems(5) by simp
  moreover from this Cons.prems(2) have "?n \<notin> fst ` set (rv_definitions r)" by (metis list.set_map)
  ultimately have app: "rv_definitions r' = rv_definitions r @ [(?n, t)]" "rv_hashes r' = rv_hashes r @ [(?n, h)]"
    by (simp_all add: new om_length_set_new)
  have "map fst (rv_definitions r') = map fst (rv_hashes r')" using Cons.prems(2) by (simp add: app)
  moreover have "om_wf (rv_hashes r')" using Cons.prems(3) by (simp add: new)
  moreover have "distinct (map (\<lambda>x. sd_serviceName (rn_definition x)) xs)" using Cons.prems(4) by simp
  moreover have "\<forall>y \<in> set xs. sd_serviceName (rn_definition y) \<notin> set (map fst (rv_hashes r'))"
    using Cons.prems(4,5) by (auto simp: app image_iff)
  ultimately have "map fst (rv_hashes q) = map fst (rv_hashes r') @ map (\<lambda>x. sd_serviceName (rn_definition x)) xs \<and>
      map fst (rv_definitions q) = map fst (rv_hashes q)" by (rule Cons.IH [OF rest])
  then show ?case by (simp add: app)
qed simp

lemma expand_or_throw_Inr:
  "expand_or_throw g ctx defs s = (Inr xs, t) \<longleftrightarrow> expandAddons g ctx defs s = (Inr xs, t)"
  by (auto simp: expand_or_throw_def split: prod.split sum.split)

lemma resolve_runs:
  assumes "resolveServiceConfigs sha le num g c opt rows s = (Inr q, t)"
  obtains configs rendered where
    "authored_configs c rows = Inr configs"
    "expandAddons g (expansion_context_of c opt) (map toServiceDefinition rows) s = (Inr rendered, t)"
    "resolve_rendered sha le num c (authored_addons (map toServiceDefinition rows)) rendered
       \<lparr>rv_configs = configs, rv_definitions = [], rv_hashes = []\<rparr> = Inr q"
  using assms unfolding resolveServiceConfigs_def Let_def eff_bind_Inr lift_result_Inr expand_or_throw_Inr by blast

lemma toServiceDefinition_name [simp]: "sd_serviceName (toServiceDefinition s) = sd_serviceName s"
  by (simp add: toServiceDefinition_def)

text \<open>The lookups the planner and the handlers make without a check cannot fail: when the services of a stack
  with distinct names resolve, the definitions and the hashes have the same keys, the names of the rows in order
  followed by the sidecars, none twice. So \<open>serviceHashes.get(name)!\<close> is defined for every row.\<close>

theorem resolve_total_maps:
  assumes "resolveServiceConfigs sha le num g c opt rows s = (Inr q, t)"
    and "distinct (map sd_serviceName rows)"
  shows "map fst (rv_hashes q) = map fst (rv_definitions q) \<and> distinct (map fst (rv_hashes q)) \<and>
    (\<exists>sidecars. map fst (rv_hashes q) = map sd_serviceName rows @ sidecars)"
proof -
  from resolve_runs [OF assms(1)] obtain configs rendered where
    run: "expandAddons g (expansion_context_of c opt) (map toServiceDefinition rows) s = (Inr rendered, t)"
    and res: "resolve_rendered sha le num c (authored_addons (map toServiceDefinition rows)) rendered
       \<lparr>rv_configs = configs, rv_definitions = [], rv_hashes = []\<rparr> = Inr q" by blast
  have names: "map sd_serviceName (map toServiceDefinition rows) = map sd_serviceName rows" by (simp add: comp_def)
  have "distinct (map (\<lambda>x. sd_serviceName (rn_definition x)) rendered) \<and>
    (\<exists>new. map (\<lambda>x. sd_serviceName (rn_definition x)) rendered = map sd_serviceName rows @ new)"
    using expansion_names [OF run] assms(2) unfolding names by blast
  moreover from this have "map fst (rv_hashes q) = map (\<lambda>x. sd_serviceName (rn_definition x)) rendered \<and>
      map fst (rv_definitions q) = map fst (rv_hashes q)"
    using resolve_rendered_keys [OF res] by simp
  ultimately show ?thesis by simp
qed

definition example_rows :: "string \<Rightarrow> service_definition list" where
  "example_rows i = [hash_example\<lparr>sd_addons := Some (JObj [(i, JObj [])])\<rparr>]"

abbreviation example_resolve :: "bool \<Rightarrow> string \<Rightarrow> nat \<Rightarrow> (string + resolved_services) \<times> nat expansion_state" where
  "example_resolve dry i w \<equiv> resolveServiceConfigs id (\<le>) (\<lambda>_. None) example_registry example_template_context
     (no_options\<lparr>ro_dryRun := dry\<rparr>) (example_rows i) \<lparr>xs_world = w, xs_events = []\<rparr>"

lemma Inr_run: "isl (fst r) = False \<Longrightarrow> r = (Inr (projr (fst r)), snd r)"
  by (cases r; cases "fst r") simp_all

lemma resolve_total_maps_witness:
  "map fst (rv_hashes (projr (fst (example_resolve False ''ssh'' 7)))) =
     map fst (rv_definitions (projr (fst (example_resolve False ''ssh'' 7)))) \<and>
   distinct (map fst (rv_hashes (projr (fst (example_resolve False ''ssh'' 7)))))"
proof -
  have "isl (fst (example_resolve False ''ssh'' 7)) = False" by code_simp
  from Inr_run [OF this] have run: "example_resolve False ''ssh'' 7 =
    (Inr (projr (fst (example_resolve False ''ssh'' 7))), snd (example_resolve False ''ssh'' 7))" .
  have "distinct (map sd_serviceName (example_rows ''ssh''))" by (simp add: example_rows_def)
  from resolve_total_maps [OF run this] show ?thesis by blast
qed

section \<open>What resolving does to a configuration\<close>

lemma deep_fields_lookup:
  "deep_fields ctx m = Inr m' \<Longrightarrow>
   map fst m' = map fst m \<and>
   rel_option (\<lambda>v w. deepResolve ctx v = Inr w) (map_of m k) (map_of m' k)"
  by (induction m arbitrary: m') (auto simp: res_bind_Inr)

lemma coerce_config_other:
  assumes "coerce_config num sv cc = Inr cc'"
  shows "(k \<noteq> ''ports'' \<and> k \<noteq> ''healthcheck'' \<longrightarrow> map_of cc' k = map_of cc k) \<and> (om_wf cc \<longrightarrow> om_wf cc')"
proof -
  from assms obtain c1 where first: "(case as_arr (map_of cc ''ports'') of
         Some ps \<Rightarrow> res_bind (coerce_ports num sv 0 ps) (\<lambda>qs. Inr (om_set ''ports'' (JArr qs) cc))
       | None \<Rightarrow> Inr cc) = Inr c1"
    and rest: "(case as_obj (map_of c1 ''healthcheck'') of
         Some h \<Rightarrow> res_bind (coerce_healthcheck num sv h) (\<lambda>h. Inr (om_set ''healthcheck'' (JObj h) c1))
       | None \<Rightarrow> Inr c1) = Inr cc'"
    unfolding coerce_config_def res_bind_Inr by blast
  have "(k \<noteq> ''ports'' \<longrightarrow> map_of c1 k = map_of cc k) \<and> (om_wf cc \<longrightarrow> om_wf c1)"
    using first by (cases "as_arr (map_of cc ''ports'')") (auto simp: res_bind_Inr)
  moreover have "(k \<noteq> ''healthcheck'' \<longrightarrow> map_of cc' k = map_of c1 k) \<and> (om_wf c1 \<longrightarrow> om_wf cc')"
    using rest by (cases "as_obj (map_of c1 ''healthcheck'')") (auto simp: res_bind_Inr)
  ultimately show ?thesis by simp
qed

lemma resolve_config:
  assumes "resolveServiceDefinition num c s = Inr t" and "sd_containerConfig s = Some cc"
  obtains c1 c' where "deep_fields (context_json c) cc = Inr c1" "coerce_config num (sd_serviceName t) c1 = Inr c'"
    "sd_containerConfig t = Some c'" "deep_str (context_json c) (sd_serviceType s) = Inr (sd_serviceType t)"
proof -
  from assms(1) obtain d where d: "deep_definition (context_json c) s = Inr d" "coerceServiceDefinitionTypes num d = Inr t"
    unfolding resolveServiceDefinition_def res_bind_Inr by blast
  from d(1) assms(2) obtain c1 where c1: "deep_fields (context_json c) cc = Inr c1" "sd_containerConfig d = Some c1"
    "deep_str (context_json c) (sd_serviceType s) = Inr (sd_serviceType d)"
    by (auto simp: deep_definition_def res_bind_Inr res_option_Inr)
  from d(2) c1(2) obtain c' where c': "coerce_config num (sd_serviceName d) c1 = Inr c'"
    and rest: "(case as_obj (sd_routing d) of
             Some m \<Rightarrow> res_bind (coerce_routing num (sd_serviceName d) m) (\<lambda>m.
               Inr (d\<lparr>sd_containerConfig := Some c', sd_routing := Some (JObj m)\<rparr>))
           | None \<Rightarrow> Inr (d\<lparr>sd_containerConfig := Some c'\<rparr>)) = Inr t"
    unfolding coerceServiceDefinitionTypes_def by (auto simp: res_bind_Inr)
  from rest have "sd_containerConfig t = Some c' \<and> sd_serviceName t = sd_serviceName d \<and> sd_serviceType t = sd_serviceType d"
    by (cases "as_obj (sd_routing d)") (auto simp: res_bind_Inr)
  with c1 c' show ?thesis by (intro that [of c1 c']) simp_all
qed

lemma resolved_type:
  assumes "resolveServiceDefinition num c s = Inr t" and "sd_containerConfig s = Some cc"
    and "\<not> includes_str (sd_serviceType s) ''{{''"
  shows "sd_serviceType t = sd_serviceType s"
proof -
  from resolve_config [OF assms(1,2)] have "deep_str (context_json c) (sd_serviceType s) = Inr (sd_serviceType t)" .
  with assms(3) show ?thesis by (simp add: deep_str_def)
qed

lemma resolved_env:
  assumes "resolveServiceDefinition num c s = Inr t" and "sd_containerConfig s = Some cc" and "om_wf cc"
  obtains c' where "sd_containerConfig t = Some c'" and "om_wf c'"
    and "rel_option (\<lambda>v w. deepResolve (context_json c) v = Inr w) (map_of cc ''env'') (map_of c' ''env'')"
proof -
  from resolve_config [OF assms(1,2)] obtain c1 c' where c: "deep_fields (context_json c) cc = Inr c1"
    "coerce_config num (sd_serviceName t) c1 = Inr c'" "sd_containerConfig t = Some c'" .
  from deep_fields_lookup [OF c(1)] assms(3) have "om_wf c1" by (simp add: om_wf_def)
  with coerce_config_other [OF c(2), of "''env''"] have c': "om_wf c'" "map_of c' ''env'' = map_of c1 ''env''" by simp_all
  with deep_fields_lookup [OF c(1), of "''env''"] c(3) show ?thesis by (intro that [of c']) simp_all
qed

lemma deep_obj: "deepResolve ctx (JObj m) = Inr w \<Longrightarrow> \<exists>m'. w = JObj m' \<and> fst ` set m' = fst ` set m"
proof -
  assume "deepResolve ctx (JObj m) = Inr w"
  then obtain m' where m': "deep_fields ctx m = Inr m'" "w = JObj m'" by (auto simp: res_bind_Inr)
  from deep_fields_lookup [OF m'(1)] have "map fst m' = map fst m" by blast
  then have "fst ` set m' = fst ` set m" by (metis list.set_map)
  with m'(2) show ?thesis by blast
qed

lemma deep_not_obj: "deepResolve ctx v = Inr (JObj m') \<Longrightarrow> \<exists>m. v = JObj m"
  by (cases v) (auto simp: res_bind_Inr split: if_splits)

section \<open>Env injection and the plan\<close>

text \<open>The stack's hash of a single row with one rendering.\<close>

lemma resolve_single:
  assumes "resolveServiceConfigs sha le num g c opt [row] s = (Inr q, t)"
    and "expandAddons g (expansion_context_of c opt) [toServiceDefinition row] s = (Inr [x], t)"
    and "rn_synthetic x = None" and "sd_serviceName (rn_definition x) = sd_serviceName row"
  shows "\<exists>d fs. resolveServiceDefinition num c (rn_definition x) = Inr d \<and>
    om_get (rv_hashes q) (sd_serviceName row) = Some (computeDefinitionHash sha le
      (case sd_addons (toServiceDefinition row) of Some a \<Rightarrow> d\<lparr>sd_addons := Some a\<rparr> | None \<Rightarrow> d) (Some fs))"
proof -
  let ?n = "sd_serviceName row"
  from resolve_runs [OF assms(1)] obtain configs rendered where
    configs: "authored_configs c [row] = Inr configs" and
    run: "expandAddons g (expansion_context_of c opt) (map toServiceDefinition [row]) s = (Inr rendered, t)"
    and res: "resolve_rendered sha le num c (authored_addons (map toServiceDefinition [row])) rendered
       \<lparr>rv_configs = configs, rv_definitions = [], rv_hashes = []\<rparr> = Inr q" by blast
  from run assms(2) have x: "rendered = [x]" by simp
  from configs obtain fs where fs: "resolveStackConfigFiles c (nullish (sd_configFiles row) []) = Inr fs" "configs = [(?n, fs)]"
    by (auto simp: authored_configs_def res_bind_Inr)
  have addons: "addons_of (authored_addons [toServiceDefinition row]) ?n = sd_addons (toServiceDefinition row)"
    by (simp add: addons_of_def authored_addons_def)
  have "resolve_one sha le num c (authored_addons [toServiceDefinition row]) x
      \<lparr>rv_configs = [(?n, fs)], rv_definitions = [], rv_hashes = []\<rparr> = Inr q"
    using res by (simp add: x fs(2) res_bind_Inr)
  then obtain d where d: "resolveServiceDefinition num c (rn_definition x) = Inr d"
    and q: "rv_hashes q = [(?n, service_hash sha le (authored_addons [toServiceDefinition row]) x d fs)]"
    by (auto simp: resolve_one_def Let_def res_bind_Inr assms(4))
  show ?thesis
    by (intro exI [of _ d] exI [of _ fs]) (simp add: q d service_hash_def assms(3,4) addons)
qed

lemma resolve_expands:
  assumes "resolveServiceConfigs sha le num g c opt rows s = (Inr q, t)"
  obtains xs where "expandAddons g (expansion_context_of c opt) (map toServiceDefinition rows) s = (Inr xs, t)"
  using resolve_runs [OF assms] by blast

lemma same_resolved_config:
  assumes "inj sha" and "computeDefinitionHash sha le (case a of Some j \<Rightarrow> d\<lparr>sd_addons := Some j\<rparr> | None \<Rightarrow> d) r =
      computeDefinitionHash sha le (case b of Some j \<Rightarrow> d'\<lparr>sd_addons := Some j\<rparr> | None \<Rightarrow> d') r'"
    and "sd_serviceType d \<noteq> ''AdoptedWeb''" and "sd_serviceType d' \<noteq> ''AdoptedWeb''"
  shows "map_option (json_norm \<circ> JObj) (stripDynamic (sd_containerConfig d)) =
    map_option (json_norm \<circ> JObj) (stripDynamic (sd_containerConfig d'))"
  using same_hash_config [OF assms(1,2)] assms(3,4) by (cases a; cases b) simp_all

lemma options_split:
  "expansion_context_of c (opt\<lparr>ro_dryRun := b\<rparr>) = (expansion_context_of c opt)\<lparr>ec_dryRun := b\<rparr>"
  by (simp add: expansion_context_of_def)

text \<open>An addon that injects variables makes the plan of its service say \<open>recreate\<close> for ever. Where every
  provisioning of the addon yields a variable for its target, as a fresh auth key is, the hash a plan computes
  for the service (its dry run skips the variables) is never the hash an apply computes and stamps on
  the container, whatever the templates resolve to.\<close>

theorem env_injection_drifts:
  assumes "inj sha" and "sd_containerConfig row = Some cc" and "om_wf cc" and "sd_serviceType row \<in> {''Stateful'', ''StatelessWeb''}"
    and "resolveGroups g (expansion_context_of c (opt\<lparr>ro_dryRun := False\<rparr>)) (toServiceDefinition row)
      (addon_block (toServiceDefinition row)) = Inr [Solo (toServiceDefinition row) a]"
    and "addon_block (toServiceDefinition row) \<noteq> []"
    and "ad_definition (ap_registered a) = EnvInjectionAddon provision stub"
    and "\<forall>p w v w'. provision p w = (Inr v, w') \<longrightarrow> nullish (ev_envForTarget v) [] \<noteq> []"
    and "resolveServiceConfigs sha le num g c (opt\<lparr>ro_dryRun := True\<rparr>) [row] s1 = (Inr planned, t1)"
    and "resolveServiceConfigs sha le num g c (opt\<lparr>ro_dryRun := False\<rparr>) [row] s2 = (Inr applied, t2)"
  shows "om_get (rv_hashes planned) (sd_serviceName row) \<noteq> om_get (rv_hashes applied) (sd_serviceName row)"
proof
  assume same: "om_get (rv_hashes planned) (sd_serviceName row) = om_get (rv_hashes applied) (sd_serviceName row)"
  let ?d = "toServiceDefinition row" and ?i = "ap_addonId a" and ?ctx = "expansion_context_of c opt"
  have row: "container_config ?d = cc" "sd_serviceType ?d = sd_serviceType row"
    using assms(2) by (simp_all add: container_config_def toServiceDefinition_def)
  from resolve_expands [OF assms(9)] obtain ps where ps: "expandAddons g (?ctx\<lparr>ec_dryRun := True\<rparr>) [?d] s1 = (Inr ps, t1)"
    by (auto simp: options_split)
  from resolve_expands [OF assms(10)] obtain qs where qs: "expandAddons g (?ctx\<lparr>ec_dryRun := False\<rparr>) [?d] s2 = (Inr qs, t2)"
    by (auto simp: options_split)
  from env_pass [OF ps resolve_dry [OF assms(5) [unfolded options_split]] assms(7,6)] obtain v where
    p: "ps = [\<lparr>rn_definition = ?d\<lparr>sd_addons := None, sd_containerConfig := Some (inject_stub ?i v cc)\<rparr>, rn_synthetic = None\<rparr>]"
    by (elim exE conjE) (simp add: row)
  from env_pass [OF qs assms(5) [unfolded options_split] assms(7,6)] obtain w where
    q: "qs = [\<lparr>rn_definition = ?d\<lparr>sd_addons := None, sd_containerConfig := Some (inject_values ?i w cc)\<rparr>, rn_synthetic = None\<rparr>]"
    and free: "env_collision (obj_field cc ''env'') (nullish (ev_envForTarget w) []) = None"
    and "\<exists>x w0 w'. provision x w0 = (Inr w, w')"
    by (elim exE conjE) (simp add: row)
  with assms(8) have new: "nullish (ev_envForTarget w) [] \<noteq> []" by blast
  obtain d1 f1 where d1: "resolveServiceDefinition num c (?d\<lparr>sd_addons := None, sd_containerConfig := Some (inject_stub ?i v cc)\<rparr>) = Inr d1"
    "om_get (rv_hashes planned) (sd_serviceName row) = Some (computeDefinitionHash sha le
      (case sd_addons ?d of Some a \<Rightarrow> d1\<lparr>sd_addons := Some a\<rparr> | None \<Rightarrow> d1) (Some f1))"
    using resolve_single [OF assms(9) ps [folded options_split, unfolded p], simplified] by blast
  obtain d2 f2 where d2: "resolveServiceDefinition num c (?d\<lparr>sd_addons := None, sd_containerConfig := Some (inject_values ?i w cc)\<rparr>) = Inr d2"
    "om_get (rv_hashes applied) (sd_serviceName row) = Some (computeDefinitionHash sha le
      (case sd_addons ?d of Some a \<Rightarrow> d2\<lparr>sd_addons := Some a\<rparr> | None \<Rightarrow> d2) (Some f2))"
    using resolve_single [OF assms(10) qs [folded options_split, unfolded q], simplified] by blast
  have conf: "sd_containerConfig (?d\<lparr>sd_addons := None, sd_containerConfig := Some x\<rparr>) = Some x"
    "sd_serviceType (?d\<lparr>sd_addons := None, sd_containerConfig := Some x\<rparr>) = sd_serviceType row" for x
    by (simp_all add: row)
  have plain: "\<not> includes_str (sd_serviceType (?d\<lparr>sd_addons := None, sd_containerConfig := Some x\<rparr>)) ''{{''" for x
    using assms(4) unfolding conf by auto
  note ty = resolved_type [OF d1(1) conf(1) plain, unfolded conf] resolved_type [OF d2(1) conf(1) plain, unfolded conf]
  from resolved_env [OF d1(1) conf(1) inject_wf(1) [OF assms(3)]] obtain e1 where e1: "sd_containerConfig d1 = Some e1" "om_wf e1"
    and env1: "rel_option (\<lambda>v w. deepResolve (context_json c) v = Inr w) (map_of cc ''env'') (map_of e1 ''env'')"
    unfolding inject_env by blast
  from resolved_env [OF d2(1) conf(1) inject_wf(2) [OF assms(3)]] obtain e2 where e2: "sd_containerConfig d2 = Some e2" "om_wf e2"
    and env2: "rel_option (\<lambda>v w. deepResolve (context_json c) v = Inr w)
      (Some (JObj (obj_merge (obj_field cc ''env'') (nullish (ev_envForTarget w) [])))) (map_of e2 ''env'')"
    unfolding inject_env by blast
  from env2 obtain x where x: "map_of e2 ''env'' = Some x"
    "deepResolve (context_json c) (JObj (obj_merge (obj_field cc ''env'') (nullish (ev_envForTarget w) []))) = Inr x"
    unfolding option_rel_Some1 by blast
  from deep_obj [OF x(2)] obtain m2 where m2: "x = JObj m2"
    "fst ` set m2 = fst ` set (obj_field cc ''env'') \<union> fst ` set (nullish (ev_envForTarget w) [])"
    unfolding obj_merge_keys by blast
  let ?k = "fst (hd (nullish (ev_envForTarget w) []))"
  have k: "?k \<in> fst ` set (nullish (ev_envForTarget w) [])" using new by (intro imageI hd_in_set)
  have fresh: "?k \<notin> fst ` set m" if "map_of e1 ''env'' = Some (JObj m)" for m
  proof -
    from that env1 obtain v0 where v0: "map_of cc ''env'' = Some v0" "deepResolve (context_json c) v0 = Inr (JObj m)"
      by (auto simp: option_rel_Some2)
    from deep_not_obj [OF v0(2)] obtain m0 where m0: "v0 = JObj m0" by blast
    with deep_obj v0(2) have "fst ` set m = fst ` set m0" by blast
    moreover from v0(1) m0 have "obj_field cc ''env'' = m0" by (simp add: obj_field_def)
    ultimately show ?thesis using env_collision_None [OF free] k by blast
  qed
  from same have "computeDefinitionHash sha le (case sd_addons ?d of Some a \<Rightarrow> d1\<lparr>sd_addons := Some a\<rparr> | None \<Rightarrow> d1) (Some f1) =
      computeDefinitionHash sha le (case sd_addons ?d of Some a \<Rightarrow> d2\<lparr>sd_addons := Some a\<rparr> | None \<Rightarrow> d2) (Some f2)"
    by (simp add: d1(2) d2(2))
  from same_resolved_config [OF assms(1) this] assms(4)
  have "map_option (json_norm \<circ> JObj) (stripDynamic (Some e1)) = map_option (json_norm \<circ> JObj) (stripDynamic (Some e2))"
    by (auto simp: ty e1(1) e2(1))
  moreover have "?k \<in> fst ` set m2" using k m2(2) by blast
  ultimately show False
    using env_key_differs [OF e1(2) e2(2) x(1) [unfolded m2(1)] _ fresh] by blast
qed

lemma env_injection_drifts_witness:
  "om_get (rv_hashes (projr (fst (example_resolve True ''shell'' 7)))) ''web'' \<noteq>
   om_get (rv_hashes (projr (fst (example_resolve False ''shell'' 7)))) ''web''"
proof -
  let ?row = "hash_example\<lparr>sd_addons := Some (JObj [(''shell'', JObj [])])\<rparr>"
  let ?ctx = "expansion_context_of example_template_context (no_options\<lparr>ro_dryRun := False\<rparr>)"
  let ?a = "\<lparr>ap_addonId = ''shell'', ap_config = JObj [], ap_registered = the (om_get (rg_addons example_registry) ''shell'')\<rparr>"
  have "isl (fst (example_resolve True ''shell'' 7)) = False" "isl (fst (example_resolve False ''shell'' 7)) = False"
    by code_simp+
  from this [THEN Inr_run] have runs:
    "example_resolve True ''shell'' 7 = (Inr (projr (fst (example_resolve True ''shell'' 7))), snd (example_resolve True ''shell'' 7))"
    "example_resolve False ''shell'' 7 = (Inr (projr (fst (example_resolve False ''shell'' 7))), snd (example_resolve False ''shell'' 7))" .
  have row: "toServiceDefinition ?row = ?row" by (simp add: toServiceDefinition_def)
  have groups: "resolveGroups example_registry ?ctx (toServiceDefinition ?row) (addon_block (toServiceDefinition ?row)) =
      Inr [Solo (toServiceDefinition ?row) ?a]"
    unfolding row by (simp add: resolveGroups_def addon_block_def hash_example_def check_addon_def example_registry_def
        expansion_context_of_def no_options_def is_solo_def by_kind_def env_injection_def)
  have block: "addon_block (toServiceDefinition ?row) \<noteq> []" unfolding row by (simp add: addon_block_def)
  have def: "ad_definition (ap_registered ?a) = EnvInjectionAddon
      (\<lambda>p w. (Inr (no_values\<lparr>ev_envForTarget := Some [(''TS_AUTHKEY'', JNum (int w))]\<rparr>), Suc w)) None"
    by (simp add: example_registry_def)
  have cc: "sd_containerConfig ?row = Some [(''env'', JObj [(''B'', JStr ''2''), (''A'', JStr ''1'')]),
       (''dynamicEnv'', JObj [(''SECRET'', JStr ''vault-wrapped-secret-id'')])]"
    "sd_serviceType ?row \<in> {''Stateful'', ''StatelessWeb''}" "sd_serviceName ?row = ''web''"
    by (simp_all add: hash_example_def)
  have wf: "om_wf [(''env'', JObj [(''B'', JStr ''2''), (''A'', JStr ''1'')]),
       (''dynamicEnv'', JObj [(''SECRET'', JStr ''vault-wrapped-secret-id'')])]" by (simp add: om_wf_def)
  from env_injection_drifts [OF inj_on_id cc(1) wf cc(2) groups block def _ runs [unfolded example_rows_def]]
  show ?thesis unfolding cc(3) example_rows_def by simp
qed

section \<open>Addons that need a connected service\<close>

lemma check_addons_all: "check_addons g ctx d ps = Inr as \<Longrightarrow> p \<in> set ps \<Longrightarrow> \<exists>a. check_addon g ctx d p = Inr a"
  by (induction ps arbitrary: as) (auto split: sum.splits)

lemma expand_checks:
  "expand_services g ctx ds r s = (Inr r', t) \<Longrightarrow> d \<in> set ds \<Longrightarrow> p \<in> set (addon_block d) \<Longrightarrow>
   \<exists>a. check_addon g ctx d p = Inr a"
proof (induction ds arbitrary: r s)
  case (Cons x ds)
  show ?case
  proof (cases "addon_block x = []")
    case True
    with Cons show ?thesis by fastforce
  next
    case False
    with Cons.prems(1) obtain grs q u where res: "resolveGroups g ctx x (addon_block x) = Inr grs"
      and rest: "expand_services g ctx ds q u = (Inr r', t)" by (auto split: sum.splits prod.splits)
    show ?thesis
    proof (cases "d = x")
      case True
      from res obtain as where "check_addons g ctx x (addon_block x) = Inr as"
        by (auto simp: resolveGroups_def split: sum.splits)
      from check_addons_all [OF this, of p] Cons.prems(3) True show ?thesis by simp
    next
      case False
      with Cons.prems(2) Cons.IH [OF rest _ Cons.prems(3)] show ?thesis by simp
    qed
  qed
qed simp

text \<open>A row declaring an addon that needs a connected service never resolves without the lookup.\<close>

lemma resolve_needs_lookup:
  assumes "row \<in> set rows" and "(i, cfg) \<in> set (addon_block (toServiceDefinition row))"
    and "om_get (rg_addons g) i = Some a" and "truthy (ad_requires a)"
  shows "isl (fst (resolveServiceConfigs sha le num g c no_options rows s))"
proof (rule ccontr)
  assume "\<not> isl (fst (resolveServiceConfigs sha le num g c no_options rows s))"
  then obtain q t where run: "resolveServiceConfigs sha le num g c no_options rows s = (Inr q, t)"
    by (metis isl_def old.sum.exhaust prod.collapse)
  let ?ctx = "expansion_context_of c no_options"
  from resolve_expands [OF run] obtain xs where "expandAddons g ?ctx (map toServiceDefinition rows) s = (Inr xs, t)" .
  then obtain r where "expand_services g ?ctx (map toServiceDefinition rows)
      (foldl (\<lambda>m d. om_set (sd_serviceName d) (strip_addons d) m) [] (map toServiceDefinition rows)) s = (Inr r, t)"
    by (auto simp: expandAddons_def Let_def split: prod.splits sum.splits)
  from expand_checks [OF this _ assms(2)] assms(1) obtain x where "check_addon g ?ctx (toServiceDefinition row) (i, cfg) = Inr x"
    by auto
  with assms(3,4) show False
    by (auto simp: check_addon_def Let_def expansion_context_of_def no_options_def split: sum.splits if_splits)
qed

section \<open>The entry of one service\<close>

lemma resolve_other:
  "resolve_rendered sha le num c addons xs r = Inr q \<Longrightarrow> n \<notin> (\<lambda>x. sd_serviceName (rn_definition x)) ` set xs \<Longrightarrow>
   om_get (rv_definitions q) n = om_get (rv_definitions r) n \<and> om_get (rv_hashes q) n = om_get (rv_hashes r) n"
proof (induction xs arbitrary: r)
  case (Cons x xs)
  from Cons.prems(1) obtain r' where r': "resolve_one sha le num c addons x r = Inr r'"
    and rest: "resolve_rendered sha le num c addons xs r' = Inr q" by (auto simp: res_bind_Inr)
  from r' Cons.prems(2) have "om_get (rv_definitions r') n = om_get (rv_definitions r) n \<and> om_get (rv_hashes r') n = om_get (rv_hashes r) n"
    by (auto simp: resolve_one_def Let_def res_bind_Inr)
  with Cons.IH [OF rest] Cons.prems(2) show ?case by simp
qed simp

lemma resolve_entry:
  "resolve_rendered sha le num c addons xs r = Inr q \<Longrightarrow> distinct (map (\<lambda>x. sd_serviceName (rn_definition x)) xs) \<Longrightarrow>
   x \<in> set xs \<Longrightarrow> \<exists>d fs. resolveServiceDefinition num c (rn_definition x) = Inr d \<and>
     om_get (rv_definitions q) (sd_serviceName (rn_definition x)) = Some d \<and>
     om_get (rv_hashes q) (sd_serviceName (rn_definition x)) = Some (service_hash sha le addons x d fs)"
proof (induction xs arbitrary: r)
  case (Cons y ys)
  from Cons.prems(1) obtain r' where r': "resolve_one sha le num c addons y r = Inr r'"
    and rest: "resolve_rendered sha le num c addons ys r' = Inr q" by (auto simp: res_bind_Inr)
  show ?case
  proof (cases "x = y")
    case True
    with Cons.prems(2) have "sd_serviceName (rn_definition x) \<notin> (\<lambda>x. sd_serviceName (rn_definition x)) ` set ys" by auto
    from resolve_other [OF rest this] r' show ?thesis
      by (auto simp: True resolve_one_def Let_def res_bind_Inr)
  next
    case False
    with Cons.IH [OF rest] Cons.prems(2,3) show ?thesis by simp
  qed
qed simp

lemma resolved_literal:
  assumes "resolveServiceDefinition num c s = Inr t"
  shows "(\<not> includes_str (sd_serviceName s) ''{{'' \<longrightarrow> sd_serviceName t = sd_serviceName s) \<and>
    (\<not> includes_str (sd_serviceType s) ''{{'' \<longrightarrow> sd_serviceType t = sd_serviceType s)"
proof -
  from assms obtain d where d: "deep_definition (context_json c) s = Inr d" "coerceServiceDefinitionTypes num d = Inr t"
    unfolding resolveServiceDefinition_def res_bind_Inr by blast
  have "sd_serviceName t = sd_serviceName d \<and> sd_serviceType t = sd_serviceType d"
    using d(2) by (auto simp: coerceServiceDefinitionTypes_def res_bind_Inr split: option.splits)
  with d(1) show ?thesis by (auto simp: deep_definition_def res_bind_Inr deep_str_def)
qed

lemma addons_kept:
  "n \<notin> sd_serviceName ` set ys \<Longrightarrow>
   om_get (foldl (\<lambda>m d. om_set (sd_serviceName d) (sd_addons d) m) acc ys) n = om_get acc n"
  by (induction ys arbitrary: acc) auto

lemma authored_addons_distinct:
  assumes "distinct (map sd_serviceName ds)" and "d \<in> set ds"
  shows "addons_of (authored_addons ds) (sd_serviceName d) = sd_addons d"
proof -
  have "om_get (foldl (\<lambda>m d. om_set (sd_serviceName d) (sd_addons d) m) acc ds) (sd_serviceName d) = Some (sd_addons d)"
    if "distinct (map sd_serviceName ds)" "d \<in> set ds" for acc ds
    using that
  proof (induction ds arbitrary: acc)
    case (Cons x xs)
    show ?case
    proof (cases "d \<in> set xs")
      case True
      with Cons show ?thesis by simp
    next
      case False
      then have "d = x" "sd_serviceName x \<notin> sd_serviceName ` set xs" using Cons.prems by auto
      then show ?thesis by (simp add: addons_kept)
    qed
  qed simp
  from this [OF assms, of "[]"] show ?thesis by (simp add: addons_of_def authored_addons_def)
qed

text \<open>A service without addons resolves the same in every pass, whatever the others are expanded to.\<close>

lemma resolve_plain:
  assumes "resolveServiceConfigs sha le num g c opt rows s = (Inr q, t)" and "distinct (map sd_serviceName rows)"
    and "row \<in> set rows" and "addon_block (toServiceDefinition row) = []"
  shows "\<exists>d fs. resolveServiceDefinition num c ((toServiceDefinition row)\<lparr>sd_addons := None\<rparr>) = Inr d \<and>
    om_get (rv_definitions q) (sd_serviceName row) = Some d \<and>
    om_get (rv_hashes q) (sd_serviceName row) = Some (computeDefinitionHash sha le
      (case sd_addons (toServiceDefinition row) of Some a \<Rightarrow> d\<lparr>sd_addons := Some a\<rparr> | None \<Rightarrow> d) (Some fs))"
proof -
  let ?d = "toServiceDefinition row" and ?ds = "map toServiceDefinition rows"
  from resolve_runs [OF assms(1)] obtain configs rendered where
    run: "expandAddons g (expansion_context_of c opt) ?ds s = (Inr rendered, t)"
    and res: "resolve_rendered sha le num c (authored_addons ?ds) rendered
       \<lparr>rv_configs = configs, rv_definitions = [], rv_hashes = []\<rparr> = Inr q" by blast
  have names: "distinct (map sd_serviceName ?ds)" using assms(2) by (simp add: comp_def)
  have x: "strip_addons ?d \<in> set rendered" using assms(3,4) by (intro expand_untouched [OF run names]) auto
  have "addons_of (authored_addons ?ds) (sd_serviceName ?d) = sd_addons ?d"
    using assms(3) by (intro authored_addons_distinct [OF names]) simp
  moreover have "distinct (map (\<lambda>x. sd_serviceName (rn_definition x)) rendered)"
    using expansion_names [OF run names] by blast
  from resolve_entry [OF res this x] obtain d fs where
    "resolveServiceDefinition num c (rn_definition (strip_addons ?d)) = Inr d"
    "om_get (rv_definitions q) (sd_serviceName (rn_definition (strip_addons ?d))) = Some d"
    "om_get (rv_hashes q) (sd_serviceName (rn_definition (strip_addons ?d))) = Some (service_hash sha le (authored_addons ?ds) (strip_addons ?d) d fs)"
    by blast
  ultimately show ?thesis
    by (intro exI [of _ d] exI [of _ fs]) (simp add: strip_addons_def service_hash_def)
qed

lemma resolved_entries:
  assumes "resolveServiceConfigs sha le num g c opt rows s = (Inr q, t)" and "distinct (map sd_serviceName rows)"
    and "(k, d) \<in> set (rv_definitions q)" and "\<not> includes_str k ''{{''"
  shows "sd_serviceName d = k"
proof -
  let ?ds = "map toServiceDefinition rows"
  from resolve_runs [OF assms(1)] obtain configs rendered where
    run: "expandAddons g (expansion_context_of c opt) ?ds s = (Inr rendered, t)"
    and res: "resolve_rendered sha le num c (authored_addons ?ds) rendered
       \<lparr>rv_configs = configs, rv_definitions = [], rv_hashes = []\<rparr> = Inr q" by blast
  have names: "distinct (map sd_serviceName ?ds)" using assms(2) by (simp add: comp_def)
  have dist: "distinct (map (\<lambda>x. sd_serviceName (rn_definition x)) rendered)"
    using expansion_names [OF run names] by blast
  have keys: "map fst (rv_definitions q) = map (\<lambda>x. sd_serviceName (rn_definition x)) rendered"
    using resolve_rendered_keys [OF res] dist by simp
  have "k \<in> set (map fst (rv_definitions q))" using assms(3) by force
  then obtain x where x: "x \<in> set rendered" "k = sd_serviceName (rn_definition x)" unfolding keys by auto
  from resolve_entry [OF res dist x(1)] obtain d' fs where d': "resolveServiceDefinition num c (rn_definition x) = Inr d'"
    "om_get (rv_definitions q) (sd_serviceName (rn_definition x)) = Some d'" by blast
  have "d' = d" using d'(2) assms(3) dist keys x(2) by (metis map_of_is_SomeI option.inject)
  with resolved_literal [OF d'(1)] assms(4) x(2) show ?thesis by simp
qed

end
