(* ===== verification/ServiceHandlers.thy ===== *)
theory ServiceHandlers
  imports ServiceResolution BlueGreenDeploy BlueGreenUpdate InitialDeploy RemovalDeploy
begin

text \<open>
  What an apply does for one service, \<open>stacks/stack-service-handlers.ts\<close> with
  \<open>stack-state-machine-context.ts\<close>, \<open>stack-mounts.ts\<close> and \<open>prepareServiceContainer\<close> of \<open>utils.ts\<close>:
  a container of its own (\<open>applyStateful\<close>), a deployment machine (\<open>applyStatelessWeb\<close>,
  \<open>updateStatelessWeb\<close>), or the routing of an adopted container (\<open>applyAdoptedWeb\<close>). Docker, HAProxy
  and the database are the functions of a \<open>host\<close>; the runs of the machines, whose own theories model
  them, enter through what the runner resolves to. The trace records each call in order.
\<close>

section \<open>The host\<close>

record create_spec =
  cs_service :: string
  cs_definition :: service_definition
  cs_projectName :: string
  cs_stackId :: string
  cs_stackVersion :: int
  cs_environmentId :: "string option"
  cs_definitionHash :: "string option"
  cs_networkNames :: "string list"

record failure_info =
  fi_exitCode :: "int option"
  fi_status :: "string option"
  fi_tailLogs :: "string option"

record haproxy_environment =
  he_environmentId :: string
  he_environmentName :: string
  he_haproxyContainerId :: string
  he_haproxyNetworkName :: string

record routing_context =
  rx_serviceName :: string
  rx_containerId :: string
  rx_containerName :: string
  rx_routing :: "(string \<times> json) list"
  rx_environmentId :: "string option"
  rx_stackId :: string
  rx_stackName :: string

record 'w host =
  h_now :: "'w \<Rightarrow> int"
  h_suffix :: "'w \<Rightarrow> string"
  h_listContainers :: "'w \<Rightarrow> (string + docker_lists) \<times> 'w"
  h_listRunning :: "string \<Rightarrow> 'w \<Rightarrow> (string + container_info list) \<times> 'w"
  h_stopAndRemove :: "string \<Rightarrow> 'w \<Rightarrow> (string + unit) \<times> 'w"
  h_pullImage :: "string \<Rightarrow> string \<Rightarrow> 'w \<Rightarrow> (string + unit) \<times> 'w"
  h_runInitCommands :: "json list \<Rightarrow> string \<Rightarrow> 'w \<Rightarrow> (string + unit) \<times> 'w"
  h_writeConfigFiles :: "json list \<Rightarrow> string \<Rightarrow> 'w \<Rightarrow> (string + unit) \<times> 'w"
  h_createContainer :: "create_spec \<Rightarrow> 'w \<Rightarrow> (string + string) \<times> 'w"
  h_attachServiceNetworks :: "string \<Rightarrow> string \<Rightarrow> service_definition \<Rightarrow> 'w \<Rightarrow> (string + unit) \<times> 'w"
  h_startContainer :: "string \<Rightarrow> 'w \<Rightarrow> (string + unit) \<times> 'w"
  h_waitForHealthy :: "string \<Rightarrow> 'w \<Rightarrow> (string + bool) \<times> 'w"
  h_captureFailure :: "string \<Rightarrow> 'w \<Rightarrow> (string + failure_info) \<times> 'w"
  h_haproxyEnvironment :: "string option \<Rightarrow> 'w \<Rightarrow> (string + haproxy_environment option) \<times> 'w"
  h_egressEnv :: "string option \<Rightarrow> bool \<Rightarrow> 'w \<Rightarrow> (string + (string \<times> json) list) \<times> 'w"
  h_egressNetwork :: "string \<Rightarrow> 'w \<Rightarrow> (string + string option) \<times> 'w"
  h_tlsResource :: "string \<Rightarrow> string \<Rightarrow> 'w \<Rightarrow> (string + string option) \<times> 'w"
  h_runInitial :: "ini_ctx \<Rightarrow> 'w \<Rightarrow> (string + ini_state \<times> ini_ctx) \<times> 'w"
  h_runBlueGreen :: "bgd_ctx \<Rightarrow> 'w \<Rightarrow> (string + bg_state \<times> bgd_ctx) \<times> 'w"
  h_runUpdate :: "bg_ctx \<Rightarrow> 'w \<Rightarrow> (string + bg_state \<times> bg_ctx) \<times> 'w"
  h_runRemoval :: "rem_ctx \<Rightarrow> 'w \<Rightarrow> (string + rem_state \<times> rem_ctx) \<times> 'w"
  h_haproxyClient :: "string option \<Rightarrow> 'w \<Rightarrow> (string + unit) \<times> 'w"
  h_backendServers :: "string \<Rightarrow> string option \<Rightarrow> 'w \<Rightarrow> (string + string list option) \<times> 'w"
  h_drainAndRemoveServer :: "string \<Rightarrow> string \<Rightarrow> 'w \<Rightarrow> (string + unit) \<times> 'w"
  h_deleteServer :: "string \<Rightarrow> string \<Rightarrow> 'w \<Rightarrow> (string + unit) \<times> 'w"
  h_deleteServerRows :: "string \<Rightarrow> 'w \<Rightarrow> (string + unit) \<times> 'w"
  h_removeRoute :: "routing_context \<Rightarrow> 'w \<Rightarrow> (string + unit) \<times> 'w"
  h_setupBackendAndServer :: "routing_context \<Rightarrow> 'w \<Rightarrow> (string + string \<times> string) \<times> 'w"
  h_configureRoute :: "routing_context \<Rightarrow> string \<Rightarrow> string option \<Rightarrow> 'w \<Rightarrow> (string + unit) \<times> 'w"
  h_enableTraffic :: "string \<Rightarrow> string \<Rightarrow> 'w \<Rightarrow> (string + unit) \<times> 'w"

datatype host_call =
    ListContainers | StopAndRemove string | PullImage string string | RunInitCommands | WriteConfigFiles
  | CreateContainer string "string option" | AttachNetworks string string | StartContainer string
  | WaitForHealthy string | CaptureFailure string | ReadDatabase
  | RunInitial string | RunBlueGreen string "string option" | RunUpdate string "string option"
  | RunRemoval string "string option" | HAProxyClient | DrainServer string string | DeleteServer string string
  | DeleteServerRows string | RemoveRoute string | SetupBackend string string | ConfigureRoute string
  | EnableRouteTraffic string
  | ReconcileOutputs | ResolveInputs | EnsureNetwork string | CompileMemberships | VolumeExists string
  | CreateVolume string | ReconcileResources | RotateTokens "string list" | ResolveEnv string | WriteCreds
  | JoinSelf | Converge | PostInstall | NotifyProgress string | WriteDatabase | PruneSnapshots | InspectImage string

record 'w apply_state =
  ap_world :: 'w
  ap_calls :: "host_call list"

definition perform :: "host_call \<Rightarrow> ('w \<Rightarrow> (string + 'a) \<times> 'w) \<Rightarrow> (('w, 'z) apply_state_scheme, 'a) eff" where
  "perform k f = (\<lambda>s. let (r, w) = f (ap_world s) in (r, s\<lparr>ap_world := w, ap_calls := ap_calls s @ [k]\<rparr>))"

section \<open>The context of a handler\<close>

record handler_context =
  hc_action :: service_action
  hc_serviceDef :: "service_definition option"
  hc_projectName :: string
  hc_stackId :: string
  hc_stackName :: string
  hc_stackVersion :: int
  hc_environmentId :: "string option"
  hc_networkNames :: "string list"
  hc_hashes :: "(string \<times> string) list"
  hc_configs :: "(string \<times> json list) list"
  hc_containers :: "(string \<times> container_info) list"
  hc_infraNetworks :: "(string \<times> string) list"
  hc_envOverrides :: "(string \<times> (string \<times> json) list) list"

abbreviation hc_name :: "handler_context \<Rightarrow> string" where
  "hc_name c \<equiv> sa_serviceName (hc_action c)"

record service_result =
  sv_serviceName :: string
  sv_action :: plan_action
  sv_success :: bool
  sv_containerId :: "string option"
  sv_error :: "string option"

definition service_result_of ::
  "handler_context \<Rightarrow> plan_action \<Rightarrow> bool \<Rightarrow> string option \<Rightarrow> string option \<Rightarrow> service_result" where
  "service_result_of c a ok cid e =
     \<lparr>sv_serviceName = hc_name c, sv_action = a, sv_success = ok, sv_containerId = cid, sv_error = e\<rparr>"

definition not_found :: "handler_context \<Rightarrow> string" where
  "not_found c = ''Service '' @ hc_name c @ '' not found''"

definition mergeDynamicEnv :: "service_definition \<Rightarrow> (string \<times> json) list option \<Rightarrow> service_definition" where
  "mergeDynamicEnv s overrides =
     (case overrides of
        None \<Rightarrow> s
      | Some [] \<Rightarrow> s
      | Some o' \<Rightarrow> s\<lparr>sd_containerConfig := Some (om_set ''env''
          (JObj (obj_merge (obj_field (container_config s) ''env'') o')) (container_config s))\<rparr>)"

definition prepareServiceContainer ::
  "('w, 'y) host_scheme \<Rightarrow> service_definition \<Rightarrow> json list \<Rightarrow> string \<Rightarrow> (('w, 'z) apply_state_scheme, unit) eff" where
  "prepareServiceContainer h s configs project =
     eff_then (perform (PullImage (sd_dockerImage s) (sd_dockerTag s)) (h_pullImage h (sd_dockerImage s) (sd_dockerTag s))) (
     eff_then (let cmds = nullish (sd_initCommands s) [] in
        if cmds \<noteq> [] then perform RunInitCommands (h_runInitCommands h cmds project) else eff_return ())
       (if configs \<noteq> [] then perform WriteConfigFiles (h_writeConfigFiles h configs project) else eff_return ()))"

definition configs_of :: "handler_context \<Rightarrow> json list" where
  "configs_of c = nullish (om_get (hc_configs c) (hc_name c)) []"

section \<open>Containers of the stack's own\<close>

definition failure_log_tail :: "string \<Rightarrow> string" where
  "failure_log_tail s = drop (length s - 1500) s"

definition failure_message :: "failure_info \<Rightarrow> string" where
  "failure_message i =
     join_str ''. ''
       ((case fi_exitCode i of
           Some n \<Rightarrow> [''Container exited with code '' @ string_of_int n]
         | None \<Rightarrow>
             (case fi_status i of
                Some s \<Rightarrow> if s = ''exited'' \<or> s = ''dead'' then [''Container is '' @ s] else [''Healthcheck timeout'']
              | None \<Rightarrow> [''Healthcheck timeout''])) @
        (if truthy (fi_tailLogs i)
         then [''last logs:'' @ [CHR 0x0A] @ failure_log_tail (the (fi_tailLogs i))] else []))"

definition buildPostStartFailureMessage :: "('w, 'y) host_scheme \<Rightarrow> string \<Rightarrow> (('w, 'z) apply_state_scheme, string) eff" where
  "buildPostStartFailureMessage h cid =
     eff_catch (eff_bind (perform (CaptureFailure cid) (h_captureFailure h cid)) (\<lambda>i. eff_return (failure_message i)))
       (\<lambda>_. eff_return ''Healthcheck timeout (failed to capture container exit info)'')"

definition create_spec_of :: "handler_context \<Rightarrow> service_definition \<Rightarrow> create_spec" where
  "create_spec_of c s =
     \<lparr>cs_service = hc_name c, cs_definition = s, cs_projectName = hc_projectName c, cs_stackId = hc_stackId c,
      cs_stackVersion = hc_stackVersion c, cs_environmentId = hc_environmentId c,
      cs_definitionHash = om_get (hc_hashes c) (hc_name c), cs_networkNames = hc_networkNames c\<rparr>"

text \<open>Create, attach every network, start, wait: what a create and a recreate share.\<close>

definition start_service ::
  "('w, 'y) host_scheme \<Rightarrow> handler_context \<Rightarrow> plan_action \<Rightarrow> service_definition \<Rightarrow> (('w, 'z) apply_state_scheme, service_result) eff" where
  "start_service h c a s =
     eff_then (prepareServiceContainer h s (configs_of c) (hc_projectName c)) (
     eff_bind (perform (CreateContainer (hc_name c) (om_get (hc_hashes c) (hc_name c))) (h_createContainer h (create_spec_of c s))) (\<lambda>cid.
     eff_then (perform (AttachNetworks cid (hc_name c)) (h_attachServiceNetworks h cid (hc_name c) s)) (
     eff_then (perform (StartContainer cid) (h_startContainer h cid)) (
     eff_bind (perform (WaitForHealthy cid) (h_waitForHealthy h cid)) (\<lambda>healthy.
     eff_bind (if healthy then eff_return None
        else eff_bind (buildPostStartFailureMessage h cid) (\<lambda>m. eff_return (Some m))) (\<lambda>e.
     eff_return (service_result_of c a healthy (Some cid) e)))))))"

definition clear_conflict :: "('w, 'y) host_scheme \<Rightarrow> handler_context \<Rightarrow> (('w, 'z) apply_state_scheme, unit) eff" where
  "clear_conflict h c =
     eff_bind (perform ListContainers (h_listContainers h)) (\<lambda>docker.
     (case removeConflictingContainer (hc_projectName c @ ''-'' @ hc_name c) (hc_stackId c) docker of
        None \<Rightarrow> eff_return ()
      | Some i \<Rightarrow> perform (StopAndRemove i) (h_stopAndRemove h i)))"

definition unknown_action :: "string" where
  "unknown_action = ''Unknown action: no-op''"

definition applyStateful :: "('w, 'y) host_scheme \<Rightarrow> handler_context \<Rightarrow> (('w, 'z) apply_state_scheme, service_result) eff" where
  "applyStateful h c =
     (let name = hc_name c;
          def = map_option (\<lambda>s. mergeDynamicEnv s (om_get (hc_envOverrides c) name)) (hc_serviceDef c)
      in case sa_action (hc_action c) of
           ActCreate \<Rightarrow>
             (case def of
                None \<Rightarrow> eff_throw (not_found c)
              | Some s \<Rightarrow> eff_then (clear_conflict h c) (start_service h c ActCreate s))
         | ActRecreate \<Rightarrow>
             (case def of
                None \<Rightarrow> eff_throw (not_found c)
              | Some s \<Rightarrow>
                  eff_then (case om_get (hc_containers c) name of
                      None \<Rightarrow> eff_return ()
                    | Some old \<Rightarrow> eff_catch (perform (StopAndRemove (ci_Id old)) (h_stopAndRemove h (ci_Id old)))
                        (\<lambda>_. eff_return ()))
                    (start_service h c ActRecreate s))
         | ActRemove \<Rightarrow>
             eff_then (case om_get (hc_containers c) name of
                 None \<Rightarrow> eff_return ()
               | Some old \<Rightarrow> perform (StopAndRemove (ci_Id old)) (h_stopAndRemove h (ci_Id old)))
               (eff_return (service_result_of c ActRemove True None None))
         | _ \<Rightarrow> eff_throw unknown_action)"

section \<open>The context of a machine\<close>

definition resolveStackMountSource :: "(string \<times> json) list \<Rightarrow> string \<Rightarrow> string" where
  "resolveStackMountSource m project =
     (let src = field_str ''source'' (JObj m) in
      if field_str ''type'' (JObj m) = ''volume'' \<and> \<not> includes_str src ''/'' then project @ ''_'' @ src else src)"

definition mountsToDeploymentVolumes :: "json list option \<Rightarrow> string \<Rightarrow> deployment_volume list" where
  "mountsToDeploymentVolumes mounts project =
     map (\<lambda>j. let m = nullish (as_obj (Some j)) [] in
        \<lparr>hostPath = resolveStackMountSource m project, containerPath = field_str ''target'' (JObj m),
         volume_mode = Some (if json_truthy (map_of m ''readOnly'') then ''ro'' else ''rw''),
         preResolved = Some True\<rparr>) (nullish mounts [])"

fun json_int :: "json option \<Rightarrow> int" where
  "json_int (Some (JNum n)) = n"
| "json_int _ = 0"

text \<open>Resolved ports and durations are numbers.\<close>

definition port_of_json :: "json \<Rightarrow> container_port" where
  "port_of_json j =
     (let m = nullish (as_obj (Some j)) [] in
      \<lparr>cp_containerPort = json_int (map_of m ''containerPort''), cp_hostPort = json_int (map_of m ''hostPort''),
       cp_protocol = field_str ''protocol'' (JObj m)\<rparr>)"

text \<open>\<open>if (!xs.includes(x)) xs.push(x)\<close>.\<close>

definition push_new :: "string \<Rightarrow> string list \<Rightarrow> string list" where
  "push_new x xs = (if x \<in> set xs then xs else xs @ [x])"

definition container_networks ::
  "(string \<times> string) list \<Rightarrow> string list \<Rightarrow> service_definition \<Rightarrow> string option \<Rightarrow> string list" where
  "container_networks infra names s egress =
     (let joins = filter (\<lambda>n. n \<noteq> []) (map js_string (nullish (as_arr (config_field s ''joinNetworks'')) []))
      in foldl (\<lambda>xs x. push_new x xs) []
           (map snd infra @ names @ joins @ (if truthy egress then [the egress] else [])))"

definition machine_context ::
  "handler_context \<Rightarrow> service_definition \<Rightarrow> (string \<times> json) list \<Rightarrow> string \<Rightarrow> int \<Rightarrow> haproxy_environment \<Rightarrow>
   (string \<times> json) list \<Rightarrow> string option \<Rightarrow> string option \<Rightarrow> source_ctx" where
  "machine_context c s routing suffix now he egressEnv egress tls =
     (let cc = container_config s; health = nullish (as_obj (map_of cc ''healthcheck'')) [];
          str = (\<lambda>k. case map_of routing k of Some (JStr v) \<Rightarrow> Some v | _ \<Rightarrow> None)
      in \<lparr>deploymentId = ''stack-'' @ hc_stackId c @ ''-'' @ hc_name c @ ''-'' @ string_of_int now,
          configurationId = hc_stackId c, applicationName = ''stk-'' @ hc_stackName c @ ''-'' @ hc_name c,
          environmentId = he_environmentId he, environmentName = he_environmentName he,
          haproxyContainerId = he_haproxyContainerId he, haproxyNetworkName = he_haproxyNetworkName he,
          error = None, retryCount = 0, triggerType = ''manual'', triggeredBy = None, startTime = now, config = None,
          dockerImage = sd_dockerImage s @ '':'' @ sd_dockerTag s, userEventId = None,
          containerName = Some (hc_projectName c @ ''-'' @ hc_name c @ ''-'' @ suffix), containerIpAddress = None,
          containerPort = Some (json_int (map_of routing ''listeningPort'')), validationErrors = 0,
          hostname = str ''hostname'', enableSsl = Some (truthy tls),
          tlsCertificateId = (if truthy tls then tls else None),
          certificateStatus = (if truthy tls then Some ''ACTIVE'' else None), networkType = None,
          healthCheckEndpoint = Some (nullish (str ''healthCheckEndpoint'') ''/''),
          healthCheckInterval = Some (if json_truthy (map_of health ''interval'') then json_int (map_of health ''interval'') else 2000),
          healthCheckRetries = Some (json_int (Some (json_or (map_of health ''retries'') (JNum 2)))),
          healthCheckTimeoutMs = Some (resolveHealthCheckTimeoutMs (case map_of health ''startPeriod'' of
              None \<Rightarrow> None | Some JNull \<Rightarrow> None | Some j \<Rightarrow> Some (json_int (Some j)))),
          containerPorts = Some (map port_of_json (container_ports s)),
          containerVolumes = Some (mountsToDeploymentVolumes (arr_field cc ''mounts'') (hc_projectName c)),
          containerEnvironment = Some (map (\<lambda>(k, v). (k, js_string v)) (obj_merge egressEnv (obj_field cc ''env''))),
          containerLabels = Some (map (\<lambda>(k, v). (k, js_string v)) (obj_merge
            [(''mini-infra.stack'', JStr (hc_stackName c)), (''mini-infra.stack-id'', JStr (hc_stackId c)),
             (''mini-infra.service'', JStr (hc_name c)),
             (''mini-infra.environment'', or_null (map_option JStr (hc_environmentId c))),
             (''mini-infra.definition-hash'', JStr (nullish (om_get (hc_hashes c) (hc_name c)) [])),
             (''mini-infra.stack-version'', JStr (string_of_int (hc_stackVersion c)))] (obj_field cc ''labels''))),
          containerNetworks = Some (container_networks (hc_infraNetworks c) (hc_networkNames c) s egress)\<rparr>)"

definition buildStateMachineContext ::
  "('w, 'y) host_scheme \<Rightarrow> handler_context \<Rightarrow> service_definition \<Rightarrow> (string \<times> json) list \<Rightarrow> (('w, 'z) apply_state_scheme, source_ctx) eff" where
  "buildStateMachineContext h c s routing =
     (let bypass = (config_field s ''egressBypass'' = Some (JBool True)) in
      eff_bind (eff_get (\<lambda>t. h_suffix h (ap_world t))) (\<lambda>suffix.
      eff_bind (perform ReadDatabase (h_haproxyEnvironment h (hc_environmentId c))) (\<lambda>env.
      (case env of
         None \<Rightarrow> eff_throw (''HAProxy environment context not available for environment '' @
           nullish (hc_environmentId c) ''null'')
       | Some he \<Rightarrow>
           eff_bind (perform ReadDatabase (h_egressEnv h (hc_environmentId c) bypass)) (\<lambda>egressEnv.
           eff_bind (if truthy (hc_environmentId c) \<and> \<not> bypass
               then eff_catch (perform ReadDatabase (h_egressNetwork h (the (hc_environmentId c)))) (\<lambda>_. eff_return None)
               else eff_return None) (\<lambda>egress.
           eff_bind (case map_of routing ''tlsCertificate'' of
               Some (JStr t) \<Rightarrow> if t = [] then eff_return None
                 else perform ReadDatabase (h_tlsResource h (hc_stackId c) t)
             | _ \<Rightarrow> eff_return None) (\<lambda>tls.
           eff_bind (eff_get (\<lambda>t. h_now h (ap_world t))) (\<lambda>now.
           eff_return (machine_context c s routing suffix now he egressEnv egress tls)))))))))"

text \<open>\<open>{ ...baseContext, ...}\<close>: the fresh flags each machine is started with.\<close>

definition initial_input :: "source_ctx \<Rightarrow> ini_ctx" where
  "initial_input b = source_ctx.extend b (ini_ctx.fields None False False False False False None)"

definition update_input :: "source_ctx \<Rightarrow> string option \<Rightarrow> bg_ctx" where
  "update_input b old =
     source_ctx.extend b (bg_ctx.fields False False False False False False False None None 0 old None)"

definition blue_green_input :: "source_ctx \<Rightarrow> string option \<Rightarrow> bgd_ctx" where
  "blue_green_input b old = bg_ctx.extend (update_input b old) (bgd_ctx.fields False None)"

definition removal_input :: "source_ctx \<Rightarrow> string option \<Rightarrow> rem_ctx" where
  "removal_input b cid = deploy_ids.extend (deploy_ids.truncate b)
     (rem_ctx.fields cid (case cid of None \<Rightarrow> [] | Some i \<Rightarrow> [i]) False False False False)"

section \<open>Services behind HAProxy\<close>

definition old_container :: "handler_context \<Rightarrow> string option" where
  "old_container c = map_option ci_Id (om_get (hc_containers c) (hc_name c))"

definition machine_result ::
  "handler_context \<Rightarrow> plan_action \<Rightarrow> bool \<Rightarrow> string option \<Rightarrow> string option \<Rightarrow> string \<Rightarrow> service_result" where
  "machine_result c a ok cid e fallback =
     service_result_of c a ok cid (if ok then None else Some (nullish e fallback))"

text \<open>The definition with its dynamic variables and its routing, or the error that is thrown.\<close>

definition routed :: "handler_context \<Rightarrow> string \<Rightarrow> string + service_definition \<times> (string \<times> json) list" where
  "routed c kind =
     (case hc_serviceDef c of
        None \<Rightarrow> Inl (not_found c)
      | Some s \<Rightarrow>
          (case as_obj (sd_routing s) of
             None \<Rightarrow> Inl (kind @ '' service \"'' @ hc_name c @ ''\" requires routing configuration'')
           | Some r \<Rightarrow> Inr (mergeDynamicEnv s (om_get (hc_envOverrides c) (hc_name c)), r)))"

definition applyStatelessWeb :: "('w, 'y) host_scheme \<Rightarrow> handler_context \<Rightarrow> (('w, 'z) apply_state_scheme, service_result) eff" where
  "applyStatelessWeb h c =
     eff_bind (lift_result (routed c ''StatelessWeb'')) (\<lambda>(s, routing).
     eff_bind (buildStateMachineContext h c s routing) (\<lambda>base.
     (case sa_action (hc_action c) of
        ActCreate \<Rightarrow>
          eff_then (prepareServiceContainer h s (configs_of c) (hc_projectName c)) (
          eff_bind (perform (RunInitial (hc_name c)) (h_runInitial h (initial_input base))) (\<lambda>(v, x).
          eff_return (machine_result c ActCreate (v = ini_state.completed) (containerId x) (error x) ''Deployment failed'')))
      | ActRecreate \<Rightarrow>
          eff_then (prepareServiceContainer h s (configs_of c) (hc_projectName c)) (
          eff_bind (perform (RunBlueGreen (hc_name c) (old_container c)) (h_runBlueGreen h (blue_green_input base (old_container c)))) (\<lambda>(v, x).
          eff_return (machine_result c ActRecreate (v = bg_state.completed) (newContainerId x) (error x) ''Blue-green deployment failed'')))
      | ActRemove \<Rightarrow>
          eff_bind (perform (RunRemoval (hc_name c) (old_container c)) (h_runRemoval h (removal_input base (old_container c)))) (\<lambda>(v, x).
          eff_return (machine_result c ActRemove (v = rem_state.completed) None (error x) ''Removal failed''))
      | _ \<Rightarrow> eff_throw unknown_action)))"

definition updateStatelessWeb :: "('w, 'y) host_scheme \<Rightarrow> handler_context \<Rightarrow> (('w, 'z) apply_state_scheme, service_result) eff" where
  "updateStatelessWeb h c =
     eff_bind (lift_result (routed c ''StatelessWeb'')) (\<lambda>(s, routing).
     eff_bind (buildStateMachineContext h c s routing) (\<lambda>base.
     eff_then (prepareServiceContainer h s (configs_of c) (hc_projectName c)) (
     eff_bind (perform (RunUpdate (hc_name c) (old_container c)) (h_runUpdate h (update_input base (old_container c)))) (\<lambda>(v, x).
     eff_return (machine_result c ActUpdate (v = bg_state.completed) (newContainerId x) (error x) ''Blue-green update failed'')))))"

section \<open>Adopted containers\<close>

definition adopted_backend :: "handler_context \<Rightarrow> string" where
  "adopted_backend c = ''stk-'' @ hc_stackName c @ ''-'' @ hc_name c"

definition routing_ctx :: "handler_context \<Rightarrow> string \<Rightarrow> string \<Rightarrow> (string \<times> json) list \<Rightarrow> routing_context" where
  "routing_ctx c cid cname routing =
     \<lparr>rx_serviceName = hc_name c, rx_containerId = cid, rx_containerName = cname, rx_routing = routing,
      rx_environmentId = hc_environmentId c, rx_stackId = hc_stackId c, rx_stackName = hc_stackName c\<rparr>"

definition cleanupAdoptedWebRouting ::
  "('w, 'y) host_scheme \<Rightarrow> handler_context \<Rightarrow> string \<Rightarrow> (string \<times> json) list \<Rightarrow> bool \<Rightarrow> (('w, 'z) apply_state_scheme, unit) eff" where
  "cleanupAdoptedWebRouting h c cname routing drain =
     (let b = adopted_backend c in
      eff_then (perform HAProxyClient (h_haproxyClient h (hc_environmentId c))) (
      eff_bind (perform ReadDatabase (h_backendServers h b (hc_environmentId c))) (\<lambda>servers.
      eff_then (case servers of
          None \<Rightarrow> eff_return ()
        | Some names \<Rightarrow>
            eff_then (eff_each (\<lambda>n. eff_catch
                (if drain then perform (DrainServer b n) (h_drainAndRemoveServer h b n)
                 else perform (DeleteServer b n) (h_deleteServer h b n)) (\<lambda>_. eff_return ())) names)
              (if drain then eff_return () else perform (DeleteServerRows b) (h_deleteServerRows h b)))
        (perform (RemoveRoute (hc_name c)) (h_removeRoute h (routing_ctx c [] cname routing))))))"

definition setup_adopted ::
  "('w, 'y) host_scheme \<Rightarrow> handler_context \<Rightarrow> service_definition \<Rightarrow> (string \<times> json) list \<Rightarrow> (string \<times> json) list \<Rightarrow> string \<Rightarrow>
   container_info \<Rightarrow> (('w, 'z) apply_state_scheme, service_result) eff" where
  "setup_adopted h c s routing adopted cname target =
     (let r = (case map_of adopted ''listeningPort'' of
          None \<Rightarrow> om_delete ''listeningPort'' routing | Some p \<Rightarrow> om_set ''listeningPort'' p routing);
          ctx = routing_ctx c (ci_Id target) cname r
      in eff_then (perform HAProxyClient (h_haproxyClient h (hc_environmentId c))) (
         eff_then (perform (AttachNetworks (ci_Id target) (hc_name c)) (h_attachServiceNetworks h (ci_Id target) (hc_name c) s)) (
         eff_bind (perform (SetupBackend (hc_name c) (ci_Id target)) (h_setupBackendAndServer h ctx)) (\<lambda>(backend, server).
         eff_bind (case map_of routing ''tlsCertificate'' of
             Some (JStr t) \<Rightarrow> if t = [] then eff_return None else perform ReadDatabase (h_tlsResource h (hc_stackId c) t)
           | _ \<Rightarrow> eff_return None) (\<lambda>tls.
         eff_then (perform (ConfigureRoute backend) (h_configureRoute h ctx backend (if truthy tls then tls else None))) (
         eff_then (perform (EnableRouteTraffic backend) (h_enableTraffic h backend server))
           (eff_return (service_result_of c (sa_action (hc_action c)) True (Some (ci_Id target)) None))))))))"

definition applyAdoptedWeb :: "('w, 'y) host_scheme \<Rightarrow> handler_context \<Rightarrow> (('w, 'z) apply_state_scheme, service_result) eff" where
  "applyAdoptedWeb h c =
     (case hc_serviceDef c of
        None \<Rightarrow> eff_throw (not_found c)
      | Some s \<Rightarrow>
          (case as_obj (sd_routing s) of
             None \<Rightarrow> eff_throw (''AdoptedWeb service \"'' @ hc_name c @ ''\" requires routing configuration'')
           | Some routing \<Rightarrow>
               (case as_obj (sd_adoptedContainer s) of
                  None \<Rightarrow> eff_throw (''AdoptedWeb service \"'' @ hc_name c @ ''\" requires adoptedContainer configuration'')
                | Some adopted \<Rightarrow>
                    (let a = sa_action (hc_action c); cname = field_str ''containerName'' (JObj adopted) in
                     if a = ActCreate \<or> a = ActRecreate then
                       eff_then (if a = ActRecreate
                           then eff_catch (cleanupAdoptedWebRouting h c cname routing False) (\<lambda>_. eff_return ())
                           else eff_return ()) (
                       eff_bind (perform ListContainers (h_listRunning h cname)) (\<lambda>running.
                       (case find (\<lambda>x. cname \<in> set (map strip_slash (ci_Names x))) running of
                          None \<Rightarrow> eff_return (service_result_of c a False None
                            (Some (''Adopted container \"'' @ cname @ ''\" not found or not running'')))
                        | Some target \<Rightarrow> setup_adopted h c s routing adopted cname target)))
                     else if a = ActRemove then
                       eff_catch (eff_then (cleanupAdoptedWebRouting h c cname routing True)
                           (eff_return (service_result_of c ActRemove True None None)))
                         (\<lambda>e. eff_return (service_result_of c ActRemove False None (Some e)))
                     else eff_return (service_result_of c a True None None)))))"

section \<open>What an operation adds to the trace\<close>

definition traced :: "(host_call \<Rightarrow> bool) \<Rightarrow> (('w, 'z) apply_state_scheme, 'a) eff \<Rightarrow> bool" where
  "traced P m \<longleftrightarrow> (\<forall>s. \<exists>ks. ap_calls (snd (m s)) = ap_calls s @ ks \<and> list_all P ks)"

named_theorems traced \<open>the calls of the host an operation makes\<close>

lemma tracedD:
  "traced P m \<Longrightarrow> m s = (r, t) \<Longrightarrow> \<exists>ks. ap_calls t = ap_calls s @ ks \<and> list_all P ks"
  unfolding traced_def by (metis snd_conv)

lemma tracedI:
  "(\<And>s r t. m s = (r, t) \<Longrightarrow> \<exists>ks. ap_calls t = ap_calls s @ ks \<and> list_all P ks) \<Longrightarrow> traced P m"
  unfolding traced_def by (metis prod.collapse)

lemma traced_perform [traced]: "P k \<Longrightarrow> traced P (perform k f)"
  by (simp add: traced_def perform_def split: prod.split)

lemma traced_silent: "(\<And>s. ap_calls (snd (m s)) = ap_calls s) \<Longrightarrow> traced P m"
  unfolding traced_def by (metis append_Nil2 list.pred_inject(1))

lemma traced_return [traced]: "traced P (eff_return x)"
  by (rule traced_silent) (simp add: eff_return_def)

lemma traced_throw [traced]: "traced P (eff_throw e)"
  by (rule traced_silent) (simp add: eff_throw_def)

lemma traced_get [traced]: "traced P (eff_get f)"
  by (rule traced_silent) (simp add: eff_get_def)

lemma traced_lift [traced]: "traced P (lift_result r)"
  by (cases r) (simp_all add: lift_result_def traced)

lemma traced_modify [traced]: "(\<And>s. ap_calls (f s) = ap_calls s) \<Longrightarrow> traced P (eff_modify f)"
  by (rule traced_silent) (simp add: eff_modify_def)

lemma traced_seq:
  assumes "traced P m" and "\<And>r. traced P (f r)"
    and "\<And>s. n s = (case m s of (r, u) \<Rightarrow> f r u)"
  shows "traced P n"
proof (rule tracedI)
  fix s r t assume "n s = (r, t)"
  with assms(3) obtain q u where m: "m s = (q, u)" and f: "f q u = (r, t)" by (metis prod.case_eq_if prod.collapse)
  from tracedD [OF assms(1) m] obtain ks where "ap_calls u = ap_calls s @ ks" "list_all P ks" by blast
  moreover from tracedD [OF assms(2) f] obtain ls where "ap_calls t = ap_calls u @ ls" "list_all P ls" by blast
  ultimately show "\<exists>ks. ap_calls t = ap_calls s @ ks \<and> list_all P ks" by (intro exI [of _ "ks @ ls"]) simp
qed

lemma traced_bind [traced]: "traced P m \<Longrightarrow> (\<And>x. traced P (f x)) \<Longrightarrow> traced P (eff_bind m f)"
  by (rule traced_seq [where m = m and f = "\<lambda>r. case r of Inl e \<Rightarrow> eff_throw e | Inr x \<Rightarrow> f x"])
    (auto simp: eff_bind_def eff_throw_def intro: traced_throw [unfolded eff_throw_def] split: sum.split prod.split)

lemma traced_then [traced]: "traced P m \<Longrightarrow> traced P n \<Longrightarrow> traced P (eff_then m n)"
  unfolding eff_then_def by (rule traced_bind)

lemma traced_catch [traced]: "traced P m \<Longrightarrow> (\<And>e. traced P (h e)) \<Longrightarrow> traced P (eff_catch m h)"
  by (rule traced_seq [where m = m and f = "\<lambda>r. case r of Inl e \<Rightarrow> h e | Inr x \<Rightarrow> eff_return x"])
    (auto simp: eff_catch_def eff_return_def intro: traced_return [unfolded eff_return_def] split: sum.split prod.split)

lemma traced_each [traced]: "(\<And>x. x \<in> set xs \<Longrightarrow> traced P (f x)) \<Longrightarrow> traced P (eff_each f xs)"
  by (induction xs) (simp_all add: traced)

lemma traced_mono: "traced P m \<Longrightarrow> (\<And>k. P k \<Longrightarrow> Q k) \<Longrightarrow> traced Q m"
  unfolding traced_def by (metis list_all_iff)

lemma perform_Inr:
  "perform k f s = (Inr x, t) \<longleftrightarrow>
   (\<exists>w. f (ap_world s) = (Inr x, w) \<and> t = s\<lparr>ap_world := w, ap_calls := ap_calls s @ [k]\<rparr>)"
  by (auto simp: perform_def split: prod.split)

lemma perform_calls: "ap_calls (snd (perform k f s)) = ap_calls s @ [k]"
  by (simp add: perform_def split: prod.split)

section \<open>Bringing a container up\<close>

definition prepare_calls :: "service_definition \<Rightarrow> json list \<Rightarrow> host_call list" where
  "prepare_calls s configs = [PullImage (sd_dockerImage s) (sd_dockerTag s)] @
     (if nullish (sd_initCommands s) [] \<noteq> [] then [RunInitCommands] else []) @
     (if configs \<noteq> [] then [WriteConfigFiles] else [])"

lemma prepare_run:
  "prepareServiceContainer h s configs p u = (Inr x, t) \<Longrightarrow> ap_calls t = ap_calls u @ prepare_calls s configs"
  by (auto simp: prepareServiceContainer_def eff_then_Inr perform_Inr prepare_calls_def Let_def split: if_splits)

lemma failure_message_run:
  "buildPostStartFailureMessage h cid s = (r, t) \<Longrightarrow> ap_calls t = ap_calls s @ [CaptureFailure cid] \<and> (\<exists>m. r = Inr m)"
  by (auto simp: buildPostStartFailureMessage_def eff_catch_def eff_bind_def perform_def eff_return_def
      split: prod.splits sum.splits)

lemma start_run:
  assumes "start_service h c a d s = (Inr r, t)"
  shows "\<exists>cid. ap_calls t = ap_calls s @ prepare_calls d (configs_of c) @
      [CreateContainer (hc_name c) (om_get (hc_hashes c) (hc_name c)), AttachNetworks cid (hc_name c),
       StartContainer cid, WaitForHealthy cid] @ (if sv_success r then [] else [CaptureFailure cid]) \<and>
    sv_containerId r = Some cid \<and> sv_serviceName r = hc_name c \<and> sv_action r = a \<and>
    (sv_success r \<longleftrightarrow> sv_error r = None)"
proof -
  from assms obtain x1 u1 cid u2 x3 u3 x4 u4 healthy u5 e where
    prep: "prepareServiceContainer h d (configs_of c) (hc_projectName c) s = (Inr x1, u1)" and
    create: "perform (CreateContainer (hc_name c) (om_get (hc_hashes c) (hc_name c))) (h_createContainer h (create_spec_of c d)) u1 = (Inr cid, u2)" and
    attach: "perform (AttachNetworks cid (hc_name c)) (h_attachServiceNetworks h cid (hc_name c) d) u2 = (Inr x3, u3)" and
    start: "perform (StartContainer cid) (h_startContainer h cid) u3 = (Inr x4, u4)" and
    wait: "perform (WaitForHealthy cid) (h_waitForHealthy h cid) u4 = (Inr healthy, u5)" and
    fin: "(if healthy then eff_return None else eff_bind (buildPostStartFailureMessage h cid) (\<lambda>m. eff_return (Some m))) u5 = (Inr e, t)" and
    r: "r = service_result_of c a healthy (Some cid) e"
    unfolding start_service_def eff_then_Inr eff_bind_Inr eff_return_Inr by blast
  have "ap_calls u5 = ap_calls s @ prepare_calls d (configs_of c) @
      [CreateContainer (hc_name c) (om_get (hc_hashes c) (hc_name c)), AttachNetworks cid (hc_name c),
       StartContainer cid, WaitForHealthy cid]"
    using prepare_run [OF prep] create attach start wait by (auto simp: perform_Inr)
  moreover have "ap_calls t = ap_calls u5 @ (if healthy then [] else [CaptureFailure cid]) \<and> (healthy \<longleftrightarrow> e = None)"
    using fin failure_message_run [of h cid u5] by (auto simp: eff_bind_Inr split: if_splits)
  ultimately show ?thesis by (auto simp: r service_result_of_def)
qed

lemma clear_run:
  assumes "clear_conflict h c s = (Inr x, t)"
  shows "\<exists>stops. ap_calls t = ap_calls s @ ListContainers # map StopAndRemove stops \<and> length stops \<le> 1"
proof -
  from assms obtain docker u where list: "perform ListContainers (h_listContainers h) s = (Inr docker, u)" and
    rest: "(case removeConflictingContainer (hc_projectName c @ ''-'' @ hc_name c) (hc_stackId c) docker of
        None \<Rightarrow> eff_return () | Some i \<Rightarrow> perform (StopAndRemove i) (h_stopAndRemove h i)) u = (Inr x, t)"
    unfolding clear_conflict_def eff_bind_Inr by blast
  let ?i = "removeConflictingContainer (hc_projectName c @ ''-'' @ hc_name c) (hc_stackId c) docker"
  have "ap_calls t = ap_calls s @ ListContainers # map StopAndRemove (case ?i of None \<Rightarrow> [] | Some i \<Rightarrow> [i])"
    using list rest by (cases ?i) (auto simp: perform_Inr)
  then show ?thesis by (intro exI [of _ "case ?i of None \<Rightarrow> [] | Some i \<Rightarrow> [i]"]) (simp split: option.split)
qed

text \<open>What a recreate clears away.\<close>

definition old_stops :: "handler_context \<Rightarrow> host_call list" where
  "old_stops c = (case old_container c of None \<Rightarrow> [] | Some i \<Rightarrow> [StopAndRemove i])"

definition start_calls :: "handler_context \<Rightarrow> service_definition \<Rightarrow> string \<Rightarrow> bool \<Rightarrow> host_call list" where
  "start_calls c d cid ok = prepare_calls d (configs_of c) @
     [CreateContainer (hc_name c) (om_get (hc_hashes c) (hc_name c)), AttachNetworks cid (hc_name c),
      StartContainer cid, WaitForHealthy cid] @ (if ok then [] else [CaptureFailure cid])"


section \<open>What an operation returns\<close>

definition returns :: "('a \<Rightarrow> bool) \<Rightarrow> ('s, 'a) eff \<Rightarrow> bool" where
  "returns P m \<longleftrightarrow> (\<forall>s r t. m s = (Inr r, t) \<longrightarrow> P r)"

named_theorems returns \<open>what an operation returns\<close>

lemma returnsD: "returns P m \<Longrightarrow> m s = (Inr r, t) \<Longrightarrow> P r"
  unfolding returns_def by blast

lemma returns_return [returns]: "P x \<Longrightarrow> returns P (eff_return x)"
  by (simp add: returns_def)

lemma returns_throw [returns]: "returns P (eff_throw e)"
  by (simp add: returns_def)

lemma returns_bind [returns]: "(\<And>x. returns P (f x)) \<Longrightarrow> returns P (eff_bind m f)"
  unfolding returns_def eff_bind_Inr by blast

lemma returns_then [returns]: "returns P n \<Longrightarrow> returns P (eff_then m n)"
  unfolding eff_then_def by (rule returns_bind)

lemma returns_catch [returns]: "returns P m \<Longrightarrow> (\<And>e. returns P (h e)) \<Longrightarrow> returns P (eff_catch m h)"
  unfolding returns_def eff_catch_def by (fastforce split: prod.splits sum.splits)

lemma service_result_name [simp]: "sv_serviceName (service_result_of c a ok cid e) = hc_name c"
  by (simp add: service_result_of_def)

lemma machine_result_name [simp]: "sv_serviceName (machine_result c a ok cid e f) = hc_name c"
  by (simp add: machine_result_def)

lemma stateful_names: "returns (\<lambda>r. sv_serviceName r = hc_name c) (applyStateful h c)"
  by (auto simp: applyStateful_def start_service_def Let_def intro!: returns split: plan_action.split option.split)

lemma stateless_names: "returns (\<lambda>r. sv_serviceName r = hc_name c) (applyStatelessWeb h c)"
  by (auto simp: applyStatelessWeb_def intro!: returns split: plan_action.split prod.split)

lemma update_names: "returns (\<lambda>r. sv_serviceName r = hc_name c) (updateStatelessWeb h c)"
  by (auto simp: updateStatelessWeb_def intro!: returns split: prod.split)

lemma setup_names: "returns (\<lambda>r. sv_serviceName r = hc_name c) (setup_adopted h c d r a n x)"
  by (auto simp: setup_adopted_def Let_def intro!: returns split: prod.split)

lemma adopted_names: "returns (\<lambda>r. sv_serviceName r = hc_name c) (applyAdoptedWeb h c)"
  by (auto simp: applyAdoptedWeb_def Let_def intro!: returns setup_names split: option.split)

section \<open>A recreated web service\<close>

lemma recreate_run:
  assumes "applyStatelessWeb h c s = (Inr r, t)" and "sa_action (hc_action c) = ActRecreate"
  shows "\<exists>base w v x w'. h_runBlueGreen h (blue_green_input base (old_container c)) w = (Inr (v, x), w') \<and>
    r = machine_result c ActRecreate (v = bg_state.completed) (newContainerId x) (error x) ''Blue-green deployment failed''"
proof -
  from assms obtain d routing u base u1 where
    run: "eff_then (prepareServiceContainer h d (configs_of c) (hc_projectName c)) (
          eff_bind (perform (RunBlueGreen (hc_name c) (old_container c)) (h_runBlueGreen h (blue_green_input base (old_container c)))) (\<lambda>(v, x).
          eff_return (machine_result c ActRecreate (v = bg_state.completed) (newContainerId x) (error x) ''Blue-green deployment failed''))) u1 = (Inr r, t)"
    unfolding applyStatelessWeb_def by (auto simp: eff_bind_Inr split: prod.splits)
  then obtain w y w' where "h_runBlueGreen h (blue_green_input base (old_container c)) w = (Inr y, w')"
    "r = machine_result c ActRecreate (fst y = bg_state.completed) (newContainerId (snd y)) (error (snd y)) ''Blue-green deployment failed''"
    unfolding eff_then_Inr eff_bind_Inr case_prod_beta eff_return_Inr perform_Inr by blast
  then show ?thesis by (metis prod.collapse)
qed

text \<open>C3: A recreated web service is reported successful only after its traffic moved to a healthy new
  container. Let the runner resolve only to the configuration of a run of the blue-green
  machine started on its input. Then a successful result of a recreate comes from a run that began with
  the service's present container as the old one, ended in \<open>completed\<close>, had the new container
  healthy and configured, opened traffic to it and validated that; the result names that container,
  and any error it recorded is one of the non-critical ones.\<close>

theorem recreate_success_moved_traffic:
  assumes "applyStatelessWeb h c s = (Inr r, t)" and "sa_action (hc_action c) = ActRecreate" and "sv_success r"
    and "\<forall>x w y w'. h_runBlueGreen h x w = (Inr y, w') \<longrightarrow> (\<exists>now ins. y = fst (bgd_run now (Some x) ins))"
  shows "\<exists>input now ins x. oldContainerId input = old_container c \<and>
    fst (bgd_run now (Some input) ins) = (bg_state.completed, x) \<and>
    greenHealthy x \<and> greenBackendConfigured x \<and> trafficOpenedToGreen x \<and> trafficValidated x \<and>
    set_option (error x) \<subseteq> bg_non_critical \<and> sv_containerId r = newContainerId x"
proof -
  from recreate_run [OF assms(1,2)] obtain base w v x w' where
    run: "h_runBlueGreen h (blue_green_input base (old_container c)) w = (Inr (v, x), w')" and
    r: "r = machine_result c ActRecreate (v = bg_state.completed) (newContainerId x) (error x) ''Blue-green deployment failed''"
    by blast
  let ?input = "blue_green_input base (old_container c)"
  from assms(3) have v: "v = bg_state.completed" by (simp add: r machine_result_def service_result_of_def)
  from assms(4) run obtain now ins where y: "fst (bgd_run now (Some ?input) ins) = (bg_state.completed, x)"
    unfolding v by metis
  have "bgd_inv (Option.bind (Some ?input) oldContainerId) (bg_state.completed, x)"
    using bgd_run_inv [of now "Some ?input" ins bg_state.completed x "snd (bgd_run now (Some ?input) ins)"] y
    by (metis prod.collapse)
  moreover have "oldContainerId ?input = old_container c"
    by (simp add: blue_green_input_def update_input_def source_ctx.defs bg_ctx.defs)
  moreover have "sv_containerId r = newContainerId x" by (simp add: r machine_result_def service_result_of_def)
  ultimately show ?thesis using y by (intro exI [of _ ?input] exI [of _ now] exI [of _ ins] exI [of _ x]) (simp add: bgd_inv_def Let_def)
qed

section \<open>A host, for the witnesses\<close>

definition answer :: "'a \<Rightarrow> 'w \<Rightarrow> (string + 'a) \<times> 'w" where
  "answer x w = (Inr x, w)"

text \<open>
  Every call succeeds; container ids count up; one container \<open>blue\<close> runs. A machine gets the events
  of a run that goes well.
\<close>

definition example_host :: "nat host" where
  "example_host =
     \<lparr>h_now = (\<lambda>w. 0), h_suffix = (\<lambda>w. ''x1''),
      h_listContainers = answer \<lparr>list_all_containers = [], list_by_stack = (\<lambda>_. []), list_by_name = (\<lambda>_. [])\<rparr>,
      h_listRunning = (\<lambda>_. answer []), h_stopAndRemove = (\<lambda>_. answer ()), h_pullImage = (\<lambda>_ _. answer ()),
      h_runInitCommands = (\<lambda>_ _. answer ()), h_writeConfigFiles = (\<lambda>_ _. answer ()),
      h_createContainer = (\<lambda>_ w. (Inr ''c1'', Suc w)), h_attachServiceNetworks = (\<lambda>_ _ _. answer ()),
      h_startContainer = (\<lambda>_. answer ()), h_waitForHealthy = (\<lambda>_. answer True),
      h_captureFailure = (\<lambda>_. answer \<lparr>fi_exitCode = None, fi_status = None, fi_tailLogs = None\<rparr>),
      h_haproxyEnvironment = (\<lambda>_. answer (Some \<lparr>he_environmentId = ''e1'', he_environmentName = ''prod'',
        he_haproxyContainerId = ''h1'', he_haproxyNetworkName = ''prod-applications''\<rparr>)),
      h_egressEnv = (\<lambda>_ _. answer []), h_egressNetwork = (\<lambda>_. answer None), h_tlsResource = (\<lambda>_ _. answer None),
      h_runInitial = (\<lambda>x. answer (ini_state.idle, x)),
      h_runBlueGreen = (\<lambda>x. answer (fst (bgd_run 0 (Some x) (bgd_events_to_cutover @ bgd_events_teardown)))),
      h_runUpdate = (\<lambda>x. answer (bg_state.idle, x)), h_runRemoval = (\<lambda>x. answer (rem_state.idle, x)),
      h_haproxyClient = (\<lambda>_. answer ()), h_backendServers = (\<lambda>_ _. answer None),
      h_drainAndRemoveServer = (\<lambda>_ _. answer ()), h_deleteServer = (\<lambda>_ _. answer ()),
      h_deleteServerRows = (\<lambda>_. answer ()), h_removeRoute = (\<lambda>_. answer ()),
      h_setupBackendAndServer = (\<lambda>_. answer (''b'', ''s'')), h_configureRoute = (\<lambda>_ _ _. answer ()),
      h_enableTraffic = (\<lambda>_ _. answer ())\<rparr>"

definition example_action :: "plan_action \<Rightarrow> service_action" where
  "example_action a = (no_op ''web'')\<lparr>sa_action := a\<rparr>"

definition example_handler :: "plan_action \<Rightarrow> string \<Rightarrow> handler_context" where
  "example_handler a ty =
     \<lparr>hc_action = example_action a,
      hc_serviceDef = Some (hash_example\<lparr>sd_serviceType := ty, sd_routing := Some (JObj [(''hostname'', JStr ''shop.test'')])\<rparr>),
      hc_projectName = ''prod-shop'', hc_stackId = ''s1'', hc_stackName = ''shop'', hc_stackVersion = 3,
      hc_environmentId = Some ''e1'', hc_networkNames = [], hc_hashes = [(''web'', ''sha256:0'')], hc_configs = [],
      hc_containers = [(''web'', plan_example_container ''prod-shop-web'' ''web'' ''sha256:1'')],
      hc_infraNetworks = [], hc_envOverrides = []\<rparr>"

definition start_state :: "nat apply_state" where
  "start_state = \<lparr>ap_world = 0, ap_calls = []\<rparr>"

lemma Inr_result: "isl (fst p) = False \<Longrightarrow> p = (Inr (projr (fst p)), snd p)"
  by (cases p) auto


lemma example_run_completes:
  "fst (fst (bgd_run 0 (Some x) (bgd_events_to_cutover @ bgd_events_teardown))) = bg_state.completed"
  by code_simp

lemma recreate_success_moved_traffic_witness:
  "\<exists>input now ins x. oldContainerId input = Some ''0123456789abcdef'' \<and>
    fst (bgd_run now (Some input) ins) = (bg_state.completed, x) \<and> trafficOpenedToGreen x \<and>
    sv_containerId (projr (fst (applyStatelessWeb example_host (example_handler ActRecreate ''StatelessWeb'') start_state))) = newContainerId x"
proof -
  let ?c = "example_handler ActRecreate ''StatelessWeb''"
  let ?p = "applyStatelessWeb example_host ?c start_state"
  have "isl (fst ?p) = False \<and> sv_success (projr (fst ?p))"
    by (simp add: applyStatelessWeb_def routed_def lift_result_def eff_defs perform_def answer_def example_host_def
        example_handler_def example_action_def start_state_def buildStateMachineContext_def prepareServiceContainer_def
        configs_of_def config_field_def hash_example_def mergeDynamicEnv_def example_run_completes machine_result_def
        service_result_of_def case_prod_beta Let_def)
  then have ok: "isl (fst ?p) = False" "sv_success (projr (fst ?p))" by blast+
  have act: "sa_action (hc_action ?c) = ActRecreate" "old_container ?c = Some ''0123456789abcdef''"
    by (simp_all add: example_handler_def example_action_def old_container_def no_op_def plan_example_container_def)
  have "\<forall>x w y w'. h_runBlueGreen example_host x w = (Inr y, w') \<longrightarrow> (\<exists>now ins. y = fst (bgd_run now (Some x) ins))"
    by (auto simp: example_host_def answer_def)
  from recreate_success_moved_traffic [OF Inr_result [OF ok(1)] act(1) ok(2) this] act(2) show ?thesis by auto
qed

end
