(* ===== verification/DynamicEnv.thy ===== *)
theory DynamicEnv
  imports ServiceHandlers
begin

text \<open>
  The environment variables an apply resolves for its services, \<open>resolveVaultEnv\<close> of
  \<open>stacks/stack-reconciler.ts\<close> with \<open>vault/vault-binding-resolver.ts\<close>, and the rows of a stack.
  The injectors (tunnel token, Tailscale key, NATS, Vault) are functions of the host.
\<close>

section \<open>The rows of a stack\<close>

record service_row =
  row_definition :: service_definition
  row_order :: int
  row_vaultAppRoleId :: "string option"
  row_lastAppliedVaultAppRoleId :: "string option"
  row_natsCredentialId :: "string option"

abbreviation row_name :: "service_row \<Rightarrow> string" where
  "row_name r \<equiv> sd_serviceName (row_definition r)"

record stack_network =
  sn_name :: string
  sn_driver :: "string option"

record stack_entity =
  se_id :: string
  se_name :: string
  se_environment :: "template_environment option"
  se_version :: int
  se_services :: "service_row list"
  se_networks :: "stack_network list"
  se_volumes :: "string list"
  se_parameters :: "(string \<times> json option) list"
  se_parameterValues :: "(string \<times> json) list"
  se_resourceInputs :: "(string \<times> string) list"
  se_resourceOutputs :: "(string \<times> string) list"
  se_resources :: resource_definitions
  se_templateVersion :: "int option"
  se_currentVersion :: "int option"
  se_vaultAppRoleId :: "string option"
  se_vaultFailClosed :: bool
  se_lastAppliedVaultAppRoleId :: "string option"
  se_status :: string
  se_lastAppliedVersion :: "int option"
  se_lastAppliedSnapshot :: "service_definition list option"
  se_lastAppliedHashes :: "(string \<times> string) list option"
  se_lastFailureReason :: "string option"

text \<open>The environment's row exists for every environment id.\<close>

abbreviation se_environmentId :: "stack_entity \<Rightarrow> string option" where
  "se_environmentId st \<equiv> map_option te_id (se_environment st)"

section \<open>The binding that counts\<close>

record vault_binding =
  vb_appRoleId :: "string option"
  vb_prevBoundAppRoleId :: "string option"
  vb_recordPerService :: bool

definition resolveEffectiveVaultBinding :: "stack_entity \<Rightarrow> service_row option \<Rightarrow> vault_binding" where
  "resolveEffectiveVaultBinding st row =
     (case row of
        Some r \<Rightarrow>
          if truthy (row_vaultAppRoleId r) then
            \<lparr>vb_appRoleId = row_vaultAppRoleId r, vb_prevBoundAppRoleId = row_lastAppliedVaultAppRoleId r,
             vb_recordPerService = True\<rparr>
          else \<lparr>vb_appRoleId = se_vaultAppRoleId st, vb_prevBoundAppRoleId = se_lastAppliedVaultAppRoleId st,
             vb_recordPerService = False\<rparr>
      | None \<Rightarrow> \<lparr>vb_appRoleId = se_vaultAppRoleId st, vb_prevBoundAppRoleId = se_lastAppliedVaultAppRoleId st,
             vb_recordPerService = False\<rparr>)"

section \<open>Resolving the variables\<close>

record vault_request =
  vr_appRoleId :: "string option"
  vr_failClosed :: bool
  vr_prevBoundAppRoleId :: "string option"
  vr_poolTokens :: "(string \<times> string) list"

record creds_file =
  cf_fileName :: string
  cf_contents :: string

record 'w env_host = "'w host" +
  e_vaultReady :: "'w \<Rightarrow> bool"
  e_tunnelToken :: "string option \<Rightarrow> (string \<times> json) list \<Rightarrow> 'w \<Rightarrow> (string + (string \<times> json) list option) \<times> 'w"
  e_tailscaleAuthkey :: "(string \<times> json) list \<Rightarrow> 'w \<Rightarrow> (string + (string \<times> json) list option) \<times> 'w"
  e_nats :: "string option \<Rightarrow> (string \<times> json) list \<Rightarrow> string \<Rightarrow> 'w \<Rightarrow>
    (string + ((string \<times> json) list \<times> creds_file list) option) \<times> 'w"
  e_vault :: "vault_request \<Rightarrow> (string \<times> json) list \<Rightarrow> 'w \<Rightarrow> (string + (string \<times> json) list option) \<times> 'w"

record env_result =
  er_overrides :: "(string \<times> (string \<times> json) list) list"
  er_bindings :: "(string \<times> string) list"
  er_files :: "(string \<times> creds_file) list"

definition empty_env :: env_result where
  "empty_env = \<lparr>er_overrides = [], er_bindings = [], er_files = []\<rparr>"

text \<open>\<open>if (values) overrides.set(name, { ...(overrides.get(name) ?? {}), ...values })\<close>.\<close>

definition add_override :: "string \<Rightarrow> (string \<times> json) list option \<Rightarrow> env_result \<Rightarrow> env_result" where
  "add_override name values r =
     (case values of
        None \<Rightarrow> r
      | Some vs \<Rightarrow> r\<lparr>er_overrides := om_set name
          (obj_merge (nullish (om_get (er_overrides r) name) []) vs) (er_overrides r)\<rparr>)"

definition dynamic_env :: "service_definition \<Rightarrow> (string \<times> json) list option" where
  "dynamic_env d = as_obj (config_field d ''dynamicEnv'')"

definition env_kinds :: "(string \<times> json) list \<Rightarrow> string list" where
  "env_kinds entries = map (\<lambda>(k, src). field_str ''kind'' src) entries"

definition approle_kinds :: "string list" where
  "approle_kinds = [''vault-role-id'', ''vault-wrapped-secret-id'']"

definition vault_kinds :: "string list" where
  "vault_kinds = [''vault-addr'', ''vault-role-id'', ''vault-wrapped-secret-id'', ''vault-kv'']"

definition nats_kinds :: "string list" where
  "nats_kinds = [''nats-url'', ''nats-creds'', ''nats-creds-file'', ''nats-signer-seed'', ''nats-account-public'']"

definition has_kind :: "string list \<Rightarrow> (string \<times> json) list \<Rightarrow> bool" where
  "has_kind ks entries \<longleftrightarrow> list_ex (\<lambda>k. k \<in> set ks) (env_kinds entries)"

definition wrap_failure :: "string \<Rightarrow> string \<Rightarrow> ('s, 'a) eff \<Rightarrow> ('s, 'a) eff" where
  "wrap_failure what name m =
     eff_catch m (\<lambda>e. eff_throw (what @ '' injection failed for service \"'' @ name @ ''\": '' @ e))"

text \<open>The tokens of the pools the entries name, without asking Vault.\<close>

definition pool_values :: "(string \<times> string) list \<Rightarrow> (string \<times> json) list \<Rightarrow> (string \<times> json) list" where
  "pool_values tokens entries =
     concat (map (\<lambda>(k, src).
        if field_str ''kind'' src = ''pool-management-token'' \<and> truthy (om_get tokens (field_str ''poolService'' src))
        then [(k, JStr (the (om_get tokens (field_str ''poolService'' src))))] else []) entries)"

definition inline_env ::
  "('w, 'y) env_host_scheme \<Rightarrow> stack_entity \<Rightarrow> string \<Rightarrow> (string \<times> json) list \<Rightarrow> (string \<times> json) list \<Rightarrow> env_result \<Rightarrow>
   (('w, 'z) apply_state_scheme, env_result) eff" where
  "inline_env h st name cc entries r =
     eff_bind (if has_kind [''cloudflare-tunnel-token''] entries
         then wrap_failure ''Cloudflare tunnel token'' name
           (perform (ResolveEnv name) (e_tunnelToken h (se_environmentId st) cc)) else eff_return None) (\<lambda>tunnel.
     eff_bind (if has_kind [''tailscale-authkey''] entries
         then wrap_failure ''Tailscale authkey'' name
           (perform (ResolveEnv name) (e_tailscaleAuthkey h cc)) else eff_return None) (\<lambda>key.
     eff_return (add_override name key (add_override name tunnel r))))"

definition nats_env ::
  "('w, 'y) env_host_scheme \<Rightarrow> stack_entity \<Rightarrow> service_row option \<Rightarrow> string \<Rightarrow> (string \<times> json) list \<Rightarrow> env_result \<Rightarrow>
   (('w, 'z) apply_state_scheme, env_result) eff" where
  "nats_env h st row name cc r =
     eff_bind (wrap_failure ''NATS credential'' name
         (perform (ResolveEnv name) (e_nats h (Option.bind row row_natsCredentialId) cc (se_id st)))) (\<lambda>resolved.
     (case resolved of
        None \<Rightarrow> eff_return r
      | Some (values, files) \<Rightarrow>
          eff_return ((add_override name (Some values) r)\<lparr>er_files :=
            foldl (\<lambda>m f. om_set (cf_fileName f) f m) (er_files r) files\<rparr>)))"

definition vault_env ::
  "('w, 'y) env_host_scheme \<Rightarrow> stack_entity \<Rightarrow> vault_binding \<Rightarrow> (string \<times> string) list \<Rightarrow> string \<Rightarrow>
   (string \<times> json) list \<Rightarrow> env_result \<Rightarrow> (('w, 'z) apply_state_scheme, env_result) eff" where
  "vault_env h st b tokens name cc r =
     eff_bind (wrap_failure ''Vault credential'' name
         (perform (ResolveEnv name) (e_vault h \<lparr>vr_appRoleId = vb_appRoleId b, vr_failClosed = se_vaultFailClosed st,
            vr_prevBoundAppRoleId = vb_prevBoundAppRoleId b, vr_poolTokens = tokens\<rparr> cc))) (\<lambda>values.
     eff_return (let q = add_override name values r in
       if vb_recordPerService b \<and> truthy (vb_appRoleId b)
       then q\<lparr>er_bindings := om_set name (the (vb_appRoleId b)) (er_bindings q)\<rparr> else q))"

definition unbound :: "string \<Rightarrow> string" where
  "unbound name = ''Service \"'' @ name @
     ''\" declares vault-role-id or vault-wrapped-secret-id but no AppRole is bound on the service or stack''"

text \<open>What follows the inline kinds, with the early exits of the loop.\<close>

definition secret_env ::
  "('w, 'y) env_host_scheme \<Rightarrow> stack_entity \<Rightarrow> (string \<times> string) list \<Rightarrow> bool \<Rightarrow> string \<Rightarrow> (string \<times> json) list \<Rightarrow>
   (string \<times> json) list \<Rightarrow> env_result \<Rightarrow> (('w, 'z) apply_state_scheme, env_result) eff" where
  "secret_env h st tokens ready name cc entries r =
     (let row = find (\<lambda>x. row_name x = name) (rev (se_services st));
          b = resolveEffectiveVaultBinding st row
      in if \<not> has_kind vault_kinds entries \<and> \<not> has_kind nats_kinds entries \<and> has_kind [''pool-management-token''] entries
         then eff_return (add_override name
           (if pool_values tokens entries = [] then None else Some (pool_values tokens entries)) r)
         else
           eff_bind (if has_kind nats_kinds entries then nats_env h st row name cc r else eff_return r) (\<lambda>q.
           if \<not> has_kind vault_kinds entries \<or> \<not> ready then eff_return q
           else if has_kind approle_kinds entries \<and> \<not> truthy (vb_appRoleId b) then eff_throw (unbound name)
           else vault_env h st b tokens name cc q))"

definition resolve_service_env ::
  "('w, 'y) env_host_scheme \<Rightarrow> stack_entity \<Rightarrow> (string \<times> string) list \<Rightarrow> bool \<Rightarrow> string \<times> service_definition \<Rightarrow>
   env_result \<Rightarrow> (('w, 'z) apply_state_scheme, env_result) eff" where
  "resolve_service_env h st tokens ready p r =
     (case dynamic_env (snd p) of
        None \<Rightarrow> eff_return r
      | Some entries \<Rightarrow>
          eff_bind (inline_env h st (fst p) (container_config (snd p)) entries r)
            (secret_env h st tokens ready (fst p) (container_config (snd p)) entries))"

fun eff_fold :: "('a \<Rightarrow> 'b \<Rightarrow> ('s, 'b) eff) \<Rightarrow> 'a list \<Rightarrow> 'b \<Rightarrow> ('s, 'b) eff" where
  "eff_fold f [] r = eff_return r"
| "eff_fold f (x # xs) r = eff_bind (f x r) (eff_fold f xs)"

text \<open>The services in question: those with an action, less the pools, which get their variables on spawn.\<close>

definition env_services ::
  "string list \<Rightarrow> (string \<times> service_definition) list \<Rightarrow> (string \<times> service_definition) list" where
  "env_services active defs =
     filter (\<lambda>(n, d). n \<in> set active \<and> sd_serviceType d \<noteq> ''Pool'' \<and> sd_serviceType d \<noteq> ''JobPool'') defs"

definition resolveVaultEnv ::
  "('w, 'y) env_host_scheme \<Rightarrow> stack_entity \<Rightarrow> (string \<times> service_definition) list \<Rightarrow> (string \<times> string) list \<Rightarrow>
   string list \<Rightarrow> (('w, 'z) apply_state_scheme, env_result) eff" where
  "resolveVaultEnv h st defs tokens active =
     eff_bind (eff_get (\<lambda>s. e_vaultReady h (ap_world s))) (\<lambda>ready.
     eff_fold (resolve_service_env h st tokens ready) (env_services active defs) empty_env)"

section \<open>Lemmas\<close>

lemma eff_fold_invariant:
  assumes "eff_fold f xs r s = (Inr q, t)" and "I r"
    and "\<And>x r s q t. x \<in> set xs \<Longrightarrow> I r \<Longrightarrow> f x r s = (Inr q, t) \<Longrightarrow> I q"
  shows "I q"
  using assms
proof (induction xs arbitrary: r s)
  case (Cons x xs)
  from Cons.prems(1) obtain r' u where x: "f x r s = (Inr r', u)" and rest: "eff_fold f xs r' u = (Inr q, t)"
    by (auto simp: eff_bind_Inr)
  have "I r'" by (rule Cons.prems(3) [OF _ Cons.prems(2) x]) simp
  from rest this show ?case by (rule Cons.IH) (rule Cons.prems(3) [OF list.set_intros(2)])
qed simp

lemma traced_fold [traced]: "(\<And>x r. x \<in> set xs \<Longrightarrow> traced P (f x r)) \<Longrightarrow> traced P (eff_fold f xs r)"
  by (induction xs arbitrary: r) (simp_all add: traced)

lemma traced_wrap [traced]: "traced P m \<Longrightarrow> traced P (wrap_failure what n m)"
  by (simp add: wrap_failure_def traced)

lemma env_traced [traced]: "(\<And>n. P (ResolveEnv n)) \<Longrightarrow> traced P (resolveVaultEnv h st defs tokens active)"
  by (auto simp: resolveVaultEnv_def resolve_service_env_def secret_env_def inline_env_def nats_env_def vault_env_def Let_def
      intro!: traced split: option.split)

lemma vault_kinds_only:
  assumes "set (env_kinds entries) \<subseteq> set vault_kinds"
  shows "\<not> has_kind [''cloudflare-tunnel-token''] entries" and "\<not> has_kind [''tailscale-authkey''] entries"
    and "\<not> has_kind nats_kinds entries" and "\<not> has_kind [''pool-management-token''] entries"
  using assms by (auto simp: has_kind_def list_ex_iff vault_kinds_def nats_kinds_def)

text \<open>While Vault is not ready an apply goes on without the secrets. If every variable the services in
  question ask for is one of Vault's and the Vault services are not initialised, the resolution succeeds,
  makes no call and yields no variable: it neither fails for a stack that is marked to fail closed nor for
  a service that asks for an AppRole it is not bound to, so the containers are created without them.\<close>

theorem vault_outage_resolves_nothing:
  assumes "\<not> e_vaultReady h (ap_world s)"
    and "\<forall>p \<in> set (env_services active defs). set (env_kinds (nullish (dynamic_env (snd p)) [])) \<subseteq> set vault_kinds"
  shows "resolveVaultEnv h st defs tokens active s = (Inr empty_env, s)"
proof -
  have one: "resolve_service_env h st tokens False p r u = (Inr r, u)"
    if "p \<in> set (env_services active defs)" for p r and u :: "('a, 'c) apply_state_scheme"
  proof (cases "dynamic_env (snd p)")
    case None
    then show ?thesis by (simp add: resolve_service_env_def eff_return_def)
  next
    case (Some entries)
    with assms(2) that have "set (env_kinds entries) \<subseteq> set vault_kinds" by fastforce
    from vault_kinds_only [OF this] show ?thesis
      by (simp add: resolve_service_env_def secret_env_def Some inline_env_def add_override_def eff_defs Let_def)
  qed
  have "eff_fold (resolve_service_env h st tokens False) ps r s = (Inr r, s)"
    if "set ps \<subseteq> set (env_services active defs)" for ps r
    using that one by (induction ps) (simp_all add: eff_defs)
  with assms(1) show ?thesis by (simp add: resolveVaultEnv_def eff_bind_def eff_get_def)
qed

text \<open>What each step may add.\<close>

definition env_sound :: "stack_entity \<Rightarrow> string set \<Rightarrow> env_result \<Rightarrow> bool" where
  "env_sound st names r \<longleftrightarrow> fst ` set (er_overrides r) \<subseteq> names \<and> fst ` set (er_bindings r) \<subseteq> names \<and>
     (\<forall>b \<in> set (er_bindings r). \<exists>row \<in> set (se_services st). row_name row = fst b \<and>
        row_vaultAppRoleId row = Some (snd b) \<and> snd b \<noteq> [])"

lemma om_set_subset: "set (om_set k v m) \<subseteq> insert (k, v) (set m)"
  using om_set_pairs by fast

lemma add_override_fields [simp]:
  "er_bindings (add_override n vs r) = er_bindings r" "er_files (add_override n vs r) = er_files r"
  by (simp_all add: add_override_def split: option.split)

lemma add_override_keys: "fst ` set (er_overrides (add_override n vs r)) \<subseteq> insert n (fst ` set (er_overrides r))"
  by (auto simp: add_override_def om_keys_set split: option.split)

lemma add_override_sound: "env_sound st names r \<Longrightarrow> n \<in> names \<Longrightarrow> env_sound st names (add_override n vs r)"
  using add_override_keys [of n vs r] by (auto simp: env_sound_def)

lemma sound_files [simp]: "env_sound st names (r\<lparr>er_files := f\<rparr>) = env_sound st names r"
  by (simp add: env_sound_def)

lemma sound_binding:
  assumes "env_sound st names r" and "n \<in> names" and "row \<in> set (se_services st)" and "row_name row = n"
    and "row_vaultAppRoleId row = Some a" and "a \<noteq> []"
  shows "env_sound st names (r\<lparr>er_bindings := om_set n a (er_bindings r)\<rparr>)"
proof -
  let ?ok = "\<lambda>b. \<exists>row \<in> set (se_services st). row_name row = fst b \<and> row_vaultAppRoleId row = Some (snd b) \<and> snd b \<noteq> []"
  have "?ok (n, a)" using assms(3-6) by auto
  moreover have "\<forall>b \<in> set (er_bindings r). ?ok b" using assms(1) by (simp add: env_sound_def)
  ultimately have "\<forall>b \<in> set (om_set n a (er_bindings r)). ?ok b" using om_set_subset [of n a "er_bindings r"] by blast
  with assms(1,2) show ?thesis unfolding env_sound_def by (simp add: om_keys_set)
qed

lemma returns_seq: "returns P m \<Longrightarrow> (\<And>x. P x \<Longrightarrow> returns Q (f x)) \<Longrightarrow> returns Q (eff_bind m f)"
  unfolding returns_def eff_bind_Inr by blast

lemma returns_if: "returns P m \<Longrightarrow> returns P n \<Longrightarrow> returns P (if c then m else n)"
  by simp

lemma inline_sound: "env_sound st names r \<Longrightarrow> n \<in> names \<Longrightarrow> returns (env_sound st names) (inline_env h st n cc entries r)"
  by (auto simp: inline_env_def intro!: returns add_override_sound)

lemma nats_sound: "env_sound st names r \<Longrightarrow> n \<in> names \<Longrightarrow> returns (env_sound st names) (nats_env h st row n cc r)"
  by (auto simp: nats_env_def intro!: returns add_override_sound split: option.split)

lemma binding_own:
  assumes "vb_recordPerService (resolveEffectiveVaultBinding st (find (\<lambda>x. row_name x = n) (rev (se_services st))))"
  shows "\<exists>row a. row \<in> set (se_services st) \<and> row_name row = n \<and> row_vaultAppRoleId row = Some a \<and> a \<noteq> [] \<and>
    vb_appRoleId (resolveEffectiveVaultBinding st (find (\<lambda>x. row_name x = n) (rev (se_services st)))) = Some a"
  using assms by (fastforce simp: resolveEffectiveVaultBinding_def truthy_def dest: find_SomeD split: option.splits if_splits)

lemma vault_sound:
  assumes "env_sound st names r" and "n \<in> names"
  shows "returns (env_sound st names)
    (vault_env h st (resolveEffectiveVaultBinding st (find (\<lambda>x. row_name x = n) (rev (se_services st)))) tokens n cc r)"
    (is "returns _ (vault_env h st ?b tokens n cc r)")
proof -
  have "env_sound st names (let q = add_override n vs r in if vb_recordPerService ?b \<and> truthy (vb_appRoleId ?b)
      then q\<lparr>er_bindings := om_set n (the (vb_appRoleId ?b)) (er_bindings q)\<rparr> else q)" for vs
  proof (cases "vb_recordPerService ?b")
    case True
    from binding_own [OF this] obtain row a where "row \<in> set (se_services st)" "row_name row = n"
      "row_vaultAppRoleId row = Some a" "a \<noteq> []" "vb_appRoleId ?b = Some a" by blast
    with sound_binding [OF add_override_sound [OF assms] assms(2)] add_override_sound [OF assms] show ?thesis
      by (simp add: Let_def)
  next
    case False
    then show ?thesis by (simp add: add_override_sound assms)
  qed
  then show ?thesis unfolding vault_env_def by (intro returns) auto
qed

lemma secret_sound:
  assumes r: "env_sound st names r" and n: "n \<in> names"
  shows "returns (env_sound st names) (secret_env h st tokens ready n cc entries r)"
proof -
  let ?row = "find (\<lambda>x. row_name x = n) (rev (se_services st))"
  let ?b = "resolveEffectiveVaultBinding st ?row"
  have "returns (env_sound st names) (if \<not> has_kind vault_kinds entries \<or> \<not> ready then eff_return q
      else if has_kind approle_kinds entries \<and> \<not> truthy (vb_appRoleId ?b) then eff_throw (unbound n)
      else vault_env h st ?b tokens n cc q)" if "env_sound st names q" for q
    using that by (simp add: returns_return returns_throw vault_sound n)
  moreover have "returns (env_sound st names) (if has_kind nats_kinds entries then nats_env h st ?row n cc r else eff_return r)"
    using r by (simp add: nats_sound [OF r n] returns_return)
  ultimately have rest: "returns (env_sound st names) (eff_bind (if has_kind nats_kinds entries then nats_env h st ?row n cc r else eff_return r)
      (\<lambda>q. if \<not> has_kind vault_kinds entries \<or> \<not> ready then eff_return q
           else if has_kind approle_kinds entries \<and> \<not> truthy (vb_appRoleId ?b) then eff_throw (unbound n)
           else vault_env h st ?b tokens n cc q))"
    by (rule returns_seq [rotated])
  show ?thesis unfolding secret_env_def Let_def
    by (intro returns_if rest returns_return add_override_sound [OF r n])
qed

lemma service_env_sound:
  assumes "env_sound st names q" and "fst p \<in> names"
  shows "returns (env_sound st names) (resolve_service_env h st tokens ready p q)"
  using assms unfolding resolve_service_env_def
  by (auto intro!: returns_return returns_seq [OF inline_sound] secret_sound split: option.split)

text \<open>Variables are resolved for nobody else. When the resolution returns, every service with
  overrides has an action in this apply and is no pool; so is every service whose AppRole binding is to be
  recorded, and the recorded binding is the non-empty one of that service's own row, never the
  stack's.\<close>

theorem env_only_for_active:
  assumes "resolveVaultEnv h st defs tokens active s = (Inr r, t)"
  shows "env_sound st {n \<in> set active. \<exists>d. (n, d) \<in> set defs \<and> sd_serviceType d \<notin> {''Pool'', ''JobPool''}} r"
proof -
  let ?names = "{n \<in> set active. \<exists>d. (n, d) \<in> set defs \<and> sd_serviceType d \<notin> {''Pool'', ''JobPool''}}"
  have "eff_fold (resolve_service_env h st tokens (e_vaultReady h (ap_world s))) (env_services active defs) empty_env s = (Inr r, t)"
    using assms by (simp add: resolveVaultEnv_def eff_bind_def eff_get_def)
  moreover have "env_sound st ?names empty_env" by (simp add: env_sound_def empty_env_def)
  ultimately show ?thesis
  proof (rule eff_fold_invariant)
    fix p q u q' v
    assume p: "p \<in> set (env_services active defs)" and q: "env_sound st ?names q"
      and run: "resolve_service_env h st tokens (e_vaultReady h (ap_world s)) p q u = (Inr q', v)"
    have "fst p \<in> ?names" using p by (auto simp: env_services_def)
    from returnsD [OF service_env_sound [OF q this] run] show "env_sound st ?names q'" .
  qed
qed

definition example_env_host :: "bool \<Rightarrow> nat env_host" where
  "example_env_host ready = host.extend example_host
     \<lparr>e_vaultReady = (\<lambda>_. ready), e_tunnelToken = (\<lambda>_ _. answer None), e_tailscaleAuthkey = (\<lambda>_. answer None),
      e_nats = (\<lambda>_ _ _. answer None), e_vault = (\<lambda>q _. answer (Some [(''SECRET'', JStr ''s3'')]))\<rparr>"

definition example_stack :: "service_row list \<Rightarrow> stack_entity" where
  "example_stack rows =
     \<lparr>se_id = ''s1'', se_name = ''shop'', se_environment = None, se_version = 3, se_services = rows, se_networks = [],
      se_volumes = [], se_parameters = [], se_parameterValues = [], se_resourceInputs = [], se_resourceOutputs = [],
      se_resources = \<lparr>rd_tlsCertificates = [], rd_dnsRecords = [], rd_tunnelIngress = []\<rparr>, se_templateVersion = None,
      se_currentVersion = None, se_vaultAppRoleId = None, se_vaultFailClosed = True, se_lastAppliedVaultAppRoleId = None,
      se_status = ''pending'', se_lastAppliedVersion = None, se_lastAppliedSnapshot = None, se_lastAppliedHashes = None,
      se_lastFailureReason = None\<rparr>"

definition vault_service :: service_definition where
  "vault_service = hash_example\<lparr>sd_containerConfig :=
     Some [(''dynamicEnv'', JObj [(''SECRET'', JObj [(''kind'', JStr ''vault-wrapped-secret-id'')])])]\<rparr>"

definition vault_row :: "string option \<Rightarrow> service_row" where
  "vault_row role = \<lparr>row_definition = vault_service, row_order = 0, row_vaultAppRoleId = role,
     row_lastAppliedVaultAppRoleId = None, row_natsCredentialId = None\<rparr>"

lemma vault_outage_resolves_nothing_witness:
  "resolveVaultEnv (example_env_host False) (example_stack [vault_row None]) [(''web'', vault_service)] [] [''web''] start_state =
     (Inr empty_env, start_state) \<and> se_vaultFailClosed (example_stack [vault_row None]) \<and>
   dynamic_env vault_service \<noteq> None"
proof -
  have "\<not> e_vaultReady (example_env_host False) (ap_world start_state)"
    by (simp add: example_env_host_def env_host.defs host.defs)
  moreover have "\<forall>p \<in> set (env_services [''web''] [(''web'', vault_service)]).
      set (env_kinds (nullish (dynamic_env (snd p)) [])) \<subseteq> set vault_kinds"
    by code_simp
  ultimately show ?thesis
    by (auto simp: vault_outage_resolves_nothing example_stack_def vault_service_def dynamic_env_def config_field_def)
qed

lemma env_only_for_active_witness:
  "env_sound (example_stack [vault_row (Some ''ar1'')]) {''web''}
     (projr (fst (resolveVaultEnv (example_env_host True) (example_stack [vault_row (Some ''ar1'')])
        [(''web'', vault_service)] [] [''web''] start_state))) \<and>
   er_bindings (projr (fst (resolveVaultEnv (example_env_host True) (example_stack [vault_row (Some ''ar1'')])
        [(''web'', vault_service)] [] [''web''] start_state))) = [(''web'', ''ar1'')]"
proof
  let ?p = "resolveVaultEnv (example_env_host True) (example_stack [vault_row (Some ''ar1'')])
        [(''web'', vault_service)] [] [''web''] start_state"
  have "isl (fst ?p) = False" by code_simp
  from env_only_for_active [OF Inr_result [OF this]]
  show "env_sound (example_stack [vault_row (Some ''ar1'')]) {''web''} (projr (fst ?p))"
    unfolding env_sound_def by auto
  show "er_bindings (projr (fst ?p)) = [(''web'', ''ar1'')]" by code_simp
qed

end
