(* ===== verification/StackApply.thy ===== *)
theory StackApply
  imports DynamicEnv NetworkNames "HOL-Library.Product_Lexorder"
begin

text \<open>
  Applying, updating and stopping a stack: \<open>stacks/stack-reconciler.ts\<close>, with
  \<open>networks/applications-membership.ts\<close>, \<open>stack-failure-summary.ts\<close>, \<open>stack-applied-snapshot.ts\<close>,
  \<open>stack-deployment-logger.ts\<close> and \<open>synthesiseDefaultNetworkIfNeeded\<close> of \<open>utils.ts\<close>. The row of the stack, its
  deployment history and its resources are part of the state; what the other managers do (outputs,
  memberships, volumes, pool tokens, credential files, convergence) are functions of the host.
  Times, logging and the socket messages are left out.
\<close>

section \<open>The state\<close>

record deployment_row =
  dp_action :: string
  dp_success :: bool
  dp_version :: "int option"
  dp_status :: string
  dp_serviceResults :: "service_result list"
  dp_resourceResults :: "resource_result list"
  dp_error :: "string option"
  dp_triggeredBy :: "string option"
  dp_snapshot :: "service_definition list option"

record 'w stack_state = "'w apply_state" +
  ss_stack :: stack_entity
  ss_deployments :: "deployment_row list"
  ss_resources :: "stack_resource list"

record 'w stack_host = "'w env_host" +
  k_sha :: "string \<Rightarrow> string"
  k_le :: "string \<Rightarrow> string \<Rightarrow> bool"
  k_num :: "string \<Rightarrow> int option"
  k_registry :: "'w addon_registry"
  k_cloud :: "'w cloud option"
  k_routing :: bool
  k_database :: "'w \<Rightarrow> (string + unit) \<times> 'w"
  k_networkReport :: "'w \<Rightarrow> (string + string list) \<times> 'w"
  k_reconcileOutputs :: "stack_entity \<Rightarrow> 'w \<Rightarrow> (string + (string \<times> string) list) \<times> 'w"
  k_resolveInputs :: "string option \<Rightarrow> (string \<times> string) list \<Rightarrow> 'w \<Rightarrow> (string + (string \<times> string) list) \<times> 'w"
  k_ensureNetwork :: "string \<Rightarrow> stack_network \<Rightarrow> 'w \<Rightarrow> (string + unit) \<times> 'w"
  k_compileMemberships :: "stack_entity \<Rightarrow> (string \<times> service_definition) list \<Rightarrow> 'w \<Rightarrow> (string + unit) \<times> 'w"
  k_recordEgress :: "stack_entity \<Rightarrow> (string \<times> service_definition) list \<Rightarrow> 'w \<Rightarrow> (string + unit) \<times> 'w"
  k_volumeExists :: "string \<Rightarrow> 'w \<Rightarrow> (string + bool) \<times> 'w"
  k_createVolume :: "string \<Rightarrow> 'w \<Rightarrow> (string + unit) \<times> 'w"
  k_rotatePoolTokens :: "string list \<Rightarrow> 'w \<Rightarrow> (string + (string \<times> string) list) \<times> 'w"
  k_writeCredsFiles :: "string \<Rightarrow> creds_file list \<Rightarrow> 'w \<Rightarrow> (string + unit) \<times> 'w"
  k_joinSelf :: "stack_entity \<Rightarrow> (string \<times> string) list \<Rightarrow> 'w \<Rightarrow> (string + unit) \<times> 'w"
  k_converge :: "string \<Rightarrow> 'w \<Rightarrow> (string + unit) \<times> 'w"
  k_postInstall :: "service_result list \<Rightarrow> 'w \<Rightarrow> (string + unit) \<times> 'w"
  k_progress :: "string \<Rightarrow> 'w \<Rightarrow> (string + unit) \<times> 'w"
  k_prune :: "'w \<Rightarrow> (string + unit) \<times> 'w"
  k_inspectImage :: "string \<Rightarrow> 'w \<Rightarrow> (string + string) \<times> 'w"

type_synonym ('w, 'a) stack_op = "('w stack_state, 'a) eff"

text \<open>A write to the database happens when the database answers.\<close>

definition db_write :: "('w, 'y) stack_host_scheme \<Rightarrow> ('w stack_state \<Rightarrow> 'w stack_state) \<Rightarrow> ('w, unit) stack_op" where
  "db_write h f = eff_then (perform WriteDatabase (k_database h)) (eff_modify f)"

definition find_stack :: "('w, 'y) stack_host_scheme \<Rightarrow> ('w, stack_entity) stack_op" where
  "find_stack h = eff_then (perform ReadDatabase (k_database h)) (eff_get ss_stack)"

text \<open>The expansion of addons and the resource passes work on their part of the state.\<close>

definition with_expansion :: "('w expansion_state, 'a) eff \<Rightarrow> ('w, 'a) stack_op" where
  "with_expansion m = (\<lambda>s. case m \<lparr>xs_world = ap_world s, xs_events = []\<rparr> of (r, t) \<Rightarrow> (r, s\<lparr>ap_world := xs_world t\<rparr>))"

definition with_resources :: "('w rstate, 'a) eff \<Rightarrow> ('w, 'a) stack_op" where
  "with_resources m = (\<lambda>s. case m \<lparr>rs_world = ap_world s, rs_rows = ss_resources s, rs_progress = []\<rparr> of
     (r, t) \<Rightarrow> (r, s\<lparr>ap_world := rs_world t, ap_calls := ap_calls s @ [ReconcileResources], ss_resources := rs_rows t\<rparr>))"

definition stack_context :: "stack_entity \<Rightarrow> template_context" where
  "stack_context st = buildTemplateContext (se_name st) (map sn_name (se_networks st)) (se_volumes st)
     (map row_definition (se_services st)) (Some (se_id st)) (se_environment st)
     (mergeParameterValues (se_parameters st) (se_parameterValues st)) None"

definition resolve_stack :: "('w, 'y) stack_host_scheme \<Rightarrow> stack_entity \<Rightarrow> resolve_options \<Rightarrow> ('w, resolved_services) stack_op" where
  "resolve_stack h st opt = with_expansion (resolveServiceConfigs (k_sha h) (k_le h) (k_num h) (k_registry h)
     (stack_context st) opt (map row_definition (se_services st)))"

section \<open>The plan\<close>

record plan = "string stack_plan" +
  pl_stackVersion :: int

definition plan_row :: "stack_entity \<Rightarrow> stack_row" where
  "plan_row st =
     \<lparr>st_id = se_id st, st_name = se_name st, st_environmentName = map_option te_name (se_environment st),
      st_services = map row_definition (se_services st), st_lastAppliedSnapshot = se_lastAppliedSnapshot st,
      st_templateVersion = se_templateVersion st, st_currentVersion = se_currentVersion st,
      st_resources = se_resources st\<rparr>"

definition plan_stack :: "('w, 'y) stack_host_scheme \<Rightarrow> ('w, plan) stack_op" where
  "plan_stack h =
     eff_bind (find_stack h) (\<lambda>st.
     eff_bind (if k_cloud h = None then eff_return None
        else eff_then (perform ReadDatabase (k_database h)) (eff_get (\<lambda>s. Some (stack_rows (se_id st) (ss_resources s))))) (\<lambda>resources.
     eff_bind (resolve_stack h st plan_options) (\<lambda>rv.
     eff_bind (perform ListContainers (h_listContainers h)) (\<lambda>docker.
     eff_bind (eff_catch (eff_bind (perform ReadDatabase (k_networkReport h)) (\<lambda>items. eff_return (Inr items)))
         (\<lambda>e. eff_return (Inl e))) (\<lambda>network.
     eff_return (stack_plan.extend (compute_plan (k_sha h) (k_le h) docker (plan_row st) (rv_definitions rv) (rv_hashes rv)
       resources network) \<lparr>pl_stackVersion = se_version st\<rparr>))))))"

definition promote :: "(string \<times> string) list \<Rightarrow> (string \<times> container_info) list \<Rightarrow> (string \<times> service_definition) list \<Rightarrow>
   service_action \<Rightarrow> service_action" where
  "promote pulled cmap defs a =
     (case (om_get pulled (sa_serviceName a), om_get cmap (sa_serviceName a)) of
        (Some i, Some c) \<Rightarrow>
          if sa_action a = ActNoOp \<and> i \<noteq> [] \<and> ci_ImageID c \<noteq> i
          then a\<lparr>sa_action := ActRecreate, sa_reason := Some ''image updated (force pull)'',
                 sa_currentImage := Some (ci_Image c),
                 sa_desiredImage := map_option (\<lambda>d. sd_dockerImage d @ '':'' @ sd_dockerTag d) (om_get defs (sa_serviceName a))\<rparr>
          else a
      | _ \<Rightarrow> a)"

definition pull_service ::
  "('w, 'y) stack_host_scheme \<Rightarrow> (string \<times> service_definition) list \<Rightarrow> service_row \<Rightarrow> ('w, (string \<times> string) list) stack_op" where
  "pull_service h defs row =
     (if sd_serviceType (row_definition row) = ''Pool'' \<or> sd_serviceType (row_definition row) = ''JobPool'' then eff_return []
      else case om_get defs (row_name row) of
             None \<Rightarrow> eff_return []
           | Some d \<Rightarrow>
               eff_catch
                 (eff_then (perform (PullImage (sd_dockerImage d) (sd_dockerTag d)) (h_pullImage h (sd_dockerImage d) (sd_dockerTag d)))
                   (eff_bind (perform (InspectImage (sd_dockerImage d @ '':'' @ sd_dockerTag d))
                       (k_inspectImage h (sd_dockerImage d @ '':'' @ sd_dockerTag d))) (\<lambda>i. eff_return [(row_name row, i)])))
                 (\<lambda>_. eff_return []))"

definition own_containers :: "('w, 'y) stack_host_scheme \<Rightarrow> string \<Rightarrow> ('w, (string \<times> container_info) list) stack_op" where
  "own_containers h sid = eff_bind (perform ListContainers (h_listContainers h)) (\<lambda>docker.
     eff_return (buildContainerMap (stack_containers docker sid)))"

definition promoteStalePullActions :: "('w, 'y) stack_host_scheme \<Rightarrow> plan \<Rightarrow> ('w, plan) stack_op" where
  "promoteStalePullActions h p =
     eff_bind (find_stack h) (\<lambda>st.
     eff_bind (resolve_stack h st no_options) (\<lambda>rv.
     eff_bind (eff_each (pull_service h (rv_definitions rv)) (se_services st)) (\<lambda>pulls.
     eff_bind (own_containers h (se_id st)) (\<lambda>cmap.
     (let pulled = foldl (\<lambda>m (n, i). om_set n i m) [] (concat pulls);
          actions = map (promote pulled cmap (rv_definitions rv)) (sp_actions p)
      in eff_return (p\<lparr>sp_actions := actions, sp_hasChanges := (sp_hasChanges p \<or> actions \<noteq> sp_actions p)\<rparr>))))))"

section \<open>The applications network\<close>

definition haproxy_routed :: "service_definition \<Rightarrow> bool" where
  "haproxy_routed d \<longleftrightarrow> sd_serviceType d = ''StatelessWeb'' \<or> sd_serviceType d = ''AdoptedWeb''"

definition ensureApplicationsJoin :: "service_definition \<Rightarrow> service_definition" where
  "ensureApplicationsJoin d =
     (let current = nullish (as_arr (config_field d ''joinResourceNetworks'')) [] in
      if \<not> haproxy_routed d \<or> JStr ''applications'' \<in> set current then d
      else d\<lparr>sd_containerConfig := Some (om_set ''joinResourceNetworks''
        (JArr (current @ [JStr ''applications''])) (container_config d))\<rparr>)"

definition ensureApplicationsInput :: "(string \<times> string) list \<Rightarrow> (string \<times> string) list" where
  "ensureApplicationsInput inputs =
     (if (''docker-network'', ''applications'') \<in> set inputs then inputs
      else inputs @ [(''docker-network'', ''applications'')])"

definition ensureApplicationsMembership ::
  "string option \<Rightarrow> (string \<times> string) list \<Rightarrow> (string \<times> service_definition) list \<Rightarrow>
   (string \<times> string) list \<times> (string \<times> service_definition) list" where
  "ensureApplicationsMembership env inputs defs =
     (if env = None \<or> \<not> list_ex (\<lambda>p. haproxy_routed (snd p)) defs then (inputs, defs)
      else (ensureApplicationsInput inputs, map (\<lambda>(n, d). (n, ensureApplicationsJoin d)) defs))"

section \<open>What an apply records\<close>

definition synthesiseDefaultNetwork :: "stack_network list \<Rightarrow> service_definition list \<Rightarrow> stack_network list" where
  "synthesiseDefaultNetwork declared services =
     (if declared \<noteq> [] then declared
      else if length (filter (\<lambda>s. sd_serviceType s = ''Stateful'' \<or> sd_serviceType s = ''StatelessWeb'') services) < 2 then declared
      else [\<lparr>sn_name = ''default'', sn_driver = Some ''bridge''\<rparr>])"

text \<open>Runs of white space become one space.\<close>

fun collapse :: "string \<Rightarrow> string" where
  "collapse [] = []"
| "collapse (c # s) =
     (if is_space c then (case s of d # _ \<Rightarrow> if is_space d then collapse s else CHR '' '' # collapse s | [] \<Rightarrow> '' '')
      else c # collapse s)"

definition failure_part :: "service_result \<Rightarrow> string" where
  "failure_part r = sv_serviceName r @ '': '' @ trim (collapse (nullish (sv_error r) ''unknown error''))"

definition failure_budget :: nat where
  "failure_budget = 4000"

text \<open>The ellipsis is one character.\<close>

definition ellipsis :: char where
  "ellipsis = CHR 0x85"

definition summariseServiceFailures :: "service_result list \<Rightarrow> string" where
  "summariseServiceFailures rs =
     (let failed = filter (\<lambda>r. \<not> sv_success r) rs;
          joined = join_str '' | '' (map failure_part failed)
      in if failed = [] then ''Apply failed (no per-service detail captured).''
         else if length joined \<le> failure_budget then joined
         else take (failure_budget - 1) joined @ [ellipsis])"

definition drop_null :: "json option \<Rightarrow> json option" where
  "drop_null j = (if j = Some JNull then None else j)"

definition snapshot_service :: "service_definition \<Rightarrow> service_definition" where
  "snapshot_service s =
     s\<lparr>sd_routing := drop_null (sd_routing s), sd_adoptedContainer := drop_null (sd_adoptedContainer s),
       sd_addons := drop_null (sd_addons s)\<rparr>"

definition buildAppliedSnapshot :: "(string \<times> service_definition) list \<Rightarrow> service_definition list" where
  "buildAppliedSnapshot rendered = map (\<lambda>p. snapshot_service (snd p)) rendered"

definition markStackErrored :: "('w, 'y) stack_host_scheme \<Rightarrow> string \<Rightarrow> ('w, unit) stack_op" where
  "markStackErrored h reason =
     eff_catch (db_write h (ss_stack_update (\<lambda>st. st\<lparr>se_status := ''error'', se_lastFailureReason := Some reason\<rparr>)))
       (\<lambda>_. eff_return ())"

definition recordDeploymentFailure ::
  "('w, 'y) stack_host_scheme \<Rightarrow> string \<Rightarrow> int \<Rightarrow> string option \<Rightarrow> string \<Rightarrow> ('w, unit) stack_op" where
  "recordDeploymentFailure h action version user e =
     eff_then (eff_catch (db_write h (ss_deployments_update (\<lambda>ds. ds @
         [\<lparr>dp_action = action, dp_success = False, dp_version = Some version, dp_status = ''error'', dp_serviceResults = [],
           dp_resourceResults = [], dp_error = Some e, dp_triggeredBy = user, dp_snapshot = None\<rparr>]))) (\<lambda>_. eff_return ()))
       (markStackErrored h e)"

section \<open>Executing actions\<close>

record apply_options =
  ao_serviceNames :: "string list option"
  ao_dryRun :: bool
  ao_forcePull :: bool
  ao_triggeredBy :: "string option"
  ao_plan :: "plan option"
  ao_connectedServices :: connected_services
  ao_onProgress :: bool

record apply_result =
  ar_success :: bool
  ar_appliedVersion :: int
  ar_serviceResults :: "service_result list"
  ar_resourceResults :: "resource_result list"
  ar_upToDate :: bool

definition select_actions :: "string list option \<Rightarrow> service_action list \<Rightarrow> service_action list" where
  "select_actions names acts =
     (let changed = filter (\<lambda>a. sa_action a \<noteq> ActNoOp) acts
      in case names of
           None \<Rightarrow> changed
         | Some ns \<Rightarrow> if ns = [] then changed else filter (\<lambda>a. sa_serviceName a \<in> set ns) changed)"

definition dry_results :: "service_action list \<Rightarrow> service_result list" where
  "dry_results acts = map (\<lambda>a. \<lparr>sv_serviceName = sa_serviceName a, sv_action = sa_action a, sv_success = True,
     sv_containerId = None, sv_error = None\<rparr>) acts"

definition service_row_of :: "stack_entity \<Rightarrow> string \<Rightarrow> service_row option" where
  "service_row_of st name = find (\<lambda>r. row_name r = name) (rev (se_services st))"

definition action_rank :: "plan_action \<Rightarrow> int" where
  "action_rank a = (case a of ActCreate \<Rightarrow> 0 | ActRecreate \<Rightarrow> 1 | ActRemove \<Rightarrow> 2 | _ \<Rightarrow> 99)"

definition service_order :: "stack_entity \<Rightarrow> string \<Rightarrow> int" where
  "service_order st name = (case service_row_of st name of Some r \<Rightarrow> row_order r | None \<Rightarrow> 999)"

definition sort_actions :: "stack_entity \<Rightarrow> service_action list \<Rightarrow> service_action list" where
  "sort_actions st acts = sort_key (\<lambda>a. (action_rank (sa_action a), service_order st (sa_serviceName a))) acts"

text \<open>What every action of one apply shares.\<close>

record apply_env =
  pp_stack :: stack_entity
  pp_definitions :: "(string \<times> service_definition) list"
  pp_services :: resolved_services
  pp_networkNames :: "string list"
  pp_outputs :: "(string \<times> string) list"
  pp_infra :: "(string \<times> string) list"
  pp_containers :: "(string \<times> container_info) list"
  pp_env :: env_result
  pp_resourceResults :: "resource_result list"

definition stack_project :: "stack_entity \<Rightarrow> string" where
  "stack_project st = getStackProjectName (se_name st) (map_option te_name (se_environment st))"

definition handler_of :: "apply_env \<Rightarrow> service_action \<Rightarrow> handler_context" where
  "handler_of e a =
     \<lparr>hc_action = a, hc_serviceDef = om_get (pp_definitions e) (sa_serviceName a),
      hc_projectName = stack_project (pp_stack e), hc_stackId = se_id (pp_stack e), hc_stackName = se_name (pp_stack e),
      hc_stackVersion = se_version (pp_stack e), hc_environmentId = se_environmentId (pp_stack e),
      hc_networkNames = pp_networkNames e, hc_hashes = rv_hashes (pp_services e), hc_configs = rv_configs (pp_services e),
      hc_containers = pp_containers e, hc_infraNetworks = pp_infra e, hc_envOverrides = er_overrides (pp_env e)\<rparr>"

definition service_type_of :: "stack_entity \<Rightarrow> string \<Rightarrow> string option" where
  "service_type_of st name = map_option (\<lambda>r. sd_serviceType (row_definition r)) (service_row_of st name)"

definition dispatch_apply :: "('w, 'y) stack_host_scheme \<Rightarrow> apply_env \<Rightarrow> service_action \<Rightarrow> ('w, service_result) stack_op" where
  "dispatch_apply h e a =
     (let ty = service_type_of (pp_stack e) (sa_serviceName a) in
      if ty = Some ''AdoptedWeb'' then applyAdoptedWeb h (handler_of e a)
      else if ty = Some ''StatelessWeb'' then applyStatelessWeb h (handler_of e a)
      else applyStateful h (handler_of e a))"

definition failed_result :: "service_action \<Rightarrow> string \<Rightarrow> service_result" where
  "failed_result a m = \<lparr>sv_serviceName = sa_serviceName a, sv_action = sa_action a, sv_success = False,
     sv_containerId = None, sv_error = Some m\<rparr>"

text \<open>One turn of the loop: the check outside the \<open>try\<close>, the handler inside it, the swallowed callback.\<close>

definition run_action :: "('w, 'y) stack_host_scheme \<Rightarrow> bool \<Rightarrow> apply_env \<Rightarrow> service_action \<Rightarrow> ('w, service_result) stack_op" where
  "run_action h notify e a =
     (let ty = service_type_of (pp_stack e) (sa_serviceName a) in
      if (ty = Some ''StatelessWeb'' \<or> ty = Some ''AdoptedWeb'') \<and> \<not> k_routing h then
        eff_throw (''StackRoutingManager is required for '' @ the ty @ '' service \"'' @ sa_serviceName a @ ''\"'')
      else
        eff_bind (eff_catch (dispatch_apply h e a) (\<lambda>m. eff_return (failed_result a m))) (\<lambda>r.
        eff_then (if notify then eff_catch (perform (NotifyProgress (sa_serviceName a)) (k_progress h (sa_serviceName a)))
            (\<lambda>_. eff_return ()) else eff_return ())
          (eff_return r)))"

section \<open>Before the first container\<close>

definition ensureStackNetworks :: "('w, 'y) stack_host_scheme \<Rightarrow> string \<Rightarrow> stack_network list \<Rightarrow> ('w, unit) stack_op" where
  "ensureStackNetworks h project nets =
     eff_then (eff_each (\<lambda>n. perform (EnsureNetwork (stackNetworkName project (sn_name n)))
       (k_ensureNetwork h (stackNetworkName project (sn_name n)) n)) nets) (eff_return ())"

definition ensure_volume :: "('w, 'y) stack_host_scheme \<Rightarrow> string \<Rightarrow> string \<Rightarrow> ('w, unit) stack_op" where
  "ensure_volume h project v =
     (let name = project @ ''_'' @ v in
      eff_bind (perform (VolumeExists name) (k_volumeExists h name)) (\<lambda>ex.
      if ex then eff_return () else perform (CreateVolume name) (k_createVolume h name)))"

definition reconcile_stack_resources ::
  "('w, 'y) stack_host_scheme \<Rightarrow> stack_entity \<Rightarrow> string option \<Rightarrow> resource_action list \<Rightarrow> ('w, resource_result list) stack_op" where
  "reconcile_stack_resources h st user acts =
     (case k_cloud h of
        None \<Rightarrow> eff_return []
      | Some c \<Rightarrow> with_resources (reconcileResources c (se_id st) (nullish user ''system'') (se_resources st) acts))"

text \<open>The rows of desired memberships, then those of the egress network.\<close>

definition compile_memberships ::
  "('w, 'y) stack_host_scheme \<Rightarrow> stack_entity \<Rightarrow> (string \<times> service_definition) list \<Rightarrow> ('w, unit) stack_op" where
  "compile_memberships h st defs =
     eff_then (perform CompileMemberships (k_compileMemberships h st defs)) (perform WriteDatabase (k_recordEgress h st defs))"

text \<open>The maps of the networks of outputs and inputs, and the definitions with the applications network.\<close>

definition infra_networks ::
  "('w, 'y) stack_host_scheme \<Rightarrow> stack_entity \<Rightarrow> resolved_services \<Rightarrow>
   ('w, (string \<times> service_definition) list \<times> (string \<times> string) list \<times> (string \<times> string) list) stack_op" where
  "infra_networks h st rv =
     (let (inputs, defs) = ensureApplicationsMembership (se_environmentId st) (se_resourceInputs st) (rv_definitions rv) in
      eff_bind (perform ReconcileOutputs (k_reconcileOutputs h st)) (\<lambda>outs.
      eff_bind (perform ResolveInputs (k_resolveInputs h (se_environmentId st) inputs)) (\<lambda>ins.
      eff_return (defs, outs, foldl (\<lambda>m (k, v). om_set k v m) outs ins))))"

definition recreated_callers :: "service_action list \<Rightarrow> string list" where
  "recreated_callers acts =
     map sa_serviceName (filter (\<lambda>a. sa_action a = ActCreate \<or> sa_action a = ActRecreate) acts)"

text \<open>Pool tokens, variables and credential files, which an apply and an update share.\<close>

definition resolve_secrets ::
  "('w, 'y) stack_host_scheme \<Rightarrow> stack_entity \<Rightarrow> (string \<times> service_definition) list \<Rightarrow> service_action list \<Rightarrow> ('w, env_result) stack_op" where
  "resolve_secrets h st defs acts =
     eff_bind (perform (RotateTokens (recreated_callers acts)) (k_rotatePoolTokens h (recreated_callers acts))) (\<lambda>tokens.
     eff_bind (resolveVaultEnv h st defs tokens (map sa_serviceName acts)) (\<lambda>env.
     eff_then (perform WriteCreds (k_writeCredsFiles h (stack_project st) (map snd (er_files env))))
       (eff_return env)))"

definition stack_networks :: "stack_entity \<Rightarrow> stack_network list" where
  "stack_networks st = synthesiseDefaultNetwork (se_networks st) (map row_definition (se_services st))"

definition prepare_apply ::
  "('w, 'y) stack_host_scheme \<Rightarrow> apply_options \<Rightarrow> plan \<Rightarrow> stack_entity \<Rightarrow> service_action list \<Rightarrow> ('w, apply_env) stack_op" where
  "prepare_apply h opt p st acts =
     (let project = stack_project st; nets = stack_networks st in
      eff_bind (resolve_stack h st (no_options\<lparr>ro_connectedServices := ao_connectedServices opt\<rparr>)) (\<lambda>rv.
      eff_bind (infra_networks h st rv) (\<lambda>(defs, outs, infra).
      eff_then (ensureStackNetworks h project nets) (
      eff_then (compile_memberships h st defs) (
      eff_then (eff_each (ensure_volume h project) (se_volumes st)) (
      eff_bind (reconcile_stack_resources h st (ao_triggeredBy opt) (sp_resourceActions p)) (\<lambda>resources.
      eff_bind (own_containers h (se_id st)) (\<lambda>cmap.
      eff_bind (resolve_secrets h st defs acts) (\<lambda>env.
      eff_return \<lparr>pp_stack = st, pp_definitions = defs, pp_services = rv,
        pp_networkNames = map (\<lambda>n. stackNetworkName project (sn_name n)) nets, pp_outputs = outs, pp_infra = infra,
        pp_containers = cmap, pp_env = env, pp_resourceResults = resources\<rparr>)))))))))"

section \<open>Afterwards\<close>

definition all_succeeded :: "service_result list \<Rightarrow> bool" where
  "all_succeeded rs \<longleftrightarrow> list_all sv_success rs"

definition result_status :: "service_result list \<Rightarrow> string" where
  "result_status rs = (if all_succeeded rs then ''synced'' else ''error'')"

definition record_applied :: "stack_entity \<Rightarrow> resolved_services \<Rightarrow> service_result list \<Rightarrow> stack_entity \<Rightarrow> stack_entity" where
  "record_applied st rv rs row =
     row\<lparr>se_lastAppliedVersion := Some (se_version st),
         se_lastAppliedSnapshot := Some (buildAppliedSnapshot (rv_definitions rv)),
         se_lastAppliedHashes := Some (rv_hashes rv), se_status := result_status rs,
         se_lastAppliedVaultAppRoleId :=
           (if all_succeeded rs then se_vaultAppRoleId st else se_lastAppliedVaultAppRoleId row),
         se_lastFailureReason := (if all_succeeded rs then None else Some (summariseServiceFailures rs))\<rparr>"

definition record_binding :: "string \<Rightarrow> string \<Rightarrow> stack_entity \<Rightarrow> stack_entity" where
  "record_binding name role st = st\<lparr>se_services :=
     map (\<lambda>r. if row_name r = name then r\<lparr>row_lastAppliedVaultAppRoleId := Some role\<rparr> else r) (se_services st)\<rparr>"

text \<open>The writes run at once in the code; here in order.\<close>

definition record_bindings :: "('w, 'y) stack_host_scheme \<Rightarrow> apply_env \<Rightarrow> service_result list \<Rightarrow> ('w, unit) stack_op" where
  "record_bindings h e rs =
     (let done' = map sv_serviceName (filter sv_success rs) in
      if all_succeeded rs then
        eff_then (eff_each (\<lambda>(name, role).
            if name \<notin> set done' \<or> service_row_of (pp_stack e) name = None then eff_return ()
            else db_write h (ss_stack_update (record_binding name role))) (er_bindings (pp_env e)))
          (eff_return ())
      else eff_return ())"

definition deployment_of ::
  "string \<Rightarrow> apply_env \<Rightarrow> string option \<Rightarrow> service_result list \<Rightarrow> deployment_row" where
  "deployment_of action e user rs =
     \<lparr>dp_action = action, dp_success = all_succeeded rs, dp_version = Some (se_version (pp_stack e)),
      dp_status = result_status rs, dp_serviceResults = rs, dp_resourceResults = pp_resourceResults e, dp_error = None,
      dp_triggeredBy = user, dp_snapshot = Some (buildAppliedSnapshot (rv_definitions (pp_services e)))\<rparr>"

definition finish :: "('w, 'y) stack_host_scheme \<Rightarrow> string \<Rightarrow> string option \<Rightarrow> apply_env \<Rightarrow> service_result list \<Rightarrow> ('w, apply_result) stack_op" where
  "finish h action user e rs =
     eff_then (db_write h (ss_stack_update (record_applied (pp_stack e) (pp_services e) rs))) (
     eff_then (record_bindings h e rs) (
     eff_then (db_write h (ss_deployments_update (\<lambda>ds. ds @ [deployment_of action e user rs]))) (
     eff_then (eff_catch (perform PruneSnapshots (k_prune h)) (\<lambda>_. eff_return ()))
       (eff_return \<lparr>ar_success = all_succeeded rs, ar_appliedVersion = se_version (pp_stack e), ar_serviceResults = rs,
          ar_resourceResults = pp_resourceResults e, ar_upToDate = False\<rparr>))))"

definition after_actions :: "('w, 'y) stack_host_scheme \<Rightarrow> apply_env \<Rightarrow> service_result list \<Rightarrow> ('w, unit) stack_op" where
  "after_actions h e rs =
     eff_then (perform JoinSelf (k_joinSelf h (pp_stack e) (pp_outputs e))) (
     eff_then (eff_catch (perform Converge (k_converge h (se_id (pp_stack e)))) (\<lambda>_. eff_return ()))
       (perform PostInstall (k_postInstall h rs)))"

text \<open>\<open>try ... catch\<close>: record the failure and throw it on.\<close>

definition or_record :: "('w, 'y) stack_host_scheme \<Rightarrow> string \<Rightarrow> stack_entity \<Rightarrow> string option \<Rightarrow> ('w, 'a) stack_op \<Rightarrow> ('w, 'a) stack_op" where
  "or_record h action st user m =
     eff_catch m (\<lambda>e. eff_then (recordDeploymentFailure h action (se_version st) user e) (eff_throw e))"

section \<open>The operations\<close>

definition apply_loop :: "('w, 'y) stack_host_scheme \<Rightarrow> apply_options \<Rightarrow> plan \<Rightarrow> stack_entity \<Rightarrow> service_action list \<Rightarrow> ('w, apply_result) stack_op" where
  "apply_loop h opt p st acts =
     eff_bind (prepare_apply h opt p st acts) (\<lambda>e.
     eff_bind (eff_each (run_action h (ao_onProgress opt) e) (sort_actions st acts)) (\<lambda>rs.
     eff_then (after_actions h e rs) (finish h ''apply'' (ao_triggeredBy opt) e rs)))"

text \<open>The plan given or computed, after pulling the images when that is forced.\<close>

definition chosen_plan :: "('w, 'y) stack_host_scheme \<Rightarrow> apply_options \<Rightarrow> ('w, plan) stack_op" where
  "chosen_plan h opt =
     eff_bind (case ao_plan opt of Some p \<Rightarrow> eff_return p | None \<Rightarrow> plan_stack h) (\<lambda>p.
     if ao_forcePull opt then promoteStalePullActions h p else eff_return p)"

definition applyInner :: "('w, 'y) stack_host_scheme \<Rightarrow> apply_options \<Rightarrow> ('w, apply_result) stack_op" where
  "applyInner h opt =
     eff_bind (chosen_plan h opt) (\<lambda>p.
     (let acts = select_actions (ao_serviceNames opt) (sp_actions p) in
      if ao_dryRun opt then
        eff_return \<lparr>ar_success = True, ar_appliedVersion = pl_stackVersion p, ar_serviceResults = dry_results acts,
          ar_resourceResults = [], ar_upToDate = False\<rparr>
      else
        eff_bind (find_stack h) (\<lambda>st.
        or_record h ''apply'' st (ao_triggeredBy opt) (apply_loop h opt p st acts))))"

record update_options =
  uo_triggeredBy :: "string option"
  uo_forceRecreate :: bool
  uo_onProgress :: bool

definition force_recreate :: "service_action \<Rightarrow> service_action" where
  "force_recreate a = (if sa_action a = ActNoOp
     then a\<lparr>sa_action := ActRecreate, sa_reason := Some ''force recreate''\<rparr> else a)"

text \<open>An update picks the handler by the type and by whether the service has a definition.\<close>

definition dispatch_update :: "('w, 'y) stack_host_scheme \<Rightarrow> apply_env \<Rightarrow> service_action \<Rightarrow> ('w, service_result) stack_op" where
  "dispatch_update h e a =
     (let ty = service_type_of (pp_stack e) (sa_serviceName a); c = handler_of e a;
          defined = (om_get (pp_definitions e) (sa_serviceName a) \<noteq> None)
      in if ty = Some ''AdoptedWeb'' \<and> defined then applyAdoptedWeb h c
         else if ty = Some ''StatelessWeb'' \<and> defined \<and> sa_action a = ActRecreate then updateStatelessWeb h c
         else if ty = Some ''StatelessWeb'' \<and> defined then applyStatelessWeb h c
         else applyStateful h c)"

text \<open>One turn of the loop: nothing is caught, neither the handler nor the callback.\<close>

definition update_action :: "('w, 'y) stack_host_scheme \<Rightarrow> bool \<Rightarrow> apply_env \<Rightarrow> service_action \<Rightarrow> ('w, service_result) stack_op" where
  "update_action h notify e a =
     eff_bind (dispatch_update h e a) (\<lambda>r.
     eff_then (if notify then perform (NotifyProgress (sa_serviceName a)) (k_progress h (sa_serviceName a)) else eff_return ())
       (eff_return (r\<lparr>sv_action := ActUpdate\<rparr>)))"

definition prepare_update ::
  "('w, 'y) stack_host_scheme \<Rightarrow> stack_entity \<Rightarrow> service_action list \<Rightarrow> ('w, apply_env) stack_op" where
  "prepare_update h st acts =
     (let project = stack_project st; nets = stack_networks st in
      eff_bind (resolve_stack h st no_options) (\<lambda>rv.
      eff_bind (infra_networks h st rv) (\<lambda>(defs, outs, infra).
      eff_bind (own_containers h (se_id st)) (\<lambda>cmap.
      eff_then (ensureStackNetworks h project nets) (
      eff_then (compile_memberships h st defs) (
      eff_bind (resolve_secrets h st defs acts) (\<lambda>env.
      eff_return \<lparr>pp_stack = st, pp_definitions = defs, pp_services = rv,
        pp_networkNames = map (\<lambda>n. stackNetworkName project (sn_name n)) nets, pp_outputs = outs, pp_infra = infra,
        pp_containers = cmap, pp_env = env, pp_resourceResults = []\<rparr>)))))))"

definition up_to_date :: "('w, 'y) stack_host_scheme \<Rightarrow> string option \<Rightarrow> int \<Rightarrow> ('w, apply_result) stack_op" where
  "up_to_date h user v =
     eff_then (db_write h (ss_deployments_update (\<lambda>ds. ds @
         [\<lparr>dp_action = ''update'', dp_success = True, dp_version = Some v, dp_status = ''synced'', dp_serviceResults = [],
           dp_resourceResults = [], dp_error = None, dp_triggeredBy = user, dp_snapshot = None\<rparr>])))
       (eff_return \<lparr>ar_success = True, ar_appliedVersion = v, ar_serviceResults = [], ar_resourceResults = [],
          ar_upToDate = True\<rparr>)"

definition updateInner :: "('w, 'y) stack_host_scheme \<Rightarrow> update_options \<Rightarrow> ('w, apply_result) stack_op" where
  "updateInner h opt =
     eff_bind (plan_stack h) (\<lambda>p0.
     eff_bind (promoteStalePullActions h p0) (\<lambda>p.
     (let all = (if uo_forceRecreate opt then map force_recreate (sp_actions p) else sp_actions p);
          acts = select_actions None all
      in if acts = [] then up_to_date h (uo_triggeredBy opt) (pl_stackVersion p)
         else
           eff_bind (find_stack h) (\<lambda>st.
           or_record h ''update'' st (uo_triggeredBy opt) (
           eff_bind (prepare_update h st acts) (\<lambda>e.
           eff_bind (eff_each (update_action h (uo_onProgress opt) e) acts) (finish h ''update'' (uo_triggeredBy opt) e)))))))"

section \<open>Stopping a stack\<close>

text \<open>\<open>parseInt(label || '0')\<close>, for the decimal versions the server writes.\<close>

definition version_label :: "container_info \<Rightarrow> int" where
  "version_label c = (case label c ''mini-infra.stack-version'' of
     None \<Rightarrow> 0 | Some s \<Rightarrow> (case decimal s of Some n \<Rightarrow> n | None \<Rightarrow> 0))"

definition stop_order :: "container_info list \<Rightarrow> container_info list" where
  "stop_order cs = sort_key (\<lambda>c. - version_label c) cs"

definition stop_container :: "('w, 'y) stack_host_scheme \<Rightarrow> container_info \<Rightarrow> ('w, nat) stack_op" where
  "stop_container h c =
     eff_catch (eff_then (perform (StopAndRemove (ci_Id c)) (h_stopAndRemove h (ci_Id c))) (eff_return 1))
       (\<lambda>_. eff_return 0)"

definition stopStackInner :: "('w, 'y) stack_host_scheme \<Rightarrow> string \<Rightarrow> string option \<Rightarrow> ('w, nat) stack_op" where
  "stopStackInner h sid user =
     eff_bind (perform ListContainers (h_listContainers h)) (\<lambda>docker.
     eff_bind (eff_each (stop_container h) (stop_order (list_by_stack docker sid))) (\<lambda>stopped.
     eff_then (perform WriteDatabase (k_database h)) (
     eff_then (db_write h (ss_stack_update (\<lambda>st. st\<lparr>se_status := ''undeployed''\<rparr>))) (
     eff_then (db_write h (ss_deployments_update (\<lambda>ds. ds @
         [\<lparr>dp_action = ''stop'', dp_success = True, dp_version = None, dp_status = ''undeployed'', dp_serviceResults = [],
           dp_resourceResults = [], dp_error = None, dp_triggeredBy = user, dp_snapshot = None\<rparr>])))
       (eff_return (sum_list stopped))))))"

section \<open>What operations keep\<close>

definition preserves :: "('s \<Rightarrow> 'b) \<Rightarrow> ('s, 'a) eff \<Rightarrow> bool" where
  "preserves f m \<longleftrightarrow> (\<forall>s. f (snd (m s)) = f s)"

named_theorems keeps \<open>what an operation leaves of the state\<close>

lemma preservesD: "preserves f m \<Longrightarrow> m s = (r, t) \<Longrightarrow> f t = f s"
  unfolding preserves_def by (metis snd_conv)

lemma preserves_return [keeps]: "preserves f (eff_return x)"
  by (simp add: preserves_def eff_return_def)

lemma preserves_throw [keeps]: "preserves f (eff_throw e)"
  by (simp add: preserves_def eff_throw_def)

lemma preserves_get [keeps]: "preserves f (eff_get g)"
  by (simp add: preserves_def eff_get_def)

lemma preserves_lift [keeps]: "preserves f (lift_result r)"
  by (cases r) (simp_all add: lift_result_def keeps)

lemma preserves_bind [keeps]: "preserves f m \<Longrightarrow> (\<And>x. preserves f (g x)) \<Longrightarrow> preserves f (eff_bind m g)"
  unfolding preserves_def eff_bind_def by (simp split: prod.split sum.split) (metis snd_conv)

lemma preserves_then [keeps]: "preserves f m \<Longrightarrow> preserves f n \<Longrightarrow> preserves f (eff_then m n)"
  unfolding eff_then_def by (rule preserves_bind)

lemma preserves_catch [keeps]: "preserves f m \<Longrightarrow> (\<And>e. preserves f (h e)) \<Longrightarrow> preserves f (eff_catch m h)"
  unfolding preserves_def eff_catch_def by (simp split: prod.split sum.split) (metis snd_conv)

lemma preserves_each [keeps]: "(\<And>x. x \<in> set xs \<Longrightarrow> preserves f (g x)) \<Longrightarrow> preserves f (eff_each g xs)"
  by (induction xs) (simp_all add: keeps)

lemma preserves_fold [keeps]: "(\<And>x r. x \<in> set xs \<Longrightarrow> preserves f (g x r)) \<Longrightarrow> preserves f (eff_fold g xs r)"
  by (induction xs arbitrary: r) (simp_all add: keeps)

lemma preserves_if [keeps]: "preserves f m \<Longrightarrow> preserves f n \<Longrightarrow> preserves f (if c then m else n)"
  by simp

lemma perform_more [keeps]: "preserves apply_state.more (perform k g)"
  by (simp add: preserves_def perform_def split: prod.split)

lemma wrap_more [keeps]: "preserves f m \<Longrightarrow> preserves f (wrap_failure what n m)"
  by (simp add: wrap_failure_def keeps)

text \<open>The handlers and the resolution of variables touch only the world and the trace.\<close>

lemma prepare_more [keeps]: "preserves apply_state.more (prepareServiceContainer h d configs p)"
  by (auto simp: prepareServiceContainer_def Let_def intro!: keeps)

lemma failure_message_more [keeps]: "preserves apply_state.more (buildPostStartFailureMessage h cid)"
  by (auto simp: buildPostStartFailureMessage_def intro!: keeps)

lemma start_more [keeps]: "preserves apply_state.more (start_service h c a d)"
  by (auto simp: start_service_def intro!: keeps)

lemma stateful_more [keeps]: "preserves apply_state.more (applyStateful h c)"
  by (auto simp: applyStateful_def clear_conflict_def Let_def intro!: keeps split: plan_action.split option.split)

lemma machine_context_more [keeps]: "preserves apply_state.more (buildStateMachineContext h c d routing)"
  by (auto simp: buildStateMachineContext_def Let_def intro!: keeps split: option.split json.split)

lemma stateless_more [keeps]: "preserves apply_state.more (applyStatelessWeb h c)"
  by (auto simp: applyStatelessWeb_def intro!: keeps split: plan_action.split prod.split)

lemma update_more [keeps]: "preserves apply_state.more (updateStatelessWeb h c)"
  by (auto simp: updateStatelessWeb_def intro!: keeps split: prod.split)

lemma cleanup_more [keeps]: "preserves apply_state.more (cleanupAdoptedWebRouting h c n r b)"
  by (auto simp: cleanupAdoptedWebRouting_def Let_def intro!: keeps split: option.split)

lemma setup_more [keeps]: "preserves apply_state.more (setup_adopted h c d r a n x)"
  by (auto simp: setup_adopted_def Let_def intro!: keeps split: option.split prod.split json.split)

lemma adopted_more [keeps]: "preserves apply_state.more (applyAdoptedWeb h c)"
  by (auto simp: applyAdoptedWeb_def Let_def intro!: keeps split: option.split)

lemma env_more [keeps]: "preserves apply_state.more (resolveVaultEnv h st defs tokens active)"
  by (auto simp: resolveVaultEnv_def resolve_service_env_def secret_env_def inline_env_def nats_env_def vault_env_def Let_def
      intro!: keeps split: option.split)

text \<open>The row of the stack and its history.\<close>

definition rows_of :: "'w stack_state \<Rightarrow> stack_entity \<times> deployment_row list" where
  "rows_of s = (ss_stack s, ss_deployments s)"

lemma rows_of_more: "apply_state.more t = apply_state.more s \<Longrightarrow> rows_of t = rows_of (s :: 'w stack_state)"
  by (cases s; cases t) (simp add: rows_of_def)

lemma rows_kept: "preserves apply_state.more m \<Longrightarrow> preserves rows_of m"
  unfolding preserves_def by (blast intro: rows_of_more)

lemmas [keeps] = rows_kept [OF perform_more] rows_kept [OF stateful_more] rows_kept [OF stateless_more]
  rows_kept [OF update_more] rows_kept [OF adopted_more] rows_kept [OF env_more]

lemma expansion_rows [keeps]: "preserves rows_of (with_expansion m)"
  by (auto simp: preserves_def with_expansion_def rows_of_def split: prod.split)

lemma resources_rows [keeps]: "preserves rows_of (with_resources m)"
  by (auto simp: preserves_def with_resources_def rows_of_def split: prod.split)

lemma resolve_rows [keeps]: "preserves rows_of (resolve_stack h st opt)"
  by (simp add: resolve_stack_def keeps)

lemma find_rows [keeps]: "preserves rows_of (find_stack h)"
  by (simp add: find_stack_def keeps)

lemma own_rows [keeps]: "preserves rows_of (own_containers h sid)"
  by (auto simp: own_containers_def intro!: keeps)

lemma plan_rows [keeps]: "preserves rows_of (plan_stack h)"
  by (auto simp: plan_stack_def intro!: keeps)

lemma pull_rows [keeps]: "preserves rows_of (pull_service h defs row)"
  by (auto simp: pull_service_def intro!: keeps split: option.split)

lemma promote_rows [keeps]: "preserves rows_of (promoteStalePullActions h p)"
  by (auto simp: promoteStalePullActions_def Let_def intro!: keeps)

lemma chosen_rows [keeps]: "preserves rows_of (chosen_plan h opt)"
  by (auto simp: chosen_plan_def intro!: keeps split: option.split)

lemma networks_rows [keeps]: "preserves rows_of (ensureStackNetworks h project nets)"
  by (auto simp: ensureStackNetworks_def intro!: keeps)

lemma volume_rows [keeps]: "preserves rows_of (ensure_volume h project v)"
  by (auto simp: ensure_volume_def Let_def intro!: keeps)

lemma reconcile_rows [keeps]: "preserves rows_of (reconcile_stack_resources h st user acts)"
  by (auto simp: reconcile_stack_resources_def intro!: keeps split: option.split)

lemma infra_rows [keeps]: "preserves rows_of (infra_networks h st rv)"
  by (auto simp: infra_networks_def Let_def intro!: keeps split: prod.split)

lemma memberships_rows [keeps]: "preserves rows_of (compile_memberships h st defs)"
  by (auto simp: compile_memberships_def intro!: keeps)

lemma secrets_rows [keeps]: "preserves rows_of (resolve_secrets h st defs acts)"
  by (auto simp: resolve_secrets_def intro!: keeps)

lemma prepare_apply_rows [keeps]: "preserves rows_of (prepare_apply h opt p st acts)"
  by (auto simp: prepare_apply_def Let_def intro!: keeps split: prod.split)

lemma prepare_update_rows [keeps]: "preserves rows_of (prepare_update h st acts)"
  by (auto simp: prepare_update_def Let_def intro!: keeps split: prod.split)

lemma run_rows [keeps]: "preserves rows_of (run_action h notify e a)"
  by (auto simp: run_action_def dispatch_apply_def Let_def intro!: keeps)

lemma update_action_rows [keeps]: "preserves rows_of (update_action h notify e a)"
  by (auto simp: update_action_def dispatch_update_def Let_def intro!: keeps)

lemma after_rows [keeps]: "preserves rows_of (after_actions h e rs)"
  by (auto simp: after_actions_def intro!: keeps)

end
