(* ===== verification/ApplyOutcome.thy ===== *)
theory ApplyOutcome
  imports StackApply
begin

text \<open>
  What an apply returns and records, on every way it can end: its results match its plan, the history and the
  row of the stack match its results, an exception is recorded, and no handler's exception ends it. The last
  section has the host and the stacks that the witnesses run on.
\<close>

section \<open>What a run of an operation went through\<close>

lemma eff_catch_Inr:
  "eff_catch m f s = (Inr x, t) \<longleftrightarrow> m s = (Inr x, t) \<or> (\<exists>e u. m s = (Inl e, u) \<and> f e u = (Inr x, t))"
  by (auto simp: eff_catch_def split: prod.split sum.split)

lemma eff_bind_Inl:
  "eff_bind m f s = (Inl e, t) \<longleftrightarrow> m s = (Inl e, t) \<or> (\<exists>x u. m s = (Inr x, u) \<and> f x u = (Inl e, t))"
  by (auto simp: eff_bind_def split: prod.split sum.split)

lemma or_record_Inr: "or_record h k st user m s = (Inr x, t) \<longleftrightarrow> m s = (Inr x, t)"
  by (auto simp: or_record_def eff_catch_Inr eff_then_Inr)

text \<open>When an apply or an update is carried out, not only planned.\<close>

lemma apply_runs:
  assumes "applyInner h opt s = (Inr r, t)" and "\<not> ao_dryRun opt"
  shows "\<exists>p u v. chosen_plan h opt s = (Inr p, u) \<and> rows_of u = rows_of s \<and> rows_of v = rows_of s \<and>
    find_stack h u = (Inr (ss_stack s), v) \<and>
    apply_loop h opt p (ss_stack s) (select_actions (ao_serviceNames opt) (sp_actions p)) v = (Inr r, t)"
proof -
  from assms obtain p u st v where run: "chosen_plan h opt s = (Inr p, u)" "find_stack h u = (Inr st, v)"
    "apply_loop h opt p st (select_actions (ao_serviceNames opt) (sp_actions p)) v = (Inr r, t)"
    by (auto simp: applyInner_def Let_def eff_bind_Inr or_record_Inr)
  from preservesD [OF chosen_rows run(1)] have u: "rows_of u = rows_of s" .
  with preservesD [OF find_rows run(2)] have v: "rows_of v = rows_of s" by simp
  from run(2) have "st = ss_stack v" by (auto simp: find_stack_def eff_then_Inr)
  with v have "st = ss_stack s" by (simp add: rows_of_def)
  with run u v show ?thesis by blast
qed

lemma prepare_apply_returns:
  "returns (\<lambda>e. pp_stack e = st) (prepare_apply h opt p st acts)"
  by (auto simp: prepare_apply_def Let_def intro!: returns split: prod.split)

lemma prepare_update_returns:
  "returns (\<lambda>e. pp_stack e = st) (prepare_update h st acts)"
  by (auto simp: prepare_update_def Let_def intro!: returns split: prod.split)

lemma loop_runs:
  assumes "apply_loop h opt p st acts s = (Inr r, t)"
  shows "\<exists>e u rs v w. prepare_apply h opt p st acts s = (Inr e, u) \<and> pp_stack e = st \<and>
    eff_each (run_action h (ao_onProgress opt) e) (sort_actions st acts) u = (Inr rs, v) \<and>
    after_actions h e rs v = (Inr (), w) \<and> finish h ''apply'' (ao_triggeredBy opt) e rs w = (Inr r, t) \<and>
    rows_of w = rows_of s"
proof -
  from assms obtain e u rs v w where run: "prepare_apply h opt p st acts s = (Inr e, u)"
    "eff_each (run_action h (ao_onProgress opt) e) (sort_actions st acts) u = (Inr rs, v)"
    "after_actions h e rs v = (Inr (), w)" "finish h ''apply'' (ao_triggeredBy opt) e rs w = (Inr r, t)"
    unfolding apply_loop_def eff_bind_Inr eff_then_Inr by auto
  have "rows_of w = rows_of s"
    using preservesD [OF prepare_apply_rows run(1)] preservesD [OF preserves_each [OF run_rows] run(2)]
      preservesD [OF after_rows run(3)] by simp
  with run returnsD [OF prepare_apply_returns run(1)] show ?thesis by blast
qed

text \<open>What the recording of bindings may change.\<close>

definition rebound :: "'w stack_state \<Rightarrow> 'w stack_state \<Rightarrow> bool" where
  "rebound s t \<longleftrightarrow> ss_deployments t = ss_deployments s \<and>
     (\<exists>rows. ss_stack t = (ss_stack s)\<lparr>se_services := rows\<rparr> \<and>
        map row_definition rows = map row_definition (se_services (ss_stack s)))"

lemma db_write_run: "db_write h f s = (Inr (), t) \<Longrightarrow> \<exists>w ks. t = f (s\<lparr>ap_world := w, ap_calls := ks\<rparr>)"
  by (auto simp: db_write_def eff_then_Inr perform_Inr)

lemma record_binding_rebound:
  assumes "db_write h (ss_stack_update (record_binding n a)) u = (Inr (), v)" and "rebound s u"
  shows "rebound s v"
proof -
  from db_write_run [OF assms(1)] have v: "ss_stack v = record_binding n a (ss_stack u)" "ss_deployments v = ss_deployments u"
    by auto
  from assms(2) obtain rows where u: "ss_deployments u = ss_deployments s" "ss_stack u = (ss_stack s)\<lparr>se_services := rows\<rparr>"
    "map row_definition rows = map row_definition (se_services (ss_stack s))" unfolding rebound_def by blast
  let ?rows = "map (\<lambda>r. if row_name r = n then r\<lparr>row_lastAppliedVaultAppRoleId := Some a\<rparr> else r) rows"
  have "map row_definition ?rows = map row_definition rows" by simp
  moreover have "ss_stack v = (ss_stack s)\<lparr>se_services := ?rows\<rparr>" by (simp add: v(1) u(2) record_binding_def)
  ultimately show ?thesis using v(2) u(1,3) unfolding rebound_def by (intro conjI exI [of _ ?rows]) simp_all
qed

lemma record_bindings_rebound:
  assumes "record_bindings h e rs s = (Inr (), t)"
  shows "rebound s t \<and> (all_succeeded rs \<or> ss_stack t = ss_stack s)"
proof (cases "all_succeeded rs")
  case True
  let ?f = "\<lambda>(name, role). if name \<notin> set (map sv_serviceName (filter sv_success rs)) \<or> service_row_of (pp_stack e) name = None
      then eff_return () else db_write h (ss_stack_update (record_binding name role))"
  have start: "rebound s s" by (auto simp: rebound_def intro: exI [of _ "se_services (ss_stack s)"])
  from True assms obtain ys where "eff_each ?f (er_bindings (pp_env e)) s = (Inr ys, t)"
    by (simp add: record_bindings_def Let_def eff_then_Inr True) (erule exE)
  then have "rebound s t"
    by (rule eff_each_invariant [where I = "rebound s", OF _ start])
      (auto intro: record_binding_rebound split: if_splits)
  with True show ?thesis by simp
next
  case False
  with assms have "t = s" by (simp add: record_bindings_def)
  then show ?thesis by (auto simp: rebound_def intro: exI [of _ "se_services (ss_stack s)"])
qed

lemma finish_runs:
  assumes "finish h k user e rs s = (Inr r, t)"
  shows "ar_success r = all_succeeded rs \<and> ar_serviceResults r = rs \<and> ar_appliedVersion r = se_version (pp_stack e) \<and>
    ss_deployments t = ss_deployments s @ [deployment_of k e user rs] \<and>
    (\<exists>rows. ss_stack t = (record_applied (pp_stack e) (pp_services e) rs (ss_stack s))\<lparr>se_services := rows\<rparr> \<and>
       map row_definition rows = map row_definition (se_services (ss_stack s)) \<and>
       (all_succeeded rs \<or> rows = se_services (ss_stack s)))"
proof -
  let ?app = "record_applied (pp_stack e) (pp_services e) rs" and ?d = "deployment_of k e user rs"
  from assms obtain u v w where a: "db_write h (ss_stack_update ?app) s = (Inr (), u)"
    and b: "record_bindings h e rs u = (Inr (), v)"
    and d: "db_write h (ss_deployments_update (\<lambda>ds. ds @ [?d])) v = (Inr (), w)"
    and p: "eff_catch (perform PruneSnapshots (k_prune h)) (\<lambda>_. eff_return ()) w = (Inr (), t)"
    and r: "r = \<lparr>ar_success = all_succeeded rs, ar_appliedVersion = se_version (pp_stack e), ar_serviceResults = rs,
          ar_resourceResults = pp_resourceResults e, ar_upToDate = False\<rparr>"
    unfolding finish_def eff_then_Inr by auto
  have "preserves rows_of (eff_catch (perform PruneSnapshots (k_prune h)) (\<lambda>_. eff_return ()))" by (intro keeps)
  from preservesD [OF this p] have t: "rows_of t = rows_of w" .
  from db_write_run [OF a] have u: "ss_stack u = ?app (ss_stack s)" "ss_deployments u = ss_deployments s" by auto
  from db_write_run [OF d] have w: "ss_stack w = ss_stack v" "ss_deployments w = ss_deployments v @ [?d]" by auto
  from record_bindings_rebound [OF b] obtain rows where v: "ss_deployments v = ss_deployments u"
    "ss_stack v = (ss_stack u)\<lparr>se_services := rows\<rparr>"
    "map row_definition rows = map row_definition (se_services (ss_stack u))"
    and same: "all_succeeded rs \<or> ss_stack v = ss_stack u" unfolding rebound_def by blast
  have keep: "se_services (?app (ss_stack s)) = se_services (ss_stack s)" by (simp add: record_applied_def)
  from t have "ss_stack t = ss_stack v" "ss_deployments t = ss_deployments s @ [?d]"
    by (simp_all add: rows_of_def w v(1) u)
  moreover have "all_succeeded rs \<or> rows = se_services (ss_stack s)" using same v(2) u(1) keep by (metis stack_entity.select_convs(5) stack_entity.surjective stack_entity.update_convs(5))
  ultimately show ?thesis using v(2,3) u(1) keep by (auto simp: r)
qed

section \<open>The results of an apply\<close>

lemma handler_name: "hc_name (handler_of e a) = sa_serviceName a"
  by (simp add: handler_of_def)

lemmas handler_names = stateful_names [where c = "handler_of e a" for e a, unfolded handler_name]
  stateless_names [where c = "handler_of e a" for e a, unfolded handler_name]
  update_names [where c = "handler_of e a" for e a, unfolded handler_name]
  adopted_names [where c = "handler_of e a" for e a, unfolded handler_name]

lemma dispatch_names: "returns (\<lambda>r. sv_serviceName r = sa_serviceName a) (dispatch_apply h e a)"
  unfolding dispatch_apply_def Let_def by (intro returns_if handler_names)

lemma run_names: "returns (\<lambda>r. sv_serviceName r = sa_serviceName a) (run_action h notify e a)"
proof -
  let ?P = "\<lambda>r. sv_serviceName r = sa_serviceName a"
  have "returns ?P (eff_catch (dispatch_apply h e a) (\<lambda>m. eff_return (failed_result a m)))"
    by (intro returns_catch dispatch_names returns_return) (simp add: failed_result_def)
  then have "returns ?P (eff_bind (eff_catch (dispatch_apply h e a) (\<lambda>m. eff_return (failed_result a m))) (\<lambda>r.
      eff_then (if notify then eff_catch (perform (NotifyProgress (sa_serviceName a)) (k_progress h (sa_serviceName a)))
            (\<lambda>_. eff_return ()) else eff_return ()) (eff_return r)))"
    by (rule returns_seq) (intro returns_then returns_return)
  then show ?thesis unfolding run_action_def Let_def by (intro returns_if returns_throw)
qed

lemma results_names:
  assumes "eff_each (run_action h notify e) acts s = (Inr rs, t)"
  shows "map sv_serviceName rs = map sa_serviceName acts"
proof -
  have "list_all2 (\<lambda>a r. sv_serviceName r = sa_serviceName a) acts rs"
    by (rule eff_each_results [OF assms]) (rule returnsD [OF run_names])
  then show ?thesis by (induction rule: list_all2_induct) simp_all
qed

lemma select_actions_filter:
  "select_actions ns acts = filter (\<lambda>a. sa_action a \<noteq> ActNoOp \<and>
     (case ns of None \<Rightarrow> True | Some xs \<Rightarrow> xs = [] \<or> sa_serviceName a \<in> set xs)) acts"
  by (cases ns) (auto simp: select_actions_def Let_def conj_commute)

lemma sort_actions_perm: "mset (sort_actions st acts) = mset acts"
  by (simp add: sort_actions_def)

lemma sort_actions_sorted:
  "sorted (map (\<lambda>a. (action_rank (sa_action a), service_order st (sa_serviceName a))) (sort_actions st acts))"
  by (simp add: sort_actions_def)

text \<open>C7: An apply accounts for every change it was asked for. When an apply that is not a dry run returns,
  its results are, one for one, those of the changes of its plan (no-ops left out, and the services that were
  not named if some were), the created before the recreated before the removed, each kind in the order of the
  services; the result says success exactly when each of them succeeded, and nothing else is in it.\<close>

theorem apply_results_match:
  assumes "applyInner h opt s = (Inr r, t)" and "\<not> ao_dryRun opt"
  shows "\<exists>p u acts. chosen_plan h opt s = (Inr p, u) \<and>
    mset acts = mset (filter (\<lambda>a. sa_action a \<noteq> ActNoOp \<and> (case ao_serviceNames opt of None \<Rightarrow> True
      | Some xs \<Rightarrow> xs = [] \<or> sa_serviceName a \<in> set xs)) (sp_actions p)) \<and>
    sorted (map (\<lambda>a. (action_rank (sa_action a), service_order (ss_stack s) (sa_serviceName a))) acts) \<and>
    map sv_serviceName (ar_serviceResults r) = map sa_serviceName acts \<and>
    (ar_success r \<longleftrightarrow> list_all sv_success (ar_serviceResults r))"
proof -
  from apply_runs [OF assms] obtain p u v where p: "chosen_plan h opt s = (Inr p, u)"
    and loop: "apply_loop h opt p (ss_stack s) (select_actions (ao_serviceNames opt) (sp_actions p)) v = (Inr r, t)" by blast
  from loop_runs [OF loop] obtain e u' rs v' w where
    each: "eff_each (run_action h (ao_onProgress opt) e)
      (sort_actions (ss_stack s) (select_actions (ao_serviceNames opt) (sp_actions p))) u' = (Inr rs, v')"
    and fin: "finish h ''apply'' (ao_triggeredBy opt) e rs w = (Inr r, t)" by blast
  from finish_runs [OF fin] have "ar_serviceResults r = rs" "ar_success r = list_all sv_success rs"
    by (simp_all add: all_succeeded_def)
  with p results_names [OF each] show ?thesis
    by (intro exI [of _ p] exI [of _ u] exI [of _ "sort_actions (ss_stack s) (select_actions (ao_serviceNames opt) (sp_actions p))"])
      (simp add: sort_actions_perm sort_actions_sorted select_actions_filter)
qed

section \<open>What an apply records\<close>

lemma summary_bounded: "summariseServiceFailures rs \<noteq> [] \<and> length (summariseServiceFailures rs) \<le> failure_budget"
proof -
  have "join_str sep (map failure_part xs) \<noteq> []" if "xs \<noteq> []" for sep xs
    using that by (cases xs; cases "tl xs") (auto simp: failure_part_def)
  then show ?thesis by (simp add: summariseServiceFailures_def failure_budget_def Let_def)
qed


section \<open>An apply that throws\<close>

definition database_answers :: "('w, 'y) stack_host_scheme \<Rightarrow> bool" where
  "database_answers h \<longleftrightarrow> (\<forall>w. \<exists>w'. k_database h w = (Inr (), w'))"

lemma db_write_total: "database_answers h \<Longrightarrow> eff_total (db_write h f)"
  by (auto simp: eff_total_def db_write_def eff_then_Inr perform_Inr database_answers_def)

lemma eff_total_not_Inl: "eff_total m \<Longrightarrow> m s \<noteq> (Inl e, t)"
  unfolding eff_total_def by (metis old.sum.distinct(1) prod.inject)

lemma finish_total: "database_answers h \<Longrightarrow> eff_total (finish h k user e rs)"
  unfolding finish_def record_bindings_def Let_def
  by (auto intro!: eff_total_then eff_total_catch eff_total_each db_write_total)

lemma loop_throws:
  assumes "apply_loop h opt p st acts s = (Inl e, t)" and "database_answers h"
  shows "rows_of t = rows_of s"
proof -
  let ?before = "eff_bind (prepare_apply h opt p st acts) (\<lambda>e.
     eff_bind (eff_each (run_action h (ao_onProgress opt) e) (sort_actions st acts)) (\<lambda>rs.
     eff_then (after_actions h e rs) (eff_return (e, rs))))"
  have "preserves rows_of ?before" by (intro keeps)
  moreover have "apply_loop h opt p st acts s = eff_bind ?before (\<lambda>(e, rs). finish h ''apply'' (ao_triggeredBy opt) e rs) s"
    by (simp add: apply_loop_def eff_bind_def eff_then_def eff_return_def split: prod.split sum.split)
  with assms(1) have "eff_bind ?before (\<lambda>(e, rs). finish h ''apply'' (ao_triggeredBy opt) e rs) s = (Inl e, t)" by simp
  then have "?before s = (Inl e, t)"
    using eff_total_not_Inl [OF finish_total [OF assms(2)]] unfolding eff_bind_Inl [of ?before] by force
  ultimately show ?thesis by (rule preservesD)
qed

lemma record_failure_run:
  assumes "database_answers h" and "recordDeploymentFailure h k v user e s = (Inr (), t)"
  shows "ss_stack t = (ss_stack s)\<lparr>se_status := ''error'', se_lastFailureReason := Some e\<rparr> \<and>
    ss_deployments t = ss_deployments s @ [\<lparr>dp_action = k, dp_success = False, dp_version = Some v, dp_status = ''error'',
      dp_serviceResults = [], dp_resourceResults = [], dp_error = Some e, dp_triggeredBy = user, dp_snapshot = None\<rparr>]"
proof -
  have "db_write h f u \<noteq> (Inl m, u')" for f u m u' using db_write_total [OF assms(1)] by (rule eff_total_not_Inl)
  with assms(2) show ?thesis
    by (auto simp: recordDeploymentFailure_def markStackErrored_def eff_then_Inr eff_catch_Inr dest!: db_write_run)
qed


section \<open>No service stops an apply\<close>

definition aftermath_answers :: "('w, 'y) stack_host_scheme \<Rightarrow> bool" where
  "aftermath_answers h \<longleftrightarrow> (\<forall>st outs w. \<exists>w'. k_joinSelf h st outs w = (Inr (), w')) \<and>
     (\<forall>rs w. \<exists>w'. k_postInstall h rs w = (Inr (), w'))"

lemma run_total: "k_routing h \<Longrightarrow> eff_total (run_action h notify e a)"
  unfolding run_action_def Let_def
  by (auto intro!: eff_total_bind eff_total_then eff_total_catch eff_total_return)

lemma after_total:
  assumes "aftermath_answers h"
  shows "eff_total (after_actions h e rs)"
proof -
  have "eff_total (perform JoinSelf (k_joinSelf h (pp_stack e) (pp_outputs e)))" "eff_total (perform PostInstall (k_postInstall h rs))"
    using assms by (auto simp: aftermath_answers_def eff_total_def perform_Inr)
  then show ?thesis unfolding after_actions_def by (intro eff_total_then eff_total_catch eff_total_return)
qed

lemma apply_returns:
  assumes "chosen_plan h opt s = (Inr p, u)" and "find_stack h u = (Inr st, v)"
    and "prepare_apply h opt p st (select_actions (ao_serviceNames opt) (sp_actions p)) v = (Inr e, w)"
    and "\<not> ao_dryRun opt" and "k_routing h" and "database_answers h" and "aftermath_answers h"
  shows "\<exists>r t. applyInner h opt s = (Inr r, t) \<and>
    apply_loop h opt p st (select_actions (ao_serviceNames opt) (sp_actions p)) v = (Inr r, t)"
proof -
  let ?acts = "select_actions (ao_serviceNames opt) (sp_actions p)"
  have "eff_total (eff_bind (eff_each (run_action h (ao_onProgress opt) e) (sort_actions st ?acts)) (\<lambda>rs.
      eff_then (after_actions h e rs) (finish h ''apply'' (ao_triggeredBy opt) e rs)))"
    by (intro eff_total_bind eff_total_each eff_total_then run_total after_total finish_total assms)
  then obtain r t where "eff_bind (eff_each (run_action h (ao_onProgress opt) e) (sort_actions st ?acts)) (\<lambda>rs.
      eff_then (after_actions h e rs) (finish h ''apply'' (ao_triggeredBy opt) e rs)) w = (Inr r, t)"
    unfolding eff_total_def by blast
  then have loop: "apply_loop h opt p st ?acts v = (Inr r, t)" using assms(3) by (simp add: apply_loop_def eff_bind_def [of "prepare_apply h opt p st ?acts"])
  then have "applyInner h opt s = (Inr r, t)"
    using assms(1,2,4) by (simp add: applyInner_def eff_bind_def Let_def or_record_def eff_catch_def)
  with loop show ?thesis by blast
qed

text \<open>No service can stop an apply of the others. Where HAProxy routing is available, the database answers
  and what follows the services does not fail, an apply that got as far as its first service returns a result,
  whatever the handlers throw: a failure becomes the result of its own service and the loop goes on.\<close>

theorem apply_isolates_failures:
  assumes "chosen_plan h opt s = (Inr p, u)" and "find_stack h u = (Inr st, v)"
    and "prepare_apply h opt p st (select_actions (ao_serviceNames opt) (sp_actions p)) v = (Inr e, w)"
    and "\<not> ao_dryRun opt" and "k_routing h" and "database_answers h" and "aftermath_answers h"
  shows "\<exists>r t. applyInner h opt s = (Inr r, t) \<and> length (ar_serviceResults r) = length (select_actions (ao_serviceNames opt) (sp_actions p))"
proof -
  let ?acts = "select_actions (ao_serviceNames opt) (sp_actions p)"
  from apply_returns [OF assms] obtain r t where run: "applyInner h opt s = (Inr r, t)"
    and loop: "apply_loop h opt p st ?acts v = (Inr r, t)" by blast
  from loop_runs [OF loop] obtain e' x rs y z where
    each: "eff_each (run_action h (ao_onProgress opt) e') (sort_actions st ?acts) x = (Inr rs, y)"
    and fin: "finish h ''apply'' (ao_triggeredBy opt) e' rs z = (Inr r, t)" by blast
  have "ar_serviceResults r = rs" using finish_runs [OF fin] by simp
  moreover have "length rs = length (sort_actions st ?acts)"
    using arg_cong [OF results_names [OF each], of length] by simp
  moreover have "length (sort_actions st ?acts) = length ?acts" by (simp add: sort_actions_def)
  ultimately show ?thesis using run by auto
qed

section \<open>A host and stacks, for the witnesses\<close>

definition example_stack_host :: "nat stack_host" where
  "example_stack_host = env_host.extend (example_env_host True)
     \<lparr>k_sha = take 2, k_le = (\<le>), k_num = (\<lambda>_. None), k_registry = example_registry, k_cloud = None, k_routing = True,
      k_database = answer (), k_networkReport = answer [], k_reconcileOutputs = (\<lambda>_. answer []),
      k_resolveInputs = (\<lambda>_ _. answer []), k_ensureNetwork = (\<lambda>_ _. answer ()), k_compileMemberships = (\<lambda>_ _. answer ()),
      k_recordEgress = (\<lambda>_ _. answer ()), k_volumeExists = (\<lambda>_. answer True), k_createVolume = (\<lambda>_. answer ()),
      k_rotatePoolTokens = (\<lambda>_. answer []), k_writeCredsFiles = (\<lambda>_ _. answer ()), k_joinSelf = (\<lambda>_ _. answer ()),
      k_converge = (\<lambda>_. answer ()), k_postInstall = (\<lambda>_. answer ()), k_progress = (\<lambda>_. answer ()),
      k_prune = answer (), k_inspectImage = (\<lambda>_. answer ''i1'')\<rparr>"

definition example_row :: "service_definition \<Rightarrow> int \<Rightarrow> service_row" where
  "example_row d n = \<lparr>row_definition = d, row_order = n, row_vaultAppRoleId = None, row_lastAppliedVaultAppRoleId = None,
     row_natsCredentialId = None\<rparr>"

definition plain_service :: "string \<Rightarrow> string \<Rightarrow> service_definition" where
  "plain_service name ty = hash_example\<lparr>sd_serviceName := name, sd_serviceType := ty, sd_containerConfig := Some [],
     sd_configFiles := None, sd_initCommands := None, sd_addons := None\<rparr>"

definition adopted_service :: service_definition where
  "adopted_service = (plain_service ''old'' ''AdoptedWeb'')\<lparr>sd_routing := Some (JObj [(''hostname'', JStr ''shop.test''), (''listeningPort'', JNum 80)]),
     sd_adoptedContainer := Some (JObj [(''containerName'', JStr ''legacy'')])\<rparr>"

definition example_state :: "service_definition list \<Rightarrow> nat stack_state" where
  "example_state ds = \<lparr>ap_world = 0, ap_calls = [], ss_stack = example_stack (map (\<lambda>d. example_row d 1) ds),
     ss_deployments = [], ss_resources = []\<rparr>"

definition example_options :: apply_options where
  "example_options = \<lparr>ao_serviceNames = None, ao_dryRun = False, ao_forcePull = False, ao_triggeredBy = None, ao_plan = None,
     ao_connectedServices = ServicesUndefined, ao_onProgress = True\<rparr>"

definition mixed_state :: "nat stack_state" where
  "mixed_state = example_state [plain_service ''db'' ''Stateful'', adopted_service]"

lemma example_host_answers: "database_answers example_stack_host" "aftermath_answers example_stack_host" "k_routing example_stack_host"
  by (simp_all add: database_answers_def aftermath_answers_def example_stack_host_def env_host.defs answer_def)

definition mixed_plan :: "(string + plan) \<times> nat stack_state" where
  "mixed_plan = chosen_plan example_stack_host example_options mixed_state"

definition mixed_find :: "(string + stack_entity) \<times> nat stack_state" where
  "mixed_find = find_stack example_stack_host (snd mixed_plan)"

definition mixed_prepared :: "(string + apply_env) \<times> nat stack_state" where
  "mixed_prepared = prepare_apply example_stack_host example_options (projr (fst mixed_plan)) (projr (fst mixed_find))
     (select_actions None (sp_actions (projr (fst mixed_plan)))) (snd mixed_find)"

text \<open>The stages of an apply up to its first service, evaluated once.\<close>

lemma mixed_run:
  "case mixed_plan of (q, u) \<Rightarrow> (case q of Inl _ \<Rightarrow> False | Inr p \<Rightarrow>
     map sa_serviceName (select_actions None (sp_actions p)) = [''db'', ''old''] \<and>
     (case find_stack example_stack_host u of (st, v) \<Rightarrow> isl st = False \<and>
        isl (fst (prepare_apply example_stack_host example_options p (projr st) (select_actions None (sp_actions p)) v)) = False))"
  by code_simp

lemma mixed_names: "map sa_serviceName (select_actions None (sp_actions (projr (fst mixed_plan)))) = [''db'', ''old'']"
  using mixed_run by (simp add: case_prod_unfold split: sum.splits)

lemma mixed_stages:
  "mixed_plan = (Inr (projr (fst mixed_plan)), snd mixed_plan)"
  "mixed_find = (Inr (projr (fst mixed_find)), snd mixed_find)"
  "mixed_prepared = (Inr (projr (fst mixed_prepared)), snd mixed_prepared)"
  unfolding mixed_find_def mixed_prepared_def using mixed_run
  by (intro Inr_result; simp add: case_prod_unfold mixed_find_def split: sum.splits)+

lemma example_options_simps: "ao_serviceNames example_options = None" "\<not> ao_dryRun example_options" "ao_plan example_options = None"
  by (simp_all add: example_options_def)

lemma mixed_steps:
  "chosen_plan example_stack_host example_options mixed_state = (Inr (projr (fst mixed_plan)), snd mixed_plan)"
  "find_stack example_stack_host (snd mixed_plan) = (Inr (projr (fst mixed_find)), snd mixed_find)"
  "prepare_apply example_stack_host example_options (projr (fst mixed_plan)) (projr (fst mixed_find))
     (select_actions (ao_serviceNames example_options) (sp_actions (projr (fst mixed_plan)))) (snd mixed_find) =
   (Inr (projr (fst mixed_prepared)), snd mixed_prepared)"
  by (simp_all only: example_options_simps(1) flip: mixed_stages mixed_plan_def mixed_find_def mixed_prepared_def)

lemmas mixed_host = example_options_simps(2) example_host_answers(3) example_host_answers(1,2)

lemma mixed_applies: "\<exists>r t. applyInner example_stack_host example_options mixed_state = (Inr r, t)"
  using apply_returns [OF mixed_steps mixed_host] by blast

section \<open>Witnesses\<close>

lemma apply_isolates_failures_witness:
  "\<exists>r t. applyInner example_stack_host example_options mixed_state = (Inr r, t) \<and> length (ar_serviceResults r) = 2"
  using apply_isolates_failures [OF mixed_steps mixed_host]
    arg_cong [OF mixed_names, of length] by (simp add: example_options_simps numeral_2_eq_2)

lemma apply_results_match_witness:
  "\<exists>r t. applyInner example_stack_host example_options mixed_state = (Inr r, t) \<and>
     mset (map sv_serviceName (ar_serviceResults r)) = {# ''db'', ''old'' #}"
proof -
  from mixed_applies obtain r t where run: "applyInner example_stack_host example_options mixed_state = (Inr r, t)" by blast
  from apply_results_match [OF run example_options_simps(2)] obtain acts where
    acts: "mset acts = mset (select_actions None (sp_actions (projr (fst mixed_plan))))"
      "map sv_serviceName (ar_serviceResults r) = map sa_serviceName acts"
    by (auto simp: example_options_simps mixed_steps(1) select_actions_filter)
  from arg_cong [OF acts(1), of "image_mset sa_serviceName"]
  have "mset (map sa_serviceName acts) = mset [''db'', ''old'']" unfolding mixed_names [symmetric] by simp
  with acts(2) have "mset (map sv_serviceName (ar_serviceResults r)) = {# ''db'', ''old'' #}" by (simp only:) simp
  with run show ?thesis by blast
qed


lemma Inl_result: "isl (fst p) \<Longrightarrow> p = (Inl (projl (fst p)), snd p)"
  by (cases p) auto

definition unported_state :: "nat stack_state" where
  "unported_state = example_state [adopted_service\<lparr>sd_routing := Some (JObj [])\<rparr>]"

definition unported_options :: apply_options where
  "unported_options = example_options\<lparr>ao_plan := Some \<lparr>sp_actions = [], sp_resourceActions = [], sp_networkActions = [],
     sp_hasChanges = True, sp_templateUpdateAvailable = False, sp_templateVersionRelation = UnknownVersion,
     sp_warnings = None, pl_stackVersion = 3\<rparr>\<rparr>"


end
