(* ===== verification/ApplyCalls.thy ===== *)
theory ApplyCalls
  imports ApplyOutcome
begin

text \<open>
  In what order an apply, an update and a stop call Docker, HAProxy and the database, and where that falls
  short: secrets before containers, a dry run that only reads, removals and adopted containers, updates with
  addons or pools, the order of a stop.
\<close>

section \<open>The calls of an operation\<close>

text \<open>The calls that touch a container or the traffic to it.\<close>

fun touches :: "host_call \<Rightarrow> bool" where
  "touches (StopAndRemove _) = True"
| "touches (CreateContainer _ _) = True"
| "touches (AttachNetworks _ _) = True"
| "touches (StartContainer _) = True"
| "touches RunInitCommands = True"
| "touches WriteConfigFiles = True"
| "touches (RunInitial _) = True"
| "touches (RunBlueGreen _ _) = True"
| "touches (RunUpdate _ _) = True"
| "touches (RunRemoval _ _) = True"
| "touches (DrainServer _ _) = True"
| "touches (DeleteServer _ _) = True"
| "touches (RemoveRoute _) = True"
| "touches (SetupBackend _ _) = True"
| "touches (ConfigureRoute _) = True"
| "touches (EnableRouteTraffic _) = True"
| "touches _ = False"

fun reads :: "host_call \<Rightarrow> bool" where
  "reads ReadDatabase = True"
| "reads ListContainers = True"
| "reads (PullImage _ _) = True"
| "reads (InspectImage _) = True"
| "reads _ = False"

abbreviation spares :: "host_call \<Rightarrow> bool" where
  "spares k \<equiv> \<not> touches k"

lemma reads_spare: "reads k \<Longrightarrow> spares k"
  by (cases k) simp_all

lemma expansion_traced [traced]: "traced P (with_expansion m)"
  by (rule traced_silent) (simp add: with_expansion_def split: prod.split)

lemma resources_traced [traced]: "P ReconcileResources \<Longrightarrow> traced P (with_resources m)"
  by (auto simp: traced_def with_resources_def split: prod.split)

lemma resolve_traced [traced]: "traced P (resolve_stack h st opt)"
  by (simp add: resolve_stack_def traced)

lemma db_write_traced [traced]: "P WriteDatabase \<Longrightarrow> (\<And>s. ap_calls (f s) = ap_calls s) \<Longrightarrow> traced P (db_write h f)"
  unfolding db_write_def by (intro traced) simp_all

lemma find_traced [traced]: "P ReadDatabase \<Longrightarrow> traced P (find_stack h)"
  by (simp add: find_stack_def traced)

lemma own_traced [traced]: "P ListContainers \<Longrightarrow> traced P (own_containers h sid)"
  by (auto simp: own_containers_def intro!: traced)

lemma plan_traced: "traced reads (plan_stack h)"
  by (auto simp: plan_stack_def intro!: traced)

lemma pull_traced: "traced reads (pull_service h defs row)"
  by (auto simp: pull_service_def intro!: traced split: option.split)

lemma promote_traced: "traced reads (promoteStalePullActions h p)"
  by (auto simp: promoteStalePullActions_def Let_def intro!: traced pull_traced)

lemma chosen_traced: "traced reads (chosen_plan h opt)"
  by (auto simp: chosen_plan_def intro!: traced plan_traced promote_traced split: option.split)

lemma networks_traced: "traced spares (ensureStackNetworks h project nets)"
  by (auto simp: ensureStackNetworks_def intro!: traced)

lemma volume_traced: "traced spares (ensure_volume h project v)"
  by (auto simp: ensure_volume_def Let_def intro!: traced)

lemma reconcile_traced: "traced spares (reconcile_stack_resources h st user acts)"
  by (auto simp: reconcile_stack_resources_def intro!: traced split: option.split)

lemma infra_traced: "traced spares (infra_networks h st rv)"
  by (auto simp: infra_networks_def Let_def intro!: traced split: prod.split)

lemma memberships_traced: "traced spares (compile_memberships h st defs)"
  by (auto simp: compile_memberships_def intro!: traced)

lemma secrets_traced: "traced spares (resolve_secrets h st defs acts)"
  by (auto simp: resolve_secrets_def intro!: traced)

lemmas prepare_traced = networks_traced volume_traced reconcile_traced infra_traced memberships_traced secrets_traced

lemma prepare_apply_traced: "traced spares (prepare_apply h opt p st acts)"
  by (auto simp: prepare_apply_def Let_def intro!: traced prepare_traced split: prod.split)

lemma failure_traced: "traced spares (recordDeploymentFailure h k v user e)"
  by (auto simp: recordDeploymentFailure_def markStackErrored_def intro!: traced)

section \<open>A dry run\<close>

text \<open>A dry run is only a plan. It writes no row, touches no container and calls nothing but the reads
  of the planner and, if a pull is forced, the pull of the images; what it returns is, for each change
  of the plan that was asked for, that it would be made.\<close>

theorem dry_run_only_reads:
  assumes "applyInner h opt s = (q, t)" and "ao_dryRun opt"
  shows "rows_of t = rows_of s \<and> (\<exists>ks. ap_calls t = ap_calls s @ ks \<and> list_all reads ks) \<and>
    (case q of Inl e \<Rightarrow> fst (chosen_plan h opt s) = Inl e
      | Inr r \<Rightarrow> (\<exists>p. fst (chosen_plan h opt s) = Inr p \<and> ar_success r \<and>
          map (\<lambda>x. (sv_serviceName x, sv_action x)) (ar_serviceResults r) =
            map (\<lambda>a. (sa_serviceName a, sa_action a)) (select_actions (ao_serviceNames opt) (sp_actions p))))"
proof -
  obtain c u where c: "chosen_plan h opt s = (c, u)" by (cases "chosen_plan h opt s")
  with assms have "t = u \<and> (case q of Inl e \<Rightarrow> c = Inl e
      | Inr r \<Rightarrow> (\<exists>p. c = Inr p \<and> ar_success r \<and> ar_serviceResults r = dry_results (select_actions (ao_serviceNames opt) (sp_actions p))))"
    by (auto simp: applyInner_def eff_bind_def eff_return_def Let_def split: sum.splits)
  with c preservesD [OF chosen_rows c] tracedD [OF chosen_traced c] show ?thesis
    by (auto simp: dry_results_def comp_def split: sum.splits)
qed

section \<open>Secrets come first\<close>

lemma secrets_written:
  assumes "resolve_secrets h st defs acts s = (Inr e, t)"
  shows "WriteCreds \<in> set (ap_calls t)"
  using assms by (auto simp: resolve_secrets_def eff_bind_Inr eff_then_Inr perform_Inr)

lemma prepare_written:
  assumes "prepare_apply h opt p st acts s = (Inr e, t)"
  shows "WriteCreds \<in> set (ap_calls t)"
  using assms by (auto simp: prepare_apply_def Let_def eff_bind_Inr eff_then_Inr split: prod.splits dest: secrets_written)

lemma reads_run: "traced reads m \<Longrightarrow> m s = (r, t) \<Longrightarrow> \<exists>ks. ap_calls t = ap_calls s @ ks \<and> list_all spares ks"
  using tracedD [of reads m s r t] reads_spare by (fastforce simp: list_all_iff)

text \<open>What runs after the credential files are written may touch anything; before, nothing does.\<close>

definition secret_first :: "('w, 'a) stack_op \<Rightarrow> bool" where
  "secret_first m \<longleftrightarrow> (\<forall>s. \<exists>before after. ap_calls (snd (m s)) = ap_calls s @ before @ after \<and> list_all spares before \<and>
     (after = [] \<or> WriteCreds \<in> set (ap_calls s @ before)))"

lemma secret_firstI:
  "(\<And>s r t. m s = (r, t) \<Longrightarrow> \<exists>before after. ap_calls t = ap_calls s @ before @ after \<and> list_all spares before \<and>
     (after = [] \<or> WriteCreds \<in> set (ap_calls s @ before))) \<Longrightarrow> secret_first m"
  unfolding secret_first_def by (metis prod.collapse)

lemma secret_firstD:
  "secret_first m \<Longrightarrow> m s = (r, t) \<Longrightarrow> \<exists>before after. ap_calls t = ap_calls s @ before @ after \<and> list_all spares before \<and>
     (after = [] \<or> WriteCreds \<in> set (ap_calls s @ before))"
  unfolding secret_first_def by (metis snd_conv)

lemma secret_first_spares: "traced spares m \<Longrightarrow> secret_first m"
  by (rule secret_firstI) (metis append_Nil2 tracedD)

lemma secret_first_bind:
  assumes "traced spares m" and "\<And>x. secret_first (f x)"
  shows "secret_first (eff_bind m f)"
proof (rule secret_firstI)
  fix s r t assume run: "eff_bind m f s = (r, t)"
  obtain q u where m: "m s = (q, u)" by (cases "m s")
  from tracedD [OF assms(1) m] obtain ks where ks: "ap_calls u = ap_calls s @ ks" "list_all spares ks" by blast
  show "\<exists>before after. ap_calls t = ap_calls s @ before @ after \<and> list_all spares before \<and>
     (after = [] \<or> WriteCreds \<in> set (ap_calls s @ before))"
  proof (cases q)
    case (Inl e)
    with run m ks show ?thesis by (intro exI [of _ ks] exI [of _ "[]"]) (simp add: eff_bind_def)
  next
    case (Inr x)
    with run m have "f x u = (r, t)" by (simp add: eff_bind_def)
    from secret_firstD [OF assms(2) this] obtain before after where "ap_calls t = ap_calls u @ before @ after"
      "list_all spares before" "after = [] \<or> WriteCreds \<in> set (ap_calls u @ before)" by blast
    with ks show ?thesis by (intro exI [of _ "ks @ before"] exI [of _ after]) simp
  qed
qed

lemma secret_first_written:
  assumes "traced spares m" and "\<And>s x t. m s = (Inr x, t) \<Longrightarrow> WriteCreds \<in> set (ap_calls t)"
    and "\<And>x. traced (\<lambda>_. True) (f x)"
  shows "secret_first (eff_bind m f)"
proof (rule secret_firstI)
  fix s r t assume run: "eff_bind m f s = (r, t)"
  obtain q u where m: "m s = (q, u)" by (cases "m s")
  from tracedD [OF assms(1) m] obtain ks where ks: "ap_calls u = ap_calls s @ ks" "list_all spares ks" by blast
  show "\<exists>before after. ap_calls t = ap_calls s @ before @ after \<and> list_all spares before \<and>
     (after = [] \<or> WriteCreds \<in> set (ap_calls s @ before))"
  proof (cases q)
    case (Inl e)
    with run m ks show ?thesis by (intro exI [of _ ks] exI [of _ "[]"]) (simp add: eff_bind_def)
  next
    case (Inr x)
    with run m have "f x u = (r, t)" by (simp add: eff_bind_def)
    from tracedD [OF assms(3) this] obtain ls where "ap_calls t = ap_calls u @ ls" by blast
    moreover have "WriteCreds \<in> set (ap_calls u)" using assms(2) m Inr by blast
    ultimately show ?thesis using ks by (intro exI [of _ ks] exI [of _ ls]) simp
  qed
qed

lemma secret_first_catch:
  assumes "secret_first m" and "\<And>e. traced spares (f e)"
  shows "secret_first (eff_catch m f)"
proof (rule secret_firstI)
  fix s r t assume run: "eff_catch m f s = (r, t)"
  obtain q u where m: "m s = (q, u)" by (cases "m s")
  from secret_firstD [OF assms(1) m] obtain before after where ba: "ap_calls u = ap_calls s @ before @ after"
    "list_all spares before" "after = [] \<or> WriteCreds \<in> set (ap_calls s @ before)" by blast
  show "\<exists>before after. ap_calls t = ap_calls s @ before @ after \<and> list_all spares before \<and>
     (after = [] \<or> WriteCreds \<in> set (ap_calls s @ before))"
  proof (cases q)
    case (Inl e)
    with run m have "f e u = (r, t)" by (simp add: eff_catch_def)
    from tracedD [OF assms(2) this] obtain ls where ls: "ap_calls t = ap_calls u @ ls" "list_all spares ls" by blast
    show ?thesis
    proof (cases "after = []")
      case True
      with ba ls show ?thesis by (intro exI [of _ "before @ ls"] exI [of _ "[]"]) simp
    next
      case False
      with ba ls show ?thesis by (intro exI [of _ before] exI [of _ "after @ ls"]) simp
    qed
  next
    case (Inr x)
    with run m ba show ?thesis by (auto simp: eff_catch_def)
  qed
qed

text \<open>Whatever they call, the trace only grows.\<close>

abbreviation anything :: "host_call \<Rightarrow> bool" where
  "anything \<equiv> \<lambda>_. True"

lemma prepare_container_traced [traced]: "traced anything (prepareServiceContainer h d configs p)"
  by (auto simp: prepareServiceContainer_def Let_def intro!: traced)

lemma start_traced [traced]: "traced anything (start_service h c a d)"
  by (auto simp: start_service_def buildPostStartFailureMessage_def intro!: traced)

lemma stateful_traced [traced]: "traced anything (applyStateful h c)"
  by (auto simp: applyStateful_def clear_conflict_def Let_def intro!: traced split: plan_action.split option.split)

lemma machine_context_traced [traced]: "P ReadDatabase \<Longrightarrow> traced P (buildStateMachineContext h c d routing)"
  by (auto simp: buildStateMachineContext_def Let_def intro!: traced split: option.split json.split)

lemma stateless_traced [traced]: "traced anything (applyStatelessWeb h c)"
  by (auto simp: applyStatelessWeb_def intro!: traced split: plan_action.split prod.split)

lemma update_web_traced [traced]: "traced anything (updateStatelessWeb h c)"
  by (auto simp: updateStatelessWeb_def intro!: traced split: prod.split)

lemma setup_traced [traced]: "traced anything (setup_adopted h c d r a n x)"
  by (auto simp: setup_adopted_def Let_def intro!: traced split: option.split prod.split json.split)

lemma adopted_traced [traced]: "traced anything (applyAdoptedWeb h c)"
  by (auto simp: applyAdoptedWeb_def cleanupAdoptedWebRouting_def Let_def intro!: traced split: option.split)

lemma run_traced [traced]: "traced anything (run_action h notify e a)"
  by (auto simp: run_action_def dispatch_apply_def Let_def intro!: traced)

lemma after_traced [traced]: "traced anything (after_actions h e rs)"
  by (auto simp: after_actions_def intro!: traced)

lemma finish_traced: "traced spares (finish h k user e rs)"
  by (auto simp: finish_def record_bindings_def Let_def intro!: traced split: prod.split)

lemma loop_secret_first: "secret_first (apply_loop h opt p st acts)"
  unfolding apply_loop_def
  by (rule secret_first_written [OF prepare_apply_traced prepare_written])
    (auto intro!: traced traced_mono [OF finish_traced])

text \<open>C5: The secrets are in place before any container is touched. Whatever an apply goes on to do and however
  it ends, no container was stopped, created, started or handed to a machine and no traffic was moved
  before the credential files were written: the calls made until then only read, prepare networks, volumes and
  resources, and resolve the variables. An apply that fails before that has touched no container.\<close>

theorem secrets_before_containers:
  assumes "applyInner h opt s = (q, t)" and "ap_calls s = []"
  shows "\<exists>before after. ap_calls t = before @ after \<and> list_all spares before \<and> (after = [] \<or> WriteCreds \<in> set before)"
proof -
  have chosen: "traced spares (chosen_plan h opt)" by (rule traced_mono [OF chosen_traced reads_spare])
  have "secret_first (eff_bind (find_stack h) (\<lambda>st. or_record h ''apply'' st (ao_triggeredBy opt) (apply_loop h opt p st acts)))" for p acts
    unfolding or_record_def
    by (intro secret_first_bind secret_first_catch loop_secret_first traced_then traced_throw failure_traced find_traced) simp
  then have "secret_first (applyInner h opt)"
    unfolding applyInner_def Let_def
    by (intro secret_first_bind [OF chosen]) (simp add: secret_first_spares traced)
  from secret_firstD [OF this assms(1)] assms(2) show ?thesis by auto
qed

section \<open>Removals\<close>

fun drains :: "host_call \<Rightarrow> bool" where
  "drains (RunRemoval _ _) = True"
| "drains (DrainServer _ _) = True"
| "drains _ = False"

abbreviation no_drain :: "host_call \<Rightarrow> bool" where
  "no_drain k \<equiv> \<not> drains k"

lemma spares_no_drain: "spares k \<Longrightarrow> no_drain k"
  by (cases k) simp_all

lemma stateful_no_drain: "traced no_drain (applyStateful h c)"
  by (auto simp: applyStateful_def clear_conflict_def start_service_def prepareServiceContainer_def
      buildPostStartFailureMessage_def Let_def intro!: traced split: plan_action.split option.split)

lemma stateless_no_drain: "sa_action (hc_action c) \<noteq> ActRemove \<Longrightarrow> traced no_drain (applyStatelessWeb h c)"
  by (auto simp: applyStatelessWeb_def prepareServiceContainer_def Let_def intro!: traced split: plan_action.split prod.split)

lemma adopted_no_drain: "sa_action (hc_action c) \<noteq> ActRemove \<Longrightarrow> traced no_drain (applyAdoptedWeb h c)"
  by (auto simp: applyAdoptedWeb_def cleanupAdoptedWebRouting_def setup_adopted_def Let_def
      intro!: traced split: option.split prod.split json.split)

text \<open>No row is left of a service that is removed.\<close>

definition removals_unowned :: "stack_entity \<Rightarrow> service_action list \<Rightarrow> bool" where
  "removals_unowned st acts \<longleftrightarrow>
     (\<forall>a \<in> set acts. sa_action a = ActRemove \<longrightarrow> sa_serviceName a \<notin> row_name ` set (se_services st))"

lemma run_no_drain:
  assumes "sa_action a = ActRemove \<longrightarrow> sa_serviceName a \<notin> row_name ` set (se_services (pp_stack e))"
  shows "traced no_drain (run_action h notify e a)"
proof -
  have act: "sa_action (hc_action (handler_of e a)) = sa_action a" by (simp add: handler_of_def)
  have "traced no_drain (dispatch_apply h e a)"
  proof (cases "sa_action a = ActRemove")
    case True
    with assms have "service_row_of (pp_stack e) (sa_serviceName a) = None"
      by (force simp: service_row_of_def find_None_iff)
    then show ?thesis by (simp add: dispatch_apply_def service_type_of_def stateful_no_drain)
  next
    case False
    then show ?thesis unfolding dispatch_apply_def Let_def
      by (simp add: act stateful_no_drain stateless_no_drain adopted_no_drain)
  qed
  then show ?thesis by (auto simp: run_action_def Let_def intro!: traced)
qed

lemma traced_bind_returns:
  assumes "traced P m" and "returns R m" and "\<And>x. R x \<Longrightarrow> traced P (f x)"
  shows "traced P (eff_bind m f)"
proof (rule tracedI)
  fix s r t assume run: "eff_bind m f s = (r, t)"
  obtain q u where m: "m s = (q, u)" by (cases "m s")
  from tracedD [OF assms(1) m] obtain ks where ks: "ap_calls u = ap_calls s @ ks" "list_all P ks" by blast
  show "\<exists>ks. ap_calls t = ap_calls s @ ks \<and> list_all P ks"
  proof (cases q)
    case (Inl e)
    with run m ks show ?thesis by (auto simp: eff_bind_def)
  next
    case (Inr x)
    with run m have x: "f x u = (r, t)" by (simp add: eff_bind_def)
    have "R x" using returnsD [OF assms(2)] m Inr by blast
    from tracedD [OF assms(3) [OF this] x] ks show ?thesis by auto
  qed
qed

lemma loop_no_drain:
  assumes "removals_unowned st acts"
  shows "traced no_drain (apply_loop h opt p st acts)"
  unfolding apply_loop_def
proof (rule traced_bind_returns [OF traced_mono [OF prepare_apply_traced spares_no_drain] prepare_apply_returns])
  fix e :: apply_env assume e: "pp_stack e = st"
  have "traced no_drain (run_action h (ao_onProgress opt) e a)" if "a \<in> set (sort_actions st acts)" for a
    using assms that e by (intro run_no_drain) (auto simp: sort_actions_def removals_unowned_def)
  moreover have "traced no_drain (after_actions h e rs)" for rs
    by (auto simp: after_actions_def intro!: traced)
  ultimately show "traced no_drain (eff_bind (eff_each (run_action h (ao_onProgress opt) e) (sort_actions st acts)) (\<lambda>rs.
      eff_then (after_actions h e rs) (finish h ''apply'' (ao_triggeredBy opt) e rs)))"
    by (intro traced_bind traced_each traced_then traced_mono [OF finish_traced spares_no_drain])
qed

lemma plan_actions_unowned:
  assumes "a \<in> set (plan_actions sha le docker sid snapshot rows resolved hashes)" and "sa_action a = ActRemove"
  shows "sa_serviceName a \<notin> sd_serviceName ` set rows"
proof -
  have row: "sa_action (fst (plan_service sha le docker snapshot cmap hashes s)) \<noteq> ActRemove" for cmap s
    by (simp add: plan_service_def plan_adopted_def plan_container_def no_op_def Let_def split: option.split)
  have syn: "b \<in> set (plan_synthetic cmap hashes p) \<Longrightarrow> sa_action b \<noteq> ActRemove" for b cmap p
    by (auto simp: plan_synthetic_def no_op_def Let_def split: if_splits option.splits)
  from assms have "\<exists>p. a = plan_orphan p \<and> fst p \<notin> sd_serviceName ` set rows"
    using row syn unfolding plan_actions_def Let_def by auto
  then show ?thesis by (auto simp: orphan_name)
qed

lemma plan_unowned:
  assumes "plan_stack h s = (Inr p, t)"
  shows "removals_unowned (ss_stack s) (sp_actions p)"
proof -
  from assms obtain st u docker and rv :: resolved_services and resources network where st: "find_stack h s = (Inr st, u)"
    and p: "p = stack_plan.extend (compute_plan (k_sha h) (k_le h) docker (plan_row st) (rv_definitions rv) (rv_hashes rv)
       resources network) \<lparr>pl_stackVersion = se_version st\<rparr>"
    unfolding plan_stack_def eff_bind_Inr eff_return_Inr by (elim exE conjE) (rule that)
  have "st = ss_stack s"
    using st preservesD [OF find_rows st] by (auto simp: find_stack_def eff_then_Inr rows_of_def)
  moreover have "sp_actions p = plan_actions (k_sha h) (k_le h) docker (se_id st) (se_lastAppliedSnapshot st)
      (map row_definition (se_services st)) (rv_definitions rv) (rv_hashes rv)"
    by (simp add: p compute_plan_def stack_plan.defs plan_row_def Let_def)
  ultimately show ?thesis unfolding removals_unowned_def
    using plan_actions_unowned by (fastforce simp: image_image)
qed

lemma promote_action: "sa_action (promote pulled cmap defs a) = ActRemove \<longleftrightarrow> sa_action a = ActRemove"
  "sa_serviceName (promote pulled cmap defs a) = sa_serviceName a"
  by (auto simp: promote_def split: option.split)

lemma promote_run:
  assumes "promoteStalePullActions h p s = (Inr q, t)"
  shows "\<exists>pulled cmap defs. sp_actions q = map (promote pulled cmap defs) (sp_actions p) \<and> pl_stackVersion q = pl_stackVersion p"
  using assms unfolding promoteStalePullActions_def Let_def eff_bind_Inr eff_return_Inr
  by (elim exE conjE) (intro exI conjI, simp_all del: map_eq_conv)

lemma promote_unowned:
  assumes "promoteStalePullActions h p s = (Inr q, t)" and "removals_unowned st (sp_actions p)"
  shows "removals_unowned st (sp_actions q)"
proof -
  from promote_run [OF assms(1)] obtain pulled cmap defs where "sp_actions q = map (promote pulled cmap defs) (sp_actions p)"
    by blast
  with assms(2) show ?thesis by (auto simp: removals_unowned_def promote_action)
qed

lemma chosen_unowned:
  assumes "chosen_plan h opt s = (Inr p, t)"
    and "\<forall>p. ao_plan opt = Some p \<longrightarrow> removals_unowned (ss_stack s) (sp_actions p)"
  shows "removals_unowned (ss_stack s) (sp_actions p)"
proof -
  from assms obtain q u where q: "removals_unowned (ss_stack s) (sp_actions q)"
    and p: "(if ao_forcePull opt then promoteStalePullActions h q else eff_return q) u = (Inr p, t)"
    by (auto simp: chosen_plan_def eff_bind_Inr dest: plan_unowned split: option.splits)
  from p promote_unowned [OF _ q] q show ?thesis by (auto split: if_splits)
qed


section \<open>Adopted containers after an apply\<close>

lemma resolve_stack_runs:
  "resolve_stack h st opt s = (Inr q, t) \<Longrightarrow> \<exists>u v. resolveServiceConfigs (k_sha h) (k_le h) (k_num h) (k_registry h)
     (stack_context st) opt (map row_definition (se_services st)) u = (Inr q, v)"
  by (auto simp: resolve_stack_def with_expansion_def split: prod.splits)

lemma prepare_resolved:
  assumes "prepare_apply h opt p st acts s = (Inr e, t)"
  shows "\<exists>o' u v. resolveServiceConfigs (k_sha h) (k_le h) (k_num h) (k_registry h)
     (stack_context st) o' (map row_definition (se_services st)) u = (Inr (pp_services e), v)"
proof -
  from assms obtain rv u where "resolve_stack h st (no_options\<lparr>ro_connectedServices := ao_connectedServices opt\<rparr>) s = (Inr rv, u)"
    and "pp_services e = rv"
    by (auto simp: prepare_apply_def Let_def eff_bind_Inr eff_then_Inr split: prod.splits)
  with resolve_stack_runs show ?thesis by blast
qed

lemma find_first:
  assumes "distinct (map fst xs)" and "(k, d) \<in> set xs" and "g d = k"
    and "\<exists>as bs. xs = as @ bs \<and> (k, d) \<in> set as \<and> (\<forall>(n, x) \<in> set as. g x = n)"
  shows "find (\<lambda>x. g x = k) (map snd xs) = Some d"
proof -
  from assms(4) obtain as bs where xs: "xs = as @ bs" "(k, d) \<in> set as" "\<forall>(n, x) \<in> set as. g x = n" by blast
  have "find (\<lambda>x. g x = k) (map snd as) = Some d"
    using xs(2,3) assms(1) unfolding xs(1)
  proof (induction as)
    case (Cons y ys)
    then show ?case by (cases y) (force simp: image_iff)
  qed simp
  then show ?thesis by (simp add: xs(1) find_append_case)
qed

lemma snapshot_name [simp]: "sd_serviceName (snapshot_service d) = sd_serviceName d"
  by (simp add: snapshot_service_def)

lemma snapshot_find:
  "find (\<lambda>x. sd_serviceName x = n) (buildAppliedSnapshot defs) =
   map_option snapshot_service (find (\<lambda>x. sd_serviceName x = n) (map snd defs))"
  by (induction defs) (auto simp: buildAppliedSnapshot_def)

lemma adopted_hash:
  assumes "sd_serviceType d = ''AdoptedWeb''"
  shows "computeDefinitionHash sha le (snapshot_service d) None =
    computeDefinitionHash sha le (case a of Some j \<Rightarrow> d\<lparr>sd_addons := Some j\<rparr> | None \<Rightarrow> d) fs"
proof -
  have "or_null (drop_null j) = or_null j" for j by (cases j) (auto simp: or_null_def drop_null_def)
  with assms show ?thesis
    by (cases a) (simp_all add: computeDefinitionHash_def hash_canonical_def snapshot_service_def config_field_def)
qed

lemma snapshot_entry:
  assumes run: "resolveServiceConfigs sha le num g c opt rows s = (Inr q, t)" and dist: "distinct (map sd_serviceName rows)"
    and row: "row \<in> set rows" and literal: "\<forall>r \<in> set rows. \<not> includes_str (sd_serviceName r) ''{{''"
    and d: "om_get (rv_definitions q) (sd_serviceName row) = Some d"
  shows "find (\<lambda>x. sd_serviceName x = sd_serviceName row) (buildAppliedSnapshot (rv_definitions q)) = Some (snapshot_service d)"
proof -
  let ?n = "sd_serviceName row" and ?k = "length rows"
  from resolve_total_maps [OF run dist] obtain side where keys: "map fst (rv_definitions q) = map sd_serviceName rows @ side"
    and distinct: "distinct (map fst (rv_definitions q))" by metis
  have names: "\<forall>(n, x) \<in> set (take ?k (rv_definitions q)). n \<in> sd_serviceName ` set rows"
    using arg_cong [OF keys, of "take ?k"] by (force simp: take_map dest: arg_cong [where f = set])
  have "?n \<in> set (map fst (take ?k (rv_definitions q)))"
    using arg_cong [OF keys, of "take ?k"] row by (simp add: take_map)
  then obtain d' where "(?n, d') \<in> set (take ?k (rv_definitions q))" by auto
  moreover from this have "d' = d" using d distinct by (metis in_set_takeD map_of_is_SomeI option.inject)
  ultimately have first: "(?n, d) \<in> set (take ?k (rv_definitions q))" by simp
  have own: "sd_serviceName x = n" if "(n, x) \<in> set (take ?k (rv_definitions q))" for n x
  proof (rule resolved_entries [OF run dist in_set_takeD [OF that]])
    from names that have "n \<in> sd_serviceName ` set rows" by blast
    with literal show "\<not> includes_str n ''{{''" by auto
  qed
  have "find (\<lambda>x. sd_serviceName x = ?n) (map snd (rv_definitions q)) = Some d"
  proof (rule find_first [where g = sd_serviceName, OF distinct in_set_takeD [OF first] own [OF first]])
    show "\<exists>as bs. rv_definitions q = as @ bs \<and> (?n, d) \<in> set as \<and> (\<forall>(n, x) \<in> set as. sd_serviceName x = n)"
      using first own by (intro exI [of _ "take ?k (rv_definitions q)"] exI [of _ "drop ?k (rv_definitions q)"]) auto
  qed
  then show ?thesis by (simp add: snapshot_find)
qed

text \<open>A plan holds the action of each row as the planner makes it.\<close>

lemma plan_rows_actions:
  assumes "plan_stack h s = (Inr p, t)" and "row \<in> set (se_services (ss_stack s))"
  shows "\<exists>docker cmap rv u v. resolveServiceConfigs (k_sha h) (k_le h) (k_num h) (k_registry h)
      (stack_context (ss_stack s)) plan_options (map row_definition (se_services (ss_stack s))) u = (Inr rv, v) \<and>
    fst (plan_service (k_sha h) (k_le h) docker (se_lastAppliedSnapshot (ss_stack s)) cmap (rv_hashes rv) (row_definition row))
      \<in> set (sp_actions p)"
proof -
  from assms(1) obtain st u and rv :: resolved_services and w v docker and resources network where st: "find_stack h s = (Inr st, u)"
    and rv: "resolve_stack h st plan_options w = (Inr rv, v)"
    and p: "p = stack_plan.extend (compute_plan (k_sha h) (k_le h) docker (plan_row st) (rv_definitions rv) (rv_hashes rv)
       resources network) \<lparr>pl_stackVersion = se_version st\<rparr>"
    unfolding plan_stack_def eff_bind_Inr eff_return_Inr by (elim exE conjE) (rule that)
  have stack: "st = ss_stack s"
    using st preservesD [OF find_rows st] by (auto simp: find_stack_def eff_then_Inr rows_of_def)
  from resolve_stack_runs [OF rv] obtain x y where
    run: "resolveServiceConfigs (k_sha h) (k_le h) (k_num h) (k_registry h) (stack_context (ss_stack s)) plan_options
      (map row_definition (se_services (ss_stack s))) x = (Inr rv, y)" unfolding stack by blast
  have "sp_actions p = plan_actions (k_sha h) (k_le h) docker (se_id st) (se_lastAppliedSnapshot st)
      (map row_definition (se_services st)) (rv_definitions rv) (rv_hashes rv)"
    by (simp add: p compute_plan_def stack_plan.defs plan_row_def Let_def)
  then have "fst (plan_service (k_sha h) (k_le h) docker (se_lastAppliedSnapshot st)
      (buildContainerMap (stack_containers docker (se_id st))) (rv_hashes rv) (row_definition row)) \<in> set (sp_actions p)"
    using assms(2) by (simp add: plan_actions_def Let_def stack)
  with run show ?thesis unfolding stack by blast
qed

text \<open>The stack's row after an apply, and the resolution it was taken from.\<close>

lemma apply_stack:
  assumes "applyInner h opt s = (Inr r, t)" and "\<not> ao_dryRun opt"
  shows "\<exists>o' a b rv rs rows. resolveServiceConfigs (k_sha h) (k_le h) (k_num h) (k_registry h)
      (stack_context (ss_stack s)) o' (map row_definition (se_services (ss_stack s))) a = (Inr rv, b) \<and>
    ss_stack t = (record_applied (ss_stack s) rv rs (ss_stack s))\<lparr>se_services := rows\<rparr> \<and>
    map row_definition rows = map row_definition (se_services (ss_stack s))"
proof -
  let ?st = "ss_stack s"
  from apply_runs [OF assms] obtain q v where v: "rows_of v = rows_of s"
    and loop: "apply_loop h opt q ?st (select_actions (ao_serviceNames opt) (sp_actions q)) v = (Inr r, t)" by blast
  from loop_runs [OF loop] obtain e u rs w where
    prep: "prepare_apply h opt q ?st (select_actions (ao_serviceNames opt) (sp_actions q)) v = (Inr e, u)"
    and e: "pp_stack e = ?st" and w: "rows_of w = rows_of v"
    and fin: "finish h ''apply'' (ao_triggeredBy opt) e rs w = (Inr r, t)" by blast
  have stack: "ss_stack w = ?st" using w v by (simp add: rows_of_def)
  from finish_runs [OF fin] obtain rows where
    "ss_stack t = (record_applied ?st (pp_services e) rs ?st)\<lparr>se_services := rows\<rparr>"
    "map row_definition rows = map row_definition (se_services ?st)" unfolding e stack by blast
  with prepare_resolved [OF prep] show ?thesis by blast
qed

text \<open>C33: Whatever became of it, an adopted service counts as done after an apply. Take any apply that is not a dry
  run and returns, also one in which the service failed or was not among the services named.
  The next plan has a no-op for every adopted service that declares a container and no addons: its
  action is decided by the snapshot of the definitions, and that was taken of all services, so the routing that
  was never set up is not tried again until the definition changes.\<close>

theorem adopted_planned_done:
  assumes "applyInner h opt s = (Inr r, t)" and "\<not> ao_dryRun opt" and "plan_stack h t = (Inr p, v)"
    and "distinct (map row_name (se_services (ss_stack s)))"
    and "\<forall>x \<in> set (se_services (ss_stack s)). \<not> includes_str (row_name x) ''{{''"
    and "row \<in> set (se_services (ss_stack s))" and "sd_serviceType (row_definition row) = ''AdoptedWeb''"
    and "json_truthy (sd_adoptedContainer (row_definition row))"
    and "addon_block (toServiceDefinition (row_definition row)) = []"
  shows "no_op (row_name row) \<in> set (sp_actions p)"
proof -
  let ?st = "ss_stack s" and ?rows = "map row_definition (se_services (ss_stack s))" and ?n = "row_name row"
  let ?d = "toServiceDefinition (row_definition row)"
  from apply_stack [OF assms(1,2)] obtain o' a b rv' rs rows where
    applied: "resolveServiceConfigs (k_sha h) (k_le h) (k_num h) (k_registry h) (stack_context ?st) o' ?rows a = (Inr rv', b)"
    and t: "ss_stack t = (record_applied ?st rv' rs ?st)\<lparr>se_services := rows\<rparr>"
    and rows: "map row_definition rows = ?rows" by blast
  have dist: "distinct (map sd_serviceName ?rows)" using assms(4) by (simp add: comp_def)
  have lit: "\<forall>r \<in> set ?rows. \<not> includes_str (sd_serviceName r) ''{{''" using assms(5) by simp
  have mem: "row_definition row \<in> set ?rows" using assms(6) by simp
  from resolve_plain [OF applied dist mem assms(9)] obtain d fs where
    d: "resolveServiceDefinition (k_num h) (stack_context ?st) (?d\<lparr>sd_addons := None\<rparr>) = Inr d"
    "om_get (rv_definitions rv') ?n = Some d" by blast
  have type: "sd_serviceType d = ''AdoptedWeb''"
    using resolved_literal [OF d(1)] assms(7) by (simp add: toServiceDefinition_def)
  have ctx: "stack_context (ss_stack t) = stack_context ?st"
    by (simp add: t record_applied_def stack_context_def rows)
  from rows assms(6) obtain row' where row': "row' \<in> set (se_services (ss_stack t))" "row_definition row' = row_definition row"
    unfolding t by simp (metis image_eqI imageE image_set)
  from plan_rows_actions [OF assms(3) row'(1)] obtain docker cmap rv x y where
    planned: "resolveServiceConfigs (k_sha h) (k_le h) (k_num h) (k_registry h) (stack_context ?st) plan_options ?rows x = (Inr rv, y)"
    and act: "fst (plan_service (k_sha h) (k_le h) docker (se_lastAppliedSnapshot (ss_stack t)) cmap (rv_hashes rv) (row_definition row))
      \<in> set (sp_actions p)"
    unfolding ctx row'(2) by (auto simp: t rows)
  from resolve_plain [OF planned dist mem assms(9)] d(1) obtain fs' where
    hash: "om_get (rv_hashes rv) ?n = Some (computeDefinitionHash (k_sha h) (k_le h)
      (case sd_addons ?d of Some a \<Rightarrow> d\<lparr>sd_addons := Some a\<rparr> | None \<Rightarrow> d) (Some fs'))" by auto
  have snap: "Option.bind (se_lastAppliedSnapshot (ss_stack t)) (find (\<lambda>x. sd_serviceName x = ?n)) = Some (snapshot_service d)"
    using snapshot_entry [OF applied dist mem lit d(2)] by (simp add: t record_applied_def)
  have "fst (plan_service (k_sha h) (k_le h) docker (se_lastAppliedSnapshot (ss_stack t)) cmap (rv_hashes rv) (row_definition row)) = no_op ?n"
    using assms(7,8) snap hash adopted_hash [OF type, of "k_sha h" "k_le h"]
    by (simp add: plan_service_def plan_adopted_def Let_def)
  with act show ?thesis by simp
qed

section \<open>Updates\<close>

lemma grows: "traced P m \<Longrightarrow> m s = (r, t) \<Longrightarrow> set (ap_calls s) \<subseteq> set (ap_calls t)"
  using tracedD by fastforce

lemma each_member:
  assumes "eff_each f xs s = (Inr ys, t)" and "x \<in> set xs" and "\<And>x. traced anything (f x)"
  shows "\<exists>u y v. f x u = (Inr y, v) \<and> set (ap_calls v) \<subseteq> set (ap_calls t)"
  using assms(1,2)
proof (induction xs arbitrary: s ys)
  case (Cons z zs)
  from Cons.prems(1) obtain y u ys' where z: "f z s = (Inr y, u)" and rest: "eff_each f zs u = (Inr ys', t)"
    by (auto simp: eff_bind_Inr)
  have "set (ap_calls u) \<subseteq> set (ap_calls t)" by (rule grows [OF traced_each [OF assms(3)] rest])
  with z Cons.IH [OF rest] Cons.prems(2) show ?case by auto
qed simp

lemma start_of_recreate:
  assumes "applyStateful h c s = (Inr r, t)" and "sa_action (hc_action c) = ActRecreate"
  shows "\<exists>i cid. CreateContainer (hc_name c) i \<in> set (ap_calls t) \<and> StartContainer cid \<in> set (ap_calls t)"
proof -
  from assms(2) have act: "sa_action (hc_action c) \<noteq> ActCreate" "sa_action (hc_action c) \<noteq> ActRemove" by simp_all
  from assms obtain d u where "start_service h c ActRecreate d u = (Inr r, t)"
    by (auto simp: applyStateful_def Let_def eff_then_Inr split: option.splits)
  from start_run [OF this] show ?thesis by auto
qed

lemma update_action_traced: "traced anything (update_action h notify e a)"
  by (auto simp: update_action_def dispatch_update_def Let_def intro!: traced)

text \<open>The first two steps of an update.\<close>

definition update_plan :: "('w, 'y) stack_host_scheme \<Rightarrow> ('w, plan) stack_op" where
  "update_plan h = eff_bind (plan_stack h) (promoteStalePullActions h)"

lemma update_plan_rows: "preserves rows_of (update_plan h)"
  unfolding update_plan_def by (intro keeps)

lemma update_plan_traced: "traced reads (update_plan h)"
  unfolding update_plan_def by (intro traced plan_traced promote_traced)

lemma update_split:
  "updateInner h opt = eff_bind (update_plan h) (\<lambda>p.
     (let acts = select_actions None (if uo_forceRecreate opt then map force_recreate (sp_actions p) else sp_actions p)
      in if acts = [] then up_to_date h (uo_triggeredBy opt) (pl_stackVersion p)
         else eff_bind (find_stack h) (\<lambda>st.
           or_record h ''update'' st (uo_triggeredBy opt) (
           eff_bind (prepare_update h st acts) (\<lambda>e.
           eff_bind (eff_each (update_action h (uo_onProgress opt) e) acts) (finish h ''update'' (uo_triggeredBy opt) e))))))"
  unfolding updateInner_def update_plan_def Let_def
  by (rule ext) (simp add: eff_bind_def split: prod.split sum.split)

definition throws_unrecorded :: "('w, 'a) stack_op \<Rightarrow> 'w stack_state \<Rightarrow> bool" where
  "throws_unrecorded m s \<longleftrightarrow> (\<exists>e t. m s = (Inl e, t) \<and> rows_of t = rows_of s \<and>
     (\<exists>ks. ap_calls t = ap_calls s @ ks \<and> list_all reads ks))"

lemma promote_needs_lookup:
  assumes "row \<in> set (se_services (ss_stack s))" and "(i, cfg) \<in> set (addon_block (toServiceDefinition (row_definition row)))"
    and "om_get (rg_addons (k_registry h)) i = Some a" and "truthy (ad_requires a)" and "rows_of u = rows_of s"
  shows "\<exists>e v. promoteStalePullActions h p u = (Inl e, v)"
proof (cases "promoteStalePullActions h p u")
  case (Pair r v)
  have "r \<noteq> Inr q" for q
  proof
    assume "r = Inr q"
    with Pair have "promoteStalePullActions h p u = (Inr q, v)" by simp
    then obtain st w and rv :: resolved_services and w' where st: "find_stack h u = (Inr st, w)" and rv: "resolve_stack h st no_options w = (Inr rv, w')"
      unfolding promoteStalePullActions_def eff_bind_Inr by (elim exE conjE) (rule that)
    have "st = ss_stack s"
      using st preservesD [OF find_rows st] assms(5) by (auto simp: find_stack_def eff_then_Inr rows_of_def)
    with resolve_stack_runs [OF rv] obtain x y where
      "resolveServiceConfigs (k_sha h) (k_le h) (k_num h) (k_registry h) (stack_context (ss_stack s)) no_options
         (map row_definition (se_services (ss_stack s))) x = (Inr rv, y)" by blast
    moreover have "row_definition row \<in> set (map row_definition (se_services (ss_stack s)))" using assms(1) by simp
    from resolve_needs_lookup [OF this assms(2-4), where s = x]
    have "isl (fst (resolveServiceConfigs (k_sha h) (k_le h) (k_num h) (k_registry h) (stack_context (ss_stack s)) no_options
         (map row_definition (se_services (ss_stack s))) x))" .
    ultimately show False by simp
  qed
  with Pair show ?thesis by (cases r) auto
qed

text \<open>An update of a stack with an addon that needs a connected service never happens. If a row declares a
  registered addon that requires a connected service, the update throws before it has recorded anything: it
  resolves the services without the lookup that the apply passes, so it ends in the pull of the images,
  outside of the \<open>try\<close>; the history and the status of the stack say nothing of the attempt, and
  only reads and pulls were made. So it is with an apply that forces a pull.\<close>

theorem update_needs_lookup:
  assumes "row \<in> set (se_services (ss_stack s))" and "(i, cfg) \<in> set (addon_block (toServiceDefinition (row_definition row)))"
    and "om_get (rg_addons (k_registry h)) i = Some a" and "truthy (ad_requires a)"
  shows "throws_unrecorded (updateInner h uopt) s \<and> (ao_forcePull aopt \<longrightarrow> throws_unrecorded (applyInner h aopt) s)"
proof (intro conjI impI)
  have after: "\<exists>e v. eff_bind m (promoteStalePullActions h) s = (Inl e, v)" if "preserves rows_of m" for m
    using promote_needs_lookup [OF assms] preservesD [OF that, of s] by (cases "m s"; cases "fst (m s)") (auto simp: eff_bind_def)
  from after [OF plan_rows] obtain e t where update: "update_plan h s = (Inl e, t)"
    unfolding update_plan_def by blast
  with preservesD [OF update_plan_rows update] tracedD [OF update_plan_traced update]
  show "throws_unrecorded (updateInner h uopt) s" by (auto simp: throws_unrecorded_def update_split eff_bind_def)
  assume pull: "ao_forcePull aopt"
  have "preserves rows_of (case ao_plan aopt of Some p \<Rightarrow> eff_return p | None \<Rightarrow> plan_stack h)"
    by (simp add: keeps split: option.split)
  from after [OF this] pull obtain e' t' where app: "chosen_plan h aopt s = (Inl e', t')"
    by (auto simp: chosen_plan_def)
  with preservesD [OF chosen_rows app] tracedD [OF chosen_traced app]
  show "throws_unrecorded (applyInner h aopt) s" by (auto simp: throws_unrecorded_def applyInner_def eff_bind_def)
qed

section \<open>Forced recreation\<close>

lemma plan_pool:
  assumes "plan_stack h s = (Inr p, t)" and "row \<in> set (se_services (ss_stack s))"
    and "sd_serviceType (row_definition row) \<in> {''Pool'', ''JobPool''}"
  shows "no_op (row_name row) \<in> set (sp_actions p)"
  using plan_rows_actions [OF assms(1,2)] assms(3) by (auto simp: plan_service_def Let_def)

lemma forced_pool:
  assumes "update_plan h s = (Inr p, t)" and "row \<in> set (se_services (ss_stack s))"
    and "sd_serviceType (row_definition row) \<in> {''Pool'', ''JobPool''}"
  shows "\<exists>a \<in> set (map force_recreate (sp_actions p)). sa_serviceName a = row_name row \<and> sa_action a = ActRecreate"
proof -
  from assms(1) obtain q u where q: "plan_stack h s = (Inr q, u)" and p: "promoteStalePullActions h q u = (Inr p, t)"
    by (auto simp: update_plan_def eff_bind_Inr)
  from promote_run [OF p] obtain pulled cmap defs where p': "sp_actions p = map (promote pulled cmap defs) (sp_actions q)" by blast
  let ?a = "force_recreate (promote pulled cmap defs (no_op (row_name row)))"
  have "?a \<in> set (map force_recreate (sp_actions p))" using plan_pool [OF q assms(2,3)] by (auto simp: p')
  moreover have "sa_serviceName ?a = row_name row \<and> sa_action ?a = ActRecreate"
    by (auto simp: force_recreate_def promote_def no_op_def split: option.split)
  ultimately show ?thesis by blast
qed

lemma update_pool:
  assumes "update_action h notify e a s = (Inr r, t)" and "service_type_of (pp_stack e) (sa_serviceName a) = Some ty"
    and "ty \<in> {''Pool'', ''JobPool''}" and "sa_action a = ActRecreate"
  shows "\<exists>i cid. CreateContainer (sa_serviceName a) i \<in> set (ap_calls t) \<and> StartContainer cid \<in> set (ap_calls t)"
proof -
  from assms(2,3) have "dispatch_update h e a = applyStateful h (handler_of e a)" by (auto simp: dispatch_update_def Let_def)
  with assms(1) obtain q u v where run: "applyStateful h (handler_of e a) s = (Inr q, u)"
    and told: "(if notify then perform (NotifyProgress (sa_serviceName a)) (k_progress h (sa_serviceName a)) else eff_return ()) u = (Inr (), v)"
    and "t = v" unfolding update_action_def by (auto simp: eff_bind_Inr eff_then_Inr)
  from start_of_recreate [OF run] assms(4) obtain i cid where
    "CreateContainer (sa_serviceName a) i \<in> set (ap_calls u)" "StartContainer cid \<in> set (ap_calls u)"
    by (auto simp: handler_of_def)
  moreover have "traced anything (if notify then perform (NotifyProgress (sa_serviceName a)) (k_progress h (sa_serviceName a)) else eff_return ())"
    by (simp add: traced)
  from grows [OF this told] have "set (ap_calls u) \<subseteq> set (ap_calls t)" by (simp add: \<open>t = v\<close>)
  ultimately show ?thesis by blast
qed

text \<open>A forced update starts a container for every pool. A pool runs no container of its own, and the planner
  and the pull of the images leave it out; but forcing the recreation turns the no-op of its row into
  a recreate as for any other, so an update that returns has created and started a container
  of the pool itself, with neither an instance nor a run to it.\<close>

theorem forced_update_starts_pools:
  assumes "updateInner h opt s = (Inr r, t)" and "uo_forceRecreate opt"
    and "row \<in> set (se_services (ss_stack s))" and "distinct (map row_name (se_services (ss_stack s)))"
    and "sd_serviceType (row_definition row) \<in> {''Pool'', ''JobPool''}"
  shows "\<exists>i cid. CreateContainer (row_name row) i \<in> set (ap_calls t) \<and> StartContainer cid \<in> set (ap_calls t)"
proof -
  from assms(1) obtain p u where p: "update_plan h s = (Inr p, u)"
    and run: "(let acts = select_actions None (map force_recreate (sp_actions p))
      in if acts = [] then up_to_date h (uo_triggeredBy opt) (pl_stackVersion p)
         else eff_bind (find_stack h) (\<lambda>st.
           or_record h ''update'' st (uo_triggeredBy opt) (
           eff_bind (prepare_update h st acts) (\<lambda>e.
           eff_bind (eff_each (update_action h (uo_onProgress opt) e) acts) (finish h ''update'' (uo_triggeredBy opt) e))))) u = (Inr r, t)"
    using assms(2) unfolding update_split by (auto simp: eff_bind_Inr [of "update_plan h"])
  let ?acts = "select_actions None (map force_recreate (sp_actions p))"
  from forced_pool [OF p assms(3,5)] obtain a where a: "a \<in> set ?acts" "sa_serviceName a = row_name row" "sa_action a = ActRecreate"
    by (auto simp: select_actions_def Let_def)
  then have "?acts \<noteq> []" by auto
  with run obtain st v e w rs x where st: "find_stack h u = (Inr st, v)" and e: "prepare_update h st ?acts v = (Inr e, w)"
    and each: "eff_each (update_action h (uo_onProgress opt) e) ?acts w = (Inr rs, x)"
    and fin: "finish h ''update'' (uo_triggeredBy opt) e rs x = (Inr r, t)"
    by (auto simp: Let_def eff_bind_Inr or_record_Inr)
  have "st = ss_stack s" using st preservesD [OF find_rows st] preservesD [OF update_plan_rows p]
    by (auto simp: find_stack_def eff_then_Inr rows_of_def)
  then have stack: "pp_stack e = ss_stack s" using returnsD [OF prepare_update_returns e] by simp
  have "find (\<lambda>r. row_name r = row_name row) (rev (se_services (ss_stack s))) = Some row"
    using assms(3,4) by (intro find_key_distinct [where key = row_name]) (simp_all add: rev_map [symmetric])
  then have type: "service_type_of (pp_stack e) (sa_serviceName a) = Some (sd_serviceType (row_definition row))"
    by (simp add: service_type_of_def service_row_of_def stack a(2))
  from each_member [OF each a(1) update_action_traced] obtain u' y v' where
    one: "update_action h (uo_onProgress opt) e a u' = (Inr y, v')" and "set (ap_calls v') \<subseteq> set (ap_calls x)" by blast
  moreover have "set (ap_calls x) \<subseteq> set (ap_calls t)" by (rule grows [OF finish_traced fin])
  ultimately show ?thesis using update_pool [OF one type assms(5) a(3)] a(2) by auto
qed

section \<open>The order of a stop\<close>

lemma stop_container_run:
  "stop_container h c s = (r, t) \<Longrightarrow> ap_calls t = ap_calls s @ [StopAndRemove (ci_Id c)] \<and> rows_of t = rows_of s \<and> (\<exists>n. r = Inr n \<and> n \<le> 1)"
  by (auto simp: stop_container_def eff_catch_def eff_then_def eff_bind_def perform_def eff_return_def rows_of_def
      split: prod.splits sum.splits)

lemma stops_run:
  "eff_each (stop_container h) cs s = (Inr ns, t) \<Longrightarrow>
   ap_calls t = ap_calls s @ map (\<lambda>c. StopAndRemove (ci_Id c)) cs \<and> rows_of t = rows_of s \<and> sum_list ns \<le> length cs"
proof (induction cs arbitrary: s ns)
  case (Cons c cs)
  from Cons.prems obtain n u ms where "stop_container h c s = (Inr n, u)" "eff_each (stop_container h) cs u = (Inr ms, t)" "ns = n # ms"
    by (auto simp: eff_bind_Inr)
  with Cons.IH [of u ms] stop_container_run [of h c s "Inr n" u] show ?case by auto
qed simp

lemma stop_order_perm: "mset (stop_order cs) = mset cs"
  by (simp add: stop_order_def)

lemma stop_order_same: "\<forall>c \<in> set cs. version_label c = v \<Longrightarrow> stop_order cs = cs"
  unfolding stop_order_def by (induction cs) (auto simp: insort_is_Cons)

text \<open>A stop reaches every container of the stack, in the order of nothing but their versions. A stop that
  returns has asked for each container that is listed for the stack once, whether or not the ones before
  could be stopped, those of a later version first; then it has marked the stack \<open>undeployed\<close> and added
  one deployment. The containers of one apply carry one version, and these are stopped in the order Docker lists
  them: the order of the services plays no part.\<close>

theorem stop_reaches_all:
  assumes "stopStackInner h sid user s = (Inr n, t)"
  shows "\<exists>docker w cs. h_listContainers h (ap_world s) = (Inr docker, w) \<and>
    mset cs = mset (list_by_stack docker sid) \<and> sorted (map (\<lambda>c. - version_label c) cs) \<and>
    ((\<exists>v. \<forall>c \<in> set cs. version_label c = v) \<longrightarrow> cs = list_by_stack docker sid) \<and>
    ap_calls t = ap_calls s @ ListContainers # map (\<lambda>c. StopAndRemove (ci_Id c)) cs @ replicate 3 WriteDatabase \<and>
    n \<le> length cs \<and> ss_stack t = (ss_stack s)\<lparr>se_status := ''undeployed''\<rparr> \<and>
    (\<exists>d. ss_deployments t = ss_deployments s @ [d] \<and> dp_action d = ''stop'' \<and> dp_success d)"
proof -
  let ?d = "\<lparr>dp_action = ''stop'', dp_success = True, dp_version = None, dp_status = ''undeployed'', dp_serviceResults = [],
           dp_resourceResults = [], dp_error = None, dp_triggeredBy = user, dp_snapshot = None\<rparr>"
  from assms obtain docker u ns v v1 v2 where list: "perform ListContainers (h_listContainers h) s = (Inr docker, u)"
    and stops: "eff_each (stop_container h) (stop_order (list_by_stack docker sid)) u = (Inr ns, v)"
    and w1: "perform WriteDatabase (k_database h) v = (Inr (), v1)"
    and w2: "db_write h (ss_stack_update (\<lambda>st. st\<lparr>se_status := ''undeployed''\<rparr>)) v1 = (Inr (), v2)"
    and w3: "db_write h (ss_deployments_update (\<lambda>ds. ds @ [?d])) v2 = (Inr (), t)" and n: "n = sum_list ns"
    unfolding stopStackInner_def eff_bind_Inr eff_then_Inr by auto
  let ?cs = "stop_order (list_by_stack docker sid)"
  from list obtain w where docker: "h_listContainers h (ap_world s) = (Inr docker, w)"
    and u: "ap_calls u = ap_calls s @ [ListContainers]" "rows_of u = rows_of s" by (auto simp: perform_Inr rows_of_def)
  from w1 w2 w3 have "ap_calls t = ap_calls v @ replicate 3 WriteDatabase"
    "ss_stack t = (ss_stack v)\<lparr>se_status := ''undeployed''\<rparr>" "ss_deployments t = ss_deployments v @ [?d]"
    by (auto simp: db_write_def eff_then_Inr perform_Inr numeral_3_eq_3)
  moreover have "(\<exists>v. \<forall>c \<in> set ?cs. version_label c = v) \<longrightarrow> ?cs = list_by_stack docker sid"
    using stop_order_same by (metis stop_order_perm mset_eq_setD)
  ultimately show ?thesis using stops_run [OF stops] docker u n
    by (intro exI [of _ docker] exI [of _ w] exI [of _ ?cs]) (simp add: rows_of_def stop_order_perm, simp add: stop_order_def)
qed

section \<open>Witnesses\<close>

definition dry_options :: apply_options where
  "dry_options = example_options\<lparr>ao_dryRun := True, ao_forcePull := True\<rparr>"

lemma dry_run_only_reads_witness:
  "rows_of (snd (applyInner example_stack_host dry_options mixed_state)) = rows_of mixed_state \<and>
   (\<exists>ks. ap_calls (snd (applyInner example_stack_host dry_options mixed_state)) = ks \<and> list_all reads ks)"
proof -
  have "ao_dryRun dry_options" "ap_calls mixed_state = []" by (simp_all add: dry_options_def mixed_state_def example_state_def)
  with dry_run_only_reads [OF prod.collapse [symmetric], of dry_options example_stack_host mixed_state] show ?thesis by auto
qed

lemma secrets_before_containers_witness:
  "\<exists>before after. ap_calls (snd (applyInner example_stack_host example_options mixed_state)) = before @ after \<and>
     list_all spares before \<and> (after = [] \<or> WriteCreds \<in> set before)"
  using secrets_before_containers [OF prod.collapse [symmetric], of mixed_state example_stack_host example_options]
  by (simp add: mixed_state_def example_state_def)


definition other_options :: apply_options where
  "other_options = example_options\<lparr>ao_serviceNames := Some [''other''], ao_onProgress := False\<rparr>"

definition adopted_state :: "nat stack_state" where
  "adopted_state = example_state [adopted_service]"

lemma adopted_run:
  "case applyInner example_stack_host other_options adopted_state of (q, t) \<Rightarrow> (case q of Inl _ \<Rightarrow> False | Inr r \<Rightarrow>
     ar_serviceResults r = [] \<and> isl (fst (plan_stack example_stack_host t)) = False)"
  by code_simp

lemma adopted_stages:
  "isl (fst (applyInner example_stack_host other_options adopted_state)) = False"
  "ar_serviceResults (projr (fst (applyInner example_stack_host other_options adopted_state))) = []"
  "isl (fst (plan_stack example_stack_host (snd (applyInner example_stack_host other_options adopted_state)))) = False"
  using adopted_run by (simp_all add: case_prod_unfold split: sum.splits)

lemma adopted_planned_done_witness:
  "ar_serviceResults (projr (fst (applyInner example_stack_host other_options adopted_state))) = [] \<and>
   (\<exists>p v. plan_stack example_stack_host (snd (applyInner example_stack_host other_options adopted_state)) = (Inr p, v) \<and>
      no_op ''old'' \<in> set (sp_actions p))"
proof
  show "ar_serviceResults (projr (fst (applyInner example_stack_host other_options adopted_state))) = []" by (rule adopted_stages)
  let ?row = "example_row adopted_service 1"
  have rows: "se_services (ss_stack adopted_state) = [?row]"
    by (simp add: adopted_state_def example_state_def example_stack_def)
  have row: "row_name ?row = ''old''" "sd_serviceType (row_definition ?row) = ''AdoptedWeb''"
    "json_truthy (sd_adoptedContainer (row_definition ?row))" "addon_block (toServiceDefinition (row_definition ?row)) = []"
    "\<not> includes_str (row_name ?row) ''{{''" "\<not> ao_dryRun other_options"
    by (simp_all add: example_row_def adopted_service_def plain_service_def addon_block_def toServiceDefinition_def
        other_options_def example_options_def)
  from adopted_planned_done [OF Inr_result [OF adopted_stages(1)] row(6) Inr_result [OF adopted_stages(3)] _ _ _ row(2-4)] row rows
  show "\<exists>p v. plan_stack example_stack_host (snd (applyInner example_stack_host other_options adopted_state)) = (Inr p, v) \<and>
      no_op ''old'' \<in> set (sp_actions p)"
    by (auto intro!: exI Inr_result [OF adopted_stages(3)])
qed

definition needy_host :: "nat stack_host" where
  "needy_host = example_stack_host\<lparr>k_registry := \<lparr>rg_addons = [(''tailscale'',
     (the (om_get (rg_addons example_registry) ''ssh''))\<lparr>ad_requires := Some ''tailscale''\<rparr>)], rg_strategies = rg_strategies example_registry\<rparr>\<rparr>"

definition needy_state :: "nat stack_state" where
  "needy_state = example_state [(plain_service ''db'' ''Stateful'')\<lparr>sd_addons := Some (JObj [(''tailscale'', JObj [])])\<rparr>]"

lemma update_needs_lookup_witness:
  "throws_unrecorded (updateInner needy_host \<lparr>uo_triggeredBy = None, uo_forceRecreate = False, uo_onProgress = False\<rparr>) needy_state \<and>
   throws_unrecorded (applyInner needy_host dry_options) needy_state"
proof -
  let ?row = "example_row ((plain_service ''db'' ''Stateful'')\<lparr>sd_addons := Some (JObj [(''tailscale'', JObj [])])\<rparr>) 1"
  have "?row \<in> set (se_services (ss_stack needy_state))"
    by (simp add: needy_state_def example_state_def example_stack_def)
  moreover have "(''tailscale'', JObj []) \<in> set (addon_block (toServiceDefinition (row_definition ?row)))"
    by (simp add: example_row_def addon_block_def toServiceDefinition_def)
  moreover have "\<exists>a. om_get (rg_addons (k_registry needy_host)) ''tailscale'' = Some a \<and> truthy (ad_requires a)"
    by (simp add: needy_host_def)
  moreover have "ao_forcePull dry_options" by (simp add: dry_options_def)
  ultimately show ?thesis using update_needs_lookup by blast
qed

definition pool_state :: "nat stack_state" where
  "pool_state = example_state [plain_service ''jobs'' ''Pool'']"

definition forced_options :: update_options where
  "forced_options = \<lparr>uo_triggeredBy = None, uo_forceRecreate = True, uo_onProgress = False\<rparr>"

lemma pool_updates: "isl (fst (updateInner example_stack_host forced_options pool_state)) = False"
  by code_simp

lemma forced_update_starts_pools_witness:
  "\<exists>i cid. CreateContainer ''jobs'' i \<in> set (ap_calls (snd (updateInner example_stack_host forced_options pool_state))) \<and>
     StartContainer cid \<in> set (ap_calls (snd (updateInner example_stack_host forced_options pool_state)))"
proof -
  let ?row = "example_row (plain_service ''jobs'' ''Pool'') 1"
  have "uo_forceRecreate forced_options" "?row \<in> set (se_services (ss_stack pool_state))"
    "distinct (map row_name (se_services (ss_stack pool_state)))" "sd_serviceType (row_definition ?row) \<in> {''Pool'', ''JobPool''}"
    "row_name ?row = ''jobs''"
    by (simp_all add: forced_options_def pool_state_def example_state_def example_stack_def example_row_def plain_service_def)
  with forced_update_starts_pools [OF Inr_result [OF pool_updates], of ?row] show ?thesis by simp
qed

definition two_containers :: "nat stack_host" where
  "two_containers = example_stack_host\<lparr>h_listContainers := answer \<lparr>list_all_containers = [],
     list_by_stack = (\<lambda>_. [plan_example_container ''a'' ''web'' ''h'', plan_example_container ''b'' ''db'' ''h'']),
     list_by_name = (\<lambda>_. [])\<rparr>\<rparr>"

lemma stop_reaches_all_witness:
  "se_status (ss_stack (snd (stopStackInner two_containers ''s1'' None mixed_state))) = ''undeployed'' \<and>
   (\<exists>cs. mset cs = {# plan_example_container ''a'' ''web'' ''h'', plan_example_container ''b'' ''db'' ''h'' #} \<and>
      ap_calls (snd (stopStackInner two_containers ''s1'' None mixed_state)) =
        ListContainers # map (\<lambda>c. StopAndRemove (ci_Id c)) cs @ replicate 3 WriteDatabase)"
proof -
  let ?p = "stopStackInner two_containers ''s1'' None mixed_state"
  have "isl (fst ?p) = False" by code_simp
  from stop_reaches_all [OF Inr_result [OF this]] obtain docker w cs where
    stop: "h_listContainers two_containers (ap_world mixed_state) = (Inr docker, w)" "mset cs = mset (list_by_stack docker ''s1'')"
      "ap_calls (snd ?p) = ap_calls mixed_state @ ListContainers # map (\<lambda>c. StopAndRemove (ci_Id c)) cs @ replicate 3 WriteDatabase"
      "ss_stack (snd ?p) = (ss_stack mixed_state)\<lparr>se_status := ''undeployed''\<rparr>" by blast
  from stop(1) have "list_by_stack docker ''s1'' = [plan_example_container ''a'' ''web'' ''h'', plan_example_container ''b'' ''db'' ''h'']"
    by (auto simp: two_containers_def answer_def)
  moreover have "ap_calls mixed_state = []" by (simp add: mixed_state_def example_state_def)
  ultimately show ?thesis using stop(2-4) by (intro conjI exI [of _ cs]) simp_all
qed

end
