(* ===== verification/PoolRows.thy ===== *)
theory PoolRows
  imports JsonPrint
begin

text \<open>
  The data of pools and job pools: the rows of \<open>PoolInstance\<close>, the configuration blocks of
  \<open>lib/types/stacks.ts\<close>, and the pure parts of \<open>stacks/job-pool-spawner.ts\<close>,
  \<open>job-pool-retry-scheduler.ts\<close>, \<open>job-pool-exit-watcher.ts\<close> and \<open>pool-spawner.ts\<close>: the names of
  retries, their backoff, the labels that carry a run's origin through Docker and the environment of
  a run. Times are milliseconds.
\<close>

section \<open>Configuration and rows\<close>

datatype retry_backoff = Fixed_backoff | Exponential_backoff

record on_failure =
  of_retries :: int
  of_backoff :: retry_backoff

datatype job_trigger =
    Cron_trigger (jt_schedule: string) (jt_timezone: "string option") (jt_name: string) (jt_metadata: "(string \<times> string) list option")
  | Nats_trigger (jt_subject: string) (jt_ackWithRunId: bool) (jt_name: string) (jt_metadata: "(string \<times> string) list option")
  | Manual_trigger (jt_name: string) (jt_metadata: "(string \<times> string) list option")

record job_pool_config =
  jc_maxConcurrent :: "int option"
  jc_triggers :: "job_trigger list"
  jc_killAfterSeconds :: "int option"
  jc_onFailure :: "on_failure option"

record pool_config =
  pc_defaultIdleTimeoutMinutes :: int
  pc_maxInstances :: "int option"

record pool_service =
  pv_stackId :: string
  pv_serviceName :: string
  pv_serviceType :: string
  pv_labels :: "(string \<times> string) list"
  pv_poolConfig :: "pool_config option"
  pv_jobPoolConfig :: "job_pool_config option"

datatype pool_status = Ps_starting | Ps_running | Ps_stopping | Ps_stopped | Ps_error | Ps_completed | Ps_failed

record pool_row =
  po_id :: nat
  po_stackId :: string
  po_serviceName :: string
  po_instanceId :: string
  po_containerId :: "string option"
  po_status :: pool_status
  po_idleTimeoutMinutes :: int
  po_lastActive :: int
  po_createdAt :: int
  po_stoppedAt :: "int option"
  po_errorMessage :: "string option"
  po_exitCode :: "int option"
  po_finishedAt :: "int option"

text \<open>\<open>status: { in: ['starting', 'running'] }\<close>: what counts towards a cap.\<close>

definition pool_active :: "pool_row \<Rightarrow> bool" where
  "pool_active r \<longleftrightarrow> po_status r = Ps_starting \<or> po_status r = Ps_running"

definition of_pool :: "string \<Rightarrow> string \<Rightarrow> pool_row \<Rightarrow> bool" where
  "of_pool stack svc r \<longleftrightarrow> po_stackId r = stack \<and> po_serviceName r = svc"

definition activeCount :: "string \<Rightarrow> string \<Rightarrow> pool_row list \<Rightarrow> nat" where
  "activeCount stack svc rows = length (filter (\<lambda>r. of_pool stack svc r \<and> pool_active r) rows)"

text \<open>A row as the reservations create it; the rest are the defaults of the schema.\<close>

definition reserved_row :: "nat \<Rightarrow> int \<Rightarrow> string \<Rightarrow> string \<Rightarrow> string \<Rightarrow> int \<Rightarrow> pool_row" where
  "reserved_row i now stack svc inst idle =
     \<lparr>po_id = i, po_stackId = stack, po_serviceName = svc, po_instanceId = inst, po_containerId = None,
      po_status = Ps_starting, po_idleTimeoutMinutes = idle, po_lastActive = now, po_createdAt = now,
      po_stoppedAt = None, po_errorMessage = None, po_exitCode = None, po_finishedAt = None\<rparr>"

section \<open>Retries\<close>

definition BASE_BACKOFF_MS :: int where "BASE_BACKOFF_MS = 30000"

definition computeBackoffMs :: "int \<Rightarrow> retry_backoff \<Rightarrow> int" where
  "computeBackoffMs attempted policy = (case policy of
     Fixed_backoff \<Rightarrow> BASE_BACKOFF_MS
   | Exponential_backoff \<Rightarrow> min (60 * 60 * 1000) (BASE_BACKOFF_MS * 2 ^ nat (max 0 attempted)))"

text \<open>\<open>/(#retry\d+)+$/\<close>: the suffixes are taken off from the end, as long as there is one.\<close>

definition retry_suffix :: "string \<Rightarrow> string option" where
  "retry_suffix s =
     (let r = rev s; ds = takeWhile is_digit r; rest = dropWhile is_digit r
      in if ds \<noteq> [] \<and> take 6 rest = rev ''#retry'' then Some (rev (drop 6 rest)) else None)"

lemma retry_suffix_shorter: "retry_suffix s = Some t \<Longrightarrow> length t < length s"
proof -
  assume "retry_suffix s = Some t"
  then have "takeWhile is_digit (rev s) \<noteq> []" and t: "t = rev (drop 6 (dropWhile is_digit (rev s)))"
    by (auto simp: retry_suffix_def Let_def split: if_splits)
  moreover have "length (takeWhile is_digit (rev s)) + length (dropWhile is_digit (rev s)) = length s"
    by (metis length_append length_rev takeWhile_dropWhile_id)
  ultimately show ?thesis by (cases "takeWhile is_digit (rev s)") auto
qed

function stripRetrySuffix :: "string \<Rightarrow> string" where
  "stripRetrySuffix s = (case retry_suffix s of None \<Rightarrow> s | Some t \<Rightarrow> stripRetrySuffix t)"
  by auto

termination stripRetrySuffix
  by (relation "measure length") (auto dest: retry_suffix_shorter)

declare stripRetrySuffix.simps [simp del]

definition retry_name :: "string \<Rightarrow> nat \<Rightarrow> string" where
  "retry_name name k = stripRetrySuffix name @ ''#retry'' @ string_of_nat k"

lemma span_at:
  "\<forall>c\<in>set xs. P c \<Longrightarrow> \<not> P y \<Longrightarrow> takeWhile P (xs @ y # ys) = xs"
  "\<forall>c\<in>set xs. P c \<Longrightarrow> \<not> P y \<Longrightarrow> dropWhile P (xs @ y # ys) = y # ys"
  by (induction xs) auto

lemma retry_suffix_name: "retry_suffix (s @ ''#retry'' @ string_of_nat k) = Some s"
proof -
  let ?ds = "rev (string_of_nat k)"
  have all: "\<forall>c\<in>set ?ds. is_digit c" and ne: "?ds \<noteq> []"
    using string_of_nat_digits [of k] by (auto simp: list_all_iff)
  have y: "\<not> is_digit (CHR ''y'')" by (simp add: is_digit_def)
  have split: "rev (s @ ''#retry'' @ string_of_nat k) = ?ds @ CHR ''y'' # ''rter#'' @ rev s" by simp
  have "takeWhile is_digit (?ds @ CHR ''y'' # ''rter#'' @ rev s) = ?ds"
    and "dropWhile is_digit (?ds @ CHR ''y'' # ''rter#'' @ rev s) = CHR ''y'' # ''rter#'' @ rev s"
    using span_at [of ?ds is_digit, OF all y] by simp_all
  with ne show ?thesis unfolding retry_suffix_def split by (simp add: Let_def)
qed

text \<open>A chain of retries keeps the name of its trigger.\<close>

lemma strip_retry_name: "stripRetrySuffix (retry_name name k) = stripRetrySuffix name"
proof -
  have "stripRetrySuffix (retry_name name k) = stripRetrySuffix (stripRetrySuffix name)"
    by (simp add: stripRetrySuffix.simps [of "retry_name name k"]) (simp add: retry_name_def retry_suffix_name [simplified])
  also have "\<dots> = stripRetrySuffix name"
  proof (induction name rule: stripRetrySuffix.induct)
    case (1 s)
    then show ?case
    proof (cases "retry_suffix s")
      case None
      then have "stripRetrySuffix s = s" by (simp add: stripRetrySuffix.simps [of s])
      then show ?thesis by simp
    next
      case (Some t)
      then have "stripRetrySuffix s = stripRetrySuffix t" by (simp add: stripRetrySuffix.simps [of s])
      with 1 Some show ?thesis by simp
    qed
  qed
  finally show ?thesis .
qed

lemma backoff_bounds: "BASE_BACKOFF_MS \<le> computeBackoffMs k p \<and> computeBackoffMs k p \<le> 3600000"
proof -
  have "(1 :: int) \<le> 2 ^ nat (max 0 k)" by simp
  then show ?thesis by (cases p) (auto simp: computeBackoffMs_def BASE_BACKOFF_MS_def)
qed

lemma backoff_grows: "j \<le> k \<Longrightarrow> computeBackoffMs j p \<le> computeBackoffMs k p"
proof (cases p)
  case Exponential_backoff
  assume "j \<le> k"
  then have "(2 :: int) ^ nat (max 0 j) \<le> 2 ^ nat (max 0 k)" by (intro power_increasing) auto
  with Exponential_backoff show ?thesis by (simp add: computeBackoffMs_def BASE_BACKOFF_MS_def min_le_iff_disj)
qed (simp add: computeBackoffMs_def)

section \<open>The origin of a run\<close>

record run_trigger =
  tr_kind :: string
  tr_name :: string
  tr_metadata :: "(string \<times> string) list option"

record run_context =
  rn_stackId :: string
  rn_serviceName :: string
  rn_trigger :: run_trigger
  rn_payload :: "(string \<times> json) list option"
  rn_attemptedRetries :: nat

text \<open>The identifier of a run: the payload's, if it names one, else a fresh one.\<close>

definition pickRunId :: "(string \<times> json) list option \<Rightarrow> string \<Rightarrow> string" where
  "pickRunId payload uuid = (case om_get (nullish payload []) ''runId'' of
     Some (JStr i) \<Rightarrow> if i \<noteq> [] then i else uuid
   | _ \<Rightarrow> uuid)"

definition declared_metadata :: "job_pool_config \<Rightarrow> run_trigger \<Rightarrow> (string \<times> string) list" where
  "declared_metadata cfg tr =
     obj_merge (case find (\<lambda>t. jt_name t = tr_name tr) (jc_triggers cfg) of
         None \<Rightarrow> [] | Some t \<Rightarrow> nullish (jt_metadata t) [])
       (nullish (tr_metadata tr) [])"

text \<open>What travels as labels: \<open>trigger.name.replace(/[^A-Za-z0-9._#-]/g, '_')\<close> and its company.\<close>

definition label_char :: "char \<Rightarrow> bool" where
  "label_char c \<longleftrightarrow> (let n = of_char c :: nat in
     65 \<le> n \<and> n \<le> 90 \<or> 97 \<le> n \<and> n \<le> 122 \<or> is_digit c \<or> c \<in> set ''._#-'')"

definition label_text :: "string \<Rightarrow> string" where
  "label_text s = map (\<lambda>c. if label_char c then c else CHR ''_'') s"

definition string_map_json :: "(string \<times> string) list \<Rightarrow> json" where
  "string_map_json m = JObj (map (\<lambda>(k, v). (k, JStr v)) m)"

definition run_labels :: "run_trigger \<Rightarrow> nat \<Rightarrow> (string \<times> string) list \<Rightarrow> (string \<times> string) list" where
  "run_labels tr attempted metadata =
     [(''mini-infra.job-pool-trigger-kind'', tr_kind tr),
      (''mini-infra.job-pool-trigger-name'', label_text (tr_name tr)),
      (''mini-infra.job-pool-retry-attempt'', string_of_nat attempted)] @
     (if metadata \<noteq> [] then [(''mini-infra.job-pool-trigger-metadata'', take 4096 (print_json (string_map_json metadata)))] else [])"

text \<open>The labels of a container of a pool (\<open>pool-spawner.ts\<close>): later entries win.\<close>

record pool_stack =
  sk_id :: string
  sk_name :: string
  sk_environmentId :: "string option"
  sk_inError :: bool

definition pool_labels :: "pool_stack \<Rightarrow> string \<Rightarrow> string \<Rightarrow> (string \<times> string) list \<Rightarrow> (string \<times> string) list \<Rightarrow> (string \<times> string) list" where
  "pool_labels st svc inst declared extra =
     obj_merge (obj_merge
       ([(''mini-infra.stack'', sk_name st), (''mini-infra.stack-id'', sk_id st), (''mini-infra.service'', svc),
         (''mini-infra.pool-instance'', ''true''), (''mini-infra.pool-instance-id'', inst)] @
        (if truthy (sk_environmentId st) then [(''mini-infra.environment'', nullish (sk_environmentId st) [])] else []))
       declared) extra"

text \<open>And what the exit watcher reads off them.\<close>

definition retry_attempt_of :: "(string \<times> string) list \<Rightarrow> nat" where
  "retry_attempt_of ls = (case om_get ls ''mini-infra.job-pool-retry-attempt'' of
     None \<Rightarrow> 0
   | Some l \<Rightarrow> if l \<noteq> [] \<and> list_all is_digit l then nat (min (int (digits_value l)) 1000000) else 0)"

definition parseTriggerMetadata :: "(string \<Rightarrow> json option) \<Rightarrow> string option \<Rightarrow> (string \<times> string) list" where
  "parseTriggerMetadata parse raw =
     (if \<not> truthy raw then []
      else case parse (nullish raw []) of
             Some (JObj m) \<Rightarrow> List.map_filter (\<lambda>(k, v). case v of JStr x \<Rightarrow> Some (k, x) | _ \<Rightarrow> None) m
           | _ \<Rightarrow> [])"

definition trigger_of :: "(string \<Rightarrow> json option) \<Rightarrow> (string \<times> string) list \<Rightarrow> run_trigger" where
  "trigger_of parse ls =
     \<lparr>tr_kind = nullish (om_get ls ''mini-infra.job-pool-trigger-kind'') ''manual'',
      tr_name = nullish (om_get ls ''mini-infra.job-pool-trigger-name'') ''unknown'',
      tr_metadata = Some (parseTriggerMetadata parse (om_get ls ''mini-infra.job-pool-trigger-metadata''))\<rparr>"

section \<open>The environment of a run\<close>

definition run_env :: "(string \<times> string) list \<Rightarrow> run_context \<Rightarrow> string \<Rightarrow> (string \<times> string) list" where
  "run_env resolved c runId =
     (let env = (if nullish (rn_payload c) [] \<noteq> []
                 then om_set ''JOB_PAYLOAD'' (print_json (JObj (nullish (rn_payload c) []))) resolved else resolved)
      in om_set ''JOB_RUN_ID'' runId
          (om_set ''JOB_TRIGGER_NAME'' (tr_name (rn_trigger c))
            (om_set ''JOB_TRIGGER_KIND'' (tr_kind (rn_trigger c)) env)))"

definition sanitiseCallerEnv :: "(string \<times> string) list \<Rightarrow> (string \<times> string) list" where
  "sanitiseCallerEnv env = filter (\<lambda>(k, _). \<not> starts_with k ''VAULT_'' \<and> \<not> starts_with k ''NATS_'') env"

text \<open>The origin survives the way through Docker, up to the characters a label may have.\<close>

lemma run_labels_distinct: "distinct (map fst (run_labels tr k md))"
  by (simp add: run_labels_def)

lemma map_of_rev_distinct: "distinct (map fst m) \<Longrightarrow> map_of (rev m) = map_of m"
  by (subst map_of_inject_set) (auto simp: rev_map [symmetric])

lemma extra_label:
  assumes "distinct (map fst extra)" and "om_get extra l = Some v"
  shows "om_get (pool_labels st svc inst declared extra) l = Some v"
proof -
  from assms(1) have "map_of (rev extra) = map_of extra" by (rule map_of_rev_distinct)
  with assms(2) show ?thesis by (simp add: pool_labels_def obj_merge_get)
qed

lemma attempt_survives:
  assumes "k \<le> 1000000"
  shows "retry_attempt_of (pool_labels st svc inst declared (run_labels tr k md)) = k"
proof -
  have "om_get (pool_labels st svc inst declared (run_labels tr k md)) ''mini-infra.job-pool-retry-attempt'' = Some (string_of_nat k)"
    by (rule extra_label [OF run_labels_distinct]) (simp add: run_labels_def)
  with assms show ?thesis
    using string_of_nat_digits [of k] by (simp add: retry_attempt_of_def digits_value_string_of_nat)
qed

lemma trigger_survives:
  assumes parse: "\<And>j. parse (print_json j) = Some j"
    and small: "length (print_json (string_map_json md)) \<le> 4096"
  shows "trigger_of parse (pool_labels st svc inst declared (run_labels tr k md)) =
    \<lparr>tr_kind = tr_kind tr, tr_name = label_text (tr_name tr), tr_metadata = Some md\<rparr>
    \<or> md = [] \<and> om_get declared ''mini-infra.job-pool-trigger-metadata'' \<noteq> None"
proof -
  let ?ls = "pool_labels st svc inst declared (run_labels tr k md)"
  have kind: "om_get ?ls ''mini-infra.job-pool-trigger-kind'' = Some (tr_kind tr)"
    and name: "om_get ?ls ''mini-infra.job-pool-trigger-name'' = Some (label_text (tr_name tr))"
    by (rule extra_label [OF run_labels_distinct]; simp add: run_labels_def)+
  have fields: "List.map_filter (\<lambda>(k, v). case v of JStr x \<Rightarrow> Some (k, x) | _ \<Rightarrow> None) (map (\<lambda>(k, v). (k, JStr v)) m) = m" for m
    by (induction m) (auto simp: List.map_filter_simps)
  show ?thesis
  proof (cases "md = []")
    case False
    then have "om_get ?ls ''mini-infra.job-pool-trigger-metadata'' = Some (take 4096 (print_json (string_map_json md)))"
      by (intro extra_label [OF run_labels_distinct]) (simp add: run_labels_def)
    moreover have "print_json (string_map_json md) \<noteq> []"
      using False by (cases md) (auto simp: string_map_json_def)
    ultimately have "parseTriggerMetadata parse (om_get ?ls ''mini-infra.job-pool-trigger-metadata'') = md"
      using small parse [of "string_map_json md"] by (simp add: parseTriggerMetadata_def string_map_json_def fields)
    with kind name show ?thesis by (simp add: trigger_of_def)
  next
    case True
    then have none: "om_get (rev (run_labels tr k md)) ''mini-infra.job-pool-trigger-metadata'' = None" by (simp add: run_labels_def)
    show ?thesis
    proof (cases "om_get declared ''mini-infra.job-pool-trigger-metadata''")
      case (Some v)
      with True show ?thesis by simp
    next
      case N: None
      then have "om_get (rev declared) ''mini-infra.job-pool-trigger-metadata'' = None" by (simp add: map_of_eq_None_iff)
      with none have "om_get ?ls ''mini-infra.job-pool-trigger-metadata'' = None"
        by (simp add: pool_labels_def obj_merge_get)
      with kind name True show ?thesis by (simp add: trigger_of_def parseTriggerMetadata_def)
    qed
  qed
qed

text \<open>The contract of the environment: what the resolver says under the names of the program is lost.\<close>

lemma run_env_contract:
  "om_get (run_env resolved c i) ''JOB_RUN_ID'' = Some i"
  "om_get (run_env resolved c i) ''JOB_TRIGGER_KIND'' = Some (tr_kind (rn_trigger c))"
  "om_get (run_env resolved c i) ''JOB_TRIGGER_NAME'' = Some (tr_name (rn_trigger c))"
  by (simp_all add: run_env_def Let_def)

text \<open>A label the template gives a service wins over the program's own markers.\<close>

lemma declared_label_wins:
  assumes "distinct (map fst declared)" and "om_get declared l = Some v" and "om_get extra l = None"
  shows "om_get (pool_labels st svc inst declared extra) l = Some v"
proof -
  from assms(1) have "map_of (rev declared) = map_of declared" by (rule map_of_rev_distinct)
  moreover from assms(3) have "om_get (rev extra) l = None" by (simp add: map_of_eq_None_iff)
  ultimately show ?thesis using assms(2) by (simp add: pool_labels_def obj_merge_get)
qed

end
