(* ===== verification/JobPools.thy ===== *)
theory JobPools
  imports PoolRows
begin

text \<open>
  Pools and job pools while they run: \<open>stacks/job-pool-spawner.ts\<close>, \<open>job-pool-exit-watcher.ts\<close>,
  \<open>job-pool-retry-scheduler.ts\<close>, \<open>pool-instance-reaper.ts\<close> and the routes of
  \<open>routes/stacks/stacks-pool-routes.ts\<close>, which all write the same table. An operation runs from one
  \<open>await\<close> to the next: what is left of it is a task, the event loop picks the next task, and what the
  database, Docker, a resolver or \<open>spawnPoolInstance\<close> answers is part of the step. The
  services and stacks do not change while pools run, so reading them is one step with the read of the table
  that follows. A transaction is one step. Replies to HTTP callers and logging are left out.
\<close>

section \<open>State\<close>

record pool_tables =
  pt_services :: "pool_service list"
  pt_stacks :: "pool_stack list"
  pt_resolvers :: "string list"
  pt_parse :: "string \<Rightarrow> json option"

datatype run_result =
    Run_ok string nat string
  | Run_capped int
  | Run_refused string string
  | Run_failed string "nat option"
  | Run_threw

datatype run_event =
    Completed_event string string string run_trigger int int
  | Failed_event string string string run_trigger int string int int
  | Skipped_event string string run_trigger int int

record die_event =
  de_action :: string
  de_labels :: "(string \<times> string) list"
  de_containerId :: string
  de_exitCode :: "int option"

datatype reap_phase = Reap_idle | Reap_stuck | Reap_kill

datatype pool_call =
    P_spawn string string string "(string \<times> string) list" "(string \<times> string) list"
  | P_reap reap_phase pool_row int
  | P_delete pool_row

datatype pool_task =
    T_run run_context
  | T_reserve run_context job_pool_config
  | T_resolve run_context job_pool_config nat string
  | T_spawn run_context nat string
  | T_running run_context nat string string
  | T_trace run_context nat string string
  | T_error run_context nat string "string option option"
  | T_exit_row die_event
  | T_finalise die_event pool_row pool_service int
  | T_report die_event pool_row pool_service int
  | T_tick
  | T_reap reap_phase
  | T_reap_rows reap_phase int "pool_row list"
  | T_reaped reap_phase int pool_row "pool_row list"
  | T_killing int pool_row "pool_row list"
  | T_ensure string string string "(string \<times> string) list" int "int option"
  | T_pool_spawn nat string string string "(string \<times> string) list"
  | T_pool_running nat string
  | T_pool_error nat string "string option option"
  | T_delete string string string
  | T_deleted pool_row
  | T_beat string string string
  | T_beat_row nat

record pool_state =
  ps_now :: int
  ps_rows :: "pool_row list"
  ps_next :: nat
  ps_tasks :: "pool_task list"
  ps_timers :: "(int \<times> run_context) list"
  ps_history :: "run_event list"
  ps_results :: "(run_context \<times> run_result) list"
  ps_calls :: nat
  ps_heard :: "die_event list"
  ps_log :: "pool_call list"
  ps_crashed :: bool

text \<open>What the outside answers to a task.\<close>

datatype spawn_outcome =
    Spawned string
  | Spawn_failed "string option" "string option"
  | Spawn_threw string

record pool_answer =
  aw_db :: bool
  aw_docker :: bool
  aw_uuid :: string
  aw_resolved :: "string + string option \<times> (string \<times> string) list"
  aw_spawned :: spawn_outcome
  aw_message :: string

definition push :: "pool_task \<Rightarrow> pool_state \<Rightarrow> pool_state" where
  "push x s = s\<lparr>ps_tasks := ps_tasks s @ [x]\<rparr>"

definition called :: "pool_call \<Rightarrow> pool_state \<Rightarrow> pool_state" where
  "called c s = s\<lparr>ps_log := ps_log s @ [c]\<rparr>"

definition returned :: "run_context \<Rightarrow> run_result \<Rightarrow> pool_state \<Rightarrow> pool_state" where
  "returned c r s = s\<lparr>ps_results := ps_results s @ [(c, r)]\<rparr>"

definition update_row :: "nat \<Rightarrow> (pool_row \<Rightarrow> pool_row) \<Rightarrow> pool_state \<Rightarrow> pool_state" where
  "update_row i f s = s\<lparr>ps_rows := map (\<lambda>r. if po_id r = i then f r else r) (ps_rows s)\<rparr>"

definition create_row :: "pool_row \<Rightarrow> pool_state \<Rightarrow> pool_state" where
  "create_row r s = s\<lparr>ps_rows := ps_rows s @ [r], ps_next := Suc (ps_next s)\<rparr>"

text \<open>The partial unique index over the active rows.\<close>

definition active_instance :: "string \<Rightarrow> string \<Rightarrow> string \<Rightarrow> pool_row \<Rightarrow> bool" where
  "active_instance stack svc inst r \<longleftrightarrow> of_pool stack svc r \<and> po_instanceId r = inst \<and> pool_active r"

definition service_named :: "pool_tables \<Rightarrow> string \<Rightarrow> string \<Rightarrow> pool_service option" where
  "service_named tb stack svc = find (\<lambda>v. pv_stackId v = stack \<and> pv_serviceName v = svc) (pt_services tb)"

definition service_typed :: "pool_tables \<Rightarrow> string \<Rightarrow> string \<Rightarrow> string \<Rightarrow> pool_service option" where
  "service_typed tb stack svc ty =
     find (\<lambda>v. pv_stackId v = stack \<and> pv_serviceName v = svc \<and> pv_serviceType v = ty) (pt_services tb)"

definition stack_of :: "pool_tables \<Rightarrow> string \<Rightarrow> pool_stack option" where
  "stack_of tb stack = find (\<lambda>k. sk_id k = stack) (pt_stacks tb)"

section \<open>History\<close>

text \<open>An event goes out only if its schema (\<open>nats/payload-schemas.ts\<close>) lets it through.\<close>

definition sized :: "int \<Rightarrow> int \<Rightarrow> string \<Rightarrow> bool" where
  "sized lo hi s \<longleftrightarrow> lo \<le> int (length s) \<and> int (length s) \<le> hi"

definition valid_origin :: "string \<Rightarrow> string \<Rightarrow> run_trigger \<Rightarrow> bool" where
  "valid_origin stack svc tr \<longleftrightarrow> sized 1 64 stack \<and> sized 1 100 svc \<and>
     tr_kind tr \<in> {''cron'', ''nats-request'', ''manual''} \<and> sized 1 100 (tr_name tr)"

definition valid_event :: "run_event \<Rightarrow> bool" where
  "valid_event e = (case e of
     Completed_event stack svc run tr started finished \<Rightarrow>
       valid_origin stack svc tr \<and> sized 1 64 run \<and> 0 \<le> started \<and> 0 \<le> finished
   | Failed_event stack svc run tr code message started finished \<Rightarrow>
       valid_origin stack svc tr \<and> sized 1 64 run \<and> sized 0 1024 message \<and> 0 \<le> started \<and> 0 \<le> finished
   | Skipped_event stack svc tr at limit \<Rightarrow> valid_origin stack svc tr \<and> 0 \<le> at \<and> 1 \<le> limit)"

definition publish :: "run_event \<Rightarrow> pool_state \<Rightarrow> pool_state" where
  "publish e s = (if valid_event e then s\<lparr>ps_history := ps_history s @ [e]\<rparr> else s)"

section \<open>A run\<close>

definition at_cap :: "job_pool_config \<Rightarrow> run_context \<Rightarrow> pool_state \<Rightarrow> int option" where
  "at_cap cfg c s = (case jc_maxConcurrent cfg of
     None \<Rightarrow> None
   | Some m \<Rightarrow> if m \<le> int (activeCount (rn_stackId c) (rn_serviceName c) (ps_rows s)) then Some m else None)"

definition run_capped :: "run_context \<Rightarrow> int \<Rightarrow> pool_state \<Rightarrow> pool_state" where
  "run_capped c m s =
     returned c (Run_capped m) (publish (Skipped_event (rn_stackId c) (rn_serviceName c) (rn_trigger c) (ps_now s) m) s)"

definition runJobPool_check :: "pool_tables \<Rightarrow> pool_answer \<Rightarrow> run_context \<Rightarrow> pool_state \<Rightarrow> pool_state" where
  "runJobPool_check tb a c s =
     (if \<not> aw_db a then returned c Run_threw s
      else case service_typed tb (rn_stackId c) (rn_serviceName c) ''JobPool'' of
        None \<Rightarrow> returned c (Run_refused ''service_not_found''
          (''JobPool service \"'' @ rn_serviceName c @ ''\" not found on stack '' @ rn_stackId c)) s
      | Some v \<Rightarrow> (case pv_jobPoolConfig v of
          None \<Rightarrow> returned c (Run_refused ''service_not_found'' ''JobPool service missing jobPoolConfig'') s
        | Some cfg \<Rightarrow> (case stack_of tb (rn_stackId c) of
            None \<Rightarrow> returned c (Run_refused ''stack_not_found'' (''Stack '' @ rn_stackId c @ '' not found'')) s
          | Some st \<Rightarrow>
              if sk_inError st then returned c (Run_refused ''stack_in_error'' ''Cannot run JobPool -- stack is in error state'') s
              else (case at_cap cfg c s of
                Some m \<Rightarrow> run_capped c m s
              | None \<Rightarrow> push (T_reserve c cfg) s))))"

text \<open>The transaction: the cap is checked again where the row is created.\<close>

definition JOB_POOL_DEFAULT_IDLE_MINUTES :: int where "JOB_POOL_DEFAULT_IDLE_MINUTES = 24 * 60"

definition runJobPool_reserve :: "pool_answer \<Rightarrow> run_context \<Rightarrow> job_pool_config \<Rightarrow> pool_state \<Rightarrow> pool_state" where
  "runJobPool_reserve a c cfg s =
     (let runId = pickRunId (rn_payload c) (aw_uuid a); i = ps_next s
      in if \<not> aw_db a then returned c (Run_failed (aw_message a) None) s
         else case at_cap cfg c s of
           Some m \<Rightarrow> run_capped c m s
         | None \<Rightarrow>
             if list_ex (active_instance (rn_stackId c) (rn_serviceName c) runId) (ps_rows s)
             then returned c (Run_failed (aw_message a) None) s
             else push (T_resolve c cfg i runId)
               (create_row (reserved_row i (ps_now s) (rn_stackId c) (rn_serviceName c) runId JOB_POOL_DEFAULT_IDLE_MINUTES) s))"

text \<open>The resolver of the pool, if one is registered, then the spawn.\<close>

definition slotKey :: "string \<Rightarrow> string \<Rightarrow> string" where
  "slotKey stack svc = stack @ ''::'' @ svc"

definition getResolver :: "pool_tables \<Rightarrow> string \<Rightarrow> string \<Rightarrow> bool" where
  "getResolver tb stack svc \<longleftrightarrow>
     slotKey stack svc \<in> set (pt_resolvers tb) \<or> slotKey ''*'' svc \<in> set (pt_resolvers tb)"

definition declared_labels :: "pool_tables \<Rightarrow> string \<Rightarrow> string \<Rightarrow> (string \<times> string) list" where
  "declared_labels tb stack svc = (case service_named tb stack svc of None \<Rightarrow> [] | Some v \<Rightarrow> pv_labels v)"

definition stack_labels :: "pool_tables \<Rightarrow> string \<Rightarrow> string \<Rightarrow> string \<Rightarrow> (string \<times> string) list \<Rightarrow> (string \<times> string) list" where
  "stack_labels tb stack svc inst extra = (case stack_of tb stack of
     None \<Rightarrow> [] | Some st \<Rightarrow> pool_labels st svc inst (declared_labels tb stack svc) extra)"

definition spawn_run :: "pool_tables \<Rightarrow> run_context \<Rightarrow> job_pool_config \<Rightarrow> nat \<Rightarrow> string \<Rightarrow> (string \<times> string) list \<Rightarrow> pool_state \<Rightarrow> pool_state" where
  "spawn_run tb c cfg i runId env s =
     push (T_spawn c i runId)
       (called (P_spawn (rn_stackId c) (rn_serviceName c) runId
          (stack_labels tb (rn_stackId c) (rn_serviceName c) runId
            (run_labels (rn_trigger c) (rn_attemptedRetries c) (declared_metadata cfg (rn_trigger c))))
          (sanitiseCallerEnv (run_env env c runId))) s)"

definition runJobPool_resolve :: "pool_tables \<Rightarrow> pool_answer \<Rightarrow> run_context \<Rightarrow> job_pool_config \<Rightarrow> nat \<Rightarrow> string \<Rightarrow> pool_state \<Rightarrow> pool_state" where
  "runJobPool_resolve tb a c cfg i runId s =
     (if \<not> getResolver tb (rn_stackId c) (rn_serviceName c) then spawn_run tb c cfg i runId [] s
      else case aw_resolved a of
        Inl m \<Rightarrow> push (T_error c i m None) s
      | Inr (err, env) \<Rightarrow>
          if truthy err then push (T_error c i (nullish err []) None) s
          else spawn_run tb c cfg i runId env s)"

definition runJobPool_spawned :: "pool_answer \<Rightarrow> run_context \<Rightarrow> nat \<Rightarrow> string \<Rightarrow> pool_state \<Rightarrow> pool_state" where
  "runJobPool_spawned a c i runId s = (case aw_spawned a of
     Spawned cid \<Rightarrow> push (T_running c i runId cid) s
   | Spawn_failed err cid \<Rightarrow> push (T_error c i (nullish err ''Unknown spawn error'') (Some cid)) s
   | Spawn_threw m \<Rightarrow> push (T_error c i m None) s)"

text \<open>\<open>updateMany\<close> with the status in its filter: a row that was finalised meanwhile is left alone.\<close>

definition runJobPool_running :: "pool_answer \<Rightarrow> run_context \<Rightarrow> nat \<Rightarrow> string \<Rightarrow> string \<Rightarrow> pool_state \<Rightarrow> pool_state" where
  "runJobPool_running a c i runId cid s =
     (if \<not> aw_db a then push (T_error c i (aw_message a) None) s
      else if list_ex (\<lambda>r. po_id r = i \<and> po_status r = Ps_starting) (ps_rows s)
      then returned c (Run_ok runId i cid)
        (update_row i (\<lambda>r. if po_status r = Ps_starting
           then r\<lparr>po_status := Ps_running, po_containerId := Some cid, po_lastActive := ps_now s\<rparr> else r) s)
      else push (T_trace c i runId cid) s)"

definition runJobPool_trace :: "pool_answer \<Rightarrow> run_context \<Rightarrow> nat \<Rightarrow> string \<Rightarrow> string \<Rightarrow> pool_state \<Rightarrow> pool_state" where
  "runJobPool_trace a c i runId cid s =
     returned c (Run_ok runId i cid)
       (if aw_db a then update_row i (\<lambda>r. r\<lparr>po_containerId := Some cid\<rparr>) s else s)"

definition row_error :: "string \<Rightarrow> string option option \<Rightarrow> int \<Rightarrow> pool_row \<Rightarrow> pool_row" where
  "row_error m cid now r =
     (let e = r\<lparr>po_status := Ps_error, po_errorMessage := Some m, po_stoppedAt := Some now\<rparr>
      in case cid of None \<Rightarrow> e | Some k \<Rightarrow> e\<lparr>po_containerId := k\<rparr>)"

definition runJobPool_error :: "pool_answer \<Rightarrow> run_context \<Rightarrow> nat \<Rightarrow> string \<Rightarrow> string option option \<Rightarrow> pool_state \<Rightarrow> pool_state" where
  "runJobPool_error a c i m cid s =
     returned c (Run_failed m (Some i)) (if aw_db a then update_row i (row_error m cid (ps_now s)) s else s)"

section \<open>The exit of a container\<close>

definition label_is :: "(string \<times> string) list \<Rightarrow> string \<Rightarrow> string \<Rightarrow> bool" where
  "label_is ls l v \<longleftrightarrow> om_get ls l = Some v"

text \<open>What \<open>handleEvent\<close> does before it first waits.\<close>

definition handleEvent :: "die_event \<Rightarrow> pool_state \<Rightarrow> pool_state" where
  "handleEvent e s =
     (if de_action e \<noteq> ''die'' \<or> \<not> label_is (de_labels e) ''mini-infra.pool-instance'' ''true'' then s
      else if \<not> truthy (om_get (de_labels e) ''mini-infra.pool-instance-id'') \<or> \<not> truthy (om_get (de_labels e) ''mini-infra.stack-id'') then s
      else push (T_exit_row e) s)"

definition event_stack :: "die_event \<Rightarrow> string" where
  "event_stack e = nullish (om_get (de_labels e) ''mini-infra.stack-id'') []"

definition event_instance :: "die_event \<Rightarrow> string" where
  "event_instance e = nullish (om_get (de_labels e) ''mini-infra.pool-instance-id'') []"

definition handleEvent_lookup :: "pool_tables \<Rightarrow> pool_answer \<Rightarrow> die_event \<Rightarrow> pool_state \<Rightarrow> pool_state" where
  "handleEvent_lookup tb a e s =
     (if \<not> aw_db a then s
      else case find (\<lambda>r. po_stackId r = event_stack e \<and> po_instanceId r = event_instance e) (ps_rows s) of
        None \<Rightarrow> s
      | Some r \<Rightarrow> (case service_named tb (event_stack e) (po_serviceName r) of
          None \<Rightarrow> s
        | Some v \<Rightarrow>
            if pv_serviceType v \<noteq> ''JobPool'' then s
            else if po_status r = Ps_completed \<or> po_status r = Ps_failed then s
            else push (T_finalise e r v (ps_now s)) s))"

definition exit_code_of :: "die_event \<Rightarrow> int" where
  "exit_code_of e = nullish (de_exitCode e) (-1)"

definition exit_message :: "die_event \<Rightarrow> pool_row \<Rightarrow> string" where
  "exit_message e r =
     (if de_exitCode e = None then ''Container died without a reported exit code''
      else nullish (po_errorMessage r) (''Container exited with code '' @ string_of_int (exit_code_of e)))"

definition handleEvent_finalise :: "pool_answer \<Rightarrow> die_event \<Rightarrow> pool_row \<Rightarrow> pool_service \<Rightarrow> int \<Rightarrow> pool_state \<Rightarrow> pool_state" where
  "handleEvent_finalise a e r v at s =
     (if \<not> aw_db a then s
      else push (T_report e r v at)
        (update_row (po_id r) (\<lambda>x. x\<lparr>
           po_status := (if exit_code_of e = 0 then Ps_completed else Ps_failed),
           po_exitCode := Some (exit_code_of e), po_finishedAt := Some at, po_stoppedAt := Some at,
           po_errorMessage := (if exit_code_of e = 0 then None else Some (exit_message e r))\<rparr>) s))"

definition scheduleJobPoolRetry :: "string \<Rightarrow> string \<Rightarrow> nat \<Rightarrow> on_failure \<Rightarrow> run_trigger \<Rightarrow> pool_state \<Rightarrow> pool_state" where
  "scheduleJobPoolRetry stack svc attempted pol tr s =
     (if of_retries pol < int attempted then s
      else s\<lparr>ps_timers := ps_timers s @ [(ps_now s + computeBackoffMs (int attempted - 1) (of_backoff pol),
        \<lparr>rn_stackId = stack, rn_serviceName = svc,
         rn_trigger = tr\<lparr>tr_name := retry_name (tr_name tr) attempted\<rparr>,
         rn_payload = None, rn_attemptedRetries = attempted\<rparr>)]\<rparr>)"

definition handleEvent_report :: "pool_tables \<Rightarrow> pool_answer \<Rightarrow> die_event \<Rightarrow> pool_row \<Rightarrow> pool_service \<Rightarrow> int \<Rightarrow> pool_state \<Rightarrow> pool_state" where
  "handleEvent_report tb a e r v at s =
     (let stack = event_stack e; svc = po_serviceName r; run = event_instance e; tr = trigger_of (pt_parse tb) (de_labels e)
      in if exit_code_of e = 0 then publish (Completed_event stack svc run tr (po_lastActive r) at) s
         else (let s1 = publish (Failed_event stack svc run tr (exit_code_of e) (exit_message e r) (po_lastActive r) at) s
               in case pv_jobPoolConfig v of
                    Some cfg \<Rightarrow> (case jc_onFailure cfg of
                      Some pol \<Rightarrow>
                        if 0 < of_retries pol \<and> aw_docker a
                        then scheduleJobPoolRetry stack svc (retry_attempt_of (de_labels e) + 1) pol tr s1 else s1
                    | None \<Rightarrow> s1)
                  | None \<Rightarrow> s1))"

section \<open>The reaper\<close>

definition STARTING_TIMEOUT_MS :: int where "STARTING_TIMEOUT_MS = 5 * 60 * 1000"

text \<open>The reads of a phase are outside every handler: the tick rejects, nothing catches it, and the
  handler of \<open>server.ts\<close> for unhandled rejections ends the process.\<close>

definition reap_candidates :: "reap_phase \<Rightarrow> int \<Rightarrow> pool_row list \<Rightarrow> pool_row list" where
  "reap_candidates ph now rows = (case ph of
     Reap_stuck \<Rightarrow> filter (\<lambda>r. po_status r = Ps_starting \<and> po_createdAt r < now - STARTING_TIMEOUT_MS) rows
   | _ \<Rightarrow> filter (\<lambda>r. po_status r = Ps_running) rows)"

definition reap_read :: "pool_answer \<Rightarrow> reap_phase \<Rightarrow> pool_state \<Rightarrow> pool_state" where
  "reap_read a ph s =
     (if \<not> aw_db a then s\<lparr>ps_crashed := True\<rparr>
      else push (T_reap_rows ph (ps_now s) (reap_candidates ph (ps_now s) (ps_rows s))) s)"

definition is_job_pool :: "pool_tables \<Rightarrow> pool_row \<Rightarrow> bool" where
  "is_job_pool tb r \<longleftrightarrow> (case service_named tb (po_stackId r) (po_serviceName r) of
     None \<Rightarrow> False | Some v \<Rightarrow> pv_serviceType v = ''JobPool'')"

definition kill_after :: "pool_tables \<Rightarrow> pool_row \<Rightarrow> int option" where
  "kill_after tb r = (case service_named tb (po_stackId r) (po_serviceName r) of
     None \<Rightarrow> None
   | Some v \<Rightarrow> if pv_serviceType v \<noteq> ''JobPool'' then None
       else (case pv_jobPoolConfig v of None \<Rightarrow> None
         | Some cfg \<Rightarrow> if jc_killAfterSeconds cfg = Some 0 then None else jc_killAfterSeconds cfg))"

definition reap_due :: "pool_tables \<Rightarrow> reap_phase \<Rightarrow> int \<Rightarrow> pool_row \<Rightarrow> bool" where
  "reap_due tb ph now r \<longleftrightarrow> (case ph of
     Reap_idle \<Rightarrow> \<not> is_job_pool tb r \<and> po_idleTimeoutMinutes r * 60 * 1000 \<le> now - po_lastActive r
   | Reap_stuck \<Rightarrow> True
   | Reap_kill \<Rightarrow> (case kill_after tb r of None \<Rightarrow> False | Some k \<Rightarrow> k * 1000 \<le> now - po_lastActive r))"

text \<open>\<open>stopAndRemoveContainer\<close>: asks for the container of the row as it was read; whether that succeeded.\<close>

definition stops_container :: "reap_phase \<Rightarrow> pool_row \<Rightarrow> pool_state \<Rightarrow> pool_state" where
  "stops_container ph r s = (if truthy (po_containerId r) then called (P_reap ph r (ps_now s)) s else s)"

definition container_gone :: "pool_answer \<Rightarrow> pool_row \<Rightarrow> bool" where
  "container_gone a r \<longleftrightarrow> \<not> truthy (po_containerId r) \<or> aw_docker a"

text \<open>A row that is due: its container first and then the row, but for a kill the mark first.\<close>

definition KILL_AFTER_SECONDS_ERROR :: string where "KILL_AFTER_SECONDS_ERROR = ''killed: exceeded killAfterSeconds''"

definition next_phase :: "reap_phase \<Rightarrow> pool_state \<Rightarrow> pool_state" where
  "next_phase ph s = (case ph of
     Reap_idle \<Rightarrow> push (T_reap Reap_stuck) s | Reap_stuck \<Rightarrow> push (T_reap Reap_kill) s | Reap_kill \<Rightarrow> s)"

definition reap_row :: "pool_tables \<Rightarrow> pool_answer \<Rightarrow> reap_phase \<Rightarrow> int \<Rightarrow> pool_row list \<Rightarrow> pool_state \<Rightarrow> pool_state" where
  "reap_row tb a ph at rows s = (case rows of
     [] \<Rightarrow> next_phase ph s
   | r # rs \<Rightarrow>
       if \<not> reap_due tb ph at r then push (T_reap_rows ph at rs) s
       else if ph = Reap_kill then
         (if \<not> aw_db a then push (T_reap_rows ph at rs) s
          else push (T_killing at r rs) (update_row (po_id r) (\<lambda>x. x\<lparr>po_errorMessage := Some KILL_AFTER_SECONDS_ERROR\<rparr>) s))
       else if container_gone a r then push (T_reaped ph at r rs) (stops_container ph r s)
       else push (T_reap_rows ph at rs) (stops_container ph r s))"

definition reap_write :: "pool_answer \<Rightarrow> reap_phase \<Rightarrow> int \<Rightarrow> pool_row \<Rightarrow> pool_row list \<Rightarrow> pool_state \<Rightarrow> pool_state" where
  "reap_write a ph at r rs s =
     push (T_reap_rows ph at rs)
       (if \<not> aw_db a then s
        else case ph of
          Reap_stuck \<Rightarrow> update_row (po_id r) (row_error ''Spawn timed out after 5 minutes'' None (ps_now s)) s
        | _ \<Rightarrow> update_row (po_id r) (\<lambda>x. x\<lparr>po_status := Ps_stopped, po_stoppedAt := Some (ps_now s)\<rparr>) s)"

definition reap_killed :: "int \<Rightarrow> pool_row \<Rightarrow> pool_row list \<Rightarrow> pool_state \<Rightarrow> pool_state" where
  "reap_killed at r rs s = push (T_reap_rows Reap_kill at rs) (stops_container Reap_kill r s)"

definition reaper_tick :: "pool_answer \<Rightarrow> pool_state \<Rightarrow> pool_state" where
  "reaper_tick a s = (if aw_docker a then push (T_reap Reap_idle) s else s)"

section \<open>Pools\<close>

text \<open>\<open>POST instances\<close>: what the route checks, then the reservation, then the spawn in the background.\<close>

definition ensureInstance :: "pool_tables \<Rightarrow> string \<Rightarrow> string \<Rightarrow> string \<Rightarrow> (string \<times> string) list \<Rightarrow> int option \<Rightarrow> pool_state \<Rightarrow> pool_state" where
  "ensureInstance tb stack svc inst env idle s =
     (case service_typed tb stack svc ''Pool'' of
        None \<Rightarrow> s
      | Some v \<Rightarrow> (case pv_poolConfig v of
          None \<Rightarrow> s
        | Some cfg \<Rightarrow> (case stack_of tb stack of
            None \<Rightarrow> s
          | Some st \<Rightarrow>
              if sk_inError st then s
              else push (T_ensure stack svc inst env (nullish idle (pc_defaultIdleTimeoutMinutes cfg)) (pc_maxInstances cfg)) s)))"

definition ensure_reserve :: "pool_answer \<Rightarrow> string \<Rightarrow> string \<Rightarrow> string \<Rightarrow> (string \<times> string) list \<Rightarrow> int \<Rightarrow> int option \<Rightarrow> pool_state \<Rightarrow> pool_state" where
  "ensure_reserve a stack svc inst env idle limit s =
     (let i = ps_next s in
      if \<not> aw_db a then s
      else if list_ex (active_instance stack svc inst) (ps_rows s) then s
      else if (case limit of None \<Rightarrow> False | Some m \<Rightarrow> m \<le> int (activeCount stack svc (ps_rows s))) then s
      else push (T_pool_spawn i stack svc inst env) (create_row (reserved_row i (ps_now s) stack svc inst idle) s))"

definition spawnInBackground :: "pool_tables \<Rightarrow> pool_answer \<Rightarrow> nat \<Rightarrow> string \<Rightarrow> string \<Rightarrow> string \<Rightarrow> (string \<times> string) list \<Rightarrow> pool_state \<Rightarrow> pool_state" where
  "spawnInBackground tb a i stack svc inst env s =
     (if \<not> aw_docker a then push (T_pool_error i (aw_message a) None) s
      else (let t = called (P_spawn stack svc inst (stack_labels tb stack svc inst []) (sanitiseCallerEnv env)) s
            in case aw_spawned a of
                 Spawned cid \<Rightarrow> push (T_pool_running i cid) t
               | Spawn_failed err cid \<Rightarrow> push (T_pool_error i (nullish err ''Unknown spawn error'') (Some cid)) t
               | Spawn_threw m \<Rightarrow> push (T_pool_error i m None) t))"

text \<open>The row becomes running whatever it is; only the index may refuse.\<close>

definition spawnInBackground_running :: "pool_answer \<Rightarrow> nat \<Rightarrow> string \<Rightarrow> pool_state \<Rightarrow> pool_state" where
  "spawnInBackground_running a i cid s =
     (case find (\<lambda>r. po_id r = i) (ps_rows s) of
        None \<Rightarrow> push (T_pool_error i (aw_message a) None) s
      | Some r \<Rightarrow>
          if \<not> aw_db a \<or> list_ex (\<lambda>x. po_id x \<noteq> i \<and> active_instance (po_stackId r) (po_serviceName r) (po_instanceId r) x) (ps_rows s)
          then push (T_pool_error i (aw_message a) None) s
          else update_row i (\<lambda>x. x\<lparr>po_status := Ps_running, po_containerId := Some cid, po_lastActive := ps_now s\<rparr>) s)"

definition spawnInBackground_error :: "pool_answer \<Rightarrow> nat \<Rightarrow> string \<Rightarrow> string option option \<Rightarrow> pool_state \<Rightarrow> pool_state" where
  "spawnInBackground_error a i m cid s = (if aw_db a then update_row i (row_error m cid (ps_now s)) s else s)"

text \<open>\<open>DELETE\<close> and \<open>heartbeat\<close>.\<close>

definition deleteInstance :: "pool_tables \<Rightarrow> pool_answer \<Rightarrow> string \<Rightarrow> string \<Rightarrow> string \<Rightarrow> pool_state \<Rightarrow> pool_state" where
  "deleteInstance tb a stack svc inst s =
     (if \<not> aw_db a \<or> service_typed tb stack svc ''Pool'' = None then s
      else case find (\<lambda>r. of_pool stack svc r \<and> po_instanceId r = inst \<and> (pool_active r \<or> po_status r = Ps_stopping)) (ps_rows s) of
        None \<Rightarrow> s | Some r \<Rightarrow> push (T_deleted r) s)"

definition deleteInstance_write :: "pool_answer \<Rightarrow> pool_row \<Rightarrow> pool_state \<Rightarrow> pool_state" where
  "deleteInstance_write a r s =
     (if \<not> aw_db a then s
      else called (P_delete r) (update_row (po_id r) (\<lambda>x. x\<lparr>po_status := Ps_stopped, po_stoppedAt := Some (ps_now s)\<rparr>) s))"

definition heartbeat :: "pool_tables \<Rightarrow> pool_answer \<Rightarrow> string \<Rightarrow> string \<Rightarrow> string \<Rightarrow> pool_state \<Rightarrow> pool_state" where
  "heartbeat tb a stack svc inst s =
     (if \<not> aw_db a \<or> service_typed tb stack svc ''Pool'' = None then s
      else case find (active_instance stack svc inst) (ps_rows s) of
        None \<Rightarrow> s | Some r \<Rightarrow> push (T_beat_row (po_id r)) s)"

definition heartbeat_write :: "pool_answer \<Rightarrow> nat \<Rightarrow> pool_state \<Rightarrow> pool_state" where
  "heartbeat_write a i s = (if aw_db a then update_row i (\<lambda>x. x\<lparr>po_lastActive := ps_now s\<rparr>) s else s)"

text \<open>The stop of a stack (\<open>stack-reconciler.ts\<close>) writes the rows of all its pools.\<close>

definition stop_stack_rows :: "string \<Rightarrow> pool_state \<Rightarrow> pool_state" where
  "stop_stack_rows stack s = s\<lparr>ps_rows := map (\<lambda>r.
     if po_stackId r = stack \<and> (pool_active r \<or> po_status r = Ps_stopping)
     then r\<lparr>po_status := Ps_stopped, po_stoppedAt := Some (ps_now s)\<rparr> else r) (ps_rows s)\<rparr>"

section \<open>The event loop\<close>

definition run_task :: "pool_tables \<Rightarrow> pool_answer \<Rightarrow> pool_task \<Rightarrow> pool_state \<Rightarrow> pool_state" where
  "run_task tb a x = (case x of
     T_run c \<Rightarrow> runJobPool_check tb a c
   | T_reserve c cfg \<Rightarrow> runJobPool_reserve a c cfg
   | T_resolve c cfg i run \<Rightarrow> runJobPool_resolve tb a c cfg i run
   | T_spawn c i run \<Rightarrow> runJobPool_spawned a c i run
   | T_running c i run cid \<Rightarrow> runJobPool_running a c i run cid
   | T_trace c i run cid \<Rightarrow> runJobPool_trace a c i run cid
   | T_error c i m cid \<Rightarrow> runJobPool_error a c i m cid
   | T_exit_row e \<Rightarrow> handleEvent_lookup tb a e
   | T_finalise e r v at \<Rightarrow> handleEvent_finalise a e r v at
   | T_report e r v at \<Rightarrow> handleEvent_report tb a e r v at
   | T_tick \<Rightarrow> reaper_tick a
   | T_reap ph \<Rightarrow> reap_read a ph
   | T_reap_rows ph at rows \<Rightarrow> reap_row tb a ph at rows
   | T_reaped ph at r rs \<Rightarrow> reap_write a ph at r rs
   | T_killing at r rs \<Rightarrow> reap_killed at r rs
   | T_ensure stack svc inst env idle limit \<Rightarrow> ensure_reserve a stack svc inst env idle limit
   | T_pool_spawn i stack svc inst env \<Rightarrow> spawnInBackground tb a i stack svc inst env
   | T_pool_running i cid \<Rightarrow> spawnInBackground_running a i cid
   | T_pool_error i m cid \<Rightarrow> spawnInBackground_error a i m cid
   | T_delete stack svc inst \<Rightarrow> deleteInstance tb a stack svc inst
   | T_deleted r \<Rightarrow> deleteInstance_write a r
   | T_beat stack svc inst \<Rightarrow> heartbeat tb a stack svc inst
   | T_beat_row i \<Rightarrow> heartbeat_write a i)"

datatype pool_request =
    Trigger string string run_trigger "(string \<times> json) list option"
  | Container_event die_event
  | Reaper_interval
  | Ensure_instance string string string "(string \<times> string) list" "int option"
  | Delete_instance string string string
  | Heartbeat string string string
  | Stack_stopped string

definition start_run :: "run_context \<Rightarrow> pool_state \<Rightarrow> pool_state" where
  "start_run c s = push (T_run c) (s\<lparr>ps_calls := Suc (ps_calls s)\<rparr>)"

definition take_request :: "pool_tables \<Rightarrow> pool_request \<Rightarrow> pool_state \<Rightarrow> pool_state" where
  "take_request tb q s = (case q of
     Trigger stack svc tr payload \<Rightarrow> start_run
       \<lparr>rn_stackId = stack, rn_serviceName = svc, rn_trigger = tr, rn_payload = payload, rn_attemptedRetries = 0\<rparr> s
   | Container_event e \<Rightarrow> handleEvent e (s\<lparr>ps_heard := ps_heard s @ [e]\<rparr>)
   | Reaper_interval \<Rightarrow> push T_tick s
   | Ensure_instance stack svc inst env idle \<Rightarrow> ensureInstance tb stack svc inst env idle s
   | Delete_instance stack svc inst \<Rightarrow> push (T_delete stack svc inst) s
   | Heartbeat stack svc inst \<Rightarrow> push (T_beat stack svc inst) s
   | Stack_stopped stack \<Rightarrow> stop_stack_rows stack s)"

datatype pool_move = Does pool_task pool_answer | Asks pool_request | Waits int | Retries int run_context

inductive pool_step :: "pool_tables \<Rightarrow> pool_state \<Rightarrow> pool_move \<Rightarrow> pool_state \<Rightarrow> bool" for tb :: pool_tables where
  does: "\<not> ps_crashed s \<Longrightarrow> x \<in> set (ps_tasks s) \<Longrightarrow>
    pool_step tb s (Does x a) (run_task tb a x (s\<lparr>ps_tasks := remove1 x (ps_tasks s)\<rparr>))"
| asks: "\<not> ps_crashed s \<Longrightarrow> pool_step tb s (Asks q) (take_request tb q s)"
| waits: "\<not> ps_crashed s \<Longrightarrow> 0 \<le> k \<Longrightarrow> pool_step tb s (Waits k) (s\<lparr>ps_now := ps_now s + k\<rparr>)"
| retries: "\<not> ps_crashed s \<Longrightarrow> (due, c) \<in> set (ps_timers s) \<Longrightarrow> due \<le> ps_now s \<Longrightarrow>
    pool_step tb s (Retries due c) (start_run c (s\<lparr>ps_timers := remove1 (due, c) (ps_timers s)\<rparr>))"

definition pool_initial :: "int \<Rightarrow> pool_state" where
  "pool_initial now = \<lparr>ps_now = now, ps_rows = [], ps_next = 0, ps_tasks = [], ps_timers = [], ps_history = [],
     ps_results = [], ps_calls = 0, ps_heard = [], ps_log = [], ps_crashed = False\<rparr>"

inductive pool_reach :: "pool_tables \<Rightarrow> pool_state \<Rightarrow> bool" for tb :: pool_tables where
  reach_start: "pool_reach tb (pool_initial now)"
| reach_step: "pool_reach tb s \<Longrightarrow> pool_step tb s m t \<Longrightarrow> pool_reach tb t"

end
