(* ===== verification/PoolSafety.thy ===== *)
theory PoolSafety
  imports JobPools
begin

text \<open>
  What holds of pools and job pools in every state the event loop can reach: the cap of a job pool,
  the bound on its retries, that a run is recorded as what its container did, and whom the reaper
  takes down; and the runs in which the cap of a pool, and the record of a killed run, do not hold.
\<close>

section \<open>What an operation does to the rows\<close>

definition tables_ok :: "pool_tables \<Rightarrow> bool" where
  "tables_ok tb \<longleftrightarrow> distinct (map (\<lambda>v. (pv_stackId v, pv_serviceName v)) (pt_services tb))"

definition same_row :: "pool_row \<Rightarrow> pool_row \<Rightarrow> bool" where
  "same_row r r' \<longleftrightarrow> po_id r' = po_id r \<and> po_stackId r' = po_stackId r \<and> po_serviceName r' = po_serviceName r \<and>
     po_instanceId r' = po_instanceId r"

lemma same_row_refl [simp]: "same_row r r"
  by (simp add: same_row_def)

text \<open>Nothing becomes active.\<close>

definition calms :: "pool_state \<Rightarrow> pool_state \<Rightarrow> bool" where
  "calms s t \<longleftrightarrow> ps_next t = ps_next s \<and>
     list_all2 (\<lambda>r r'. same_row r r' \<and> (pool_active r' \<longrightarrow> pool_active r)) (ps_rows s) (ps_rows t)"

lemma calms_same: "ps_rows t = ps_rows s \<Longrightarrow> ps_next t = ps_next s \<Longrightarrow> calms s t"
  by (simp add: calms_def list_all2_refl)

lemma calms_refl [simp]: "calms s s"
  by (rule calms_same) simp_all

lemma calms_map:
  assumes "ps_rows t = map f (ps_rows s)" and "ps_next t = ps_next s"
    and "\<And>r. r \<in> set (ps_rows s) \<Longrightarrow> same_row r (f r) \<and> (pool_active (f r) \<longrightarrow> pool_active r)"
  shows "calms s t"
  using assms by (simp add: calms_def list_all2_map2 list.rel_refl_strong)

lemma calms_update:
  assumes "\<And>r. r \<in> set (ps_rows s) \<Longrightarrow> po_id r = i \<Longrightarrow> same_row r (f r) \<and> (pool_active (f r) \<longrightarrow> pool_active r)"
  shows "calms s (update_row i f s)"
  by (rule calms_map [where f = "\<lambda>r. if po_id r = i then f r else r"]) (use assms in \<open>auto simp: update_row_def\<close>)

lemma pool_rows_kept [simp]:
  "ps_rows (push x s) = ps_rows s" "ps_next (push x s) = ps_next s"
  "ps_rows (called c s) = ps_rows s" "ps_next (called c s) = ps_next s"
  "ps_rows (returned k r s) = ps_rows s" "ps_next (returned k r s) = ps_next s"
  "ps_rows (publish e s) = ps_rows s" "ps_next (publish e s) = ps_next s"
  "ps_rows (run_capped k m s) = ps_rows s" "ps_next (run_capped k m s) = ps_next s"
  "ps_rows (stops_container ph q s) = ps_rows s" "ps_next (stops_container ph q s) = ps_next s"
  "ps_rows (next_phase ph s) = ps_rows s" "ps_next (next_phase ph s) = ps_next s"
  "ps_rows (spawn_run tb k cfg i run env s) = ps_rows s" "ps_next (spawn_run tb k cfg i run env s) = ps_next s"
  "ps_rows (scheduleJobPoolRetry st sv n p tr s) = ps_rows s" "ps_next (scheduleJobPoolRetry st sv n p tr s) = ps_next s"
  by (auto simp: push_def called_def returned_def publish_def run_capped_def stops_container_def next_phase_def
      spawn_run_def scheduleJobPoolRetry_def split: reap_phase.split)

lemma calms_through [simp]:
  "calms s (push x t) \<longleftrightarrow> calms s t"
  "calms s (called c t) \<longleftrightarrow> calms s t"
  "calms s (returned k r t) \<longleftrightarrow> calms s t"
  "calms s (publish e t) \<longleftrightarrow> calms s t"
  "calms s (run_capped k m t) \<longleftrightarrow> calms s t"
  "calms s (stops_container ph q t) \<longleftrightarrow> calms s t"
  "calms s (next_phase ph t) \<longleftrightarrow> calms s t"
  "calms s (spawn_run tb k cfg i run env t) \<longleftrightarrow> calms s t"
  "calms s (scheduleJobPoolRetry st sv n p tr t) \<longleftrightarrow> calms s t"
  by (simp_all add: calms_def)

lemma calms_cong: "ps_rows s = ps_rows s' \<Longrightarrow> ps_next s = ps_next s' \<Longrightarrow> calms s t = calms s' t"
  by (simp add: calms_def)

lemma calms_row_error [simp]: "calms s (update_row i (row_error m cid now) s)"
  by (rule calms_update) (auto simp: row_error_def same_row_def pool_active_def Let_def split: option.split)

lemmas calm_defs = runJobPool_check_def runJobPool_resolve_def runJobPool_spawned_def runJobPool_error_def
  handleEvent_lookup_def handleEvent_report_def reaper_tick_def reap_read_def reap_killed_def spawnInBackground_def
  spawnInBackground_error_def deleteInstance_def heartbeat_def Let_def

lemma running_calm: "calms s (runJobPool_running a c i run cid s)"
  unfolding runJobPool_running_def
  by (auto intro!: calms_update simp: same_row_def pool_active_def split: if_splits)

lemma row_write_calm:
  "calms s (runJobPool_trace a c i run cid s)"
  "calms s (handleEvent_finalise a e r v at s)"
  "calms s (reap_write a ph at r rs s)"
  "calms s (reap_row tb a ph at rows s)"
  "calms s (deleteInstance_write a r s)"
  "calms s (heartbeat_write a i s)"
  by (auto simp: runJobPool_trace_def handleEvent_finalise_def reap_write_def reap_row_def deleteInstance_write_def
      heartbeat_write_def same_row_def pool_active_def intro!: calms_update split: list.split reap_phase.split)

text \<open>All tasks but the two reservations and the flip of a pool.\<close>

fun stirring :: "pool_task \<Rightarrow> bool" where
  "stirring (T_reserve _ _) = True"
| "stirring (T_ensure _ _ _ _ _ _) = True"
| "stirring (T_pool_running _ _) = True"
| "stirring _ = False"

lemma run_task_calm: "\<not> stirring x \<Longrightarrow> calms s (run_task tb a x s)"
  by (cases x) (auto simp: run_task_def calm_defs running_calm row_write_calm calms_same
      split: option.split spawn_outcome.split sum.split prod.split)

lemma stop_calm: "calms s (stop_stack_rows stack s)"
proof (rule calms_map)
  show "ps_rows (stop_stack_rows stack s) = map (\<lambda>r. if po_stackId r = stack \<and> (pool_active r \<or> po_status r = Ps_stopping)
     then r\<lparr>po_status := Ps_stopped, po_stoppedAt := Some (ps_now s)\<rparr> else r) (ps_rows s)"
    by (simp add: stop_stack_rows_def)
qed (auto simp: stop_stack_rows_def same_row_def pool_active_def)

lemma request_calm: "calms s (take_request tb q s)"
proof (cases q)
  case (Stack_stopped stack)
  then show ?thesis by (simp add: take_request_def stop_calm)
qed (auto simp: take_request_def start_run_def handleEvent_def ensureInstance_def calms_same split: option.split)

section \<open>The cap of a job pool\<close>

definition pool_key :: "pool_tables \<Rightarrow> string \<Rightarrow> string \<Rightarrow> string \<Rightarrow> bool" where
  "pool_key tb ty stack svc \<longleftrightarrow>
     (\<exists>v\<in>set (pt_services tb). pv_stackId v = stack \<and> pv_serviceName v = svc \<and> pv_serviceType v = ty)"

text \<open>What the tasks know: the identifier of a pool's spawn is that of a row of a pool.\<close>

definition pool_id :: "pool_tables \<Rightarrow> pool_state \<Rightarrow> nat \<Rightarrow> bool" where
  "pool_id tb s i \<longleftrightarrow> i < ps_next s \<and>
     (\<forall>r\<in>set (ps_rows s). po_id r = i \<longrightarrow> pool_key tb ''Pool'' (po_stackId r) (po_serviceName r))"

fun task_ok :: "pool_tables \<Rightarrow> pool_state \<Rightarrow> pool_task \<Rightarrow> bool" where
  "task_ok tb s (T_reserve c cfg) =
     (\<exists>v. service_typed tb (rn_stackId c) (rn_serviceName c) ''JobPool'' = Some v \<and> pv_jobPoolConfig v = Some cfg)"
| "task_ok tb s (T_ensure stack svc inst env idle limit) = pool_key tb ''Pool'' stack svc"
| "task_ok tb s (T_pool_spawn i stack svc inst env) = pool_id tb s i"
| "task_ok tb s (T_pool_running i cid) = pool_id tb s i"
| "task_ok tb s x = True"

definition capped :: "pool_tables \<Rightarrow> pool_state \<Rightarrow> bool" where
  "capped tb s \<longleftrightarrow> (\<forall>v\<in>set (pt_services tb). \<forall>cfg m.
     pv_serviceType v = ''JobPool'' \<longrightarrow> pv_jobPoolConfig v = Some cfg \<longrightarrow> jc_maxConcurrent cfg = Some m \<longrightarrow>
     int (activeCount (pv_stackId v) (pv_serviceName v) (ps_rows s)) \<le> max 0 m)"

definition rows_ok :: "pool_state \<Rightarrow> bool" where
  "rows_ok s \<longleftrightarrow> distinct (map po_id (ps_rows s)) \<and> (\<forall>r\<in>set (ps_rows s). po_id r < ps_next s)"

definition cap_inv :: "pool_tables \<Rightarrow> pool_state \<Rightarrow> bool" where
  "cap_inv tb s \<longleftrightarrow> rows_ok s \<and> (\<forall>x\<in>set (ps_tasks s). task_ok tb s x) \<and> capped tb s"

lemma key_type:
  assumes "tables_ok tb" and "pool_key tb ''Pool'' stack svc" and "v \<in> set (pt_services tb)"
    and "pv_stackId v = stack" and "pv_serviceName v = svc"
  shows "pv_serviceType v = ''Pool''"
proof -
  from assms(2) obtain w where w: "w \<in> set (pt_services tb)" "pv_stackId w = stack" "pv_serviceName w = svc"
    "pv_serviceType w = ''Pool''" by (auto simp: pool_key_def)
  with assms have "w = v" by (auto simp: tables_ok_def distinct_map inj_on_def)
  with w show ?thesis by simp
qed

lemma typed_found:
  assumes "service_typed tb stack svc ty = Some v"
  shows "v \<in> set (pt_services tb)" "pv_stackId v = stack" "pv_serviceName v = svc" "pv_serviceType v = ty"
  using assms by (auto simp: service_typed_def find_Some_iff)

lemma typed_unique:
  assumes ok: "tables_ok tb" and "service_typed tb stack svc ty = Some v"
    and w: "w \<in> set (pt_services tb)" "pv_stackId w = stack" "pv_serviceName w = svc"
  shows "w = v"
  using typed_found [OF assms(2)] w ok by (auto simp: tables_ok_def distinct_map inj_on_def)

lemma same_row_key: "same_row r r' \<Longrightarrow> of_pool stack svc r' = of_pool stack svc r"
  by (auto simp: same_row_def of_pool_def)

lemma active_count_le:
  assumes "list_all2 (\<lambda>r r'. same_row r r' \<and> (pool_active r' \<longrightarrow> pool_active r)) xs ys"
  shows "activeCount stack svc ys \<le> activeCount stack svc xs"
  using assms
proof (induction xs ys rule: list_all2_induct)
  case (Cons x xs y ys)
  then show ?case by (auto simp: activeCount_def same_row_key)
qed simp

lemma activeCount_append [simp]:
  "activeCount stack svc (xs @ ys) = activeCount stack svc xs + activeCount stack svc ys"
  by (simp add: activeCount_def)

lemma activeCount_one [simp]: "activeCount stack svc [r] = (if of_pool stack svc r \<and> pool_active r then 1 else 0)"
  by (simp add: activeCount_def)

lemma calms_capped: "calms s t \<Longrightarrow> capped tb s \<Longrightarrow> capped tb t"
proof (unfold capped_def, intro ballI allI impI)
  fix v cfg m
  assume "calms s t" and cap: "\<forall>v\<in>set (pt_services tb). \<forall>cfg m. pv_serviceType v = ''JobPool'' \<longrightarrow> pv_jobPoolConfig v = Some cfg \<longrightarrow>
      jc_maxConcurrent cfg = Some m \<longrightarrow> int (activeCount (pv_stackId v) (pv_serviceName v) (ps_rows s)) \<le> max 0 m"
    and v: "v \<in> set (pt_services tb)" "pv_serviceType v = ''JobPool''" "pv_jobPoolConfig v = Some cfg" "jc_maxConcurrent cfg = Some m"
  then have "activeCount (pv_stackId v) (pv_serviceName v) (ps_rows t) \<le> activeCount (pv_stackId v) (pv_serviceName v) (ps_rows s)"
    by (intro active_count_le) (simp add: calms_def)
  moreover from cap v have "int (activeCount (pv_stackId v) (pv_serviceName v) (ps_rows s)) \<le> max 0 m" by blast
  ultimately show "int (activeCount (pv_stackId v) (pv_serviceName v) (ps_rows t)) \<le> max 0 m" by linarith
qed

lemma calms_rows:
  assumes "calms s t"
  shows "r' \<in> set (ps_rows t) \<Longrightarrow> \<exists>r\<in>set (ps_rows s). same_row r r'"
    and "map po_id (ps_rows t) = map po_id (ps_rows s)" and "ps_next t = ps_next s"
proof -
  from assms have l: "list_all2 (\<lambda>r r'. same_row r r' \<and> (pool_active r' \<longrightarrow> pool_active r)) (ps_rows s) (ps_rows t)"
    and "ps_next t = ps_next s" by (auto simp: calms_def)
  then show "ps_next t = ps_next s" by simp
  from l show "r' \<in> set (ps_rows t) \<Longrightarrow> \<exists>r\<in>set (ps_rows s). same_row r r'"
    by (auto simp: list_all2_conv_all_nth in_set_conv_nth) (metis nth_mem)
  from l show "map po_id (ps_rows t) = map po_id (ps_rows s)"
    by (induction rule: list_all2_induct) (auto simp: same_row_def)
qed

lemma calms_rows_ok: "calms s t \<Longrightarrow> rows_ok s \<Longrightarrow> rows_ok t"
  using calms_rows [of s t] unfolding rows_ok_def same_row_def by metis

lemma calms_pool_id: "calms s t \<Longrightarrow> pool_id tb s i \<Longrightarrow> pool_id tb t i"
  using calms_rows [of s t] unfolding pool_id_def same_row_def by metis

lemma calms_task_ok: "calms s t \<Longrightarrow> task_ok tb s x \<Longrightarrow> task_ok tb t x"
  by (cases x) (auto intro: calms_pool_id)

text \<open>A row that is created changes nothing for the tasks there are.\<close>

lemma create_task_ok: "task_ok tb s x \<Longrightarrow> po_id r = ps_next s \<Longrightarrow> task_ok tb (create_row r s) x"
  by (cases x) (auto simp: create_row_def pool_id_def)

lemma create_rows_ok: "rows_ok s \<Longrightarrow> po_id r = ps_next s \<Longrightarrow> rows_ok (create_row r s)"
  by (auto simp: create_row_def rows_ok_def less_Suc_eq)

lemma task_ok_same: "ps_rows t = ps_rows s \<Longrightarrow> ps_next t = ps_next s \<Longrightarrow> task_ok tb t x = task_ok tb s x"
  by (cases x) (auto simp: pool_id_def)

text \<open>What a step leaves in the list of tasks.\<close>

lemma tasks_push [simp]: "ps_tasks (push x s) = ps_tasks s @ [x]"
  by (simp add: push_def)

lemma tasks_kept [simp]:
  "ps_tasks (called c s) = ps_tasks s" "ps_tasks (returned k r s) = ps_tasks s" "ps_tasks (publish e s) = ps_tasks s"
  "ps_tasks (run_capped k m s) = ps_tasks s" "ps_tasks (stops_container ph q s) = ps_tasks s"
  "ps_tasks (update_row i f s) = ps_tasks s" "ps_tasks (create_row q s) = ps_tasks s"
  "ps_tasks (scheduleJobPoolRetry st sv n p tr s) = ps_tasks s" "ps_tasks (stop_stack_rows stack s) = ps_tasks s"
  by (auto simp: called_def returned_def publish_def run_capped_def stops_container_def update_row_def create_row_def
      scheduleJobPoolRetry_def stop_stack_rows_def)

lemmas task_defs = calm_defs runJobPool_running_def runJobPool_trace_def handleEvent_finalise_def reap_write_def
  reap_row_def deleteInstance_write_def heartbeat_write_def next_phase_def spawn_run_def

text \<open>A task that stirs nothing adds only tasks that are in order.\<close>

lemma calm_tasks:
  assumes "\<not> stirring x" and "task_ok tb s x" and "y \<in> set (ps_tasks (run_task tb a x s))"
  shows "y \<in> set (ps_tasks s) \<or> task_ok tb s y"
proof (cases x)
  case (T_run c)
  with assms(3) show ?thesis
    by (auto simp: run_task_def runJobPool_check_def split: if_splits option.splits)
qed (use assms in \<open>auto simp: run_task_def task_defs split: if_splits option.splits spawn_outcome.splits sum.splits prod.splits list.splits reap_phase.splits\<close>)

lemma service_typed_key: "service_typed tb stack svc ty = Some v \<Longrightarrow> pool_key tb ty stack svc"
  using typed_found [of tb stack svc ty v] by (auto simp: pool_key_def)

lemma request_tasks:
  assumes "y \<in> set (ps_tasks (take_request tb q s))"
  shows "y \<in> set (ps_tasks s) \<or> task_ok tb s y"
  using assms by (auto simp: take_request_def start_run_def handleEvent_def ensureInstance_def service_typed_key
      split: pool_request.splits if_splits option.splits)

lemma calm_inv:
  assumes "calms s t" and "\<And>y. y \<in> set (ps_tasks t) \<Longrightarrow> y \<in> set (ps_tasks s) \<or> task_ok tb s y" and "cap_inv tb s"
  shows "cap_inv tb t"
  using assms calms_rows_ok [OF assms(1)] calms_capped [OF assms(1)] calms_task_ok [OF assms(1)]
  unfolding cap_inv_def by blast

lemma reserve_inv:
  assumes ok: "tables_ok tb" and inv: "cap_inv tb s" and x: "task_ok tb s (T_reserve c cfg)"
  shows "cap_inv tb (runJobPool_reserve a c cfg s)"
proof -
  let ?new = "reserved_row (ps_next s) (ps_now s) (rn_stackId c) (rn_serviceName c) (pickRunId (rn_payload c) (aw_uuid a)) JOB_POOL_DEFAULT_IDLE_MINUTES"
  let ?t = "push (T_resolve c cfg (ps_next s) (pickRunId (rn_payload c) (aw_uuid a))) (create_row ?new s)"
  have id: "po_id ?new = ps_next s" by (simp add: reserved_row_def)
  show ?thesis
  proof (cases "runJobPool_reserve a c cfg s = ?t")
    case False
    then have "calms s (runJobPool_reserve a c cfg s)" "ps_tasks (runJobPool_reserve a c cfg s) = ps_tasks s"
      by (auto simp: runJobPool_reserve_def Let_def split: option.splits if_splits)
    with inv show ?thesis by (auto intro: calm_inv)
  next
    case True
    have cap: "capped tb ?t" if free: "at_cap cfg c s = None"
      unfolding capped_def
    proof (intro ballI allI impI)
      fix v cfg' m
      assume v: "v \<in> set (pt_services tb)" "pv_serviceType v = ''JobPool''" "pv_jobPoolConfig v = Some cfg'" "jc_maxConcurrent cfg' = Some m"
      with inv have old: "int (activeCount (pv_stackId v) (pv_serviceName v) (ps_rows s)) \<le> max 0 m"
        by (auto simp: cap_inv_def capped_def)
      show "int (activeCount (pv_stackId v) (pv_serviceName v) (ps_rows ?t)) \<le> max 0 m"
      proof (cases "pv_stackId v = rn_stackId c \<and> pv_serviceName v = rn_serviceName c")
        case same: True
        from x obtain w where "service_typed tb (rn_stackId c) (rn_serviceName c) ''JobPool'' = Some w" "pv_jobPoolConfig w = Some cfg" by auto
        with typed_unique [OF ok] v same have "cfg' = cfg" by fastforce
        with free v same show ?thesis
          by (auto simp: at_cap_def create_row_def reserved_row_def of_pool_def split: if_splits)
      next
        case False
        with old show ?thesis by (auto simp: create_row_def reserved_row_def of_pool_def)
      qed
    qed
    have "at_cap cfg c s = None"
    proof (rule ccontr)
      assume "at_cap cfg c s \<noteq> None"
      then have "ps_tasks (runJobPool_reserve a c cfg s) = ps_tasks s" by (auto simp: runJobPool_reserve_def Let_def)
      with True show False by simp
    qed
    with cap have "capped tb ?t" .
    moreover have "rows_ok ?t" using create_rows_ok [OF _ id] inv by (simp add: cap_inv_def rows_ok_def)
    moreover have "task_ok tb ?t y" if "y \<in> set (ps_tasks ?t)" for y
    proof -
      have "task_ok tb (create_row ?new s) y"
        using that inv create_task_ok [OF _ id, of tb y] by (auto simp: cap_inv_def)
      then show ?thesis using task_ok_same [of ?t "create_row ?new s"] by simp
    qed
    ultimately show ?thesis using True by (simp add: cap_inv_def)
  qed
qed

lemma ensure_inv:
  assumes ok: "tables_ok tb" and inv: "cap_inv tb s" and x: "task_ok tb s (T_ensure stack svc inst env idle limit)"
  shows "cap_inv tb (ensure_reserve a stack svc inst env idle limit s)"
proof -
  let ?new = "reserved_row (ps_next s) (ps_now s) stack svc inst idle"
  let ?t = "push (T_pool_spawn (ps_next s) stack svc inst env) (create_row ?new s)"
  have id: "po_id ?new = ps_next s" by (simp add: reserved_row_def)
  from x have key: "pool_key tb ''Pool'' stack svc" by simp
  have "ensure_reserve a stack svc inst env idle limit s = s \<or> ensure_reserve a stack svc inst env idle limit s = ?t"
    by (simp add: ensure_reserve_def Let_def)
  moreover have "cap_inv tb ?t"
  proof -
    have rows: "rows_ok ?t" using create_rows_ok [OF _ id] inv by (simp add: cap_inv_def rows_ok_def)
    have new: "pool_id tb ?t (ps_next s)"
      using inv key by (auto simp: pool_id_def create_row_def reserved_row_def cap_inv_def rows_ok_def)
    have "capped tb ?t"
      unfolding capped_def
    proof (intro ballI allI impI)
      fix v cfg m
      assume v: "v \<in> set (pt_services tb)" "pv_serviceType v = ''JobPool''" "pv_jobPoolConfig v = Some cfg" "jc_maxConcurrent cfg = Some m"
      then have "\<not> (pv_stackId v = stack \<and> pv_serviceName v = svc)" using key_type [OF ok key] by fastforce
      then have "activeCount (pv_stackId v) (pv_serviceName v) (ps_rows ?t) = activeCount (pv_stackId v) (pv_serviceName v) (ps_rows s)"
        by (auto simp: create_row_def reserved_row_def of_pool_def)
      with inv v show "int (activeCount (pv_stackId v) (pv_serviceName v) (ps_rows ?t)) \<le> max 0 m"
        by (auto simp: cap_inv_def capped_def)
    qed
    moreover have "task_ok tb ?t y" if "y \<in> set (ps_tasks s)" for y
    proof -
      have "task_ok tb (create_row ?new s) y"
        using that inv create_task_ok [OF _ id, of tb y] by (auto simp: cap_inv_def)
      then show ?thesis using task_ok_same [of ?t "create_row ?new s"] by simp
    qed
    ultimately show ?thesis using rows new by (auto simp: cap_inv_def)
  qed
  ultimately show ?thesis using inv by metis
qed

text \<open>The flip of a pool's row leaves the job pools alone.\<close>

lemma pool_flip_inv:
  assumes ok: "tables_ok tb" and inv: "cap_inv tb s" and x: "task_ok tb s (T_pool_running i cid)"
  shows "cap_inv tb (spawnInBackground_running a i cid s)"
proof -
  let ?f = "\<lambda>x. x\<lparr>po_status := Ps_running, po_containerId := Some cid, po_lastActive := ps_now s\<rparr>"
  let ?t = "update_row i ?f s"
  have "spawnInBackground_running a i cid s = push (T_pool_error i (aw_message a) None) s \<or> spawnInBackground_running a i cid s = ?t"
    by (simp add: spawnInBackground_running_def split: option.split)
  then show ?thesis
  proof
    assume same: "spawnInBackground_running a i cid s = push (T_pool_error i (aw_message a) None) s"
    have "cap_inv tb (push (T_pool_error i (aw_message a) None) s)" by (rule calm_inv [OF _ _ inv]) auto
    with same show ?thesis by simp
  next
    assume flip: "spawnInBackground_running a i cid s = ?t"
    have was: "\<exists>r\<in>set (ps_rows s). same_row r r'" if "r' \<in> set (ps_rows ?t)" for r'
      using that by (force simp: update_row_def same_row_def)
    have ids: "map po_id (ps_rows ?t) = map po_id (ps_rows s)" and nxt: "ps_next ?t = ps_next s"
      by (simp_all add: update_row_def)
    have "rows_ok ?t" using inv was ids nxt unfolding cap_inv_def rows_ok_def same_row_def by metis
    moreover have "pool_id tb ?t j" if "pool_id tb s j" for j
      using that was nxt unfolding pool_id_def same_row_def by metis
    then have "task_ok tb ?t y" if "task_ok tb s y" for y
      using that by (cases y) auto
    moreover have "capped tb ?t"
      unfolding capped_def
    proof (intro ballI allI impI)
      fix v cfg m
      assume v: "v \<in> set (pt_services tb)" "pv_serviceType v = ''JobPool''" "pv_jobPoolConfig v = Some cfg" "jc_maxConcurrent cfg = Some m"
      have "\<not> of_pool (pv_stackId v) (pv_serviceName v) r" if r: "r \<in> set (ps_rows s)" "po_id r = i" for r
      proof
        assume "of_pool (pv_stackId v) (pv_serviceName v) r"
        moreover from x r have "pool_key tb ''Pool'' (po_stackId r) (po_serviceName r)" by (simp add: pool_id_def)
        ultimately show False using key_type [OF ok] v by (fastforce simp: of_pool_def)
      qed
      then have "activeCount (pv_stackId v) (pv_serviceName v) (ps_rows ?t) = activeCount (pv_stackId v) (pv_serviceName v) (ps_rows s)"
        unfolding activeCount_def update_row_def
        by (simp add: filter_map comp_def) (intro arg_cong [where f = length] filter_cong, auto simp: of_pool_def)
      with inv v show "int (activeCount (pv_stackId v) (pv_serviceName v) (ps_rows ?t)) \<le> max 0 m"
        by (auto simp: cap_inv_def capped_def)
    qed
    ultimately show ?thesis using flip inv by (simp add: cap_inv_def)
  qed
qed

lemma drop_task_inv: "cap_inv tb s \<Longrightarrow> cap_inv tb (s\<lparr>ps_tasks := remove1 x (ps_tasks s)\<rparr>)"
  by (rule calm_inv [of s]) (auto simp: calms_same dest: subsetD [OF set_remove1_subset])

lemma run_task_inv:
  assumes ok: "tables_ok tb" and inv: "cap_inv tb s" and x: "task_ok tb s x"
  shows "cap_inv tb (run_task tb a x s)"
proof (cases "stirring x")
  case True
  with reserve_inv [OF ok inv] ensure_inv [OF ok inv] pool_flip_inv [OF ok inv] x show ?thesis
    by (cases x) (auto simp: run_task_def)
next
  case False
  show ?thesis by (rule calm_inv [OF run_task_calm [OF False] calm_tasks [OF False x] inv])
qed

inductive_cases pool_stepE: "pool_step tb s m t"

lemma step_cap_inv:
  assumes ok: "tables_ok tb" and "pool_step tb s m t" and inv: "cap_inv tb s"
  shows "cap_inv tb t"
  using assms(2)
proof (cases rule: pool_step.cases)
  case (does x a)
  then have "task_ok tb s x" using inv by (simp add: cap_inv_def)
  then have "task_ok tb (s\<lparr>ps_tasks := remove1 x (ps_tasks s)\<rparr>) x" by (rule calms_task_ok [OF calms_same, rotated 2]) simp_all
  with does run_task_inv [OF ok drop_task_inv [OF inv]] show ?thesis by simp
next
  case (asks q)
  with calm_inv [OF request_calm request_tasks inv] show ?thesis by simp
next
  case (waits k)
  then show ?thesis by (auto intro!: calm_inv [OF _ _ inv] calms_same)
next
  case (retries due c)
  then show ?thesis by (auto simp: start_run_def intro!: calm_inv [OF _ _ inv] calms_same)
qed

lemma reach_cap_inv: "pool_reach tb s \<Longrightarrow> tables_ok tb \<Longrightarrow> cap_inv tb s"
proof (induction rule: pool_reach.induct)
  case (reach_start now)
  show ?case by (simp add: cap_inv_def rows_ok_def capped_def activeCount_def pool_initial_def)
qed (use step_cap_inv in blast)

section \<open>The bound on retries\<close>

text \<open>What the helpers leave alone.\<close>

lemma timers_kept [simp]:
  "ps_timers (push x s) = ps_timers s" "ps_timers (called c s) = ps_timers s" "ps_timers (returned k r s) = ps_timers s"
  "ps_timers (publish e s) = ps_timers s" "ps_timers (run_capped k m s) = ps_timers s"
  "ps_timers (stops_container ph q s) = ps_timers s" "ps_timers (update_row i f s) = ps_timers s"
  "ps_timers (create_row q s) = ps_timers s" "ps_timers (stop_stack_rows stack s) = ps_timers s"
  by (auto simp: push_def called_def returned_def publish_def run_capped_def stops_container_def update_row_def
      create_row_def stop_stack_rows_def)

lemma results_kept [simp]:
  "ps_results (push x s) = ps_results s" "ps_results (called c s) = ps_results s"
  "ps_results (returned k r s) = ps_results s @ [(k, r)]"
  "ps_results (publish e s) = ps_results s" "ps_results (run_capped k m s) = ps_results s @ [(k, Run_capped m)]"
  "ps_results (stops_container ph q s) = ps_results s" "ps_results (update_row i f s) = ps_results s"
  "ps_results (create_row q s) = ps_results s" "ps_results (stop_stack_rows stack s) = ps_results s"
  "ps_results (scheduleJobPoolRetry st sv n p tr s) = ps_results s"
  by (auto simp: push_def called_def returned_def publish_def run_capped_def stops_container_def update_row_def
      create_row_def stop_stack_rows_def scheduleJobPoolRetry_def)

fun run_of :: "pool_task \<Rightarrow> run_context option" where
  "run_of (T_run c) = Some c"
| "run_of (T_reserve c _) = Some c"
| "run_of (T_resolve c _ _ _) = Some c"
| "run_of (T_spawn c _ _) = Some c"
| "run_of (T_running c _ _ _) = Some c"
| "run_of (T_trace c _ _ _) = Some c"
| "run_of (T_error c _ _ _) = Some c"
| "run_of _ = None"

text \<open>A run is the first of its chain, or one its service's policy allows.\<close>

definition retry_ok :: "pool_tables \<Rightarrow> run_context \<Rightarrow> bool" where
  "retry_ok tb c \<longleftrightarrow> rn_attemptedRetries c = 0 \<or>
     (\<exists>v cfg pol. service_named tb (rn_stackId c) (rn_serviceName c) = Some v \<and> pv_serviceType v = ''JobPool'' \<and>
        pv_jobPoolConfig v = Some cfg \<and> jc_onFailure cfg = Some pol \<and> int (rn_attemptedRetries c) \<le> of_retries pol)"

fun exit_ok :: "pool_tables \<Rightarrow> pool_task \<Rightarrow> bool" where
  "exit_ok tb (T_finalise e r v at) = (service_named tb (event_stack e) (po_serviceName r) = Some v \<and> pv_serviceType v = ''JobPool'')"
| "exit_ok tb (T_report e r v at) = (service_named tb (event_stack e) (po_serviceName r) = Some v \<and> pv_serviceType v = ''JobPool'')"
| "exit_ok tb x = True"

definition retry_inv :: "pool_tables \<Rightarrow> pool_state \<Rightarrow> bool" where
  "retry_inv tb s \<longleftrightarrow>
     (\<forall>x\<in>set (ps_tasks s). exit_ok tb x \<and> (\<forall>c. run_of x = Some c \<longrightarrow> retry_ok tb c)) \<and>
     (\<forall>p\<in>set (ps_timers s). retry_ok tb (snd p)) \<and> (\<forall>p\<in>set (ps_results s). retry_ok tb (fst p))"

lemmas all_task_defs = task_defs runJobPool_reserve_def ensure_reserve_def spawnInBackground_running_def

lemma report_timers:
  assumes "service_named tb (event_stack e) (po_serviceName r) = Some v" and "pv_serviceType v = ''JobPool''"
    and "p \<in> set (ps_timers (handleEvent_report tb a e r v at s))"
  shows "p \<in> set (ps_timers s) \<or> retry_ok tb (snd p)"
  using assms by (auto simp: handleEvent_report_def Let_def scheduleJobPoolRetry_def retry_ok_def
      split: if_splits option.splits)

lemma run_task_timers:
  assumes "exit_ok tb x" and "p \<in> set (ps_timers (run_task tb a x s))"
  shows "p \<in> set (ps_timers s) \<or> retry_ok tb (snd p)"
proof (cases "\<exists>e r v at. x = T_report e r v at")
  case True
  then obtain e r v at where x: "x = T_report e r v at" by blast
  with assms show ?thesis using report_timers [of tb e r v p a at s] by (simp add: run_task_def)
next
  case False
  then have "ps_timers (run_task tb a x s) = ps_timers s"
    by (cases x) (auto simp: run_task_def all_task_defs split: option.split spawn_outcome.split sum.split prod.split list.split reap_phase.split)
  with assms(2) show ?thesis by simp
qed

lemma run_task_results:
  assumes "p \<in> set (ps_results (run_task tb a x s))"
  shows "p \<in> set (ps_results s) \<or> run_of x = Some (fst p)"
  using assms by (cases x) (auto simp: run_task_def all_task_defs split: if_splits option.splits spawn_outcome.splits sum.splits prod.splits list.splits reap_phase.splits)

lemma run_task_adds:
  assumes "y \<in> set (ps_tasks (run_task tb a x s))"
  shows "y \<in> set (ps_tasks s) \<or> (run_of y = None \<or> run_of y = run_of x) \<and> (exit_ok tb x \<longrightarrow> exit_ok tb y)"
  using assms by (cases x) (auto simp: run_task_def all_task_defs split: if_splits option.splits spawn_outcome.splits sum.splits prod.splits list.splits reap_phase.splits)

lemma retry_inv_step:
  assumes "pool_step tb s m t" and inv: "retry_inv tb s"
  shows "retry_inv tb t"
  using assms(1)
proof (cases rule: pool_step.cases)
  case (does x a)
  let ?s = "s\<lparr>ps_tasks := remove1 x (ps_tasks s)\<rparr>"
  have x: "exit_ok tb x" "\<And>c. run_of x = Some c \<Longrightarrow> retry_ok tb c" using does inv by (auto simp: retry_inv_def)
  have sub: "set (ps_tasks ?s) \<subseteq> set (ps_tasks s)" by (simp add: set_remove1_subset)
  show ?thesis
    unfolding retry_inv_def
  proof (intro conjI ballI)
    fix y assume y: "y \<in> set (ps_tasks t)"
    then consider "y \<in> set (ps_tasks s)" | "run_of y = None \<or> run_of y = run_of x" "exit_ok tb y"
      using does run_task_adds [of y tb a x ?s] sub x(1) by blast
    then show "exit_ok tb y" "\<forall>c. run_of y = Some c \<longrightarrow> retry_ok tb c"
      using inv x by (cases; auto simp: retry_inv_def)+
  next
    fix p assume "p \<in> set (ps_timers t)"
    with does run_task_timers [OF x(1), of p a ?s] inv show "retry_ok tb (snd p)" by (auto simp: retry_inv_def)
  next
    fix p assume "p \<in> set (ps_results t)"
    with does run_task_results [of p tb a x ?s] inv x(2) show "retry_ok tb (fst p)" by (auto simp: retry_inv_def)
  qed
next
  case (asks q)
  with inv show ?thesis
    by (auto simp: retry_inv_def take_request_def start_run_def handleEvent_def ensureInstance_def retry_ok_def
        split: pool_request.splits option.splits if_splits)
next
  case (retries due c)
  with inv show ?thesis by (auto simp: retry_inv_def start_run_def dest: subsetD [OF set_remove1_subset])
qed (use inv in \<open>auto simp: retry_inv_def\<close>)

lemma reach_retry_inv: "pool_reach tb s \<Longrightarrow> retry_inv tb s"
proof (induction rule: pool_reach.induct)
  case (reach_start now)
  show ?case by (simp add: retry_inv_def pool_initial_def)
qed (rule retry_inv_step)

section \<open>The record of a run\<close>

text \<open>Docker has reported the death of a container of this instance, with this exit code or without one.\<close>

definition reported :: "pool_state \<Rightarrow> string \<Rightarrow> string \<Rightarrow> int option \<Rightarrow> bool" where
  "reported s stack inst code \<longleftrightarrow>
     (\<exists>e\<in>set (ps_heard s). de_action e = ''die'' \<and> event_stack e = stack \<and> event_instance e = inst \<and> de_exitCode e = code)"

definition row_truth :: "pool_state \<Rightarrow> pool_row \<Rightarrow> bool" where
  "row_truth s r \<longleftrightarrow>
     (po_status r = Ps_completed \<longrightarrow> reported s (po_stackId r) (po_instanceId r) (Some 0)) \<and>
     (po_status r = Ps_failed \<longrightarrow> (\<exists>code. code \<noteq> Some 0 \<and> reported s (po_stackId r) (po_instanceId r) code))"

definition event_truth :: "pool_state \<Rightarrow> run_event \<Rightarrow> bool" where
  "event_truth s h \<longleftrightarrow> (case h of
     Completed_event stack svc run tr t u \<Rightarrow> reported s stack run (Some 0)
   | Failed_event stack svc run tr code m t u \<Rightarrow> \<exists>c. c \<noteq> Some 0 \<and> reported s stack run c
   | Skipped_event stack svc tr t m \<Rightarrow> True)"

definition about_row :: "pool_state \<Rightarrow> die_event \<Rightarrow> pool_row \<Rightarrow> bool" where
  "about_row s e r \<longleftrightarrow> po_id r < ps_next s \<and>
     (\<forall>r'\<in>set (ps_rows s). po_id r' = po_id r \<longrightarrow> po_stackId r' = event_stack e \<and> po_instanceId r' = event_instance e)"

fun task_truth :: "pool_state \<Rightarrow> pool_task \<Rightarrow> bool" where
  "task_truth s (T_exit_row e) = (e \<in> set (ps_heard s) \<and> de_action e = ''die'')"
| "task_truth s (T_finalise e r v at) = (e \<in> set (ps_heard s) \<and> de_action e = ''die'' \<and> about_row s e r)"
| "task_truth s (T_report e r v at) = (e \<in> set (ps_heard s) \<and> de_action e = ''die'')"
| "task_truth s x = True"

definition truth_inv :: "pool_state \<Rightarrow> bool" where
  "truth_inv s \<longleftrightarrow> rows_ok s \<and> (\<forall>r\<in>set (ps_rows s). row_truth s r) \<and> (\<forall>h\<in>set (ps_history s). event_truth s h) \<and>
     (\<forall>x\<in>set (ps_tasks s). task_truth s x)"

lemma heard_kept [simp]:
  "ps_heard (push x s) = ps_heard s" "ps_heard (called c s) = ps_heard s" "ps_heard (returned k r s) = ps_heard s"
  "ps_heard (publish e s) = ps_heard s" "ps_heard (run_capped k m s) = ps_heard s"
  "ps_heard (stops_container ph q s) = ps_heard s" "ps_heard (update_row i f s) = ps_heard s"
  "ps_heard (create_row q s) = ps_heard s" "ps_heard (stop_stack_rows stack s) = ps_heard s"
  "ps_heard (scheduleJobPoolRetry st sv n p tr s) = ps_heard s"
  by (auto simp: push_def called_def returned_def publish_def run_capped_def stops_container_def update_row_def
      create_row_def stop_stack_rows_def scheduleJobPoolRetry_def)

lemma history_kept [simp]:
  "ps_history (push x s) = ps_history s" "ps_history (called c s) = ps_history s" "ps_history (returned k r s) = ps_history s"
  "ps_history (stops_container ph q s) = ps_history s" "ps_history (update_row i f s) = ps_history s"
  "ps_history (create_row q s) = ps_history s" "ps_history (stop_stack_rows stack s) = ps_history s"
  "ps_history (scheduleJobPoolRetry st sv n p tr s) = ps_history s"
  by (auto simp: push_def called_def returned_def stops_container_def update_row_def
      create_row_def stop_stack_rows_def scheduleJobPoolRetry_def)

lemma run_task_heard [simp]: "ps_heard (run_task tb a x s) = ps_heard s"
  by (cases x) (auto simp: run_task_def all_task_defs split: option.split spawn_outcome.split sum.split prod.split list.split reap_phase.split)

lemma exit_zero: "exit_code_of e = 0 \<longleftrightarrow> de_exitCode e = Some 0"
  by (cases "de_exitCode e") (auto simp: exit_code_of_def)

text \<open>Only the watcher makes a row completed or failed.\<close>

definition quiet_row :: "pool_row list \<Rightarrow> pool_row \<Rightarrow> bool" where
  "quiet_row rows r' \<longleftrightarrow> po_status r' \<noteq> Ps_completed \<and> po_status r' \<noteq> Ps_failed \<or>
     (\<exists>r\<in>set rows. same_row r r' \<and> po_status r' = po_status r)"

definition ends_nothing :: "pool_state \<Rightarrow> pool_state \<Rightarrow> bool" where
  "ends_nothing s t \<longleftrightarrow> (\<forall>r'\<in>set (ps_rows t). quiet_row (ps_rows s) r')"

lemma quiet_member: "r \<in> set rows \<Longrightarrow> quiet_row rows r"
  unfolding quiet_row_def using same_row_refl by blast

lemma ends_nothing_same: "ps_rows t = ps_rows s \<Longrightarrow> ends_nothing s t"
  by (simp add: ends_nothing_def quiet_member)

lemma ends_nothing_through [simp]:
  "ends_nothing s (push x t) \<longleftrightarrow> ends_nothing s t" "ends_nothing s (called c t) \<longleftrightarrow> ends_nothing s t"
  "ends_nothing s (returned k r t) \<longleftrightarrow> ends_nothing s t" "ends_nothing s (publish e t) \<longleftrightarrow> ends_nothing s t"
  "ends_nothing s (run_capped k m t) \<longleftrightarrow> ends_nothing s t" "ends_nothing s (stops_container ph q t) \<longleftrightarrow> ends_nothing s t"
  "ends_nothing s (spawn_run tb k cfg i run env t) \<longleftrightarrow> ends_nothing s t"
  "ends_nothing s (next_phase ph t) \<longleftrightarrow> ends_nothing s t"
  "ends_nothing s (scheduleJobPoolRetry st sv n p tr t) \<longleftrightarrow> ends_nothing s t"
  by (simp_all add: ends_nothing_def)

lemma ends_nothing_refl [simp]: "ends_nothing s s"
  by (rule ends_nothing_same) simp

lemma ends_nothing_update:
  assumes "\<And>r. r \<in> set (ps_rows s) \<Longrightarrow> po_status (f r) \<noteq> Ps_completed \<and> po_status (f r) \<noteq> Ps_failed \<or>
     same_row r (f r) \<and> po_status (f r) = po_status r"
  shows "ends_nothing s (update_row i f s)"
  unfolding ends_nothing_def
proof
  fix r' assume "r' \<in> set (ps_rows (update_row i f s))"
  then obtain r where r: "r \<in> set (ps_rows s)" and "r' = (if po_id r = i then f r else r)"
    by (auto simp: update_row_def)
  with assms [OF r] quiet_member [OF r] show "quiet_row (ps_rows s) r'"
    unfolding quiet_row_def by (metis r)
qed

lemma ends_nothing_create: "po_status q = Ps_starting \<Longrightarrow> ends_nothing s (create_row q s)"
  by (auto simp: ends_nothing_def create_row_def quiet_member) (simp add: quiet_row_def)

lemma row_error_status [simp]: "po_status (row_error m cid now r) = Ps_error"
  by (simp add: row_error_def Let_def split: option.split)

lemma running_ends_nothing: "ends_nothing s (runJobPool_running a c i run cid s)"
  by (auto simp: runJobPool_running_def same_row_def intro!: ends_nothing_update split: if_splits)

lemma run_task_ends_nothing:
  assumes "\<And>e r v at. x \<noteq> T_finalise e r v at"
  shows "ends_nothing s (run_task tb a x s)"
  using assms running_ends_nothing
  by (cases x) (auto simp: run_task_def calm_defs runJobPool_trace_def reap_write_def reap_row_def deleteInstance_write_def
      heartbeat_write_def runJobPool_reserve_def ensure_reserve_def spawnInBackground_running_def reserved_row_def
      same_row_def ends_nothing_same intro!: ends_nothing_update ends_nothing_create
      split: option.split spawn_outcome.split sum.split prod.split list.split reap_phase.split)

lemma request_ends_nothing: "ends_nothing s (take_request tb q s)"
proof (cases q)
  case (Stack_stopped stack)
  then show ?thesis
    by (auto simp: take_request_def stop_stack_rows_def ends_nothing_def quiet_member) (simp_all add: quiet_row_def)
qed (auto simp: take_request_def start_run_def handleEvent_def ensureInstance_def ends_nothing_same split: option.split)

text \<open>The identity of rows stays as it is; new ones are new.\<close>

definition grows_rows :: "pool_state \<Rightarrow> pool_state \<Rightarrow> bool" where
  "grows_rows s t \<longleftrightarrow> ps_next s \<le> ps_next t \<and> (rows_ok s \<longrightarrow> rows_ok t) \<and>
     (\<forall>r'\<in>set (ps_rows t). po_id r' < ps_next s \<longrightarrow> (\<exists>r\<in>set (ps_rows s). same_row r r'))"

lemma calms_grows: "calms s t \<Longrightarrow> grows_rows s t"
  using calms_rows [of s t] calms_rows_ok [of s t] by (auto simp: grows_rows_def)

lemma grows_through [simp]: "grows_rows s (push x t) \<longleftrightarrow> grows_rows s t" "grows_rows s (returned c r t) \<longleftrightarrow> grows_rows s t"
  "grows_rows s (run_capped c m t) \<longleftrightarrow> grows_rows s t"
  by (simp_all add: grows_rows_def rows_ok_def)

lemma grows_refl [simp]: "grows_rows s s"
  by (rule calms_grows) simp

lemma create_row_grows: "po_id q = ps_next s \<Longrightarrow> grows_rows s (create_row q s)"
proof -
  assume "po_id q = ps_next s"
  moreover from this have "\<exists>r\<in>set (ps_rows s). same_row r r'"
    if "r' \<in> set (ps_rows (create_row q s))" "po_id r' < ps_next s" for r'
    using that by (auto simp: create_row_def intro!: bexI [of _ r'])
  ultimately show ?thesis using create_rows_ok [of s q] by (simp add: grows_rows_def) (simp add: create_row_def)
qed

lemma rows_ok_ids: "rows_ok s \<longleftrightarrow> distinct (map po_id (ps_rows s)) \<and> (\<forall>i\<in>set (map po_id (ps_rows s)). i < ps_next s)"
  by (simp add: rows_ok_def)

lemma update_grows:
  assumes "\<And>r. same_row r (f r)"
  shows "grows_rows s (update_row i f s)"
proof -
  have "map po_id (ps_rows (update_row i f s)) = map po_id (ps_rows s)"
    using assms by (simp add: update_row_def same_row_def)
  moreover have "ps_next (update_row i f s) = ps_next s" by (simp add: update_row_def)
  ultimately have "rows_ok (update_row i f s) = rows_ok s" by (simp add: rows_ok_ids)
  moreover have "\<exists>r\<in>set (ps_rows s). same_row r r'" if "r' \<in> set (ps_rows (update_row i f s))" for r'
  proof -
    from that obtain r where "r \<in> set (ps_rows s)" "r' = (if po_id r = i then f r else r)" by (auto simp: update_row_def)
    with assms [of r] show ?thesis by (intro bexI [of _ r]) auto
  qed
  ultimately show ?thesis by (simp add: grows_rows_def) (simp add: update_row_def)
qed

lemma run_task_grows: "grows_rows s (run_task tb a x s)"
proof (cases "stirring x")
  case True
  then show ?thesis
    by (cases x) (auto simp: run_task_def runJobPool_reserve_def ensure_reserve_def spawnInBackground_running_def Let_def
        reserved_row_def same_row_def intro!: create_row_grows update_grows split: option.split)
qed (simp add: calms_grows run_task_calm)

lemma request_grows: "grows_rows s (take_request tb q s)"
  by (rule calms_grows [OF request_calm])

lemma reported_mono: "set (ps_heard s) \<subseteq> set (ps_heard t) \<Longrightarrow> reported s st i c \<Longrightarrow> reported t st i c"
  by (auto simp: reported_def)

lemma row_truth_mono: "set (ps_heard s) \<subseteq> set (ps_heard t) \<Longrightarrow> row_truth s r \<Longrightarrow> row_truth t r"
  unfolding row_truth_def using reported_mono by blast

lemma event_truth_mono: "set (ps_heard s) \<subseteq> set (ps_heard t) \<Longrightarrow> event_truth s h \<Longrightarrow> event_truth t h"
  by (cases h) (auto simp: event_truth_def intro: reported_mono)

lemma about_row_mono: "grows_rows s t \<Longrightarrow> about_row s e r \<Longrightarrow> about_row t e r"
  unfolding grows_rows_def about_row_def same_row_def by (metis order_less_le_trans)

lemma task_truth_mono:
  "set (ps_heard s) \<subseteq> set (ps_heard t) \<Longrightarrow> grows_rows s t \<Longrightarrow> task_truth s x \<Longrightarrow> task_truth t x"
  by (cases x) (auto intro: about_row_mono)

lemma rows_truth:
  assumes "ends_nothing s t" and "set (ps_heard s) \<subseteq> set (ps_heard t)" and "\<forall>r\<in>set (ps_rows s). row_truth s r"
  shows "\<forall>r\<in>set (ps_rows t). row_truth t r"
proof
  fix r' assume "r' \<in> set (ps_rows t)"
  with assms(1) have "quiet_row (ps_rows s) r'" by (simp add: ends_nothing_def)
  then consider "po_status r' \<noteq> Ps_completed" "po_status r' \<noteq> Ps_failed"
    | r where "r \<in> set (ps_rows s)" "same_row r r'" "po_status r' = po_status r"
    unfolding quiet_row_def by blast
  then show "row_truth t r'"
  proof cases
    case 2
    with assms(3) row_truth_mono [OF assms(2)] have "row_truth t r" by blast
    with 2 show ?thesis by (simp add: row_truth_def same_row_def)
  qed (simp add: row_truth_def)
qed

lemma finalise_truth:
  assumes e: "e \<in> set (ps_heard s)" "de_action e = ''die''" and about: "about_row s e r"
    and old: "\<forall>r\<in>set (ps_rows s). row_truth s r"
  shows "\<forall>r'\<in>set (ps_rows (handleEvent_finalise a e r v at s)). row_truth s r'"
proof
  fix r' assume "r' \<in> set (ps_rows (handleEvent_finalise a e r v at s))"
  then consider "r' \<in> set (ps_rows s)"
    | x where "x \<in> set (ps_rows s)" "po_id x = po_id r" "r' = x\<lparr>
           po_status := (if exit_code_of e = 0 then Ps_completed else Ps_failed),
           po_exitCode := Some (exit_code_of e), po_finishedAt := Some at, po_stoppedAt := Some at,
           po_errorMessage := (if exit_code_of e = 0 then None else Some (exit_message e r))\<rparr>"
    by (auto simp: handleEvent_finalise_def update_row_def split: if_splits)
  then show "row_truth s r'"
  proof cases
    case 2
    with about have "po_stackId x = event_stack e" "po_instanceId x = event_instance e" by (auto simp: about_row_def)
    with 2 e show ?thesis by (auto simp: row_truth_def reported_def exit_zero)
  qed (use old in blast)
qed

lemma self_reported: "task_truth s (T_report e r v at) \<Longrightarrow> reported s (event_stack e) (event_instance e) (de_exitCode e)"
  by (auto simp: reported_def)

lemma publish_history: "h \<in> set (ps_history (publish e s)) \<Longrightarrow> h \<in> set (ps_history s) \<or> h = e"
  by (auto simp: publish_def split: if_splits)

lemma report_history:
  assumes "h \<in> set (ps_history (handleEvent_report tb a e r v at s))" and e: "task_truth s (T_report e r v at)"
  shows "h \<in> set (ps_history s) \<or> event_truth s h"
proof -
  from assms(1) have "h \<in> set (ps_history s) \<or>
      (\<exists>sv tr t u. exit_code_of e = 0 \<and> h = Completed_event (event_stack e) sv (event_instance e) tr t u) \<or>
      (\<exists>sv tr c m t u. exit_code_of e \<noteq> 0 \<and> h = Failed_event (event_stack e) sv (event_instance e) tr c m t u)"
    by (auto simp: handleEvent_report_def Let_def split: if_splits option.splits dest!: publish_history)
  with self_reported [OF e] show ?thesis by (auto simp: event_truth_def exit_zero)
qed

lemma capped_history: "h \<in> set (ps_history (run_capped c m s)) \<Longrightarrow> h \<in> set (ps_history s) \<or> event_truth s h"
  by (auto simp: run_capped_def event_truth_def dest!: publish_history)

lemma run_task_history:
  assumes "h \<in> set (ps_history (run_task tb a x s))" and "task_truth s x"
  shows "h \<in> set (ps_history s) \<or> event_truth s h"
proof (cases "\<exists>e r v at. x = T_report e r v at")
  case True
  then obtain e r v at where x: "x = T_report e r v at" by blast
  with assms show ?thesis using report_history [of h tb a e r v at s] by (simp add: run_task_def)
next
  case False
  with assms(1) show ?thesis
    by (cases x) (auto simp: run_task_def all_task_defs dest!: capped_history
        split: if_splits option.splits spawn_outcome.splits sum.splits prod.splits list.splits reap_phase.splits)
qed

lemma find_key:
  "find (\<lambda>r. po_stackId r = st \<and> po_instanceId r = i) rows = Some r \<Longrightarrow> r \<in> set rows \<and> po_stackId r = st \<and> po_instanceId r = i"
  by (auto simp: find_Some_iff)

lemma id_determines: "rows_ok s \<Longrightarrow> r \<in> set (ps_rows s) \<Longrightarrow> r' \<in> set (ps_rows s) \<Longrightarrow> po_id r' = po_id r \<Longrightarrow> r' = r"
  by (auto simp: rows_ok_def distinct_map inj_on_def)

lemma found_about:
  assumes ok: "rows_ok s"
    and "find (\<lambda>r. po_stackId r = event_stack e \<and> po_instanceId r = event_instance e) (ps_rows s) = Some r"
  shows "about_row s e r"
proof -
  from find_key [OF assms(2)] have r: "r \<in> set (ps_rows s)" "po_stackId r = event_stack e" "po_instanceId r = event_instance e" by auto
  with id_determines [OF ok r(1)] ok show ?thesis by (auto simp: about_row_def rows_ok_def)
qed

lemma lookup_truth:
  assumes "rows_ok s" and "task_truth s (T_exit_row e)" and "y \<in> set (ps_tasks (handleEvent_lookup tb a e s))"
  shows "y \<in> set (ps_tasks s) \<or> task_truth s y"
  using assms found_about [OF assms(1), of e] by (auto simp: handleEvent_lookup_def split: if_splits option.splits)

lemma run_task_truth_adds:
  assumes "rows_ok s" and "task_truth s x" and "y \<in> set (ps_tasks (run_task tb a x s))"
  shows "y \<in> set (ps_tasks s) \<or> task_truth s y"
proof (cases "\<exists>e. x = T_exit_row e")
  case True
  then obtain e where x: "x = T_exit_row e" by blast
  with assms show ?thesis using lookup_truth [of s e y tb a] by (simp add: run_task_def)
next
  case False
  with assms(2,3) show ?thesis
    by (cases x) (auto simp: run_task_def all_task_defs split: if_splits option.splits spawn_outcome.splits sum.splits prod.splits list.splits reap_phase.splits)
qed

lemma drop_task_same [simp]:
  "rows_ok (s\<lparr>ps_tasks := xs\<rparr>) = rows_ok s" "row_truth (s\<lparr>ps_tasks := xs\<rparr>) r = row_truth s r"
  "event_truth (s\<lparr>ps_tasks := xs\<rparr>) h = event_truth s h" "task_truth (s\<lparr>ps_tasks := xs\<rparr>) x = task_truth s x"
proof -
  show "task_truth (s\<lparr>ps_tasks := xs\<rparr>) x = task_truth s x" by (cases x) (auto simp: about_row_def)
qed (auto simp: rows_ok_def row_truth_def event_truth_def reported_def split: run_event.split)

lemma truth_inv_task:
  assumes inv: "truth_inv s" and x: "task_truth s x"
  shows "truth_inv (run_task tb a x s)"
proof -
  let ?t = "run_task tb a x s"
  have heard: "set (ps_heard s) \<subseteq> set (ps_heard ?t)" by simp
  have rows: "rows_ok s" using inv by (simp add: truth_inv_def)
  have grows: "grows_rows s ?t" by (rule run_task_grows)
  then have "rows_ok ?t" using rows by (simp add: grows_rows_def)
  moreover have "\<forall>r\<in>set (ps_rows ?t). row_truth ?t r"
  proof (cases "\<exists>e r v at. x = T_finalise e r v at")
    case True
    then obtain e r v at where "x = T_finalise e r v at" by blast
    with x finalise_truth [of e s r a v at] inv row_truth_mono [OF heard] show ?thesis
      by (auto simp: run_task_def truth_inv_def)
  next
    case False
    then show ?thesis using rows_truth [OF run_task_ends_nothing heard] inv by (auto simp: truth_inv_def)
  qed
  moreover have "\<forall>h\<in>set (ps_history ?t). event_truth ?t h"
    using run_task_history [OF _ x] event_truth_mono [OF heard] inv unfolding truth_inv_def by blast
  moreover have "\<forall>y\<in>set (ps_tasks ?t). task_truth ?t y"
    using run_task_truth_adds [OF rows x] task_truth_mono [OF heard grows] inv unfolding truth_inv_def by blast
  ultimately show ?thesis by (simp add: truth_inv_def)
qed

lemma request_parts:
  "set (ps_heard s) \<subseteq> set (ps_heard (take_request tb q s))" "ps_history (take_request tb q s) = ps_history s"
  "y \<in> set (ps_tasks (take_request tb q s)) \<Longrightarrow> y \<in> set (ps_tasks s) \<or> task_truth (take_request tb q s) y"
  by (auto simp: take_request_def start_run_def handleEvent_def ensureInstance_def split: pool_request.splits option.splits if_splits)

lemma truth_inv_quiet:
  assumes heard: "set (ps_heard s) \<subseteq> set (ps_heard t)" and grows: "grows_rows s t" and quiet: "ends_nothing s t"
    and history: "ps_history t = ps_history s"
    and tasks: "\<And>y. y \<in> set (ps_tasks t) \<Longrightarrow> y \<in> set (ps_tasks s) \<or> task_truth t y" and inv: "truth_inv s"
  shows "truth_inv t"
proof -
  have "rows_ok t" using grows inv by (simp add: grows_rows_def truth_inv_def)
  moreover have "\<forall>r\<in>set (ps_rows t). row_truth t r" using rows_truth [OF quiet heard] inv by (simp add: truth_inv_def)
  moreover have "\<forall>h\<in>set (ps_history t). event_truth t h"
    using event_truth_mono [OF heard] history inv by (simp add: truth_inv_def)
  moreover have "\<forall>y\<in>set (ps_tasks t). task_truth t y"
    using tasks task_truth_mono [OF heard grows] inv unfolding truth_inv_def by blast
  ultimately show ?thesis by (simp add: truth_inv_def)
qed

lemma truth_inv_step:
  assumes "pool_step tb s m t" and inv: "truth_inv s"
  shows "truth_inv t"
  using assms(1)
proof (cases rule: pool_step.cases)
  case (does x a)
  let ?s = "s\<lparr>ps_tasks := remove1 x (ps_tasks s)\<rparr>"
  have "truth_inv ?s" using inv by (auto simp: truth_inv_def dest: subsetD [OF set_remove1_subset])
  moreover have "task_truth ?s x" using does inv by (simp add: truth_inv_def)
  ultimately show ?thesis using truth_inv_task does by blast
next
  case (asks q)
  show ?thesis unfolding asks(2)
    by (rule truth_inv_quiet [OF request_parts(1) request_grows request_ends_nothing request_parts(2) _ inv])
      (use request_parts(3) in blast)
next
  case (waits k)
  show ?thesis by (rule truth_inv_quiet [OF _ _ _ _ _ inv]) (use waits in \<open>auto simp: calms_same calms_grows ends_nothing_same\<close>)
next
  case (retries due c)
  show ?thesis
    by (rule truth_inv_quiet [OF _ _ _ _ _ inv])
      (use retries in \<open>auto simp: start_run_def calms_same calms_grows ends_nothing_same\<close>)
qed

lemma reach_truth_inv: "pool_reach tb s \<Longrightarrow> truth_inv s"
proof (induction rule: pool_reach.induct)
  case (reach_start now)
  show ?case by (simp add: truth_inv_def rows_ok_def pool_initial_def)
qed (rule truth_inv_step)

section \<open>Whom the reaper takes down\<close>

definition fair_reap :: "pool_tables \<Rightarrow> reap_phase \<Rightarrow> pool_row \<Rightarrow> int \<Rightarrow> bool" where
  "fair_reap tb ph r t \<longleftrightarrow> (case ph of
     Reap_idle \<Rightarrow> po_status r = Ps_running \<and> \<not> is_job_pool tb r \<and> po_idleTimeoutMinutes r * 60 * 1000 \<le> t - po_lastActive r
   | Reap_stuck \<Rightarrow> po_status r = Ps_starting \<and> STARTING_TIMEOUT_MS < t - po_createdAt r
   | Reap_kill \<Rightarrow> po_status r = Ps_running \<and> is_job_pool tb r \<and>
       (\<exists>k. kill_after tb r = Some k \<and> k * 1000 \<le> t - po_lastActive r))"

text \<open>What the read of a phase picks.\<close>

definition candidate :: "reap_phase \<Rightarrow> int \<Rightarrow> pool_row \<Rightarrow> bool" where
  "candidate ph at r \<longleftrightarrow> r \<in> set (reap_candidates ph at [r])"

fun reap_ok :: "pool_tables \<Rightarrow> int \<Rightarrow> pool_task \<Rightarrow> bool" where
  "reap_ok tb now (T_reap_rows ph at rows) = (at \<le> now \<and> (\<forall>r\<in>set rows. candidate ph at r))"
| "reap_ok tb now (T_reaped ph at r rows) = (at \<le> now \<and> (\<forall>r\<in>set rows. candidate ph at r))"
| "reap_ok tb now (T_killing at r rows) =
     (at \<le> now \<and> (\<forall>r\<in>set rows. candidate Reap_kill at r) \<and> fair_reap tb Reap_kill r at)"
| "reap_ok tb now x = True"

definition reap_inv :: "pool_tables \<Rightarrow> pool_state \<Rightarrow> bool" where
  "reap_inv tb s \<longleftrightarrow> (\<forall>x\<in>set (ps_tasks s). reap_ok tb (ps_now s) x) \<and>
     (\<forall>ph r t. P_reap ph r t \<in> set (ps_log s) \<longrightarrow> t \<le> ps_now s \<and> fair_reap tb ph r t)"

lemma now_kept [simp]:
  "ps_now (push x s) = ps_now s" "ps_now (called c s) = ps_now s" "ps_now (returned k r s) = ps_now s"
  "ps_now (publish e s) = ps_now s" "ps_now (run_capped k m s) = ps_now s" "ps_now (stops_container ph q s) = ps_now s"
  "ps_now (update_row i f s) = ps_now s" "ps_now (create_row q s) = ps_now s" "ps_now (stop_stack_rows stack s) = ps_now s"
  "ps_now (scheduleJobPoolRetry st sv n p tr s) = ps_now s"
  by (auto simp: push_def called_def returned_def publish_def run_capped_def stops_container_def update_row_def
      create_row_def stop_stack_rows_def scheduleJobPoolRetry_def)

lemma log_kept [simp]:
  "ps_log (push x s) = ps_log s" "ps_log (called c s) = ps_log s @ [c]" "ps_log (returned k r s) = ps_log s"
  "ps_log (publish e s) = ps_log s" "ps_log (run_capped k m s) = ps_log s" "ps_log (update_row i f s) = ps_log s"
  "ps_log (create_row q s) = ps_log s" "ps_log (stop_stack_rows stack s) = ps_log s"
  "ps_log (scheduleJobPoolRetry st sv n p tr s) = ps_log s"
  "ps_log (stops_container ph q s) = ps_log s @ (if truthy (po_containerId q) then [P_reap ph q (ps_now s)] else [])"
  by (auto simp: push_def called_def returned_def publish_def run_capped_def stops_container_def update_row_def
      create_row_def stop_stack_rows_def scheduleJobPoolRetry_def)

lemma run_task_now [simp]: "ps_now (run_task tb a x s) = ps_now s"
  by (cases x) (auto simp: run_task_def all_task_defs split: option.split spawn_outcome.split sum.split prod.split list.split reap_phase.split)

lemma fair_reap_later: "fair_reap tb ph r t \<Longrightarrow> t \<le> u \<Longrightarrow> fair_reap tb ph r u"
  by (cases ph; fastforce simp: fair_reap_def)

lemma due_fair: "candidate ph at r \<Longrightarrow> reap_due tb ph at r \<Longrightarrow> fair_reap tb ph r at"
  by (auto simp: candidate_def reap_candidates_def reap_due_def fair_reap_def kill_after_def is_job_pool_def
      split: reap_phase.splits option.splits if_splits)

lemma read_candidate: "r \<in> set (reap_candidates ph at rows) \<Longrightarrow> candidate ph at r"
  by (auto simp: candidate_def reap_candidates_def split: reap_phase.splits)

lemma reap_row_inv:
  assumes x: "reap_ok tb (ps_now s) (T_reap_rows ph at rows)"
  shows "y \<in> set (ps_tasks (reap_row tb a ph at rows s)) \<Longrightarrow> y \<in> set (ps_tasks s) \<or> reap_ok tb (ps_now s) y"
    and "P_reap ph' r t \<in> set (ps_log (reap_row tb a ph at rows s)) \<Longrightarrow>
      P_reap ph' r t \<in> set (ps_log s) \<or> t = ps_now s \<and> fair_reap tb ph' r t"
proof -
  have at: "at \<le> ps_now s" and rows: "\<And>r. r \<in> set rows \<Longrightarrow> candidate ph at r" using x by auto
  have fair: "fair_reap tb ph r at" if "r \<in> set rows" "reap_due tb ph at r" for r using rows due_fair that by blast
  show "y \<in> set (ps_tasks (reap_row tb a ph at rows s)) \<Longrightarrow> y \<in> set (ps_tasks s) \<or> reap_ok tb (ps_now s) y"
    using at fair rows by (cases rows) (auto simp: reap_row_def next_phase_def split: if_splits reap_phase.splits)
  show "P_reap ph' r t \<in> set (ps_log (reap_row tb a ph at rows s)) \<Longrightarrow>
      P_reap ph' r t \<in> set (ps_log s) \<or> t = ps_now s \<and> fair_reap tb ph' r t"
    using fair_reap_later [OF fair at] by (cases rows) (auto simp: reap_row_def next_phase_def split: if_splits reap_phase.splits)
qed

lemma run_task_reaps:
  assumes x: "reap_ok tb (ps_now s) x"
  shows "y \<in> set (ps_tasks (run_task tb a x s)) \<Longrightarrow> y \<in> set (ps_tasks s) \<or> reap_ok tb (ps_now s) y"
    and "P_reap ph r t \<in> set (ps_log (run_task tb a x s)) \<Longrightarrow>
      P_reap ph r t \<in> set (ps_log s) \<or> t = ps_now s \<and> fair_reap tb ph r t"
proof -
  show "y \<in> set (ps_tasks (run_task tb a x s)) \<Longrightarrow> y \<in> set (ps_tasks s) \<or> reap_ok tb (ps_now s) y"
    using x reap_row_inv(1) [of tb s _ _ _ y a]
    by (cases x) (auto simp: run_task_def calm_defs runJobPool_running_def runJobPool_trace_def handleEvent_finalise_def
        reap_write_def deleteInstance_write_def heartbeat_write_def spawn_run_def runJobPool_reserve_def ensure_reserve_def
        spawnInBackground_running_def read_candidate split: if_splits option.splits spawn_outcome.splits sum.splits prod.splits reap_phase.splits)
  show "P_reap ph r t \<in> set (ps_log (run_task tb a x s)) \<Longrightarrow>
      P_reap ph r t \<in> set (ps_log s) \<or> t = ps_now s \<and> fair_reap tb ph r t"
    using x reap_row_inv(2) [of tb s _ _ _ ph r t a]
    by (cases x) (auto simp: run_task_def calm_defs runJobPool_running_def runJobPool_trace_def handleEvent_finalise_def
        reap_write_def deleteInstance_write_def heartbeat_write_def spawn_run_def runJobPool_reserve_def ensure_reserve_def
        spawnInBackground_running_def intro: fair_reap_later
        split: if_splits option.splits spawn_outcome.splits sum.splits prod.splits reap_phase.splits)
qed

lemma reap_ok_later: "reap_ok tb now x \<Longrightarrow> now \<le> later \<Longrightarrow> reap_ok tb later x"
  by (cases x) auto

lemma request_reaps:
  "ps_now (take_request tb q s) = ps_now s" "ps_log (take_request tb q s) = ps_log s"
  "y \<in> set (ps_tasks (take_request tb q s)) \<Longrightarrow> y \<in> set (ps_tasks s) \<or> reap_ok tb (ps_now s) y"
  by (auto simp: take_request_def start_run_def handleEvent_def ensureInstance_def split: pool_request.splits option.splits if_splits)

lemma reap_inv_step:
  assumes "pool_step tb s m t" and inv: "reap_inv tb s"
  shows "reap_inv tb t"
  using assms(1)
proof (cases rule: pool_step.cases)
  case (does x a)
  let ?s = "s\<lparr>ps_tasks := remove1 x (ps_tasks s)\<rparr>"
  have x: "reap_ok tb (ps_now ?s) x" using does inv by (simp add: reap_inv_def)
  have sub: "set (ps_tasks ?s) \<subseteq> set (ps_tasks s)" by (simp add: set_remove1_subset)
  show ?thesis
    unfolding reap_inv_def
  proof (intro conjI ballI allI impI)
    fix y assume "y \<in> set (ps_tasks t)"
    with does run_task_reaps(1) [OF x, of y a] sub inv show "reap_ok tb (ps_now t) y" by (auto simp: reap_inv_def)
  next
    fix ph r u assume "P_reap ph r u \<in> set (ps_log t)"
    with does run_task_reaps(2) [OF x, of ph r u a] inv show "u \<le> ps_now t" "fair_reap tb ph r u" by (auto simp: reap_inv_def)
  qed
next
  case (asks q)
  have "\<forall>y\<in>set (ps_tasks (take_request tb q s)). reap_ok tb (ps_now s) y"
    using request_reaps(3) [of _ tb q s] inv unfolding reap_inv_def by blast
  with asks inv request_reaps(1,2) [of tb q s] show ?thesis by (simp add: reap_inv_def)
next
  case (waits k)
  with inv reap_ok_later show ?thesis by (fastforce simp: reap_inv_def)
next
  case (retries due c)
  with inv show ?thesis by (auto simp: reap_inv_def start_run_def)
qed

lemma reach_reap_inv: "pool_reach tb s \<Longrightarrow> reap_inv tb s"
proof (induction rule: pool_reach.induct)
  case (reach_start now)
  show ?case by (simp add: reap_inv_def pool_initial_def)
qed (rule reap_inv_step)

section \<open>Every run ends\<close>

definition runs_pending :: "pool_state \<Rightarrow> nat" where
  "runs_pending s = length (filter (\<lambda>x. run_of x \<noteq> None) (ps_tasks s))"

lemma pending_push [simp]: "runs_pending (push x s) = runs_pending s + (if run_of x = None then 0 else 1)"
  by (simp add: runs_pending_def)

lemma pending_kept [simp]:
  "runs_pending (called c s) = runs_pending s" "runs_pending (returned k r s) = runs_pending s"
  "runs_pending (publish e s) = runs_pending s" "runs_pending (run_capped k m s) = runs_pending s"
  "runs_pending (stops_container ph q s) = runs_pending s" "runs_pending (update_row i f s) = runs_pending s"
  "runs_pending (create_row q s) = runs_pending s" "runs_pending (scheduleJobPoolRetry st sv n p tr s) = runs_pending s"
  "runs_pending (s\<lparr>ps_crashed := b\<rparr>) = runs_pending s"
  by (simp_all add: runs_pending_def)

fun run_rank :: "pool_task \<Rightarrow> nat" where
  "run_rank (T_run _) = 6"
| "run_rank (T_reserve _ _) = 5"
| "run_rank (T_resolve _ _ _ _) = 4"
| "run_rank (T_spawn _ _ _) = 3"
| "run_rank (T_running _ _ _ _) = 2"
| "run_rank _ = 1"

text \<open>Each step of a run either ends it with one result or leaves one task nearer to the end.\<close>

lemma run_task_result:
  "length (ps_results (run_task tb a x s)) + runs_pending (run_task tb a x s) =
   length (ps_results s) + runs_pending s + (if run_of x = None then 0 else 1)"
  by (cases x) (auto simp: run_task_def all_task_defs split: option.split spawn_outcome.split sum.split prod.split list.split reap_phase.split)

lemma run_task_progress:
  assumes "run_of x = Some c"
  shows "(\<exists>r. ps_results (run_task tb a x s) = ps_results s @ [(c, r)] \<and> ps_tasks (run_task tb a x s) = ps_tasks s) \<or>
    (\<exists>y. run_of y = Some c \<and> run_rank y < run_rank x \<and> ps_tasks (run_task tb a x s) = ps_tasks s @ [y] \<and>
       ps_results (run_task tb a x s) = ps_results s)"
  using assms by (cases x) (auto simp: run_task_def all_task_defs split: option.split spawn_outcome.split sum.split prod.split)

lemma run_task_calls [simp]: "ps_calls (run_task tb a x s) = ps_calls s"
  by (cases x) (auto simp: run_task_def all_task_defs push_def called_def returned_def publish_def run_capped_def
      stops_container_def update_row_def create_row_def scheduleJobPoolRetry_def
      split: option.split spawn_outcome.split sum.split prod.split list.split reap_phase.split)

lemma pending_drop: "x \<in> set (ps_tasks s) \<Longrightarrow>
    runs_pending s = runs_pending (s\<lparr>ps_tasks := remove1 x (ps_tasks s)\<rparr>) + (if run_of x = None then 0 else 1)"
proof -
  assume x: "x \<in> set (ps_tasks s)"
  have "length (filter P xs) = length (filter P (remove1 x xs)) + (if P x then 1 else 0)" if "x \<in> set xs" for P :: "pool_task \<Rightarrow> bool" and xs
    using that by (induction xs) auto
  from this [OF x, of "\<lambda>x. run_of x \<noteq> None"] show ?thesis by (simp add: runs_pending_def)
qed

lemma reach_answers: "pool_reach tb s \<Longrightarrow> ps_calls s = length (ps_results s) + runs_pending s"
proof (induction rule: pool_reach.induct)
  case (reach_start now)
  show ?case by (simp add: pool_initial_def runs_pending_def)
next
  case (reach_step s m t)
  from reach_step.hyps(2) show ?case
  proof (cases rule: pool_step.cases)
    case (does x a)
    with reach_step.IH pending_drop [OF does(4)] run_task_result [of tb a x "s\<lparr>ps_tasks := remove1 x (ps_tasks s)\<rparr>"]
    show ?thesis by simp
  next
    case (asks q)
    with reach_step.IH show ?thesis
      by (auto simp: take_request_def start_run_def handleEvent_def ensureInstance_def runs_pending_def stop_stack_rows_def push_def
          split: pool_request.split option.split)
  next
    case (waits k)
    with reach_step.IH show ?thesis by (simp add: runs_pending_def)
  next
    case (retries due c)
    with reach_step.IH show ?thesis by (simp add: start_run_def runs_pending_def push_def)
  qed
qed

section \<open>What follows\<close>

text \<open>C12: the cap of a job pool holds. Whatever triggers fire, however their runs, the exits of their
  containers, retries, the reaper, the stops of stacks and the calls on other pools interleave, and whatever
  the database and Docker answer, the table never holds more runs of a job pool that are starting
  or running than its configuration allows. Services are identified by stack and name.\<close>

theorem job_cap_kept:
  assumes "pool_reach tb s" and "tables_ok tb" and "v \<in> set (pt_services tb)" and "pv_serviceType v = ''JobPool''"
    and "pv_jobPoolConfig v = Some cfg" and "jc_maxConcurrent cfg = Some m" and "0 \<le> m"
  shows "int (activeCount (pv_stackId v) (pv_serviceName v) (ps_rows s)) \<le> m"
proof -
  have "capped tb s" using reach_cap_inv [OF assms(1,2)] by (simp add: cap_inv_def)
  with assms(3-6) have "int (activeCount (pv_stackId v) (pv_serviceName v) (ps_rows s)) \<le> max 0 m"
    unfolding capped_def by blast
  with assms(7) show ?thesis by simp
qed


text \<open>C14: a run is recorded as what its container did. A row is completed, or an event says so, only if Docker reported
  the death of a container of that stack and instance with exit code 0; it is failed only if one was reported with another
  code or with none. A container that died without a reported code never counts as a success.\<close>

theorem runs_recorded_truly:
  assumes "pool_reach tb s"
  shows "(\<forall>r\<in>set (ps_rows s).
      (po_status r = Ps_completed \<longrightarrow> reported s (po_stackId r) (po_instanceId r) (Some 0)) \<and>
      (po_status r = Ps_failed \<longrightarrow> (\<exists>code. code \<noteq> Some 0 \<and> reported s (po_stackId r) (po_instanceId r) code))) \<and>
    (\<forall>h\<in>set (ps_history s). event_truth s h)"
  using reach_truth_inv [OF assms] by (auto simp: truth_inv_def row_truth_def)


text \<open>C31: every call of \<open>runJobPool\<close> ends, and once. In every reachable state the calls are those that have returned
  and those under way, and whatever the outside answers, the next step of a call under way
  either returns its one result or leaves it strictly nearer to its end, at most six steps away from the start.\<close>

theorem runs_end:
  assumes "pool_reach tb s"
  shows "ps_calls s = length (ps_results s) + runs_pending s \<and>
    (\<forall>x\<in>set (ps_tasks s). \<forall>c a. run_of x = Some c \<longrightarrow> run_rank x \<le> 6 \<and>
      (let t = run_task tb a x (s\<lparr>ps_tasks := remove1 x (ps_tasks s)\<rparr>) in
        (\<exists>r. ps_results t = ps_results s @ [(c, r)]) \<or>
        (\<exists>y\<in>set (ps_tasks t). run_of y = Some c \<and> run_rank y < run_rank x)))"
proof -
  have "run_rank x \<le> 6" for x by (cases x) auto
  moreover have "(\<exists>r. ps_results t = ps_results s @ [(c, r)]) \<or> (\<exists>y\<in>set (ps_tasks t). run_of y = Some c \<and> run_rank y < run_rank x)"
    if "run_of x = Some c" "t = run_task tb a x (s\<lparr>ps_tasks := remove1 x (ps_tasks s)\<rparr>)" for x c a t
    using run_task_progress [OF that(1), of tb a "s\<lparr>ps_tasks := remove1 x (ps_tasks s)\<rparr>"] that(2) by auto
  ultimately show ?thesis using reach_answers [OF assms] by (simp add: Let_def)
qed

section \<open>Runs\<close>

text \<open>A script that the event loop can follow: the place of the next task in the list, or what comes from outside.\<close>

datatype cue = Task nat pool_answer | Ask pool_request | Wait int | Retry nat

fun play_cue :: "pool_tables \<Rightarrow> cue \<Rightarrow> pool_state \<Rightarrow> pool_state" where
  "play_cue tb (Task k a) s =
     (if \<not> ps_crashed s \<and> k < length (ps_tasks s)
      then run_task tb a (ps_tasks s ! k) (s\<lparr>ps_tasks := remove1 (ps_tasks s ! k) (ps_tasks s)\<rparr>) else s)"
| "play_cue tb (Ask q) s = (if ps_crashed s then s else take_request tb q s)"
| "play_cue tb (Wait k) s = (if \<not> ps_crashed s \<and> 0 \<le> k then s\<lparr>ps_now := ps_now s + k\<rparr> else s)"
| "play_cue tb (Retry k) s =
     (if \<not> ps_crashed s \<and> k < length (ps_timers s) \<and> fst (ps_timers s ! k) \<le> ps_now s
      then start_run (snd (ps_timers s ! k)) (s\<lparr>ps_timers := remove1 (ps_timers s ! k) (ps_timers s)\<rparr>) else s)"

definition play :: "pool_tables \<Rightarrow> cue list \<Rightarrow> pool_state \<Rightarrow> pool_state" where
  "play tb cues s = fold (play_cue tb) cues s"

lemma play_cue_reach:
  assumes "pool_reach tb s"
  shows "pool_reach tb (play_cue tb q s)"
proof (cases q)
  case (Task k a)
  with assms reach_step [OF assms does [of s "ps_tasks s ! k" tb a]] show ?thesis by simp
next
  case (Ask r)
  with assms reach_step [OF assms asks [of s tb r]] show ?thesis by simp
next
  case (Wait k)
  with assms reach_step [OF assms waits [of s k tb]] show ?thesis by simp
next
  case (Retry k)
  show ?thesis
  proof (cases "\<not> ps_crashed s \<and> k < length (ps_timers s) \<and> fst (ps_timers s ! k) \<le> ps_now s")
    case True
    then have "(fst (ps_timers s ! k), snd (ps_timers s ! k)) \<in> set (ps_timers s)" by simp
    with True Retry reach_step [OF assms retries [of s "fst (ps_timers s ! k)" "snd (ps_timers s ! k)" tb]] show ?thesis by simp
  next
    case False
    then have "play_cue tb (Retry k) s = s" by auto
    with Retry assms show ?thesis by simp
  qed
qed

lemma play_reach: "pool_reach tb (play tb cues (pool_initial now))"
proof -
  have "pool_reach tb s \<Longrightarrow> pool_reach tb (fold (play_cue tb) cues s)" for s
    by (induction cues arbitrary: s) (auto intro: play_cue_reach)
  then show ?thesis by (simp add: play_def reach_start)
qed

text \<open>A stack with a job pool that runs one job at a time, kills it after a minute and tries once more,
  and with a pool of one instance.\<close>

definition sample_job :: job_pool_config where
  "sample_job = \<lparr>jc_maxConcurrent = Some 1, jc_triggers = [Manual_trigger ''m'' None], jc_killAfterSeconds = Some 60,
     jc_onFailure = Some \<lparr>of_retries = 1, of_backoff = Fixed_backoff\<rparr>\<rparr>"

definition sample_services :: "pool_service list" where
  "sample_services =
     [\<lparr>pv_stackId = ''s'', pv_serviceName = ''job'', pv_serviceType = ''JobPool'', pv_labels = [], pv_poolConfig = None,
       pv_jobPoolConfig = Some sample_job\<rparr>,
      \<lparr>pv_stackId = ''s'', pv_serviceName = ''web'', pv_serviceType = ''Pool'', pv_labels = [],
       pv_poolConfig = Some \<lparr>pc_defaultIdleTimeoutMinutes = 30, pc_maxInstances = Some 1\<rparr>, pv_jobPoolConfig = None\<rparr>]"

definition sample_pools :: pool_tables where
  "sample_pools = \<lparr>pt_services = sample_services,
     pt_stacks = [\<lparr>sk_id = ''s'', sk_name = ''n'', sk_environmentId = None, sk_inError = False\<rparr>],
     pt_resolvers = [], pt_parse = (\<lambda>_. None)\<rparr>"

definition well :: "string \<Rightarrow> spawn_outcome \<Rightarrow> pool_answer" where
  "well uuid spawn = \<lparr>aw_db = True, aw_docker = True, aw_uuid = uuid, aw_resolved = Inl [], aw_spawned = spawn, aw_message = []\<rparr>"

definition manual :: pool_request where
  "manual = Trigger ''s'' ''job'' \<lparr>tr_kind = ''manual'', tr_name = ''m'', tr_metadata = None\<rparr> None"

text \<open>The death of a container with the labels that \<open>spawn_run\<close> gave it.\<close>

definition died :: "string \<Rightarrow> string \<Rightarrow> nat \<Rightarrow> int option \<Rightarrow> pool_request" where
  "died run name k code = Container_event \<lparr>de_action = ''die'',
     de_labels = stack_labels sample_pools ''s'' ''job'' run (run_labels \<lparr>tr_kind = ''manual'', tr_name = name, tr_metadata = None\<rparr> k []),
     de_containerId = ''c'', de_exitCode = code\<rparr>"

text \<open>One run up to where it is running; \<open>go\<close> runs the first task of the list.\<close>

definition go :: "string \<Rightarrow> string \<Rightarrow> cue" where
  "go uuid cid = Task 0 (well uuid (Spawned cid))"

definition start_job :: "string \<Rightarrow> string \<Rightarrow> cue list" where
  "start_job uuid cid = Ask manual # replicate 5 (go uuid cid)"

definition end_job :: "string \<Rightarrow> string \<Rightarrow> nat \<Rightarrow> int option \<Rightarrow> cue list" where
  "end_job run name k code = Ask (died run name k code) # replicate 3 (go [] [])"

lemmas play_defs = start_job_def end_job_def go_def died_def manual_def well_def play_def

lemma sample_ok: "tables_ok sample_pools"
  by (simp add: tables_ok_def sample_pools_def sample_services_def)

text \<open>Two triggers: the second is turned away.\<close>

definition two_triggers :: pool_state where
  "two_triggers = play sample_pools (start_job ''a'' ''c'' @ start_job ''b'' ''d'') (pool_initial 0)"

lemma two_triggers_reach: "pool_reach sample_pools two_triggers"
  unfolding two_triggers_def by (rule play_reach)

lemma two_triggers_facts:
  "activeCount ''s'' ''job'' (ps_rows two_triggers) = 1"
  "map snd (ps_results two_triggers) = [Run_ok ''a'' 0 ''c'', Run_capped 1]"
  by code_simp+

text \<open>A run that fails, its retry, which fails too.\<close>

definition tried_twice :: pool_state where
  "tried_twice = play sample_pools
     (start_job ''a'' ''c'' @ end_job ''a'' ''m'' 0 (Some 3) @ Wait 30000 # Retry 0 # replicate 5 (go ''b'' ''d'') @
      end_job ''b'' ''m#retry1'' 1 None)
     (pool_initial 0)"

lemma tried_twice_reach: "pool_reach sample_pools tried_twice"
  unfolding tried_twice_def by (rule play_reach)

lemma tried_twice_facts:
  "map (\<lambda>p. (rn_attemptedRetries (fst p), tr_name (rn_trigger (fst p)))) (ps_results tried_twice) = [(0, ''m''), (1, ''m#retry1'')]"
  "map po_status (ps_rows tried_twice) = [Ps_failed, Ps_failed]"
  "map po_errorMessage (ps_rows tried_twice) =
     [Some ''Container exited with code 3'', Some ''Container died without a reported exit code'']"
  "ps_timers tried_twice = []"
  "ps_calls tried_twice = 2"
  by code_simp+

text \<open>A run over its limit: the reaper kills it and its container, told to stop, exits with code 0.\<close>

definition tick :: "cue list" where
  "tick = Ask Reaper_interval # replicate 12 (go [] [])"

definition killed_cleanly :: pool_state where
  "killed_cleanly = play sample_pools
     (start_job ''a'' ''c'' @ Wait 61000 # tick @ end_job ''a'' ''m'' 0 (Some 0)) (pool_initial 0)"

lemma killed_reach: "pool_reach sample_pools killed_cleanly"
  unfolding killed_cleanly_def by (rule play_reach)

lemma killed_facts:
  "map (\<lambda>c. case c of P_reap ph r t \<Rightarrow> Some (ph, po_instanceId r, t) | _ \<Rightarrow> None) (ps_log killed_cleanly) =
     [None, Some (Reap_kill, ''a'', 61000)]"
  "map po_status (ps_rows killed_cleanly) = [Ps_completed]"
  "map po_errorMessage (ps_rows killed_cleanly) = [None]"
  by code_simp+

text \<open>A start that takes more than five minutes: the reaper gives the row up without a container to stop,
  the slot is free, and a second run starts beside the first.\<close>

definition started_late :: pool_state where
  "started_late = play sample_pools
     (Ask manual # replicate 3 (go ''a'' ''c'') @ Wait 300001 # Ask Reaper_interval # Task 1 (well [] (Spawned [])) #
      replicate 8 (Task 1 (well [] (Spawned []))) @ replicate 3 (go [] ''c'') @ start_job ''b'' ''d'')
     (pool_initial 0)"

lemma started_late_facts:
  "map snd (ps_results started_late) = [Run_ok ''a'' 0 ''c'', Run_ok ''b'' 1 ''d'']"
  "map po_status (ps_rows started_late) = [Ps_error, Ps_running]"
  "ps_heard started_late = []"
  "list_all (\<lambda>c. case c of P_reap _ _ _ \<Rightarrow> False | _ \<Rightarrow> True) (ps_log started_late)"
  by code_simp+

text \<open>A pool of one: the instance that is starting is deleted, another one is started, and when the first has
  come up its row is running again.\<close>

definition deleted_early :: pool_state where
  "deleted_early = play sample_pools
     ([Ask (Ensure_instance ''s'' ''web'' ''x'' [] None), go [] [], Ask (Delete_instance ''s'' ''web'' ''x''),
       Task 1 (well [] (Spawned [])), Task 1 (well [] (Spawned [])),
       Ask (Ensure_instance ''s'' ''web'' ''y'' [] None), Task 1 (well [] (Spawned [])),
       go [] ''c'', Task 0 (well [] (Spawned ''d'')), go [] [], go [] []])
     (pool_initial 0)"

lemma deleted_early_facts:
  "map po_status (ps_rows deleted_early) = [Ps_running, Ps_running]"
  "activeCount ''s'' ''web'' (ps_rows deleted_early) = 2"
  by code_simp+

text \<open>A read of the reaper that the database does not answer ends the process.\<close>

definition reaper_failed :: pool_state where
  "reaper_failed = play sample_pools [Ask Reaper_interval, go [] [], Task 0 ((well [] (Spawned []))\<lparr>aw_db := False\<rparr>)] (pool_initial 0)"

lemma reaper_failed_fact: "ps_crashed reaper_failed"
  by code_simp

section \<open>Witnesses\<close>

lemma sample_job_service: "hd sample_services \<in> set (pt_services sample_pools)"
  by (simp add: sample_services_def sample_pools_def)

theorem job_cap_kept_witness:
  "int (activeCount ''s'' ''job'' (ps_rows two_triggers)) \<le> 1 \<and> activeCount ''s'' ''job'' (ps_rows two_triggers) = 1"
  using job_cap_kept [OF two_triggers_reach sample_ok sample_job_service, of sample_job 1] two_triggers_facts(1)
  by (simp add: sample_services_def sample_job_def)


theorem runs_recorded_truly_witness:
  "reported killed_cleanly ''s'' ''a'' (Some 0) \<and> (\<exists>code. code \<noteq> Some 0 \<and> reported tried_twice ''s'' ''b'' code)"
proof -
  have done': "\<exists>r\<in>set (ps_rows killed_cleanly). po_status r = Ps_completed \<and> po_stackId r = ''s'' \<and> po_instanceId r = ''a''"
    and failed: "\<exists>r\<in>set (ps_rows tried_twice). po_status r = Ps_failed \<and> po_stackId r = ''s'' \<and> po_instanceId r = ''b''"
    by code_simp+
  from runs_recorded_truly [OF killed_reach] done' have "reported killed_cleanly ''s'' ''a'' (Some 0)" by metis
  moreover from runs_recorded_truly [OF tried_twice_reach] failed
  have "\<exists>code. code \<noteq> Some 0 \<and> reported tried_twice ''s'' ''b'' code" by metis
  ultimately show ?thesis by blast
qed


theorem runs_end_witness: "ps_calls tried_twice = 2 \<and> length (ps_results tried_twice) + runs_pending tried_twice = 2"
  using runs_end [OF tried_twice_reach] tried_twice_facts(5) by simp

end
