(* ===== verification/Spec2Isabelle.thy ===== *)
theory Spec2Isabelle
  imports InitialDeploy RemovalDeploy DeploymentPhase CircuitBreaker OperationLock InMemoryQueue
    MembershipStore NetworkRepair NetworkGc ConvergenceScheduler UnifiedNetworks ApplyCalls PoolSafety
begin

text \<open>
  A model of the deployment core of Mini Infra, the server under \<open>src/server/src\<close> that deploys stacks of
  containers on a Docker host, routes traffic to them through HAProxy and keeps their DNS records,
  certificates and tunnels.

  Parts and how they interact. A stack is a row with services, networks, volumes and resources. Its plan
  (\<open>services/stacks/stack-plan-computer.ts\<close>) compares what Docker runs with what the definitions, expanded
  by addons (\<open>services/stack-addons\<close>), resolved by the template engine and reduced to a hash, ask for. An
  apply or update (\<open>stack-reconciler.ts\<close>) reconciles the external resources, resolves the
  secret variables and hands each action to a handler (\<open>stack-service-handlers.ts\<close>), which replaces a
  container or starts a deployment machine (\<open>services/haproxy/*-state-machine.ts\<close>). Around these stand the
  operation lock, the store of network memberships with its keyed mutex, the networks compiled into it
  and kept in step with Docker by sweeps, the job queue and the circuit breaker of the connectivity checks.

  Theories, in the order of their dependencies.
  \<^item> \<open>Prelude\<close>: optional values, strings, JSON values and maps in insertion order, with their hints.
  \<^item> \<open>Statechart\<close>: a step of a machine (guarded transitions, entry actions, \<open>always\<close>, \<open>after\<close>),
    runs over a list of signals, and the locale that turns a rank into progress.
  \<^item> \<open>DeployContext\<close>: the contexts of the machines and the interface of the actions they call.
  \<^item> \<open>BlueGreenDeploy\<close>, \<open>BlueGreenUpdate\<close>, \<open>InitialDeploy\<close>, \<open>RemovalDeploy\<close>: the four machines, one
    definition per node and per action; for each an invariant over every run, what it tears down, and
    that it ends once its calls are answered. The update machine refines the deployment
    machine. \<open>DeploymentPhase\<close>: \<open>deployment-phase-emitter.ts\<close> and the runner of the machines.
  \<^item> \<open>CircuitBreaker\<close>, \<open>OperationLock\<close>, \<open>InMemoryQueue\<close>, \<open>KeyedMutex\<close>, \<open>MembershipStore\<close>: the
    concurrent services, as step relations or event lists with invariants over what is reachable.
  \<^item> \<open>NetworkNames\<close>, \<open>NetworkManager\<close>, \<open>NetworkReconcile\<close>, \<open>NetworkConverge\<close>, \<open>MembershipCompiler\<close>: the Docker
    networks under \<open>services/networks\<close>: the operations of the manager, the report of drift, the sweeps that act
    on it, and the compilation of a stack's declarations into rows. Which calls a sweep or a removal may
    make is shown for any daemon and any outcome. \<open>NetworkHealth\<close> describes a daemon that answers, and
    \<open>NetworkRepair\<close> shows that the report is then exact, that two sweeps repair what is missing, and
    that declarations so become attachments. \<open>NetworkGc\<close>: the collection of networks whose owner is gone;
    \<open>ConvergenceScheduler\<close>: the debounced triggers of the sweeps over an event loop; \<open>UnifiedNetworks\<close>: the
    translation of the unified spelling of networks into the older one, refused exactly when ambiguous.
  \<^item> \<open>Effects\<close>: operations that call services and may throw, with rules for sequences, handlers and loops.
  \<^item> \<open>JsonPrint\<close>, \<open>DefinitionHash\<close>: \<open>stacks/definition-hash.ts\<close>; the canonical text is injective up to
    the order of keys, so equal hashes mean equal definitions.
  \<^item> \<open>ResourceReconciler\<close>, \<open>ResourceApply\<close>: \<open>stack-resource-reconciler.ts\<close>; when an apply of the plan
    settles everything, and the two changes that never settle.
  \<^item> \<open>TemplateEngine\<close>, \<open>PlanComputer\<close>, \<open>AddonExpansion\<close>, \<open>ServiceResolution\<close>: from the rows of a stack
    to its plan; structure of the expansion, exactness of the plan, agreement of a plan with an apply
    and where they disagree.
  \<^item> \<open>ServiceHandlers\<close>, \<open>DynamicEnv\<close>, \<open>StackApply\<close>: the handlers of one service, the variables of the
    services, and \<open>applyInner\<close>, \<open>updateInner\<close> and \<open>stopStackInner\<close> of \<open>stack-reconciler.ts\<close>, composed
    of them. What they do to the outside is the trace \<open>ap_calls\<close> of calls of a \<open>host\<close>; the row of the stack, its
    history and its resources are part of the state. \<open>ApplyOutcome\<close> shows what they return and record,
    \<open>ApplyCalls\<close> in what order they touch the outside.
  \<^item> \<open>PoolRows\<close>, \<open>JobPools\<close>, \<open>PoolSafety\<close>: instances of pools and runs of job pools
    (\<open>stacks/job-pool-*.ts\<close>, \<open>pool-instance-reaper.ts\<close>, \<open>routes/stacks/stacks-pool-routes.ts\<close>) as
    operations over one table that interleave at every \<open>await\<close>. In every reachable state the caps and
    retries of job pools are bounded and what is recorded is what Docker reported; every run ends. Runs that are
    possible all the same, such as a deleted instance that comes back, are shown step by step.

  Conventions. Records carry the field names of the source; absent and \<open>null\<close> optional fields are
  \<open>None\<close> where the code does not tell them apart. Errors are the left side of a sum. JavaScript
  numbers that are counts, ports or times are \<open>int\<close>, which is exact below $2^{53}$. Objects and maps are
  association lists in insertion order. Strings are lists of characters of one byte.

  Bounds. No fuel is used: every function terminates, by its argument or by a measure. The liveness
  theorems bound the length of a run by the rank of its machine; the queue and the mutex are measured
  by their remaining tickets.

  Parameters. SHA-256 (\<open>sha\<close>, injective where a theorem says so), \<open>localeCompare\<close> (\<open>le\<close>), reading of
  numerals other than decimal integers (\<open>num\<close>), random suffixes, Docker, HAProxy, the database, Vault, NATS, the
  cloud services and the addons themselves. Each theorem with an assumption on a parameter has a
  witness with a concrete one.

  Not modelled: the clients of Docker, HAProxy, Vault, NATS, DNS and storage, which only call other
  programs; routes, authentication and the web client; the template, status and egress services of
  the server, the registries of cron and NATS triggers, and the listing of networks; the agents in Go and the sidecars. The
  stack's socket messages, log lines and durations are left out everywhere.
\<close>

end
